(* ===== verification/Prelude.thy ===== *)
theory Prelude
  imports Main "HOL-Library.Word"
begin

text \<open>
  Shared vocabulary of the development: machine integers at their Rust widths, octet buffers, the
  result of a fallible Rust function (a value, an error of the crate's error enum, or a panic), the
  big-endian readers and writers behind every codec of the core, and the interfaces (locales) that
  the protocol components implement: \<open>octet_enum\<close> for the \<^verbatim>\<open>#[repr(u8)]\<close> message-type enums with their
  \<^verbatim>\<open>TryFrom<u8>\<close> and \<open>byte_codec\<close> for header codecs.

  A \<^verbatim>\<open>Bytes\<close> or \<^verbatim>\<open>BytesMut\<close> buffer is the list of the octets that remain to be read, or have been
  written; \<^verbatim>\<open>put_u16\<close> and friends append the big-endian octets of their argument, \<^verbatim>\<open>get_u16\<close> and
  friends take them off the front and panic when too few octets are left.
\<close>

unbundle bit_operations_syntax

section \<open>Types and proof collections\<close>

type_synonym u8 = "8 word"
type_synonym u16 = "16 word"
type_synonym u32 = "32 word"
type_synonym u64 = "64 word"
type_synonym bytes = "u8 list"

named_theorems wire_defs \<open>definitions of encoders and decoders of wire formats\<close>
named_theorems wire_bits \<open>bit-level facts about flag octets and masked fields\<close>

section \<open>Results of Rust functions\<close>

text \<open>\<open>Ok\<close> and \<open>Err\<close> are Rust's \<^verbatim>\<open>Result\<close>; \<open>Panic\<close> is a panic of the thread.\<close>

datatype (errs: 'e, oks: 'a) outcome = Ok 'a | Err 'e | Panic

definition obind :: "('e, 'a) outcome \<Rightarrow> ('a \<Rightarrow> ('e, 'b) outcome) \<Rightarrow> ('e, 'b) outcome" where
  "obind m k = (case m of Ok x \<Rightarrow> k x | Err e \<Rightarrow> Err e | Panic \<Rightarrow> Panic)"

lemma obind_simps [simp]:
  "obind (Ok x) k = k x" "obind (Err e) k = Err e" "obind Panic k = Panic"
  by (simp_all add: obind_def)

lemma obind_eq_Ok: "obind m k = Ok y \<longleftrightarrow> (\<exists>x. m = Ok x \<and> k x = Ok y)"
  by (cases m) simp_all

lemma obind_eq_Panic: "obind m k = Panic \<longleftrightarrow> m = Panic \<or> (\<exists>x. m = Ok x \<and> k x = Panic)"
  by (cases m) simp_all

lemma obind_cong [fundef_cong]:
  "m = m' \<Longrightarrow> (\<And>x. m' = Ok x \<Longrightarrow> k x = k' x) \<Longrightarrow> obind m k = obind m' k'"
  by (cases m') simp_all

lemma obind_assoc: "obind (obind m k) l = obind m (\<lambda>x. obind (k x) l)"
  by (cases m) simp_all

section \<open>Big-endian octets of machine integers\<close>

text \<open>
  \<^verbatim>\<open>u16::to_be_bytes\<close>, \<^verbatim>\<open>u32::to_be_bytes\<close>, \<^verbatim>\<open>u64::to_be_bytes\<close> and their inverses: the high half of the
  word first, then the low half.
\<close>

definition to_be16 :: "u16 \<Rightarrow> bytes" where
  "to_be16 w = [ucast (drop_bit 8 w), ucast w]"

definition to_be32 :: "u32 \<Rightarrow> bytes" where
  "to_be32 w = to_be16 (ucast (drop_bit 16 w)) @ to_be16 (ucast w)"

definition to_be64 :: "u64 \<Rightarrow> bytes" where
  "to_be64 w = to_be32 (ucast (drop_bit 32 w)) @ to_be32 (ucast w)"

definition from_be16 :: "u8 \<Rightarrow> u8 \<Rightarrow> u16" where
  "from_be16 a b = push_bit 8 (ucast a) OR ucast b"

definition from_be32 :: "u8 \<Rightarrow> u8 \<Rightarrow> u8 \<Rightarrow> u8 \<Rightarrow> u32" where
  "from_be32 a b c d = push_bit 16 (ucast (from_be16 a b)) OR ucast (from_be16 c d)"

definition from_be64 :: "u8 \<Rightarrow> u8 \<Rightarrow> u8 \<Rightarrow> u8 \<Rightarrow> u8 \<Rightarrow> u8 \<Rightarrow> u8 \<Rightarrow> u8 \<Rightarrow> u64" where
  "from_be64 a b c d e f g h =
     push_bit 32 (ucast (from_be32 a b c d)) OR ucast (from_be32 e f g h)"

text \<open>A word is its two halves, at every width that is twice another.\<close>

lemma join_halves:
  fixes w :: "'b::len word"
  assumes "LENGTH('b) = 2 * LENGTH('a::len)"
  shows "push_bit LENGTH('a) (ucast (ucast (drop_bit LENGTH('a) w) :: 'a word)) OR
           ucast (ucast w :: 'a word) = w"
  using assms by (intro bit_word_eqI) (auto simp: bit_simps dest: bit_imp_le_length)

lemma high_half:
  fixes h l :: "'a::len word"
  assumes "LENGTH('b::len) = 2 * LENGTH('a)"
  shows "ucast (drop_bit LENGTH('a) (push_bit LENGTH('a) (ucast h) OR ucast l :: 'b word)) = h"
  using assms by (intro bit_word_eqI) (auto simp: bit_simps dest: bit_imp_le_length)

lemma low_half:
  fixes h l :: "'a::len word"
  assumes "LENGTH('b::len) = 2 * LENGTH('a)"
  shows "ucast (push_bit LENGTH('a) (ucast h) OR ucast l :: 'b word) = l"
  using assms by (intro bit_word_eqI) (auto simp: bit_simps dest: bit_imp_le_length)

lemmas halves16 =
  join_halves [where 'a = 8 and 'b = 16, simplified]
  high_half [where 'a = 8 and 'b = 16, simplified]
  low_half [where 'a = 8 and 'b = 16, simplified]

lemmas halves32 =
  join_halves [where 'a = 16 and 'b = 32, simplified]
  high_half [where 'a = 16 and 'b = 32, simplified]
  low_half [where 'a = 16 and 'b = 32, simplified]

lemmas halves64 =
  join_halves [where 'a = 32 and 'b = 64, simplified]
  high_half [where 'a = 32 and 'b = 64, simplified]
  low_half [where 'a = 32 and 'b = 64, simplified]

lemma length_to_be [simp]:
  "length (to_be16 v) = 2" "length (to_be32 w) = 4" "length (to_be64 x) = 8"
  by (simp_all add: to_be16_def to_be32_def to_be64_def)

lemma to_from_be16 [simp]: "to_be16 (from_be16 a b) = [a, b]"
  by (simp add: to_be16_def from_be16_def halves16)

lemma to_from_be32 [simp]: "to_be32 (from_be32 a b c d) = [a, b, c, d]"
  by (simp add: to_be32_def from_be32_def halves32)

lemma to_from_be64 [simp]: "to_be64 (from_be64 a b c d e f g h) = [a, b, c, d, e, f, g, h]"
  by (simp add: to_be64_def from_be64_def halves64)

text \<open>The octets of a word as variables: the shape in which decoders meet them.\<close>

lemma to_be16_octets: obtains a b where "to_be16 w = [a, b]" and "from_be16 a b = w"
  by (simp add: to_be16_def from_be16_def halves16)

lemma to_be32_octets: obtains a b c d where "to_be32 w = [a, b, c, d]" and "from_be32 a b c d = w"
  by (simp add: to_be32_def to_be16_def from_be32_def from_be16_def halves16 halves32)

lemma to_be64_octets:
  obtains a b c d e f g h where "to_be64 w = [a, b, c, d, e, f, g, h]"
    and "from_be64 a b c d e f g h = w"
  by (simp add: to_be64_def to_be32_def to_be16_def from_be64_def from_be32_def from_be16_def
      halves16 halves32 halves64)

section \<open>Numbers of fewer bits than their word\<close>

lemma word_below_power:
  fixes x :: "'a::len word"
  assumes "n < LENGTH('a)"
  shows "x < 2 ^ n \<longleftrightarrow> take_bit n x = x"
proof
  assume "x < 2 ^ n" then show "take_bit n x = x"
    by (simp add: take_bit_eq_mask less_mask_eq)
next
  assume "take_bit n x = x"
  moreover have "take_bit n x < 2 ^ n"
    using assms by (simp add: take_bit_eq_mask and_mask_less')
  ultimately show "x < 2 ^ n" by simp
qed

lemma word_below_24: "(x :: u32) < 0x1000000 \<longleftrightarrow> take_bit 24 x = x"
  using word_below_power [of 24 x] by simp

text \<open>Shifts and masks as arithmetic on naturals.\<close>

lemma unat_take_bit_mod: "unat (take_bit n (c :: 'a::len word)) = unat c mod 2 ^ n"
  by (simp add: unsigned_take_bit_eq flip: take_bit_eq_mod)

lemma unat_drop_bit_div: "unat (drop_bit n (c :: 'a::len word)) = unat c div 2 ^ n"
  by (metis unat_drop_bit_eq drop_bit_eq_div)

lemma unat_push_bit_mult: "unat (push_bit n (c :: 'a::len word)) = unat c * 2 ^ n mod 2 ^ LENGTH('a)"
  by (metis unsigned_push_bit_eq push_bit_eq_mult take_bit_eq_mod)

text \<open>A 24-bit number survives the shift into the upper octets of a word and back.\<close>

lemma drop_push_24: "x < 0x1000000 \<Longrightarrow> drop_bit 8 (push_bit 8 x) = (x :: u32)"
proof -
  assume "x < 0x1000000"
  then have "take_bit 24 x = x" by (simp add: word_below_24)
  moreover have "drop_bit 8 (push_bit 8 x) = take_bit 24 x"
    by (rule bit_word_eqI) (auto simp: bit_simps)
  ultimately show ?thesis by simp
qed

lemma drop_8_below_24: "drop_bit 8 (x :: u32) < 0x1000000"
  unfolding word_below_24 by (rule bit_word_eqI) (auto simp: bit_simps dest: bit_imp_le_length)

section \<open>Printing\<close>

text \<open>Decimal digits, as \<^verbatim>\<open>format!\<close> prints an unsigned number.\<close>

fun show_nat :: "nat \<Rightarrow> string" where
  "show_nat n = (if n < 10 then [char_of (48 + n)] else show_nat (n div 10) @ [char_of (48 + n mod 10)])"

declare show_nat.simps [simp del]

text \<open>Lower-case hexadecimal digits with the prefix of \<^verbatim>\<open>{:#x}\<close>.\<close>

fun hex_digits :: "nat \<Rightarrow> string" where
  "hex_digits n = (let d = n mod 16; c = char_of (if d < 10 then 48 + d else 87 + d)
                   in if n < 16 then [c] else hex_digits (n div 16) @ [c])"

declare hex_digits.simps [simp del]

definition show_hex :: "nat \<Rightarrow> string" where
  "show_hex n = ''0x'' @ hex_digits n"

section \<open>Reading from the front of a buffer\<close>

fun get_u8 :: "bytes \<Rightarrow> ('e, u8 \<times> bytes) outcome" where
  "get_u8 (a # r) = Ok (a, r)"
| "get_u8 [] = Panic"

fun get_u16 :: "bytes \<Rightarrow> ('e, u16 \<times> bytes) outcome" where
  "get_u16 (a # b # r) = Ok (from_be16 a b, r)"
| "get_u16 _ = Panic"

fun get_u32 :: "bytes \<Rightarrow> ('e, u32 \<times> bytes) outcome" where
  "get_u32 (a # b # c # d # r) = Ok (from_be32 a b c d, r)"
| "get_u32 _ = Panic"

fun get_u64 :: "bytes \<Rightarrow> ('e, u64 \<times> bytes) outcome" where
  "get_u64 (a # b # c # d # e # f # g # h # r) = Ok (from_be64 a b c d e f g h, r)"
| "get_u64 _ = Panic"

lemma get_put [simp]:
  "get_u16 (to_be16 v @ r) = Ok (v, r)"
  "get_u32 (to_be32 w @ r) = Ok (w, r)"
  "get_u64 (to_be64 x @ r) = Ok (x, r)"
  by (simp_all add: to_be16_def to_be32_def to_be64_def from_be16_def from_be32_def from_be64_def
        halves16 halves32 halves64)

text \<open>A buffer of sufficient length always has the octets a reader asks for.\<close>

lemma length_ge_Cons: "Suc n \<le> length xs \<longleftrightarrow> (\<exists>x ys. xs = x # ys \<and> n \<le> length ys)"
  by (cases xs) auto

lemma buffer_ge4: "4 \<le> length bs \<longleftrightarrow> (\<exists>a b c d r. bs = a # b # c # d # r)"
  by (auto simp: numeral_eq_Suc length_ge_Cons)

lemma buffer_ge8:
  "8 \<le> length bs \<longleftrightarrow> (\<exists>a b c d e f g h r. bs = a # b # c # d # e # f # g # h # r)"
  by (auto simp: numeral_eq_Suc length_ge_Cons)

section \<open>Interface of an octet enum\<close>

text \<open>
  A \<^verbatim>\<open>#[repr(u8)]\<close> enum with its \<^verbatim>\<open>as u8\<close> cast and its \<^verbatim>\<open>TryFrom<u8>\<close>: the conversion accepts exactly
  the octets the cast produces, and reports any other octet with the crate's error.
\<close>

locale octet_enum =
  fixes as_u8 :: "'m \<Rightarrow> u8"
    and try_from :: "u8 \<Rightarrow> ('e, 'm) outcome"
    and invalid :: "u8 \<Rightarrow> 'e"
  assumes try_from_as_u8: "try_from (as_u8 m) = Ok m"
    and as_u8_try_from: "try_from v = Ok m \<Longrightarrow> as_u8 m = v"
    and try_from_cases: "(\<exists>m. try_from v = Ok m) \<or> try_from v = Err (invalid v)"
begin

lemma as_u8_inj: "as_u8 m = as_u8 n \<longleftrightarrow> m = n"
proof
  assume "as_u8 m = as_u8 n"
  then have "try_from (as_u8 m) = try_from (as_u8 n)" by (rule arg_cong)
  then show "m = n" unfolding try_from_as_u8 by simp
qed simp

lemma try_from_Ok_iff: "try_from v = Ok m \<longleftrightarrow> v = as_u8 m"
  using as_u8_try_from try_from_as_u8 by blast

lemma try_from_Err_iff: "try_from v = Err x \<longleftrightarrow> v \<notin> range as_u8 \<and> x = invalid v"
proof (cases "v \<in> range as_u8")
  case True
  then obtain m where "try_from v = Ok m" by (auto simp: try_from_Ok_iff)
  with True show ?thesis by simp
next
  case False
  then have "try_from v = Err (invalid v)"
    using try_from_cases [of v] try_from_Ok_iff by blast
  with False show ?thesis by auto
qed

lemma try_from_no_panic: "try_from v \<noteq> Panic"
  using try_from_cases [of v] by auto

end

section \<open>Interface of a header codec\<close>

text \<open>
  A codec of a message header: \<open>enc\<close> appends the octets of a value, \<open>dec\<close> reads a value off the front
  of a buffer and leaves the rest, \<open>wf\<close> is the invariant of the values a decoder can produce. The
  decoder inverts the encoder on such values, yields only such values, consumes exactly the octets
  that encoding the value would take, and never panics, whatever a peer sends.
\<close>

locale byte_codec =
  fixes wf :: "'a \<Rightarrow> bool"
    and enc :: "'a \<Rightarrow> bytes"
    and dec :: "bytes \<Rightarrow> ('e, 'a \<times> bytes) outcome"
  assumes dec_enc: "wf x \<Longrightarrow> dec (enc x @ r) = Ok (x, r)"
    and dec_consumes: "dec b = Ok (x, r) \<Longrightarrow>
      wf x \<and> (\<exists>p. b = p @ r \<and> length p = length (enc x))"
    and dec_no_panic: "dec b \<noteq> Panic"
begin

text \<open>No encoding is a proper prefix of another: concatenated messages parse uniquely.\<close>

lemma enc_unique: "wf x \<Longrightarrow> wf y \<Longrightarrow> enc x @ r = enc y @ s \<Longrightarrow> x = y \<and> r = s"
proof -
  assume x: "wf x" and y: "wf y" and eq: "enc x @ r = enc y @ s"
  from dec_enc [OF x, of r] dec_enc [OF y, of s] have "Ok (x, r) = (Ok (y, s) :: ('e, 'a \<times> bytes) outcome)"
    unfolding eq by simp
  then show ?thesis by simp
qed

lemma enc_inj: "wf x \<Longrightarrow> wf y \<Longrightarrow> enc x = enc y \<Longrightarrow> x = y"
  using enc_unique [of x y "[]" "[]"] by simp

text \<open>
  Decoding, encoding the result and decoding again is the same as decoding once: whatever spare bits
  the decoder drops, the value is canonical.
\<close>

lemma dec_enc_dec: "dec b = Ok (x, r) \<Longrightarrow> dec (enc x @ r) = Ok (x, r)"
  using dec_consumes dec_enc by blast

lemma dec_length: "dec b = Ok (x, r) \<Longrightarrow> length b = length (enc x) + length r"
  using dec_consumes by fastforce

lemma dec_total: "(\<exists>x r. dec b = Ok (x, r)) \<or> (\<exists>e. dec b = Err e)"
  using dec_no_panic [of b] by (cases "dec b") auto

end

end
