(* ===== verification/Gtp_Error.thy ===== *)
theory Gtp_Error
  imports Prelude
begin

text \<open>The error enum of the GTP library crate (\<^verbatim>\<open>libs/nextgcore-gtp/src/error.rs\<close>).\<close>

datatype GtpError =
    BufferTooShort (needed: nat) (available: nat)
  | InvalidFormat string
  | InvalidHeader string
  | InvalidMessageType u8
  | InvalidIeType u8
  | MissingMandatoryIe string
  | InvalidIeLength (expected: nat) (actual: nat)
  | InvalidVersion u8
  | EncodingError string
  | DecodingError string
  | InvalidCause u8
  | InvalidTeid
  | InvalidSequenceNumber
  | InvalidPdnType u8
  | ResourceExhausted string

end
