(* ===== verification/Gtp1_Header.thy ===== *)
theory Gtp1_Header
  imports Gtp_Error
begin

text \<open>
  The GTPv1 header (\<^verbatim>\<open>libs/nextgcore-gtp/src/v1/header.rs\<close>) that every user-plane packet between the
  gNB and the UPF carries: the message-type enums of GTPv1-U and GTPv1-C, the header with its flag
  octet and optional fields, encoder and decoder. The enums are instances of \<open>octet_enum\<close>, the codec
  of \<open>byte_codec\<close>.
\<close>

section \<open>Constants and message types\<close>

definition GTPV1U_HEADER_LEN :: nat where "GTPV1U_HEADER_LEN = 8"
definition GTPV1C_HEADER_LEN :: nat where "GTPV1C_HEADER_LEN = 12"
definition GTP1_VERSION_1 :: u8 where "GTP1_VERSION_1 = 1"
definition GTP1U_FLAGS_PT :: u8 where "GTP1U_FLAGS_PT = 0x10"
definition GTP1U_FLAGS_E :: u8 where "GTP1U_FLAGS_E = 0x04"
definition GTP1U_FLAGS_S :: u8 where "GTP1U_FLAGS_S = 0x02"
definition GTP1U_FLAGS_PN :: u8 where "GTP1U_FLAGS_PN = 0x01"

lemmas gtp1_const_defs = GTPV1U_HEADER_LEN_def GTPV1C_HEADER_LEN_def GTP1_VERSION_1_def
  GTP1U_FLAGS_PT_def GTP1U_FLAGS_E_def GTP1U_FLAGS_S_def GTP1U_FLAGS_PN_def

datatype Gtp1uMessageType =
    EchoRequest
  | EchoResponse
  | ErrorIndication
  | SupportedExtensionHeadersNotification
  | TunnelStatus
  | EndMarker
  | GPdu

primrec gtp1u_as_u8 :: "Gtp1uMessageType \<Rightarrow> u8" where
  "gtp1u_as_u8 Gtp1uMessageType.EchoRequest = 1"
| "gtp1u_as_u8 Gtp1uMessageType.EchoResponse = 2"
| "gtp1u_as_u8 Gtp1uMessageType.ErrorIndication = 26"
| "gtp1u_as_u8 Gtp1uMessageType.SupportedExtensionHeadersNotification = 31"
| "gtp1u_as_u8 Gtp1uMessageType.TunnelStatus = 253"
| "gtp1u_as_u8 Gtp1uMessageType.EndMarker = 254"
| "gtp1u_as_u8 Gtp1uMessageType.GPdu = 255"

definition gtp1u_try_from :: "u8 \<Rightarrow> (GtpError, Gtp1uMessageType) outcome" where
  "gtp1u_try_from value =
     (if value = 1 then Ok Gtp1uMessageType.EchoRequest
     else if value = 2 then Ok Gtp1uMessageType.EchoResponse
     else if value = 26 then Ok Gtp1uMessageType.ErrorIndication
     else if value = 31 then Ok Gtp1uMessageType.SupportedExtensionHeadersNotification
     else if value = 253 then Ok Gtp1uMessageType.TunnelStatus
     else if value = 254 then Ok Gtp1uMessageType.EndMarker
     else if value = 255 then Ok Gtp1uMessageType.GPdu
      else Err (InvalidMessageType value))"

datatype (plugins only: code) Gtp1cMessageType =
    EchoRequest
  | EchoResponse
  | VersionNotSupported
  | NodeAliveRequest
  | NodeAliveResponse
  | RedirectionRequest
  | RedirectionResponse
  | CreatePdpContextRequest
  | CreatePdpContextResponse
  | UpdatePdpContextRequest
  | UpdatePdpContextResponse
  | DeletePdpContextRequest
  | DeletePdpContextResponse
  | InitiatePdpContextActivationRequest
  | InitiatePdpContextActivationResponse
  | ErrorIndication
  | PduNotificationRequest
  | PduNotificationResponse
  | PduNotificationRejectRequest
  | PduNotificationRejectResponse
  | SupportedExtensionHeadersNotification
  | SendRouteingInformationForGprsRequest
  | SendRouteingInformationForGprsResponse
  | FailureReportRequest
  | FailureReportResponse
  | NoteMsGprsPresentRequest
  | NoteMsGprsPresentResponse
  | IdentificationRequest
  | IdentificationResponse
  | SgsnContextRequest
  | SgsnContextResponse
  | SgsnContextAcknowledge
  | ForwardRelocationRequest
  | ForwardRelocationResponse
  | ForwardRelocationComplete
  | RelocationCancelRequest
  | RelocationCancelResponse
  | ForwardSrnsContext
  | ForwardRelocationCompleteAcknowledge
  | ForwardSrnsContextAcknowledge
  | UeRegistrationQueryRequest
  | UeRegistrationQueryResponse
  | RanInformationRelay
  | MbmsNotificationRequest
  | MbmsNotificationResponse
  | MbmsNotificationRejectRequest
  | MbmsNotificationRejectResponse
  | CreateMbmsContextRequest
  | CreateMbmsContextResponse
  | UpdateMbmsContextRequest
  | UpdateMbmsContextResponse
  | DeleteMbmsContextRequest
  | DeleteMbmsContextResponse
  | MbmsRegistrationRequest
  | MbmsRegistrationResponse
  | MbmsDeRegistrationRequest
  | MbmsDeRegistrationResponse
  | MbmsSessionStartRequest
  | MbmsSessionStartResponse
  | MbmsSessionStopRequest
  | MbmsSessionStopResponse
  | MbmsSessionUpdateRequest
  | MbmsSessionUpdateResponse

primrec gtp1c_as_u8 :: "Gtp1cMessageType \<Rightarrow> u8" where
  "gtp1c_as_u8 Gtp1cMessageType.EchoRequest = 1"
| "gtp1c_as_u8 Gtp1cMessageType.EchoResponse = 2"
| "gtp1c_as_u8 Gtp1cMessageType.VersionNotSupported = 3"
| "gtp1c_as_u8 Gtp1cMessageType.NodeAliveRequest = 4"
| "gtp1c_as_u8 Gtp1cMessageType.NodeAliveResponse = 5"
| "gtp1c_as_u8 Gtp1cMessageType.RedirectionRequest = 6"
| "gtp1c_as_u8 Gtp1cMessageType.RedirectionResponse = 7"
| "gtp1c_as_u8 Gtp1cMessageType.CreatePdpContextRequest = 16"
| "gtp1c_as_u8 Gtp1cMessageType.CreatePdpContextResponse = 17"
| "gtp1c_as_u8 Gtp1cMessageType.UpdatePdpContextRequest = 18"
| "gtp1c_as_u8 Gtp1cMessageType.UpdatePdpContextResponse = 19"
| "gtp1c_as_u8 Gtp1cMessageType.DeletePdpContextRequest = 20"
| "gtp1c_as_u8 Gtp1cMessageType.DeletePdpContextResponse = 21"
| "gtp1c_as_u8 Gtp1cMessageType.InitiatePdpContextActivationRequest = 22"
| "gtp1c_as_u8 Gtp1cMessageType.InitiatePdpContextActivationResponse = 23"
| "gtp1c_as_u8 Gtp1cMessageType.ErrorIndication = 26"
| "gtp1c_as_u8 Gtp1cMessageType.PduNotificationRequest = 27"
| "gtp1c_as_u8 Gtp1cMessageType.PduNotificationResponse = 28"
| "gtp1c_as_u8 Gtp1cMessageType.PduNotificationRejectRequest = 29"
| "gtp1c_as_u8 Gtp1cMessageType.PduNotificationRejectResponse = 30"
| "gtp1c_as_u8 Gtp1cMessageType.SupportedExtensionHeadersNotification = 31"
| "gtp1c_as_u8 Gtp1cMessageType.SendRouteingInformationForGprsRequest = 32"
| "gtp1c_as_u8 Gtp1cMessageType.SendRouteingInformationForGprsResponse = 33"
| "gtp1c_as_u8 Gtp1cMessageType.FailureReportRequest = 34"
| "gtp1c_as_u8 Gtp1cMessageType.FailureReportResponse = 35"
| "gtp1c_as_u8 Gtp1cMessageType.NoteMsGprsPresentRequest = 36"
| "gtp1c_as_u8 Gtp1cMessageType.NoteMsGprsPresentResponse = 37"
| "gtp1c_as_u8 Gtp1cMessageType.IdentificationRequest = 48"
| "gtp1c_as_u8 Gtp1cMessageType.IdentificationResponse = 49"
| "gtp1c_as_u8 Gtp1cMessageType.SgsnContextRequest = 50"
| "gtp1c_as_u8 Gtp1cMessageType.SgsnContextResponse = 51"
| "gtp1c_as_u8 Gtp1cMessageType.SgsnContextAcknowledge = 52"
| "gtp1c_as_u8 Gtp1cMessageType.ForwardRelocationRequest = 53"
| "gtp1c_as_u8 Gtp1cMessageType.ForwardRelocationResponse = 54"
| "gtp1c_as_u8 Gtp1cMessageType.ForwardRelocationComplete = 55"
| "gtp1c_as_u8 Gtp1cMessageType.RelocationCancelRequest = 56"
| "gtp1c_as_u8 Gtp1cMessageType.RelocationCancelResponse = 57"
| "gtp1c_as_u8 Gtp1cMessageType.ForwardSrnsContext = 58"
| "gtp1c_as_u8 Gtp1cMessageType.ForwardRelocationCompleteAcknowledge = 59"
| "gtp1c_as_u8 Gtp1cMessageType.ForwardSrnsContextAcknowledge = 60"
| "gtp1c_as_u8 Gtp1cMessageType.UeRegistrationQueryRequest = 61"
| "gtp1c_as_u8 Gtp1cMessageType.UeRegistrationQueryResponse = 62"
| "gtp1c_as_u8 Gtp1cMessageType.RanInformationRelay = 70"
| "gtp1c_as_u8 Gtp1cMessageType.MbmsNotificationRequest = 96"
| "gtp1c_as_u8 Gtp1cMessageType.MbmsNotificationResponse = 97"
| "gtp1c_as_u8 Gtp1cMessageType.MbmsNotificationRejectRequest = 98"
| "gtp1c_as_u8 Gtp1cMessageType.MbmsNotificationRejectResponse = 99"
| "gtp1c_as_u8 Gtp1cMessageType.CreateMbmsContextRequest = 100"
| "gtp1c_as_u8 Gtp1cMessageType.CreateMbmsContextResponse = 101"
| "gtp1c_as_u8 Gtp1cMessageType.UpdateMbmsContextRequest = 102"
| "gtp1c_as_u8 Gtp1cMessageType.UpdateMbmsContextResponse = 103"
| "gtp1c_as_u8 Gtp1cMessageType.DeleteMbmsContextRequest = 104"
| "gtp1c_as_u8 Gtp1cMessageType.DeleteMbmsContextResponse = 105"
| "gtp1c_as_u8 Gtp1cMessageType.MbmsRegistrationRequest = 112"
| "gtp1c_as_u8 Gtp1cMessageType.MbmsRegistrationResponse = 113"
| "gtp1c_as_u8 Gtp1cMessageType.MbmsDeRegistrationRequest = 114"
| "gtp1c_as_u8 Gtp1cMessageType.MbmsDeRegistrationResponse = 115"
| "gtp1c_as_u8 Gtp1cMessageType.MbmsSessionStartRequest = 116"
| "gtp1c_as_u8 Gtp1cMessageType.MbmsSessionStartResponse = 117"
| "gtp1c_as_u8 Gtp1cMessageType.MbmsSessionStopRequest = 118"
| "gtp1c_as_u8 Gtp1cMessageType.MbmsSessionStopResponse = 119"
| "gtp1c_as_u8 Gtp1cMessageType.MbmsSessionUpdateRequest = 120"
| "gtp1c_as_u8 Gtp1cMessageType.MbmsSessionUpdateResponse = 121"

definition gtp1c_try_from :: "u8 \<Rightarrow> (GtpError, Gtp1cMessageType) outcome" where
  "gtp1c_try_from value =
     (if value = 1 then Ok Gtp1cMessageType.EchoRequest
     else if value = 2 then Ok Gtp1cMessageType.EchoResponse
     else if value = 3 then Ok Gtp1cMessageType.VersionNotSupported
     else if value = 4 then Ok Gtp1cMessageType.NodeAliveRequest
     else if value = 5 then Ok Gtp1cMessageType.NodeAliveResponse
     else if value = 6 then Ok Gtp1cMessageType.RedirectionRequest
     else if value = 7 then Ok Gtp1cMessageType.RedirectionResponse
     else if value = 16 then Ok Gtp1cMessageType.CreatePdpContextRequest
     else if value = 17 then Ok Gtp1cMessageType.CreatePdpContextResponse
     else if value = 18 then Ok Gtp1cMessageType.UpdatePdpContextRequest
     else if value = 19 then Ok Gtp1cMessageType.UpdatePdpContextResponse
     else if value = 20 then Ok Gtp1cMessageType.DeletePdpContextRequest
     else if value = 21 then Ok Gtp1cMessageType.DeletePdpContextResponse
     else if value = 22 then Ok Gtp1cMessageType.InitiatePdpContextActivationRequest
     else if value = 23 then Ok Gtp1cMessageType.InitiatePdpContextActivationResponse
     else if value = 26 then Ok Gtp1cMessageType.ErrorIndication
     else if value = 27 then Ok Gtp1cMessageType.PduNotificationRequest
     else if value = 28 then Ok Gtp1cMessageType.PduNotificationResponse
     else if value = 29 then Ok Gtp1cMessageType.PduNotificationRejectRequest
     else if value = 30 then Ok Gtp1cMessageType.PduNotificationRejectResponse
     else if value = 31 then Ok Gtp1cMessageType.SupportedExtensionHeadersNotification
     else if value = 32 then Ok Gtp1cMessageType.SendRouteingInformationForGprsRequest
     else if value = 33 then Ok Gtp1cMessageType.SendRouteingInformationForGprsResponse
     else if value = 34 then Ok Gtp1cMessageType.FailureReportRequest
     else if value = 35 then Ok Gtp1cMessageType.FailureReportResponse
     else if value = 36 then Ok Gtp1cMessageType.NoteMsGprsPresentRequest
     else if value = 37 then Ok Gtp1cMessageType.NoteMsGprsPresentResponse
     else if value = 48 then Ok Gtp1cMessageType.IdentificationRequest
     else if value = 49 then Ok Gtp1cMessageType.IdentificationResponse
     else if value = 50 then Ok Gtp1cMessageType.SgsnContextRequest
     else if value = 51 then Ok Gtp1cMessageType.SgsnContextResponse
     else if value = 52 then Ok Gtp1cMessageType.SgsnContextAcknowledge
     else if value = 53 then Ok Gtp1cMessageType.ForwardRelocationRequest
     else if value = 54 then Ok Gtp1cMessageType.ForwardRelocationResponse
     else if value = 55 then Ok Gtp1cMessageType.ForwardRelocationComplete
     else if value = 56 then Ok Gtp1cMessageType.RelocationCancelRequest
     else if value = 57 then Ok Gtp1cMessageType.RelocationCancelResponse
     else if value = 58 then Ok Gtp1cMessageType.ForwardSrnsContext
     else if value = 59 then Ok Gtp1cMessageType.ForwardRelocationCompleteAcknowledge
     else if value = 60 then Ok Gtp1cMessageType.ForwardSrnsContextAcknowledge
     else if value = 61 then Ok Gtp1cMessageType.UeRegistrationQueryRequest
     else if value = 62 then Ok Gtp1cMessageType.UeRegistrationQueryResponse
     else if value = 70 then Ok Gtp1cMessageType.RanInformationRelay
     else if value = 96 then Ok Gtp1cMessageType.MbmsNotificationRequest
     else if value = 97 then Ok Gtp1cMessageType.MbmsNotificationResponse
     else if value = 98 then Ok Gtp1cMessageType.MbmsNotificationRejectRequest
     else if value = 99 then Ok Gtp1cMessageType.MbmsNotificationRejectResponse
     else if value = 100 then Ok Gtp1cMessageType.CreateMbmsContextRequest
     else if value = 101 then Ok Gtp1cMessageType.CreateMbmsContextResponse
     else if value = 102 then Ok Gtp1cMessageType.UpdateMbmsContextRequest
     else if value = 103 then Ok Gtp1cMessageType.UpdateMbmsContextResponse
     else if value = 104 then Ok Gtp1cMessageType.DeleteMbmsContextRequest
     else if value = 105 then Ok Gtp1cMessageType.DeleteMbmsContextResponse
     else if value = 112 then Ok Gtp1cMessageType.MbmsRegistrationRequest
     else if value = 113 then Ok Gtp1cMessageType.MbmsRegistrationResponse
     else if value = 114 then Ok Gtp1cMessageType.MbmsDeRegistrationRequest
     else if value = 115 then Ok Gtp1cMessageType.MbmsDeRegistrationResponse
     else if value = 116 then Ok Gtp1cMessageType.MbmsSessionStartRequest
     else if value = 117 then Ok Gtp1cMessageType.MbmsSessionStartResponse
     else if value = 118 then Ok Gtp1cMessageType.MbmsSessionStopRequest
     else if value = 119 then Ok Gtp1cMessageType.MbmsSessionStopResponse
     else if value = 120 then Ok Gtp1cMessageType.MbmsSessionUpdateRequest
     else if value = 121 then Ok Gtp1cMessageType.MbmsSessionUpdateResponse
      else Err (InvalidMessageType value))"

interpretation gtp1u: octet_enum gtp1u_as_u8 gtp1u_try_from InvalidMessageType
proof
  fix m show "gtp1u_try_from (gtp1u_as_u8 m) = Ok m"
    by (cases m) (simp_all add: gtp1u_try_from_def)
next
  fix v m assume "gtp1u_try_from v = Ok m" then show "gtp1u_as_u8 m = v"
    by (simp add: gtp1u_try_from_def split: if_split_asm)
next
  fix v show "(\<exists>m. gtp1u_try_from v = Ok m) \<or> gtp1u_try_from v = Err (InvalidMessageType v)"
    by (simp add: gtp1u_try_from_def)
qed

interpretation gtp1c: octet_enum gtp1c_as_u8 gtp1c_try_from InvalidMessageType
proof
  fix m show "gtp1c_try_from (gtp1c_as_u8 m) = Ok m"
    by (cases m) (simp_all add: gtp1c_try_from_def)
next
  fix v m assume "gtp1c_try_from v = Ok m" then show "gtp1c_as_u8 m = v"
    by (simp add: gtp1c_try_from_def split: if_split_asm)
next
  fix v show "(\<exists>m. gtp1c_try_from v = Ok m) \<or> gtp1c_try_from v = Err (InvalidMessageType v)"
    by (simp add: gtp1c_try_from_def)
qed

section \<open>The header\<close>

record Gtp1Header =
  h1_version :: u8
  h1_pt :: bool
  h1_e :: bool
  h1_s :: bool
  h1_pn :: bool
  h1_message_type :: u8
  h1_length :: u16
  h1_teid :: u32
  h1_sequence_number :: "u16 option"
  h1_npdu_number :: "u8 option"
  h1_next_extension_header_type :: "u8 option"

definition gtp1_default :: Gtp1Header where
  "gtp1_default = \<lparr>h1_version = GTP1_VERSION_1, h1_pt = True, h1_e = False, h1_s = False, h1_pn = False,
     h1_message_type = 0, h1_length = 0, h1_teid = 0, h1_sequence_number = None,
     h1_npdu_number = None, h1_next_extension_header_type = None\<rparr>"

definition gtp1_new :: "u8 \<Rightarrow> u32 \<Rightarrow> Gtp1Header" where
  "gtp1_new message_type teid = \<lparr>h1_version = GTP1_VERSION_1, h1_pt = True, h1_e = False, h1_s = False,
     h1_pn = False, h1_message_type = message_type, h1_length = 0, h1_teid = teid,
     h1_sequence_number = None, h1_npdu_number = None, h1_next_extension_header_type = None\<rparr>"

definition gtp1_new_gpdu :: "u32 \<Rightarrow> Gtp1Header" where
  "gtp1_new_gpdu teid = gtp1_new (gtp1u_as_u8 GPdu) teid"

definition gtp1_flags :: "Gtp1Header \<Rightarrow> u8" where
  "gtp1_flags h =
     (let flags = push_bit 5 (h1_version h AND 0x07);
          flags = (if h1_pt h then flags OR GTP1U_FLAGS_PT else flags);
          flags = (if h1_e h then flags OR GTP1U_FLAGS_E else flags);
          flags = (if h1_s h then flags OR GTP1U_FLAGS_S else flags);
          flags = (if h1_pn h then flags OR GTP1U_FLAGS_PN else flags)
      in flags)"

definition gtp1_set_flags :: "Gtp1Header \<Rightarrow> u8 \<Rightarrow> Gtp1Header" where
  "gtp1_set_flags h flags = h\<lparr>h1_version := drop_bit 5 flags AND 0x07,
     h1_pt := (flags AND GTP1U_FLAGS_PT) \<noteq> 0,
     h1_e := (flags AND GTP1U_FLAGS_E) \<noteq> 0,
     h1_s := (flags AND GTP1U_FLAGS_S) \<noteq> 0,
     h1_pn := (flags AND GTP1U_FLAGS_PN) \<noteq> 0\<rparr>"

definition gtp1_has_optional_fields :: "Gtp1Header \<Rightarrow> bool" where
  "gtp1_has_optional_fields h \<longleftrightarrow> h1_e h \<or> h1_s h \<or> h1_pn h"

definition gtp1_header_len :: "Gtp1Header \<Rightarrow> nat" where
  "gtp1_header_len h = (if gtp1_has_optional_fields h then GTPV1C_HEADER_LEN else GTPV1U_HEADER_LEN)"

definition gtp1_validate_gtpu :: "Gtp1Header \<Rightarrow> (GtpError, unit) outcome" where
  "gtp1_validate_gtpu h =
     (if \<not> h1_pt h then Err (InvalidFormat ''Protocol Type GTP' (PT=0) not supported'') else Ok ())"

definition gtp1_xid_to_sqn :: "u32 \<Rightarrow> u16" where
  "gtp1_xid_to_sqn xid = ucast (xid AND 0xFFFF)"

definition gtp1_sqn_to_xid :: "u16 \<Rightarrow> u32" where
  "gtp1_sqn_to_xid sqn = ucast sqn"

definition gtp1_encode :: "Gtp1Header \<Rightarrow> bytes" where
  "gtp1_encode h =
     [gtp1_flags h, h1_message_type h] @ to_be16 (h1_length h) @ to_be32 (h1_teid h) @
     (if gtp1_has_optional_fields h then
        to_be16 (case h1_sequence_number h of Some n \<Rightarrow> n | None \<Rightarrow> 0) @
        [case h1_npdu_number h of Some n \<Rightarrow> n | None \<Rightarrow> 0,
         case h1_next_extension_header_type h of Some t \<Rightarrow> t | None \<Rightarrow> 0]
      else [])"

definition gtp1_decode :: "bytes \<Rightarrow> (GtpError, Gtp1Header \<times> bytes) outcome" where
  "gtp1_decode buf =
     (if length buf < GTPV1U_HEADER_LEN
      then Err (BufferTooShort GTPV1U_HEADER_LEN (length buf))
      else
        obind (get_u8 buf) (\<lambda>(flags, buf).
        obind (get_u8 buf) (\<lambda>(message_type, buf).
        obind (get_u16 buf) (\<lambda>(len, buf).
        obind (get_u32 buf) (\<lambda>(teid, buf).
        let header = \<lparr>h1_version = drop_bit 5 flags AND 0x07,
              h1_pt = (flags AND GTP1U_FLAGS_PT) \<noteq> 0,
              h1_e = (flags AND GTP1U_FLAGS_E) \<noteq> 0,
              h1_s = (flags AND GTP1U_FLAGS_S) \<noteq> 0,
              h1_pn = (flags AND GTP1U_FLAGS_PN) \<noteq> 0,
              h1_message_type = message_type, h1_length = len, h1_teid = teid,
              h1_sequence_number = None, h1_npdu_number = None,
              h1_next_extension_header_type = None\<rparr>
        in if h1_version header \<noteq> GTP1_VERSION_1 then Err (InvalidVersion (h1_version header))
           else if gtp1_has_optional_fields header then
             (if length buf < 4 then Err (BufferTooShort 4 (length buf))
              else
                obind (get_u16 buf) (\<lambda>(sqn, buf).
                obind (get_u8 buf) (\<lambda>(npdu, buf).
                obind (get_u8 buf) (\<lambda>(next, buf).
                  Ok (header\<lparr>h1_sequence_number := Some sqn, h1_npdu_number := Some npdu,
                    h1_next_extension_header_type := Some next\<rparr>, buf)))))
           else Ok (header, buf))))))"

section \<open>Correctness of the header codec\<close>

text \<open>
  A header is well-formed when its version is 1 and its optional fields are present together exactly
  when one of the flags E, S, PN asks for them: the invariant of every header the decoder returns.
\<close>

definition gtp1_wf :: "Gtp1Header \<Rightarrow> bool" where
  "gtp1_wf h \<longleftrightarrow> h1_version h = GTP1_VERSION_1 \<and>
     (h1_sequence_number h \<noteq> None) = gtp1_has_optional_fields h \<and>
     (h1_npdu_number h \<noteq> None) = gtp1_has_optional_fields h \<and>
     (h1_next_extension_header_type h \<noteq> None) = gtp1_has_optional_fields h"

lemma gtp1_flags_bits:
  assumes "h1_version h = GTP1_VERSION_1"
  shows "drop_bit 5 (gtp1_flags h) AND 7 = 1"
    and "(gtp1_flags h AND GTP1U_FLAGS_PT \<noteq> 0) = h1_pt h"
    and "(gtp1_flags h AND GTP1U_FLAGS_E \<noteq> 0) = h1_e h"
    and "(gtp1_flags h AND GTP1U_FLAGS_S \<noteq> 0) = h1_s h"
    and "(gtp1_flags h AND GTP1U_FLAGS_PN \<noteq> 0) = h1_pn h"
  using assms by (auto simp: gtp1_flags_def gtp1_const_defs)

lemma gtp1_encode_length: "length (gtp1_encode h) = gtp1_header_len h"
  by (simp add: gtp1_encode_def gtp1_header_len_def gtp1_const_defs)

text \<open>
  The decoder on a buffer that holds the mandatory octets, by the presence of the optional fields.
\<close>

lemma gtp1_decode_octets:
  "gtp1_decode (o1 # o2 # o3 # o4 # o5 # o6 # o7 # o8 # b) =
     (let h = gtp1_set_flags (gtp1_new o2 (from_be32 o5 o6 o7 o8)\<lparr>h1_length := from_be16 o3 o4\<rparr>) o1
      in if drop_bit 5 o1 AND 7 \<noteq> (1 :: u8) then Err (InvalidVersion (drop_bit 5 o1 AND 7))
         else if gtp1_has_optional_fields h then
           (case b of a1 # a2 # a3 # a4 # r \<Rightarrow>
              Ok (h\<lparr>h1_sequence_number := Some (from_be16 a1 a2), h1_npdu_number := Some a3,
                h1_next_extension_header_type := Some a4\<rparr>, r)
            | _ \<Rightarrow> Err (BufferTooShort 4 (length b)))
         else Ok (h, b))"
  by (simp add: gtp1_decode_def gtp1_set_flags_def gtp1_new_def gtp1_const_defs Let_def
      split: list.split)

lemma gtp1_decode_short:
  "length b < 8 \<Longrightarrow> gtp1_decode b = Err (BufferTooShort 8 (length b))"
  by (simp add: gtp1_decode_def GTPV1U_HEADER_LEN_def)

lemma gtp1_decode_encode:
  assumes wf: "gtp1_wf h"
  shows "gtp1_decode (gtp1_encode h @ r) = Ok (h, r)"
proof -
  obtain l1 l2 where l: "to_be16 (h1_length h) = [l1, l2]" "from_be16 l1 l2 = h1_length h"
    by (rule to_be16_octets)
  obtain t1 t2 t3 t4 where t: "to_be32 (h1_teid h) = [t1, t2, t3, t4]"
    "from_be32 t1 t2 t3 t4 = h1_teid h" by (rule to_be32_octets)
  have flags: "gtp1_set_flags (gtp1_new (h1_message_type h) (h1_teid h)\<lparr>h1_length := h1_length h\<rparr>)
      (gtp1_flags h) = h\<lparr>h1_sequence_number := None, h1_npdu_number := None,
        h1_next_extension_header_type := None\<rparr>"
    using wf gtp1_flags_bits [of h]
    by (simp add: gtp1_set_flags_def gtp1_new_def gtp1_wf_def GTP1_VERSION_1_def)
  have opt: "gtp1_has_optional_fields (h\<lparr>h1_sequence_number := None, h1_npdu_number := None,
        h1_next_extension_header_type := None\<rparr>) = gtp1_has_optional_fields h"
    by (simp add: gtp1_has_optional_fields_def)
  have "drop_bit 5 (gtp1_flags h) AND 7 = 1"
    using wf gtp1_flags_bits(1) by (simp add: gtp1_wf_def)
  with wf show ?thesis
    by (auto simp: gtp1_encode_def l t gtp1_decode_octets flags opt Let_def gtp1_wf_def to_be16_def
        from_be16_def halves16)
qed

lemma gtp1_decode_cases:
  assumes "gtp1_decode b = Ok (h, r)"
  shows "gtp1_wf h \<and> (\<exists>p. b = p @ r \<and> length p = gtp1_header_len h)"
proof -
  from assms have "8 \<le> length b"
    using gtp1_decode_short [of b] by (cases "length b < 8") simp_all
  then obtain o1 o2 o3 o4 o5 o6 o7 o8 b' where b: "b = o1 # o2 # o3 # o4 # o5 # o6 # o7 # o8 # b'"
    by (auto simp: buffer_ge8)
  define h' where "h' = gtp1_set_flags (gtp1_new o2 (from_be32 o5 o6 o7 o8)\<lparr>h1_length := from_be16 o3 o4\<rparr>) o1"
  have h': "h1_version h' = drop_bit 5 o1 AND 7" "h1_sequence_number h' = None"
    "h1_npdu_number h' = None" "h1_next_extension_header_type h' = None"
    by (simp_all add: h'_def gtp1_set_flags_def gtp1_new_def)
  from assms h' show ?thesis
    unfolding b gtp1_decode_octets Let_def h'_def [symmetric]
    by (auto simp: gtp1_wf_def gtp1_header_len_def gtp1_const_defs gtp1_has_optional_fields_def
        split: if_split_asm list.split_asm)
qed

lemma gtp1_decode_no_panic: "gtp1_decode b \<noteq> Panic"
proof (cases "length b < 8")
  case False
  then show ?thesis
    by (auto simp: not_less buffer_ge8 gtp1_decode_octets Let_def
        split: if_split_asm list.split_asm)
qed (simp add: gtp1_decode_short)

interpretation gtp1: byte_codec gtp1_wf gtp1_encode gtp1_decode
  using gtp1_decode_encode gtp1_decode_cases gtp1_decode_no_panic gtp1_encode_length
  by unfold_locales auto

section \<open>Properties\<close>

text \<open>Decoding an encoded GTPv1 header gives the header back and leaves what follows it, for every
  well-formed header.\<close>

lemma gtp1_roundtrip:
  assumes "gtp1_wf h"
  shows "gtp1_decode (gtp1_encode h @ rest) = Ok (h, rest)"
  using assms by (rule gtp1.dec_enc)

text \<open>On any octets a peer may send, the GTPv1 decoder does not panic; a header it accepts is
  well-formed, takes exactly its header length from the buffer, and encoding it again gives octets
  that decode to the same header.\<close>

lemma gtp1_decode_sound:
  "gtp1_decode b \<noteq> Panic \<and>
   (\<forall>h r. gtp1_decode b = Ok (h, r) \<longrightarrow>
      gtp1_wf h \<and> length b = gtp1_header_len h + length r \<and> (\<exists>p. b = p @ r) \<and>
      gtp1_decode (gtp1_encode h @ r) = Ok (h, r))"
  using gtp1.dec_no_panic [of b] gtp1.dec_consumes [of b] gtp1.dec_length [of b]
    gtp1.dec_enc_dec [of b]
  by (fastforce simp: gtp1_encode_length)

end
