(* ===== verification/Pfcp_Header.thy ===== *)
theory Pfcp_Header
  imports Prelude
begin

text \<open>
  The PFCP header (\<^verbatim>\<open>libs/nextgcore-pfcp/src/header.rs\<close>) of the N4/Sx interface between the control and
  the user plane: error enum, message types, header record, encoder and decoder, as instances of
  \<open>octet_enum\<close> and \<open>byte_codec\<close>.
\<close>

section \<open>Errors, constants and message types\<close>

datatype PfcpError =
    BufferTooShort (needed: nat) (available: nat)
  | InvalidFormat string
  | InvalidMessageType u8
  | InvalidIeType u16
  | InvalidCause u8
  | InvalidNodeIdType u8
  | InvalidInterfaceType u8
  | EncodingError string
  | DecodingError string
  | MissingMandatoryIe string
  | VersionNotSupported u8

definition PFCP_VERSION :: u8 where "PFCP_VERSION = 1"
definition PFCP_HEADER_LEN :: nat where "PFCP_HEADER_LEN = 8"
definition PFCP_HEADER_LEN_WITH_SEID :: nat where "PFCP_HEADER_LEN_WITH_SEID = 16"

datatype (plugins only: code) PfcpMessageType =
    HeartbeatRequest
  | HeartbeatResponse
  | PfdManagementRequest
  | PfdManagementResponse
  | AssociationSetupRequest
  | AssociationSetupResponse
  | AssociationUpdateRequest
  | AssociationUpdateResponse
  | AssociationReleaseRequest
  | AssociationReleaseResponse
  | VersionNotSupportedResponse
  | NodeReportRequest
  | NodeReportResponse
  | SessionSetDeletionRequest
  | SessionSetDeletionResponse
  | SessionSetModificationRequest
  | SessionSetModificationResponse
  | SessionEstablishmentRequest
  | SessionEstablishmentResponse
  | SessionModificationRequest
  | SessionModificationResponse
  | SessionDeletionRequest
  | SessionDeletionResponse
  | SessionReportRequest
  | SessionReportResponse

primrec pfcp_as_u8 :: "PfcpMessageType \<Rightarrow> u8" where
  "pfcp_as_u8 PfcpMessageType.HeartbeatRequest = 1"
| "pfcp_as_u8 PfcpMessageType.HeartbeatResponse = 2"
| "pfcp_as_u8 PfcpMessageType.PfdManagementRequest = 3"
| "pfcp_as_u8 PfcpMessageType.PfdManagementResponse = 4"
| "pfcp_as_u8 PfcpMessageType.AssociationSetupRequest = 5"
| "pfcp_as_u8 PfcpMessageType.AssociationSetupResponse = 6"
| "pfcp_as_u8 PfcpMessageType.AssociationUpdateRequest = 7"
| "pfcp_as_u8 PfcpMessageType.AssociationUpdateResponse = 8"
| "pfcp_as_u8 PfcpMessageType.AssociationReleaseRequest = 9"
| "pfcp_as_u8 PfcpMessageType.AssociationReleaseResponse = 10"
| "pfcp_as_u8 PfcpMessageType.VersionNotSupportedResponse = 11"
| "pfcp_as_u8 PfcpMessageType.NodeReportRequest = 12"
| "pfcp_as_u8 PfcpMessageType.NodeReportResponse = 13"
| "pfcp_as_u8 PfcpMessageType.SessionSetDeletionRequest = 14"
| "pfcp_as_u8 PfcpMessageType.SessionSetDeletionResponse = 15"
| "pfcp_as_u8 PfcpMessageType.SessionSetModificationRequest = 16"
| "pfcp_as_u8 PfcpMessageType.SessionSetModificationResponse = 17"
| "pfcp_as_u8 PfcpMessageType.SessionEstablishmentRequest = 50"
| "pfcp_as_u8 PfcpMessageType.SessionEstablishmentResponse = 51"
| "pfcp_as_u8 PfcpMessageType.SessionModificationRequest = 52"
| "pfcp_as_u8 PfcpMessageType.SessionModificationResponse = 53"
| "pfcp_as_u8 PfcpMessageType.SessionDeletionRequest = 54"
| "pfcp_as_u8 PfcpMessageType.SessionDeletionResponse = 55"
| "pfcp_as_u8 PfcpMessageType.SessionReportRequest = 56"
| "pfcp_as_u8 PfcpMessageType.SessionReportResponse = 57"

definition pfcp_try_from :: "u8 \<Rightarrow> (PfcpError, PfcpMessageType) outcome" where
  "pfcp_try_from value =
     (if value = 1 then Ok PfcpMessageType.HeartbeatRequest
     else if value = 2 then Ok PfcpMessageType.HeartbeatResponse
     else if value = 3 then Ok PfcpMessageType.PfdManagementRequest
     else if value = 4 then Ok PfcpMessageType.PfdManagementResponse
     else if value = 5 then Ok PfcpMessageType.AssociationSetupRequest
     else if value = 6 then Ok PfcpMessageType.AssociationSetupResponse
     else if value = 7 then Ok PfcpMessageType.AssociationUpdateRequest
     else if value = 8 then Ok PfcpMessageType.AssociationUpdateResponse
     else if value = 9 then Ok PfcpMessageType.AssociationReleaseRequest
     else if value = 10 then Ok PfcpMessageType.AssociationReleaseResponse
     else if value = 11 then Ok PfcpMessageType.VersionNotSupportedResponse
     else if value = 12 then Ok PfcpMessageType.NodeReportRequest
     else if value = 13 then Ok PfcpMessageType.NodeReportResponse
     else if value = 14 then Ok PfcpMessageType.SessionSetDeletionRequest
     else if value = 15 then Ok PfcpMessageType.SessionSetDeletionResponse
     else if value = 16 then Ok PfcpMessageType.SessionSetModificationRequest
     else if value = 17 then Ok PfcpMessageType.SessionSetModificationResponse
     else if value = 50 then Ok PfcpMessageType.SessionEstablishmentRequest
     else if value = 51 then Ok PfcpMessageType.SessionEstablishmentResponse
     else if value = 52 then Ok PfcpMessageType.SessionModificationRequest
     else if value = 53 then Ok PfcpMessageType.SessionModificationResponse
     else if value = 54 then Ok PfcpMessageType.SessionDeletionRequest
     else if value = 55 then Ok PfcpMessageType.SessionDeletionResponse
     else if value = 56 then Ok PfcpMessageType.SessionReportRequest
     else if value = 57 then Ok PfcpMessageType.SessionReportResponse
      else Err (InvalidMessageType value))"

interpretation pfcp_type: octet_enum pfcp_as_u8 pfcp_try_from InvalidMessageType
proof
  fix m show "pfcp_try_from (pfcp_as_u8 m) = Ok m"
    by (cases m) (simp_all add: pfcp_try_from_def)
next
  fix v m assume "pfcp_try_from v = Ok m" then show "pfcp_as_u8 m = v"
    by (simp add: pfcp_try_from_def split: if_split_asm)
next
  fix v show "(\<exists>m. pfcp_try_from v = Ok m) \<or> pfcp_try_from v = Err (InvalidMessageType v)"
    by (simp add: pfcp_try_from_def)
qed

primrec pfcp_has_seid :: "PfcpMessageType \<Rightarrow> bool" where
  "pfcp_has_seid HeartbeatRequest = False"
| "pfcp_has_seid HeartbeatResponse = False"
| "pfcp_has_seid PfdManagementRequest = False"
| "pfcp_has_seid PfdManagementResponse = False"
| "pfcp_has_seid AssociationSetupRequest = False"
| "pfcp_has_seid AssociationSetupResponse = False"
| "pfcp_has_seid AssociationUpdateRequest = False"
| "pfcp_has_seid AssociationUpdateResponse = False"
| "pfcp_has_seid AssociationReleaseRequest = False"
| "pfcp_has_seid AssociationReleaseResponse = False"
| "pfcp_has_seid VersionNotSupportedResponse = False"
| "pfcp_has_seid NodeReportRequest = False"
| "pfcp_has_seid NodeReportResponse = False"
| "pfcp_has_seid SessionSetDeletionRequest = False"
| "pfcp_has_seid SessionSetDeletionResponse = False"
| "pfcp_has_seid SessionSetModificationRequest = False"
| "pfcp_has_seid SessionSetModificationResponse = False"
| "pfcp_has_seid SessionEstablishmentRequest = True"
| "pfcp_has_seid SessionEstablishmentResponse = True"
| "pfcp_has_seid SessionModificationRequest = True"
| "pfcp_has_seid SessionModificationResponse = True"
| "pfcp_has_seid SessionDeletionRequest = True"
| "pfcp_has_seid SessionDeletionResponse = True"
| "pfcp_has_seid SessionReportRequest = True"
| "pfcp_has_seid SessionReportResponse = True"

primrec pfcp_name :: "PfcpMessageType \<Rightarrow> string" where
  "pfcp_name HeartbeatRequest = ''Heartbeat Request''"
| "pfcp_name HeartbeatResponse = ''Heartbeat Response''"
| "pfcp_name PfdManagementRequest = ''PFD Management Request''"
| "pfcp_name PfdManagementResponse = ''PFD Management Response''"
| "pfcp_name AssociationSetupRequest = ''Association Setup Request''"
| "pfcp_name AssociationSetupResponse = ''Association Setup Response''"
| "pfcp_name AssociationUpdateRequest = ''Association Update Request''"
| "pfcp_name AssociationUpdateResponse = ''Association Update Response''"
| "pfcp_name AssociationReleaseRequest = ''Association Release Request''"
| "pfcp_name AssociationReleaseResponse = ''Association Release Response''"
| "pfcp_name VersionNotSupportedResponse = ''Version Not Supported Response''"
| "pfcp_name NodeReportRequest = ''Node Report Request''"
| "pfcp_name NodeReportResponse = ''Node Report Response''"
| "pfcp_name SessionSetDeletionRequest = ''Session Set Deletion Request''"
| "pfcp_name SessionSetDeletionResponse = ''Session Set Deletion Response''"
| "pfcp_name SessionSetModificationRequest = ''Session Set Modification Request''"
| "pfcp_name SessionSetModificationResponse = ''Session Set Modification Response''"
| "pfcp_name SessionEstablishmentRequest = ''Session Establishment Request''"
| "pfcp_name SessionEstablishmentResponse = ''Session Establishment Response''"
| "pfcp_name SessionModificationRequest = ''Session Modification Request''"
| "pfcp_name SessionModificationResponse = ''Session Modification Response''"
| "pfcp_name SessionDeletionRequest = ''Session Deletion Request''"
| "pfcp_name SessionDeletionResponse = ''Session Deletion Response''"
| "pfcp_name SessionReportRequest = ''Session Report Request''"
| "pfcp_name SessionReportResponse = ''Session Report Response''"

section \<open>The header\<close>

record PfcpHeader =
  hp_version :: u8
  hp_seid_presence :: bool
  hp_message_priority :: bool
  hp_follow_on :: bool
  hp_message_type :: PfcpMessageType
  hp_length :: u16
  hp_seid :: "u64 option"
  hp_sequence_number :: u32
  hp_priority :: "u8 option"

definition pfcp_new :: "PfcpMessageType \<Rightarrow> u32 \<Rightarrow> PfcpHeader" where
  "pfcp_new message_type sequence_number = \<lparr>hp_version = PFCP_VERSION, hp_seid_presence = False,
     hp_message_priority = False, hp_follow_on = False, hp_message_type = message_type,
     hp_length = 0, hp_seid = None, hp_sequence_number = sequence_number, hp_priority = None\<rparr>"

definition pfcp_new_with_seid :: "PfcpMessageType \<Rightarrow> u64 \<Rightarrow> u32 \<Rightarrow> PfcpHeader" where
  "pfcp_new_with_seid message_type seid sequence_number = \<lparr>hp_version = PFCP_VERSION,
     hp_seid_presence = True, hp_message_priority = False, hp_follow_on = False,
     hp_message_type = message_type, hp_length = 0, hp_seid = Some seid,
     hp_sequence_number = sequence_number, hp_priority = None\<rparr>"

definition pfcp_header_len :: "PfcpHeader \<Rightarrow> nat" where
  "pfcp_header_len h = (if hp_seid_presence h then PFCP_HEADER_LEN_WITH_SEID else PFCP_HEADER_LEN)"

text \<open>
  The encoder of the release profile, in which \<^verbatim>\<open>debug_assert!\<close> is off: a sequence number of more than
  24 bits is masked.
\<close>

definition pfcp_encode :: "PfcpHeader \<Rightarrow> bytes" where
  "pfcp_encode h =
     (let first_byte = push_bit 5 (hp_version h AND 0x07)
            OR push_bit 2 (of_bool (hp_follow_on h))
            OR push_bit 1 (of_bool (hp_message_priority h))
            OR of_bool (hp_seid_presence h);
          seq_bytes = to_be32 (hp_sequence_number h AND 0x00FFFFFF);
          last_byte = push_bit 4 (case hp_priority h of Some p \<Rightarrow> p | None \<Rightarrow> 0)
      in [first_byte, pfcp_as_u8 (hp_message_type h)] @ to_be16 (hp_length h) @
         (case hp_seid h of Some seid \<Rightarrow> to_be64 seid | None \<Rightarrow> []) @
         tl seq_bytes @ [last_byte])"

definition pfcp_decode :: "bytes \<Rightarrow> (PfcpError, PfcpHeader \<times> bytes) outcome" where
  "pfcp_decode buf =
     (if length buf < 4 then Err (BufferTooShort 4 (length buf))
      else
        obind (get_u8 buf) (\<lambda>(first_byte, buf).
        let version = drop_bit 5 first_byte AND 0x07;
            seid_presence = (first_byte AND 0x01) \<noteq> 0;
            message_priority = (drop_bit 1 first_byte AND 0x01) \<noteq> 0;
            follow_on = (drop_bit 2 first_byte AND 0x01) \<noteq> 0
        in if version \<noteq> PFCP_VERSION then Err (VersionNotSupported version)
           else
             obind (get_u8 buf) (\<lambda>(t, buf).
             obind (pfcp_try_from t) (\<lambda>message_type.
             obind (get_u16 buf) (\<lambda>(len, buf).
             let min_remaining = (if seid_presence then 12 else 4)
             in if length buf < min_remaining
                then Err (BufferTooShort min_remaining (length buf))
                else
                  obind (if seid_presence
                         then obind (get_u64 buf) (\<lambda>(s, buf). Ok (Some s, buf))
                         else Ok (None, buf)) (\<lambda>(seid, buf).
                  obind (get_u8 buf) (\<lambda>(s1, buf).
                  obind (get_u8 buf) (\<lambda>(s2, buf).
                  obind (get_u8 buf) (\<lambda>(s3, buf).
                  obind (get_u8 buf) (\<lambda>(last_byte, buf).
                  Ok (\<lparr>hp_version = version, hp_seid_presence = seid_presence,
                       hp_message_priority = message_priority, hp_follow_on = follow_on,
                       hp_message_type = message_type, hp_length = len, hp_seid = seid,
                       hp_sequence_number = from_be32 0 s1 s2 s3,
                       hp_priority = (if message_priority
                         then Some (drop_bit 4 last_byte AND 0x0F) else None)\<rparr>, buf)))))))))))"

section \<open>Correctness of the header codec\<close>

text \<open>
  The invariant of the decoded headers: version 1, a SEID exactly when the S flag is set, a sequence
  number of 24 bits, and a priority, of 4 bits, exactly when the MP flag is set.
\<close>

definition pfcp_wf :: "PfcpHeader \<Rightarrow> bool" where
  "pfcp_wf h \<longleftrightarrow> hp_version h = PFCP_VERSION \<and> (hp_seid h \<noteq> None) = hp_seid_presence h \<and>
     hp_sequence_number h < 0x1000000 \<and>
     (case hp_priority h of None \<Rightarrow> \<not> hp_message_priority h
      | Some p \<Rightarrow> hp_message_priority h \<and> p < 0x10)"

text \<open>The first octet and the octets behind the optional SEID, as the decoder reads them.\<close>

definition pfcp_first_byte :: "bool \<Rightarrow> bool \<Rightarrow> bool \<Rightarrow> u8" where
  "pfcp_first_byte fo mp s = 0x20 OR push_bit 2 (of_bool fo) OR push_bit 1 (of_bool mp) OR of_bool s"

lemma pfcp_first_byte_bits:
  "drop_bit 5 (pfcp_first_byte fo mp s) AND 7 = 1"
  "(pfcp_first_byte fo mp s AND 1 \<noteq> 0) = s"
  "(drop_bit (Suc 0) (pfcp_first_byte fo mp s) AND 1 \<noteq> 0) = mp"
  "(drop_bit 2 (pfcp_first_byte fo mp s) AND 1 \<noteq> 0) = fo"
  by (cases fo; cases mp; cases s; simp add: pfcp_first_byte_def)+

definition pfcp_read_tail ::
  "PfcpHeader \<Rightarrow> bytes \<Rightarrow> bytes \<Rightarrow> nat \<Rightarrow> (PfcpError, PfcpHeader \<times> bytes) outcome" where
  "pfcp_read_tail h buf whole min_remaining =
     (case buf of s1 # s2 # s3 # l # r \<Rightarrow>
        Ok (h\<lparr>hp_sequence_number := from_be32 0 s1 s2 s3,
          hp_priority := if hp_message_priority h then Some (drop_bit 4 l AND 0x0F) else None\<rparr>, r)
      | _ \<Rightarrow> Err (BufferTooShort min_remaining (length whole)))"

lemma pfcp_decode_octets:
  "pfcp_decode (o1 # o2 # o3 # o4 # b) =
     (if drop_bit 5 o1 AND 7 \<noteq> (1 :: u8) then Err (VersionNotSupported (drop_bit 5 o1 AND 7))
      else obind (pfcp_try_from o2) (\<lambda>t.
        let h = \<lparr>hp_version = 1, hp_seid_presence = (o1 AND 1) \<noteq> 0,
              hp_message_priority = (drop_bit 1 o1 AND 1) \<noteq> 0,
              hp_follow_on = (drop_bit 2 o1 AND 1) \<noteq> 0, hp_message_type = t,
              hp_length = from_be16 o3 o4, hp_seid = None, hp_sequence_number = 0,
              hp_priority = None\<rparr>
        in if (o1 AND 1) \<noteq> 0 then
             (case b of e1 # e2 # e3 # e4 # e5 # e6 # e7 # e8 # r \<Rightarrow>
                pfcp_read_tail (h\<lparr>hp_seid := Some (from_be64 e1 e2 e3 e4 e5 e6 e7 e8)\<rparr>) r b 12
              | _ \<Rightarrow> Err (BufferTooShort 12 (length b)))
           else pfcp_read_tail h b b 4))"
  by (cases "pfcp_try_from o2")
    (simp_all add: pfcp_decode_def Let_def PFCP_VERSION_def pfcp_read_tail_def split: list.split)

lemma pfcp_decode_short: "length b < 4 \<Longrightarrow> pfcp_decode b = Err (BufferTooShort 4 (length b))"
  by (simp add: pfcp_decode_def)

lemma pfcp_encode_octets:
  assumes "pfcp_wf h"
  shows "pfcp_encode h = [pfcp_first_byte (hp_follow_on h) (hp_message_priority h) (hp_seid_presence h),
      pfcp_as_u8 (hp_message_type h)] @ to_be16 (hp_length h) @
      (case hp_seid h of Some seid \<Rightarrow> to_be64 seid | None \<Rightarrow> []) @
      tl (to_be32 (hp_sequence_number h)) @
      [push_bit 4 (case hp_priority h of Some p \<Rightarrow> p | None \<Rightarrow> 0)]"
proof -
  have "hp_sequence_number h AND 0x00FFFFFF = take_bit 24 (hp_sequence_number h)"
    by (simp add: take_bit_eq_mask mask_eq_exp_minus_1)
  also have "\<dots> = hp_sequence_number h"
    using assms by (simp add: pfcp_wf_def word_below_24)
  finally have "hp_sequence_number h AND 0x00FFFFFF = hp_sequence_number h" .
  with assms show ?thesis
    by (simp add: pfcp_encode_def pfcp_first_byte_def pfcp_wf_def PFCP_VERSION_def)
qed

text \<open>Three octets carry a 24-bit number, the upper half of an octet a priority of 4 bits.\<close>

lemma seq_octets:
  assumes "(x :: u32) < 0x1000000"
  obtains s1 s2 s3 where "to_be32 x = [0, s1, s2, s3]" and "from_be32 0 s1 s2 s3 = x"
proof -
  obtain s0 s1 s2 s3 where s: "to_be32 x = [s0, s1, s2, s3]" "from_be32 s0 s1 s2 s3 = x"
    by (rule to_be32_octets)
  have "take_bit 24 x = x" using assms by (simp add: word_below_24)
  then have "drop_bit 24 x = 0" by (metis drop_bit_take_bit diff_self_eq_0 take_bit_0)
  moreover have "s0 = ucast (drop_bit 8 (ucast (drop_bit 16 x) :: u16))"
    using s(1) by (simp add: to_be32_def to_be16_def)
  moreover have "(ucast (drop_bit 8 (ucast (drop_bit 16 x) :: u16)) :: u8) = ucast (drop_bit 24 x)"
    by (rule bit_word_eqI) (auto simp: bit_simps ac_simps)
  ultimately have "s0 = 0" by simp
  with s that show thesis by blast
qed

lemma priority_nibble: "(p :: u8) < 0x10 \<Longrightarrow> drop_bit 4 (push_bit 4 p) AND 0x0F = p"
proof -
  assume "p < 0x10"
  then have "take_bit 4 p = p" using word_below_power [of 4 p] by simp
  moreover have "drop_bit 4 (push_bit 4 p) AND 0x0F = take_bit 4 (drop_bit 4 (push_bit 4 p))"
    by (simp add: take_bit_eq_mask mask_eq_exp_minus_1)
  moreover have "take_bit 4 (drop_bit 4 (push_bit 4 p)) = take_bit 4 p"
    by (rule bit_word_eqI) (auto simp: bit_simps)
  ultimately show ?thesis by simp
qed

lemma low_nibble_bound: "(x :: u8) AND 0x0F < 0x10"
  using and_mask_less' [of 4 x] by (simp add: mask_eq_exp_minus_1)

lemma from_be32_0_bound: "from_be32 0 a b c < 0x1000000"
  unfolding word_below_24 from_be32_def from_be16_def
  by (rule bit_word_eqI) (auto simp: bit_simps dest: bit_imp_le_length)

lemma pfcp_decode_encode:
  assumes wf: "pfcp_wf h"
  shows "pfcp_decode (pfcp_encode h @ r) = Ok (h, r)"
proof -
  obtain l1 l2 where l: "to_be16 (hp_length h) = [l1, l2]" "from_be16 l1 l2 = hp_length h"
    by (rule to_be16_octets)
  obtain e1 e2 e3 e4 e5 e6 e7 e8 where
    e: "to_be64 (the (hp_seid h)) = [e1, e2, e3, e4, e5, e6, e7, e8]"
       "from_be64 e1 e2 e3 e4 e5 e6 e7 e8 = the (hp_seid h)" by (rule to_be64_octets)
  have "hp_sequence_number h < 0x1000000" using wf by (simp add: pfcp_wf_def)
  then obtain s1 s2 s3 where
    s: "to_be32 (hp_sequence_number h) = [0, s1, s2, s3]" "from_be32 0 s1 s2 s3 = hp_sequence_number h"
    by (rule seq_octets)
  have tail: "pfcp_read_tail (h\<lparr>hp_sequence_number := 0, hp_priority := None\<rparr>)
      (s1 # s2 # s3 # push_bit 4 (case hp_priority h of Some p \<Rightarrow> p | None \<Rightarrow> 0) # r) w n = Ok (h, r)" for w n
    using wf by (cases "hp_priority h") (simp_all add: pfcp_read_tail_def s pfcp_wf_def priority_nibble)
  have head: "\<lparr>hp_version = 1, hp_seid_presence = hp_seid_presence h,
      hp_message_priority = hp_message_priority h, hp_follow_on = hp_follow_on h,
      hp_message_type = hp_message_type h, hp_length = hp_length h, hp_seid = hp_seid h,
      hp_sequence_number = 0, hp_priority = None\<rparr> = h\<lparr>hp_sequence_number := 0, hp_priority := None\<rparr>"
    using wf by (simp add: pfcp_wf_def PFCP_VERSION_def)
  show ?thesis
  proof (cases "hp_seid h")
    case None
    with wf have "\<not> hp_seid_presence h" by (simp add: pfcp_wf_def)
    with None wf head tail show ?thesis
      by (simp add: pfcp_encode_octets l s pfcp_decode_octets pfcp_first_byte_bits
          pfcp_type.try_from_as_u8)
  next
    case (Some seid)
    with wf have "hp_seid_presence h" by (simp add: pfcp_wf_def)
    with Some wf e head tail show ?thesis
      by (simp add: pfcp_encode_octets l s pfcp_decode_octets pfcp_first_byte_bits
          pfcp_type.try_from_as_u8)
  qed
qed

lemma pfcp_encode_length: "pfcp_wf h \<Longrightarrow> length (pfcp_encode h) = pfcp_header_len h"
  by (auto simp: pfcp_encode_octets pfcp_header_len_def PFCP_HEADER_LEN_def
      PFCP_HEADER_LEN_WITH_SEID_def pfcp_wf_def split: option.split)

lemma pfcp_read_tail_cases:
  assumes "pfcp_read_tail h' buf w n = Ok (h, r)" and "hp_version h' = PFCP_VERSION"
    and "(hp_seid h' \<noteq> None) = hp_seid_presence h'"
  shows "pfcp_wf h \<and> hp_seid_presence h = hp_seid_presence h' \<and> (\<exists>p. buf = p @ r \<and> length p = 4)"
  using assms
  by (auto simp: pfcp_read_tail_def pfcp_wf_def from_be32_0_bound low_nibble_bound
      split: list.split_asm)

lemma pfcp_decode_cases:
  assumes "pfcp_decode b = Ok (h, r)"
  shows "pfcp_wf h \<and> (\<exists>p. b = p @ r \<and> length p = pfcp_header_len h)"
proof -
  from assms have "4 \<le> length b"
    using pfcp_decode_short [of b] by (cases "length b < 4") simp_all
  then obtain o1 o2 o3 o4 b' where b: "b = o1 # o2 # o3 # o4 # b'"
    by (auto simp: buffer_ge4)
  from assms show ?thesis
    unfolding b pfcp_decode_octets Let_def
    by (auto simp: obind_eq_Ok pfcp_header_len_def PFCP_HEADER_LEN_def PFCP_VERSION_def
        PFCP_HEADER_LEN_WITH_SEID_def dest!: pfcp_read_tail_cases
        split: if_split_asm list.split_asm)
qed

lemma pfcp_read_tail_no_panic: "pfcp_read_tail h b w n \<noteq> Panic"
  by (simp add: pfcp_read_tail_def split: list.split)

lemma pfcp_decode_no_panic: "pfcp_decode b \<noteq> Panic"
proof (cases "length b < 4")
  case False
  then obtain o1 o2 o3 o4 b' where b: "b = o1 # o2 # o3 # o4 # b'"
    by (auto simp: not_less buffer_ge4)
  show ?thesis
    unfolding b pfcp_decode_octets Let_def
    by (auto simp: obind_eq_Panic pfcp_type.try_from_no_panic pfcp_read_tail_no_panic
        split: if_split_asm list.split_asm)
qed (simp add: pfcp_decode_short)

interpretation pfcp: byte_codec pfcp_wf pfcp_encode pfcp_decode
proof
  fix b x r assume d: "pfcp_decode b = Ok (x, r)"
  then have "pfcp_wf x" using pfcp_decode_cases by blast
  then show "pfcp_wf x \<and> (\<exists>p. b = p @ r \<and> length p = length (pfcp_encode x))"
    using pfcp_decode_cases [OF d] by (simp add: pfcp_encode_length)
qed (simp_all add: pfcp_decode_encode pfcp_decode_no_panic)

section \<open>Properties\<close>

text \<open>Decoding an encoded PFCP header gives the header back and leaves what follows it, for every
  well-formed header.\<close>

lemma pfcp_roundtrip:
  assumes "pfcp_wf h"
  shows "pfcp_decode (pfcp_encode h @ rest) = Ok (h, rest)"
  using assms by (rule pfcp.dec_enc)

text \<open>On any octets a peer may send, the PFCP decoder does not panic; a header it accepts is
  well-formed, takes exactly its header length from the buffer, and encoding it again gives octets
  that decode to the same header.\<close>

lemma pfcp_decode_sound:
  "pfcp_decode b \<noteq> Panic \<and>
   (\<forall>h r. pfcp_decode b = Ok (h, r) \<longrightarrow>
      pfcp_wf h \<and> length b = pfcp_header_len h + length r \<and> (\<exists>p. b = p @ r) \<and>
      pfcp_decode (pfcp_encode h @ r) = Ok (h, r))"
  using pfcp.dec_no_panic [of b] pfcp.dec_consumes [of b] pfcp.dec_length [of b]
    pfcp.dec_enc_dec [of b]
  by (fastforce simp: pfcp_encode_length)

theorem pfcp_decode_sound_witness:
  "pfcp_decode [0x20, 1, 0, 4, 0, 0, 5, 0] = Ok (pfcp_new HeartbeatRequest 5\<lparr>hp_length := 4\<rparr>, []) \<and>
   pfcp_wf (pfcp_new HeartbeatRequest 5\<lparr>hp_length := 4\<rparr>)"
proof -
  have "pfcp_decode [0x20, 1, 0, 4, 0, 0, 5, 0] =
      Ok (pfcp_new HeartbeatRequest 5\<lparr>hp_length := 4\<rparr>, [])"
    by (simp add: pfcp_decode_octets pfcp_try_from_def pfcp_read_tail_def pfcp_new_def PFCP_VERSION_def
        from_be16_def from_be32_def Let_def)
  then show ?thesis using pfcp_decode_sound [of "[0x20, 1, 0, 4, 0, 0, 5, 0]"] by blast
qed

end
