(* ===== verification/Id_Allocator.thy ===== *)
theory Id_Allocator
  imports Prelude
begin

text \<open>
  Interface of the identifier allocators of the core (TEIDs, sequence numbers): a counter that walks
  round a finite range. \<open>alloc\<close> returns an identifier and the next state; \<open>pos\<close> is the place of the
  next identifier in the range, \<open>period\<close> the length of the range and \<open>ident\<close> the identifier at each
  place. What a client needs, that the identifiers of one walk round are all different, is proved once
  here.
\<close>

fun allocs :: "('s \<Rightarrow> 'i \<times> 's) \<Rightarrow> nat \<Rightarrow> 's \<Rightarrow> 'i list \<times> 's" where
  "allocs alloc 0 s = ([], s)"
| "allocs alloc (Suc n) s =
     (let (i, s') = alloc s; (is, s'') = allocs alloc n s' in (i # is, s''))"

lemma mod_shift: "p < (n :: nat) \<Longrightarrow> i < n \<Longrightarrow> (p + i) mod n = (if p + i < n then p + i else p + i - n)"
  by (simp add: mod_if)

lemma mod_shift_inj: "p < (n :: nat) \<Longrightarrow> i < n \<Longrightarrow> j < n \<Longrightarrow> (p + i) mod n = (p + j) mod n \<Longrightarrow> i = j"
  by (simp add: mod_shift split: if_split_asm)

locale round_robin =
  fixes alloc :: "'s \<Rightarrow> 'i \<times> 's"
    and inv :: "'s \<Rightarrow> bool"
    and pos :: "'s \<Rightarrow> nat"
    and period :: "'s \<Rightarrow> nat"
    and ident :: "'s \<Rightarrow> nat \<Rightarrow> 'i"
  assumes alloc_ident: "inv s \<Longrightarrow> fst (alloc s) = ident s (pos s)"
    and alloc_pos: "inv s \<Longrightarrow> pos (snd (alloc s)) = Suc (pos s) mod period s"
    and alloc_inv: "inv s \<Longrightarrow> inv (snd (alloc s))"
    and alloc_same: "inv s \<Longrightarrow> period (snd (alloc s)) = period s \<and> ident (snd (alloc s)) = ident s"
    and pos_less: "inv s \<Longrightarrow> pos s < period s"
    and ident_inj: "inv s \<Longrightarrow> inj_on (ident s) {..<period s}"
begin

lemma allocs_walk:
  assumes "inv s"
  shows "fst (allocs alloc n s) = map (\<lambda>k. ident s ((pos s + k) mod period s)) [0..<n]"
  using assms
proof (induction n arbitrary: s)
  case (Suc n)
  obtain i s' where a: "alloc s = (i, s')" by fastforce
  have s': "inv s'" "pos s' = Suc (pos s) mod period s" "period s' = period s" "ident s' = ident s"
    using Suc.prems alloc_inv [of s] alloc_pos [of s] alloc_same [of s] by (simp_all add: a)
  have "fst (allocs alloc n s') = map (\<lambda>k. ident s ((pos s + Suc k) mod period s)) [0..<n]"
    using Suc.IH [OF s'(1)] by (simp add: s' mod_add_left_eq)
  moreover have "i = ident s (pos s mod period s)"
    using Suc.prems alloc_ident [of s] pos_less [of s] by (simp add: a)
  ultimately show ?case
    by (simp add: a split_beta upt_conv_Cons map_Suc_upt [symmetric] del: upt_Suc)
qed simp

lemma allocs_distinct:
  assumes "inv s" and "n \<le> period s"
  shows "distinct (fst (allocs alloc n s))"
proof -
  have p: "pos s < period s" using assms(1) by (rule pos_less)
  have "inj_on (\<lambda>k. (pos s + k) mod period s) {..<n}"
    using p assms(2) by (intro inj_onI) (rule mod_shift_inj, auto)
  moreover have "(\<lambda>k. (pos s + k) mod period s) ` {..<n} \<subseteq> {..<period s}"
    using p by auto
  ultimately have "inj_on (\<lambda>k. ident s ((pos s + k) mod period s)) {..<n}"
    using ident_inj [OF assms(1)] by (auto simp: inj_on_def)
  then show ?thesis
    by (simp add: allocs_walk [OF assms(1)] distinct_map atLeast_upt)
qed

lemma allocs_inv: "inv s \<Longrightarrow> inv (snd (allocs alloc n s))"
proof (induction n arbitrary: s)
  case (Suc n)
  then show ?case using alloc_inv [of s] by (simp add: split_beta)
qed simp

end

end
