(* ===== verification/Teid_Pool.thy ===== *)
theory Teid_Pool
  imports Gtp_Error Id_Allocator
begin

text \<open>
  The TEID pool of GTPv2-C (\<^verbatim>\<open>libs/nextgcore-gtp/src/v2/teid_pool.rs\<close>). The pool is shared between threads
  through an atomic counter, so it is modelled twice: \<open>teid_allocate\<close> is the body of \<^verbatim>\<open>allocate\<close> run by
  one thread without interference, an instance of \<open>round_robin\<close>; \<open>teid_step\<close> is the interleaving of
  any number of threads, one atomic access of the counter per step. A run of one thread alone in the
  interleaved model is \<open>teid_allocate\<close>.
\<close>

record TeidPool =
  tp_counter :: u32
  tp_base :: u32
  tp_max :: u32

definition teid_new :: TeidPool where
  "teid_new = \<lparr>tp_counter = 1, tp_base = 1, tp_max = 0xFFFFFFFF\<rparr>"

definition teid_with_range :: "u32 \<Rightarrow> u32 \<Rightarrow> (GtpError, TeidPool) outcome" where
  "teid_with_range base maximum =
     (if base = 0 then Err (InvalidFormat ''TEID base must be greater than 0'')
      else if base \<ge> maximum then Err (InvalidFormat ''TEID base must be less than max'')
      else Ok \<lparr>tp_counter = base, tp_base = base, tp_max = maximum\<rparr>)"

text \<open>\<^verbatim>\<open>AtomicU32::fetch_add(1)\<close> returns the old value and wraps around.\<close>

definition teid_fetch_add :: "TeidPool \<Rightarrow> u32 \<times> TeidPool" where
  "teid_fetch_add p = (tp_counter p, p\<lparr>tp_counter := tp_counter p + 1\<rparr>)"

definition teid_exhausted :: GtpError where
  "teid_exhausted = ResourceExhausted ''TEID pool exhausted''"

definition teid_allocate :: "TeidPool \<Rightarrow> (GtpError, u32) outcome \<times> TeidPool" where
  "teid_allocate p =
     (let (teid, p) = teid_fetch_add p
      in if teid \<ge> tp_max p then
           let p = p\<lparr>tp_counter := tp_base p\<rparr>;
               (teid, p) = teid_fetch_add p
           in if teid \<ge> tp_max p then (Err teid_exhausted, p) else (Ok teid, p)
         else (Ok teid, p))"

definition teid_release :: "TeidPool \<Rightarrow> u32 \<Rightarrow> TeidPool" where
  "teid_release p teid = p"

definition teid_peek_next :: "TeidPool \<Rightarrow> u32" where
  "teid_peek_next p = tp_counter p"

definition teid_reset :: "TeidPool \<Rightarrow> TeidPool" where
  "teid_reset p = p\<lparr>tp_counter := tp_base p\<rparr>"

section \<open>One thread\<close>

definition teid_inv :: "TeidPool \<Rightarrow> bool" where
  "teid_inv p \<longleftrightarrow> 0 < tp_base p \<and> tp_base p < tp_max p \<and>
     tp_base p \<le> tp_counter p \<and> tp_counter p \<le> tp_max p"

text \<open>
  The identifiers are the numbers from \<open>tp_base\<close> up to but not including \<open>tp_max\<close>; a counter that has
  reached \<open>tp_max\<close> stands for the first of them.
\<close>

definition teid_period :: "TeidPool \<Rightarrow> nat" where
  "teid_period p = unat (tp_max p) - unat (tp_base p)"

definition teid_pos :: "TeidPool \<Rightarrow> nat" where
  "teid_pos p = (unat (tp_counter p) - unat (tp_base p)) mod teid_period p"

definition teid_ident :: "TeidPool \<Rightarrow> nat \<Rightarrow> (GtpError, u32) outcome" where
  "teid_ident p k = Ok (of_nat (unat (tp_base p) + k))"

lemma teid_new_inv: "teid_inv teid_new"
  by (simp add: teid_inv_def teid_new_def)

lemma teid_with_range_inv: "teid_with_range base maximum = Ok p \<Longrightarrow> teid_inv p"
  by (auto simp: teid_with_range_def teid_inv_def word_gt_0 not_le split: if_split_asm)

lemma teid_reset_inv: "teid_inv p \<Longrightarrow> teid_inv (teid_reset p)"
  by (auto simp: teid_reset_def teid_inv_def)

lemma teid_allocate_below:
  assumes "tp_counter p < tp_max p"
  shows "teid_allocate p = (Ok (tp_counter p), p\<lparr>tp_counter := tp_counter p + 1\<rparr>)"
  using assms by (auto simp: teid_allocate_def teid_fetch_add_def dest: leD)

lemma teid_allocate_wrap:
  assumes "tp_max p \<le> tp_counter p" and "tp_base p < tp_max p"
  shows "teid_allocate p = (Ok (tp_base p), p\<lparr>tp_counter := tp_base p + 1\<rparr>)"
  using assms by (simp add: teid_allocate_def teid_fetch_add_def Let_def not_le)

lemma unat_Suc_less: "(c :: u32) < m \<Longrightarrow> unat (c + 1) = Suc (unat c)"
  using unsigned_less [of m, where 'a = nat] by (simp add: word_less_nat_alt unat_word_ariths)

interpretation teid: round_robin teid_allocate teid_inv teid_pos teid_period teid_ident
proof
  fix s assume inv: "teid_inv s"
  then have le: "unat (tp_base s) \<le> unat (tp_counter s)" "unat (tp_counter s) \<le> unat (tp_max s)"
    "unat (tp_base s) < unat (tp_max s)"
    by (simp_all add: teid_inv_def word_le_nat_alt word_less_nat_alt)
  consider (below) "tp_counter s < tp_max s" | (full) "tp_counter s = tp_max s"
    using inv by (auto simp: teid_inv_def le_less)
  then have "fst (teid_allocate s) = teid_ident s (teid_pos s) \<and>
    teid_pos (snd (teid_allocate s)) = Suc (teid_pos s) mod teid_period s \<and>
    teid_inv (snd (teid_allocate s)) \<and>
    teid_period (snd (teid_allocate s)) = teid_period s \<and>
    teid_ident (snd (teid_allocate s)) = teid_ident s"
  proof cases
    case below
    then have c: "unat (tp_counter s + 1) = Suc (unat (tp_counter s))" by (rule unat_Suc_less)
    from below have "unat (tp_counter s) < unat (tp_max s)" by (simp add: word_less_nat_alt)
    with inv le c show ?thesis
      by (auto simp: teid_allocate_below [OF below] teid_ident_def teid_pos_def teid_period_def
          teid_inv_def word_le_nat_alt word_less_nat_alt fun_eq_iff Suc_diff_le)
  next
    case full
    have wrap: "teid_allocate s = (Ok (tp_base s), s\<lparr>tp_counter := tp_base s + 1\<rparr>)"
      using inv full by (intro teid_allocate_wrap) (auto simp: teid_inv_def)
    have b: "unat (tp_base s + 1) = Suc (unat (tp_base s))"
      using inv by (intro unat_Suc_less [of _ "tp_max s"]) (simp add: teid_inv_def)
    from inv le b full show ?thesis
      by (auto simp: wrap teid_ident_def teid_pos_def teid_period_def teid_inv_def word_le_nat_alt
          word_less_nat_alt fun_eq_iff)
  qed
  then show "fst (teid_allocate s) = teid_ident s (teid_pos s)"
    and "teid_pos (snd (teid_allocate s)) = Suc (teid_pos s) mod teid_period s"
    and "teid_inv (snd (teid_allocate s))"
    and "teid_period (snd (teid_allocate s)) = teid_period s \<and>
      teid_ident (snd (teid_allocate s)) = teid_ident s"
    by blast+
  show "teid_pos s < teid_period s"
    using le by (simp add: teid_pos_def teid_period_def)
  show "inj_on (teid_ident s) {..<teid_period s}"
  proof (rule inj_onI)
    fix i j assume ij: "i \<in> {..<teid_period s}" "j \<in> {..<teid_period s}"
      and eq: "teid_ident s i = teid_ident s j"
    from ij have "unat (tp_base s) + i < 2 ^ 32" "unat (tp_base s) + j < 2 ^ 32"
      using unsigned_less [of "tp_max s", where 'a = nat] by (auto simp: teid_period_def)
    moreover from eq have "unat (of_nat (unat (tp_base s) + i) :: u32) =
        unat (of_nat (unat (tp_base s) + j) :: u32)" by (simp add: teid_ident_def)
    ultimately show "i = j" unfolding unat_of_nat by simp
  qed
qed

lemma teid_allocate_range:
  assumes "teid_inv p"
  obtains t where "fst (teid_allocate p) = Ok t" and "tp_base p \<le> t" and "t < tp_max p"
proof (cases "tp_counter p < tp_max p")
  case True
  with assms that show thesis by (auto simp: teid_allocate_below teid_inv_def)
next
  case False
  with assms have "teid_allocate p = (Ok (tp_base p), p\<lparr>tp_counter := tp_base p + 1\<rparr>)"
    by (intro teid_allocate_wrap) (auto simp: teid_inv_def)
  with assms that show thesis by (auto simp: teid_inv_def)
qed

section \<open>Many threads\<close>

text \<open>
  A thread in \<^verbatim>\<open>allocate\<close>: it has not touched the counter yet, it has seen a counter past the end and is
  about to store \<open>tp_base\<close>, it is about to fetch a second time, or it has returned. Each step is one
  access of the counter (all of them \<^verbatim>\<open>SeqCst\<close>), or the return to the caller.
\<close>

datatype teid_pc = Idle | Wrapping | Retrying | Returned "(GtpError, u32) outcome"

record teid_sys =
  ts_pool :: TeidPool
  ts_pc :: "nat \<Rightarrow> teid_pc"

definition teid_access :: "teid_sys \<Rightarrow> nat \<Rightarrow> TeidPool \<Rightarrow> teid_pc \<Rightarrow> teid_sys" where
  "teid_access s i p c = s\<lparr>ts_pool := p, ts_pc := (ts_pc s)(i := c)\<rparr>"

inductive teid_step :: "teid_sys \<Rightarrow> teid_sys \<Rightarrow> bool" where
  first: "ts_pc s i = Idle \<Longrightarrow> teid_fetch_add (ts_pool s) = (t, p) \<Longrightarrow> t < tp_max p \<Longrightarrow>
    teid_step s (teid_access s i p (Returned (Ok t)))"
| past_end: "ts_pc s i = Idle \<Longrightarrow> teid_fetch_add (ts_pool s) = (t, p) \<Longrightarrow> t \<ge> tp_max p \<Longrightarrow>
    teid_step s (teid_access s i p Wrapping)"
| wrap: "ts_pc s i = Wrapping \<Longrightarrow> p = ts_pool s \<Longrightarrow>
    teid_step s (teid_access s i (p\<lparr>tp_counter := tp_base p\<rparr>) Retrying)"
| retry: "ts_pc s i = Retrying \<Longrightarrow> teid_fetch_add (ts_pool s) = (t, p) \<Longrightarrow> t < tp_max p \<Longrightarrow>
    teid_step s (teid_access s i p (Returned (Ok t)))"
| fail: "ts_pc s i = Retrying \<Longrightarrow> teid_fetch_add (ts_pool s) = (t, p) \<Longrightarrow> t \<ge> tp_max p \<Longrightarrow>
    teid_step s (teid_access s i p (Returned (Err teid_exhausted)))"
| again: "ts_pc s i = Returned r \<Longrightarrow> teid_step s (teid_access s i (ts_pool s) Idle)"

definition teid_start :: "TeidPool \<Rightarrow> teid_sys" where
  "teid_start p = \<lparr>ts_pool = p, ts_pc = (\<lambda>_. Idle)\<rparr>"

inductive_cases teid_stepE: "teid_step s s'"

lemma teid_access_simps [simp]:
  "ts_pool (teid_access s i p c) = p" "ts_pc (teid_access s i p c) = (ts_pc s)(i := c)"
  "teid_access (teid_access s i p c) i p' c' = teid_access s i p' c'"
  by (simp_all add: teid_access_def)

text \<open>What holds under every interleaving: the range never changes and no TEID reaches its end.\<close>

definition teid_safe :: "TeidPool \<Rightarrow> teid_sys \<Rightarrow> bool" where
  "teid_safe p0 s \<longleftrightarrow> tp_base (ts_pool s) = tp_base p0 \<and> tp_max (ts_pool s) = tp_max p0 \<and>
     (\<forall>i t. ts_pc s i = Returned (Ok t) \<longrightarrow> t < tp_max p0)"

lemma teid_step_safe: "teid_step s s' \<Longrightarrow> teid_safe p0 s \<Longrightarrow> teid_safe p0 s'"
  by (erule teid_stepE) (auto simp: teid_safe_def teid_fetch_add_def)

lemma teid_steps_safe: "teid_step\<^sup>*\<^sup>* s s' \<Longrightarrow> teid_safe p0 s \<Longrightarrow> teid_safe p0 s'"
  by (induction rule: rtranclp_induct) (auto intro: teid_step_safe)

text \<open>A thread that is not disturbed runs \<open>teid_allocate\<close>.\<close>

lemma teid_alone:
  assumes "ts_pc s i = Idle" and "tp_base (ts_pool s) < tp_max (ts_pool s)"
  shows "teid_step\<^sup>*\<^sup>* s (teid_access s i (snd (teid_allocate (ts_pool s)))
      (Returned (fst (teid_allocate (ts_pool s)))))"
proof (cases "tp_counter (ts_pool s) < tp_max (ts_pool s)")
  case True
  with assms(1) have "teid_step s (teid_access s i (ts_pool s\<lparr>tp_counter := tp_counter (ts_pool s) + 1\<rparr>)
      (Returned (Ok (tp_counter (ts_pool s)))))"
    by (intro teid_step.first) (auto simp: teid_fetch_add_def)
  with True show ?thesis by (auto simp: teid_allocate_below)
next
  case False
  let ?p = "ts_pool s"
  let ?s1 = "teid_access s i (?p\<lparr>tp_counter := tp_counter ?p + 1\<rparr>) Wrapping"
  let ?s2 = "teid_access s i (?p\<lparr>tp_counter := tp_base ?p\<rparr>) Retrying"
  let ?s3 = "teid_access s i (?p\<lparr>tp_counter := tp_base ?p + 1\<rparr>) (Returned (Ok (tp_base ?p)))"
  have "teid_step s ?s1"
    using assms False by (intro teid_step.past_end) (auto simp: teid_fetch_add_def)
  moreover have "teid_step ?s1 ?s2"
    using teid_step.wrap [of ?s1 i "ts_pool ?s1"] by simp
  moreover have "teid_step ?s2 ?s3"
    using teid_step.retry [of ?s2 i "tp_base ?p" "?p\<lparr>tp_counter := tp_base ?p + 1\<rparr>"] assms
    by (simp add: teid_fetch_add_def)
  ultimately have "teid_step\<^sup>*\<^sup>* s ?s3" by (meson converse_rtranclp_into_rtranclp rtranclp.rtrancl_refl)
  with False assms show ?thesis by (simp add: teid_allocate_wrap not_less)
qed

text \<open>
  Two idle threads that meet a counter at the end of the range: both see it past the end, and each of
  them resets it before its own second fetch.
\<close>

lemma teid_race:
  assumes "ts_pc s i = Idle" "ts_pc s j = Idle" "i \<noteq> j"
    and "tp_counter (ts_pool s) = tp_max (ts_pool s)" "tp_base (ts_pool s) < tp_max (ts_pool s)"
    and "tp_max (ts_pool s) \<noteq> 0xFFFFFFFF"
  shows "\<exists>s'. teid_step\<^sup>*\<^sup>* s s' \<and> ts_pc s' i = Returned (Ok (tp_base (ts_pool s))) \<and>
    ts_pc s' j = Returned (Ok (tp_base (ts_pool s)))"
proof -
  let ?p = "ts_pool s" and ?b = "tp_base (ts_pool s)"
  have max_le: "tp_max ?p \<le> tp_max ?p + 1"
  proof -
    have "unat (tp_max ?p) < 2 ^ 32" using unsigned_less [of "tp_max ?p", where 'a = nat] by simp
    then have "tp_max ?p \<le> 0xFFFFFFFF" by (simp add: word_le_nat_alt)
    with assms(6) have "tp_max ?p < 0xFFFFFFFF" by simp
    then show ?thesis using unat_Suc_less by (simp add: word_le_nat_alt)
  qed
  let ?s1 = "teid_access s i (?p\<lparr>tp_counter := tp_max ?p + 1\<rparr>) Wrapping"
  let ?s2 = "teid_access ?s1 j (?p\<lparr>tp_counter := tp_max ?p + 1 + 1\<rparr>) Wrapping"
  let ?s3 = "teid_access ?s2 i (?p\<lparr>tp_counter := ?b\<rparr>) Retrying"
  let ?s4 = "teid_access ?s3 i (?p\<lparr>tp_counter := ?b + 1\<rparr>) (Returned (Ok ?b))"
  let ?s5 = "teid_access ?s4 j (?p\<lparr>tp_counter := ?b\<rparr>) Retrying"
  let ?s6 = "teid_access ?s5 j (?p\<lparr>tp_counter := ?b + 1\<rparr>) (Returned (Ok ?b))"
  have "teid_step s ?s1"
    using assms by (intro teid_step.past_end) (auto simp: teid_fetch_add_def)
  moreover have "teid_step ?s1 ?s2"
    using assms max_le by (intro teid_step.past_end) (auto simp: teid_fetch_add_def)
  moreover have "teid_step ?s2 ?s3"
    using teid_step.wrap [of ?s2 i "ts_pool ?s2"] assms by simp
  moreover have "teid_step ?s3 ?s4"
    using assms by (intro teid_step.retry) (auto simp: teid_fetch_add_def)
  moreover have "teid_step ?s4 ?s5"
    using teid_step.wrap [of ?s4 j "ts_pool ?s4"] assms by simp
  moreover have "teid_step ?s5 ?s6"
    using assms by (intro teid_step.retry) (auto simp: teid_fetch_add_def)
  ultimately have "teid_step\<^sup>*\<^sup>* s ?s6"
    by (meson converse_rtranclp_into_rtranclp rtranclp.rtrancl_refl)
  with assms(3) show ?thesis by (intro exI [of _ ?s6]) simp
qed

section \<open>Properties\<close>

text \<open>A pool used by one thread at a time never reports exhaustion, hands out TEIDs between its base
  (inclusive, so never 0) and its maximum (exclusive), and does not repeat one before it has handed
  out all of them.\<close>

lemma teid_sequential_unique:
  assumes "teid_inv p" and "n \<le> unat (tp_max p) - unat (tp_base p)"
  shows "distinct (fst (allocs teid_allocate n p)) \<and>
    (\<forall>r \<in> set (fst (allocs teid_allocate n p)).
       \<exists>t. r = Ok t \<and> tp_base p \<le> t \<and> t < tp_max p \<and> t \<noteq> 0) \<and>
    teid_inv (snd (allocs teid_allocate n p))"
proof -
  have base: "0 < tp_base p" "unat (tp_base p) < unat (tp_max p)"
    using assms(1) by (simp_all add: teid_inv_def word_less_nat_alt)
  have "\<exists>t. r = Ok t \<and> tp_base p \<le> t \<and> t < tp_max p \<and> t \<noteq> 0"
    if "r \<in> set (fst (allocs teid_allocate n p))" for r
  proof -
    from that obtain k where k: "r = teid_ident p (k mod teid_period p)"
      by (auto simp: teid.allocs_walk [OF assms(1)])
    let ?t = "of_nat (unat (tp_base p) + k mod teid_period p) :: u32"
    have "k mod teid_period p < unat (tp_max p) - unat (tp_base p)"
      using base by (simp add: teid_period_def)
    then have "unat ?t = unat (tp_base p) + k mod teid_period p"
      and "unat (tp_base p) + k mod teid_period p < unat (tp_max p)"
      using unsigned_less [of "tp_max p", where 'a = nat] unfolding unat_of_nat by simp_all
    with base k show ?thesis
      by (intro exI [of _ ?t])
        (auto simp: teid_ident_def word_le_nat_alt word_less_nat_alt unat_eq_zero [symmetric])
  qed
  moreover have "distinct (fst (allocs teid_allocate n p))"
    using assms by (intro teid.allocs_distinct) (simp_all add: teid_period_def)
  ultimately show ?thesis using teid.allocs_inv [OF assms(1)] by blast
qed

theorem teid_sequential_unique_witness:
  "distinct (fst (allocs teid_allocate 5 \<lparr>tp_counter = 14, tp_base = 10, tp_max = 15\<rparr>))"
  using teid_sequential_unique [of "\<lparr>tp_counter = 14, tp_base = 10, tp_max = 15\<rparr>" 5]
  by (simp add: teid_inv_def)



text \<open>The pool does not keep TEIDs unique between threads: whenever two threads call \<^verbatim>\<open>allocate\<close> on a
  counter that has reached the maximum (of any pool but one with the largest maximum), there is an
  interleaving in which both get the same TEID, although they are the only allocations.\<close>

lemma teid_race_duplicates:
  assumes "tp_base p < tp_max p" and "tp_max p \<noteq> 0xFFFFFFFF" and "tp_counter p = tp_max p"
    and "i \<noteq> j"
  shows "\<exists>s t. teid_step\<^sup>*\<^sup>* (teid_start p) s \<and> ts_pc s i = Returned (Ok t) \<and>
    ts_pc s j = Returned (Ok t)"
  using assms teid_race [of "teid_start p" i j] by (auto simp: teid_start_def)

lemma teid_race_duplicates_witness:
  "\<exists>s t. teid_step\<^sup>*\<^sup>* (teid_start \<lparr>tp_counter = 15, tp_base = 10, tp_max = 15\<rparr>) s \<and>
    ts_pc s 0 = Returned (Ok t) \<and> ts_pc s 1 = Returned (Ok t)"
  by (rule teid_race_duplicates) simp_all

text \<open>In the default pool, whose maximum is the largest 32-bit number, a thread can get the TEID 0,
  which the pool excludes, when another thread has just moved the counter past the end.\<close>

lemma teid_race_zero:
  assumes "tp_base p < tp_max p" and "tp_max p = 0xFFFFFFFF" and "tp_counter p = tp_max p"
    and "i \<noteq> j"
  shows "\<exists>s. teid_step\<^sup>*\<^sup>* (teid_start p) s \<and> ts_pc s j = Returned (Ok 0)"
proof -
  let ?s = "teid_start p"
  let ?s1 = "teid_access ?s i (p\<lparr>tp_counter := 0\<rparr>) Wrapping"
  let ?s2 = "teid_access ?s1 j (p\<lparr>tp_counter := 1\<rparr>) (Returned (Ok 0))"
  have "teid_step ?s ?s1"
    using assms by (intro teid_step.past_end) (auto simp: teid_start_def teid_fetch_add_def)
  moreover have "teid_step ?s1 ?s2"
    using assms by (intro teid_step.first) (auto simp: teid_start_def teid_fetch_add_def)
  ultimately have "teid_step\<^sup>*\<^sup>* ?s ?s2" by simp
  then show ?thesis by (intro exI [of _ ?s2]) simp
qed

theorem teid_race_zero_witness:
  "\<exists>s. teid_step\<^sup>*\<^sup>* (teid_start (teid_new\<lparr>tp_counter := 0xFFFFFFFF\<rparr>)) s \<and> ts_pc s 1 = Returned (Ok 0)"
  by (rule teid_race_zero [of _ 0]) (simp_all add: teid_new_def)

end
