(* ===== verification/Gtp2_Header.thy ===== *)
theory Gtp2_Header
  imports Gtp_Error
begin

text \<open>
  The GTPv2-C header (\<^verbatim>\<open>libs/nextgcore-gtp/src/v2/header.rs\<close>) of the control plane between MME, SGW-C and
  SMF/PGW-C: message types, header record, encoder and decoder, as instances of \<open>octet_enum\<close> and
  \<open>byte_codec\<close>.
\<close>

section \<open>Constants and message types\<close>

definition GTPV2C_HEADER_LEN :: nat where "GTPV2C_HEADER_LEN = 12"
definition GTPV2C_HEADER_LEN_NO_TEID :: nat where "GTPV2C_HEADER_LEN_NO_TEID = 8"

datatype (plugins only: code) Gtp2MessageType =
    EchoRequest
  | EchoResponse
  | VersionNotSupportedIndication
  | CreateSessionRequest
  | CreateSessionResponse
  | ModifyBearerRequest
  | ModifyBearerResponse
  | DeleteSessionRequest
  | DeleteSessionResponse
  | ChangeNotificationRequest
  | ChangeNotificationResponse
  | RemoteUeReportNotification
  | RemoteUeReportAcknowledge
  | ModifyBearerCommand
  | ModifyBearerFailureIndication
  | DeleteBearerCommand
  | DeleteBearerFailureIndication
  | BearerResourceCommand
  | BearerResourceFailureIndication
  | DownlinkDataNotificationFailureIndication
  | TraceSessionActivation
  | TraceSessionDeactivation
  | StopPagingIndication
  | CreateBearerRequest
  | CreateBearerResponse
  | UpdateBearerRequest
  | UpdateBearerResponse
  | DeleteBearerRequest
  | DeleteBearerResponse
  | DeletePdnConnectionSetRequest
  | DeletePdnConnectionSetResponse
  | PgwDownlinkTriggeringNotification
  | PgwDownlinkTriggeringAcknowledge
  | CreateForwardingTunnelRequest
  | CreateForwardingTunnelResponse
  | SuspendNotification
  | SuspendAcknowledge
  | ResumeNotification
  | ResumeAcknowledge
  | CreateIndirectDataForwardingTunnelRequest
  | CreateIndirectDataForwardingTunnelResponse
  | DeleteIndirectDataForwardingTunnelRequest
  | DeleteIndirectDataForwardingTunnelResponse
  | ReleaseAccessBearersRequest
  | ReleaseAccessBearersResponse
  | DownlinkDataNotification
  | DownlinkDataNotificationAcknowledge
  | PgwRestartNotification
  | PgwRestartNotificationAcknowledge
  | UpdatePdnConnectionSetRequest
  | UpdatePdnConnectionSetResponse
  | ModifyAccessBearersRequest
  | ModifyAccessBearersResponse

primrec gtp2_as_u8 :: "Gtp2MessageType \<Rightarrow> u8" where
  "gtp2_as_u8 Gtp2MessageType.EchoRequest = 1"
| "gtp2_as_u8 Gtp2MessageType.EchoResponse = 2"
| "gtp2_as_u8 Gtp2MessageType.VersionNotSupportedIndication = 3"
| "gtp2_as_u8 Gtp2MessageType.CreateSessionRequest = 32"
| "gtp2_as_u8 Gtp2MessageType.CreateSessionResponse = 33"
| "gtp2_as_u8 Gtp2MessageType.ModifyBearerRequest = 34"
| "gtp2_as_u8 Gtp2MessageType.ModifyBearerResponse = 35"
| "gtp2_as_u8 Gtp2MessageType.DeleteSessionRequest = 36"
| "gtp2_as_u8 Gtp2MessageType.DeleteSessionResponse = 37"
| "gtp2_as_u8 Gtp2MessageType.ChangeNotificationRequest = 38"
| "gtp2_as_u8 Gtp2MessageType.ChangeNotificationResponse = 39"
| "gtp2_as_u8 Gtp2MessageType.RemoteUeReportNotification = 40"
| "gtp2_as_u8 Gtp2MessageType.RemoteUeReportAcknowledge = 41"
| "gtp2_as_u8 Gtp2MessageType.ModifyBearerCommand = 64"
| "gtp2_as_u8 Gtp2MessageType.ModifyBearerFailureIndication = 65"
| "gtp2_as_u8 Gtp2MessageType.DeleteBearerCommand = 66"
| "gtp2_as_u8 Gtp2MessageType.DeleteBearerFailureIndication = 67"
| "gtp2_as_u8 Gtp2MessageType.BearerResourceCommand = 68"
| "gtp2_as_u8 Gtp2MessageType.BearerResourceFailureIndication = 69"
| "gtp2_as_u8 Gtp2MessageType.DownlinkDataNotificationFailureIndication = 70"
| "gtp2_as_u8 Gtp2MessageType.TraceSessionActivation = 71"
| "gtp2_as_u8 Gtp2MessageType.TraceSessionDeactivation = 72"
| "gtp2_as_u8 Gtp2MessageType.StopPagingIndication = 73"
| "gtp2_as_u8 Gtp2MessageType.CreateBearerRequest = 95"
| "gtp2_as_u8 Gtp2MessageType.CreateBearerResponse = 96"
| "gtp2_as_u8 Gtp2MessageType.UpdateBearerRequest = 97"
| "gtp2_as_u8 Gtp2MessageType.UpdateBearerResponse = 98"
| "gtp2_as_u8 Gtp2MessageType.DeleteBearerRequest = 99"
| "gtp2_as_u8 Gtp2MessageType.DeleteBearerResponse = 100"
| "gtp2_as_u8 Gtp2MessageType.DeletePdnConnectionSetRequest = 101"
| "gtp2_as_u8 Gtp2MessageType.DeletePdnConnectionSetResponse = 102"
| "gtp2_as_u8 Gtp2MessageType.PgwDownlinkTriggeringNotification = 103"
| "gtp2_as_u8 Gtp2MessageType.PgwDownlinkTriggeringAcknowledge = 104"
| "gtp2_as_u8 Gtp2MessageType.CreateForwardingTunnelRequest = 160"
| "gtp2_as_u8 Gtp2MessageType.CreateForwardingTunnelResponse = 161"
| "gtp2_as_u8 Gtp2MessageType.SuspendNotification = 162"
| "gtp2_as_u8 Gtp2MessageType.SuspendAcknowledge = 163"
| "gtp2_as_u8 Gtp2MessageType.ResumeNotification = 164"
| "gtp2_as_u8 Gtp2MessageType.ResumeAcknowledge = 165"
| "gtp2_as_u8 Gtp2MessageType.CreateIndirectDataForwardingTunnelRequest = 166"
| "gtp2_as_u8 Gtp2MessageType.CreateIndirectDataForwardingTunnelResponse = 167"
| "gtp2_as_u8 Gtp2MessageType.DeleteIndirectDataForwardingTunnelRequest = 168"
| "gtp2_as_u8 Gtp2MessageType.DeleteIndirectDataForwardingTunnelResponse = 169"
| "gtp2_as_u8 Gtp2MessageType.ReleaseAccessBearersRequest = 170"
| "gtp2_as_u8 Gtp2MessageType.ReleaseAccessBearersResponse = 171"
| "gtp2_as_u8 Gtp2MessageType.DownlinkDataNotification = 176"
| "gtp2_as_u8 Gtp2MessageType.DownlinkDataNotificationAcknowledge = 177"
| "gtp2_as_u8 Gtp2MessageType.PgwRestartNotification = 179"
| "gtp2_as_u8 Gtp2MessageType.PgwRestartNotificationAcknowledge = 180"
| "gtp2_as_u8 Gtp2MessageType.UpdatePdnConnectionSetRequest = 200"
| "gtp2_as_u8 Gtp2MessageType.UpdatePdnConnectionSetResponse = 201"
| "gtp2_as_u8 Gtp2MessageType.ModifyAccessBearersRequest = 211"
| "gtp2_as_u8 Gtp2MessageType.ModifyAccessBearersResponse = 212"

definition gtp2_try_from :: "u8 \<Rightarrow> (GtpError, Gtp2MessageType) outcome" where
  "gtp2_try_from value =
     (if value = 1 then Ok Gtp2MessageType.EchoRequest
     else if value = 2 then Ok Gtp2MessageType.EchoResponse
     else if value = 3 then Ok Gtp2MessageType.VersionNotSupportedIndication
     else if value = 32 then Ok Gtp2MessageType.CreateSessionRequest
     else if value = 33 then Ok Gtp2MessageType.CreateSessionResponse
     else if value = 34 then Ok Gtp2MessageType.ModifyBearerRequest
     else if value = 35 then Ok Gtp2MessageType.ModifyBearerResponse
     else if value = 36 then Ok Gtp2MessageType.DeleteSessionRequest
     else if value = 37 then Ok Gtp2MessageType.DeleteSessionResponse
     else if value = 38 then Ok Gtp2MessageType.ChangeNotificationRequest
     else if value = 39 then Ok Gtp2MessageType.ChangeNotificationResponse
     else if value = 40 then Ok Gtp2MessageType.RemoteUeReportNotification
     else if value = 41 then Ok Gtp2MessageType.RemoteUeReportAcknowledge
     else if value = 64 then Ok Gtp2MessageType.ModifyBearerCommand
     else if value = 65 then Ok Gtp2MessageType.ModifyBearerFailureIndication
     else if value = 66 then Ok Gtp2MessageType.DeleteBearerCommand
     else if value = 67 then Ok Gtp2MessageType.DeleteBearerFailureIndication
     else if value = 68 then Ok Gtp2MessageType.BearerResourceCommand
     else if value = 69 then Ok Gtp2MessageType.BearerResourceFailureIndication
     else if value = 70 then Ok Gtp2MessageType.DownlinkDataNotificationFailureIndication
     else if value = 71 then Ok Gtp2MessageType.TraceSessionActivation
     else if value = 72 then Ok Gtp2MessageType.TraceSessionDeactivation
     else if value = 73 then Ok Gtp2MessageType.StopPagingIndication
     else if value = 95 then Ok Gtp2MessageType.CreateBearerRequest
     else if value = 96 then Ok Gtp2MessageType.CreateBearerResponse
     else if value = 97 then Ok Gtp2MessageType.UpdateBearerRequest
     else if value = 98 then Ok Gtp2MessageType.UpdateBearerResponse
     else if value = 99 then Ok Gtp2MessageType.DeleteBearerRequest
     else if value = 100 then Ok Gtp2MessageType.DeleteBearerResponse
     else if value = 101 then Ok Gtp2MessageType.DeletePdnConnectionSetRequest
     else if value = 102 then Ok Gtp2MessageType.DeletePdnConnectionSetResponse
     else if value = 103 then Ok Gtp2MessageType.PgwDownlinkTriggeringNotification
     else if value = 104 then Ok Gtp2MessageType.PgwDownlinkTriggeringAcknowledge
     else if value = 160 then Ok Gtp2MessageType.CreateForwardingTunnelRequest
     else if value = 161 then Ok Gtp2MessageType.CreateForwardingTunnelResponse
     else if value = 162 then Ok Gtp2MessageType.SuspendNotification
     else if value = 163 then Ok Gtp2MessageType.SuspendAcknowledge
     else if value = 164 then Ok Gtp2MessageType.ResumeNotification
     else if value = 165 then Ok Gtp2MessageType.ResumeAcknowledge
     else if value = 166 then Ok Gtp2MessageType.CreateIndirectDataForwardingTunnelRequest
     else if value = 167 then Ok Gtp2MessageType.CreateIndirectDataForwardingTunnelResponse
     else if value = 168 then Ok Gtp2MessageType.DeleteIndirectDataForwardingTunnelRequest
     else if value = 169 then Ok Gtp2MessageType.DeleteIndirectDataForwardingTunnelResponse
     else if value = 170 then Ok Gtp2MessageType.ReleaseAccessBearersRequest
     else if value = 171 then Ok Gtp2MessageType.ReleaseAccessBearersResponse
     else if value = 176 then Ok Gtp2MessageType.DownlinkDataNotification
     else if value = 177 then Ok Gtp2MessageType.DownlinkDataNotificationAcknowledge
     else if value = 179 then Ok Gtp2MessageType.PgwRestartNotification
     else if value = 180 then Ok Gtp2MessageType.PgwRestartNotificationAcknowledge
     else if value = 200 then Ok Gtp2MessageType.UpdatePdnConnectionSetRequest
     else if value = 201 then Ok Gtp2MessageType.UpdatePdnConnectionSetResponse
     else if value = 211 then Ok Gtp2MessageType.ModifyAccessBearersRequest
     else if value = 212 then Ok Gtp2MessageType.ModifyAccessBearersResponse
      else Err (InvalidMessageType value))"

interpretation gtp2_type: octet_enum gtp2_as_u8 gtp2_try_from InvalidMessageType
proof
  fix m show "gtp2_try_from (gtp2_as_u8 m) = Ok m"
    by (cases m) (simp_all add: gtp2_try_from_def)
next
  fix v m assume "gtp2_try_from v = Ok m" then show "gtp2_as_u8 m = v"
    by (simp add: gtp2_try_from_def split: if_split_asm)
next
  fix v show "(\<exists>m. gtp2_try_from v = Ok m) \<or> gtp2_try_from v = Err (InvalidMessageType v)"
    by (simp add: gtp2_try_from_def)
qed

section \<open>The header\<close>

record Gtp2Header =
  h2_version :: u8
  h2_piggybacked :: bool
  h2_teid_presence :: bool
  h2_message_type :: u8
  h2_length :: u16
  h2_teid :: "u32 option"
  h2_sequence_number :: u32

definition gtp2_default :: Gtp2Header where
  "gtp2_default = \<lparr>h2_version = 2, h2_piggybacked = False, h2_teid_presence = True,
     h2_message_type = 0, h2_length = 0, h2_teid = Some 0, h2_sequence_number = 0\<rparr>"

definition gtp2_new :: "u8 \<Rightarrow> u32 \<Rightarrow> u32 \<Rightarrow> Gtp2Header" where
  "gtp2_new message_type teid sequence_number = \<lparr>h2_version = 2, h2_piggybacked = False,
     h2_teid_presence = True, h2_message_type = message_type, h2_length = 0, h2_teid = Some teid,
     h2_sequence_number = sequence_number\<rparr>"

definition gtp2_new_no_teid :: "u8 \<Rightarrow> u32 \<Rightarrow> Gtp2Header" where
  "gtp2_new_no_teid message_type sequence_number = \<lparr>h2_version = 2, h2_piggybacked = False,
     h2_teid_presence = False, h2_message_type = message_type, h2_length = 0, h2_teid = None,
     h2_sequence_number = sequence_number\<rparr>"

definition gtp2_flags :: "Gtp2Header \<Rightarrow> u8" where
  "gtp2_flags h =
     (let flags = push_bit 5 (h2_version h AND 0x07);
          flags = (if h2_piggybacked h then flags OR 0x10 else flags);
          flags = (if h2_teid_presence h then flags OR 0x08 else flags)
      in flags)"

definition gtp2_header_len :: "Gtp2Header \<Rightarrow> nat" where
  "gtp2_header_len h = (if h2_teid_presence h then GTPV2C_HEADER_LEN else GTPV2C_HEADER_LEN_NO_TEID)"

definition gtp2_xid_to_sqn :: "u32 \<Rightarrow> u32" where
  "gtp2_xid_to_sqn xid = push_bit 8 xid"

definition gtp2_sqn_to_xid :: "u32 \<Rightarrow> u32" where
  "gtp2_sqn_to_xid sqn = drop_bit 8 sqn"

definition gtp2_encode :: "Gtp2Header \<Rightarrow> bytes" where
  "gtp2_encode h =
     [gtp2_flags h, h2_message_type h] @ to_be16 (h2_length h) @
     (if h2_teid_presence h
      then to_be32 (case h2_teid h of Some t \<Rightarrow> t | None \<Rightarrow> 0) else []) @
     to_be32 (push_bit 8 (h2_sequence_number h))"

definition gtp2_decode :: "bytes \<Rightarrow> (GtpError, Gtp2Header \<times> bytes) outcome" where
  "gtp2_decode buf =
     (if length buf < 4 then Err (BufferTooShort 4 (length buf))
      else
        obind (get_u8 buf) (\<lambda>(flags, buf).
        let version = drop_bit 5 flags AND 0x07;
            piggybacked = (flags AND 0x10) \<noteq> 0;
            teid_presence = (flags AND 0x08) \<noteq> 0
        in obind (get_u8 buf) (\<lambda>(message_type, buf).
        obind (get_u16 buf) (\<lambda>(len, buf).
        if version \<noteq> 2 then Err (InvalidVersion version)
        else
          let min_remaining = (if teid_presence then 8 else 4)
          in if length buf < min_remaining then Err (BufferTooShort min_remaining (length buf))
             else
               obind (if teid_presence
                      then obind (get_u32 buf) (\<lambda>(t, buf). Ok (Some t, buf))
                      else Ok (None, buf)) (\<lambda>(teid, buf).
               obind (get_u32 buf) (\<lambda>(sqn_raw, buf).
               Ok (\<lparr>h2_version = version, h2_piggybacked = piggybacked,
                    h2_teid_presence = teid_presence, h2_message_type = message_type,
                    h2_length = len, h2_teid = teid,
                    h2_sequence_number = drop_bit 8 sqn_raw\<rparr>, buf)))))))"

section \<open>Correctness of the header codec\<close>

text \<open>
  The invariant of the decoded headers: version 2, a TEID exactly when the T flag is set, and a
  sequence number of 24 bits.
\<close>

definition gtp2_wf :: "Gtp2Header \<Rightarrow> bool" where
  "gtp2_wf h \<longleftrightarrow> h2_version h = 2 \<and> (h2_teid h \<noteq> None) = h2_teid_presence h \<and>
     h2_sequence_number h < 0x1000000"

lemma gtp2_flags_bits:
  assumes "h2_version h = 2"
  shows "drop_bit 5 (gtp2_flags h) AND 7 = 2"
    and "(gtp2_flags h AND 0x10 \<noteq> 0) = h2_piggybacked h"
    and "(gtp2_flags h AND 0x08 \<noteq> 0) = h2_teid_presence h"
  using assms by (auto simp: gtp2_flags_def)

lemma gtp2_decode_octets:
  "gtp2_decode (o1 # o2 # o3 # o4 # b) =
     (if drop_bit 5 o1 AND 7 \<noteq> (2 :: u8) then Err (InvalidVersion (drop_bit 5 o1 AND 7))
      else
        let h = \<lparr>h2_version = 2, h2_piggybacked = (o1 AND 0x10) \<noteq> 0,
              h2_teid_presence = (o1 AND 0x08) \<noteq> 0, h2_message_type = o2,
              h2_length = from_be16 o3 o4, h2_teid = None, h2_sequence_number = 0\<rparr>
        in if (o1 AND 0x08) \<noteq> 0 then
             (case b of t1 # t2 # t3 # t4 # s1 # s2 # s3 # s4 # r \<Rightarrow>
                Ok (h\<lparr>h2_teid := Some (from_be32 t1 t2 t3 t4),
                  h2_sequence_number := drop_bit 8 (from_be32 s1 s2 s3 s4)\<rparr>, r)
              | _ \<Rightarrow> Err (BufferTooShort 8 (length b)))
           else
             (case b of s1 # s2 # s3 # s4 # r \<Rightarrow>
                Ok (h\<lparr>h2_sequence_number := drop_bit 8 (from_be32 s1 s2 s3 s4)\<rparr>, r)
              | _ \<Rightarrow> Err (BufferTooShort 4 (length b))))"
  by (simp add: gtp2_decode_def Let_def split: list.split)

lemma gtp2_decode_short: "length b < 4 \<Longrightarrow> gtp2_decode b = Err (BufferTooShort 4 (length b))"
  by (simp add: gtp2_decode_def)

lemma gtp2_decode_encode:
  assumes wf: "gtp2_wf h"
  shows "gtp2_decode (gtp2_encode h @ r) = Ok (h, r)"
proof -
  obtain l1 l2 where l: "to_be16 (h2_length h) = [l1, l2]" "from_be16 l1 l2 = h2_length h"
    by (rule to_be16_octets)
  obtain t1 t2 t3 t4 where t: "to_be32 (the (h2_teid h)) = [t1, t2, t3, t4]"
    "from_be32 t1 t2 t3 t4 = the (h2_teid h)" by (rule to_be32_octets)
  obtain s1 s2 s3 s4 where s: "to_be32 (push_bit 8 (h2_sequence_number h)) = [s1, s2, s3, s4]"
    "from_be32 s1 s2 s3 s4 = push_bit 8 (h2_sequence_number h)" by (rule to_be32_octets)
  have "h2_version h = 2" and sqn: "h2_sequence_number h < 0x1000000"
    using wf by (simp_all add: gtp2_wf_def)
  note flags = gtp2_flags_bits [OF this(1)]
  show ?thesis
  proof (cases "h2_teid_presence h")
    case True
    with wf obtain teid where teid: "h2_teid h = Some teid" by (auto simp: gtp2_wf_def)
    from True teid wf flags t show ?thesis
      by (simp add: gtp2_encode_def l s gtp2_decode_octets drop_push_24 [OF sqn] gtp2_wf_def)
  next
    case False
    with wf flags show ?thesis
      by (simp add: gtp2_encode_def l s gtp2_decode_octets drop_push_24 [OF sqn] gtp2_wf_def)
  qed
qed

lemma gtp2_encode_length: "length (gtp2_encode h) = gtp2_header_len h"
  by (simp add: gtp2_encode_def gtp2_header_len_def GTPV2C_HEADER_LEN_def
      GTPV2C_HEADER_LEN_NO_TEID_def)

lemma gtp2_decode_cases:
  assumes "gtp2_decode b = Ok (h, r)"
  shows "gtp2_wf h \<and> (\<exists>p. b = p @ r \<and> length p = gtp2_header_len h)"
proof -
  from assms have "4 \<le> length b"
    using gtp2_decode_short [of b] by (cases "length b < 4") simp_all
  then obtain o1 o2 o3 o4 b' where b: "b = o1 # o2 # o3 # o4 # b'"
    by (auto simp: buffer_ge4)
  from assms show ?thesis
    unfolding b gtp2_decode_octets Let_def
    by (auto simp: gtp2_wf_def gtp2_header_len_def GTPV2C_HEADER_LEN_def
        GTPV2C_HEADER_LEN_NO_TEID_def drop_8_below_24 split: if_split_asm list.split_asm)
qed

lemma gtp2_decode_no_panic: "gtp2_decode b \<noteq> Panic"
proof (cases "length b < 4")
  case False
  then show ?thesis
    by (auto simp: not_less buffer_ge4 gtp2_decode_octets Let_def
        split: if_split_asm list.split_asm)
qed (simp add: gtp2_decode_short)

interpretation gtp2: byte_codec gtp2_wf gtp2_encode gtp2_decode
  using gtp2_decode_encode gtp2_decode_cases gtp2_decode_no_panic gtp2_encode_length
  by unfold_locales auto

section \<open>Properties\<close>

text \<open>Decoding an encoded GTPv2-C header gives the header back and leaves what follows it, for every
  well-formed header.\<close>

lemma gtp2_roundtrip:
  assumes "gtp2_wf h"
  shows "gtp2_decode (gtp2_encode h @ rest) = Ok (h, rest)"
  using assms by (rule gtp2.dec_enc)

lemma gtp2_roundtrip_witness:
  "gtp2_wf (gtp2_new 32 7 0x00ABCDEF) \<and>
   gtp2_decode (gtp2_encode (gtp2_new 32 7 0x00ABCDEF) @ [0x45, 0]) = Ok (gtp2_new 32 7 0x00ABCDEF, [0x45, 0])"
proof -
  have h: "gtp2_wf (gtp2_new 32 7 0x00ABCDEF)"
    by (simp add: gtp2_wf_def gtp2_new_def)
  show ?thesis using h gtp2_roundtrip [OF h] by simp
qed

text \<open>On any octets a peer may send, the GTPv2-C decoder does not panic; a header it accepts is
  well-formed, takes exactly its header length from the buffer, and encoding it again gives octets
  that decode to the same header.\<close>

lemma gtp2_decode_sound:
  "gtp2_decode b \<noteq> Panic \<and>
   (\<forall>h r. gtp2_decode b = Ok (h, r) \<longrightarrow>
      gtp2_wf h \<and> length b = gtp2_header_len h + length r \<and> (\<exists>p. b = p @ r) \<and>
      gtp2_decode (gtp2_encode h @ r) = Ok (h, r))"
  using gtp2.dec_no_panic [of b] gtp2.dec_consumes [of b] gtp2.dec_length [of b]
    gtp2.dec_enc_dec [of b]
  by (fastforce simp: gtp2_encode_length)

lemma gtp2_decode_sound_witness:
  "gtp2_decode [0x40, 1, 0, 4, 0, 0, 5, 0] =
     Ok (gtp2_new_no_teid 1 5\<lparr>h2_length := 4\<rparr>, []) \<and>
   gtp2_wf (gtp2_new_no_teid 1 5\<lparr>h2_length := 4\<rparr>)"
proof -
  have "gtp2_decode [0x40, 1, 0, 4, 0, 0, 5, 0] = Ok (gtp2_new_no_teid 1 5\<lparr>h2_length := 4\<rparr>, [])"
    by (simp add: gtp2_decode_octets gtp2_new_no_teid_def from_be16_def from_be32_def Let_def)
  then show ?thesis using gtp2_decode_sound [of "[0x40, 1, 0, 4, 0, 0, 5, 0]"] by blast
qed

end
