(* ===== verification/Gtp2_Xact.thy ===== *)
theory Gtp2_Xact
  imports Gtp2_Header Id_Allocator "HOL-Library.AList"
begin

text \<open>
  The GTPv2-C transaction layer (\<^verbatim>\<open>libs/nextgcore-gtp/src/v2/xact.rs\<close>): sequence numbers, request/response
  matching, T3/N3 retransmission and the cache of sent responses.

  Instants and durations are numbers of clock ticks; \<^verbatim>\<open>Instant::now()\<close> is an argument. A \<^verbatim>\<open>HashMap\<close> is
  an association list in its iteration order, with \<open>AList.update\<close> and \<open>AList.delete\<close> for \<^verbatim>\<open>insert\<close> and
  \<^verbatim>\<open>remove\<close>; nothing that is proved depends on that order. The type of peer addresses is a parameter.
\<close>

section \<open>State\<close>

definition GTP2_MAX_SEQUENCE :: u32 where "GTP2_MAX_SEQUENCE = 0x00FFFFFF"

record Gtp2XactConfig =
  xc_t3_response :: nat
  xc_n3_requests :: u32
  xc_response_hold :: nat

definition xact_config_default :: Gtp2XactConfig where
  "xact_config_default = \<lparr>xc_t3_response = 3, xc_n3_requests = 3, xc_response_hold = 12\<rparr>"

record 'p Gtp2LocalXact =
  lx_sequence_number :: u32
  lx_message_type :: u8
  lx_peer :: 'p
  lx_encoded :: bytes
  lx_data :: u64
  lx_deadline :: nat
  lx_retries_left :: u32

record CachedResponse =
  cr_encoded :: bytes
  cr_expires :: nat

record 'p Gtp2XactPoll =
  xp_retransmits :: "('p \<times> bytes) list"
  xp_exhausted :: "'p Gtp2LocalXact list"

record 'p Gtp2XactMgr =
  xm_config :: Gtp2XactConfig
  xm_next_sequence :: u32
  xm_local :: "(u32 \<times> 'p Gtp2LocalXact) list"
  xm_responses :: "(('p \<times> u32) \<times> CachedResponse) list"

section \<open>Operations\<close>

definition triggered_message_type :: "u8 \<Rightarrow> u8 option" where
  "triggered_message_type r =
     (if r = gtp2_as_u8 EchoRequest then Some (gtp2_as_u8 EchoResponse)
      else if r = gtp2_as_u8 CreateSessionRequest then Some (gtp2_as_u8 CreateSessionResponse)
      else if r = gtp2_as_u8 ModifyBearerRequest then Some (gtp2_as_u8 ModifyBearerResponse)
      else if r = gtp2_as_u8 DeleteSessionRequest then Some (gtp2_as_u8 DeleteSessionResponse)
      else if r = gtp2_as_u8 ChangeNotificationRequest
        then Some (gtp2_as_u8 ChangeNotificationResponse)
      else if r = gtp2_as_u8 CreateBearerRequest then Some (gtp2_as_u8 CreateBearerResponse)
      else if r = gtp2_as_u8 UpdateBearerRequest then Some (gtp2_as_u8 UpdateBearerResponse)
      else if r = gtp2_as_u8 DeleteBearerRequest then Some (gtp2_as_u8 DeleteBearerResponse)
      else if r = gtp2_as_u8 CreateIndirectDataForwardingTunnelRequest
        then Some (gtp2_as_u8 CreateIndirectDataForwardingTunnelResponse)
      else if r = gtp2_as_u8 DeleteIndirectDataForwardingTunnelRequest
        then Some (gtp2_as_u8 DeleteIndirectDataForwardingTunnelResponse)
      else if r = gtp2_as_u8 ReleaseAccessBearersRequest
        then Some (gtp2_as_u8 ReleaseAccessBearersResponse)
      else if r = gtp2_as_u8 DownlinkDataNotification
        then Some (gtp2_as_u8 DownlinkDataNotificationAcknowledge)
      else if r = gtp2_as_u8 ModifyAccessBearersRequest
        then Some (gtp2_as_u8 ModifyAccessBearersResponse)
      else if r = gtp2_as_u8 CreateForwardingTunnelRequest
        then Some (gtp2_as_u8 CreateForwardingTunnelResponse)
      else if r = gtp2_as_u8 DeletePdnConnectionSetRequest
        then Some (gtp2_as_u8 DeletePdnConnectionSetResponse)
      else if r = gtp2_as_u8 UpdatePdnConnectionSetRequest
        then Some (gtp2_as_u8 UpdatePdnConnectionSetResponse)
      else None)"

definition xact_new :: "Gtp2XactConfig \<Rightarrow> 'p Gtp2XactMgr" where
  "xact_new config = \<lparr>xm_config = config, xm_next_sequence = 1, xm_local = [], xm_responses = []\<rparr>"

definition alloc_sequence :: "'p Gtp2XactMgr \<Rightarrow> u32 \<times> 'p Gtp2XactMgr" where
  "alloc_sequence m =
     (let seq = xm_next_sequence m;
          m = m\<lparr>xm_next_sequence := (xm_next_sequence m + 1) AND GTP2_MAX_SEQUENCE\<rparr>;
          m = (if xm_next_sequence m = 0 then m\<lparr>xm_next_sequence := 1\<rparr> else m)
      in (seq, m))"

definition register_request ::
  "nat \<Rightarrow> u32 \<Rightarrow> u8 \<Rightarrow> 'p \<Rightarrow> bytes \<Rightarrow> u64 \<Rightarrow> 'p Gtp2XactMgr \<Rightarrow> 'p Gtp2XactMgr" where
  "register_request now sequence_number message_type peer encoded dat m =
     (let xact = \<lparr>lx_sequence_number = sequence_number, lx_message_type = message_type,
            lx_peer = peer, lx_encoded = encoded, lx_data = dat,
            lx_deadline = now + xc_t3_response (xm_config m),
            lx_retries_left = xc_n3_requests (xm_config m)\<rparr>
      in m\<lparr>xm_local := AList.update sequence_number xact (xm_local m)\<rparr>)"

definition match_response ::
  "u32 \<Rightarrow> u8 \<Rightarrow> 'p Gtp2XactMgr \<Rightarrow> 'p Gtp2LocalXact option \<times> 'p Gtp2XactMgr" where
  "match_response sequence_number response_type m =
     (case Option.bind (map_of (xm_local m) sequence_number)
             (\<lambda>xact. triggered_message_type (lx_message_type xact)) of
        Some t \<Rightarrow>
          if t = response_type
          then (map_of (xm_local m) sequence_number,
                m\<lparr>xm_local := AList.delete sequence_number (xm_local m)\<rparr>)
          else (None, m)
      | None \<Rightarrow> (None, m))"

definition outstanding :: "'p Gtp2XactMgr \<Rightarrow> nat" where
  "outstanding m = length (xm_local m)"

text \<open>The loop of \<^verbatim>\<open>poll\<close> over the outstanding requests: the map, the retransmissions, the exhausted numbers.\<close>

fun poll_scan ::
  "Gtp2XactConfig \<Rightarrow> nat \<Rightarrow> (u32 \<times> 'p Gtp2LocalXact) list \<Rightarrow>
     (u32 \<times> 'p Gtp2LocalXact) list \<times> ('p \<times> bytes) list \<times> u32 list" where
  "poll_scan c now [] = ([], [], [])"
| "poll_scan c now ((k, x) # l) =
     (let (l', retransmits, exhausted_seqs) = poll_scan c now l
      in if now < lx_deadline x then ((k, x) # l', retransmits, exhausted_seqs)
         else if lx_retries_left x = 0
         then ((k, x) # l', retransmits, lx_sequence_number x # exhausted_seqs)
         else ((k, x\<lparr>lx_retries_left := lx_retries_left x - 1,
                     lx_deadline := now + xc_t3_response c\<rparr>) # l',
               (lx_peer x, lx_encoded x) # retransmits, exhausted_seqs))"

text \<open>The loop that takes the exhausted requests out of the map.\<close>

fun poll_reap ::
  "u32 list \<Rightarrow> (u32 \<times> 'p Gtp2LocalXact) list \<Rightarrow>
     (u32 \<times> 'p Gtp2LocalXact) list \<times> 'p Gtp2LocalXact list" where
  "poll_reap [] l = (l, [])"
| "poll_reap (seq # seqs) l =
     (case map_of l seq of
        Some x \<Rightarrow> let (l', xs) = poll_reap seqs (AList.delete seq l) in (l', x # xs)
      | None \<Rightarrow> poll_reap seqs l)"

definition poll :: "nat \<Rightarrow> 'p Gtp2XactMgr \<Rightarrow> 'p Gtp2XactPoll \<times> 'p Gtp2XactMgr" where
  "poll now m =
     (let (l, retransmits, exhausted_seqs) = poll_scan (xm_config m) now (xm_local m);
          (l, exhausted) = poll_reap exhausted_seqs l
      in (\<lparr>xp_retransmits = retransmits, xp_exhausted = exhausted\<rparr>,
          m\<lparr>xm_local := l,
            xm_responses := filter (\<lambda>(_, cached). cr_expires cached > now) (xm_responses m)\<rparr>))"

definition cache_response ::
  "nat \<Rightarrow> 'p \<Rightarrow> u32 \<Rightarrow> bytes \<Rightarrow> 'p Gtp2XactMgr \<Rightarrow> 'p Gtp2XactMgr" where
  "cache_response now peer sequence_number encoded m =
     m\<lparr>xm_responses := AList.update (peer, sequence_number)
         \<lparr>cr_encoded = encoded, cr_expires = now + xc_response_hold (xm_config m)\<rparr>
         (xm_responses m)\<rparr>"

definition lookup_cached_response :: "nat \<Rightarrow> 'p \<Rightarrow> u32 \<Rightarrow> 'p Gtp2XactMgr \<Rightarrow> bytes option" where
  "lookup_cached_response now peer sequence_number m =
     (case map_of (xm_responses m) (peer, sequence_number) of
        Some cached \<Rightarrow> if cr_expires cached > now then Some (cr_encoded cached) else None
      | None \<Rightarrow> None)"

section \<open>Sequence numbers\<close>

definition seq_inv :: "'p Gtp2XactMgr \<Rightarrow> bool" where
  "seq_inv m \<longleftrightarrow> 1 \<le> xm_next_sequence m \<and> xm_next_sequence m \<le> GTP2_MAX_SEQUENCE"

definition seq_pos :: "'p Gtp2XactMgr \<Rightarrow> nat" where
  "seq_pos m = unat (xm_next_sequence m) - 1"

definition seq_period :: "'p Gtp2XactMgr \<Rightarrow> nat" where
  "seq_period m = 0xFFFFFF"

definition seq_ident :: "'p Gtp2XactMgr \<Rightarrow> nat \<Rightarrow> u32" where
  "seq_ident m k = of_nat (Suc k)"

lemma next_sequence_wrap:
  assumes "1 \<le> c" and "c \<le> GTP2_MAX_SEQUENCE"
  shows "unat ((c + 1) AND GTP2_MAX_SEQUENCE) = Suc (unat c) mod 2 ^ 24"
proof -
  have "(c + 1) AND GTP2_MAX_SEQUENCE = take_bit 24 (c + 1)"
    by (simp add: GTP2_MAX_SEQUENCE_def take_bit_eq_mask mask_eq_exp_minus_1)
  moreover have "unat (c + 1) = Suc (unat c)"
    using assms(2) by (simp add: GTP2_MAX_SEQUENCE_def word_le_nat_alt unat_word_ariths)
  ultimately show ?thesis by (simp add: take_bit_eq_mod unat_mod_distrib)
qed

lemma alloc_sequence_step:
  assumes "seq_inv m"
  shows "alloc_sequence m = (xm_next_sequence m, m\<lparr>xm_next_sequence :=
    if xm_next_sequence m = GTP2_MAX_SEQUENCE then 1 else xm_next_sequence m + 1\<rparr>)"
proof (cases "xm_next_sequence m = GTP2_MAX_SEQUENCE")
  case True
  then show ?thesis by (simp add: alloc_sequence_def GTP2_MAX_SEQUENCE_def)
next
  case False
  let ?c = "xm_next_sequence m"
  have "?c < GTP2_MAX_SEQUENCE" using assms False by (simp add: seq_inv_def le_less)
  then have lt: "unat ?c < 0xFFFFFF" by (simp add: GTP2_MAX_SEQUENCE_def word_less_nat_alt)
  then have c: "unat ((?c + 1) AND GTP2_MAX_SEQUENCE) = Suc (unat ?c)"
    using assms by (simp add: next_sequence_wrap seq_inv_def)
  moreover have "unat (?c + 1) = Suc (unat ?c)" using lt by (simp add: unat_word_ariths)
  ultimately have "(?c + 1) AND GTP2_MAX_SEQUENCE = ?c + 1" by (simp add: word_unat_eq_iff)
  moreover from c have "(?c + 1) AND GTP2_MAX_SEQUENCE \<noteq> 0" by auto
  ultimately show ?thesis using False by (simp add: alloc_sequence_def)
qed

interpretation xact_seq: round_robin alloc_sequence seq_inv seq_pos seq_period seq_ident
proof
  fix m :: "'p Gtp2XactMgr" assume inv: "seq_inv m"
  let ?c = "xm_next_sequence m"
  from inv have c: "1 \<le> unat ?c" "unat ?c \<le> 0xFFFFFF"
    by (simp_all add: seq_inv_def GTP2_MAX_SEQUENCE_def word_le_nat_alt)
  note step = alloc_sequence_step [OF inv]
  show "fst (alloc_sequence m) = seq_ident m (seq_pos m)"
    using c by (simp add: step seq_ident_def seq_pos_def)
  show "seq_pos (snd (alloc_sequence m)) = Suc (seq_pos m) mod seq_period m"
  proof (cases "?c = GTP2_MAX_SEQUENCE")
    case False
    with c have "unat ?c < 0xFFFFFF" by (auto simp: GTP2_MAX_SEQUENCE_def word_unat_eq_iff)
    with c False show ?thesis by (simp add: step seq_pos_def seq_period_def unat_word_ariths)
  qed (simp add: step seq_pos_def seq_period_def GTP2_MAX_SEQUENCE_def)
  show "seq_inv (snd (alloc_sequence m))"
  proof (cases "?c = GTP2_MAX_SEQUENCE")
    case False
    with c have "unat ?c < 0xFFFFFF" by (auto simp: GTP2_MAX_SEQUENCE_def word_unat_eq_iff)
    with c False show ?thesis
      by (simp add: step seq_inv_def GTP2_MAX_SEQUENCE_def word_le_nat_alt unat_word_ariths)
  qed (simp add: step seq_inv_def GTP2_MAX_SEQUENCE_def)
  show "seq_period (snd (alloc_sequence m)) = seq_period m \<and>
      seq_ident (snd (alloc_sequence m)) = seq_ident m"
    by (simp add: seq_period_def seq_ident_def fun_eq_iff)
  show "seq_pos m < seq_period m" using c by (simp add: seq_pos_def seq_period_def)
  show "inj_on (seq_ident m) {..<seq_period m}"
  proof (rule inj_onI)
    fix i j assume ij: "i \<in> {..<seq_period m}" "j \<in> {..<seq_period m}"
      and "seq_ident m i = seq_ident m j"
    then have "unat (of_nat (Suc i) :: u32) = unat (of_nat (Suc j) :: u32)"
      by (simp add: seq_ident_def)
    with ij show "i = j" unfolding unat_of_nat by (simp add: seq_period_def)
  qed
qed

section \<open>Requests: retransmission, exhaustion, matching\<close>

text \<open>Every outstanding request is filed under its own sequence number, once.\<close>

definition local_inv :: "'p Gtp2XactMgr \<Rightarrow> bool" where
  "local_inv m \<longleftrightarrow> distinct (map fst (xm_local m)) \<and>
     (\<forall>(k, x) \<in> set (xm_local m). lx_sequence_number x = k)"

text \<open>What one poll does to one request.\<close>

definition due :: "nat \<Rightarrow> 'p Gtp2LocalXact \<Rightarrow> bool" where
  "due now x \<longleftrightarrow> lx_deadline x \<le> now"

definition resent :: "Gtp2XactConfig \<Rightarrow> nat \<Rightarrow> 'p Gtp2LocalXact \<Rightarrow> 'p Gtp2LocalXact" where
  "resent c now x =
     x\<lparr>lx_retries_left := lx_retries_left x - 1, lx_deadline := now + xc_t3_response c\<rparr>"

definition polled :: "Gtp2XactConfig \<Rightarrow> nat \<Rightarrow> 'p Gtp2LocalXact \<Rightarrow> 'p Gtp2LocalXact" where
  "polled c now x = (if due now x \<and> lx_retries_left x \<noteq> 0 then resent c now x else x)"

lemma polled_seq [simp]: "lx_sequence_number (polled c now x) = lx_sequence_number x"
  by (simp add: polled_def resent_def)

lemma poll_scan_eq:
  "poll_scan c now l =
     (map (\<lambda>(k, x). (k, polled c now x)) l,
      map (\<lambda>(k, x). (lx_peer x, lx_encoded x))
        (filter (\<lambda>(k, x). due now x \<and> lx_retries_left x \<noteq> 0) l),
      map (\<lambda>(k, x). lx_sequence_number x)
        (filter (\<lambda>(k, x). due now x \<and> lx_retries_left x = 0) l))"
  by (induction c now l rule: poll_scan.induct)
    (auto simp: polled_def due_def resent_def not_less Let_def)

lemma poll_reap_eq:
  assumes "distinct (map fst l)" and "distinct ks" and "set ks \<subseteq> fst ` set l"
  shows "poll_reap ks l =
     (filter (\<lambda>(k, x). k \<notin> set ks) l, map (\<lambda>k. the (map_of l k)) ks)"
  using assms
proof (induction ks arbitrary: l)
  case (Cons k ks)
  from Cons.prems obtain x where x: "map_of l k = Some x"
    by (metis insert_subset list.set(2) map_of_eq_None_iff not_Some_eq)
  have d: "AList.delete k l = filter (\<lambda>(k', x). k' \<noteq> k) l"
    by (auto simp: AList.delete_eq intro!: filter_cong)
  have keep: "map_of (AList.delete k l) k' = map_of l k'" if "k' \<in> set ks" for k'
    using that Cons.prems(2) by (auto simp: AList.delete_conv')
  have "poll_reap ks (AList.delete k l) = (filter (\<lambda>(k', x). k' \<notin> set ks) (AList.delete k l),
      map (\<lambda>k'. the (map_of (AList.delete k l) k')) ks)"
    using Cons.prems by (intro Cons.IH) (force simp: d distinct_map_filter)+
  with x keep show ?case
    by (auto simp: d intro!: filter_cong)
qed (simp add: filter_id_conv split_beta)

lemma local_inv_map_of:
  assumes "local_inv m"
  shows "(k, x) \<in> set (xm_local m) \<longleftrightarrow> map_of (xm_local m) k = Some x"
    and "map_of (xm_local m) k = Some x \<Longrightarrow> lx_sequence_number x = k"
  using assms by (auto simp: local_inv_def dest: map_of_SomeD)

lemma local_inv_iff:
  "local_inv m \<longleftrightarrow> distinct (map fst (xm_local m)) \<and>
     (\<forall>k x. map_of (xm_local m) k = Some x \<longrightarrow> lx_sequence_number x = k)"
  by (auto simp: local_inv_def dest: map_of_SomeD)

lemma map_of_filter_key:
  assumes "distinct (map fst l)"
  shows "map_of (filter (\<lambda>(k, x). P k) l) k = (if P k then map_of l k else None)"
  using assms by (induction l) (auto dest: map_of_SomeD)

abbreviation spent :: "nat \<Rightarrow> 'p Gtp2XactMgr \<Rightarrow> (u32 \<times> 'p Gtp2LocalXact) list" where
  "spent now m \<equiv> filter (\<lambda>(k, x). due now x \<and> lx_retries_left x = 0) (xm_local m)"

lemma poll_eq:
  fixes m :: "'p Gtp2XactMgr"
  assumes "local_inv m"
  shows "xm_local (snd (poll now m)) =
      map (\<lambda>(k, x). (k, polled (xm_config m) now x))
        (filter (\<lambda>(k, x). k \<notin> fst ` set (spent now m)) (xm_local m))"
    and "xp_retransmits (fst (poll now m)) = map (\<lambda>(k, x). (lx_peer x, lx_encoded x))
        (filter (\<lambda>(k, x). due now x \<and> lx_retries_left x \<noteq> 0) (xm_local m))"
    and "xp_exhausted (fst (poll now m)) = map snd (spent now m)"
proof -
  let ?l = "map (\<lambda>(k, x). (k, polled (xm_config m) now x)) (xm_local m)"
  let ?ks = "map (\<lambda>(k, x). lx_sequence_number x) (spent now m)"
  have keys: "map fst ?l = map fst (xm_local m)" by (simp add: split_beta comp_def)
  have ks: "?ks = map fst (spent now m)"
    using assms by (auto simp: local_inv_def)
  have reap: "poll_reap ?ks ?l = (filter (\<lambda>(k, x). k \<notin> set ?ks) ?l, map (\<lambda>k. the (map_of ?l k)) ?ks)"
  proof (rule poll_reap_eq)
    show "distinct (map fst ?l)" using assms unfolding keys by (simp add: local_inv_def)
    show "distinct ?ks" using assms unfolding ks by (simp add: local_inv_def distinct_map_filter)
    have "set (map fst (spent now m)) \<subseteq> set (map fst ?l)" unfolding keys by auto
    then show "set ?ks \<subseteq> fst ` set ?l" unfolding ks by (simp only: set_map)
  qed
  have val: "the (map_of ?l k) = x" if "(k, x) \<in> set (spent now m)" for k x
  proof -
    have "map_of (xm_local m) k = Some x" using that assms by (auto simp: local_inv_map_of)
    then have "map_of ?l k = Some (polled (xm_config m) now x)" by (simp add: map_of_map)
    with that show ?thesis by (auto simp: polled_def)
  qed
  show "xm_local (snd (poll now m)) = map (\<lambda>(k, x). (k, polled (xm_config m) now x))
        (filter (\<lambda>(k, x). k \<notin> fst ` set (spent now m)) (xm_local m))"
  proof -
    have comp: "(\<lambda>(k, x). P k) \<circ> (\<lambda>(k, x). (k, f x)) = (\<lambda>(k, x). P k)"
      for P and f :: "'p Gtp2LocalXact \<Rightarrow> 'p Gtp2LocalXact" by (auto simp: fun_eq_iff)
    show ?thesis
      by (simp add: poll_def poll_scan_eq reap [unfolded ks] ks Let_def filter_map comp)
  qed
  show "xp_retransmits (fst (poll now m)) = map (\<lambda>(k, x). (lx_peer x, lx_encoded x))
        (filter (\<lambda>(k, x). due now x \<and> lx_retries_left x \<noteq> 0) (xm_local m))"
    by (simp add: poll_def poll_scan_eq Let_def split_beta)
  show "xp_exhausted (fst (poll now m)) = map snd (spent now m)"
    using val by (auto simp: poll_def poll_scan_eq reap [unfolded ks] ks Let_def)
qed

lemma poll_lookup:
  assumes "local_inv m"
  shows "map_of (xm_local (snd (poll now m))) k =
    (case map_of (xm_local m) k of None \<Rightarrow> None
     | Some x \<Rightarrow> if due now x \<and> lx_retries_left x = 0 then None
                else Some (polled (xm_config m) now x))"
proof -
  have d: "distinct (map fst (xm_local m))" using assms by (simp add: local_inv_def)
  have "k \<in> fst ` set (spent now m) \<longleftrightarrow>
      (\<exists>x. map_of (xm_local m) k = Some x \<and> due now x \<and> lx_retries_left x = 0)"
    using assms by (force simp: local_inv_map_of)
  then show ?thesis
    by (auto simp: poll_eq(1) [OF assms] map_of_map map_of_filter_key [OF d] split: option.split)
qed

lemma poll_retransmits_iff:
  assumes "local_inv m"
  shows "(p, b) \<in> set (xp_retransmits (fst (poll now m))) \<longleftrightarrow>
    (\<exists>k x. map_of (xm_local m) k = Some x \<and> due now x \<and> lx_retries_left x \<noteq> 0 \<and>
       lx_peer x = p \<and> lx_encoded x = b)"
  using assms by (force simp: poll_eq(2) [OF assms] local_inv_map_of)

lemma poll_exhausted_iff:
  assumes "local_inv m"
  shows "x \<in> set (xp_exhausted (fst (poll now m))) \<longleftrightarrow>
    (\<exists>k. map_of (xm_local m) k = Some x \<and> due now x \<and> lx_retries_left x = 0)"
  using assms by (force simp: poll_eq(3) [OF assms] local_inv_map_of)

lemma poll_config [simp]: "xm_config (snd (poll now m)) = xm_config m"
  by (simp add: poll_def Let_def split_beta)

lemma local_inv_new: "local_inv (xact_new c)"
  by (simp add: local_inv_def xact_new_def)

lemma local_inv_alloc: "local_inv m \<Longrightarrow> local_inv (snd (alloc_sequence m))"
  by (simp add: local_inv_def alloc_sequence_def Let_def)

lemma local_inv_register:
  "local_inv m \<Longrightarrow> local_inv (register_request now k t p b d m)"
  by (auto simp: local_inv_iff register_request_def Let_def AList.distinct_update
      AList.update_conv' split: if_split_asm)

lemma local_inv_match: "local_inv m \<Longrightarrow> local_inv (snd (match_response k t m))"
  by (auto simp: local_inv_def match_response_def AList.delete_eq distinct_map_filter
      split: option.split)

lemma local_inv_poll:
  assumes "local_inv m"
  shows "local_inv (snd (poll now m))"
proof -
  have "distinct (map fst (filter (\<lambda>(k, x). k \<notin> fst ` set (spent now m)) (xm_local m)))"
    using assms by (simp add: local_inv_def distinct_map_filter)
  then have "distinct (map fst (xm_local (snd (poll now m))))"
    by (simp add: poll_eq(1) [OF assms] comp_def split_beta)
  then show ?thesis
    using local_inv_map_of(2) [OF assms]
    by (auto simp: local_inv_iff poll_lookup [OF assms] split: option.split_asm if_split_asm)
qed

text \<open>A sequence of polls, and polls that each come at or after the deadline the previous one set.\<close>

fun polls :: "nat list \<Rightarrow> 'p Gtp2XactMgr \<Rightarrow> 'p Gtp2XactPoll list \<times> 'p Gtp2XactMgr" where
  "polls [] m = ([], m)"
| "polls (t # ts) m = (let (r, m') = poll t m; (rs, m'') = polls ts m' in (r # rs, m''))"

fun spaced :: "nat \<Rightarrow> nat \<Rightarrow> nat list \<Rightarrow> bool" where
  "spaced t3 d [] \<longleftrightarrow> True"
| "spaced t3 d (t # ts) \<longleftrightarrow> d \<le> t \<and> spaced t3 (t + t3) ts"

lemma polls_length: "length (fst (polls ts m)) = length ts"
  by (induction ts arbitrary: m) (auto simp: split_beta Let_def)

lemma unat_pred: "(n :: u32) \<noteq> 0 \<Longrightarrow> unat n = Suc (unat (n - 1))"
  using unat_minus_one [of n] by (cases "unat n") (auto simp: unat_eq_zero)

lemma polls_exhaust:
  assumes "local_inv m" and "map_of (xm_local m) k = Some x"
    and "length ts = Suc (unat (lx_retries_left x))"
    and "spaced (xc_t3_response (xm_config m)) (lx_deadline x) ts"
  shows "(\<forall>r \<in> set (butlast (fst (polls ts m))).
           (lx_peer x, lx_encoded x) \<in> set (xp_retransmits r) \<and>
           k \<notin> lx_sequence_number ` set (xp_exhausted r)) \<and>
         k \<in> lx_sequence_number ` set (xp_exhausted (last (fst (polls ts m)))) \<and>
         map_of (xm_local (snd (polls ts m))) k = None"
  using assms
proof (induction ts arbitrary: m x)
  case (Cons t ts)
  let ?c = "xm_config m"
  obtain r m' where p: "poll t m = (r, m')" by fastforce
  have due: "due t x" using Cons.prems(4) by (simp add: due_def)
  have seq: "lx_sequence_number x = k" using Cons.prems(1,2) local_inv_map_of(2) by blast
  note lookup = poll_lookup [OF Cons.prems(1), of t k] and ex = poll_exhausted_iff [OF Cons.prems(1), of _ t]
    and re = poll_retransmits_iff [OF Cons.prems(1), of _ _ t]
  show ?case
  proof (cases "lx_retries_left x = 0")
    case True
    with Cons.prems(3) have "ts = []" by simp
    moreover have "x \<in> set (xp_exhausted r)" using ex [of x] Cons.prems(2) due True by (auto simp: p)
    moreover have "map_of (xm_local m') k = None" using lookup Cons.prems(2) due True by (simp add: p)
    ultimately show ?thesis using seq by (auto simp: p)
  next
    case False
    let ?x = "polled ?c t x"
    have x': "map_of (xm_local m') k = Some ?x" using lookup Cons.prems(2) False by (simp add: p)
    have fields: "lx_peer ?x = lx_peer x" "lx_encoded ?x = lx_encoded x"
      "lx_retries_left ?x = lx_retries_left x - 1" "lx_deadline ?x = t + xc_t3_response ?c"
      using due False by (simp_all add: polled_def resent_def)
    have m': "local_inv m'" "xm_config m' = ?c"
      using local_inv_poll [OF Cons.prems(1), of t] poll_config [of t m] by (simp_all add: p)
    have len: "length ts = Suc (unat (lx_retries_left ?x))"
      using Cons.prems(3) unat_pred [OF False] fields by simp
    have "spaced (xc_t3_response (xm_config m')) (lx_deadline ?x) ts"
      using Cons.prems(4) by (simp add: fields m')
    note IH = Cons.IH [OF m'(1) x' len this]
    have "(lx_peer x, lx_encoded x) \<in> set (xp_retransmits r)"
      using re [of "lx_peer x" "lx_encoded x"] Cons.prems(2) due False by (auto simp: p)
    moreover have "k \<notin> lx_sequence_number ` set (xp_exhausted r)"
    proof
      assume "k \<in> lx_sequence_number ` set (xp_exhausted r)"
      then obtain y where "y \<in> set (xp_exhausted r)" "lx_sequence_number y = k" by auto
      then have "map_of (xm_local m) k = Some y" "lx_retries_left y = 0"
        using ex [of y] local_inv_map_of(2) [OF Cons.prems(1)] by (auto simp: p)
      with Cons.prems(2) False show False by simp
    qed
    moreover have "fst (polls ts m') \<noteq> []" using len polls_length [of ts m'] by auto
    ultimately show ?thesis using IH by (auto simp: p fields split_beta)
  qed
qed simp

section \<open>Cached responses\<close>

definition resp_inv :: "'p Gtp2XactMgr \<Rightarrow> bool" where
  "resp_inv m \<longleftrightarrow> distinct (map fst (xm_responses m))"

lemma resp_inv_new: "resp_inv (xact_new c)"
  by (simp add: resp_inv_def xact_new_def)

lemma resp_inv_cache: "resp_inv m \<Longrightarrow> resp_inv (cache_response now p k b m)"
  by (simp add: resp_inv_def cache_response_def AList.distinct_update)

lemma xm_responses_poll:
  "xm_responses (snd (poll t m)) = filter (\<lambda>(_, c). t < cr_expires c) (xm_responses m)"
  by (simp add: poll_def Let_def split_beta)

lemma resp_inv_poll: "resp_inv m \<Longrightarrow> resp_inv (snd (poll now m))"
  by (simp add: resp_inv_def xm_responses_poll distinct_map_filter)

lemma map_of_filter_val:
  assumes "distinct (map fst l)"
  shows "map_of (filter (\<lambda>(_, v). P v) l) k =
    (case map_of l k of Some v \<Rightarrow> if P v then Some v else None | None \<Rightarrow> None)"
  using assms by (induction l) (force split: option.split dest: map_of_SomeD)+

lemma lookup_poll:
  assumes "resp_inv m" and "t1 \<le> t2"
  shows "lookup_cached_response t2 p k (snd (poll t1 m)) = lookup_cached_response t2 p k m"
  using assms
  by (auto simp: lookup_cached_response_def xm_responses_poll resp_inv_def map_of_filter_val
      split: option.split)

section \<open>Properties\<close>


definition xact_example :: "nat Gtp2XactMgr" where
  "xact_example = register_request 0 1 32 7 [0x48, 0x20] 5 (xact_new xact_config_default)"

lemma xact_example_local:
  "xm_local xact_example = [(1, \<lparr>lx_sequence_number = 1, lx_message_type = 32, lx_peer = 7,
     lx_encoded = [0x48, 0x20], lx_data = 5, lx_deadline = 3, lx_retries_left = 3\<rparr>)]"
  "xm_config xact_example = xact_config_default" "local_inv xact_example"
  by (simp_all add: xact_example_def register_request_def xact_new_def xact_config_default_def
      local_inv_def)


text \<open>A triggered message completes a request exactly when its sequence number is outstanding and
  its type is the one the request triggers; the completed request is returned once and only that
  request leaves the table. Otherwise nothing changes.\<close>

lemma match_response_exact:
  "match_response k t m =
     (case map_of (xm_local m) k of
        None \<Rightarrow> (None, m)
      | Some x \<Rightarrow> if triggered_message_type (lx_message_type x) = Some t
                 then (Some x, m\<lparr>xm_local := AList.delete k (xm_local m)\<rparr>) else (None, m)) \<and>
   (fst (match_response k t m) \<noteq> None \<longrightarrow>
     fst (match_response k t' (snd (match_response k t m))) = None \<and>
     (\<forall>k'. k' \<noteq> k \<longrightarrow> map_of (xm_local (snd (match_response k t m))) k' = map_of (xm_local m) k'))"
  by (auto simp: match_response_def AList.delete_conv' split: option.split)

text \<open>Sequence numbers are never 0, fit in 24 bits and do not repeat before all 16777215 of them have
  been used.\<close>

lemma alloc_sequence_unique:
  assumes "seq_inv m" and "n \<le> 0xFFFFFF"
  shows "distinct (fst (allocs alloc_sequence n m)) \<and>
    (\<forall>s \<in> set (fst (allocs alloc_sequence n m)). s \<noteq> 0 \<and> s \<le> GTP2_MAX_SEQUENCE)"
proof -
  have "s \<noteq> 0 \<and> s \<le> GTP2_MAX_SEQUENCE" if "s \<in> set (fst (allocs alloc_sequence n m))" for s
  proof -
    from that obtain k where s: "s = of_nat (Suc k)" and "k < 0xFFFFFF"
      using xact_seq.allocs_walk [OF assms(1), of n]
      by (auto simp: seq_ident_def seq_period_def simp del: of_nat_Suc)
    then have "unat s = Suc k" unfolding s unat_of_nat by simp
    with \<open>k < 0xFFFFFF\<close> show ?thesis by (auto simp: GTP2_MAX_SEQUENCE_def word_le_nat_alt)
  qed
  moreover have "distinct (fst (allocs alloc_sequence n m))"
    using assms by (intro xact_seq.allocs_distinct) (simp_all add: seq_period_def)
  ultimately show ?thesis by blast
qed

theorem alloc_sequence_unique_witness:
  "distinct (fst (allocs alloc_sequence 3 (xact_new xact_config_default :: nat Gtp2XactMgr)))"
  using alloc_sequence_unique [of "xact_new xact_config_default :: nat Gtp2XactMgr" 3]
  by (simp add: seq_inv_def xact_new_def GTP2_MAX_SEQUENCE_def)

text \<open>A cached response answers repeated requests of the same peer and sequence number until its
  hold time is over, whatever poll happens in between, and leaves the answers to all other requests
  as they are.\<close>

lemma cached_response_lifetime:
  assumes "resp_inv m" and "t1 \<le> t2"
  shows "lookup_cached_response t2 p k (snd (poll t1 (cache_response now p k b m))) =
      (if t2 < now + xc_response_hold (xm_config m) then Some b else None) \<and>
    ((p', k') \<noteq> (p, k) \<longrightarrow> lookup_cached_response t2 p' k'
        (snd (poll t1 (cache_response now p k b m))) = lookup_cached_response t2 p' k' m)"
proof -
  let ?m = "cache_response now p k b m"
  have inv: "resp_inv ?m" using assms(1) by (rule resp_inv_cache)
  have "map_of (xm_responses ?m) (p, k) =
      Some \<lparr>cr_encoded = b, cr_expires = now + xc_response_hold (xm_config m)\<rparr>"
    by (simp add: cache_response_def AList.update_conv')
  moreover have "map_of (xm_responses ?m) q = map_of (xm_responses m) q" if "q \<noteq> (p, k)" for q
    using that by (simp add: cache_response_def AList.update_conv')
  ultimately show ?thesis
    unfolding lookup_poll [OF inv assms(2)] by (simp add: lookup_cached_response_def)
qed

theorem cached_response_lifetime_witness:
  "lookup_cached_response 11 7 1 (snd (poll 5 (cache_response 0 7 1 [0x48] xact_example))) = Some [0x48]"
  using cached_response_lifetime [of xact_example 5 11 7 1 0 "[0x48]"]
  by (simp add: xact_example_local xact_config_default_def)
    (simp add: resp_inv_def xact_example_def register_request_def xact_new_def)

end
