(* ===== verification/Stream_Cipher.thy ===== *)
theory Stream_Cipher
  imports Prelude
begin

text \<open>
  Interface of the confidentiality algorithms: a cipher that combines a message with a key stream of
  the message's length by exclusive or, octet by octet. \<open>'k\<close> is everything the key stream depends on
  (key, count, bearer, direction), \<open>valid\<close> says that it has the shape the implementation's types give
  it; \<open>fits\<close> is the range of message lengths the implementation handles.
  The three ciphers of the core (SNOW 3G, AES in counter mode, ZUC) are instances.
\<close>

definition xor_bytes :: "bytes \<Rightarrow> bytes \<Rightarrow> bytes" where
  "xor_bytes = map2 (XOR)"

lemma length_xor_bytes [simp]: "length (xor_bytes a b) = min (length a) (length b)"
  by (simp add: xor_bytes_def)

lemma xor_bytes_nth: "i < length a \<Longrightarrow> i < length b \<Longrightarrow> xor_bytes a b ! i = a ! i XOR b ! i"
  by (simp add: xor_bytes_def)

lemma xor_bytes_involution: "length a = length k \<Longrightarrow> xor_bytes (xor_bytes a k) k = a"
  by (rule nth_equalityI) (simp_all add: xor_bytes_nth ac_simps)

text \<open>Octet \<open>i\<close> of a key stream of 32-bit words, the most significant octet of each word first.\<close>

definition ks_byte :: "u32 list \<Rightarrow> nat \<Rightarrow> u8" where
  "ks_byte ks i = ucast (drop_bit ((3 - i mod 4) * 8) (ks ! (i div 4)) AND 0xff)"

definition ks_bytes :: "u32 list \<Rightarrow> nat \<Rightarrow> bytes" where
  "ks_bytes ks n = map (ks_byte ks) [0..<n]"

lemma length_ks_bytes [simp]: "length (ks_bytes ks n) = n"
  by (simp add: ks_bytes_def)

lemma ks_bytes_nth [simp]: "i < n \<Longrightarrow> ks_bytes ks n ! i = ks_byte ks i"
  by (simp add: ks_bytes_def)

text \<open>Octets of a prefix of the key stream: the words that follow do not matter.\<close>

lemma ks_bytes_take: "n \<le> 4 * m \<Longrightarrow> ks_bytes (take m ks) n = ks_bytes ks n"
  by (rule nth_equalityI) (simp_all add: ks_byte_def)

lemma take_ks_bytes: "n \<le> m \<Longrightarrow> take n (ks_bytes ks m) = ks_bytes ks n"
  by (simp add: ks_bytes_def take_map)

locale xor_cipher =
  fixes cipher :: "'k \<Rightarrow> bytes \<Rightarrow> bytes"
    and keystream :: "'k \<Rightarrow> nat \<Rightarrow> bytes"
    and valid :: "'k \<Rightarrow> bool"
    and fits :: "nat \<Rightarrow> bool"
  assumes keystream_length: "valid k \<Longrightarrow> fits n \<Longrightarrow> length (keystream k n) = n"
    and keystream_prefix: "valid k \<Longrightarrow> fits n \<Longrightarrow> i \<le> n \<Longrightarrow> take i (keystream k n) = keystream k i"
    and cipher_xor: "valid k \<Longrightarrow> fits (length m) \<Longrightarrow> cipher k m = xor_bytes m (keystream k (length m))"
begin

lemma cipher_length: "valid k \<Longrightarrow> fits (length m) \<Longrightarrow> length (cipher k m) = length m"
  by (simp add: cipher_xor keystream_length)

lemma cipher_involution: "valid k \<Longrightarrow> fits (length m) \<Longrightarrow> cipher k (cipher k m) = m"
  by (simp add: cipher_xor keystream_length xor_bytes_involution)

text \<open>The key stream does not depend on what follows: a prefix of the message gives a prefix of the result.\<close>

lemma cipher_prefix:
  "valid k \<Longrightarrow> fits (length m) \<Longrightarrow> fits i \<Longrightarrow> i \<le> length m \<Longrightarrow>
     cipher k (take i m) = take i (cipher k m)"
  by (rule nth_equalityI)
    (simp_all add: cipher_xor keystream_length xor_bytes_nth flip: keystream_prefix [of k "length m" i])

text \<open>Changing the plaintext changes the ciphertext at the same place: confidentiality without integrity.\<close>

lemma cipher_malleable:
  "valid k \<Longrightarrow> fits (length m) \<Longrightarrow> length d = length m \<Longrightarrow>
     cipher k (xor_bytes m d) = xor_bytes (cipher k m) d"
  by (rule nth_equalityI) (simp_all add: cipher_xor keystream_length xor_bytes_nth ac_simps)

end

end
