(* ===== verification/Snow3g.thy ===== *)
theory Snow3g
  imports Stream_Cipher
begin

text \<open>
  The SNOW 3G stream cipher and its two uses (\<^verbatim>\<open>libs/nextgcore-crypt/src/snow3g.rs\<close>): \<open>snow_3g_f8\<close>, the
  confidentiality algorithm behind 128-NEA1, an instance of \<open>xor_cipher\<close>, and \<open>snow_3g_f9\<close>, the
  integrity algorithm behind 128-NIA1. Keys are lists of 16 octets, shift registers lists of words.
\<close>

section \<open>S-boxes and field multiplications\<close>

definition SR :: bytes where
  "SR = [
     0x63, 0x7C, 0x77, 0x7B, 0xF2, 0x6B, 0x6F, 0xC5, 0x30, 0x01, 0x67, 0x2B, 0xFE, 0xD7, 0xAB, 0x76,
     0xCA, 0x82, 0xC9, 0x7D, 0xFA, 0x59, 0x47, 0xF0, 0xAD, 0xD4, 0xA2, 0xAF, 0x9C, 0xA4, 0x72, 0xC0,
     0xB7, 0xFD, 0x93, 0x26, 0x36, 0x3F, 0xF7, 0xCC, 0x34, 0xA5, 0xE5, 0xF1, 0x71, 0xD8, 0x31, 0x15,
     0x04, 0xC7, 0x23, 0xC3, 0x18, 0x96, 0x05, 0x9A, 0x07, 0x12, 0x80, 0xE2, 0xEB, 0x27, 0xB2, 0x75,
     0x09, 0x83, 0x2C, 0x1A, 0x1B, 0x6E, 0x5A, 0xA0, 0x52, 0x3B, 0xD6, 0xB3, 0x29, 0xE3, 0x2F, 0x84,
     0x53, 0xD1, 0x00, 0xED, 0x20, 0xFC, 0xB1, 0x5B, 0x6A, 0xCB, 0xBE, 0x39, 0x4A, 0x4C, 0x58, 0xCF,
     0xD0, 0xEF, 0xAA, 0xFB, 0x43, 0x4D, 0x33, 0x85, 0x45, 0xF9, 0x02, 0x7F, 0x50, 0x3C, 0x9F, 0xA8,
     0x51, 0xA3, 0x40, 0x8F, 0x92, 0x9D, 0x38, 0xF5, 0xBC, 0xB6, 0xDA, 0x21, 0x10, 0xFF, 0xF3, 0xD2,
     0xCD, 0x0C, 0x13, 0xEC, 0x5F, 0x97, 0x44, 0x17, 0xC4, 0xA7, 0x7E, 0x3D, 0x64, 0x5D, 0x19, 0x73,
     0x60, 0x81, 0x4F, 0xDC, 0x22, 0x2A, 0x90, 0x88, 0x46, 0xEE, 0xB8, 0x14, 0xDE, 0x5E, 0x0B, 0xDB,
     0xE0, 0x32, 0x3A, 0x0A, 0x49, 0x06, 0x24, 0x5C, 0xC2, 0xD3, 0xAC, 0x62, 0x91, 0x95, 0xE4, 0x79,
     0xE7, 0xC8, 0x37, 0x6D, 0x8D, 0xD5, 0x4E, 0xA9, 0x6C, 0x56, 0xF4, 0xEA, 0x65, 0x7A, 0xAE, 0x08,
     0xBA, 0x78, 0x25, 0x2E, 0x1C, 0xA6, 0xB4, 0xC6, 0xE8, 0xDD, 0x74, 0x1F, 0x4B, 0xBD, 0x8B, 0x8A,
     0x70, 0x3E, 0xB5, 0x66, 0x48, 0x03, 0xF6, 0x0E, 0x61, 0x35, 0x57, 0xB9, 0x86, 0xC1, 0x1D, 0x9E,
     0xE1, 0xF8, 0x98, 0x11, 0x69, 0xD9, 0x8E, 0x94, 0x9B, 0x1E, 0x87, 0xE9, 0xCE, 0x55, 0x28, 0xDF,
     0x8C, 0xA1, 0x89, 0x0D, 0xBF, 0xE6, 0x42, 0x68, 0x41, 0x99, 0x2D, 0x0F, 0xB0, 0x54, 0xBB, 0x16]"

definition SQ :: bytes where
  "SQ = [
     0x25, 0x24, 0x73, 0x67, 0xD7, 0xAE, 0x5C, 0x30, 0xA4, 0xEE, 0x6E, 0xCB, 0x7D, 0xB5, 0x82, 0xDB,
     0xE4, 0x8E, 0x48, 0x49, 0x4F, 0x5D, 0x6A, 0x78, 0x70, 0x88, 0xE8, 0x5F, 0x5E, 0x84, 0x65, 0xE2,
     0xD8, 0xE9, 0xCC, 0xED, 0x40, 0x2F, 0x11, 0x28, 0x57, 0xD2, 0xAC, 0xE3, 0x4A, 0x15, 0x1B, 0xB9,
     0xB2, 0x80, 0x85, 0xA6, 0x2E, 0x02, 0x47, 0x29, 0x07, 0x4B, 0x0E, 0xC1, 0x51, 0xAA, 0x89, 0xD4,
     0xCA, 0x01, 0x46, 0xB3, 0xEF, 0xDD, 0x44, 0x7B, 0xC2, 0x7F, 0xBE, 0xC3, 0x9F, 0x20, 0x4C, 0x64,
     0x83, 0xA2, 0x68, 0x42, 0x13, 0xB4, 0x41, 0xCD, 0xBA, 0xC6, 0xBB, 0x6D, 0x4D, 0x71, 0x21, 0xF4,
     0x8D, 0xB0, 0xE5, 0x93, 0xFE, 0x8F, 0xE6, 0xCF, 0x43, 0x45, 0x31, 0x22, 0x37, 0x36, 0x96, 0xFA,
     0xBC, 0x0F, 0x08, 0x52, 0x1D, 0x55, 0x1A, 0xC5, 0x4E, 0x23, 0x69, 0x7A, 0x92, 0xFF, 0x5B, 0x5A,
     0xEB, 0x9A, 0x1C, 0xA9, 0xD1, 0x7E, 0x0D, 0xFC, 0x50, 0x8A, 0xB6, 0x62, 0xF5, 0x0A, 0xF8, 0xDC,
     0x03, 0x3C, 0x0C, 0x39, 0xF1, 0xB8, 0xF3, 0x3D, 0xF2, 0xD5, 0x97, 0x66, 0x81, 0x32, 0xA0, 0x00,
     0x06, 0xCE, 0xF6, 0xEA, 0xB7, 0x17, 0xF7, 0x8C, 0x79, 0xD6, 0xA7, 0xBF, 0x8B, 0x3F, 0x1F, 0x53,
     0x63, 0x75, 0x35, 0x2C, 0x60, 0xFD, 0x27, 0xD3, 0x94, 0xA5, 0x7C, 0xA1, 0x05, 0x58, 0x2D, 0xBD,
     0xD9, 0xC7, 0xAF, 0x6B, 0x54, 0x0B, 0xE0, 0x38, 0x04, 0xC8, 0x9D, 0xE7, 0x14, 0xB1, 0x87, 0x9C,
     0xDF, 0x6F, 0xF9, 0xDA, 0x2A, 0xC4, 0x59, 0x16, 0x74, 0x91, 0xAB, 0x26, 0x61, 0x76, 0x34, 0x2B,
     0xAD, 0x99, 0xFB, 0x72, 0xEC, 0x33, 0x12, 0xDE, 0x98, 0x3B, 0xC0, 0x9B, 0x3E, 0x18, 0x10, 0x3A,
     0x56, 0xE1, 0x77, 0xC9, 0x1E, 0x9E, 0x95, 0xA3, 0x90, 0x19, 0xA8, 0x6C, 0x09, 0xD0, 0xF0, 0x86]"

record Snow3gState =
  sn_lfsr :: "u32 list"
  sn_fsm_r1 :: u32
  sn_fsm_r2 :: u32
  sn_fsm_r3 :: u32

definition snow_new :: Snow3gState where
  "snow_new = \<lparr>sn_lfsr = replicate 16 0, sn_fsm_r1 = 0, sn_fsm_r2 = 0, sn_fsm_r3 = 0\<rparr>"

definition mul_x :: "u8 \<Rightarrow> u8 \<Rightarrow> u8" where
  "mul_x v c = (if v AND 0x80 \<noteq> 0 then push_bit 1 v XOR c else push_bit 1 v)"

fun mul_x_pow :: "u8 \<Rightarrow> nat \<Rightarrow> u8 \<Rightarrow> u8" where
  "mul_x_pow v 0 c = v"
| "mul_x_pow v (Suc i) c = mul_x (mul_x_pow v i c) c"

definition mul_alpha :: "u8 \<Rightarrow> u32" where
  "mul_alpha c =
     push_bit 24 (ucast (mul_x_pow c 23 0xa9)) OR push_bit 16 (ucast (mul_x_pow c 245 0xa9)) OR
     push_bit 8 (ucast (mul_x_pow c 48 0xa9)) OR ucast (mul_x_pow c 239 0xa9)"

definition div_alpha :: "u8 \<Rightarrow> u32" where
  "div_alpha c =
     push_bit 24 (ucast (mul_x_pow c 16 0xa9)) OR push_bit 16 (ucast (mul_x_pow c 39 0xa9)) OR
     push_bit 8 (ucast (mul_x_pow c 6 0xa9)) OR ucast (mul_x_pow c 64 0xa9)"

definition s1 :: "u32 \<Rightarrow> u32" where
  "s1 w =
     (let srw0 = SR ! unat (drop_bit 24 w AND 0xff);
          srw1 = SR ! unat (drop_bit 16 w AND 0xff);
          srw2 = SR ! unat (drop_bit 8 w AND 0xff);
          srw3 = SR ! unat (w AND 0xff);
          r0 = mul_x srw0 0x1b XOR srw1 XOR srw2 XOR (mul_x srw3 0x1b XOR srw3);
          r1 = (mul_x srw0 0x1b XOR srw0) XOR mul_x srw1 0x1b XOR srw2 XOR srw3;
          r2 = srw0 XOR (mul_x srw1 0x1b XOR srw1) XOR mul_x srw2 0x1b XOR srw3;
          r3 = srw0 XOR srw1 XOR (mul_x srw2 0x1b XOR srw2) XOR mul_x srw3 0x1b
      in push_bit 24 (ucast r0) OR push_bit 16 (ucast r1) OR push_bit 8 (ucast r2) OR ucast r3)"

definition s2 :: "u32 \<Rightarrow> u32" where
  "s2 w =
     (let sqw0 = SQ ! unat (drop_bit 24 w AND 0xff);
          sqw1 = SQ ! unat (drop_bit 16 w AND 0xff);
          sqw2 = SQ ! unat (drop_bit 8 w AND 0xff);
          sqw3 = SQ ! unat (w AND 0xff);
          r0 = mul_x sqw0 0x69 XOR sqw1 XOR sqw2 XOR (mul_x sqw3 0x69 XOR sqw3);
          r1 = (mul_x sqw0 0x69 XOR sqw0) XOR mul_x sqw1 0x69 XOR sqw2 XOR sqw3;
          r2 = sqw0 XOR (mul_x sqw1 0x69 XOR sqw1) XOR mul_x sqw2 0x69 XOR sqw3;
          r3 = sqw0 XOR sqw1 XOR (mul_x sqw2 0x69 XOR sqw2) XOR mul_x sqw3 0x69
      in push_bit 24 (ucast r0) OR push_bit 16 (ucast r1) OR push_bit 8 (ucast r2) OR ucast r3)"

section \<open>Clocking\<close>

text \<open>The loop that moves each register one place down and the assignment of the last one.\<close>

definition shift_lfsr :: "u32 list \<Rightarrow> u32 \<Rightarrow> u32 list" where
  "shift_lfsr lfsr v = tl lfsr @ [v]"

definition clock_lfsr_initialization_mode :: "u32 \<Rightarrow> Snow3gState \<Rightarrow> Snow3gState" where
  "clock_lfsr_initialization_mode f s =
     (let lfsr = sn_lfsr s;
          v = (push_bit 8 (lfsr ! 0) AND 0xffffff00)
            XOR mul_alpha (ucast (drop_bit 24 (lfsr ! 0) AND 0xff))
            XOR lfsr ! 2
            XOR (drop_bit 8 (lfsr ! 11) AND 0x00ffffff)
            XOR div_alpha (ucast (lfsr ! 11 AND 0xff))
            XOR f
      in s\<lparr>sn_lfsr := shift_lfsr lfsr v\<rparr>)"

definition clock_lfsr_keystream_mode :: "Snow3gState \<Rightarrow> Snow3gState" where
  "clock_lfsr_keystream_mode s =
     (let lfsr = sn_lfsr s;
          v = (push_bit 8 (lfsr ! 0) AND 0xffffff00)
            XOR mul_alpha (ucast (drop_bit 24 (lfsr ! 0) AND 0xff))
            XOR lfsr ! 2
            XOR (drop_bit 8 (lfsr ! 11) AND 0x00ffffff)
            XOR div_alpha (ucast (lfsr ! 11 AND 0xff))
      in s\<lparr>sn_lfsr := shift_lfsr lfsr v\<rparr>)"

definition clock_fsm :: "Snow3gState \<Rightarrow> u32 \<times> Snow3gState" where
  "clock_fsm s =
     (let f = (sn_lfsr s ! 15 + sn_fsm_r1 s) XOR sn_fsm_r2 s;
          r = sn_fsm_r2 s + (sn_fsm_r3 s XOR sn_lfsr s ! 5)
      in (f, s\<lparr>sn_fsm_r3 := s2 (sn_fsm_r2 s), sn_fsm_r2 := s1 (sn_fsm_r1 s), sn_fsm_r1 := r\<rparr>))"

definition snow_init_round :: "Snow3gState \<Rightarrow> Snow3gState" where
  "snow_init_round s = (let (f, s) = clock_fsm s in clock_lfsr_initialization_mode f s)"

definition snow_initialize :: "u32 list \<Rightarrow> u32 list \<Rightarrow> Snow3gState \<Rightarrow> Snow3gState" where
  "snow_initialize k iv s =
     (snow_init_round ^^ 32) (s\<lparr>sn_lfsr :=
        [k ! 0 XOR 0xffffffff, k ! 1 XOR 0xffffffff, k ! 2 XOR 0xffffffff, k ! 3 XOR 0xffffffff,
         k ! 0, k ! 1, k ! 2, k ! 3,
         k ! 0 XOR 0xffffffff, k ! 1 XOR 0xffffffff XOR iv ! 3, k ! 2 XOR 0xffffffff XOR iv ! 2,
         k ! 3 XOR 0xffffffff,
         k ! 0 XOR iv ! 1, k ! 1, k ! 2, k ! 3 XOR iv ! 0],
        sn_fsm_r1 := 0, sn_fsm_r2 := 0, sn_fsm_r3 := 0\<rparr>)"

text \<open>The loop of \<^verbatim>\<open>generate_keystream\<close>: the next \<open>n\<close> words of the key stream.\<close>

fun snow_words :: "nat \<Rightarrow> Snow3gState \<Rightarrow> u32 list \<times> Snow3gState" where
  "snow_words 0 s = ([], s)"
| "snow_words (Suc n) s =
     (let (f, s) = clock_fsm s;
          w = f XOR sn_lfsr s ! 0;
          (ws, s) = snow_words n (clock_lfsr_keystream_mode s)
      in (w # ws, s))"

definition snow_generate_keystream :: "nat \<Rightarrow> Snow3gState \<Rightarrow> u32 list \<times> Snow3gState" where
  "snow_generate_keystream n s =
     (let (_, s) = clock_fsm s in snow_words n (clock_lfsr_keystream_mode s))"

section \<open>Confidentiality: f8\<close>

definition snow_key :: "bytes \<Rightarrow> u32 list" where
  "snow_key key =
     map (\<lambda>i. push_bit 24 (ucast (key ! (4 * i))) XOR push_bit 16 (ucast (key ! (4 * i + 1)))
            XOR push_bit 8 (ucast (key ! (4 * i + 2))) XOR ucast (key ! (4 * i + 3)))
       [3, 2, 1, 0]"

definition xor_at :: "nat \<Rightarrow> u8 \<Rightarrow> bytes \<Rightarrow> bytes" where
  "xor_at j b dat = (if j < length dat then dat[j := dat ! j XOR b] else dat)"

definition f8_xor_word :: "u32 list \<Rightarrow> nat \<Rightarrow> bytes \<Rightarrow> bytes" where
  "f8_xor_word ks i dat =
     (let base = 4 * i;
          dat = xor_at base (ucast (drop_bit 24 (ks ! i) AND 0xff)) dat;
          dat = xor_at (base + 1) (ucast (drop_bit 16 (ks ! i) AND 0xff)) dat;
          dat = xor_at (base + 2) (ucast (drop_bit 8 (ks ! i) AND 0xff)) dat;
          dat = xor_at (base + 3) (ucast (ks ! i AND 0xff)) dat
      in dat)"

definition snow_f8_keystream :: "bytes \<Rightarrow> u32 \<Rightarrow> u32 \<Rightarrow> u32 \<Rightarrow> nat \<Rightarrow> u32 list" where
  "snow_f8_keystream key count bearer dir n =
     (let iv3 = count;
          iv2 = push_bit 27 bearer OR push_bit 26 (dir AND 0x1);
          iv = [iv2, iv3, iv2, iv3]
      in fst (snow_generate_keystream n (snow_initialize (snow_key key) iv snow_new)))"

definition snow_3g_f8 :: "bytes \<Rightarrow> u32 \<Rightarrow> u32 \<Rightarrow> u32 \<Rightarrow> u32 \<Rightarrow> bytes \<Rightarrow> bytes" where
  "snow_3g_f8 key count bearer dir len dat =
     (if len = 0 then dat
      else
        let n = (unat len + 31) div 32;
            lastbits = (8 - unat len mod 8) mod 8;
            ks = snow_f8_keystream key count bearer dir n;
            dat = fold (f8_xor_word ks) [0..<n] dat
        in if lastbits > 0 \<and> unat len div 8 < length dat
           then dat[unat len div 8 := dat ! (unat len div 8) AND push_bit lastbits 0xFF]
           else dat)"

section \<open>Integrity: f9\<close>

definition mul64x :: "u64 \<Rightarrow> u64 \<Rightarrow> u64" where
  "mul64x v c = (if v AND 0x8000000000000000 \<noteq> 0 then push_bit 1 v XOR c else push_bit 1 v)"

fun mul64x_pow :: "u64 \<Rightarrow> nat \<Rightarrow> u64 \<Rightarrow> u64" where
  "mul64x_pow v 0 c = v"
| "mul64x_pow v (Suc i) c = mul64x (mul64x_pow v i c) c"

definition mul64 :: "u64 \<Rightarrow> u64 \<Rightarrow> u64 \<Rightarrow> u64" where
  "mul64 v p c =
     fold (\<lambda>i result. if drop_bit i p AND 0x1 \<noteq> 0 then result XOR mul64x_pow v i c else result)
       [0..<64] 0"

definition mask8bit :: "nat \<Rightarrow> u8" where
  "mask8bit n = 0xFF XOR (push_bit (8 - n) 1 - 1)"

definition byte_or_0 :: "bytes \<Rightarrow> nat \<Rightarrow> u8" where
  "byte_or_0 dat i = (if i < length dat then dat ! i else 0)"

text \<open>One full block of eight octets, and the loop over the octets of the last one.\<close>

definition f9_block :: "bytes \<Rightarrow> nat \<Rightarrow> u64" where
  "f9_block dat base =
     push_bit 56 (ucast (byte_or_0 dat base)) XOR push_bit 48 (ucast (byte_or_0 dat (base + 1))) XOR
     push_bit 40 (ucast (byte_or_0 dat (base + 2))) XOR push_bit 32 (ucast (byte_or_0 dat (base + 3))) XOR
     push_bit 24 (ucast (byte_or_0 dat (base + 4))) XOR push_bit 16 (ucast (byte_or_0 dat (base + 5))) XOR
     push_bit 8 (ucast (byte_or_0 dat (base + 6))) XOR ucast (byte_or_0 dat (base + 7))"

function f9_last :: "bytes \<Rightarrow> nat \<Rightarrow> nat \<Rightarrow> nat \<Rightarrow> u64 \<Rightarrow> u64" where
  "f9_last dat base rem_bits i m =
     (if rem_bits > 7
      then f9_last dat base (rem_bits - 8) (i + 1)
             (m OR push_bit (8 * (7 - i)) (ucast (byte_or_0 dat (base + i))))
      else if rem_bits > 0
      then m OR push_bit (8 * (7 - i)) (ucast (byte_or_0 dat (base + i) AND mask8bit rem_bits))
      else m)"
  by pat_completeness auto
termination
  by (relation "measure (\<lambda>(_, _, rem_bits, _, _). rem_bits)") auto

declare f9_last.simps [simp del]

text \<open>
  The number of 64-bit blocks is computed in 32 bits, as in the source; with \<open>len = 0\<close> it is 1 and
  \<^verbatim>\<open>d - 2\<close> wraps around in the release profile, which the caller in NAS security never lets happen.
\<close>

definition snow_3g_f9 :: "bytes \<Rightarrow> u32 \<Rightarrow> u32 \<Rightarrow> u32 \<Rightarrow> bytes \<Rightarrow> u64 \<Rightarrow> bytes" where
  "snow_3g_f9 key count fresh dir dat len =
     (let iv = [fresh XOR push_bit 15 dir, count XOR push_bit 31 dir, fresh, count];
          z = fst (snow_generate_keystream 5 (snow_initialize (snow_key key) iv snow_new));
          p = push_bit 32 (ucast (z ! 0)) OR ucast (z ! 1);
          q = push_bit 32 (ucast (z ! 2)) OR ucast (z ! 3);
          d = (ucast (drop_bit 6 len) + (if len mod 64 = 0 then 1 else 2) :: u32);
          c = 0x1b;
          eval = fold (\<lambda>i eval. mul64 (eval XOR f9_block dat (8 * i)) p c) [0..<unat d - 2] 0;
          rem_bits = (if len mod 64 = 0 then 64 else unat (len mod 64));
          m_d_2 = f9_last dat (unat (8 * (d - 2))) rem_bits 0 0;
          eval = mul64 (eval XOR m_d_2) p c;
          eval = mul64 (eval XOR len) q c
      in map (\<lambda>i. ucast (drop_bit (56 - i * 8) eval XOR ucast (drop_bit (24 - i * 8) (z ! 4))))
           [0..<4])"

section \<open>Key stream and in-place exclusive or\<close>

lemma length_shift_lfsr [simp]: "lfsr \<noteq> [] \<Longrightarrow> length (shift_lfsr lfsr v) = length lfsr"
  by (simp add: shift_lfsr_def)

lemma snow_words_length [simp]: "length (fst (snow_words n s)) = n"
  by (induction n arbitrary: s) (simp_all add: split_beta Let_def)

lemma snow_words_take: "m \<le> n \<Longrightarrow> take m (fst (snow_words n s)) = fst (snow_words m s)"
proof (induction m arbitrary: n s)
  case (Suc m)
  then obtain k where "n = Suc k" and "m \<le> k" by (cases n) auto
  with Suc.IH show ?case by (simp add: split_beta Let_def)
qed simp

lemma f8_keystream_length [simp]: "length (snow_f8_keystream key count bearer dir n) = n"
  by (simp add: snow_f8_keystream_def snow_generate_keystream_def split_beta Let_def)

lemma f8_keystream_take:
  "m \<le> n \<Longrightarrow> take m (snow_f8_keystream key count bearer dir n) = snow_f8_keystream key count bearer dir m"
  by (simp add: snow_f8_keystream_def snow_generate_keystream_def split_beta Let_def snow_words_take)

lemma length_xor_at [simp]: "length (xor_at j b dat) = length dat"
  by (simp add: xor_at_def)

lemma xor_at_nth: "i < length dat \<Longrightarrow> xor_at j b dat ! i = (if i = j then dat ! i XOR b else dat ! i)"
  by (auto simp: xor_at_def)

lemma length_f8_xor_word [simp]: "length (f8_xor_word ks i dat) = length dat"
  by (simp add: f8_xor_word_def Let_def)

lemma f8_xor_word_nth:
  assumes "j < length dat"
  shows "f8_xor_word ks i dat ! j = (if j div 4 = i then dat ! j XOR ks_byte ks j else dat ! j)"
proof -
  obtain q r where j: "j = 4 * q + r" and "r < 4"
    by (metis mod_less_divisor mult_div_mod_eq zero_less_numeral)
  then have dm: "j div 4 = q" "j mod 4 = r" by simp_all
  have idx: "j = 4 * i \<longleftrightarrow> q = i \<and> r = 0" "j = 4 * i + 1 \<longleftrightarrow> q = i \<and> r = 1"
      "j = 4 * i + 2 \<longleftrightarrow> q = i \<and> r = 2" "j = 4 * i + 3 \<longleftrightarrow> q = i \<and> r = 3"
    using \<open>r < 4\<close> unfolding j by presburger+
  from \<open>r < 4\<close> consider "r = 0" | "r = 1" | "r = 2" | "r = 3" by linarith
  then show ?thesis
    using assms by cases (simp_all add: f8_xor_word_def Let_def xor_at_nth ks_byte_def idx dm
        del: One_nat_def add_2_eq_Suc')
qed

lemma length_f8_xor_words [simp]: "length (fold (f8_xor_word ks) is dat) = length dat"
  by (induction "is" arbitrary: dat) simp_all

lemma f8_xor_words_nth:
  "j < length dat \<Longrightarrow>
     fold (f8_xor_word ks) [0..<n] dat ! j =
       (if j < 4 * n then dat ! j XOR ks_byte ks j else dat ! j)"
  by (induction n) (auto simp: f8_xor_word_nth)

lemma f8_xor_words:
  "length dat \<le> 4 * n \<Longrightarrow>
     fold (f8_xor_word ks) [0..<n] dat = xor_bytes dat (ks_bytes ks (length dat))"
  by (rule nth_equalityI) (simp_all add: f8_xor_words_nth xor_bytes_nth)

section \<open>f8 on whole octets is a stream cipher\<close>

text \<open>The bit length is a 32-bit number: messages of at least \<open>2 ^ 29\<close> octets are out of range.\<close>

definition f8_fits :: "nat \<Rightarrow> bool" where
  "f8_fits n \<longleftrightarrow> n < 2 ^ 29"

definition f8_bits :: "bytes \<Rightarrow> u32" where
  "f8_bits m = of_nat (8 * length m)"

definition f8_octet_stream :: "bytes \<times> u32 \<times> u32 \<times> u32 \<Rightarrow> nat \<Rightarrow> bytes" where
  "f8_octet_stream = (\<lambda>(key, count, bearer, dir) n.
     ks_bytes (snow_f8_keystream key count bearer dir ((8 * n + 31) div 32)) n)"

lemma unat_f8_bits: "f8_fits (length m) \<Longrightarrow> unat (f8_bits m) = 8 * length m"
  unfolding f8_bits_def f8_fits_def by (subst unat_of_nat) simp

lemma snow_3g_f8_octets:
  assumes "f8_fits (length m)"
  shows "snow_3g_f8 key count bearer dir (f8_bits m) m =
           xor_bytes m (f8_octet_stream (key, count, bearer, dir) (length m))"
proof (cases "m = []")
  case True
  then show ?thesis by (simp add: snow_3g_f8_def f8_bits_def xor_bytes_def)
next
  case False
  with unat_f8_bits [OF assms] have "f8_bits m \<noteq> 0" by auto
  moreover have "length m \<le> 4 * ((8 * length m + 31) div 32)" by simp
  ultimately show ?thesis
    by (simp add: snow_3g_f8_def unat_f8_bits [OF assms] Let_def f8_xor_words f8_octet_stream_def)
qed

interpretation f8: xor_cipher
  "\<lambda>(key, count, bearer, dir) m. snow_3g_f8 key count bearer dir (f8_bits m) m"
  f8_octet_stream "\<lambda>(key, _). length key = 16" f8_fits
proof
  fix n i :: nat and k
  assume "i \<le> n"
  then have "(8 * i + 31) div 32 \<le> (8 * n + 31) div (32 :: nat)" by (intro div_le_mono) simp
  then show "take i (f8_octet_stream k n) = f8_octet_stream k i"
    using \<open>i \<le> n\<close>
    by (simp add: f8_octet_stream_def split_beta take_ks_bytes ks_bytes_take flip: f8_keystream_take)
qed (auto simp: f8_octet_stream_def snow_3g_f8_octets)

end
