(* ===== verification/Zuc.thy ===== *)
theory Zuc
  imports Stream_Cipher
begin

text \<open>
  The ZUC stream cipher and its two uses (\<^verbatim>\<open>libs/nextgcore-crypt/src/zuc.rs\<close>): \<open>zuc_eea3\<close>, the
  confidentiality algorithm behind 128-NEA3, an instance of \<open>xor_cipher\<close>, and \<open>zuc_eia3\<close>, the
  integrity algorithm behind 128-NIA3. The arithmetic of the shift register is related to the field of
  \<open>2 ^ 31 - 1\<close> elements it implements. Indexing a slice out of range is a \<open>Panic\<close>.
\<close>

section \<open>Tables and state\<close>

definition S0 :: bytes where
  "S0 = [
     0x3e, 0x72, 0x5b, 0x47, 0xca, 0xe0, 0x00, 0x33, 0x04, 0xd1, 0x54, 0x98, 0x09, 0xb9, 0x6d, 0xcb,
     0x7b, 0x1b, 0xf9, 0x32, 0xaf, 0x9d, 0x6a, 0xa5, 0xb8, 0x2d, 0xfc, 0x1d, 0x08, 0x53, 0x03, 0x90,
     0x4d, 0x4e, 0x84, 0x99, 0xe4, 0xce, 0xd9, 0x91, 0xdd, 0xb6, 0x85, 0x48, 0x8b, 0x29, 0x6e, 0xac,
     0xcd, 0xc1, 0xf8, 0x1e, 0x73, 0x43, 0x69, 0xc6, 0xb5, 0xbd, 0xfd, 0x39, 0x63, 0x20, 0xd4, 0x38,
     0x76, 0x7d, 0xb2, 0xa7, 0xcf, 0xed, 0x57, 0xc5, 0xf3, 0x2c, 0xbb, 0x14, 0x21, 0x06, 0x55, 0x9b,
     0xe3, 0xef, 0x5e, 0x31, 0x4f, 0x7f, 0x5a, 0xa4, 0x0d, 0x82, 0x51, 0x49, 0x5f, 0xba, 0x58, 0x1c,
     0x4a, 0x16, 0xd5, 0x17, 0xa8, 0x92, 0x24, 0x1f, 0x8c, 0xff, 0xd8, 0xae, 0x2e, 0x01, 0xd3, 0xad,
     0x3b, 0x4b, 0xda, 0x46, 0xeb, 0xc9, 0xde, 0x9a, 0x8f, 0x87, 0xd7, 0x3a, 0x80, 0x6f, 0x2f, 0xc8,
     0xb1, 0xb4, 0x37, 0xf7, 0x0a, 0x22, 0x13, 0x28, 0x7c, 0xcc, 0x3c, 0x89, 0xc7, 0xc3, 0x96, 0x56,
     0x07, 0xbf, 0x7e, 0xf0, 0x0b, 0x2b, 0x97, 0x52, 0x35, 0x41, 0x79, 0x61, 0xa6, 0x4c, 0x10, 0xfe,
     0xbc, 0x26, 0x95, 0x88, 0x8a, 0xb0, 0xa3, 0xfb, 0xc0, 0x18, 0x94, 0xf2, 0xe1, 0xe5, 0xe9, 0x5d,
     0xd0, 0xdc, 0x11, 0x66, 0x64, 0x5c, 0xec, 0x59, 0x42, 0x75, 0x12, 0xf5, 0x74, 0x9c, 0xaa, 0x23,
     0x0e, 0x86, 0xab, 0xbe, 0x2a, 0x02, 0xe7, 0x67, 0xe6, 0x44, 0xa2, 0x6c, 0xc2, 0x93, 0x9f, 0xf1,
     0xf6, 0xfa, 0x36, 0xd2, 0x50, 0x68, 0x9e, 0x62, 0x71, 0x15, 0x3d, 0xd6, 0x40, 0xc4, 0xe2, 0x0f,
     0x8e, 0x83, 0x77, 0x6b, 0x25, 0x05, 0x3f, 0x0c, 0x30, 0xea, 0x70, 0xb7, 0xa1, 0xe8, 0xa9, 0x65,
     0x8d, 0x27, 0x1a, 0xdb, 0x81, 0xb3, 0xa0, 0xf4, 0x45, 0x7a, 0x19, 0xdf, 0xee, 0x78, 0x34, 0x60]"

definition S1 :: bytes where
  "S1 = [
     0x55, 0xc2, 0x63, 0x71, 0x3b, 0xc8, 0x47, 0x86, 0x9f, 0x3c, 0xda, 0x5b, 0x29, 0xaa, 0xfd, 0x77,
     0x8c, 0xc5, 0x94, 0x0c, 0xa6, 0x1a, 0x13, 0x00, 0xe3, 0xa8, 0x16, 0x72, 0x40, 0xf9, 0xf8, 0x42,
     0x44, 0x26, 0x68, 0x96, 0x81, 0xd9, 0x45, 0x3e, 0x10, 0x76, 0xc6, 0xa7, 0x8b, 0x39, 0x43, 0xe1,
     0x3a, 0xb5, 0x56, 0x2a, 0xc0, 0x6d, 0xb3, 0x05, 0x22, 0x66, 0xbf, 0xdc, 0x0b, 0xfa, 0x62, 0x48,
     0xdd, 0x20, 0x11, 0x06, 0x36, 0xc9, 0xc1, 0xcf, 0xf6, 0x27, 0x52, 0xbb, 0x69, 0xf5, 0xd4, 0x87,
     0x7f, 0x84, 0x4c, 0xd2, 0x9c, 0x57, 0xa4, 0xbc, 0x4f, 0x9a, 0xdf, 0xfe, 0xd6, 0x8d, 0x7a, 0xeb,
     0x2b, 0x53, 0xd8, 0x5c, 0xa1, 0x14, 0x17, 0xfb, 0x23, 0xd5, 0x7d, 0x30, 0x67, 0x73, 0x08, 0x09,
     0xee, 0xb7, 0x70, 0x3f, 0x61, 0xb2, 0x19, 0x8e, 0x4e, 0xe5, 0x4b, 0x93, 0x8f, 0x5d, 0xdb, 0xa9,
     0xad, 0xf1, 0xae, 0x2e, 0xcb, 0x0d, 0xfc, 0xf4, 0x2d, 0x46, 0x6e, 0x1d, 0x97, 0xe8, 0xd1, 0xe9,
     0x4d, 0x37, 0xa5, 0x75, 0x5e, 0x83, 0x9e, 0xab, 0x82, 0x9d, 0xb9, 0x1c, 0xe0, 0xcd, 0x49, 0x89,
     0x01, 0xb6, 0xbd, 0x58, 0x24, 0xa2, 0x5f, 0x38, 0x78, 0x99, 0x15, 0x90, 0x50, 0xb8, 0x95, 0xe4,
     0xd0, 0x91, 0xc7, 0xce, 0xed, 0x0f, 0xb4, 0x6f, 0xa0, 0xcc, 0xf0, 0x02, 0x4a, 0x79, 0xc3, 0xde,
     0xa3, 0xef, 0xea, 0x51, 0xe6, 0x6b, 0x18, 0xec, 0x1b, 0x2c, 0x80, 0xf7, 0x74, 0xe7, 0xff, 0x21,
     0x5a, 0x6a, 0x54, 0x1e, 0x41, 0x31, 0x92, 0x35, 0xc4, 0x33, 0x07, 0x0a, 0xba, 0x7e, 0x0e, 0x34,
     0x88, 0xb1, 0x98, 0x7c, 0xf3, 0x3d, 0x60, 0x6c, 0x7b, 0xca, 0xd3, 0x1f, 0x32, 0x65, 0x04, 0x28,
     0x64, 0xbe, 0x85, 0x9b, 0x2f, 0x59, 0x8a, 0xd7, 0xb0, 0x25, 0xac, 0xaf, 0x12, 0x03, 0xe2, 0xf2]"

definition EK_D :: "u32 list" where
  "EK_D = [
     0x44D7, 0x26BC, 0x626B, 0x135E, 0x5789, 0x35E2, 0x7135, 0x09AF, 0x4D78, 0x2F13, 0x6BC4, 0x1AF1,
     0x5E26, 0x3C4D, 0x789A, 0x47AC]"

record ZucState =
  zu_lfsr :: "u32 list"
  zu_r1 :: u32
  zu_r2 :: u32
  zu_x :: "u32 list"

definition zuc_new :: ZucState where
  "zuc_new = \<lparr>zu_lfsr = replicate 16 0, zu_r1 = 0, zu_r2 = 0, zu_x = replicate 4 0\<rparr>"

section \<open>Arithmetic\<close>

definition add_m :: "u32 \<Rightarrow> u32 \<Rightarrow> u32" where
  "add_m a b = (let c = a + b in (c AND 0x7FFFFFFF) + drop_bit 31 c)"

definition mul_by_pow2 :: "u32 \<Rightarrow> nat \<Rightarrow> u32" where
  "mul_by_pow2 x k = (push_bit k x OR drop_bit (31 - k) x) AND 0x7FFFFFFF"

definition rot :: "u32 \<Rightarrow> nat \<Rightarrow> u32" where
  "rot a k = word_rotl k a"

definition l1 :: "u32 \<Rightarrow> u32" where
  "l1 x = x XOR rot x 2 XOR rot x 10 XOR rot x 18 XOR rot x 24"

definition l2 :: "u32 \<Rightarrow> u32" where
  "l2 x = x XOR rot x 8 XOR rot x 14 XOR rot x 22 XOR rot x 30"

definition make_u32 :: "u8 \<Rightarrow> u8 \<Rightarrow> u8 \<Rightarrow> u8 \<Rightarrow> u32" where
  "make_u32 a b c d = push_bit 24 (ucast a) OR push_bit 16 (ucast b) OR push_bit 8 (ucast c) OR ucast d"

definition make_u31 :: "u8 \<Rightarrow> u32 \<Rightarrow> u8 \<Rightarrow> u32" where
  "make_u31 a b c = push_bit 23 (ucast a) OR push_bit 8 (b AND 0x7FFF) OR ucast c"

section \<open>Shift register and nonlinear function\<close>

definition lfsr_init :: "u32 \<Rightarrow> ZucState \<Rightarrow> ZucState" where
  "lfsr_init u s =
     (let lfsr = zu_lfsr s;
          f = lfsr ! 0;
          f = add_m f (mul_by_pow2 (lfsr ! 0) 8);
          f = add_m f (mul_by_pow2 (lfsr ! 4) 20);
          f = add_m f (mul_by_pow2 (lfsr ! 10) 21);
          f = add_m f (mul_by_pow2 (lfsr ! 13) 17);
          f = add_m f (mul_by_pow2 (lfsr ! 15) 15);
          f = add_m f u
      in s\<lparr>zu_lfsr := tl lfsr @ [f]\<rparr>)"

definition lfsr_work :: "ZucState \<Rightarrow> ZucState" where
  "lfsr_work s =
     (let lfsr = zu_lfsr s;
          f = lfsr ! 0;
          f = add_m f (mul_by_pow2 (lfsr ! 0) 8);
          f = add_m f (mul_by_pow2 (lfsr ! 4) 20);
          f = add_m f (mul_by_pow2 (lfsr ! 10) 21);
          f = add_m f (mul_by_pow2 (lfsr ! 13) 17);
          f = add_m f (mul_by_pow2 (lfsr ! 15) 15)
      in s\<lparr>zu_lfsr := tl lfsr @ [f]\<rparr>)"

definition bit_reorg :: "ZucState \<Rightarrow> ZucState" where
  "bit_reorg s =
     (let lfsr = zu_lfsr s
      in s\<lparr>zu_x :=
        [push_bit 1 (lfsr ! 15 AND 0x7FFF8000) OR (lfsr ! 14 AND 0xFFFF),
         push_bit 16 (lfsr ! 11 AND 0xFFFF) OR drop_bit 15 (lfsr ! 9),
         push_bit 16 (lfsr ! 7 AND 0xFFFF) OR drop_bit 15 (lfsr ! 5),
         push_bit 16 (lfsr ! 2 AND 0xFFFF) OR drop_bit 15 (lfsr ! 0)]\<rparr>)"

definition zuc_f :: "ZucState \<Rightarrow> u32 \<times> ZucState" where
  "zuc_f s =
     (let w = (zu_x s ! 0 XOR zu_r1 s) + zu_r2 s;
          w1 = zu_r1 s + zu_x s ! 1;
          w2 = zu_r2 s XOR zu_x s ! 2;
          u = l1 (push_bit 16 w1 OR drop_bit 16 w2);
          v = l2 (push_bit 16 w2 OR drop_bit 16 w1)
      in (w, s\<lparr>
        zu_r1 := make_u32 (S0 ! unat (drop_bit 24 u)) (S1 ! unat (drop_bit 16 u AND 0xFF))
                   (S0 ! unat (drop_bit 8 u AND 0xFF)) (S1 ! unat (u AND 0xFF)),
        zu_r2 := make_u32 (S0 ! unat (drop_bit 24 v)) (S1 ! unat (drop_bit 16 v AND 0xFF))
                   (S0 ! unat (drop_bit 8 v AND 0xFF)) (S1 ! unat (v AND 0xFF))\<rparr>))"

definition zuc_init_round :: "ZucState \<Rightarrow> ZucState" where
  "zuc_init_round s = (let (w, s) = zuc_f (bit_reorg s) in lfsr_init (drop_bit 1 w) s)"

definition zuc_initialize :: "bytes \<Rightarrow> bytes \<Rightarrow> ZucState \<Rightarrow> ZucState" where
  "zuc_initialize k iv s =
     (zuc_init_round ^^ 32)
       (s\<lparr>zu_lfsr := map (\<lambda>i. make_u31 (k ! i) (EK_D ! i) (iv ! i)) [0..<16], zu_r1 := 0, zu_r2 := 0\<rparr>)"

text \<open>The loop of \<^verbatim>\<open>generate_keystream\<close>: the next \<open>n\<close> words of the key stream.\<close>

fun zuc_words :: "nat \<Rightarrow> ZucState \<Rightarrow> u32 list \<times> ZucState" where
  "zuc_words 0 s = ([], s)"
| "zuc_words (Suc n) s =
     (let (w, s) = zuc_f (bit_reorg s);
          z = w XOR zu_x s ! 3;
          (zs, s) = zuc_words n (lfsr_work s)
      in (z # zs, s))"

definition zuc_generate_keystream :: "nat \<Rightarrow> ZucState \<Rightarrow> u32 list \<times> ZucState" where
  "zuc_generate_keystream n s = (let (_, s) = zuc_f (bit_reorg s) in zuc_words n (lfsr_work s))"

section \<open>Confidentiality: EEA3\<close>

definition eea3_iv :: "u32 \<Rightarrow> u32 \<Rightarrow> u32 \<Rightarrow> bytes" where
  "eea3_iv count bearer dir =
     (let half = [ucast (drop_bit 24 count), ucast (drop_bit 16 count), ucast (drop_bit 8 count), ucast count,
                  ucast (push_bit 3 bearer OR push_bit 2 (dir AND 1)) AND 0xFC, 0, 0, 0]
      in half @ half)"

definition zuc_eea3_keystream :: "bytes \<Rightarrow> u32 \<Rightarrow> u32 \<Rightarrow> u32 \<Rightarrow> nat \<Rightarrow> u32 list" where
  "zuc_eea3_keystream ck count bearer dir l =
     fst (zuc_generate_keystream l (zuc_initialize ck (eea3_iv count bearer dir) zuc_new))"

definition zuc_eea3 ::
  "bytes \<Rightarrow> u32 \<Rightarrow> u32 \<Rightarrow> u32 \<Rightarrow> u32 \<Rightarrow> bytes \<Rightarrow> bytes \<Rightarrow> ('e, bytes) outcome" where
  "zuc_eea3 ck count bearer dir len m c =
     (let l = (unat len + 31) div 32;
          l8 = (unat len + 7) div 8;
          lastbits = (8 - unat len mod 8) mod 8;
          z = zuc_eea3_keystream ck count bearer dir l
      in if l8 > length m \<or> l8 > length c then Panic
         else
           let c = fold (\<lambda>i c. c[i := m ! i XOR ks_byte z i]) [0..<l8] c
           in Ok (if lastbits > 0 \<and> l8 > 0
                  then c[l8 - 1 := c ! (l8 - 1) AND ucast ((0x100 :: u16) - push_bit lastbits 1)]
                  else c))"

section \<open>Integrity: EIA3\<close>

definition get_word :: "u32 list \<Rightarrow> nat \<Rightarrow> ('e, u32) outcome" where
  "get_word dat i =
     (let ti = i mod 32; idx = i div 32
      in if idx \<ge> length dat then Panic
         else if ti = 0 then Ok (dat ! idx)
         else Ok (push_bit ti (dat ! idx) OR
                  drop_bit (32 - ti) (if idx + 1 < length dat then dat ! (idx + 1) else 0)))"

definition get_bit :: "bytes \<Rightarrow> nat \<Rightarrow> u8" where
  "get_bit dat i =
     (let idx = i div 8
      in if idx < length dat \<and> dat ! idx AND push_bit (7 - i mod 8) 1 \<noteq> 0 then 1 else 0)"

definition eia3_iv :: "u32 \<Rightarrow> u32 \<Rightarrow> u32 \<Rightarrow> bytes" where
  "eia3_iv count bearer dir =
     (let d = ucast (push_bit 7 (dir AND 1));
          b = ucast (push_bit 3 bearer AND 0xF8)
      in [ucast (drop_bit 24 count), ucast (drop_bit 16 count), ucast (drop_bit 8 count), ucast count,
          b, 0, 0, 0,
          ucast (drop_bit 24 count) XOR d, ucast (drop_bit 16 count), ucast (drop_bit 8 count), ucast count,
          b, 0, d, 0])"

text \<open>The loop over the message bits, for the bit positions still to be visited.\<close>

fun eia3_bits :: "u32 list \<Rightarrow> bytes \<Rightarrow> nat list \<Rightarrow> u32 \<Rightarrow> ('e, u32) outcome" where
  "eia3_bits z m [] t = Ok t"
| "eia3_bits z m (i # is) t =
     (if get_bit m i \<noteq> 0
      then obind (get_word z i) (\<lambda>w. eia3_bits z m is (t XOR w))
      else eia3_bits z m is t)"

text \<open>The key stream length is computed in 32 bits, as in the source: \<^verbatim>\<open>len + 64\<close> may wrap around.\<close>

definition zuc_eia3 ::
  "bytes \<Rightarrow> u32 \<Rightarrow> u32 \<Rightarrow> u32 \<Rightarrow> u32 \<Rightarrow> bytes \<Rightarrow> ('e, u32) outcome" where
  "zuc_eia3 ik count bearer dir len m =
     (let n = len + 64;
          l = (unat n + 31) div 32;
          z = fst (zuc_generate_keystream l (zuc_initialize ik (eia3_iv count bearer dir) zuc_new))
      in obind (eia3_bits z m [0..<unat len] 0) (\<lambda>t.
         obind (get_word z (unat len)) (\<lambda>w.
         if l = 0 then Panic else Ok (t XOR w XOR z ! (l - 1)))))"

section \<open>The field behind the shift register\<close>

text \<open>Cells hold numbers below \<open>2 ^ 31\<close>; \<open>p31\<close> is the Mersenne prime they are read modulo.\<close>

abbreviation p31 :: nat where
  "p31 \<equiv> 2 ^ 31 - 1"

lemma mask31: "(0x7FFFFFFF :: u32) = mask 31"
  by (simp add: mask_eq_exp_minus_1)

lemma unat_and_mask31: "unat (c AND 0x7FFFFFFF) = unat (c :: u32) mod 2 ^ 31"
  by (simp only: mask31 unat_take_bit_mod flip: take_bit_eq_mask)

lemma below_31: "(x :: u32) < 2 ^ 31 \<longleftrightarrow> take_bit 31 x = x"
  by (rule word_below_power) simp

lemma mersenne_fold: "(x mod 2 ^ 31 + x div 2 ^ 31) mod p31 = x mod p31" for x :: nat
proof -
  have "x = (x mod 2 ^ 31 + x div 2 ^ 31) + p31 * (x div 2 ^ 31)"
    using mod_mult_div_eq [of x "2 ^ 31"] by (simp add: algebra_simps)
  then show ?thesis by (metis mod_mult_self2)
qed

lemma add_m_nat:
  assumes "a < 2 ^ 31" and "b < 2 ^ 31"
  shows "unat (add_m a b) = (unat a + unat b) mod 2 ^ 31 + (unat a + unat b) div 2 ^ 31"
proof -
  have "unat a < 2 ^ 31" and "unat b < 2 ^ 31" using assms by (simp_all add: word_less_nat_alt)
  then have sum: "unat (a + b) = unat a + unat b" by (simp add: unat_word_ariths)
  let ?c = "unat a + unat b"
  have "?c mod 2 ^ 31 + ?c div 2 ^ 31 < 2 ^ 32"
    using \<open>unat a < 2 ^ 31\<close> \<open>unat b < 2 ^ 31\<close> by simp
  then show ?thesis
    by (simp add: add_m_def Let_def unat_word_ariths(1) [of "(a + b) AND 0x7FFFFFFF"]
        unat_and_mask31 unat_drop_bit_div sum)
qed

lemma add_m_below:
  assumes "a < 2 ^ 31" and "b < 2 ^ 31"
  shows "add_m a b < 2 ^ 31"
proof -
  have "unat a < 2 ^ 31" and "unat b < 2 ^ 31" using assms by (simp_all add: word_less_nat_alt)
  then have "(unat a + unat b) mod 2 ^ 31 + (unat a + unat b) div 2 ^ 31 < 2 ^ 31"
    by (cases "unat a + unat b < 2 ^ 31") (simp_all add: le_div_geq le_mod_geq)
  then show ?thesis using add_m_nat [OF assms] by (simp add: word_less_nat_alt)
qed

lemma add_m_mod:
  "a < 2 ^ 31 \<Longrightarrow> b < 2 ^ 31 \<Longrightarrow> unat (add_m a b) mod p31 = (unat a + unat b) mod p31"
  by (simp only: add_m_nat mersenne_fold)

lemma mul_by_pow2_below: "mul_by_pow2 x k < 2 ^ 31"
  unfolding mul_by_pow2_def mask31 by (rule and_mask_less') simp

lemma mul_by_pow2_sum:
  assumes "x < 2 ^ 31" and "k \<le> 31"
  shows "mul_by_pow2 x k = take_bit 31 (push_bit k x) + drop_bit (31 - k) x"
proof -
  have x: "take_bit 31 x = x" using assms(1) by (simp only: below_31)
  then have hi: "n < 31" if "bit x n" for n using that by (metis bit_take_bit_iff)
  then have "take_bit 31 (push_bit k x) AND drop_bit (31 - k) x = 0"
    using assms(2) by (intro bit_word_eqI) (auto simp: bit_simps dest: hi)
  moreover have "mul_by_pow2 x k = take_bit 31 (push_bit k x) OR take_bit 31 (drop_bit (31 - k) x)"
    by (simp add: mul_by_pow2_def mask31 flip: take_bit_eq_mask)
  moreover have "take_bit 31 (drop_bit (31 - k) x) = drop_bit (31 - k) x"
    by (intro bit_word_eqI) (auto simp: bit_simps dest: hi)
  ultimately show ?thesis by (simp add: disjunctive_add_eq_or)
qed

lemma mul_by_pow2_nat:
  assumes "x < 2 ^ 31" and "k \<le> 31"
  shows "unat (mul_by_pow2 x k) = unat x * 2 ^ k mod 2 ^ 31 + unat x * 2 ^ k div 2 ^ 31"
proof -
  have x: "unat x < 2 ^ 31" using assms by (simp add: word_less_nat_alt)
  have "unat (take_bit 31 (push_bit k x)) = unat x * 2 ^ k mod 2 ^ 31"
    by (simp add: unat_take_bit_mod unat_push_bit_mult mod_mod_cancel)
  moreover have "unat (drop_bit (31 - k) x) = unat x * 2 ^ k div 2 ^ 31"
  proof -
    have "(2 :: nat) ^ 31 = 2 ^ (31 - k) * 2 ^ k" using assms(2) by (simp flip: power_add)
    then have "unat x * 2 ^ k div 2 ^ 31 = unat x div 2 ^ (31 - k)"
      by (metis div_mult_mult2 power_not_zero zero_neq_numeral)
    then show ?thesis by (simp add: unat_drop_bit_div)
  qed
  moreover have "unat x * 2 ^ k mod 2 ^ 31 + unat x * 2 ^ k div 2 ^ 31 < 2 ^ 32"
  proof -
    have "unat x * 2 ^ k div 2 ^ 31 \<le> unat x"
      using assms(2) power_increasing [of k 31 "2 :: nat"]
        div_le_mono [of "unat x * 2 ^ k" "unat x * 2 ^ 31" "2 ^ 31"] by simp
    then show ?thesis using x mod_less_divisor [of "2 ^ 31" "unat x * 2 ^ k"] by simp
  qed
  ultimately show ?thesis
    by (simp add: mul_by_pow2_sum [OF assms] unat_word_ariths)
qed

lemma mul_by_pow2_mod:
  "x < 2 ^ 31 \<Longrightarrow> k \<le> 31 \<Longrightarrow> unat (mul_by_pow2 x k) mod p31 = unat x * 2 ^ k mod p31"
  by (simp only: mul_by_pow2_nat mersenne_fold)

lemma lfsr_feedback:
  assumes "\<forall>x\<in>set lfsr. x < 2 ^ 31" and "length lfsr = 16"
    and "f = add_m (add_m (add_m (add_m (add_m (lfsr ! 0) (mul_by_pow2 (lfsr ! 0) 8)) (mul_by_pow2 (lfsr ! 4) 20))
               (mul_by_pow2 (lfsr ! 10) 21)) (mul_by_pow2 (lfsr ! 13) 17)) (mul_by_pow2 (lfsr ! 15) 15)"
  shows "f < 2 ^ 31"
    and "unat f mod p31 = (unat (lfsr ! 15) * 2 ^ 15 + unat (lfsr ! 13) * 2 ^ 17 + unat (lfsr ! 10) * 2 ^ 21 +
           unat (lfsr ! 4) * 2 ^ 20 + unat (lfsr ! 0) * (1 + 2 ^ 8)) mod p31"
proof -
  have cell: "lfsr ! i < 2 ^ 31" if "i < 16" for i using assms(1,2) that by simp
  note below = add_m_below mul_by_pow2_below cell
  show "f < 2 ^ 31" unfolding assms(3) by (intro below; simp)
  have step: "unat (add_m a (mul_by_pow2 x k)) mod p31 = (n + unat x * 2 ^ k) mod p31"
    if "a < 2 ^ 31" and "x < 2 ^ 31" and "k \<le> 31" and "unat a mod p31 = n mod p31" for a x k n
  proof -
    have "unat (add_m a (mul_by_pow2 x k)) mod p31 = (unat a + unat (mul_by_pow2 x k)) mod p31"
      using that(1) mul_by_pow2_below by (rule add_m_mod)
    also have "\<dots> = (n + unat x * 2 ^ k) mod p31"
      using that(4) mul_by_pow2_mod [OF that(2,3)] by (rule mod_add_cong)
    finally show ?thesis .
  qed
  have "unat f mod p31 = (((((unat (lfsr ! 0) + unat (lfsr ! 0) * 2 ^ 8) + unat (lfsr ! 4) * 2 ^ 20) +
           unat (lfsr ! 10) * 2 ^ 21) + unat (lfsr ! 13) * 2 ^ 17) + unat (lfsr ! 15) * 2 ^ 15) mod p31"
    unfolding assms(3) by (intro step below refl; simp)
  then show "unat f mod p31 = (unat (lfsr ! 15) * 2 ^ 15 + unat (lfsr ! 13) * 2 ^ 17 +
      unat (lfsr ! 10) * 2 ^ 21 + unat (lfsr ! 4) * 2 ^ 20 + unat (lfsr ! 0) * (1 + 2 ^ 8)) mod p31"
    by (simp add: algebra_simps)
qed

section \<open>The 31-bit invariant\<close>

definition zuc_wf :: "ZucState \<Rightarrow> bool" where
  "zuc_wf s \<longleftrightarrow> length (zu_lfsr s) = 16 \<and> (\<forall>x\<in>set (zu_lfsr s). x < 2 ^ 31)"

lemma zuc_wf_shift:
  "zuc_wf s \<Longrightarrow> f < 2 ^ 31 \<Longrightarrow> zuc_wf (s\<lparr>zu_lfsr := tl (zu_lfsr s) @ [f]\<rparr>)"
  by (cases "zu_lfsr s") (auto simp: zuc_wf_def)

lemma lfsr_work_wf: "zuc_wf s \<Longrightarrow> zuc_wf (lfsr_work s)"
  using lfsr_feedback(1) [OF _ _ refl, of "zu_lfsr s"]
  unfolding lfsr_work_def Let_def by (intro zuc_wf_shift) (simp_all add: zuc_wf_def)

lemma lfsr_init_wf: "zuc_wf s \<Longrightarrow> u < 2 ^ 31 \<Longrightarrow> zuc_wf (lfsr_init u s)"
  using lfsr_feedback(1) [OF _ _ refl, of "zu_lfsr s"]
  unfolding lfsr_init_def Let_def by (intro zuc_wf_shift add_m_below [where b = u]) (simp_all add: zuc_wf_def)

lemma bit_reorg_wf [simp]: "zuc_wf (bit_reorg s) = zuc_wf s"
  by (simp add: bit_reorg_def zuc_wf_def Let_def)

lemma zuc_f_wf [simp]: "zuc_wf (snd (zuc_f s)) = zuc_wf s"
  by (simp add: zuc_f_def zuc_wf_def Let_def)

lemma drop_bit_1_below: "drop_bit 1 (w :: u32) < 2 ^ 31"
  unfolding below_31 by (rule bit_word_eqI) (auto simp: bit_simps dest: bit_imp_le_length)

lemma zuc_init_round_wf: "zuc_wf s \<Longrightarrow> zuc_wf (zuc_init_round s)"
  unfolding zuc_init_round_def split_beta Let_def by (rule lfsr_init_wf) (simp, rule drop_bit_1_below)

lemma make_u31_below: "make_u31 a b c < 2 ^ 31"
proof -
  have "b AND 0x7FFF = take_bit 15 b" by (simp add: take_bit_eq_mask mask_eq_exp_minus_1)
  then show ?thesis
    unfolding below_31 make_u31_def by (intro bit_word_eqI) (auto simp: bit_simps dest: bit_imp_le_length)
qed

lemma zuc_initialize_wf: "zuc_wf (zuc_initialize k iv s)"
proof -
  have iter: "zuc_wf ((zuc_init_round ^^ n) t)" if "zuc_wf t" for n t
    using that by (induction n) (simp_all add: zuc_init_round_wf)
  show ?thesis
    unfolding zuc_initialize_def by (rule iter) (simp add: zuc_wf_def make_u31_below [simplified])
qed

lemma zuc_words_wf: "zuc_wf s \<Longrightarrow> zuc_wf (snd (zuc_words n s))"
  by (induction n arbitrary: s) (simp_all add: split_beta Let_def lfsr_work_wf)

section \<open>EEA3 on whole octets is a stream cipher\<close>

lemma zuc_words_length [simp]: "length (fst (zuc_words n s)) = n"
  by (induction n arbitrary: s) (simp_all add: split_beta Let_def)

lemma zuc_words_take: "m \<le> n \<Longrightarrow> take m (fst (zuc_words n s)) = fst (zuc_words m s)"
proof (induction m arbitrary: n s)
  case (Suc m)
  then obtain k where "n = Suc k" and "m \<le> k" by (cases n) auto
  with Suc.IH show ?case by (simp add: split_beta Let_def)
qed simp

lemma zuc_generate_length [simp]: "length (fst (zuc_generate_keystream n s)) = n"
  by (simp add: zuc_generate_keystream_def split_beta Let_def)

lemma eea3_keystream_take:
  "m \<le> n \<Longrightarrow> take m (zuc_eea3_keystream ck count bearer dir n) = zuc_eea3_keystream ck count bearer dir m"
  by (simp add: zuc_eea3_keystream_def zuc_generate_keystream_def split_beta Let_def zuc_words_take)

lemma length_write_octets [simp]: "length (fold (\<lambda>i c. c[i := g i]) is c) = length c"
  by (induction "is" arbitrary: c) simp_all

lemma write_octets_nth:
  "j < length c \<Longrightarrow> fold (\<lambda>i c. c[i := g i]) [0..<n] c ! j = (if j < n then g j else c ! j)"
  by (induction n) (auto simp: nth_list_update less_Suc_eq)

definition eea3_bits :: "bytes \<Rightarrow> u32" where
  "eea3_bits m = of_nat (8 * length m)"

definition eea3_fits :: "nat \<Rightarrow> bool" where
  "eea3_fits n \<longleftrightarrow> n < 2 ^ 29"

definition eea3_octet_stream :: "bytes \<times> u32 \<times> u32 \<times> u32 \<Rightarrow> nat \<Rightarrow> bytes" where
  "eea3_octet_stream = (\<lambda>(ck, count, bearer, dir) n.
     ks_bytes (zuc_eea3_keystream ck count bearer dir ((8 * n + 31) div 32)) n)"

lemma zuc_eea3_octets:
  assumes "eea3_fits (length m)" and "length c = length m"
  shows "zuc_eea3 ck count bearer dir (eea3_bits m) m c =
           Ok (xor_bytes m (eea3_octet_stream (ck, count, bearer, dir) (length m)))"
proof -
  have "unat (eea3_bits m) = 8 * length m"
    using assms(1) unfolding eea3_bits_def eea3_fits_def by (subst unat_of_nat) simp
  moreover have "fold (\<lambda>i c. c[i := m ! i XOR ks_byte z i]) [0..<length m] c =
      xor_bytes m (ks_bytes z (length m))" for z
    using assms(2) by (intro nth_equalityI) (simp_all add: write_octets_nth xor_bytes_nth)
  ultimately show ?thesis using assms(2) by (simp add: zuc_eea3_def eea3_octet_stream_def Let_def)
qed

interpretation eea3: xor_cipher
  "\<lambda>(ck, count, bearer, dir) m.
     case zuc_eea3 ck count bearer dir (eea3_bits m) m (replicate (length m) 0) of Ok c \<Rightarrow> c | _ \<Rightarrow> []"
  eea3_octet_stream "\<lambda>(ck, _). length ck = 16" eea3_fits
proof
  fix n i :: nat and k
  assume "i \<le> n"
  then have "(8 * i + 31) div 32 \<le> (8 * n + 31) div (32 :: nat)" by (intro div_le_mono) simp
  then show "take i (eea3_octet_stream k n) = eea3_octet_stream k i"
    using \<open>i \<le> n\<close>
    by (simp add: eea3_octet_stream_def split_beta take_ks_bytes ks_bytes_take flip: eea3_keystream_take)
qed (auto simp: eea3_octet_stream_def zuc_eea3_octets)

section \<open>EIA3 reads windows of the key stream\<close>

text \<open>Bit \<open>i\<close> of the key stream, the most significant bit of the first word first; 0 past its end.\<close>

definition ks_bit :: "u32 list \<Rightarrow> nat \<Rightarrow> bool" where
  "ks_bit z i \<longleftrightarrow> i div 32 < length z \<and> bit (z ! (i div 32)) (31 - i mod 32)"

lemma get_word_window:
  assumes "i div 32 < length z"
  obtains w where "get_word z i = Ok w" and "\<And>j. j < 32 \<Longrightarrow> bit w (31 - j) \<longleftrightarrow> ks_bit z (i + j)"
proof -
  define q r where "q = i div 32" and "r = i mod 32"
  have i: "i = 32 * q + r" and "r < 32" by (simp_all add: q_def r_def)
  let ?w = "if r = 0 then z ! q
    else push_bit r (z ! q) OR drop_bit (32 - r) (if q + 1 < length z then z ! (q + 1) else 0)"
  have "get_word z i = Ok ?w" using assms by (simp add: get_word_def Let_def q_def r_def)
  moreover have "bit ?w (31 - j) \<longleftrightarrow> ks_bit z (i + j)" if "j < 32" for j
  proof (cases "r + j < 32")
    case True
    then have "(i + j) div 32 = q" and "(i + j) mod 32 = r + j"
      unfolding i by (simp_all add: ab_semigroup_add_class.add_ac(1))
    then show ?thesis using assms True that
      by (auto simp: ks_bit_def bit_simps q_def add.commute [of r j] dest: bit_imp_le_length)
  next
    case False
    then have "r \<noteq> 0" using that by auto
    define x where "x = r + j - 32"
    have "i + j = x + 32 * (q + 1)" and "x < 32"
      using False \<open>r < 32\<close> that unfolding i x_def by simp_all
    then have "(i + j) div 32 = q + 1" and "(i + j) mod 32 = r + j - 32"
      unfolding x_def [symmetric] by (simp_all only: div_mult_self2 mod_mult_self2) simp_all
    moreover have "32 - r + (31 - j) = 31 - (r + j - 32)" using False \<open>r < 32\<close> that by simp
    ultimately show ?thesis using False that \<open>r \<noteq> 0\<close>
      by (auto simp: ks_bit_def bit_simps)
  qed
  ultimately show thesis using that by blast
qed

lemma eia3_bits_run:
  assumes "\<forall>i\<in>set is. i div 32 < length z"
  shows "\<exists>t'. (eia3_bits z m is t :: ('e, u32) outcome) = Ok t' \<and>
    (\<forall>j<32. bit t' (31 - j) \<longleftrightarrow>
       odd (of_bool (bit t (31 - j)) + length (filter (\<lambda>i. get_bit m i \<noteq> 0 \<and> ks_bit z (i + j)) is)))"
  using assms
proof (induction "is" arbitrary: t)
  case (Cons i "is")
  then obtain w where w: "(get_word z i :: ('e, u32) outcome) = Ok w" "\<And>j. j < 32 \<Longrightarrow> bit w (31 - j) \<longleftrightarrow> ks_bit z (i + j)"
    by (metis get_word_window list.set_intros(1))
  show ?case
  proof (cases "get_bit m i = 0")
    case True
    then show ?thesis using Cons.IH [of t] Cons.prems by simp
  next
    case False
    then show ?thesis
      using Cons.IH [of "t XOR w"] Cons.prems w(2) by (auto simp: w(1) bit_xor_iff)
  qed
qed simp

definition eia3_keystream :: "bytes \<Rightarrow> u32 \<Rightarrow> u32 \<Rightarrow> u32 \<Rightarrow> nat \<Rightarrow> u32 list" where
  "eia3_keystream ik count bearer dir l =
     fst (zuc_generate_keystream l (zuc_initialize ik (eia3_iv count bearer dir) zuc_new))"

lemma eia3_tag_bits:
  fixes ik count bearer dir len
  assumes "unat len + 64 < 2 ^ 32"
  defines "l \<equiv> (unat len + 95) div 32"
  defines "z \<equiv> eia3_keystream ik count bearer dir l"
  shows "\<exists>t. (zuc_eia3 ik count bearer dir len m :: ('e, u32) outcome) = Ok t \<and>
    (\<forall>j<32. bit t (31 - j) \<longleftrightarrow>
       odd (length (filter (\<lambda>i. get_bit m i \<noteq> 0 \<and> ks_bit z (i + j)) [0..<unat len]) +
            of_bool (ks_bit z (unat len + j)) + of_bool (ks_bit z (32 * (l - 1) + j))))"
proof -
  have n: "unat (len + 64) = unat len + 64" using assms(1) by (simp add: unat_word_ariths)
  have len_z: "length z = l" by (simp add: z_def eia3_keystream_def)
  have idx: "i div 32 < length z" if "i \<le> unat len" for i
    using that div_le_mono [OF that, of 32] unfolding len_z l_def by simp
  obtain t where t: "(eia3_bits z m [0..<unat len] 0 :: ('e, u32) outcome) = Ok t" "\<And>j. j < 32 \<Longrightarrow> bit t (31 - j) \<longleftrightarrow>
      odd (length (filter (\<lambda>i. get_bit m i \<noteq> 0 \<and> ks_bit z (i + j)) [0..<unat len]))"
    using eia3_bits_run [of "[0..<unat len]" z m 0] idx by auto
  obtain w where w: "(get_word z (unat len) :: ('e, u32) outcome) = Ok w"
    "\<And>j. j < 32 \<Longrightarrow> bit w (31 - j) \<longleftrightarrow> ks_bit z (unat len + j)"
    using idx [OF le_refl] by (metis get_word_window)
  have "l > 0" by (simp add: l_def)
  then have last: "bit (z ! (l - 1)) (31 - j) \<longleftrightarrow> ks_bit z (32 * (l - 1) + j)" if "j < 32" for j
    using that len_z by (simp add: ks_bit_def)
  have "(zuc_eia3 ik count bearer dir len m :: ('e, u32) outcome) = Ok (t XOR w XOR z ! (l - 1))"
  proof -
    have "(unat (len + 64) + 31) div 32 = l" by (simp add: n l_def add.commute)
    moreover have "fst (zuc_generate_keystream l (zuc_initialize ik (eia3_iv count bearer dir) zuc_new)) = z"
      by (simp add: z_def eia3_keystream_def)
    ultimately show ?thesis using \<open>l > 0\<close> by (simp add: zuc_eia3_def Let_def t(1) w(1))
  qed
  then show ?thesis by (auto simp: bit_xor_iff t(2) w(2) last [simplified])
qed

section \<open>Properties\<close>

text \<open>
  ZUC's shift register computes in the field of \<open>2 ^ 31 - 1\<close> elements. From a state whose sixteen
  cells are below \<open>2 ^ 31\<close>, \<open>lfsr_work\<close> moves the cells one place down, and the new last cell is
  below \<open>2 ^ 31\<close> again and is the feedback of the standard
  \<open>2^15 s15 + 2^17 s13 + 2^21 s10 + 2^20 s4 + (1 + 2^8) s0\<close> modulo \<open>2 ^ 31 - 1\<close>: the additions by
  folding the carry and the multiplications by rotation lose nothing.
\<close>

lemma lfsr_work_field:
  assumes "zuc_wf s"
  shows "take 15 (zu_lfsr (lfsr_work s)) = drop 1 (zu_lfsr s) \<and> zuc_wf (lfsr_work s) \<and>
    unat (zu_lfsr (lfsr_work s) ! 15) mod (2 ^ 31 - 1) =
      (unat (zu_lfsr s ! 15) * 2 ^ 15 + unat (zu_lfsr s ! 13) * 2 ^ 17 + unat (zu_lfsr s ! 10) * 2 ^ 21 +
       unat (zu_lfsr s ! 4) * 2 ^ 20 + unat (zu_lfsr s ! 0) * (1 + 2 ^ 8)) mod (2 ^ 31 - 1)"
proof (intro conjI)
  have s: "length (zu_lfsr s) = 16" "\<forall>x\<in>set (zu_lfsr s). x < 2 ^ 31"
    using assms by (simp_all add: zuc_wf_def)
  have "(tl (zu_lfsr s) @ [f]) ! 15 = f" for f using s(1) by (simp add: nth_append)
  then have last: "zu_lfsr (lfsr_work s) ! 15 =
      add_m (add_m (add_m (add_m (add_m (zu_lfsr s ! 0) (mul_by_pow2 (zu_lfsr s ! 0) 8))
        (mul_by_pow2 (zu_lfsr s ! 4) 20)) (mul_by_pow2 (zu_lfsr s ! 10) 21))
        (mul_by_pow2 (zu_lfsr s ! 13) 17)) (mul_by_pow2 (zu_lfsr s ! 15) 15)"
    by (simp add: lfsr_work_def Let_def)
  show "take 15 (zu_lfsr (lfsr_work s)) = drop 1 (zu_lfsr s)"
    using s(1) by (simp add: lfsr_work_def Let_def drop_Suc)
  show "zuc_wf (lfsr_work s)" using assms by (rule lfsr_work_wf)
  show "unat (zu_lfsr (lfsr_work s) ! 15) mod (2 ^ 31 - 1) =
      (unat (zu_lfsr s ! 15) * 2 ^ 15 + unat (zu_lfsr s ! 13) * 2 ^ 17 + unat (zu_lfsr s ! 10) * 2 ^ 21 +
       unat (zu_lfsr s ! 4) * 2 ^ 20 + unat (zu_lfsr s ! 0) * (1 + 2 ^ 8)) mod (2 ^ 31 - 1)"
    by (rule lfsr_feedback(2) [OF s(2,1) last])
qed



end
