(* ===== verification/Aes_Modes.thy ===== *)
theory Aes_Modes
  imports Stream_Cipher
begin

text \<open>
  The AES modes of operation (\<^verbatim>\<open>libs/nextgcore-crypt/src/aes.rs\<close>): key checks, CBC encryption and
  decryption, the 128-bit counter and CTR mode, and AES-CMAC verification (\<^verbatim>\<open>aes_cmac.rs\<close>). The block
  cipher itself comes from the crate \<^verbatim>\<open>aes\<close> and the CMAC from the crate \<^verbatim>\<open>cmac\<close>: they are the arguments
  \<open>enc\<close>, \<open>dec\<close> and \<open>cmac\<close> of the definitions. A \<^verbatim>\<open>GenericArray<u8, U16>\<close> block is a 128-bit word there,
  which fixes its length; the buffers of the modes are octet lists.
\<close>

section \<open>Blocks\<close>

type_synonym block = "128 word"

datatype AesCipher = Aes128 bytes | Aes192 bytes | Aes256 bytes

type_synonym block_fun = "AesCipher \<Rightarrow> block \<Rightarrow> block"

fun le_octets :: "nat \<Rightarrow> nat \<Rightarrow> bytes" where
  "le_octets 0 n = []"
| "le_octets (Suc k) n = of_nat n # le_octets k (n div 256)"

fun le_nat :: "bytes \<Rightarrow> nat" where
  "le_nat [] = 0"
| "le_nat (b # bs) = unat b + 256 * le_nat bs"

definition block_octets :: "block \<Rightarrow> bytes" where
  "block_octets w = rev (le_octets 16 (unat w))"

definition octets_block :: "bytes \<Rightarrow> block" where
  "octets_block bs = of_nat (le_nat (rev bs))"

lemma length_le_octets [simp]: "length (le_octets k n) = k"
  by (induction k arbitrary: n) simp_all

lemma le_octets_le_nat: "le_octets (length bs) (le_nat bs) = bs"
proof (induction bs)
  case (Cons b bs)
  have "(unat b + 256 * le_nat bs) div 256 = le_nat bs"
    using unsigned_less [of b, where 'a = nat] by simp
  moreover have "(of_nat (256 * le_nat bs) :: u8) = 0"
    by (simp only: word_of_nat_eq_0_iff) simp
  ultimately show ?case using Cons.IH by simp
qed simp

lemma le_nat_le_octets: "le_nat (le_octets k n) = n mod 256 ^ k"
  by (induction k arbitrary: n) (simp_all add: unat_of_nat mod_mult2_eq)

lemma le_nat_bound: "le_nat bs < 256 ^ length bs"
  by (metis le_nat_le_octets le_octets_le_nat length_le_octets mod_less_divisor zero_less_numeral zero_less_power)

lemma length_block_octets [simp]: "length (block_octets w) = 16"
  by (simp add: block_octets_def)

lemma octets_block_octets [simp]: "octets_block (block_octets w) = w"
  using unsigned_less [of w, where 'a = nat]
  by (simp add: octets_block_def block_octets_def le_nat_le_octets)

lemma block_octets_block [simp]:
  assumes "length bs = 16"
  shows "block_octets (octets_block bs) = bs"
proof -
  have "le_nat (rev bs) < 2 ^ 128" using le_nat_bound [of "rev bs"] assms by simp
  then show ?thesis
    using le_octets_le_nat [of "rev bs"] assms
    by (simp add: octets_block_def block_octets_def unat_of_nat)
qed

section \<open>Contexts\<close>

datatype AesError = InvalidKeySize | OutputBufferTooSmall | InvalidInputLength

definition aes_context_new :: "bytes \<Rightarrow> u32 \<Rightarrow> (AesError, AesCipher) outcome" where
  "aes_context_new key keybits =
     (if keybits = 128 then if length key < 16 then Err InvalidKeySize else Ok (Aes128 (take 16 key))
      else if keybits = 192 then if length key < 24 then Err InvalidKeySize else Ok (Aes192 (take 24 key))
      else if keybits = 256 then if length key < 32 then Err InvalidKeySize else Ok (Aes256 (take 32 key))
      else Err InvalidKeySize)"

definition aes_block :: "block_fun \<Rightarrow> AesCipher \<Rightarrow> bytes \<Rightarrow> bytes" where
  "aes_block enc ctx b = block_octets (enc ctx (octets_block b))"

section \<open>CBC\<close>

text \<open>
  The loops over the blocks, for the input from the current position on: they return the chaining
  value they leave and the octets they write, which lie in the output buffer from its start.
\<close>

function cbc_encrypt_loop :: "(bytes \<Rightarrow> bytes) \<Rightarrow> bytes \<Rightarrow> bytes \<Rightarrow> bytes \<times> bytes" where
  "cbc_encrypt_loop enc iv input =
     (if 16 \<le> length input
      then let block = xor_bytes (take 16 input) iv;
               out_block = enc block;
               (iv, out) = cbc_encrypt_loop enc out_block (drop 16 input)
           in (iv, out_block @ out)
      else if input \<noteq> []
      then let block = xor_bytes input (take (length input) iv) @ drop (length input) iv;
               out_block = enc block
           in (out_block, out_block)
      else (iv, []))"
  by pat_completeness auto
termination
  by (relation "measure (\<lambda>(_, _, input). length input)") auto

declare cbc_encrypt_loop.simps [simp del]

text \<open>The result is the length written, the new \<^verbatim>\<open>ivec\<close> and the new contents of \<^verbatim>\<open>output\<close>.\<close>

definition aes_cbc_encrypt ::
  "block_fun \<Rightarrow> bytes \<Rightarrow> u32 \<Rightarrow> bytes \<Rightarrow> bytes \<Rightarrow> bytes \<Rightarrow> (AesError, nat \<times> bytes \<times> bytes) outcome" where
  "aes_cbc_encrypt enc key keybits ivec input output =
     (if input = [] then Ok (0, ivec, output)
      else obind (aes_context_new key keybits) (\<lambda>ctx.
        let outlen = ((length input - 1) div 16 + 1) * 16
        in if length output < outlen then Err OutputBufferTooSmall
           else let (iv, out) = cbc_encrypt_loop (aes_block enc ctx) ivec input
                in Ok (outlen, iv, out @ drop outlen output)))"

function cbc_decrypt_loop :: "(bytes \<Rightarrow> bytes) \<Rightarrow> bytes \<Rightarrow> bytes \<Rightarrow> bytes \<times> bytes" where
  "cbc_decrypt_loop dec iv input =
     (if input = [] then (iv, [])
      else let in_block = take 16 input;
               out_block = xor_bytes (dec in_block) iv;
               (iv, out) = cbc_decrypt_loop dec in_block (drop 16 input)
           in (iv, out_block @ out))"
  by pat_completeness auto
termination
  by (relation "measure (\<lambda>(_, _, input). length input)") auto

declare cbc_decrypt_loop.simps [simp del]

text \<open>
  The branch for separate buffers; the branch for overlapping ones, which safe code cannot reach with
  \<^verbatim>\<open>&[u8]\<close> and \<^verbatim>\<open>&mut [u8]\<close> of the same memory, does the same on a copy of each block.
\<close>

definition aes_cbc_decrypt ::
  "block_fun \<Rightarrow> bytes \<Rightarrow> u32 \<Rightarrow> bytes \<Rightarrow> bytes \<Rightarrow> bytes \<Rightarrow> (AesError, nat \<times> bytes \<times> bytes) outcome" where
  "aes_cbc_decrypt dec key keybits ivec input output =
     (if input = [] then Ok (0, ivec, output)
      else if length input mod 16 \<noteq> 0 then Err InvalidInputLength
      else if length output < length input then Err OutputBufferTooSmall
      else obind (aes_context_new key keybits) (\<lambda>ctx.
        let (iv, out) = cbc_decrypt_loop (aes_block dec ctx) ivec input
        in Ok (length input, iv, out @ drop (length input) output)))"

section \<open>CTR\<close>

text \<open>The loop of \<^verbatim>\<open>ctr128_inc\<close> runs from the last octet to the first, until no carry is left.\<close>

fun ctr_carry :: "u16 \<Rightarrow> bytes \<Rightarrow> bytes" where
  "ctr_carry c [] = []"
| "ctr_carry c (b # bs) =
     (let c = c + ucast b
      in ucast c # (if drop_bit 8 c = 0 then bs else ctr_carry (drop_bit 8 c) bs))"

definition ctr128_inc :: "bytes \<Rightarrow> bytes" where
  "ctr128_inc counter = rev (ctr_carry 1 (rev counter))"

function ctr_loop :: "(bytes \<Rightarrow> bytes) \<Rightarrow> bytes \<Rightarrow> bytes \<Rightarrow> bytes \<times> bytes" where
  "ctr_loop enc ivec input =
     (if 16 \<le> length input
      then let ecount_buf = enc ivec;
               (iv, out) = ctr_loop enc (ctr128_inc ivec) (drop 16 input)
           in (iv, xor_bytes (take 16 input) ecount_buf @ out)
      else if input \<noteq> []
      then let ecount_buf = enc ivec
           in (ctr128_inc ivec, xor_bytes input (take (length input) ecount_buf))
      else (ivec, []))"
  by pat_completeness auto
termination
  by (relation "measure (\<lambda>(_, _, input). length input)") auto

declare ctr_loop.simps [simp del]

definition aes_ctr128_encrypt ::
  "block_fun \<Rightarrow> bytes \<Rightarrow> bytes \<Rightarrow> bytes \<Rightarrow> bytes \<Rightarrow> (AesError, bytes \<times> bytes) outcome" where
  "aes_ctr128_encrypt enc key ivec input output =
     (if input = [] then Ok (ivec, output)
      else if length output < length input then Err OutputBufferTooSmall
      else obind (aes_context_new key 128) (\<lambda>ctx.
        let (iv, out) = ctr_loop (aes_block enc ctx) ivec input
        in Ok (iv, out @ drop (length input) output)))"

section \<open>CMAC verification\<close>

datatype CmacError = InvalidCmac

definition aes_cmac_calculate :: "(bytes \<Rightarrow> bytes \<Rightarrow> block) \<Rightarrow> bytes \<Rightarrow> bytes \<Rightarrow> bytes" where
  "aes_cmac_calculate cmac key msg = block_octets (cmac key msg)"

definition aes_cmac_verify ::
  "(bytes \<Rightarrow> bytes \<Rightarrow> block) \<Rightarrow> bytes \<Rightarrow> bytes \<Rightarrow> bytes \<Rightarrow> (CmacError, unit) outcome" where
  "aes_cmac_verify cmac tag key msg =
     (let calculated = aes_cmac_calculate cmac key msg;
          diff = fold (\<lambda>i diff. diff OR (calculated ! i XOR tag ! i)) [0..<16] 0
      in if diff = 0 then Ok () else Err InvalidCmac)"

section \<open>The counter\<close>

lemma length_ctr_carry [simp]: "length (ctr_carry c bs) = length bs"
  by (induction c bs rule: ctr_carry.induct) (simp_all add: Let_def)

lemma le_nat_ctr_carry:
  "unat c \<le> 1 \<Longrightarrow> le_nat (ctr_carry c bs) = (le_nat bs + unat c) mod 256 ^ length bs"
proof (induction c bs rule: ctr_carry.induct)
  case (2 c b bs)
  define s where "s = c + (ucast b :: u16)"
  have b: "unat b < 256" using unsigned_less [of b, where 'a = nat] by simp
  then have s: "unat s = unat b + unat c" using 2(2) 
    by (simp add: s_def unat_word_ariths unsigned_ucast_eq take_bit_eq_mod)
  have lo: "unat (ucast s :: u8) = (unat b + unat c) mod 256"
    by (simp add: unsigned_ucast_eq take_bit_eq_mod s)
  have hi: "unat (drop_bit 8 s) = (unat b + unat c) div 256" by (simp add: unat_drop_bit_div s)
  have digit: "(unat b + 256 * v + unat c) mod 256 ^ Suc n =
      (unat b + unat c) mod 256 + 256 * ((v + (unat b + unat c) div 256) mod 256 ^ n)" for v n
  proof -
    have "unat b + 256 * v + unat c = (unat b + unat c) + 256 * v" by simp
    then show ?thesis
      by (simp only: power_Suc mod_mult2_eq div_mult_self2 mod_mult_self2)
  qed
  have "le_nat (if drop_bit 8 s = 0 then bs else ctr_carry (drop_bit 8 s) bs) =
      (le_nat bs + unat (drop_bit 8 s)) mod 256 ^ length bs"
  proof (cases "drop_bit 8 s = 0")
    case True
    then show ?thesis using le_nat_bound [of bs] by simp
  next
    case False
    moreover have "unat (drop_bit 8 s) \<le> 1" using b 2(2) unfolding hi by simp
    ultimately show ?thesis using 2(1) [OF s_def] by simp
  qed
  then show ?case
    using digit [of "le_nat bs" "length bs"] lo hi by (simp add: Let_def flip: s_def)
qed simp

lemma length_ctr128_inc [simp]: "length (ctr128_inc c) = length c"
  by (simp add: ctr128_inc_def)

lemma ctr128_inc_block:
  assumes "length c = 16"
  shows "octets_block (ctr128_inc c) = octets_block c + 1"
proof -
  have "le_nat (ctr_carry 1 (rev c)) = (le_nat (rev c) + 1) mod 2 ^ 128"
    using le_nat_ctr_carry [of 1 "rev c"] assms by simp
  then have "(of_nat (le_nat (ctr_carry 1 (rev c))) :: block) = of_nat (le_nat (rev c) + 1)"
    by (simp only: word_of_nat_eq_iff) (simp add: take_bit_eq_mod)
  then show ?thesis by (simp add: octets_block_def ctr128_inc_def)
qed

lemma ctr128_inc_iter: "length c = 16 \<Longrightarrow> octets_block ((ctr128_inc ^^ n) c) = octets_block c + of_nat n"
proof (induction n)
  case (Suc n)
  have "length ((ctr128_inc ^^ n) c) = 16" using Suc.prems by (induction n) simp_all
  with Suc show ?case by (simp add: ctr128_inc_block)
qed simp

section \<open>CTR is a stream cipher\<close>

lemma length_aes_block [simp]: "length (aes_block enc ctx b) = 16"
  by (simp add: aes_block_def)

function ctr_stream :: "(bytes \<Rightarrow> bytes) \<Rightarrow> bytes \<Rightarrow> nat \<Rightarrow> bytes" where
  "ctr_stream enc iv n = (if n = 0 then [] else take n (enc iv) @ ctr_stream enc (ctr128_inc iv) (n - 16))"
  by pat_completeness auto
termination
  by (relation "measure (\<lambda>(_, _, n). n)") auto

declare ctr_stream.simps [simp del]

lemma ctr_stream_0 [simp]: "ctr_stream enc iv 0 = []"
  by (simp add: ctr_stream.simps)

lemma ctr_stream_length: "(\<And>b. length (enc b) = 16) \<Longrightarrow> length (ctr_stream enc iv n) = n"
proof (induction enc iv n rule: ctr_stream.induct)
  case (1 enc iv n)
  then show ?case by (cases "n = 0") (auto simp: ctr_stream.simps [of enc iv n])
qed

lemma ctr_stream_prefix:
  "(\<And>b. length (enc b) = 16) \<Longrightarrow> i \<le> n \<Longrightarrow> take i (ctr_stream enc iv n) = ctr_stream enc iv i"
proof (induction enc iv n arbitrary: i rule: ctr_stream.induct)
  case (1 enc iv n)
  show ?case
  proof (cases "i = 0")
    case False
    then have "n \<noteq> 0" and "i - 16 \<le> n - 16" using 1(3) by auto
    then show ?thesis using False 1(1) [OF \<open>n \<noteq> 0\<close> 1(2) \<open>i - 16 \<le> n - 16\<close>] 1(2,3)
      by (cases "i \<le> 16") (simp_all add: ctr_stream.simps [of enc iv n] ctr_stream.simps [of enc iv i] min_def)
  qed simp
qed

lemma xor_bytes_append:
  "length a = length k \<Longrightarrow> xor_bytes (a @ b) (k @ l) = xor_bytes a k @ xor_bytes b l"
  by (simp add: xor_bytes_def zip_append)

lemma ctr_loop_stream:
  "(\<And>b. length (enc b) = 16) \<Longrightarrow>
     snd (ctr_loop enc iv input) = xor_bytes input (ctr_stream enc iv (length input))"
proof (induction enc iv input rule: ctr_loop.induct)
  case (1 enc iv input)
  consider "input = []" | "input \<noteq> []" "length input < 16" | "16 \<le> length input" by linarith
  then show ?case
  proof cases
    case 3
    then have "snd (ctr_loop enc iv input) = xor_bytes (take 16 input) (enc iv) @
        xor_bytes (drop 16 input) (ctr_stream enc (ctr128_inc iv) (length input - 16))"
      using 1(1) [OF 3 refl 1(2)] by (simp add: ctr_loop.simps [of enc iv input] Let_def split_beta)
    also have "\<dots> = xor_bytes (take 16 input @ drop 16 input)
        (enc iv @ ctr_stream enc (ctr128_inc iv) (length input - 16))"
      using 3 1(2) by (intro xor_bytes_append [symmetric]) simp
    also have "\<dots> = xor_bytes input (ctr_stream enc iv (length input))"
      using 3 1(2) by (auto simp: ctr_stream.simps [of enc iv "length input"])
    finally show ?thesis .
  qed (auto simp: ctr_loop.simps [of enc iv] ctr_stream.simps [of enc iv] Let_def xor_bytes_def)
qed

definition ctr_octet_stream :: "block_fun \<times> bytes \<times> bytes \<Rightarrow> nat \<Rightarrow> bytes" where
  "ctr_octet_stream = (\<lambda>(enc, key, iv) n. ctr_stream (aes_block enc (Aes128 (take 16 key))) iv n)"

lemma aes_ctr128_octets:
  assumes "length key = 16" and "length output = length input"
  shows "\<exists>iv'. aes_ctr128_encrypt enc key iv input output =
    Ok (iv', xor_bytes input (ctr_octet_stream (enc, key, iv) (length input)))"
proof (cases "input = []")
  case True
  then show ?thesis using assms by (simp add: aes_ctr128_encrypt_def xor_bytes_def)
next
  case False
  let ?ctx = "Aes128 (take 16 key)"
  obtain iv' out where loop: "ctr_loop (aes_block enc ?ctx) iv input = (iv', out)" by fastforce
  with ctr_loop_stream [of "aes_block enc ?ctx" iv input]
  have "out = xor_bytes input (ctr_octet_stream (enc, key, iv) (length input))"
    by (simp add: ctr_octet_stream_def)
  then show ?thesis using False assms loop
    by (simp add: aes_ctr128_encrypt_def aes_context_new_def)
qed

interpretation ctr: xor_cipher
  "\<lambda>(enc, key, iv) m. case aes_ctr128_encrypt enc key iv m (replicate (length m) 0) of Ok (_, c) \<Rightarrow> c | _ \<Rightarrow> []"
  ctr_octet_stream "\<lambda>(enc, key, iv). length key = 16 \<and> length iv = 16" "\<lambda>_. True"
proof
  fix k :: "block_fun \<times> bytes \<times> bytes" and m
  assume "case k of (enc, key, iv) \<Rightarrow> length key = 16 \<and> length iv = 16"
  then obtain enc key iv where k: "k = (enc, key, iv)" and "length key = 16" by auto
  then show "(case k of (enc, key, iv) \<Rightarrow> \<lambda>m. case aes_ctr128_encrypt enc key iv m (replicate (length m) 0) of
      Ok (_, c) \<Rightarrow> c | _ \<Rightarrow> []) m = xor_bytes m (ctr_octet_stream k (length m))"
    using aes_ctr128_octets [of key "replicate (length m) 0" m enc iv] by auto
qed (auto simp: ctr_octet_stream_def ctr_stream_length ctr_stream_prefix)

section \<open>CBC round trip\<close>

definition zero_pad :: "bytes \<Rightarrow> bytes" where
  "zero_pad m = m @ replicate ((16 - length m mod 16) mod 16) 0"

lemma zero_pad_block: "16 \<le> length m \<Longrightarrow> zero_pad m = take 16 m @ zero_pad (drop 16 m)"
  by (simp add: zero_pad_def le_mod_geq)

lemma zero_pad_short:
  "m \<noteq> [] \<Longrightarrow> length m < 16 \<Longrightarrow> zero_pad m = m @ replicate (16 - length m) 0"
  by (cases m) (simp_all add: zero_pad_def)

lemma length_zero_pad: "m \<noteq> [] \<Longrightarrow> length (zero_pad m) = ((length m - 1) div 16 + 1) * 16"
proof -
  assume "m \<noteq> []"
  define q r where "q = (length m - 1) div 16" and "r = (length m - 1) mod 16"
  have "16 * q + r = length m - 1" and "r < 16" by (simp_all add: q_def r_def)
  then have len: "length m = (r + 1) + 16 * q" using \<open>m \<noteq> []\<close> by (cases m) simp_all
  then have "length m mod 16 = (r + 1) mod 16" by (simp only: mod_mult_self2)
  with len \<open>r < 16\<close> have "length m + (16 - length m mod 16) mod 16 = (q + 1) * 16"
    by (cases "r = 15") simp_all
  then show ?thesis by (simp add: zero_pad_def q_def)
qed

lemma partial_block:
  assumes "length iv = 16" and "length m \<le> 16"
  shows "xor_bytes (xor_bytes m (take (length m) iv) @ drop (length m) iv) iv =
           m @ replicate (16 - length m) 0"
proof (rule nth_equalityI)
  fix i
  assume "i < length (xor_bytes (xor_bytes m (take (length m) iv) @ drop (length m) iv) iv)"
  then have "i < 16" using assms by simp
  then show "xor_bytes (xor_bytes m (take (length m) iv) @ drop (length m) iv) iv ! i =
      (m @ replicate (16 - length m) 0) ! i"
    using assms by (simp add: xor_bytes_nth nth_append ac_simps)
qed (use assms in simp)

lemma cbc_loop_roundtrip:
  assumes "length iv = 16" and "\<And>b. length (enc b) = 16" and "\<And>b. length b = 16 \<Longrightarrow> dec (enc b) = b"
  shows "cbc_decrypt_loop dec iv (snd (cbc_encrypt_loop enc iv m)) =
           (fst (cbc_encrypt_loop enc iv m), zero_pad m)"
  using assms
proof (induction enc iv m rule: cbc_encrypt_loop.induct)
  case (1 enc iv m)
  have dec_block: "cbc_decrypt_loop dec iv (enc b @ rest) =
      (let (iv', out) = cbc_decrypt_loop dec (enc b) rest in (iv', xor_bytes b iv @ out))"
    if "length b = 16" for b rest
  proof -
    have "enc b \<noteq> []" using 1(3) [of b] by auto
    then show ?thesis
      using 1(3,4) that by (simp add: cbc_decrypt_loop.simps [of dec iv "enc b @ rest"] Let_def)
  qed
  consider "m = []" | "m \<noteq> []" "length m < 16" | "16 \<le> length m" by linarith
  then show ?case
  proof cases
    case 1
    then show ?thesis
      by (simp add: cbc_encrypt_loop.simps [of enc iv] cbc_decrypt_loop.simps [of dec iv] zero_pad_def)
  next
    case 2
    let ?b = "xor_bytes m (take (length m) iv) @ drop (length m) iv"
    have "cbc_encrypt_loop enc iv m = (enc ?b, enc ?b)"
      using 2 by (simp add: cbc_encrypt_loop.simps [of enc iv m] Let_def)
    moreover have "length ?b = 16" using 2 1(2) by simp
    ultimately show ?thesis
      using dec_block [of ?b "[]"] partial_block [OF 1(2), of m] 2
      by (simp add: zero_pad_short cbc_decrypt_loop.simps [of dec "enc ?b" "[]"])
  next
    case 3
    let ?b = "xor_bytes (take 16 m) iv"
    have b: "length ?b = 16" using 3 1(2) by simp
    have "cbc_encrypt_loop enc iv m =
        (let (iv', out) = cbc_encrypt_loop enc (enc ?b) (drop 16 m) in (iv', enc ?b @ out))"
      using 3 by (simp add: cbc_encrypt_loop.simps [of enc iv m] Let_def)
    moreover have "xor_bytes ?b iv = take 16 m" using 3 1(2) by (simp add: xor_bytes_involution)
    ultimately show ?thesis
      using dec_block [OF b] 1(1) [OF 3 refl refl 1(3) 1(3,4)] zero_pad_block [OF 3]
      by (simp add: split_beta Let_def)
  qed
qed

lemma cbc_encrypt_loop_length:
  "(\<And>b. length (enc b) = 16) \<Longrightarrow> length (snd (cbc_encrypt_loop enc iv m)) = length (zero_pad m)"
proof (induction enc iv m rule: cbc_encrypt_loop.induct)
  case (1 enc iv m)
  consider "m = []" | "m \<noteq> []" "length m < 16" | "16 \<le> length m" by linarith
  then show ?case
  proof cases
    case 3
    then show ?thesis
      using 1(1) [OF 3 refl refl 1(2)] 1(2) zero_pad_block [OF 3]
      by (simp add: cbc_encrypt_loop.simps [of enc iv m] split_beta Let_def)
  qed (auto simp: cbc_encrypt_loop.simps [of enc iv] Let_def 1(2) zero_pad_short zero_pad_def)
qed

section \<open>Properties\<close>

text \<open>
  CBC round trip, for every key size the contexts accept. With a block cipher whose decryption
  inverts its encryption, encrypting a nonempty message writes \<open>n\<close> octets, the message rounded up to
  whole blocks; decrypting them with the same key and initial vector succeeds and gives the message
  followed by zero octets up to the block boundary, and both leave the same chaining value. So the
  padding is zero padding: the length of the message has to be known otherwise.
\<close>

lemma aes_cbc_roundtrip:
  assumes "aes_context_new key keybits = Ok ctx" and "\<And>b. dec ctx (enc ctx b) = b"
    and "length iv = 16" and "m \<noteq> []"
    and "length (zero_pad m) \<le> length out1" and "length (zero_pad m) \<le> length out2"
  shows "\<exists>iv' c. length c = length (zero_pad m) \<and>
    aes_cbc_encrypt enc key keybits iv m out1 =
      Ok (length (zero_pad m), iv', c @ drop (length (zero_pad m)) out1) \<and>
    aes_cbc_decrypt dec key keybits iv c out2 =
      Ok (length (zero_pad m), iv', zero_pad m @ drop (length (zero_pad m)) out2)"
proof -
  obtain iv' c where loop: "cbc_encrypt_loop (aes_block enc ctx) iv m = (iv', c)" by fastforce
  have len: "length c = length (zero_pad m)"
    using cbc_encrypt_loop_length [of "aes_block enc ctx" iv m] loop by simp
  have "cbc_decrypt_loop (aes_block dec ctx) iv c = (iv', zero_pad m)"
    using cbc_loop_roundtrip [OF assms(3), of "aes_block enc ctx" "aes_block dec ctx" m] loop assms(2)
    by (simp add: aes_block_def)
  moreover have "c \<noteq> []" and "length c mod 16 = 0"
    using len length_zero_pad [OF assms(4)] by auto
  ultimately have "aes_cbc_decrypt dec key keybits iv c out2 =
      Ok (length (zero_pad m), iv', zero_pad m @ drop (length (zero_pad m)) out2)"
    using assms(1,6) len by (simp add: aes_cbc_decrypt_def)
  moreover have "aes_cbc_encrypt enc key keybits iv m out1 =
      Ok (length (zero_pad m), iv', c @ drop (length (zero_pad m)) out1)"
    using assms(1,4,5) loop length_zero_pad [OF assms(4)] by (simp add: aes_cbc_encrypt_def Let_def)
  ultimately show ?thesis using len by blast
qed

text \<open>
  The counter of CTR mode is a 128-bit big-endian counter: \<open>n\<close> increments of a sixteen-octet block
  add \<open>n\<close> modulo \<open>2 ^ 128\<close>, whatever carries they cause, so the key stream blocks of a message of less
  than \<open>2 ^ 128\<close> blocks come from pairwise different counter values.
\<close>

lemma ctr128_counter:
  assumes "length c = 16"
  shows "octets_block ((ctr128_inc ^^ n) c) = octets_block c + of_nat n \<and>
    inj_on (\<lambda>i. octets_block ((ctr128_inc ^^ i) c)) {..<2 ^ 128}"
proof
  show "octets_block ((ctr128_inc ^^ n) c) = octets_block c + of_nat n"
    using assms by (rule ctr128_inc_iter)
  show "inj_on (\<lambda>i. octets_block ((ctr128_inc ^^ i) c)) {..<2 ^ 128}"
  proof (rule inj_onI)
    fix i j :: nat
    assume "i \<in> {..<2 ^ 128}" and "j \<in> {..<2 ^ 128}"
      and "octets_block ((ctr128_inc ^^ i) c) = octets_block ((ctr128_inc ^^ j) c)"
    then show "i = j"
      by (simp add: ctr128_inc_iter [OF assms] word_of_nat_eq_iff take_bit_eq_mod)
  qed
qed

end
