(* ===== verification/Secure_Channel.thy ===== *)
theory Secure_Channel
  imports Prelude
begin

text \<open>
  Interface of a counted channel over a transport that may lose frames: a sender and a receiver whose
  states are in step as long as fewer than \<open>window\<close> frames in a row are lost. \<open>synced n g\<close> says that
  the two ends agree, that \<open>n\<close> more messages can be sent before the counter is used up, and that the
  last \<open>g\<close> frames were lost. NAS security is an instance.
\<close>

text \<open>A session: messages with whether their frame arrives. The receiver's results, in order.\<close>

fun run_session ::
  "('tx \<Rightarrow> 'm \<Rightarrow> 'tx \<times> ('e, 'f) outcome) \<Rightarrow> ('rx \<Rightarrow> 'f \<Rightarrow> 'rx \<times> ('e, 'm) outcome) \<Rightarrow>
     'tx \<Rightarrow> 'rx \<Rightarrow> ('m \<times> bool) list \<Rightarrow> ('e, 'm) outcome list" where
  "run_session send recv tx rx [] = []"
| "run_session send recv tx rx ((m, delivered) # es) =
     (case send tx m of
        (tx', Ok f) \<Rightarrow>
          if delivered
          then (case recv rx f of (rx', r) \<Rightarrow> r # run_session send recv tx' rx' es)
          else run_session send recv tx' rx es
      | (tx', Err e) \<Rightarrow> Err e # run_session send recv tx' rx es
      | (tx', Panic) \<Rightarrow> [Panic])"

text \<open>No more than \<open>w\<close> frames are lost in a row, \<open>g\<close> of them before the session starts.\<close>

fun losses_within :: "nat \<Rightarrow> nat \<Rightarrow> ('m \<times> bool) list \<Rightarrow> bool" where
  "losses_within w g [] \<longleftrightarrow> True"
| "losses_within w g ((m, delivered) # es) \<longleftrightarrow>
     (if delivered then losses_within w 0 es else g < w \<and> losses_within w (Suc g) es)"

locale secure_channel =
  fixes send :: "'tx \<Rightarrow> 'm \<Rightarrow> 'tx \<times> ('e, 'f) outcome"
    and recv :: "'rx \<Rightarrow> 'f \<Rightarrow> 'rx \<times> ('e, 'm) outcome"
    and synced :: "nat \<Rightarrow> nat \<Rightarrow> 'tx \<Rightarrow> 'rx \<Rightarrow> bool"
    and fits :: "'m \<Rightarrow> bool"
    and window :: nat
  assumes send_ok: "synced (Suc n) g tx rx \<Longrightarrow> fits m \<Longrightarrow> \<exists>tx' f. send tx m = (tx', Ok f)"
    and lost: "synced (Suc n) g tx rx \<Longrightarrow> fits m \<Longrightarrow> send tx m = (tx', Ok f) \<Longrightarrow> g < window \<Longrightarrow>
      synced n (Suc g) tx' rx"
    and delivered: "synced (Suc n) g tx rx \<Longrightarrow> fits m \<Longrightarrow> send tx m = (tx', Ok f) \<Longrightarrow>
      \<exists>rx'. recv rx f = (rx', Ok m) \<and> synced n 0 tx' rx'"
begin

lemma session_delivers:
  "synced n g tx rx \<Longrightarrow> length es \<le> n \<Longrightarrow> (\<And>m d. (m, d) \<in> set es \<Longrightarrow> fits m) \<Longrightarrow>
     losses_within window g es \<Longrightarrow>
     run_session send recv tx rx es = map (\<lambda>(m, _). Ok m) (filter snd es)"
proof (induction es arbitrary: n g tx rx)
  case (Cons e es)
  obtain m d where e: "e = (m, d)" by fastforce
  obtain k where n: "n = Suc k" using Cons.prems(2) by (cases n) auto
  have "fits m" using Cons.prems(3) [of m d] e by simp
  obtain tx' f where send: "send tx m = (tx', Ok f)"
    using send_ok Cons.prems(1) \<open>fits m\<close> n by blast
  show ?case
  proof (cases d)
    case True
    obtain rx' where "recv rx f = (rx', Ok m)" and "synced k 0 tx' rx'"
      using delivered send Cons.prems(1) \<open>fits m\<close> n by blast
    moreover from this have "run_session send recv tx' rx' es = map (\<lambda>(m, _). Ok m) (filter snd es)"
      using Cons.prems(2-4) e n True by (intro Cons.IH [of k 0]) auto
    ultimately show ?thesis using send e True by simp
  next
    case False
    then have "synced k (Suc g) tx' rx"
      using lost send Cons.prems(1,4) \<open>fits m\<close> n e by simp
    then have "run_session send recv tx' rx es = map (\<lambda>(m, _). Ok m) (filter snd es)"
      using Cons.prems(2-4) e n False by (intro Cons.IH [of k "Suc g"]) auto
    then show ?thesis using send e False by simp
  qed
qed simp

end

end
