(* ===== verification/Nas_Security.thy ===== *)
theory Nas_Security
  imports Snow3g Zuc Aes_Modes Secure_Channel
begin

text \<open>
  NAS security (\<^verbatim>\<open>libs/nextgcore-nas/src/common/security.rs\<close>, with \<^verbatim>\<open>SecurityAlgorithms\<close> of
  \<^verbatim>\<open>common/types.rs\<close> and \<^verbatim>\<open>NasError\<close> of \<^verbatim>\<open>error.rs\<close>): the NAS COUNT and its estimation from the
  sequence number octet, message authentication with 128-NIA1 to 128-NIA3, ciphering with 128-NEA1 to
  128-NEA3, and the protection and verification of NAS messages. A method with \<^verbatim>\<open>&mut\<close> context returns
  the new context beside its result. AES and CMAC are the arguments \<open>aes\<close> and \<open>cmac\<close>.
\<close>

section \<open>Errors and algorithms\<close>

datatype NasError =
    BufferTooShort nat nat
  | InvalidMessageType u8
  | InvalidProtocolDiscriminator u8
  | InvalidSecurityHeaderType u8
  | InvalidIeType u8
  | InvalidIeLength nat nat
  | MissingMandatoryIe string
  | InvalidMobileIdentityType u8
  | InvalidRegistrationType u8
  | EncodingError string
  | DecodingError string
  | SecurityError string
  | MacVerificationFailed
  | ReplayedSequenceNumber

record SecurityAlgorithms =
  ciphering :: u8
  integrity :: u8

abbreviation (input) CIPHERING_NONE :: u8 where "CIPHERING_NONE \<equiv> 0"
abbreviation (input) CIPHERING_128_EEA1 :: u8 where "CIPHERING_128_EEA1 \<equiv> 1"
abbreviation (input) CIPHERING_128_EEA2 :: u8 where "CIPHERING_128_EEA2 \<equiv> 2"
abbreviation (input) CIPHERING_128_EEA3 :: u8 where "CIPHERING_128_EEA3 \<equiv> 3"
abbreviation (input) INTEGRITY_NONE :: u8 where "INTEGRITY_NONE \<equiv> 0"
abbreviation (input) INTEGRITY_128_EIA1 :: u8 where "INTEGRITY_128_EIA1 \<equiv> 1"
abbreviation (input) INTEGRITY_128_EIA2 :: u8 where "INTEGRITY_128_EIA2 \<equiv> 2"
abbreviation (input) INTEGRITY_128_EIA3 :: u8 where "INTEGRITY_128_EIA3 \<equiv> 3"

definition security_algorithms_new :: "u8 \<Rightarrow> u8 \<Rightarrow> SecurityAlgorithms" where
  "security_algorithms_new c i = \<lparr>ciphering = c AND 0x0F, integrity = i AND 0x0F\<rparr>"

definition security_algorithms_encode :: "SecurityAlgorithms \<Rightarrow> u8" where
  "security_algorithms_encode a = push_bit 4 (ciphering a AND 0x0F) OR (integrity a AND 0x0F)"

definition security_algorithms_decode :: "u8 \<Rightarrow> SecurityAlgorithms" where
  "security_algorithms_decode b = \<lparr>ciphering = drop_bit 4 b AND 0x0F, integrity = b AND 0x0F\<rparr>"

section \<open>NAS COUNT\<close>

record NasCount =
  overflow :: u32
  sqn :: u8

definition nas_count_new :: "u32 \<Rightarrow> u8 \<Rightarrow> NasCount" where
  "nas_count_new ov s = \<lparr>overflow = ov AND 0x00FFFFFF, sqn = s\<rparr>"

definition nas_count_value :: "NasCount \<Rightarrow> u32" where
  "nas_count_value c = push_bit 8 (overflow c AND 0x00FFFFFF) OR ucast (sqn c)"

definition nas_count_increment :: "NasCount \<Rightarrow> NasCount" where
  "nas_count_increment c =
     (if sqn c = 255 then c\<lparr>sqn := 0, overflow := (overflow c + 1) AND 0x00FFFFFF\<rparr>
      else c\<lparr>sqn := sqn c + 1\<rparr>)"

definition nas_count_set_sqn :: "u8 \<Rightarrow> NasCount \<Rightarrow> NasCount" where
  "nas_count_set_sqn s c =
     (let c = (if s < sqn c then c\<lparr>overflow := (overflow c + 1) AND 0x00FFFFFF\<rparr> else c)
      in c\<lparr>sqn := s\<rparr>)"

definition FORWARD_WINDOW :: u8 where
  "FORWARD_WINDOW = 128"

definition nas_count_estimate :: "NasCount \<Rightarrow> u8 \<Rightarrow> NasCount" where
  "nas_count_estimate c s =
     (let fwd = s - sqn c;
          ov = (if fwd = 0 then overflow c
                else if fwd \<le> FORWARD_WINDOW
                then if s < sqn c then (overflow c + 1) AND 0x00FFFFFF else overflow c
                else if s > sqn c \<and> overflow c > 0 then (overflow c - 1) AND 0x00FFFFFF
                else overflow c)
      in \<lparr>overflow = ov, sqn = s\<rparr>)"

section \<open>Security context\<close>

record NasSecurityContext =
  algorithms :: SecurityAlgorithms
  knas_enc :: bytes
  knas_int :: bytes
  dl_count :: NasCount
  ul_count :: NasCount
  dl_established :: bool
  ul_established :: bool

definition nas_context_new :: "SecurityAlgorithms \<Rightarrow> bytes \<Rightarrow> bytes \<Rightarrow> NasSecurityContext" where
  "nas_context_new algs kenc kint =
     \<lparr>algorithms = algs, knas_enc = kenc, knas_int = kint,
      dl_count = \<lparr>overflow = 0, sqn = 0\<rparr>, ul_count = \<lparr>overflow = 0, sqn = 0\<rparr>,
      dl_established = False, ul_established = False\<rparr>"

type_synonym cmac_fun = "bytes \<Rightarrow> bytes \<Rightarrow> block"

definition calculate_mac_nia1 ::
  "NasSecurityContext \<Rightarrow> u8 \<Rightarrow> u8 \<Rightarrow> u32 \<Rightarrow> bytes \<Rightarrow> (NasError, bytes) outcome" where
  "calculate_mac_nia1 ctx direction bearer count message =
     Ok (snow_3g_f9 (knas_int ctx) count (push_bit 27 (ucast bearer)) (ucast direction) message
           (of_nat (length message * 8)))"

definition calculate_mac_nia2 ::
  "cmac_fun \<Rightarrow> NasSecurityContext \<Rightarrow> u8 \<Rightarrow> u8 \<Rightarrow> u32 \<Rightarrow> bytes \<Rightarrow> (NasError, bytes) outcome" where
  "calculate_mac_nia2 cmac ctx direction bearer count message =
     (let input = to_be32 count @ [push_bit 3 bearer OR push_bit 2 (direction AND 0x01)] @ [0, 0, 0] @ message;
          mac_full = aes_cmac_calculate cmac (knas_int ctx) input
      in Ok (take 4 mac_full))"

definition calculate_mac_nia3 ::
  "NasSecurityContext \<Rightarrow> u8 \<Rightarrow> u8 \<Rightarrow> u32 \<Rightarrow> bytes \<Rightarrow> (NasError, bytes) outcome" where
  "calculate_mac_nia3 ctx direction bearer count message =
     obind (zuc_eia3 (knas_int ctx) count (ucast bearer) (ucast direction)
              (of_nat (length message * 8)) message) (\<lambda>mac_u32. Ok (to_be32 mac_u32))"

definition calculate_mac ::
  "cmac_fun \<Rightarrow> NasSecurityContext \<Rightarrow> u8 \<Rightarrow> u8 \<Rightarrow> u32 \<Rightarrow> bytes \<Rightarrow> (NasError, bytes) outcome" where
  "calculate_mac cmac ctx direction bearer count message =
     (let alg = integrity (algorithms ctx)
      in if alg = INTEGRITY_NONE then Ok [0, 0, 0, 0]
         else if alg = INTEGRITY_128_EIA1 then calculate_mac_nia1 ctx direction bearer count message
         else if alg = INTEGRITY_128_EIA2 then calculate_mac_nia2 cmac ctx direction bearer count message
         else if alg = INTEGRITY_128_EIA3 then calculate_mac_nia3 ctx direction bearer count message
         else Err (SecurityError (''Unsupported integrity algorithm: '' @ show_nat (unat alg))))"

definition cipher_nea1 ::
  "NasSecurityContext \<Rightarrow> u8 \<Rightarrow> u8 \<Rightarrow> u32 \<Rightarrow> bytes \<Rightarrow> (NasError, bytes) outcome" where
  "cipher_nea1 ctx direction bearer count message =
     Ok (snow_3g_f8 (knas_enc ctx) count (ucast bearer) (ucast direction)
           (of_nat (length message * 8)) message)"

fun aes_error_debug :: "AesError \<Rightarrow> string" where
  "aes_error_debug InvalidKeySize = ''InvalidKeySize''"
| "aes_error_debug OutputBufferTooSmall = ''OutputBufferTooSmall''"
| "aes_error_debug InvalidInputLength = ''InvalidInputLength''"

definition cipher_nea2 ::
  "block_fun \<Rightarrow> NasSecurityContext \<Rightarrow> u8 \<Rightarrow> u8 \<Rightarrow> u32 \<Rightarrow> bytes \<Rightarrow> (NasError, bytes) outcome" where
  "cipher_nea2 aes ctx direction bearer count message =
     (let iv = to_be32 count @ [push_bit 3 bearer OR push_bit 2 (direction AND 0x01)] @ replicate 11 0
      in case aes_ctr128_encrypt aes (knas_enc ctx) iv message (replicate (length message) 0) of
           Ok (_, output) \<Rightarrow> Ok output
         | Err e \<Rightarrow> Err (SecurityError (''AES-CTR error: '' @ aes_error_debug e))
         | Panic \<Rightarrow> Panic)"

definition cipher_nea3 ::
  "NasSecurityContext \<Rightarrow> u8 \<Rightarrow> u8 \<Rightarrow> u32 \<Rightarrow> bytes \<Rightarrow> (NasError, bytes) outcome" where
  "cipher_nea3 ctx direction bearer count message =
     zuc_eea3 (knas_enc ctx) count (ucast bearer) (ucast direction)
       (of_nat (length message * 8)) message (replicate (length message) 0)"

definition cipher ::
  "block_fun \<Rightarrow> NasSecurityContext \<Rightarrow> u8 \<Rightarrow> u8 \<Rightarrow> u32 \<Rightarrow> bytes \<Rightarrow> (NasError, bytes) outcome" where
  "cipher aes ctx direction bearer count message =
     (let alg = ciphering (algorithms ctx)
      in if alg = CIPHERING_NONE then Ok message
         else if alg = CIPHERING_128_EEA1 then cipher_nea1 ctx direction bearer count message
         else if alg = CIPHERING_128_EEA2 then cipher_nea2 aes ctx direction bearer count message
         else if alg = CIPHERING_128_EEA3 then cipher_nea3 ctx direction bearer count message
         else Err (SecurityError (''Unsupported ciphering algorithm: '' @ show_nat (unat alg))))"

section \<open>Protecting and verifying messages\<close>

definition protect_nas_message ::
  "block_fun \<Rightarrow> cmac_fun \<Rightarrow> NasSecurityContext \<Rightarrow> u8 \<Rightarrow> bytes \<Rightarrow> bool \<Rightarrow>
     NasSecurityContext \<times> (NasError, bytes) outcome" where
  "protect_nas_message aes cmac ctx direction message ciphered =
     (let count = nas_count_value (if direction = 0 then ul_count ctx else dl_count ctx);
          bearer = 1
      in case (if ciphered then cipher aes ctx direction bearer count message else Ok message) of
           Err e \<Rightarrow> (ctx, Err e)
         | Panic \<Rightarrow> (ctx, Panic)
         | Ok protected_message \<Rightarrow>
             let sn = sqn (if direction = 0 then ul_count ctx else dl_count ctx);
                 mac_input = sn # protected_message
             in case calculate_mac cmac ctx direction bearer count mac_input of
                  Err e \<Rightarrow> (ctx, Err e)
                | Panic \<Rightarrow> (ctx, Panic)
                | Ok mac \<Rightarrow>
                    (if direction = 0 then ctx\<lparr>ul_count := nas_count_increment (ul_count ctx)\<rparr>
                     else ctx\<lparr>dl_count := nas_count_increment (dl_count ctx)\<rparr>,
                     Ok (mac @ [sn] @ protected_message)))"

definition unprotect_nas_message ::
  "block_fun \<Rightarrow> cmac_fun \<Rightarrow> NasSecurityContext \<Rightarrow> u8 \<Rightarrow> bytes \<Rightarrow> bool \<Rightarrow>
     NasSecurityContext \<times> (NasError, bytes) outcome" where
  "unprotect_nas_message aes cmac ctx direction message ciphered =
     (if length message < 5 then (ctx, Err (BufferTooShort 5 (length message)))
      else
        let received_mac = take 4 message;
            s = message ! 4;
            protected_message = drop 5 message;
            stored = (if direction = 0 then ul_count ctx else dl_count ctx);
            established = (if direction = 0 then ul_established ctx else dl_established ctx);
            candidate = nas_count_estimate stored s;
            count = nas_count_value candidate;
            bearer = 1;
            mac_input = drop 4 message
        in case calculate_mac cmac ctx direction bearer count mac_input of
             Err e \<Rightarrow> (ctx, Err e)
           | Panic \<Rightarrow> (ctx, Panic)
           | Ok calculated_mac \<Rightarrow>
               if received_mac \<noteq> calculated_mac then (ctx, Err MacVerificationFailed)
               else
                 let integrity_active = (integrity (algorithms ctx) \<noteq> INTEGRITY_NONE)
                 in if established \<and> integrity_active \<and> nas_count_value candidate \<le> nas_count_value stored
                    then (ctx, Err ReplayedSequenceNumber)
                    else
                      let ctx = (if direction = 0
                                 then ctx\<lparr>ul_count := candidate, ul_established := True\<rparr>
                                 else ctx\<lparr>dl_count := candidate, dl_established := True\<rparr>)
                      in (ctx, if ciphered then cipher aes ctx direction bearer count protected_message
                               else Ok protected_message))"

section \<open>The COUNT as a number\<close>

definition nas_count_wf :: "NasCount \<Rightarrow> bool" where
  "nas_count_wf c \<longleftrightarrow> overflow c < 2 ^ 24"

definition count_nat :: "NasCount \<Rightarrow> nat" where
  "count_nat c = unat (nas_count_value c)"

lemma unat_and_24: "unat ((x :: u32) AND 0x00FFFFFF) = unat x mod 2 ^ 24"
proof -
  have "x AND 0x00FFFFFF = take_bit 24 x" by (simp add: take_bit_eq_mask mask_eq_exp_minus_1)
  then show ?thesis by (simp only: unat_take_bit_mod)
qed

lemma count_nat_sum: "count_nat c = 256 * (unat (overflow c) mod 2 ^ 24) + unat (sqn c)"
proof -
  have "push_bit 8 (overflow c AND 0x00FFFFFF) AND (ucast (sqn c) :: u32) = 0"
    by (rule bit_word_eqI) (auto simp: bit_simps dest: bit_imp_le_length)
  then have "nas_count_value c = push_bit 8 (overflow c AND 0x00FFFFFF) + ucast (sqn c)"
    by (simp add: nas_count_value_def disjunctive_add_eq_or)
  moreover have "unat (push_bit 8 (overflow c AND 0x00FFFFFF)) = 256 * (unat (overflow c) mod 2 ^ 24)"
    by (subst unat_push_bit_mult, subst unat_and_24) simp
  moreover have "unat (ucast (sqn c) :: u32) = unat (sqn c)" and "unat (sqn c) < 256"
    using unsigned_less [of "sqn c", where 'a = nat] by (simp_all add: unsigned_ucast_eq take_bit_eq_mod)
  moreover have "256 * (unat (overflow c) mod 2 ^ 24) \<le> 256 * (2 ^ 24 - 1)" by simp
  ultimately show ?thesis unfolding count_nat_def by (simp add: unat_word_ariths)
qed

lemma sqn_less: "unat (sqn c) < 256"
  using unsigned_less [of "sqn c", where 'a = nat] by simp

lemma nas_count_wf_nat: "nas_count_wf c \<longleftrightarrow> unat (overflow c) < 2 ^ 24"
  by (simp add: nas_count_wf_def word_less_nat_alt)

lemma count_nat_wf: "nas_count_wf c \<Longrightarrow> count_nat c = 256 * unat (overflow c) + unat (sqn c)"
  by (simp add: count_nat_sum nas_count_wf_nat)

lemma count_nat_parts:
  assumes "nas_count_wf c"
  shows "unat (sqn c) = count_nat c mod 256" and "unat (overflow c) = count_nat c div 256"
  using sqn_less [of c] by (simp_all add: count_nat_wf [OF assms])

lemma count_nat_less: "count_nat c < 2 ^ 32"
  using unsigned_less [of "nas_count_value c", where 'a = nat] by (simp add: count_nat_def)

lemma overflow_succ_nat: "unat ((x + 1 :: u32) AND 0x00FFFFFF) = (unat x + 1) mod 2 ^ 24"
  by (simp add: unat_and_24 unat_word_ariths mod_mod_cancel)

lemma increment_wf: "nas_count_wf c \<Longrightarrow> nas_count_wf (nas_count_increment c)"
  by (auto simp: nas_count_increment_def nas_count_wf_nat overflow_succ_nat)

lemma increment_nat:
  assumes "nas_count_wf c"
  shows "count_nat (nas_count_increment c) = (count_nat c + 1) mod 2 ^ 32"
proof (cases "sqn c = 255")
  case True
  have "(256 * (unat (overflow c) + 1)) mod (256 * 2 ^ 24) = 256 * ((unat (overflow c) + 1) mod 2 ^ 24)"
    by (simp only: mult_mod_right)
  then show ?thesis
    using True assms by (simp add: count_nat_sum nas_count_increment_def overflow_succ_nat nas_count_wf_nat)
next
  case False
  then have "unat (sqn c) \<noteq> 255" by (simp add: word_unat_eq_iff)
  then have "unat (sqn c) < 255" using sqn_less [of c] by simp
  then have "unat (sqn c + 1) = unat (sqn c) + 1" by (simp add: unat_word_ariths)
  then show ?thesis
    using False assms \<open>unat (sqn c) < 255\<close>
    by (simp add: count_nat_sum nas_count_increment_def nas_count_wf_nat)
qed

section \<open>Estimation\<close>

lemma estimate_wf: "nas_count_wf c \<Longrightarrow> nas_count_wf (nas_count_estimate c s)"
  by (auto simp: nas_count_estimate_def nas_count_wf_nat overflow_succ_nat unat_and_24 Let_def)

lemma sqn_estimate [simp]: "sqn (nas_count_estimate c s) = s"
  by (simp add: nas_count_estimate_def Let_def)

text \<open>The candidate in terms of numbers: which of the three generations the octet is taken to be in.\<close>

lemma estimate_nat:
  fixes c :: NasCount and s :: u8
  assumes "nas_count_wf c"
  defines "ov \<equiv> unat (overflow c)" and "q \<equiv> unat (sqn c)" and "t \<equiv> unat s"
  shows "count_nat (nas_count_estimate c s) =
    256 * (if t + 128 \<le> q then (ov + 1) mod 2 ^ 24 else if q + 128 < t \<and> 0 < ov then ov - 1 else ov) + t"
proof -
  have "q < 256" and "t < 256" and "ov < 2 ^ 24"
    using sqn_less [of c] unsigned_less [of s, where 'a = nat] assms(1)
    by (simp_all add: q_def t_def ov_def nas_count_wf_nat)
  have fwd: "unat (s - sqn c) = (if q \<le> t then t - q else t + 256 - q)"
    by (simp add: unat_sub_if' q_def t_def)
  have eq: "s - sqn c = 0 \<longleftrightarrow> t = q" unfolding q_def t_def right_minus_eq by (rule word_unat_eq_iff)
  have dec: "unat ((overflow c - 1) AND 0x00FFFFFF) = ov - 1" if "0 < overflow c"
  proof -
    have "unat (overflow c - 1) = ov - 1"
      using that by (simp add: ov_def unat_sub_if' word_less_nat_alt)
    then show ?thesis using \<open>ov < 2 ^ 24\<close> by (simp add: unat_and_24)
  qed
  have pos: "0 < overflow c \<longleftrightarrow> 0 < ov" by (simp add: ov_def word_less_nat_alt)
  have "unat (overflow (nas_count_estimate c s)) =
      (if t + 128 \<le> q then (ov + 1) mod 2 ^ 24 else if q + 128 < t \<and> 0 < ov then ov - 1 else ov)"
    using fwd \<open>q < 256\<close> \<open>t < 256\<close>
    by (auto simp: nas_count_estimate_def Let_def eq FORWARD_WINDOW_def word_le_nat_alt word_less_nat_alt
        overflow_succ_nat dec pos simp flip: q_def t_def ov_def)
  then show ?thesis
    by (simp add: count_nat_wf [OF estimate_wf [OF assms(1)]] t_def)
qed

lemma estimate_window:
  assumes "nas_count_wf c" and "n < 2 ^ 32" and "unat s = n mod 256"
    and "count_nat c \<le> n + 127" and "n \<le> count_nat c + 128"
  shows "count_nat (nas_count_estimate c s) = n"
proof -
  define ov' where "ov' = n div 256"
  have n: "n = 256 * ov' + unat s" using assms(3) by (simp add: ov'_def)
  have "ov' < 2 ^ 24" using assms(2) by (simp add: ov'_def less_mult_imp_div_less)
  then show ?thesis
    using assms(4,5) n sqn_less [of c] unsigned_less [of s, where 'a = nat]
    unfolding estimate_nat [OF assms(1)] count_nat_wf [OF assms(1)] by auto
qed

section \<open>Algorithms of a context\<close>

text \<open>Keys have the length their types give them; messages are short enough for 32-bit bit lengths.\<close>

definition nas_keys_wf :: "NasSecurityContext \<Rightarrow> bool" where
  "nas_keys_wf ctx \<longleftrightarrow> length (knas_enc ctx) = 16 \<and> length (knas_int ctx) = 16"

definition nas_algs_supported :: "NasSecurityContext \<Rightarrow> bool" where
  "nas_algs_supported ctx \<longleftrightarrow> ciphering (algorithms ctx) \<le> 3 \<and> integrity (algorithms ctx) \<le> 3"

definition nas_fits :: "bytes \<Rightarrow> bool" where
  "nas_fits m \<longleftrightarrow> length m < 2 ^ 28"

lemma u8_le_3: "(a :: u8) \<le> 3 \<longleftrightarrow> a = 0 \<or> a = 1 \<or> a = 2 \<or> a = 3"
  unfolding word_le_nat_alt word_unat_eq_iff by auto

lemma cipher_nea1_involution:
  assumes "nas_keys_wf ctx" and "nas_fits m"
  shows "\<exists>c. cipher_nea1 ctx d b n m = Ok c \<and> length c = length m \<and> cipher_nea1 ctx d b n c = Ok m"
proof -
  let ?k = "(knas_enc ctx, n, ucast b, ucast d)"
  have "f8_fits (length m)" and "length (knas_enc ctx) = 16"
    using assms by (simp_all add: f8_fits_def nas_fits_def nas_keys_wf_def)
  then have "(case ?k of (key, _) \<Rightarrow> length key = 16)" by simp
  from f8.cipher_length [OF this \<open>f8_fits (length m)\<close>] f8.cipher_involution [OF this \<open>f8_fits (length m)\<close>]
  show ?thesis by (simp add: cipher_nea1_def f8_bits_def mult.commute)
qed

lemma cipher_nea2_involution:
  assumes "nas_keys_wf ctx"
  shows "\<exists>c. cipher_nea2 aes ctx d b n m = Ok c \<and> length c = length m \<and> cipher_nea2 aes ctx d b n c = Ok m"
proof -
  let ?iv = "to_be32 n @ [push_bit 3 b OR push_bit 2 (d AND 0x01)] @ replicate 11 0"
  let ?k = "(aes, knas_enc ctx, ?iv)"
  have key: "length (knas_enc ctx) = 16" using assms by (simp add: nas_keys_wf_def)
  then have valid: "case ?k of (enc, key, iv) \<Rightarrow> length key = 16 \<and> length iv = 16" by simp
  have run: "cipher_nea2 aes ctx d b n x = Ok (xor_bytes x (ctr_octet_stream ?k (length x)))" for x
  proof -
    obtain iv' where "aes_ctr128_encrypt aes (knas_enc ctx) ?iv x (replicate (length x) 0) =
        Ok (iv', xor_bytes x (ctr_octet_stream ?k (length x)))"
      using aes_ctr128_octets [OF key, of "replicate (length x) 0" x aes ?iv] by auto
    then show ?thesis unfolding cipher_nea2_def Let_def by simp
  qed
  show ?thesis
    using ctr.keystream_length [OF valid TrueI, of "length m"]
    by (simp add: run xor_bytes_involution)
qed

lemma cipher_nea3_involution:
  assumes "nas_keys_wf ctx" and "nas_fits m"
  shows "\<exists>c. cipher_nea3 ctx d b n m = Ok c \<and> length c = length m \<and> cipher_nea3 ctx d b n c = Ok m"
proof -
  let ?k = "(knas_enc ctx, n, ucast b, ucast d) :: bytes \<times> u32 \<times> u32 \<times> u32"
  have fits: "eea3_fits (length m)" and "length (knas_enc ctx) = 16"
    using assms by (simp_all add: eea3_fits_def nas_fits_def nas_keys_wf_def)
  then have valid: "case ?k of (key, _) \<Rightarrow> length key = 16" by simp
  have run: "cipher_nea3 ctx d b n x = Ok (xor_bytes x (eea3_octet_stream ?k (length x)))"
    if "length x = length m" for x
    using zuc_eea3_octets [of x "replicate (length x) 0"] fits that
    by (simp add: cipher_nea3_def eea3_bits_def mult.commute)
  show ?thesis
    using eea3.keystream_length [OF valid fits] by (simp add: run xor_bytes_involution)
qed

lemma cipher_twice:
  assumes "nas_keys_wf ctx" and "nas_algs_supported ctx" and "nas_fits m"
  shows "\<exists>c. cipher aes ctx d b n m = Ok c \<and> length c = length m \<and> cipher aes ctx d b n c = Ok m"
proof -
  from assms(2) consider "ciphering (algorithms ctx) = 0" | "ciphering (algorithms ctx) = 1"
    | "ciphering (algorithms ctx) = 2" | "ciphering (algorithms ctx) = 3"
    unfolding nas_algs_supported_def u8_le_3 by blast
  then show ?thesis
    by cases (simp_all add: cipher_def Let_def cipher_nea1_involution cipher_nea2_involution
        cipher_nea3_involution assms)
qed

lemma length_snow_3g_f9 [simp]: "length (snow_3g_f9 key count fresh dir dat len) = 4"
  by (simp add: snow_3g_f9_def Let_def)

lemma calculate_mac_ok:
  assumes "nas_algs_supported ctx" and "length m \<le> 2 ^ 28"
  shows "\<exists>t. calculate_mac cmac ctx d b n m = Ok t \<and> length t = 4"
proof -
  have "unat (of_nat (length m * 8) :: u32) = length m * 8"
    using assms(2) by (subst unat_of_nat) simp
  then have "unat (of_nat (length m * 8) :: u32) + 64 < 2 ^ 32" using assms(2) by simp
  from eia3_tag_bits [OF this] obtain t where
    "(zuc_eia3 (knas_int ctx) n (ucast b) (ucast d) (of_nat (length m * 8)) m :: (NasError, u32) outcome) = Ok t"
    by blast
  then have nia3: "\<exists>t. calculate_mac_nia3 ctx d b n m = Ok t \<and> length t = 4"
    by (simp add: calculate_mac_nia3_def)
  from assms(1) consider "integrity (algorithms ctx) = 0" | "integrity (algorithms ctx) = 1"
    | "integrity (algorithms ctx) = 2" | "integrity (algorithms ctx) = 3"
    unfolding nas_algs_supported_def u8_le_3 by blast
  then show ?thesis
    by cases (simp_all add: calculate_mac_def Let_def nia3 calculate_mac_nia1_def calculate_mac_nia2_def
        aes_cmac_calculate_def)
qed

text \<open>Both depend on the context through its algorithms and keys only.\<close>

lemma calculate_mac_cong:
  "algorithms ctx = algorithms ctx' \<Longrightarrow> knas_int ctx = knas_int ctx' \<Longrightarrow>
     calculate_mac cmac ctx = calculate_mac cmac ctx'"
  by (intro ext) (simp add: calculate_mac_def Let_def calculate_mac_nia1_def calculate_mac_nia2_def calculate_mac_nia3_def)

lemma cipher_cong:
  "algorithms ctx = algorithms ctx' \<Longrightarrow> knas_enc ctx = knas_enc ctx' \<Longrightarrow>
     cipher aes ctx = cipher aes ctx'"
  by (intro ext) (simp add: cipher_def Let_def cipher_nea1_def cipher_nea2_def cipher_nea3_def)

section \<open>Acceptance\<close>

definition count_of :: "u8 \<Rightarrow> NasSecurityContext \<Rightarrow> NasCount" where
  "count_of direction ctx = (if direction = 0 then ul_count ctx else dl_count ctx)"

definition established_of :: "u8 \<Rightarrow> NasSecurityContext \<Rightarrow> bool" where
  "established_of direction ctx = (if direction = 0 then ul_established ctx else dl_established ctx)"

definition commit :: "u8 \<Rightarrow> NasCount \<Rightarrow> NasSecurityContext \<Rightarrow> NasSecurityContext" where
  "commit direction c ctx =
     (if direction = 0 then ctx\<lparr>ul_count := c, ul_established := True\<rparr>
      else ctx\<lparr>dl_count := c, dl_established := True\<rparr>)"

lemma commit_simps [simp]:
  "count_of d (commit d c ctx) = c" "established_of d (commit d c ctx)"
  "algorithms (commit d c ctx) = algorithms ctx" "knas_enc (commit d c ctx) = knas_enc ctx"
  "knas_int (commit d c ctx) = knas_int ctx"
  by (simp_all add: commit_def count_of_def established_of_def)

lemma value_le_nat: "nas_count_value a \<le> nas_count_value b \<longleftrightarrow> count_nat a \<le> count_nat b"
  by (simp add: count_nat_def word_le_nat_alt)

text \<open>
  What verification does with a frame, in terms of the COUNT it estimates: the frame is too short, its
  MAC cannot be computed or is wrong, it is a replay, or it is accepted and its COUNT stored.
\<close>

lemma unprotect_cases:
  fixes ctx d f
  defines "cand \<equiv> nas_count_estimate (count_of d ctx) (f ! 4)"
  shows "unprotect_nas_message aes cmac ctx d f ciphered =
    (if length f < 5 then (ctx, Err (BufferTooShort 5 (length f)))
     else case calculate_mac cmac ctx d 1 (nas_count_value cand) (drop 4 f) of
       Err e \<Rightarrow> (ctx, Err e)
     | Panic \<Rightarrow> (ctx, Panic)
     | Ok mac \<Rightarrow>
         if take 4 f \<noteq> mac then (ctx, Err MacVerificationFailed)
         else if established_of d ctx \<and> integrity (algorithms ctx) \<noteq> INTEGRITY_NONE \<and>
                 count_nat cand \<le> count_nat (count_of d ctx)
         then (ctx, Err ReplayedSequenceNumber)
         else (commit d cand ctx,
               if ciphered then cipher aes ctx d 1 (nas_count_value cand) (drop 5 f) else Ok (drop 5 f)))"
proof -
  have "cipher aes (commit d cand ctx) = cipher aes ctx" by (rule cipher_cong) simp_all
  then show ?thesis
    unfolding unprotect_nas_message_def Let_def value_le_nat
    by (simp only: cand_def commit_def [symmetric] count_of_def [symmetric] established_of_def [symmetric])
qed

lemma unprotect_accepted:
  assumes "unprotect_nas_message aes cmac ctx d f ciphered = (ctx', r)" and "ctx' \<noteq> ctx"
  shows "ctx' = commit d (nas_count_estimate (count_of d ctx) (f ! 4)) ctx"
    and "calculate_mac cmac ctx d 1 (nas_count_value (nas_count_estimate (count_of d ctx) (f ! 4))) (drop 4 f) =
           Ok (take 4 f)"
    and "5 \<le> length f"
    and "established_of d ctx \<Longrightarrow> integrity (algorithms ctx) \<noteq> INTEGRITY_NONE \<Longrightarrow>
           count_nat (count_of d ctx) < count_nat (nas_count_estimate (count_of d ctx) (f ! 4))"
  using assms by (auto simp: unprotect_cases split: if_split_asm outcome.split_asm)

section \<open>Delivery\<close>

definition bump :: "u8 \<Rightarrow> NasSecurityContext \<Rightarrow> NasSecurityContext" where
  "bump direction ctx =
     (if direction = 0 then ctx\<lparr>ul_count := nas_count_increment (ul_count ctx)\<rparr>
      else ctx\<lparr>dl_count := nas_count_increment (dl_count ctx)\<rparr>)"

lemma bump_simps [simp]:
  "count_of d (bump d ctx) = nas_count_increment (count_of d ctx)"
  "algorithms (bump d ctx) = algorithms ctx" "knas_enc (bump d ctx) = knas_enc ctx"
  "knas_int (bump d ctx) = knas_int ctx"
  by (simp_all add: bump_def count_of_def)

lemma protect_ok:
  assumes "nas_keys_wf ctx" and "nas_algs_supported ctx" and "nas_fits m"
  obtains p mac where
    "protect_nas_message aes cmac ctx d m ciphered = (bump d ctx, Ok (mac @ sqn (count_of d ctx) # p))"
    and "length mac = 4"
    and "calculate_mac cmac ctx d 1 (nas_count_value (count_of d ctx)) (sqn (count_of d ctx) # p) = Ok mac"
    and "(if ciphered then cipher aes ctx d 1 (nas_count_value (count_of d ctx)) p else Ok p) = Ok m"
proof -
  let ?n = "nas_count_value (count_of d ctx)"
  obtain p where p: "(if ciphered then cipher aes ctx d 1 ?n m else Ok m) = Ok p" "length p = length m"
    "(if ciphered then cipher aes ctx d 1 ?n p else Ok p) = Ok m"
    using cipher_twice [OF assms, of aes d 1 ?n] by (cases ciphered) auto
  obtain mac where mac: "calculate_mac cmac ctx d 1 ?n (sqn (count_of d ctx) # p) = Ok mac" "length mac = 4"
    using calculate_mac_ok [OF assms(2), of "sqn (count_of d ctx) # p" cmac d 1 ?n] assms(3) p(2)
    by (auto simp: nas_fits_def)
  have "protect_nas_message aes cmac ctx d m ciphered = (bump d ctx, Ok (mac @ sqn (count_of d ctx) # p))"
    using p(1) mac(1)
    by (simp add: protect_nas_message_def Let_def bump_def flip: count_of_def)
  then show thesis using that mac p(3) by blast
qed

lemma count_nat_inj:
  "nas_count_wf a \<Longrightarrow> nas_count_wf b \<Longrightarrow> count_nat a = count_nat b \<Longrightarrow> a = b"
  by (rule NasCount.equality) (simp_all add: word_unat_eq_iff count_nat_parts)

lemma estimate_count:
  assumes "nas_count_wf v" and "nas_count_wf c"
    and "count_nat v \<le> count_nat c + 127" and "count_nat c \<le> count_nat v + 128"
  shows "nas_count_estimate v (sqn c) = c"
  by (rule count_nat_inj [OF estimate_wf [OF assms(1)] assms(2)
        estimate_window [OF assms(1) count_nat_less count_nat_parts(1) [OF assms(2)] assms(3,4)]])

definition same_security :: "NasSecurityContext \<Rightarrow> NasSecurityContext \<Rightarrow> bool" where
  "same_security a b \<longleftrightarrow>
     algorithms a = algorithms b \<and> knas_enc a = knas_enc b \<and> knas_int a = knas_int b"

lemma unprotect_protected:
  assumes tx: "nas_keys_wf tx" "nas_algs_supported tx" "nas_count_wf (count_of d tx)"
    and rx: "same_security tx rx" "nas_count_wf (count_of d rx)" and m: "nas_fits m"
    and window: "count_nat (count_of d rx) \<le> count_nat (count_of d tx) + 127"
      "count_nat (count_of d tx) \<le> count_nat (count_of d rx) + 128"
    and fresh: "established_of d rx \<Longrightarrow> count_nat (count_of d rx) < count_nat (count_of d tx)"
    and sent: "protect_nas_message aes cmac tx d m ciphered = (tx', Ok f)"
  shows "tx' = bump d tx" and "unprotect_nas_message aes cmac rx d f ciphered = (commit d (count_of d tx) rx, Ok m)"
proof -
  let ?c = "count_of d tx"
  obtain p mac where p: "protect_nas_message aes cmac tx d m ciphered = (bump d tx, Ok (mac @ sqn ?c # p))"
      "length mac = 4" "calculate_mac cmac tx d 1 (nas_count_value ?c) (sqn ?c # p) = Ok mac"
      "(if ciphered then cipher aes tx d 1 (nas_count_value ?c) p else Ok p) = Ok m"
    using protect_ok [OF tx(1,2) m, of aes cmac d ciphered] by blast
  then have f: "f = mac @ sqn ?c # p" and "tx' = bump d tx" using sent by simp_all
  then show "tx' = bump d tx" by simp
  have "f ! 4 = sqn ?c" and parts: "take 4 f = mac" "drop 4 f = sqn ?c # p" "drop 5 f = p" "\<not> length f < 5"
    using f p(2) by (simp_all add: nth_append)
  then have est: "nas_count_estimate (count_of d rx) (f ! 4) = ?c"
    using estimate_count [OF rx(2) tx(3) window] by simp
  have "calculate_mac cmac rx = calculate_mac cmac tx" and "cipher aes rx = cipher aes tx"
    using rx(1) by (auto simp: same_security_def intro!: calculate_mac_cong cipher_cong)
  then show "unprotect_nas_message aes cmac rx d f ciphered = (commit d ?c rx, Ok m)"
    using p(3,4) fresh by (cases ciphered) (auto simp: unprotect_cases est parts)
qed

section \<open>NAS security is a secure channel\<close>

text \<open>
  The ends are in step: same algorithms and keys, and the sender's COUNT is \<open>g\<close> ahead of the COUNT the
  receiver expects, which before the first accepted message is the stored COUNT itself.
\<close>

definition nas_synced :: "u8 \<Rightarrow> nat \<Rightarrow> nat \<Rightarrow> NasSecurityContext \<Rightarrow> NasSecurityContext \<Rightarrow> bool" where
  "nas_synced d n g tx rx \<longleftrightarrow>
     nas_keys_wf tx \<and> nas_algs_supported tx \<and> same_security tx rx \<and>
     nas_count_wf (count_of d tx) \<and> nas_count_wf (count_of d rx) \<and> g \<le> 127 \<and>
     count_nat (count_of d tx) = count_nat (count_of d rx) + g + (if established_of d rx then 1 else 0) \<and>
     count_nat (count_of d tx) + n \<le> 2 ^ 32 - 1"

interpretation nas: secure_channel
  "\<lambda>tx m. protect_nas_message aes cmac tx d m ciphered"
  "\<lambda>rx f. unprotect_nas_message aes cmac rx d f ciphered"
  "nas_synced d" nas_fits 127
  for aes :: block_fun and cmac :: cmac_fun and d :: u8 and ciphered :: bool
proof
  fix n g tx rx m tx' f
  assume sync: "nas_synced d (Suc n) g tx rx" and m: "nas_fits m"
  then show "\<exists>tx' f. protect_nas_message aes cmac tx d m ciphered = (tx', Ok f)"
    by (meson nas_synced_def protect_ok)
  assume sent: "protect_nas_message aes cmac tx d m ciphered = (tx', Ok f)"
  let ?c = "count_of d tx"
  have tx: "nas_keys_wf tx" "nas_algs_supported tx" "nas_count_wf ?c"
    and rx: "same_security tx rx" "nas_count_wf (count_of d rx)"
    and window: "count_nat (count_of d rx) \<le> count_nat ?c + 127" "count_nat ?c \<le> count_nat (count_of d rx) + 128"
    and fresh: "established_of d rx \<Longrightarrow> count_nat (count_of d rx) < count_nat ?c"
    using sync by (auto simp: nas_synced_def split: if_split_asm)
  note recv = unprotect_protected [OF tx rx m window fresh sent]
  have inc: "count_nat (nas_count_increment ?c) = count_nat ?c + 1"
    using sync by (subst increment_nat [OF tx(3)]) (simp add: nas_synced_def)
  have sec: "nas_keys_wf tx'" "nas_algs_supported tx'" "same_security tx' rx"
    using sync by (auto simp: nas_synced_def recv(1) nas_keys_wf_def nas_algs_supported_def same_security_def)
  show "nas_synced d n (Suc g) tx' rx" if "g < 127"
    using sync sec inc that by (simp add: nas_synced_def recv(1) increment_wf)
  have "nas_synced d n 0 tx' (commit d ?c rx)"
    using sync sec inc by (simp add: nas_synced_def recv(1) increment_wf same_security_def)
  with recv(2) show "\<exists>rx'. unprotect_nas_message aes cmac rx d f ciphered = (rx', Ok m) \<and> nas_synced d n 0 tx' rx'"
    by blast
qed

lemma nas_context_new_synced:
  assumes "ciphering algs \<le> 3" and "integrity algs \<le> 3" and "length kenc = 16" and "length kint = 16"
    and "n < 2 ^ 32"
  shows "nas_synced d n 0 (nas_context_new algs kenc kint) (nas_context_new algs kenc kint)"
proof -
  have "count_of d (nas_context_new algs kenc kint) = \<lparr>overflow = 0, sqn = 0\<rparr>"
    and "\<not> established_of d (nas_context_new algs kenc kint)"
    by (simp_all add: count_of_def established_of_def nas_context_new_def)
  moreover have "nas_count_wf \<lparr>overflow = 0, sqn = 0\<rparr>" and "count_nat \<lparr>overflow = 0, sqn = 0\<rparr> = 0"
    by (simp_all add: nas_count_wf_def count_nat_sum)
  ultimately show ?thesis
    using assms by (simp add: nas_synced_def nas_keys_wf_def nas_algs_supported_def same_security_def
        nas_context_new_def)
qed

section \<open>Runs of the receiver\<close>

text \<open>The COUNTs of the frames a receiver accepts while it is fed a sequence of arbitrary frames.\<close>

fun accepted_counts ::
  "block_fun \<Rightarrow> cmac_fun \<Rightarrow> u8 \<Rightarrow> bool \<Rightarrow> NasSecurityContext \<Rightarrow> bytes list \<Rightarrow> nat list" where
  "accepted_counts aes cmac d ciphered ctx [] = []"
| "accepted_counts aes cmac d ciphered ctx (f # fs) =
     (case unprotect_nas_message aes cmac ctx d f ciphered of
        (ctx', Ok _) \<Rightarrow> count_nat (count_of d ctx') # accepted_counts aes cmac d ciphered ctx' fs
      | (ctx', _) \<Rightarrow> accepted_counts aes cmac d ciphered ctx' fs)"

lemma unprotect_step:
  assumes "unprotect_nas_message aes cmac ctx d f ciphered = (ctx', r)"
    and "integrity (algorithms ctx) \<noteq> INTEGRITY_NONE"
  shows "algorithms ctx' = algorithms ctx"
    and "established_of d ctx \<Longrightarrow> established_of d ctx' \<and> count_nat (count_of d ctx) \<le> count_nat (count_of d ctx')"
    and "r = Ok m \<Longrightarrow> established_of d ctx'"
    and "r = Ok m \<Longrightarrow> established_of d ctx \<Longrightarrow> count_nat (count_of d ctx) < count_nat (count_of d ctx')"
  using assms by (auto simp: unprotect_cases split: if_split_asm outcome.split_asm)

lemma accepted_counts_above:
  assumes "integrity (algorithms ctx) \<noteq> INTEGRITY_NONE" and "established_of d ctx"
  shows "\<forall>c\<in>set (accepted_counts aes cmac d ciphered ctx fs). count_nat (count_of d ctx) < c"
  using assms
proof (induction fs arbitrary: ctx)
  case (Cons f fs)
  obtain ctx' r where run: "unprotect_nas_message aes cmac ctx d f ciphered = (ctx', r)" by fastforce
  note step = unprotect_step [OF run Cons.prems(1)]
  have "\<forall>c\<in>set (accepted_counts aes cmac d ciphered ctx' fs). count_nat (count_of d ctx') < c"
    using Cons step by simp
  then show ?case
    using step(2,4) Cons.prems(2) by (cases r) (force simp: run)+
qed simp

lemma accepted_counts_sorted:
  "integrity (algorithms ctx) \<noteq> INTEGRITY_NONE \<Longrightarrow> sorted_wrt (<) (accepted_counts aes cmac d ciphered ctx fs)"
proof (induction fs arbitrary: ctx)
  case (Cons f fs)
  obtain ctx' r where run: "unprotect_nas_message aes cmac ctx d f ciphered = (ctx', r)" by fastforce
  note step = unprotect_step [OF run Cons.prems]
  have rest: "sorted_wrt (<) (accepted_counts aes cmac d ciphered ctx' fs)"
    using Cons step(1) by simp
  show ?case
  proof (cases r)
    case (Ok m)
    then show ?thesis
      using rest accepted_counts_above [of ctx' d aes cmac ciphered fs] step(1) step(3) [OF Ok] Cons.prems
      by (simp add: run)
  qed (use rest in \<open>simp_all add: run\<close>)
qed simp

section \<open>Properties\<close>

text \<open>
  C1: NAS security delivers. Two ends start from the same algorithms (NEA0 to NEA3, NIA0 to NIA3) and
  keys; the sender protects up to \<open>2 ^ 32 - 1\<close> messages in one direction, with or without ciphering,
  and the transport loses some of the frames, at most 127 in a row. Then the receiver accepts every
  frame that arrives and recovers exactly the message: estimation of the COUNT, integrity check, replay
  check and deciphering fit together, through every wrap of the sequence number octet.
\<close>

theorem nas_session_delivery:
  assumes "ciphering algs \<le> 3" and "integrity algs \<le> 3" and "length kenc = 16" and "length kint = 16"
    and "\<And>m delivered. (m, delivered) \<in> set es \<Longrightarrow> length m < 2 ^ 28"
    and "length es < 2 ^ 32" and "losses_within 127 0 es"
  shows "run_session (\<lambda>tx m. protect_nas_message aes cmac tx d m ciphered)
      (\<lambda>rx f. unprotect_nas_message aes cmac rx d f ciphered)
      (nas_context_new algs kenc kint) (nas_context_new algs kenc kint) es =
    map (\<lambda>(m, _). Ok m) (filter snd es)"
  by (rule nas.session_delivers [OF nas_context_new_synced [OF assms(1-4,6)] order_refl _ assms(7)])
    (unfold nas_fits_def, rule assms(5))

theorem nas_session_delivery_witness:
  "run_session (\<lambda>tx m. protect_nas_message (\<lambda>_ b. b XOR 0x5A) (\<lambda>_ m. of_nat (length m)) tx 0 m True)
      (\<lambda>rx f. unprotect_nas_message (\<lambda>_ b. b XOR 0x5A) (\<lambda>_ m. of_nat (length m)) rx 0 f True)
      (nas_context_new \<lparr>ciphering = 2, integrity = 3\<rparr> (replicate 16 0x11) (replicate 16 0x22))
      (nas_context_new \<lparr>ciphering = 2, integrity = 3\<rparr> (replicate 16 0x11) (replicate 16 0x22))
      [([0x7e, 0, 0x41], True), ([0x7e], False), ([], True)] =
    [Ok [0x7e, 0, 0x41], Ok []]"
  by (subst nas_session_delivery) auto

text \<open>
  Estimation of the COUNT (TS 24.501, 4.4.3.1). From the stored COUNT \<open>v\<close>, the sequence number octet
  of any COUNT \<open>n\<close> from \<open>v - 127\<close> to \<open>v + 128\<close> gives back exactly \<open>n\<close>, across wraps of the octet in both
  directions.
\<close>

lemma nas_count_estimate_window:
  assumes "nas_count_wf v" and "n < 2 ^ 32" and "count_nat v \<le> n + 127" and "n \<le> count_nat v + 128"
  shows "count_nat (nas_count_estimate v (of_nat (n mod 256))) = n"
  using estimate_window [OF assms(1,2) _ assms(3,4), of "of_nat (n mod 256)"]
  by (simp add: unat_of_nat)

lemma nas_count_estimate_window_witness:
  "count_nat (nas_count_estimate \<lparr>overflow = 5, sqn = 250\<rparr> (of_nat (1540 mod 256))) = 1540"
  by (rule nas_count_estimate_window) (simp_all add: nas_count_wf_def count_nat_sum)

text \<open>
  C2: replay protection. A frame was accepted with integrity protection; later, in any context with the
  same algorithms and keys, whose direction is established at a COUNT not more than 127 above the one the
  frame was accepted with, the same frame is rejected as a replay and the context is left as it was.
\<close>

theorem nas_replay_rejected:
  assumes "unprotect_nas_message aes cmac ctx d f ciphered = (ctx1, Ok m)"
    and "integrity (algorithms ctx) \<noteq> INTEGRITY_NONE" and "nas_count_wf (count_of d ctx)"
    and "same_security ctx1 ctx2" and "established_of d ctx2" and "nas_count_wf (count_of d ctx2)"
    and "count_nat (count_of d ctx1) \<le> count_nat (count_of d ctx2)"
    and "count_nat (count_of d ctx2) \<le> count_nat (count_of d ctx1) + 127"
  shows "unprotect_nas_message aes cmac ctx2 d f ciphered = (ctx2, Err ReplayedSequenceNumber)"
proof -
  let ?c = "nas_count_estimate (count_of d ctx) (f ! 4)"
  have acc: "ctx1 = commit d ?c ctx" "5 \<le> length f"
    "calculate_mac cmac ctx d 1 (nas_count_value ?c) (drop 4 f) = Ok (take 4 f)"
    using assms(1) by (auto simp: unprotect_cases split: if_split_asm outcome.split_asm)
  then have c1: "count_of d ctx1 = ?c" by simp
  have "nas_count_wf ?c" by (rule estimate_wf [OF assms(3)])
  then have est: "nas_count_estimate (count_of d ctx2) (f ! 4) = ?c"
    using estimate_count [of "count_of d ctx2" ?c] assms(6-8) c1 by simp
  have mac: "calculate_mac cmac ctx2 = calculate_mac cmac ctx"
    using assms(4) acc(1) by (intro calculate_mac_cong) (auto simp: same_security_def)
  have "integrity (algorithms ctx2) \<noteq> INTEGRITY_NONE"
    using assms(2,4) acc(1) by (auto simp: same_security_def)
  then show ?thesis using acc(2,3) assms(5,7) c1 by (simp add: unprotect_cases est mac)
qed

text \<open>A context with NIA2, and a CMAC that is constantly zero, for the concrete instances below.\<close>

abbreviation example_ctx :: NasSecurityContext where
  "example_ctx \<equiv> nas_context_new \<lparr>ciphering = 0, integrity = 2\<rparr> (replicate 16 0x11) (replicate 16 0x22)"

lemma example_mac: "calculate_mac (\<lambda>_ _. 0) ctx d b n m = Ok [0, 0, 0, 0]"
  if "integrity (algorithms ctx) = 2"
proof -
  have "le_octets k 0 = replicate k 0" for k by (induction k) simp_all
  then have "take 4 (block_octets 0) = [0, 0, 0, 0]" by (simp add: block_octets_def numeral_eq_Suc)
  then show ?thesis
    using that by (simp add: calculate_mac_def calculate_mac_nia2_def aes_cmac_calculate_def)
qed

lemma example_accept:
  "unprotect_nas_message (\<lambda>_ b. b) (\<lambda>_ _. 0) example_ctx 0 [0, 0, 0, 0, 5, 0x7e] False =
     (commit 0 \<lparr>overflow = 0, sqn = 5\<rparr> example_ctx, Ok [0x7e])"
proof -
  have "nas_count_estimate (count_of 0 example_ctx) 5 = \<lparr>overflow = 0, sqn = 5\<rparr>"
    by (simp add: count_of_def nas_context_new_def nas_count_estimate_def)
  moreover have "integrity (algorithms example_ctx) = 2" and "\<not> established_of 0 example_ctx"
    by (simp_all add: nas_context_new_def established_of_def)
  ultimately show ?thesis
    by (simp add: unprotect_cases example_mac)
qed

theorem nas_replay_rejected_witness:
  "unprotect_nas_message (\<lambda>_ b. b) (\<lambda>_ _. 0) (commit 0 \<lparr>overflow = 0, sqn = 100\<rparr> example_ctx) 0
     [0, 0, 0, 0, 5, 0x7e] False =
   (commit 0 \<lparr>overflow = 0, sqn = 100\<rparr> example_ctx, Err ReplayedSequenceNumber)"
  by (rule nas_replay_rejected [OF example_accept])
    (simp_all add: nas_context_new_def same_security_def nas_count_wf_def count_nat_sum count_of_def
      commit_def established_of_def)

text \<open>
  C20: a NAS COUNT is accepted at most once. Whatever frames a receiver with integrity protection is fed,
  forged, replayed or reordered, the COUNTs of the frames it accepts in one direction form a strictly
  increasing sequence.
\<close>

theorem nas_counts_increase:
  assumes "integrity (algorithms ctx) \<noteq> INTEGRITY_NONE"
  shows "sorted_wrt (<) (accepted_counts aes cmac d ciphered ctx fs)"
  using assms by (rule accepted_counts_sorted)

theorem nas_counts_increase_witness:
  "sorted_wrt (<) (accepted_counts (\<lambda>_ b. b) (\<lambda>_ _. 0) 0 False example_ctx
     [[0, 0, 0, 0, 5, 0x7e], [0, 0, 0, 0, 5, 0x7e], [1, 0, 0, 0, 6, 0x7e], [0, 0, 0, 0, 7, 0x7e]])"
  by (rule nas_counts_increase) (simp add: nas_context_new_def)

text \<open>
  C21: only a verified frame changes the receiver. If verification changes the context, then the frame
  carries the MAC of its contents under the estimated COUNT, the new context differs in the COUNT and the
  established flag of that direction only, the COUNT stored is the estimated one, and, once the direction
  is established with integrity protection, it lies above the old one, by at most 128 or within the
  first 256 COUNTs.
\<close>

theorem nas_context_change_verified:
  assumes "unprotect_nas_message aes cmac ctx d f ciphered = (ctx', r)" and "ctx' \<noteq> ctx"
    and "nas_count_wf (count_of d ctx)" and "established_of d ctx"
    and "integrity (algorithms ctx) \<noteq> INTEGRITY_NONE"
  shows "5 \<le> length f \<and>
    ctx' = commit d (nas_count_estimate (count_of d ctx) (f ! 4)) ctx \<and>
    calculate_mac cmac ctx d 1 (nas_count_value (count_of d ctx')) (drop 4 f) = Ok (take 4 f) \<and>
    count_nat (count_of d ctx) < count_nat (count_of d ctx') \<and>
    (count_nat (count_of d ctx') \<le> count_nat (count_of d ctx) + 128 \<or> count_nat (count_of d ctx') < 256)"
proof -
  let ?c = "nas_count_estimate (count_of d ctx) (f ! 4)"
  note acc = unprotect_accepted [OF assms(1,2)]
  have "count_nat (count_of d ctx) < count_nat ?c" using acc(4) assms(4,5) by blast
  moreover from this have "count_nat ?c \<le> count_nat (count_of d ctx) + 128 \<or> count_nat ?c < 256"
    using sqn_less [of "count_of d ctx"] unsigned_less [of "f ! 4", where 'a = nat] assms(3)
    unfolding estimate_nat [OF assms(3)] count_nat_wf [OF assms(3)]
    by (auto simp: nas_count_wf_nat mod_Suc split: if_split_asm)
  ultimately show ?thesis using acc(1-3) by simp
qed

theorem nas_context_change_verified_witness:
  "\<exists>ctx' r. unprotect_nas_message (\<lambda>_ b. b) (\<lambda>_ _. 0) (commit 0 \<lparr>overflow = 0, sqn = 1\<rparr> example_ctx) 0
     [0, 0, 0, 0, 5, 0x7e] False = (ctx', r) \<and>
   count_nat (count_of 0 (commit 0 \<lparr>overflow = 0, sqn = 1\<rparr> example_ctx)) < count_nat (count_of 0 ctx')"
proof -
  let ?ctx = "commit 0 \<lparr>overflow = 0, sqn = 1\<rparr> example_ctx"
  have alg: "integrity (algorithms ?ctx) = 2" by (simp add: nas_context_new_def)
  have run: "unprotect_nas_message (\<lambda>_ b. b) (\<lambda>_ _. 0) ?ctx 0 [0, 0, 0, 0, 5, 0x7e] False =
      (commit 0 \<lparr>overflow = 0, sqn = 5\<rparr> ?ctx, Ok [0x7e])"
    using alg by (simp add: unprotect_cases example_mac nas_count_estimate_def FORWARD_WINDOW_def count_nat_sum)
  have "commit 0 \<lparr>overflow = 0, sqn = 5\<rparr> ?ctx \<noteq> ?ctx"
    by (rule notI, drule arg_cong [where f = "count_of 0"]) simp
  moreover have "nas_count_wf (count_of 0 ?ctx)" by (simp add: nas_count_wf_def)
  moreover have "integrity (algorithms ?ctx) \<noteq> INTEGRITY_NONE" unfolding alg by simp
  ultimately have "count_nat (count_of 0 ?ctx) < count_nat (count_of 0 (commit 0 \<lparr>overflow = 0, sqn = 5\<rparr> ?ctx))"
    using nas_context_change_verified [OF run _ _ commit_simps(2)] by blast
  with run show ?thesis by blast
qed

text \<open>
  Estimation in the first generation. When no sequence number wrap has been seen yet (overflow 0), an
  octet more than 128 above the stored one, which the code classifies as a backward step, is estimated as
  a COUNT above the stored one: there is no generation below to put it in. So such a frame is not
  rejected as a replay; its acceptance rests on its MAC alone.
\<close>

lemma nas_estimate_first_generation:
  assumes "overflow v = 0" and "unat (sqn v) + 128 < unat s"
  shows "s - sqn v > FORWARD_WINDOW \<and> count_nat (nas_count_estimate v s) = unat s \<and>
    count_nat v < count_nat (nas_count_estimate v s)"
proof -
  have wf: "nas_count_wf v" using assms(1) by (simp add: nas_count_wf_def)
  have "unat (s - sqn v) = unat s - unat (sqn v)" using assms(2) by (simp add: unat_sub_if')
  then have "s - sqn v > FORWARD_WINDOW" using assms(2) by (simp add: FORWARD_WINDOW_def word_less_nat_alt)
  then show ?thesis
    unfolding estimate_nat [OF wf] using assms by (simp add: count_nat_wf [OF wf])
qed

theorem nas_estimate_first_generation_witness:
  "count_nat (nas_count_estimate \<lparr>overflow = 0, sqn = 5\<rparr> 200) = 200 \<and> count_nat \<lparr>overflow = 0, sqn = 5\<rparr> < 200"
  using nas_estimate_first_generation [of "\<lparr>overflow = 0, sqn = 5\<rparr>" 200] by simp

text \<open>
  Ciphering is its own inverse, for every supported algorithm: with the same key, COUNT, bearer and
  direction, ciphering a message succeeds with a result of the message's length, and ciphering the result
  gives the message back.
\<close>

lemma nas_cipher_involution:
  assumes "length (knas_enc ctx) = 16" and "length (knas_int ctx) = 16"
    and "ciphering (algorithms ctx) \<le> 3" and "integrity (algorithms ctx) \<le> 3" and "length m < 2 ^ 28"
  shows "\<exists>c. cipher aes ctx d b n m = Ok c \<and> length c = length m \<and> cipher aes ctx d b n c = Ok m"
  using assms by (intro cipher_twice) (simp_all add: nas_keys_wf_def nas_algs_supported_def nas_fits_def)

lemma nas_cipher_involution_witness:
  "\<exists>c. cipher (\<lambda>_ b. b) (nas_context_new \<lparr>ciphering = 1, integrity = 2\<rparr> (replicate 16 0x11) (replicate 16 0x22))
     0 1 7 [0x7e, 0, 0x41] = Ok c \<and> length c = 3"
  using nas_cipher_involution [of "nas_context_new \<lparr>ciphering = 1, integrity = 2\<rparr> (replicate 16 0x11)
      (replicate 16 0x22)" "[0x7e, 0, 0x41]" "\<lambda>_ b. b" 0 1 7]
  by (auto simp: nas_context_new_def)

text \<open>
  The COUNT is stored before the message is deciphered. With a ciphering algorithm the implementation
  does not support, a frame with a valid MAC and a forward COUNT is answered with a security error, yet
  its COUNT has been stored: the message cannot be delivered and is a replay from then on.
\<close>

lemma nas_commit_before_decipher_error:
  assumes "\<not> ciphering (algorithms ctx) \<le> 3" and "5 \<le> length f" and "\<not> established_of d ctx"
    and "calculate_mac cmac ctx d 1 (nas_count_value (nas_count_estimate (count_of d ctx) (f ! 4))) (drop 4 f) =
      Ok (take 4 f)"
  shows "unprotect_nas_message aes cmac ctx d f True =
    (commit d (nas_count_estimate (count_of d ctx) (f ! 4)) ctx,
     Err (SecurityError (''Unsupported ciphering algorithm: '' @ show_nat (unat (ciphering (algorithms ctx))))))"
  using assms unfolding u8_le_3 by (auto simp: unprotect_cases cipher_def Let_def)

theorem nas_commit_before_decipher_error_witness:
  "\<exists>ctx' e. unprotect_nas_message (\<lambda>_ b. b) (\<lambda>_ _. 0) (example_ctx\<lparr>algorithms := \<lparr>ciphering = 7, integrity = 2\<rparr>\<rparr>) 0
     [0, 0, 0, 0, 5, 0x7e] True = (ctx', Err e) \<and> established_of 0 ctx'"
  by (subst nas_commit_before_decipher_error)
    (simp_all add: example_mac nas_context_new_def established_of_def commit_def)

end
