(* ===== verification/Aper.thy ===== *)
theory Aper
  imports Prelude
begin

text \<open>
  Aligned PER (\<^verbatim>\<open>libs/nextgcore-asn1c/src/per.rs\<close>), the transfer syntax of NGAP and S1AP. The encoder's
  \<^verbatim>\<open>BitVec\<close> and the decoder's \<^verbatim>\<open>BitSlice\<close> of the crate \<^verbatim>\<open>bitvec\<close> are lists of bits, most significant bit
  of each octet first. Every method takes the state of its coder and returns the new state beside its
  result, also when it fails: bits written or skipped before an error stay written or skipped. An \<^verbatim>\<open>i64\<close>
  is an \<^typ>\<open>int\<close>, with the wrap-around of the release profile where it can happen; a \<^verbatim>\<open>u64\<close> is a word; a
  \<^verbatim>\<open>usize\<close> is a \<^typ>\<open>nat\<close>, read as a 64-bit word where it is converted or may wrap.
\<close>

section \<open>Errors and constraints\<close>

datatype PerError =
    BufferUnderflow nat nat
  | BufferOverflow nat
  | ConstraintViolation int int int
  | InvalidChoiceIndex nat nat
  | InvalidLength nat
  | UnsupportedExtension
  | DecodeError string

type_synonym ('s, 'a) per = "'s \<Rightarrow> 's \<times> (PerError, 'a) outcome"

definition per_bind :: "('s, 'a) per \<Rightarrow> ('a \<Rightarrow> ('s, 'b) per) \<Rightarrow> ('s, 'b) per" where
  "per_bind m k s =
     (case m s of (s', Ok x) \<Rightarrow> k x s' | (s', Err e) \<Rightarrow> (s', Err e) | (s', Panic) \<Rightarrow> (s', Panic))"

definition per_return :: "'a \<Rightarrow> ('s, 'a) per" where
  "per_return x s = (s, Ok x)"

definition per_fail :: "PerError \<Rightarrow> ('s, 'a) per" where
  "per_fail e s = (s, Err e)"

definition as_i64 :: "u64 \<Rightarrow> int" where
  "as_i64 w = sint w"

definition usize_as_i64 :: "nat \<Rightarrow> int" where
  "usize_as_i64 n = as_i64 (of_nat n)"

definition i64_as_usize :: "int \<Rightarrow> nat" where
  "i64_as_usize i = unat (of_int i :: u64)"

text \<open>\<^verbatim>\<open>u64::leading_zeros\<close>.\<close>

definition leading_zeros :: "u64 \<Rightarrow> nat" where
  "leading_zeros w = length (takeWhile (\<lambda>i. \<not> bit w i) (rev [0..<64]))"

record Constraint =
  c_min :: int
  c_max :: int
  c_extensible :: bool

definition constraint_new :: "int \<Rightarrow> int \<Rightarrow> Constraint" where
  "constraint_new mi ma = \<lparr>c_min = mi, c_max = ma, c_extensible = False\<rparr>"

definition constraint_extensible :: "int \<Rightarrow> int \<Rightarrow> Constraint" where
  "constraint_extensible mi ma = \<lparr>c_min = mi, c_max = ma, c_extensible = True\<rparr>"

definition constraint_range :: "Constraint \<Rightarrow> u64" where
  "constraint_range c = (if c_max c \<ge> c_min c then of_int (c_max c - c_min c) + 1 else 0)"

definition bits_needed :: "Constraint \<Rightarrow> nat" where
  "bits_needed c =
     (let r = constraint_range c in if r \<le> 1 then 0 else 64 - leading_zeros (r - 1))"

section \<open>Encoder\<close>

type_synonym bits = "bool list"

definition enc_align :: "(bits, unit) per" where
  "enc_align buf =
     (buf @ (if length buf mod 8 \<noteq> 0 then replicate (8 - length buf mod 8) False else []), Ok ())"

definition write_bit :: "bool \<Rightarrow> (bits, unit) per" where
  "write_bit b buf = (buf @ [b], Ok ())"

definition word_bits :: "u64 \<Rightarrow> nat \<Rightarrow> bits" where
  "word_bits v n = map (\<lambda>i. drop_bit i v AND 1 = 1) (rev [0..<n])"

definition write_bits :: "u64 \<Rightarrow> nat \<Rightarrow> (bits, unit) per" where
  "write_bits v n buf = (buf @ word_bits v n, Ok ())"

fun write_bytes :: "bytes \<Rightarrow> (bits, unit) per" where
  "write_bytes [] = per_return ()"
| "write_bytes (b # bs) = per_bind (write_bits (ucast b) 8) (\<lambda>_. write_bytes bs)"

definition max_octets :: "Constraint \<Rightarrow> nat" where
  "max_octets c = (bits_needed c + 7) div 8"

definition offset_octets :: "u64 \<Rightarrow> nat" where
  "offset_octets v = (if v = 0 then 1 else (64 - leading_zeros v + 7) div 8)"

text \<open>The loop that writes the low \<open>n\<close> octets of the offset, the most significant one first.\<close>

fun write_octets :: "u64 \<Rightarrow> nat \<Rightarrow> (bits, unit) per" where
  "write_octets v 0 = per_return ()"
| "write_octets v (Suc i) =
     per_bind (write_bits (drop_bit (i * 8) v AND 0xFF) 8) (\<lambda>_. write_octets v i)"

lemma length_takeWhile_rev: "length (takeWhile P (rev [0..<n])) \<le> n"
  by (metis diff_zero length_rev length_takeWhile_le length_upt)

lemma leading_zeros_le: "leading_zeros w \<le> 64"
  by (simp add: leading_zeros_def length_takeWhile_rev)

lemma max_octets_le: "max_octets c \<le> 8"
  using div_le_mono [of "bits_needed c + 7" 71 8] by (simp add: max_octets_def bits_needed_def Let_def)

lemma small_range: "n \<le> 8 \<Longrightarrow> constraint_range (constraint_new 1 (int n)) = of_nat n"
  by (cases n) (simp_all add: constraint_range_def constraint_new_def)

lemma small_range_le: "n \<le> 8 \<Longrightarrow> \<not> constraint_range (constraint_new 1 (int n)) > 65536"
  by (simp add: small_range word_less_nat_alt unat_of_nat)

function encode_constrained_whole_number :: "int \<Rightarrow> Constraint \<Rightarrow> (bits, unit) per" where
  "encode_constrained_whole_number v c =
     (if v < c_min c \<or> v > c_max c then per_fail (ConstraintViolation v (c_min c) (c_max c))
      else
        let range = constraint_range c;
            offset = of_int (v - c_min c)
        in if range = 1 then per_return ()
           else if range \<le> 255 then write_bits offset (bits_needed c)
           else if range = 256 then per_bind enc_align (\<lambda>_. write_bits offset 8)
           else if range \<le> 65536 then per_bind enc_align (\<lambda>_. write_bits offset 16)
           else
             let num_octets = offset_octets offset;
                 len_constraint = constraint_new 1 (int (max_octets c))
             in per_bind (encode_constrained_whole_number (int num_octets) len_constraint) (\<lambda>_.
                per_bind enc_align (\<lambda>_.
                write_octets offset num_octets)))"
  by pat_completeness auto
termination
  by (relation "measure (\<lambda>(_, c). if constraint_range c > 65536 then 1 else 0)")
    (auto simp: small_range_le [OF max_octets_le])

declare encode_constrained_whole_number.simps [simp del]

definition encode_length_determinant :: "nat \<Rightarrow> (bits, unit) per" where
  "encode_length_determinant len =
     per_bind enc_align (\<lambda>_.
       if len \<le> 127 then write_bits (of_nat len) 8
       else if len \<le> 16383 then write_bits (0x8000 OR of_nat len) 16
       else per_fail (InvalidLength len))"

text \<open>The octets of a non-negative number, least significant first, until nothing is left of it.\<close>

function unsigned_octets :: "u64 \<Rightarrow> bytes" where
  "unsigned_octets v = (if v > 0 then ucast (v AND 0xFF) # unsigned_octets (drop_bit 8 v) else [])"
  by pat_completeness auto
termination
proof (relation "measure unat", simp)
  fix v :: u64
  assume "0 < v"
  then have "0 < unat v" by (simp add: word_less_nat_alt)
  then show "(drop_bit 8 v, v) \<in> measure unat" by (simp add: unat_drop_bit_div)
qed

declare unsigned_octets.simps [simp del]

text \<open>The two's complement octets of a negative number, least significant first.\<close>

function signed_octets :: "int \<Rightarrow> bytes" where
  "signed_octets v =
     (let b = (of_int v :: u8); v' = v div 256
      in if v' = -1 \<and> b AND 0x80 \<noteq> 0 then [b]
         else if v' = 0 \<and> b AND 0x80 = 0 then [b]
         else b # signed_octets v')"
  by pat_completeness auto
termination
proof (relation "measure (\<lambda>v. nat \<bar>v\<bar>)", simp)
  fix v v' :: int and b :: u8
  assume def: "b = of_int v" "v' = v div 256"
    and neg: "\<not> (v' = - 1 \<and> b AND 0x80 \<noteq> 0)" and pos: "\<not> (v' = 0 \<and> b AND 0x80 = 0)"
  define q r where "q = v div 256" and "r = v mod 256"
  have v: "v = 256 * q + r" and "0 \<le> r" "r < 256" by (simp_all add: q_def r_def)
  have "v \<noteq> -1" using neg def by auto
  moreover have "v \<noteq> 0" using pos def by auto
  ultimately have "\<bar>q\<bar> < \<bar>v\<bar>"
    using v \<open>0 \<le> r\<close> \<open>r < 256\<close> by (cases "q = -1"; cases "q \<ge> 0") linarith+
  then show "(v', v) \<in> measure (\<lambda>v. nat \<bar>v\<bar>)" by (simp add: q_def def)
qed

declare signed_octets.simps [simp del]

definition unconstrained_octets :: "int \<Rightarrow> bytes" where
  "unconstrained_octets v =
     (if v \<ge> 0
      then if v = 0 then [0]
           else let buf = rev (unsigned_octets (of_int v))
                in if buf ! 0 AND 0x80 \<noteq> 0 then 0 # buf else buf
      else rev (signed_octets v))"

definition encode_unconstrained_whole_number :: "int \<Rightarrow> (bits, unit) per" where
  "encode_unconstrained_whole_number v =
     (let bs = unconstrained_octets v
      in per_bind (encode_length_determinant (length bs)) (\<lambda>_.
         per_bind enc_align (\<lambda>_.
         write_bytes bs)))"

function encode_fragmented_octets :: "bytes \<Rightarrow> (bits, unit) per" where
  "encode_fragmented_octets rest =
     (if length rest > 16383
      then let multiplier = min (length rest div 16384) 4;
               chunk = multiplier * 16384
           in per_bind enc_align (\<lambda>_.
              per_bind (write_bits (0xC0 OR of_nat multiplier) 8) (\<lambda>_.
              per_bind (write_bytes (take chunk rest)) (\<lambda>_.
              encode_fragmented_octets (drop chunk rest))))
      else per_bind (encode_length_determinant (length rest)) (\<lambda>_. write_bytes rest))"
  by pat_completeness auto
termination
  by (relation "measure length") (auto simp: div_greater_zero_iff)

declare encode_fragmented_octets.simps [simp del]

definition write_bit_slice :: "bits \<Rightarrow> (bits, unit) per" where
  "write_bit_slice bs buf = (buf @ bs, Ok ())"

function encode_fragmented_bits :: "bits \<Rightarrow> (bits, unit) per" where
  "encode_fragmented_bits rest =
     (if length rest > 16383
      then let multiplier = min (length rest div 16384) 4;
               chunk = multiplier * 16384
           in per_bind enc_align (\<lambda>_.
              per_bind (write_bits (0xC0 OR of_nat multiplier) 8) (\<lambda>_.
              per_bind (write_bit_slice (take chunk rest)) (\<lambda>_.
              encode_fragmented_bits (drop chunk rest))))
      else per_bind (encode_length_determinant (length rest)) (\<lambda>_. write_bit_slice rest))"
  by pat_completeness auto
termination
  by (relation "measure length") (auto simp: div_greater_zero_iff)

declare encode_fragmented_bits.simps [simp del]

definition encode_constrained_length :: "nat \<Rightarrow> nat \<Rightarrow> nat \<Rightarrow> (bits, unit) per" where
  "encode_constrained_length len mi ma =
     encode_constrained_whole_number (usize_as_i64 len) (constraint_new (usize_as_i64 mi) (usize_as_i64 ma))"

definition encode_normally_small_non_negative :: "u64 \<Rightarrow> (bits, unit) per" where
  "encode_normally_small_non_negative v =
     (if v \<le> 63 then per_bind (write_bit False) (\<lambda>_. write_bits v 6)
      else let buf = rev (unsigned_octets v)
           in per_bind (write_bit True) (\<lambda>_.
              per_bind (encode_length_determinant (length buf)) (\<lambda>_.
              per_bind enc_align (\<lambda>_.
              write_bytes buf))))"

definition encode_enumerated :: "int \<Rightarrow> Constraint \<Rightarrow> (bits, unit) per" where
  "encode_enumerated v c =
     (if c_extensible c
      then let in_root = (v \<ge> c_min c \<and> v \<le> c_max c)
           in per_bind (write_bit (\<not> in_root)) (\<lambda>_.
              if in_root then encode_constrained_whole_number v c
              else if v \<le> c_max c then per_fail (ConstraintViolation v (c_min c) (c_max c))
              else encode_normally_small_non_negative (of_int (v - c_max c - 1)))
      else encode_constrained_whole_number v c)"

definition choice_constraint :: "nat \<Rightarrow> Constraint" where
  "choice_constraint num_alternatives = constraint_new 0 (as_i64 (of_nat num_alternatives - 1))"

definition encode_choice_index :: "nat \<Rightarrow> nat \<Rightarrow> bool \<Rightarrow> (bits, unit) per" where
  "encode_choice_index index num_alternatives extensible =
     (if extensible
      then let in_root = (index < num_alternatives)
           in per_bind (write_bit (\<not> in_root)) (\<lambda>_.
              if in_root
              then encode_constrained_whole_number (usize_as_i64 index) (choice_constraint num_alternatives)
              else encode_normally_small_non_negative (of_nat (index - num_alternatives)))
      else if index \<ge> num_alternatives
      then per_fail (InvalidChoiceIndex index (unat (of_nat num_alternatives - 1 :: u64)))
      else encode_constrained_whole_number (usize_as_i64 index) (choice_constraint num_alternatives))"

definition encode_octet_string :: "bytes \<Rightarrow> nat option \<Rightarrow> nat option \<Rightarrow> (bits, unit) per" where
  "encode_octet_string dat min_len max_len =
     (let len = length dat
      in case (min_len, max_len) of
           (Some mi, Some ma) \<Rightarrow>
             if mi = ma
             then if len \<noteq> mi then per_fail (InvalidLength len)
                  else per_bind (if mi > 2 then enc_align else per_return ()) (\<lambda>_. write_bytes dat)
             else per_bind (encode_constrained_length len mi ma) (\<lambda>_.
                  per_bind (if ma > 2 then enc_align else per_return ()) (\<lambda>_. write_bytes dat))
         | _ \<Rightarrow> encode_fragmented_octets dat)"

definition encode_bit_string :: "bits \<Rightarrow> nat option \<Rightarrow> nat option \<Rightarrow> (bits, unit) per" where
  "encode_bit_string bs min_len max_len =
     (let len = length bs
      in case (min_len, max_len) of
           (Some mi, Some ma) \<Rightarrow>
             if mi = ma
             then if len \<noteq> mi then per_fail (InvalidLength len)
                  else per_bind (if mi > 16 then enc_align else per_return ()) (\<lambda>_. write_bit_slice bs)
             else per_bind (encode_constrained_length len mi ma) (\<lambda>_.
                  per_bind (if ma > 16 then enc_align else per_return ()) (\<lambda>_. write_bit_slice bs))
         | _ \<Rightarrow> encode_fragmented_bits bs)"

section \<open>Decoder\<close>

record AperDecoder =
  d_data :: bits
  d_position :: nat

text \<open>\<^verbatim>\<open>BitSlice::<u8, Msb0>::from_slice\<close>: the bits of each octet, most significant first.\<close>

definition octets_bits :: "bytes \<Rightarrow> bits" where
  "octets_bits bs = concat (map (\<lambda>b. word_bits (ucast b) 8) bs)"

definition aper_decoder_new :: "bytes \<Rightarrow> AperDecoder" where
  "aper_decoder_new dat = \<lparr>d_data = octets_bits dat, d_position = 0\<rparr>"

definition remaining_bits :: "AperDecoder \<Rightarrow> nat" where
  "remaining_bits d = length (d_data d) - d_position d"

definition dec_align :: "(AperDecoder, unit) per" where
  "dec_align d =
     (let r = d_position d mod 8
      in (if r \<noteq> 0 then d\<lparr>d_position := d_position d + (8 - r)\<rparr> else d, Ok ()))"

definition read_bit :: "(AperDecoder, bool) per" where
  "read_bit d =
     (if d_position d \<ge> length (d_data d) then (d, Err (BufferUnderflow 1 0))
      else (d\<lparr>d_position := d_position d + 1\<rparr>, Ok (d_data d ! d_position d)))"

definition bits_word :: "bits \<Rightarrow> u64" where
  "bits_word bs = fold (\<lambda>b v. push_bit 1 v OR of_bool b) bs 0"

text \<open>The subtraction in the error value is on \<^verbatim>\<open>usize\<close> and would wrap past the end of the data.\<close>

definition read_bits :: "nat \<Rightarrow> (AperDecoder, u64) per" where
  "read_bits n d =
     (if d_position d + n > length (d_data d)
      then (d, Err (BufferUnderflow n (unat (of_nat (length (d_data d)) - of_nat (d_position d) :: u64))))
      else (d\<lparr>d_position := d_position d + n\<rparr>,
            Ok (bits_word (take n (drop (d_position d) (d_data d))))))"

fun read_bytes_loop :: "nat \<Rightarrow> (AperDecoder, bytes) per" where
  "read_bytes_loop 0 = per_return []"
| "read_bytes_loop (Suc n) =
     per_bind (read_bits 8) (\<lambda>v. per_bind (read_bytes_loop n) (\<lambda>bs. per_return (ucast v # bs)))"

definition read_bytes :: "nat \<Rightarrow> (AperDecoder, bytes) per" where
  "read_bytes n d =
     (if n * 8 \<ge> 2 ^ 64 then (d, Err (InvalidLength n))
      else if n * 8 > remaining_bits d then (d, Err (BufferUnderflow (n * 8) (remaining_bits d)))
      else read_bytes_loop n d)"

text \<open>The loops that gather an unsigned number octet by octet.\<close>

fun read_octets_word :: "nat \<Rightarrow> u64 \<Rightarrow> (AperDecoder, u64) per" where
  "read_octets_word 0 v = per_return v"
| "read_octets_word (Suc n) v = per_bind (read_bits 8) (\<lambda>b. read_octets_word n (push_bit 8 v OR b))"

function decode_constrained_whole_number :: "Constraint \<Rightarrow> (AperDecoder, int) per" where
  "decode_constrained_whole_number c =
     (let range = constraint_range c
      in if range = 1 then per_return (c_min c)
         else
           per_bind
             (if range \<le> 255 then read_bits (bits_needed c)
              else if range = 256 then per_bind dec_align (\<lambda>_. read_bits 8)
              else if range \<le> 65536 then per_bind dec_align (\<lambda>_. read_bits 16)
              else per_bind (decode_constrained_whole_number (constraint_new 1 (int (max_octets c)))) (\<lambda>n.
                   per_bind dec_align (\<lambda>_.
                   read_octets_word (i64_as_usize n) 0)))
             (\<lambda>offset.
                if range \<noteq> 0 \<and> offset \<ge> range
                then per_fail (DecodeError (''Decoded offset '' @ show_nat (unat offset) @
                  '' outside constraint range '' @ show_nat (unat range)))
                else per_return (as_i64 (of_int (c_min c) + offset))))"
  by pat_completeness auto
termination
  by (relation "measure (\<lambda>c. if constraint_range c > 65536 then 1 else 0)")
    (auto simp: small_range_le [OF max_octets_le])

declare decode_constrained_whole_number.simps [simp del]

definition decode_length_fragment :: "(AperDecoder, nat \<times> bool) per" where
  "decode_length_fragment =
     per_bind dec_align (\<lambda>_.
     per_bind (read_bits 8) (\<lambda>v.
       let first_byte = (ucast v :: u8)
       in if first_byte AND 0x80 = 0 then per_return (unat first_byte, False)
          else if first_byte AND 0x40 = 0
          then per_bind (read_bits 8) (\<lambda>w.
                 let second_byte = (ucast w :: u8)
                 in per_return (unat (push_bit 8 (ucast (first_byte AND 0x3F)) OR ucast second_byte :: u64), False))
          else
            let multiplier = unat (first_byte AND 0x3F)
            in if \<not> (1 \<le> multiplier \<and> multiplier \<le> 4) then per_fail (InvalidLength (multiplier * 16384))
               else per_return (multiplier * 16384, True)))"

definition decode_length_determinant :: "(AperDecoder, nat) per" where
  "decode_length_determinant =
     per_bind decode_length_fragment (\<lambda>(len, fragmented).
       if fragmented
       then per_fail (DecodeError ''Fragmented length determinant not permitted in this context'')
       else per_return len)"

definition signed_word :: "bytes \<Rightarrow> u64" where
  "signed_word bs =
     fold (\<lambda>b v. push_bit 8 v OR ucast b) bs (if bs ! 0 AND 0x80 \<noteq> 0 then -1 else 0)"

definition decode_unconstrained_whole_number :: "(AperDecoder, int) per" where
  "decode_unconstrained_whole_number =
     per_bind decode_length_determinant (\<lambda>len.
       if len = 0 \<or> len > 8 then per_fail (DecodeError (''Invalid unconstrained integer length: '' @ show_nat len))
       else per_bind dec_align (\<lambda>_.
            per_bind (read_bytes len) (\<lambda>bs. per_return (as_i64 (signed_word bs)))))"

definition decode_constrained_length :: "nat \<Rightarrow> nat \<Rightarrow> (AperDecoder, nat) per" where
  "decode_constrained_length mi ma =
     per_bind (decode_constrained_whole_number (constraint_new (usize_as_i64 mi) (usize_as_i64 ma)))
       (\<lambda>v. per_return (i64_as_usize v))"

definition decode_normally_small_non_negative :: "(AperDecoder, u64) per" where
  "decode_normally_small_non_negative =
     per_bind read_bit (\<lambda>large.
       if \<not> large then read_bits 6
       else per_bind decode_length_determinant (\<lambda>len.
            if len = 0 \<or> len > 8 then per_fail (DecodeError (''Invalid normally-small number length: '' @ show_nat len))
            else per_bind dec_align (\<lambda>_. read_octets_word len 0)))"

text \<open>\<^verbatim>\<open>i64::try_from\<close>, \<^verbatim>\<open>checked_add(1)\<close> and \<^verbatim>\<open>checked_add(i)\<close>: every step within the range of \<^verbatim>\<open>i64\<close>.\<close>

definition decode_enumerated :: "Constraint \<Rightarrow> (AperDecoder, int) per" where
  "decode_enumerated c =
     (if c_extensible c
      then per_bind read_bit (\<lambda>extended.
             if \<not> extended then decode_constrained_whole_number c
             else per_bind decode_normally_small_non_negative (\<lambda>index.
                  if uint index < 2 ^ 63 \<and> c_max c + 1 < 2 ^ 63 \<and> c_max c + 1 + uint index < 2 ^ 63
                  then per_return (c_max c + 1 + uint index)
                  else per_fail (DecodeError (''Enumerated extension index '' @ show_nat (unat index) @ '' too large''))))
      else decode_constrained_whole_number c)"

definition decode_choice_index :: "nat \<Rightarrow> bool \<Rightarrow> (AperDecoder, nat) per" where
  "decode_choice_index num_alternatives extensible =
     (if extensible
      then per_bind read_bit (\<lambda>extended.
             if \<not> extended
             then per_bind (decode_constrained_whole_number (choice_constraint num_alternatives))
                    (\<lambda>v. per_return (i64_as_usize v))
             else per_bind decode_normally_small_non_negative (\<lambda>ext_index.
                  if num_alternatives + unat ext_index < 2 ^ 64
                  then per_return (num_alternatives + unat ext_index)
                  else per_fail (DecodeError (''Choice extension index '' @ show_nat (unat ext_index) @ '' too large''))))
      else per_bind (decode_constrained_whole_number (choice_constraint num_alternatives))
             (\<lambda>v. per_return (i64_as_usize v)))"

subsection \<open>What a read does to the decoder\<close>

lemma per_bind_Ok:
  "per_bind m k s = (s', Ok y) \<longleftrightarrow> (\<exists>s1 x. m s = (s1, Ok x) \<and> k x s1 = (s', Ok y))"
  by (auto simp: per_bind_def split: prod.splits outcome.splits)

lemma per_return_Ok: "per_return x s = (s', Ok y) \<longleftrightarrow> s' = s \<and> x = y"
  by (auto simp: per_return_def)

lemma per_fail_Ok [simp]: "\<not> per_fail e s = (s', Ok y)"
  by (simp add: per_fail_def)

lemma read_bits_Ok:
  "read_bits n d = (d', Ok v) \<longleftrightarrow>
     d_position d + n \<le> length (d_data d) \<and> d' = d\<lparr>d_position := d_position d + n\<rparr> \<and>
     v = bits_word (take n (drop (d_position d) (d_data d)))"
  by (auto simp: read_bits_def)

lemma dec_align_Ok: "dec_align d = (d', Ok u) \<Longrightarrow> d_data d' = d_data d \<and> d_position d \<le> d_position d'"
  by (auto simp: dec_align_def Let_def split: if_split_asm)

lemma read_bytes_loop_Ok:
  "read_bytes_loop n d = (d', Ok bs) \<Longrightarrow>
     d_data d' = d_data d \<and> d_position d' = d_position d + 8 * n \<and> length bs = n \<and>
     (n > 0 \<longrightarrow> d_position d' \<le> length (d_data d))"
proof (induction n arbitrary: d bs)
  case (Suc n)
  then obtain v d1 cs where "read_bits 8 d = (d1, Ok v)" and rest: "read_bytes_loop n d1 = (d', Ok cs)"
    and "bs = ucast v # cs"
    by (auto simp: per_bind_Ok per_return_Ok)
  then show ?case using Suc.IH [OF rest] by (auto simp: read_bits_Ok)
qed (simp add: per_return_Ok)

lemma read_bytes_Ok:
  "read_bytes n d = (d', Ok bs) \<Longrightarrow>
     d_data d' = d_data d \<and> d_position d' = d_position d + 8 * n \<and> length bs = n"
  using read_bytes_loop_Ok by (auto simp: read_bytes_def split: if_split_asm)

lemma decode_length_fragment_Ok:
  assumes "decode_length_fragment d = (d', Ok r)"
  shows "d_data d' = d_data d \<and> d_position d < d_position d' \<and> d_position d' \<le> length (d_data d)"
proof -
  from assms obtain d1 u d2 v where "dec_align d = (d1, Ok u)" and "read_bits 8 d1 = (d2, Ok v)"
    and "d' = d2 \<or> (\<exists>w. read_bits 8 d2 = (d', Ok w))"
    by (auto simp: decode_length_fragment_def per_bind_Ok per_return_Ok Let_def split: if_split_asm)
  then show ?thesis using dec_align_Ok [of d d1 u] by (auto simp: read_bits_Ok)
qed

section \<open>Decoding strings\<close>

text \<open>
  The loop over the fragments of an octet string: \<open>acc\<close> is the data gathered so far. Every round reads
  at least a length octet, so the loop ends.
\<close>

function decode_octets_loop :: "bytes \<Rightarrow> (AperDecoder, bytes) per" where
  "decode_octets_loop acc d =
     (case decode_length_fragment d of
        (d1, Ok (len, fragmented)) \<Rightarrow>
          (case read_bytes len d1 of
             (d2, Ok bs) \<Rightarrow> if fragmented then decode_octets_loop (acc @ bs) d2 else (d2, Ok (acc @ bs))
           | (d2, Err e) \<Rightarrow> (d2, Err e)
           | (d2, Panic) \<Rightarrow> (d2, Panic))
      | (d1, Err e) \<Rightarrow> (d1, Err e)
      | (d1, Panic) \<Rightarrow> (d1, Panic))"
  by pat_completeness auto
termination
proof (relation "measure (\<lambda>(_, d). length (d_data d) - d_position d)", simp)
  fix acc bs :: bytes and d d1 d2 :: AperDecoder and r r2 x len fragmented
  assume "(d1, r) = decode_length_fragment d" and "r = Ok x" and "(len, fragmented) = x"
    and "(d2, r2) = read_bytes len d1" and "r2 = Ok bs"
  then have "decode_length_fragment d = (d1, Ok (len, fragmented))" and "read_bytes len d1 = (d2, Ok bs)"
    by simp_all
  then show "((acc @ bs, d2), acc, d) \<in> measure (\<lambda>(_, d). length (d_data d) - d_position d)"
    using decode_length_fragment_Ok read_bytes_Ok by fastforce
qed

declare decode_octets_loop.simps [simp del]

definition decode_octet_string :: "nat option \<Rightarrow> nat option \<Rightarrow> (AperDecoder, bytes) per" where
  "decode_octet_string min_len max_len =
     (case (min_len, max_len) of
        (Some mi, Some ma) \<Rightarrow>
          if mi = ma
          then per_bind (if mi > 2 then dec_align else per_return ()) (\<lambda>_. read_bytes mi)
          else per_bind (decode_constrained_length mi ma) (\<lambda>len.
               per_bind (if ma > 2 then dec_align else per_return ()) (\<lambda>_. read_bytes len))
      | _ \<Rightarrow> decode_octets_loop [])"

fun read_bits_loop :: "nat \<Rightarrow> (AperDecoder, bits) per" where
  "read_bits_loop 0 = per_return []"
| "read_bits_loop (Suc n) = per_bind read_bit (\<lambda>b. per_bind (read_bits_loop n) (\<lambda>bs. per_return (b # bs)))"

definition read_bit_slice :: "nat \<Rightarrow> (AperDecoder, bits) per" where
  "read_bit_slice len d =
     (if len > remaining_bits d then (d, Err (BufferUnderflow len (remaining_bits d)))
      else read_bits_loop len d)"

lemma read_bits_loop_Ok:
  "read_bits_loop n d = (d', Ok bs) \<Longrightarrow>
     d_data d' = d_data d \<and> d_position d' = d_position d + n \<and> length bs = n"
proof (induction n arbitrary: d bs)
  case (Suc n)
  then obtain b d1 cs where "read_bit d = (d1, Ok b)" and rest: "read_bits_loop n d1 = (d', Ok cs)"
    and "bs = b # cs"
    by (auto simp: per_bind_Ok per_return_Ok)
  then show ?case using Suc.IH [OF rest] by (auto simp: read_bit_def split: if_split_asm)
qed (simp add: per_return_Ok)

lemma read_bit_slice_Ok:
  "read_bit_slice n d = (d', Ok bs) \<Longrightarrow>
     d_data d' = d_data d \<and> d_position d' = d_position d + n \<and> length bs = n"
  using read_bits_loop_Ok by (auto simp: read_bit_slice_def split: if_split_asm)

function decode_bits_loop :: "bits \<Rightarrow> (AperDecoder, bits) per" where
  "decode_bits_loop acc d =
     (case decode_length_fragment d of
        (d1, Ok (len, fragmented)) \<Rightarrow>
          (case read_bit_slice len d1 of
             (d2, Ok bs) \<Rightarrow> if fragmented then decode_bits_loop (acc @ bs) d2 else (d2, Ok (acc @ bs))
           | (d2, Err e) \<Rightarrow> (d2, Err e)
           | (d2, Panic) \<Rightarrow> (d2, Panic))
      | (d1, Err e) \<Rightarrow> (d1, Err e)
      | (d1, Panic) \<Rightarrow> (d1, Panic))"
  by pat_completeness auto
termination
proof (relation "measure (\<lambda>(_, d). length (d_data d) - d_position d)", simp)
  fix acc bs :: bits and d d1 d2 :: AperDecoder and r r2 x len fragmented
  assume "(d1, r) = decode_length_fragment d" and "r = Ok x" and "(len, fragmented) = x"
    and "(d2, r2) = read_bit_slice len d1" and "r2 = Ok bs"
  then have "decode_length_fragment d = (d1, Ok (len, fragmented))" and "read_bit_slice len d1 = (d2, Ok bs)"
    by simp_all
  then show "((acc @ bs, d2), acc, d) \<in> measure (\<lambda>(_, d). length (d_data d) - d_position d)"
    using decode_length_fragment_Ok read_bit_slice_Ok by fastforce
qed

declare decode_bits_loop.simps [simp del]

definition decode_bit_string :: "nat option \<Rightarrow> nat option \<Rightarrow> (AperDecoder, bits) per" where
  "decode_bit_string min_len max_len =
     (case (min_len, max_len) of
        (Some mi, Some ma) \<Rightarrow>
          if mi = ma
          then per_bind (if mi > 16 then dec_align else per_return ()) (\<lambda>_. read_bit_slice mi)
          else per_bind (decode_constrained_length mi ma) (\<lambda>len.
               per_bind (if ma > 16 then dec_align else per_return ()) (\<lambda>_. read_bit_slice len))
      | _ \<Rightarrow> decode_bits_loop [])"

section \<open>Coding a value: encoder and decoder together\<close>

text \<open>
  \<open>codes enc dec v\<close>: whatever has been written before, the encoder appends some bits, and the decoder
  that stands where they start reads exactly these bits and returns \<open>v\<close>, whatever follows them. The
  position counts for the alignment, so the buffer written so far is part of the statement.
\<close>

definition decoder_at :: "bits \<Rightarrow> bits \<Rightarrow> AperDecoder" where
  "decoder_at p r = \<lparr>d_data = p @ r, d_position = length p\<rparr>"

definition codes :: "(bits, unit) per \<Rightarrow> (AperDecoder, 'a) per \<Rightarrow> 'a \<Rightarrow> bool" where
  "codes enc dec v \<longleftrightarrow>
     (\<forall>buf. \<exists>w. enc buf = (buf @ w, Ok ()) \<and>
        (\<forall>rest. dec (decoder_at buf (w @ rest)) = (decoder_at (buf @ w) rest, Ok v)))"

named_theorems codes_intro \<open>codes rules for the primitives and the combinators\<close>

lemma codesI:
  "(\<And>buf. \<exists>w. enc buf = (buf @ w, Ok ()) \<and>
     (\<forall>rest. dec (decoder_at buf (w @ rest)) = (decoder_at (buf @ w) rest, Ok v))) \<Longrightarrow> codes enc dec v"
  by (simp add: codes_def)

lemma codes_bind:
  assumes "codes e1 d1 x" and "codes e2 (d2 x) v"
  shows "codes (per_bind e1 (\<lambda>_. e2)) (per_bind d1 d2) v"
proof (rule codesI)
  fix buf
  obtain w1 where w1: "e1 buf = (buf @ w1, Ok ())"
      "\<And>rest. d1 (decoder_at buf (w1 @ rest)) = (decoder_at (buf @ w1) rest, Ok x)"
    using assms(1) unfolding codes_def by blast
  obtain w2 where w2: "e2 (buf @ w1) = ((buf @ w1) @ w2, Ok ())"
      "\<And>rest. d2 x (decoder_at (buf @ w1) (w2 @ rest)) = (decoder_at ((buf @ w1) @ w2) rest, Ok v)"
    using assms(2) unfolding codes_def by blast
  show "\<exists>w. per_bind e1 (\<lambda>_. e2) buf = (buf @ w, Ok ()) \<and>
      (\<forall>rest. per_bind d1 d2 (decoder_at buf (w @ rest)) = (decoder_at (buf @ w) rest, Ok v))"
    by (rule exI [of _ "w1 @ w2"]) (use w1 w2 in \<open>simp add: per_bind_def\<close>)
qed

lemma codes_map: "codes e d x \<Longrightarrow> codes e (per_bind d (\<lambda>y. per_return (f y))) (f x)"
  unfolding codes_def per_bind_def per_return_def by fastforce

lemma codes_then: "codes e d x \<Longrightarrow> k x = per_return y \<Longrightarrow> codes e (per_bind d k) y"
  unfolding codes_def per_bind_def per_return_def by fastforce

lemma codes_return [codes_intro]: "codes (per_return ()) (per_return v) v"
  by (rule codesI, rule exI [of _ "[]"]) (simp add: per_return_def)

lemma codes_align [codes_intro]: "codes enc_align dec_align ()"
  by (rule codesI) (auto simp: enc_align_def dec_align_def decoder_at_def Let_def)

lemma codes_write_bit [codes_intro]: "codes (write_bit b) read_bit b"
  by (rule codesI) (auto simp: write_bit_def read_bit_def decoder_at_def nth_append)

lemma length_word_bits [simp]: "length (word_bits v n) = n"
  by (simp add: word_bits_def)

lemma bits_word_append:
  "n \<le> 64 \<Longrightarrow> fold (\<lambda>b v. push_bit 1 v OR of_bool b) (word_bits v n) a = push_bit n a OR take_bit n v"
proof (induction n arbitrary: a)
  case (Suc n)
  have "word_bits v (Suc n) = bit v n # word_bits v n"
    by (simp add: word_bits_def and_one_eq bit_iff_odd_drop_bit odd_iff_mod_2_eq_one)
  moreover have "push_bit n (push_bit 1 a OR of_bool (bit v n)) OR take_bit n v =
      push_bit (Suc n) a OR take_bit (Suc n) v"
    using Suc.prems by (intro bit_word_eqI) (auto simp: bit_simps less_Suc_eq)
  ultimately show ?case using Suc by simp
qed (simp add: word_bits_def)

lemma bits_word_bits: "n \<le> 64 \<Longrightarrow> bits_word (word_bits v n) = take_bit n v"
  unfolding bits_word_def by (subst bits_word_append) simp_all

lemma codes_write_bits:
  assumes "n \<le> 64" and "take_bit n v = v"
  shows "codes (write_bits v n) (read_bits n) v"
  by (rule codesI, rule exI [of _ "word_bits v n"])
    (simp add: write_bits_def read_bits_def decoder_at_def bits_word_bits assms)

lemma codes_write_octet: "codes (write_bits (ucast (b :: u8)) 8) (read_bits 8) (ucast b)"
  by (rule codes_write_bits) (simp, rule bit_word_eqI, auto simp: bit_simps dest: bit_imp_le_length)

lemma ucast_octet [simp]: "ucast (ucast (b :: u8) :: u64) = b"
  by (rule bit_word_eqI) (auto simp: bit_simps)

lemma codes_bytes_loop: "codes (write_bytes bs) (read_bytes_loop (length bs)) bs"
proof (induction bs)
  case (Cons b bs)
  have "codes (write_bytes bs) (per_bind (read_bytes_loop (length bs)) (\<lambda>cs. per_return (b # cs))) (b # bs)"
    using codes_map [OF Cons.IH, of "(#) b"] by simp
  from codes_bind [OF codes_write_octet [of b], of _ "\<lambda>v. per_bind (read_bytes_loop (length bs))
      (\<lambda>cs. per_return (ucast v # cs))"] this
  show ?case by simp
qed (simp add: codes_return)

lemma write_bytes_run: "write_bytes bs buf = (buf @ octets_bits bs, Ok ())"
  by (induction bs arbitrary: buf)
    (simp_all add: octets_bits_def per_return_def per_bind_def write_bits_def)

lemma length_octets_bits [simp]: "length (octets_bits bs) = 8 * length bs"
  by (induction bs) (simp_all add: octets_bits_def)

lemma codes_bytes:
  assumes "length bs * 8 < 2 ^ 64"
  shows "codes (write_bytes bs) (read_bytes (length bs)) bs"
proof (rule codesI)
  fix buf
  have "read_bytes (length bs) (decoder_at buf (octets_bits bs @ rest)) =
      read_bytes_loop (length bs) (decoder_at buf (octets_bits bs @ rest))" for rest
    using assms by (simp add: read_bytes_def remaining_bits_def decoder_at_def)
  then show "\<exists>w. write_bytes bs buf = (buf @ w, Ok ()) \<and>
      (\<forall>rest. read_bytes (length bs) (decoder_at buf (w @ rest)) = (decoder_at (buf @ w) rest, Ok bs))"
    using codes_bytes_loop [of bs] by (auto simp: codes_def write_bytes_run)
qed

lemma codes_octets:
  "n \<le> 8 \<Longrightarrow> codes (write_octets v n) (read_octets_word n a) (push_bit (8 * n) a OR take_bit (8 * n) v)"
proof (induction n arbitrary: a)
  case (Suc n)
  let ?b = "drop_bit (n * 8) v AND 0xFF"
  have b: "?b = take_bit 8 (drop_bit (n * 8) v)" by (simp add: take_bit_eq_mask mask_eq_exp_minus_1)
  have "codes (write_bits ?b 8) (read_bits 8) ?b"
    by (rule codes_write_bits) (simp_all add: b)
  moreover have "push_bit (8 * n) (push_bit 8 a OR ?b) OR take_bit (8 * n) v =
      push_bit (8 * Suc n) a OR take_bit (8 * Suc n) v"
    unfolding b using Suc.prems by (intro bit_word_eqI) (auto simp: bit_simps algebra_simps)
  then have "codes (write_octets v n) (read_octets_word n (push_bit 8 a OR ?b))
      (push_bit (8 * Suc n) a OR take_bit (8 * Suc n) v)"
    using Suc.IH [of "push_bit 8 a OR ?b"] Suc.prems by simp
  ultimately show ?case unfolding write_octets.simps read_octets_word.simps by (rule codes_bind)
qed (simp add: codes_return)

end
