(* ===== verification/Aper_Roundtrip.thy ===== *)
theory Aper_Roundtrip
  imports Aper
begin

text \<open>
  Round trips of the aligned PER coder: length determinants and fragmentation, constrained and
  unconstrained whole numbers, enumerations, choice indices and strings, each as a \<open>codes\<close> statement, and
  the interface \<open>aper_codec\<close> they implement, with what follows for sequences of values.
\<close>

section \<open>Length determinants\<close>

lemma octet_bit7: "(b :: u8) AND 0x80 = 0 \<longleftrightarrow> \<not> bit b 7"
  using and_exp_eq_0_iff_not_bit [of b 7] by simp

lemma octet_bit6: "(b :: u8) AND 0x40 = 0 \<longleftrightarrow> \<not> bit b 6"
  using and_exp_eq_0_iff_not_bit [of b 6] by simp

lemma octet_low6: "(b :: u8) AND 0x3F = take_bit 6 b"
  by (simp add: take_bit_eq_mask mask_eq_exp_minus_1)

lemma take_bit_below: "unat v < 2 ^ n \<Longrightarrow> take_bit n v = v" for v :: "'a::len word"
  by (simp add: word_unat_eq_iff unat_take_bit_mod)

lemma not_bit_above: "take_bit n v = v \<Longrightarrow> n \<le> i \<Longrightarrow> \<not> bit v i" for v :: "'a::len word"
  by (metis bit_take_bit_iff leD)

lemma word_bits_split: "m \<le> n \<Longrightarrow> word_bits v n = word_bits (drop_bit m v) (n - m) @ word_bits v m"
proof -
  assume "m \<le> n"
  have "rev [0..<n] = map (\<lambda>i. i + m) (rev [0..<n - m]) @ rev [0..<m]"
    using \<open>m \<le> n\<close> upt_add_eq_append [of 0 m "n - m"]
    by (simp add: rev_map [symmetric] map_add_upt flip: rev_append)
  then show ?thesis unfolding word_bits_def by (simp add: o_def drop_bit_drop_bit)
qed

lemma write_16_bits: "write_bits v 16 = per_bind (write_bits (drop_bit 8 v) 8) (\<lambda>_. write_bits v 8)"
  by (rule ext) (simp add: write_bits_def per_bind_def word_bits_split [of 8 16 v])

lemma word_bits_take: "word_bits (take_bit n v) n = word_bits v n"
proof -
  have "bit (take_bit n v) i = bit v i" if "i < n" for i using that by (simp add: bit_simps)
  then show ?thesis
    by (simp add: word_bits_def and_one_eq flip: odd_iff_mod_2_eq_one bit_iff_odd_drop_bit)
qed

lemma codes_write_low_octet: "codes (write_bits v 8) (read_bits 8) (take_bit 8 v)"
proof -
  have "write_bits v 8 = write_bits (take_bit 8 v) 8"
    by (rule ext) (simp add: write_bits_def word_bits_take)
  then show ?thesis by (simp add: codes_write_bits)
qed

lemma codes_short_length:
  assumes "len \<le> 127"
  shows "codes (encode_length_determinant len) decode_length_fragment (len, False)"
proof -
  let ?v = "of_nat len :: u64"
  have len: "unat ?v = len" using assms by (subst unat_of_nat) simp
  have "take_bit 7 ?v = ?v" and "take_bit 8 ?v = ?v"
    using assms len by (intro take_bit_below; simp)+
  then have rd: "codes (write_bits ?v 8) (read_bits 8) ?v" by (simp add: codes_write_bits)
  have "(ucast ?v :: u8) AND 0x80 = 0" unfolding octet_bit7
    using not_bit_above [OF \<open>take_bit 7 ?v = ?v\<close>, of 7] by (simp add: bit_simps)
  moreover have "unat (ucast ?v :: u8) = len"
    using assms len by (simp add: unsigned_ucast_eq take_bit_eq_mod)
  ultimately have "codes (write_bits ?v 8) (per_bind (read_bits 8) (\<lambda>v.
      let first_byte = (ucast v :: u8)
      in if first_byte AND 0x80 = 0 then per_return (unat first_byte, False) else k first_byte)) (len, False)" for k
    by (intro codes_then [OF rd]) simp
  then show ?thesis
    unfolding encode_length_determinant_def decode_length_fragment_def Let_def
    using assms by (intro codes_bind [OF codes_align]) simp
qed

lemma long_form_bits:
  fixes x y :: u64
  assumes y: "\<And>i. bit y i \<longleftrightarrow> i = 15 \<or> bit x i" and x: "\<And>i. bit x i \<Longrightarrow> i < 14"
  defines "first \<equiv> ucast (take_bit 8 (drop_bit 8 y)) :: u8"
  shows "bit first 7" and "\<not> bit first 6"
    and "push_bit 8 (ucast (take_bit 6 first)) OR ucast (ucast (take_bit 8 y) :: u8) = x"
proof -
  have "\<not> bit x 14" using x by blast
  then show "bit first 7" and "\<not> bit first 6" by (simp_all add: first_def bit_simps y)
  show "push_bit 8 (ucast (take_bit 6 first)) OR ucast (ucast (take_bit 8 y) :: u8) = x"
    unfolding first_def by (intro bit_word_eqI) (auto simp: bit_simps y dest: x)
qed

lemma codes_long_length:
  assumes "127 < len" and "len \<le> 16383"
  shows "codes (encode_length_determinant len) decode_length_fragment (len, False)"
proof -
  let ?v = "of_nat len :: u64" and ?w = "0x8000 OR of_nat len :: u64"
  have len: "unat ?v = len" using assms by (subst unat_of_nat) simp
  then have small: "take_bit 14 ?v = ?v" using assms by (intro take_bit_below) simp
  let ?first = "ucast (take_bit 8 (drop_bit 8 ?w)) :: u8"
  have "bit (0x8000 :: u64) i \<longleftrightarrow> i = 15" for i
    using bit_push_bit_iff [of 15 "1 :: u64" i] by (auto simp: bit_simps)
  then have w: "bit ?w i \<longleftrightarrow> i = 15 \<or> bit ?v i" for i by (simp only: bit_or_iff)
  have v: "i < 14" if "bit ?v i" for i using not_bit_above [OF small, of i] that by force
  note first = long_form_bits(1,2) [OF w v] and both = long_form_bits(3) [OF w v]
  have "codes (write_bits ?w 8) (per_bind (read_bits 8) (\<lambda>x.
      per_return (unat (push_bit 8 (ucast (take_bit 6 ?first)) OR ucast (ucast x :: u8) :: u64), False))) (len, False)"
    by (intro codes_then [OF codes_write_low_octet [of ?w]]) (simp only: both len)
  then show ?thesis
    unfolding encode_length_determinant_def decode_length_fragment_def Let_def
    using assms first
    by (intro codes_bind [OF codes_align])
      (simp add: write_16_bits octet_bit7 octet_bit6 octet_low6 codes_bind [OF codes_write_low_octet])
qed

lemma codes_length_fragment:
  "len \<le> 16383 \<Longrightarrow> codes (encode_length_determinant len) decode_length_fragment (len, False)"
  by (cases "len \<le> 127") (simp_all add: codes_short_length codes_long_length)

lemma codes_length_determinant:
  "len \<le> 16383 \<Longrightarrow> codes (encode_length_determinant len) decode_length_determinant len"
  unfolding decode_length_determinant_def by (rule codes_then [OF codes_length_fragment]) simp_all

section \<open>Numbers of bits and octets\<close>

lemma significant_bits: "k \<le> 64 \<Longrightarrow> 64 - leading_zeros v \<le> k \<longleftrightarrow> take_bit k v = v"
proof
  assume "k \<le> 64" and "64 - leading_zeros v \<le> k"
  have "i < k" if "bit v i" "i < 64" for i
  proof (rule ccontr)
    assume "\<not> i < k"
    let ?t = "takeWhile (\<lambda>i. \<not> bit v i) (rev [0..<64])"
    from that \<open>\<not> i < k\<close> have "63 - i < length ?t"
      using \<open>64 - leading_zeros v \<le> k\<close> by (simp add: leading_zeros_def)
    moreover from this have "?t ! (63 - i) = i" using that by (simp add: takeWhile_nth rev_nth)
    ultimately show False using that(1) by (metis nth_mem set_takeWhileD)
  qed
  then show "take_bit k v = v" by (intro bit_word_eqI) (auto simp: bit_simps)
next
  assume "k \<le> 64" and "take_bit k v = v"
  then have "\<not> bit v i" if "k \<le> i" for i using not_bit_above that by blast
  moreover have "rev [0..<64] = rev [k..<64] @ rev [0..<k]"
    using \<open>k \<le> 64\<close> upt_add_eq_append [of 0 k "64 - k"] by (simp flip: rev_append)
  ultimately have "leading_zeros v = length (rev [k..<64] @ takeWhile (\<lambda>i. \<not> bit v i) (rev [0..<k]))"
    unfolding leading_zeros_def by (subst \<open>rev [0..<64] = _\<close>, subst takeWhile_append2) simp_all
  then show "64 - leading_zeros v \<le> k" using \<open>k \<le> 64\<close> by simp
qed

lemma take_bit_mono:
  assumes "(v :: u64) \<le> w" and "take_bit k w = w"
  shows "take_bit k v = v"
proof (cases "k < 64")
  case True
  then have "w < 2 ^ k" using assms(2) word_below_power [of k w] by simp
  then have "v < 2 ^ k" using assms(1) by simp
  then show ?thesis using True word_below_power [of k v] by simp
next
  case False
  then show ?thesis by (intro bit_word_eqI) (auto simp: bit_simps)
qed

lemma significant_bits_mono: "(v :: u64) \<le> w \<Longrightarrow> 64 - leading_zeros v \<le> 64 - leading_zeros w"
  using significant_bits [of "64 - leading_zeros w" v] significant_bits [of "64 - leading_zeros w" w]
    take_bit_mono by simp

lemma offset_octets_bits: "take_bit (8 * offset_octets v) v = v"
proof (cases "v = 0")
  case False
  let ?n = "64 - leading_zeros v"
  have "?n \<le> 8 * ((?n + 7) div 8)" and "8 * ((?n + 7) div 8) \<le> 64"
    using div_le_mono [of "?n + 7" 71 8] by simp_all
  then show ?thesis using False significant_bits [of "8 * ((?n + 7) div 8)" v] by (simp add: offset_octets_def)
qed simp

lemma offset_octets_range:
  assumes "(v :: u64) \<le> constraint_range c - 1" and "constraint_range c > 1"
  shows "1 \<le> offset_octets v" and "offset_octets v \<le> max_octets c" and "offset_octets v \<le> 8"
proof -
  have "v \<noteq> 0 \<Longrightarrow> 0 < 64 - leading_zeros v"
    using significant_bits [of 0 v] by auto
  then show "1 \<le> offset_octets v"
    by (simp add: offset_octets_def Suc_le_eq div_greater_zero_iff)
  have b: "bits_needed c = 64 - leading_zeros (constraint_range c - 1)"
    using assms(2) by (simp add: bits_needed_def Let_def)
  have "0 < bits_needed c"
  proof -
    have "constraint_range c - 1 \<noteq> 0" using assms(2) by auto
    then show ?thesis using significant_bits [of 0 "constraint_range c - 1"] b by auto
  qed
  then show "offset_octets v \<le> max_octets c"
    using significant_bits_mono [OF assms(1)] b
    by (auto simp: offset_octets_def max_octets_def intro!: div_le_mono)
  then show "offset_octets v \<le> 8" using max_octets_le [of c] by simp
qed

section \<open>Constrained whole numbers\<close>

text \<open>
  Constraints between \<^verbatim>\<open>i64\<close> bounds, short of the one that spans all of \<^verbatim>\<open>i64\<close>, whose range of \<open>2 ^ 64\<close>
  does not fit the \<^verbatim>\<open>u64\<close> it is computed in.
\<close>

definition i64 :: "int \<Rightarrow> bool" where
  "i64 v \<longleftrightarrow> - (2 ^ 63) \<le> v \<and> v < 2 ^ 63"

definition constraint_wf :: "Constraint \<Rightarrow> bool" where
  "constraint_wf c \<longleftrightarrow> i64 (c_min c) \<and> i64 (c_max c) \<and> c_max c - c_min c < 2 ^ 64 - 1"

lemma as_i64_of_int: "i64 v \<Longrightarrow> as_i64 (of_int v) = v"
  by (simp add: as_i64_def i64_def int_word_sint)

lemma offset_below:
  assumes "constraint_wf c" and "c_min c \<le> v" and "v \<le> c_max c"
  defines "offset \<equiv> of_int (v - c_min c) :: u64"
  shows "uint offset = v - c_min c" and "uint (constraint_range c) = c_max c - c_min c + 1"
    and "offset \<le> constraint_range c - 1" and "offset < constraint_range c" and "constraint_range c \<noteq> 0"
proof -
  have "c_max c - c_min c < 2 ^ 64 - 1" using assms(1) by (simp add: constraint_wf_def)
  then show o: "uint offset = v - c_min c"
    using assms(2,3) unfolding offset_def uint_word_of_int_eq by (simp add: take_bit_int_eq_self)
  have r: "constraint_range c = of_int (c_max c - c_min c + 1)"
    using assms(2,3) by (simp add: constraint_range_def)
  then show ur: "uint (constraint_range c) = c_max c - c_min c + 1"
    using assms(2,3) \<open>c_max c - c_min c < 2 ^ 64 - 1\<close>
    by (simp only: uint_word_of_int_eq) (simp add: take_bit_int_eq_self)
  then show "offset < constraint_range c" using o assms(2,3) by (simp add: word_less_def)
  then show "constraint_range c \<noteq> 0" by auto
  have "constraint_range c - 1 = of_int (c_max c - c_min c)" by (simp add: r)
  then have "uint (constraint_range c - 1) = c_max c - c_min c"
    using assms(2,3) \<open>c_max c - c_min c < 2 ^ 64 - 1\<close>
    by (simp only: uint_word_of_int_eq) (simp add: take_bit_int_eq_self)
  then show "offset \<le> constraint_range c - 1" using o assms(3) by (simp add: word_le_def)
qed

text \<open>The decoder's last step: an offset below the range is the value again.\<close>

lemma constrained_finish:
  assumes "constraint_wf c" and "c_min c \<le> v" and "v \<le> c_max c"
  defines "offset \<equiv> of_int (v - c_min c) :: u64"
  shows "(if constraint_range c \<noteq> 0 \<and> offset \<ge> constraint_range c then f else
    per_return (as_i64 (of_int (c_min c) + offset))) = per_return v"
proof -
  have "i64 v" using assms(1-3) by (auto simp: constraint_wf_def i64_def)
  then have "as_i64 (of_int (c_min c) + offset) = v" by (simp add: offset_def as_i64_of_int)
  moreover have "\<not> constraint_range c \<le> offset"
    using offset_below(4) [OF assms(1-3)] by (simp add: offset_def)
  ultimately show ?thesis by simp
qed

lemma codes_constrained_small:
  assumes "constraint_wf c" and "c_min c \<le> v" and "v \<le> c_max c" and "constraint_range c \<le> 65536"
  shows "codes (encode_constrained_whole_number v c) (decode_constrained_whole_number c) v"
proof -
  let ?r = "constraint_range c" and ?o = "of_int (v - c_min c) :: u64"
  note o = offset_below [OF assms(1-3)]
  have bits: "bits_needed c \<le> 64" "take_bit (bits_needed c) ?o = ?o" if "?r \<noteq> 1"
  proof -
    have "bits_needed c = 64 - leading_zeros (?r - 1)"
      using that o(5) by (simp add: bits_needed_def Let_def word_le_nat_alt le_Suc_eq unat_eq_zero)
        (metis unat_1 word_unat_eq_iff One_nat_def)
    then show "bits_needed c \<le> 64" and "take_bit (bits_needed c) ?o = ?o"
      using significant_bits [of "64 - leading_zeros (?r - 1)" "?r - 1"] take_bit_mono [OF o(3)] by simp_all
  qed
  have fits: "take_bit n ?o = ?o" if "unat ?r \<le> 2 ^ n" for n
    using o(4) that by (intro take_bit_below) (simp add: word_less_nat_alt)
  have encode: "encode_constrained_whole_number v c =
      (if ?r = 1 then per_return () else if ?r \<le> 255 then write_bits ?o (bits_needed c)
       else if ?r = 256 then per_bind enc_align (\<lambda>_. write_bits ?o 8)
       else per_bind enc_align (\<lambda>_. write_bits ?o 16))"
    using assms(2-4) by (simp add: encode_constrained_whole_number.simps Let_def)
  have decode: "decode_constrained_whole_number c =
      (if ?r = 1 then per_return (c_min c) else per_bind
         (if ?r \<le> 255 then read_bits (bits_needed c)
          else if ?r = 256 then per_bind dec_align (\<lambda>_. read_bits 8)
          else per_bind dec_align (\<lambda>_. read_bits 16))
         (\<lambda>offset. if ?r \<noteq> 0 \<and> offset \<ge> ?r
            then per_fail (DecodeError (''Decoded offset '' @ show_nat (unat offset) @
              '' outside constraint range '' @ show_nat (unat ?r)))
            else per_return (as_i64 (of_int (c_min c) + offset))))"
    using assms(4) by (simp add: decode_constrained_whole_number.simps [of c] Let_def)
  note finish = constrained_finish [OF assms(1-3)]
  consider "?r = 1" | "?r \<noteq> 1" "?r \<le> 255" | "\<not> ?r \<le> 255" "?r = 256" | "?r \<noteq> 1" "\<not> ?r \<le> 255" "?r \<noteq> 256"
    by (cases "?r = 256") auto
  then show ?thesis
  proof cases
    case 1
    then have "v = c_min c" using o(2) assms(2,3) by simp
    then have "codes (per_return ()) (per_return (c_min c)) v" using codes_return by simp
    then show ?thesis unfolding encode decode if_P [OF 1] .
  next
    case 2
    have "codes (write_bits ?o (bits_needed c)) (read_bits (bits_needed c)) ?o"
      using bits [OF 2(1)] by (rule codes_write_bits)
    then show ?thesis using 2 by (simp only: encode decode if_True if_False simp_thms)
        (rule codes_then, assumption, rule finish)
  next
    case 3
    have "codes (per_bind enc_align (\<lambda>_. write_bits ?o 8)) (per_bind dec_align (\<lambda>_. read_bits 8)) ?o"
      by (rule codes_bind [OF codes_align codes_write_bits [OF _ fits]]) (simp_all add: 3)
    moreover have "?r \<noteq> 1" unfolding 3(2) by simp
    ultimately show ?thesis unfolding encode decode if_not_P [OF 3(1)] if_P [OF 3(2)]
      by (simp only: if_False) (rule codes_then, assumption, rule finish)
  next
    case 4
    have "codes (per_bind enc_align (\<lambda>_. write_bits ?o 16)) (per_bind dec_align (\<lambda>_. read_bits 16)) ?o"
      using assms(4) by (intro codes_bind [OF codes_align codes_write_bits [OF _ fits]]) (simp_all add: word_le_nat_alt)
    then show ?thesis using 4 by (simp only: encode decode if_True if_False simp_thms)
        (rule codes_then, assumption, rule finish)
  qed
qed

lemma i64_as_usize_int: "n < 2 ^ 64 \<Longrightarrow> i64_as_usize (int n) = n"
  by (simp add: i64_as_usize_def unat_of_nat)

lemma codes_constrained:
  assumes "constraint_wf c" and "c_min c \<le> v" and "v \<le> c_max c"
  shows "codes (encode_constrained_whole_number v c) (decode_constrained_whole_number c) v"
proof (cases "constraint_range c \<le> 65536")
  case False
  let ?r = "constraint_range c" and ?o = "of_int (v - c_min c) :: u64"
  let ?n = "offset_octets ?o" and ?lc = "constraint_new 1 (int (max_octets c))"
  note o = offset_below [OF assms]
  have big: "?r > 65536" using False by simp
  then have r1: "?r > 1" by (rule order.strict_trans [rotated]) simp
  have nocase: "?r \<noteq> 1" "\<not> ?r \<le> 255" "?r \<noteq> 256" using big by (auto simp: word_le_nat_alt word_less_nat_alt)
  note n = offset_octets_range [OF o(3) r1]
  have encode: "encode_constrained_whole_number v c =
      per_bind (encode_constrained_whole_number (int ?n) ?lc) (\<lambda>_. per_bind enc_align (\<lambda>_. write_octets ?o ?n))"
    using assms(2,3) False nocase by (subst encode_constrained_whole_number.simps) (simp add: Let_def)
  have decode: "decode_constrained_whole_number c =
      per_bind (per_bind (decode_constrained_whole_number ?lc) (\<lambda>n. per_bind dec_align (\<lambda>_.
        read_octets_word (i64_as_usize n) 0)))
      (\<lambda>offset. if ?r \<noteq> 0 \<and> offset \<ge> ?r
            then per_fail (DecodeError (''Decoded offset '' @ show_nat (unat offset) @
              '' outside constraint range '' @ show_nat (unat ?r)))
            else per_return (as_i64 (of_int (c_min c) + offset)))"
    using False nocase by (subst decode_constrained_whole_number.simps) (simp add: Let_def)
  have "constraint_wf ?lc" and "\<not> constraint_range ?lc > 65536"
    using max_octets_le [of c] small_range_le [OF max_octets_le, of c]
    by (simp_all add: constraint_wf_def i64_def constraint_new_def)
  then have len: "codes (encode_constrained_whole_number (int ?n) ?lc) (decode_constrained_whole_number ?lc) (int ?n)"
    using n by (intro codes_constrained_small) (simp_all add: constraint_new_def)
  have "codes (write_octets ?o ?n) (read_octets_word ?n 0) ?o"
    using codes_octets [OF n(3), of ?o 0] offset_octets_bits [of ?o] by simp
  moreover have "i64_as_usize (int ?n) = ?n" using n(3) by (simp add: i64_as_usize_int)
  ultimately have body: "codes (per_bind enc_align (\<lambda>_. write_octets ?o ?n))
      (per_bind dec_align (\<lambda>_. read_octets_word (i64_as_usize (int ?n)) 0)) ?o"
    by (intro codes_bind [OF codes_align]) simp
  show ?thesis unfolding encode decode
    by (rule codes_then [OF codes_bind [OF len]], rule body, rule constrained_finish [OF assms])
qed (rule codes_constrained_small [OF assms])

section \<open>Octets of unbounded numbers\<close>

definition be_word :: "bytes \<Rightarrow> u64 \<Rightarrow> u64" where
  "be_word bs a = fold (\<lambda>b v. push_bit 8 v OR ucast b) bs a"

lemma be_word_simps [simp]:
  "be_word [] a = a" "be_word (b # bs) a = be_word bs (push_bit 8 a OR ucast b)"
  "be_word (bs @ cs) a = be_word cs (be_word bs a)"
  by (simp_all add: be_word_def)

lemma codes_bytes_word: "codes (write_bytes bs) (read_octets_word (length bs) a) (be_word bs a)"
proof (induction bs arbitrary: a)
  case (Cons b bs)
  from codes_bind [OF codes_write_octet [of b], of "write_bytes bs"
      "\<lambda>v. read_octets_word (length bs) (push_bit 8 a OR v)"] Cons.IH
  show ?case by simp
qed (simp add: codes_return)

lemma low_octet: "(v :: u64) AND 0xFF = take_bit 8 v"
  by (simp add: take_bit_eq_mask mask_eq_exp_minus_1)

lemma be_word_unsigned: "be_word (rev (unsigned_octets v)) 0 = v"
proof (induction v rule: unsigned_octets.induct)
  case (1 v)
  have "push_bit 8 (drop_bit 8 v) OR ucast (ucast (v AND 0xFF) :: u8) = v"
    by (rule bit_word_eqI) (auto simp: low_octet bit_simps)
  then show ?case
    using 1 by (cases "v = 0") (simp_all add: unsigned_octets.simps [of v] unsigned_octets.simps [of 0] word_gt_0)
qed

lemma unsigned_octets_length: "take_bit (8 * n) v = v \<Longrightarrow> length (unsigned_octets v) \<le> n"
proof (induction n arbitrary: v)
  case (Suc n)
  have "i < 8 + 8 * n" if "bit v i" for i using not_bit_above [OF Suc.prems, of i] that by force
  then have "take_bit (8 * n) (drop_bit 8 v) = drop_bit 8 v"
    by (intro bit_word_eqI) (force simp: bit_simps)
  then show ?case using Suc.IH by (simp add: unsigned_octets.simps [of v])
qed (simp add: unsigned_octets.simps)

lemma unsigned_octets_nth:
  "i < length (unsigned_octets v) \<Longrightarrow> unsigned_octets v ! i = ucast (drop_bit (8 * i) v)"
proof (induction v arbitrary: i rule: unsigned_octets.induct)
  case (1 v)
  then have "v > 0" by (auto simp: unsigned_octets.simps [of v] split: if_split_asm)
  have low: "(ucast (v AND 0xFF) :: u8) = ucast v"
    by (rule bit_word_eqI) (auto simp: low_octet bit_simps)
  show ?case
    using 1 \<open>v > 0\<close> low by (cases i) (simp_all add: unsigned_octets.simps [of v] drop_bit_drop_bit add.commute)
qed

lemma unsigned_octets_nonempty: "v \<noteq> 0 \<Longrightarrow> unsigned_octets v \<noteq> []"
  by (simp add: unsigned_octets.simps word_gt_0)

lemma unsigned_octets_le_8: "length (unsigned_octets v) \<le> 8"
  by (rule unsigned_octets_length) (rule bit_word_eqI, simp add: bit_simps)

lemma signed_step: "push_bit 8 (of_int (v div 256)) OR ucast (of_int v :: u8) = (of_int v :: u64)"
proof -
  have "v div 256 = drop_bit 8 v" by (simp add: drop_bit_eq_div)
  then show ?thesis by (intro bit_word_eqI) (auto simp: bit_simps)
qed

lemma octet_sign: "(of_int v :: u8) AND 0x80 \<noteq> 0 \<longleftrightarrow> odd (v div 128)"
proof -
  have "bit (of_int v :: u8) 7 \<longleftrightarrow> bit v 7" by (simp add: bit_simps)
  then show ?thesis using bit_iff_odd [of v 7] by (simp add: octet_bit7)
qed

lemma signed_octets_spec:
  "v < 0 \<Longrightarrow> be_word (rev (signed_octets v)) (-1) = of_int v \<and> signed_octets v \<noteq> [] \<and>
     last (signed_octets v) AND 0x80 \<noteq> 0"
proof (induction v rule: signed_octets.induct)
  case (1 v)
  let ?b = "of_int v :: u8"
  have neg: "v div 256 < 0" using 1(2) by (simp add: neg_imp_zdiv_neg_iff)
  show ?case
  proof (cases "v div 256 = -1 \<and> ?b AND 0x80 \<noteq> 0")
    case True
    then have "signed_octets v = [?b]" by (simp add: signed_octets.simps [of v])
    then show ?thesis using True signed_step [of v] by simp
  next
    case False
    then have "signed_octets v = ?b # signed_octets (v div 256)"
      using neg by (auto simp: signed_octets.simps [of v] Let_def)
    moreover have "be_word (rev (signed_octets (v div 256))) (-1) = of_int (v div 256) \<and>
        signed_octets (v div 256) \<noteq> [] \<and> last (signed_octets (v div 256)) AND 0x80 \<noteq> 0"
      using neg False by (intro 1(1) refl) auto
    ultimately show ?thesis using signed_step [of v] by simp
  qed
qed

lemma signed_octets_length: "v < 0 \<Longrightarrow> - (2 ^ (8 * n + 7)) \<le> v \<Longrightarrow> length (signed_octets v) \<le> Suc n"
proof (induction n arbitrary: v)
  case 0
  then have "v div 256 = -1" and "v div 128 = -1" by (simp; presburger)+
  then show ?case using octet_sign [of v] by (simp add: signed_octets.simps [of v] Let_def)
next
  case (Suc n)
  have "- (2 ^ (8 * n + 7)) \<le> v div 256"
    using zdiv_mono1 [OF Suc.prems(2), of 256] by (simp add: power_add)
  moreover have "v div 256 < 0" using Suc.prems(1) by (simp add: neg_imp_zdiv_neg_iff)
  ultimately have "length (signed_octets (v div 256)) \<le> Suc n" using Suc.IH by blast
  then show ?case by (simp add: signed_octets.simps [of v] Let_def)
qed

section \<open>Unconstrained and normally small numbers\<close>

lemma unconstrained_octets_spec:
  assumes "i64 v"
  defines "bs \<equiv> unconstrained_octets v"
  shows "1 \<le> length bs" and "length bs \<le> 8" and "as_i64 (signed_word bs) = v"
proof -
  have "1 \<le> length bs \<and> length bs \<le> 8 \<and> signed_word bs = of_int v"
  proof (cases "v > 0")
    case True
    let ?u = "unsigned_octets (of_int v :: u64)"
    have "uint (of_int v :: u64) = v"
      using True assms(1) by (simp add: i64_def uint_word_of_int_eq take_bit_int_eq_self)
    then have "(of_int v :: u64) \<noteq> 0" using True by auto
    then have ne: "?u \<noteq> []" by (rule unsigned_octets_nonempty)
    have top: "rev ?u ! 0 = ucast (drop_bit (8 * (length ?u - 1)) (of_int v :: u64))"
      using ne by (simp add: rev_nth unsigned_octets_nth)
    have "\<not> bit (of_int v :: u64) 63"
    proof -
      have "v div 2 ^ 63 = 0" using True assms(1) by (simp add: i64_def)
      then have "\<not> bit v 63" by (simp add: bit_iff_odd)
      then show ?thesis by (simp add: bit_word_of_int_iff)
    qed
    then have "length ?u \<le> 7 \<or> \<not> bit (rev ?u ! 0) 7"
      using unsigned_octets_le_8 [of "of_int v"] top by (auto simp: bit_simps le_Suc_eq numeral_eq_Suc)
    moreover have "bs = (if bit (rev ?u ! 0) 7 then 0 # rev ?u else rev ?u)"
      using True octet_bit7 by (simp add: bs_def unconstrained_octets_def)
    moreover have "signed_word (0 # rev ?u) = of_int v"
      using be_word_unsigned [of "of_int v"] by (simp add: signed_word_def be_word_def)
    moreover have "signed_word (rev ?u) = of_int v" if "\<not> bit (rev ?u ! 0) 7"
      using be_word_unsigned [of "of_int v"] that by (simp add: signed_word_def be_word_def octet_bit7)
    ultimately show ?thesis using ne unsigned_octets_le_8 [of "of_int v"] by (auto simp: Suc_le_eq)
  next
    case False
    show ?thesis
    proof (cases "v = 0")
      case True
      then show ?thesis by (simp add: bs_def unconstrained_octets_def signed_word_def)
    next
      case neg: False
      with False have "v < 0" by simp
      note spec = signed_octets_spec [OF this]
      have "length (signed_octets v) \<le> 8"
        using signed_octets_length [OF \<open>v < 0\<close>, of 7] assms(1) by (simp add: i64_def)
      moreover have "bs = rev (signed_octets v)" using \<open>v < 0\<close> by (simp add: bs_def unconstrained_octets_def)
      moreover have "rev (signed_octets v) ! 0 = last (signed_octets v)"
        using spec by (simp add: rev_nth last_conv_nth)
      ultimately show ?thesis using spec by (simp add: signed_word_def be_word_def Suc_le_eq)
    qed
  qed
  then show "1 \<le> length bs" and "length bs \<le> 8" and "as_i64 (signed_word bs) = v"
    using as_i64_of_int [OF assms(1)] by simp_all
qed

lemma codes_unconstrained:
  assumes "i64 v"
  shows "codes (encode_unconstrained_whole_number v) decode_unconstrained_whole_number v"
proof -
  let ?bs = "unconstrained_octets v"
  note bs = unconstrained_octets_spec [OF assms]
  have "codes (per_bind enc_align (\<lambda>_. write_bytes ?bs)) (per_bind dec_align (\<lambda>_.
      per_bind (read_bytes (length ?bs)) (\<lambda>bs. per_return (as_i64 (signed_word bs))))) v"
    using bs by (intro codes_bind [OF codes_align] codes_then [OF codes_bytes]) simp_all
  moreover have "\<not> (length ?bs = 0 \<or> length ?bs > 8)" using bs by auto
  ultimately have "codes (per_bind enc_align (\<lambda>_. write_bytes ?bs))
      (if length ?bs = 0 \<or> length ?bs > 8
       then per_fail (DecodeError (''Invalid unconstrained integer length: '' @ show_nat (length ?bs)))
       else per_bind dec_align (\<lambda>_. per_bind (read_bytes (length ?bs)) (\<lambda>bs. per_return (as_i64 (signed_word bs))))) v"
    by (simp only: if_False)
  then show ?thesis
    unfolding encode_unconstrained_whole_number_def decode_unconstrained_whole_number_def Let_def
    using bs(2) by (intro codes_bind [OF codes_length_determinant]) simp_all
qed

lemma codes_normally_small: "codes (encode_normally_small_non_negative v) decode_normally_small_non_negative v"
proof (cases "v \<le> 63")
  case True
  then have "take_bit 6 v = v" by (intro take_bit_below) (simp add: word_le_nat_alt)
  then have "codes (write_bits v 6) (read_bits 6) v" by (simp add: codes_write_bits)
  then show ?thesis
    unfolding encode_normally_small_non_negative_def decode_normally_small_non_negative_def if_P [OF True]
    by (intro codes_bind [OF codes_write_bit]) simp
next
  case False
  let ?bs = "rev (unsigned_octets v)"
  have "v \<noteq> 0" using False by auto
  then have len: "length ?bs \<noteq> 0" "length ?bs \<le> 8"
    using unsigned_octets_nonempty unsigned_octets_le_8 by auto
  have "codes (per_bind enc_align (\<lambda>_. write_bytes ?bs)) (per_bind dec_align (\<lambda>_. read_octets_word (length ?bs) 0)) v"
    using codes_bytes_word [of ?bs 0] be_word_unsigned [of v] by (intro codes_bind [OF codes_align]) simp
  moreover have "\<not> (length ?bs = 0 \<or> length ?bs > 8)" using len by auto
  ultimately have "codes (per_bind enc_align (\<lambda>_. write_bytes ?bs))
      (if length ?bs = 0 \<or> length ?bs > 8
       then per_fail (DecodeError (''Invalid normally-small number length: '' @ show_nat (length ?bs)))
       else per_bind dec_align (\<lambda>_. read_octets_word (length ?bs) 0)) v"
    by (simp only: if_False)
  then have "codes (per_bind (encode_length_determinant (length ?bs)) (\<lambda>_. per_bind enc_align (\<lambda>_. write_bytes ?bs)))
      (per_bind decode_length_determinant (\<lambda>len. if len = 0 \<or> len > 8
       then per_fail (DecodeError (''Invalid normally-small number length: '' @ show_nat len))
       else per_bind dec_align (\<lambda>_. read_octets_word len 0))) v"
    using len by (intro codes_bind [OF codes_length_determinant]) simp_all
  then show ?thesis
    unfolding encode_normally_small_non_negative_def decode_normally_small_non_negative_def Let_def
      if_not_P [OF False]
    by (intro codes_bind [OF codes_write_bit]) simp
qed

section \<open>Enumerations and choices\<close>

definition enumerated_ok :: "Constraint \<Rightarrow> int \<Rightarrow> bool" where
  "enumerated_ok c v \<longleftrightarrow>
     c_min c \<le> v \<and> v \<le> c_max c \<or> c_extensible c \<and> c_max c < v \<and> i64 v \<and> v - c_max c \<le> 2 ^ 63"

lemma codes_enumerated:
  assumes "constraint_wf c" and "enumerated_ok c v"
  shows "codes (encode_enumerated v c) (decode_enumerated c) v"
proof (cases "c_min c \<le> v \<and> v \<le> c_max c")
  case True
  then have "codes (encode_constrained_whole_number v c) (decode_constrained_whole_number c) v"
    using assms(1) by (intro codes_constrained) simp_all
  then show ?thesis
    using True unfolding encode_enumerated_def decode_enumerated_def Let_def
    by (cases "c_extensible c") (auto intro!: codes_bind [OF codes_write_bit])
next
  case False
  then have ext: "c_extensible c" "c_max c < v" "i64 v" "v - c_max c \<le> 2 ^ 63"
    using assms(2) by (auto simp: enumerated_ok_def)
  let ?i = "of_int (v - c_max c - 1) :: u64"
  have "uint ?i = v - c_max c - 1"
    unfolding uint_word_of_int_eq using ext by (simp add: take_bit_int_eq_self)
  then have fin: "(if uint ?i < 2 ^ 63 \<and> c_max c + 1 < 2 ^ 63 \<and> c_max c + 1 + uint ?i < 2 ^ 63
      then per_return (c_max c + 1 + uint ?i) else e) = per_return v" for e :: "(AperDecoder, int) per"
    using ext by (simp add: i64_def)
  have "codes (encode_normally_small_non_negative ?i) (per_bind decode_normally_small_non_negative (\<lambda>index.
      if uint index < 2 ^ 63 \<and> c_max c + 1 < 2 ^ 63 \<and> c_max c + 1 + uint index < 2 ^ 63
      then per_return (c_max c + 1 + uint index)
      else per_fail (DecodeError (''Enumerated extension index '' @ show_nat (unat index) @ '' too large'')))) v"
    by (rule codes_then [OF codes_normally_small]) (rule fin)
  then show ?thesis
    using ext False unfolding encode_enumerated_def decode_enumerated_def Let_def
    by (simp only: if_True) (rule codes_bind [OF codes_write_bit], simp)
qed

lemma usize_as_i64_small: "n < 2 ^ 63 \<Longrightarrow> usize_as_i64 n = int n"
  using as_i64_of_int [of "int n"] by (simp add: usize_as_i64_def i64_def)

lemma choice_constraint_max:
  assumes "0 < n" and "n < 2 ^ 63"
  shows "choice_constraint n = constraint_new 0 (int n - 1)"
proof -
  have "(of_nat n - 1 :: u64) = of_int (int n - 1)" by simp
  then show ?thesis using as_i64_of_int [of "int n - 1"] assms by (simp add: choice_constraint_def i64_def)
qed

definition choice_ok :: "nat \<Rightarrow> bool \<Rightarrow> nat \<Rightarrow> bool" where
  "choice_ok n extensible i \<longleftrightarrow> i < n \<or> extensible \<and> i < 2 ^ 64"

lemma codes_choice_index:
  assumes "0 < n" and "n < 2 ^ 63" and "choice_ok n extensible i"
  shows "codes (encode_choice_index i n extensible) (decode_choice_index n extensible) i"
proof (cases "i < n")
  case True
  have root: "codes (encode_constrained_whole_number (int i) (choice_constraint n))
      (decode_constrained_whole_number (choice_constraint n)) (int i)"
    unfolding choice_constraint_max [OF assms(1,2)]
    using True assms(1,2) by (intro codes_constrained) (simp_all add: constraint_wf_def constraint_new_def i64_def)
  have eq: "i64_as_usize (int i) = i" using True assms(2) by (simp add: i64_as_usize_int)
  have "codes (encode_constrained_whole_number (int i) (choice_constraint n))
      (per_bind (decode_constrained_whole_number (choice_constraint n)) (\<lambda>v. per_return (i64_as_usize v))) i"
    by (rule codes_then [OF root]) (simp only: eq)
  moreover have "usize_as_i64 i = int i" using True assms(2) by (simp add: usize_as_i64_small)
  ultimately show ?thesis
    using True unfolding encode_choice_index_def decode_choice_index_def Let_def
    by (cases extensible) (auto intro!: codes_bind [OF codes_write_bit])
next
  case False
  then have ext: "extensible" "i < 2 ^ 64" using assms(3) by (auto simp: choice_ok_def)
  let ?e = "of_nat (i - n) :: u64"
  have "unat ?e = i - n" using ext(2) by (subst unat_of_nat) simp
  then have fin: "(if n + unat ?e < 2 ^ 64 then per_return (n + unat ?e) else e) = per_return i"
    for e :: "(AperDecoder, nat) per"
    using ext(2) False by simp
  have "codes (encode_normally_small_non_negative ?e) (per_bind decode_normally_small_non_negative (\<lambda>x.
      if n + unat x < 2 ^ 64 then per_return (n + unat x)
      else per_fail (DecodeError (''Choice extension index '' @ show_nat (unat x) @ '' too large'')))) i"
    by (rule codes_then [OF codes_normally_small]) (rule fin)
  then show ?thesis
    using ext False unfolding encode_choice_index_def decode_choice_index_def Let_def
    by (simp only: if_True) (rule codes_bind [OF codes_write_bit], simp)
qed

section \<open>Strings\<close>

lemma per_bind_assoc: "per_bind (per_bind m k) l = per_bind m (\<lambda>x. per_bind (k x) l)"
  by (rule ext) (auto simp: per_bind_def split: prod.splits outcome.splits)

lemma codes_constrained_length:
  assumes "mi \<le> len" and "len \<le> ma" and "ma < 2 ^ 63"
  shows "codes (encode_constrained_length len mi ma) (decode_constrained_length mi ma) len"
proof -
  have "codes (encode_constrained_whole_number (int len) (constraint_new (int mi) (int ma)))
      (decode_constrained_whole_number (constraint_new (int mi) (int ma))) (int len)"
    using assms by (intro codes_constrained) (simp_all add: constraint_wf_def constraint_new_def i64_def)
  moreover have "i64_as_usize (int len) = len" using assms by (simp add: i64_as_usize_int)
  ultimately show ?thesis
    unfolding encode_constrained_length_def decode_constrained_length_def
    using assms by (simp add: usize_as_i64_small) (rule codes_then, assumption, simp)
qed

lemma codes_bit_slice: "codes (write_bit_slice bs) (read_bit_slice (length bs)) bs"
proof (rule codesI, rule exI [of _ bs], intro conjI allI)
  fix buf rest
  have "read_bits_loop (length cs) (decoder_at p (cs @ rest)) = (decoder_at (p @ cs) rest, Ok cs)" for p cs
  proof (induction cs arbitrary: p)
    case (Cons c cs)
    have "read_bit (decoder_at p (c # cs @ rest)) = (decoder_at (p @ [c]) (cs @ rest), Ok c)"
      by (simp add: read_bit_def decoder_at_def nth_append)
    then show ?case using Cons.IH [of "p @ [c]"] by (simp add: per_bind_def per_return_def)
  qed (simp add: per_return_def)
  then show "read_bit_slice (length bs) (decoder_at buf (bs @ rest)) = (decoder_at (buf @ bs) rest, Ok bs)"
    by (simp add: read_bit_slice_def remaining_bits_def decoder_at_def)
qed (simp add: write_bit_slice_def)

lemma codes_align_if: "codes (if b then enc_align else per_return ()) (if b then dec_align else per_return ()) ()"
  by (simp add: codes_align codes_return)

text \<open>The header of a fragment of \<open>m\<close> times 16384 items.\<close>

lemma codes_fragment_header:
  assumes "1 \<le> m" and "m \<le> 4"
  shows "codes (per_bind enc_align (\<lambda>_. write_bits (0xC0 OR of_nat m) 8)) decode_length_fragment (m * 16384, True)"
proof -
  let ?h = "0xC0 OR of_nat m :: u64"
  have m: "m = 1 \<or> m = 2 \<or> m = 3 \<or> m = 4" using assms by linarith
  have "take_bit 8 ?h = ?h" using m by (elim disjE) (simp_all add: take_bit_eq_mod)
  then have rd: "codes (write_bits ?h 8) (read_bits 8) ?h" by (simp add: codes_write_bits)
  have "(ucast ?h :: u8) AND 0x80 \<noteq> 0" "(ucast ?h :: u8) AND 0x40 \<noteq> 0" "unat ((ucast ?h :: u8) AND 0x3F) = m"
    using m by (elim disjE; simp)+
  with assms show ?thesis
    unfolding decode_length_fragment_def Let_def
    by (intro codes_bind [OF codes_align] codes_then [OF rd]) simp
qed

lemma decode_octets_loop_bind:
  "decode_octets_loop acc = per_bind decode_length_fragment (\<lambda>(len, fragmented).
     per_bind (read_bytes len) (\<lambda>bs. if fragmented then decode_octets_loop (acc @ bs) else per_return (acc @ bs)))"
  by (rule ext, subst decode_octets_loop.simps)
    (auto simp: per_bind_def per_return_def split: prod.splits outcome.splits)

lemma decode_bits_loop_bind:
  "decode_bits_loop acc = per_bind decode_length_fragment (\<lambda>(len, fragmented).
     per_bind (read_bit_slice len) (\<lambda>bs. if fragmented then decode_bits_loop (acc @ bs) else per_return (acc @ bs)))"
  by (rule ext, subst decode_bits_loop.simps)
    (auto simp: per_bind_def per_return_def split: prod.splits outcome.splits)

lemma fragment_multiplier:
  fixes len :: nat
  assumes "16383 < len"
  defines "m \<equiv> min (len div 16384) 4"
  shows "1 \<le> m" and "m \<le> 4" and "m * 16384 \<le> len"
proof -
  have "1 \<le> len div 16384" using assms(1) div_le_mono [of 16384 len 16384] by simp
  then show "1 \<le> m" and "m \<le> 4" by (simp_all add: m_def)
  have "m \<le> len div 16384" by (simp add: m_def)
  then show "m * 16384 \<le> len"
    by (metis div_times_less_eq_dividend mult_le_mono1 order_trans)
qed

lemma codes_fragmented_octets:
  "codes (encode_fragmented_octets rest) (decode_octets_loop acc) (acc @ rest)"
proof (induction rest arbitrary: acc rule: encode_fragmented_octets.induct)
  case (1 rest)
  show ?case
  proof (cases "length rest > 16383")
    case True
    define m where "m = min (length rest div 16384) 4"
    note m = fragment_multiplier [OF True, folded m_def]
    let ?c = "take (m * 16384) rest" and ?r = "drop (m * 16384) rest"
    have enc: "encode_fragmented_octets rest = per_bind (per_bind enc_align (\<lambda>_. write_bits (0xC0 OR of_nat m) 8))
        (\<lambda>_. per_bind (write_bytes ?c) (\<lambda>_. encode_fragmented_octets ?r))"
      using True by (subst encode_fragmented_octets.simps) (simp add: per_bind_assoc Let_def m_def)
    have chunk: "length ?c = m * 16384" using m(3) by simp
    then have "codes (write_bytes ?c) (read_bytes (m * 16384)) ?c"
      using codes_bytes [of ?c] m(2) by simp
    moreover have "codes (encode_fragmented_octets ?r) (decode_octets_loop (acc @ ?c)) (acc @ rest)"
      using 1(1) [OF True refl refl, of "acc @ ?c"] by (simp add: m_def)
    ultimately have "codes (per_bind (write_bytes ?c) (\<lambda>_. encode_fragmented_octets ?r))
        (per_bind (read_bytes (m * 16384)) (\<lambda>bs. decode_octets_loop (acc @ bs))) (acc @ rest)"
      by (rule codes_bind)
    then show ?thesis
      unfolding enc decode_octets_loop_bind [of acc]
      by (intro codes_bind [OF codes_fragment_header [OF m(1,2)]]) simp
  next
    case False
    then have len: "length rest \<le> 16383" by simp
    have "codes (write_bytes rest) (per_bind (read_bytes (length rest)) (\<lambda>bs. per_return (acc @ bs))) (acc @ rest)"
      using len by (intro codes_then [OF codes_bytes]) simp_all
    then show ?thesis
      unfolding decode_octets_loop_bind [of acc] encode_fragmented_octets.simps [of rest] if_not_P [OF False]
      by (intro codes_bind [OF codes_length_fragment [OF len]]) simp
  qed
qed

lemma codes_fragmented_bits:
  "codes (encode_fragmented_bits rest) (decode_bits_loop acc) (acc @ rest)"
proof (induction rest arbitrary: acc rule: encode_fragmented_bits.induct)
  case (1 rest)
  show ?case
  proof (cases "length rest > 16383")
    case True
    define m where "m = min (length rest div 16384) 4"
    note m = fragment_multiplier [OF True, folded m_def]
    let ?c = "take (m * 16384) rest" and ?r = "drop (m * 16384) rest"
    have enc: "encode_fragmented_bits rest = per_bind (per_bind enc_align (\<lambda>_. write_bits (0xC0 OR of_nat m) 8))
        (\<lambda>_. per_bind (write_bit_slice ?c) (\<lambda>_. encode_fragmented_bits ?r))"
      using True by (subst encode_fragmented_bits.simps) (simp add: per_bind_assoc Let_def m_def)
    have "length ?c = m * 16384" using m(3) by simp
    then have "codes (write_bit_slice ?c) (read_bit_slice (m * 16384)) ?c"
      using codes_bit_slice [of ?c] by simp
    moreover have "codes (encode_fragmented_bits ?r) (decode_bits_loop (acc @ ?c)) (acc @ rest)"
      using 1(1) [OF True refl refl, of "acc @ ?c"] by (simp add: m_def)
    ultimately have "codes (per_bind (write_bit_slice ?c) (\<lambda>_. encode_fragmented_bits ?r))
        (per_bind (read_bit_slice (m * 16384)) (\<lambda>bs. decode_bits_loop (acc @ bs))) (acc @ rest)"
      by (rule codes_bind)
    then show ?thesis
      unfolding enc decode_bits_loop_bind [of acc]
      by (intro codes_bind [OF codes_fragment_header [OF m(1,2)]]) simp
  next
    case False
    then have len: "length rest \<le> 16383" by simp
    have "codes (write_bit_slice rest) (per_bind (read_bit_slice (length rest)) (\<lambda>bs. per_return (acc @ bs))) (acc @ rest)"
      by (intro codes_then [OF codes_bit_slice]) simp
    then show ?thesis
      unfolding decode_bits_loop_bind [of acc] encode_fragmented_bits.simps [of rest] if_not_P [OF False]
      by (intro codes_bind [OF codes_length_fragment [OF len]]) simp
  qed
qed

text \<open>Size constraints under which a string can be coded: none or half of one, a fixed size, or a range.\<close>

definition size_ok :: "nat option \<Rightarrow> nat option \<Rightarrow> nat \<Rightarrow> bool" where
  "size_ok min_len max_len len \<longleftrightarrow>
     (case (min_len, max_len) of (Some mi, Some ma) \<Rightarrow> mi \<le> len \<and> len \<le> ma \<and> ma < 2 ^ 60 | _ \<Rightarrow> True)"

lemma codes_octet_string:
  assumes "size_ok min_len max_len (length dat)"
  shows "codes (encode_octet_string dat min_len max_len) (decode_octet_string min_len max_len) dat"
proof (cases "min_len = None \<or> max_len = None")
  case True
  then show ?thesis
    using codes_fragmented_octets [of dat "[]"]
    by (auto simp: encode_octet_string_def decode_octet_string_def split: option.splits)
next
  case False
  then obtain mi ma where ranges: "min_len = Some mi" "max_len = Some ma"
    by (cases min_len; cases max_len) auto
  with assms have len: "mi \<le> length dat" "length dat \<le> ma" "ma < 2 ^ 60" by (simp_all add: size_ok_def)
  have "codes (write_bytes dat) (read_bytes (length dat)) dat" using len by (intro codes_bytes) simp
  then have body: "codes (per_bind (if b then enc_align else per_return ()) (\<lambda>_. write_bytes dat))
      (per_bind (if b then dec_align else per_return ()) (\<lambda>_. read_bytes (length dat))) dat" for b
    by (intro codes_bind [OF codes_align_if])
  show ?thesis
  proof (cases "mi = ma")
    case True
    then have "length dat = ma" using len by simp
    then show ?thesis using body [of "ma > 2"] True
      by (simp add: encode_octet_string_def decode_octet_string_def ranges)
  next
    case False
    have "codes (encode_constrained_length (length dat) mi ma) (decode_constrained_length mi ma) (length dat)"
      using len by (intro codes_constrained_length) simp_all
    from codes_bind [OF this, of _ "\<lambda>len. per_bind (if ma > 2 then dec_align else per_return ()) (\<lambda>_. read_bytes len)"]
    show ?thesis using body [of "ma > 2"] False
      by (simp only: encode_octet_string_def decode_octet_string_def ranges Let_def prod.case option.case if_False)
  qed
qed

lemma codes_bit_string:
  assumes "size_ok min_len max_len (length bs)"
  shows "codes (encode_bit_string bs min_len max_len) (decode_bit_string min_len max_len) bs"
proof (cases "min_len = None \<or> max_len = None")
  case True
  then show ?thesis
    using codes_fragmented_bits [of bs "[]"]
    by (auto simp: encode_bit_string_def decode_bit_string_def split: option.splits)
next
  case False
  then obtain mi ma where ranges: "min_len = Some mi" "max_len = Some ma"
    by (cases min_len; cases max_len) auto
  with assms have len: "mi \<le> length bs" "length bs \<le> ma" "ma < 2 ^ 60" by (simp_all add: size_ok_def)
  have body: "codes (per_bind (if b then enc_align else per_return ()) (\<lambda>_. write_bit_slice bs))
      (per_bind (if b then dec_align else per_return ()) (\<lambda>_. read_bit_slice (length bs))) bs" for b
    by (rule codes_bind [OF codes_align_if codes_bit_slice])
  show ?thesis
  proof (cases "mi = ma")
    case True
    then have "length bs = ma" using len by simp
    then show ?thesis using body [of "ma > 16"] True
      by (simp add: encode_bit_string_def decode_bit_string_def ranges)
  next
    case False
    have "codes (encode_constrained_length (length bs) mi ma) (decode_constrained_length mi ma) (length bs)"
      using len by (intro codes_constrained_length) simp_all
    from codes_bind [OF this, of _ "\<lambda>len. per_bind (if ma > 16 then dec_align else per_return ()) (\<lambda>_. read_bit_slice len)"]
    show ?thesis using body [of "ma > 16"] False
      by (simp only: encode_bit_string_def decode_bit_string_def ranges Let_def prod.case option.case if_False)
  qed
qed

section \<open>The interface of a coded type\<close>

fun encode_list :: "('a \<Rightarrow> (bits, unit) per) \<Rightarrow> 'a list \<Rightarrow> (bits, unit) per" where
  "encode_list enc [] = per_return ()"
| "encode_list enc (v # vs) = per_bind (enc v) (\<lambda>_. encode_list enc vs)"

fun decode_list :: "(AperDecoder, 'a) per \<Rightarrow> nat \<Rightarrow> (AperDecoder, 'a list) per" where
  "decode_list dec 0 = per_return []"
| "decode_list dec (Suc n) = per_bind dec (\<lambda>v. per_bind (decode_list dec n) (\<lambda>vs. per_return (v # vs)))"

locale aper_codec =
  fixes enc :: "'a \<Rightarrow> (bits, unit) per"
    and dec :: "(AperDecoder, 'a) per"
    and ok :: "'a \<Rightarrow> bool"
  assumes codec: "ok v \<Longrightarrow> codes (enc v) dec v"
begin

lemma codec_list: "(\<And>v. v \<in> set vs \<Longrightarrow> ok v) \<Longrightarrow> codes (encode_list enc vs) (decode_list dec (length vs)) vs"
proof (induction vs)
  case (Cons v vs)
  then have "codes (encode_list enc vs) (per_bind (decode_list dec (length vs)) (\<lambda>vs. per_return (v # vs))) (v # vs)"
    by (intro codes_map [where f = "(#) v"]) simp
  moreover have "codes (enc v) dec v" using Cons.prems by (simp add: codec)
  ultimately show ?case by (simp add: codes_bind)
qed (simp add: codes_return)

text \<open>No encoding is a proper prefix of another one at the same place, so encodings need no delimiters.\<close>

lemma prefix_free:
  assumes "ok u" and "ok v" and "enc u buf = (buf @ x, Ok ())" and "enc v buf = (buf @ x @ y, Ok ())"
  shows "u = v \<and> y = []"
proof -
  obtain w where "enc u buf = (buf @ w, Ok ())"
      and u: "\<And>rest. dec (decoder_at buf (w @ rest)) = (decoder_at (buf @ w) rest, Ok u)"
    using codec [OF assms(1)] unfolding codes_def by blast
  then have "w = x" using assms(3) by simp
  obtain w' where "enc v buf = (buf @ w', Ok ())"
      and v: "\<And>rest. dec (decoder_at buf (w' @ rest)) = (decoder_at (buf @ w') rest, Ok v)"
    using codec [OF assms(2)] unfolding codes_def by blast
  then have "w' = x @ y" using assms(4) by simp
  with u [of y] v [of "[]"] \<open>w = x\<close> show ?thesis by (simp add: decoder_at_def)
qed

end

interpretation constrained: aper_codec
  "\<lambda>v. encode_constrained_whole_number v c" "decode_constrained_whole_number c"
  "\<lambda>v. constraint_wf c \<and> c_min c \<le> v \<and> v \<le> c_max c"
  for c
  by unfold_locales (simp add: codes_constrained)

interpretation unconstrained: aper_codec
  encode_unconstrained_whole_number decode_unconstrained_whole_number i64
  by unfold_locales (rule codes_unconstrained)

interpretation normally_small: aper_codec
  encode_normally_small_non_negative decode_normally_small_non_negative "\<lambda>_. True"
  by unfold_locales (rule codes_normally_small)

interpretation enumerated: aper_codec
  "\<lambda>v. encode_enumerated v c" "decode_enumerated c" "\<lambda>v. constraint_wf c \<and> enumerated_ok c v"
  for c
  by unfold_locales (simp add: codes_enumerated)

interpretation choice_index: aper_codec
  "\<lambda>i. encode_choice_index i n extensible" "decode_choice_index n extensible"
  "\<lambda>i. 0 < n \<and> n < 2 ^ 63 \<and> choice_ok n extensible i"
  for n extensible
  by unfold_locales (simp add: codes_choice_index)

interpretation octet_string: aper_codec
  "\<lambda>dat. encode_octet_string dat min_len max_len" "decode_octet_string min_len max_len"
  "\<lambda>dat. size_ok min_len max_len (length dat)"
  for min_len max_len
  by unfold_locales (rule codes_octet_string)

interpretation bit_string: aper_codec
  "\<lambda>bs. encode_bit_string bs min_len max_len" "decode_bit_string min_len max_len"
  "\<lambda>bs. size_ok min_len max_len (length bs)"
  for min_len max_len
  by unfold_locales (rule codes_bit_string)

section \<open>Properties\<close>

text \<open>
  Constrained integers round trip. For every constraint between \<^verbatim>\<open>i64\<close> bounds short of the full range,
  every sequence of values inside it is encoded, after whatever has been written before, as some bits
  from which the decoder, at that place and whatever follows, reads exactly the sequence. This covers the
  bit-field, the one- and two-octet and the length-prefixed forms and their alignment.
\<close>

lemma aper_constrained_roundtrip:
  assumes "constraint_wf c" and "\<And>v. v \<in> set vs \<Longrightarrow> c_min c \<le> v \<and> v \<le> c_max c"
  shows "\<exists>w. encode_list (\<lambda>v. encode_constrained_whole_number v c) vs buf = (buf @ w, Ok ()) \<and>
    (\<forall>rest. decode_list (decode_constrained_whole_number c) (length vs) (decoder_at buf (w @ rest)) =
      (decoder_at (buf @ w) rest, Ok vs))"
  using constrained.codec_list [of vs c] assms unfolding codes_def by blast

text \<open>
  Unconstrained integers round trip: every \<^verbatim>\<open>i64\<close>, negative ones in two's complement included, is
  read back from its minimal octets.
\<close>

lemma aper_unconstrained_roundtrip:
  assumes "- (2 ^ 63) \<le> v" and "v < 2 ^ 63"
  shows "\<exists>w. encode_unconstrained_whole_number v buf = (buf @ w, Ok ()) \<and>
    (\<forall>rest. decode_unconstrained_whole_number (decoder_at buf (w @ rest)) = (decoder_at (buf @ w) rest, Ok v))"
  using unconstrained.codec [of v] assms unfolding codes_def i64_def by blast

lemma aper_unconstrained_roundtrip_witness:
  "\<exists>w. encode_unconstrained_whole_number (-129) [] = ([] @ w, Ok ()) \<and>
    (\<forall>rest. decode_unconstrained_whole_number (decoder_at [] (w @ rest)) = (decoder_at ([] @ w) rest, Ok (-129)))"
  by (rule aper_unconstrained_roundtrip) simp_all

text \<open>
  C31: octet strings of any length round trip, with a size constraint or without one. Without one, strings
  of 16384 octets or more are cut into fragments with their own headers, and the decoder puts the
  fragments together again.
\<close>

theorem aper_octet_string_roundtrip:
  assumes "size_ok min_len max_len (length dat)"
  shows "\<exists>w. encode_octet_string dat min_len max_len buf = (buf @ w, Ok ()) \<and>
    (\<forall>rest. decode_octet_string min_len max_len (decoder_at buf (w @ rest)) = (decoder_at (buf @ w) rest, Ok dat))"
  using octet_string.codec [OF assms] unfolding codes_def by blast

theorem aper_octet_string_roundtrip_witness:
  "\<exists>w. encode_octet_string (replicate 70000 0xAB) None None [] = ([] @ w, Ok ()) \<and>
    (\<forall>rest. decode_octet_string None None (decoder_at [] (w @ rest)) =
      (decoder_at ([] @ w) rest, Ok (replicate 70000 0xAB)))"
  by (rule aper_octet_string_roundtrip) (simp add: size_ok_def)

text \<open>
  Decoding never leaves the constraint. Whatever bits the decoder is given, a constrained integer it
  returns lies between the bounds: malformed input cannot produce a value out of range.
\<close>

lemma aper_constrained_bounds:
  assumes "constraint_wf c" and "c_min c \<le> c_max c"
    and "decode_constrained_whole_number c d = (d', Ok v)"
  shows "c_min c \<le> v \<and> v \<le> c_max c"
proof (cases "constraint_range c = 1")
  case True
  then show ?thesis
    using assms by (simp add: decode_constrained_whole_number.simps [of c] per_return_Ok)
next
  case False
  let ?r = "constraint_range c"
  note r = offset_below [OF assms(1) order_refl assms(2)]
  obtain offset where "offset < ?r" and v: "v = as_i64 (of_int (c_min c) + offset)"
    using assms(3) False r(5)
    by (auto simp: decode_constrained_whole_number.simps [of c] Let_def per_bind_Ok per_return_Ok not_le
        split: if_split_asm)
  then have o: "0 \<le> uint offset" "uint offset \<le> c_max c - c_min c"
    using r(2) by (simp_all add: word_less_def)
  have "- (2 ^ 63) \<le> c_min c" and "c_max c < 2 ^ 63"
    using assms(1) by (simp_all add: constraint_wf_def i64_def)
  then have "i64 (c_min c + uint offset)" unfolding i64_def using o by (intro conjI; linarith)
  from as_i64_of_int [OF this] have "v = c_min c + uint offset" by (simp add: v)
  then show ?thesis using o by simp
qed

text \<open>
  The full range of \<^verbatim>\<open>i64\<close> is not coded. Its range, \<open>2 ^ 64\<close>, is computed as 0 in a \<^verbatim>\<open>u64\<close>, so the
  encoder accepts every value and writes no bit for it, and the decoder reads nothing and returns the
  lower bound.
\<close>

lemma aper_full_range_lossy:
  assumes "- (2 ^ 63) \<le> v" and "v < 2 ^ 63"
  shows "encode_constrained_whole_number v (constraint_new (- (2 ^ 63)) (2 ^ 63 - 1)) buf = (buf, Ok ()) \<and>
    decode_constrained_whole_number (constraint_new (- (2 ^ 63)) (2 ^ 63 - 1)) (decoder_at p r) =
      (decoder_at p r, Ok (- (2 ^ 63)))"
proof -
  define c where "c = constraint_new (- (2 ^ 63)) (2 ^ 63 - 1)"
  have c: "c_min c = - (2 ^ 63)" "c_max c = 2 ^ 63 - 1" "constraint_range c = 0"
    by (simp_all add: c_def constraint_range_def constraint_new_def)
  have b: "bits_needed c = 0" by (simp add: bits_needed_def c(3))
  have "encode_constrained_whole_number v c = write_bits (of_int (v - c_min c)) 0"
    using assms c b by (subst encode_constrained_whole_number.simps) (simp add: Let_def)
  then have "encode_constrained_whole_number v c buf = (buf, Ok ())"
    by (simp add: write_bits_def word_bits_def)
  moreover have "decode_constrained_whole_number c (decoder_at p r) = (decoder_at p r, Ok (- (2 ^ 63)))"
    using as_i64_of_int [of "- (2 ^ 63)"]
    by (subst decode_constrained_whole_number.simps)
      (simp add: c b Let_def per_bind_def per_return_def read_bits_def decoder_at_def bits_word_def i64_def)
  ultimately show ?thesis by (simp add: c_def)
qed

lemma aper_full_range_lossy_witness:
  "encode_constrained_whole_number 7 (constraint_new (- (2 ^ 63)) (2 ^ 63 - 1)) [] = ([], Ok ()) \<and>
   decode_constrained_whole_number (constraint_new (- (2 ^ 63)) (2 ^ 63 - 1)) (decoder_at [] []) =
     (decoder_at [] [], Ok (- (2 ^ 63)))"
  by (rule aper_full_range_lossy) simp_all

end
