(* ===== verification/Nsacf.thy ===== *)
theory Nsacf
  imports Prelude "HOL-Library.AList"
begin

text \<open>
  Network slice admission control (\<^verbatim>\<open>bins/nextgcore-nsacfd/src/context.rs\<close>): slice quotas with counted
  members, admission and release of UEs and PDU sessions, moves between access types, early admission
  control and event subscriptions.

  A \<^verbatim>\<open>HashSet\<close> of identities is a list without repetitions, a \<^verbatim>\<open>HashMap\<close> an association list in its
  iteration order. Every method runs its critical sections without interference; a lock is poisoned only
  when its holder panics, which no method here does, so the branches for poisoned locks are left out.
  Persistence (\<^verbatim>\<open>save_state\<close>, \<^verbatim>\<open>load_state\<close>), logging and the percentages in floating point are not
  modelled.
\<close>

section \<open>Data\<close>

record SNssai =
  sst :: u8
  sd :: "u32 option"

datatype AccessType = ThreeGpp | NonThreeGpp

definition from_an_type :: "string option \<Rightarrow> AccessType" where
  "from_an_type s = (if s = Some ''NON_3GPP_ACCESS'' then NonThreeGpp else ThreeGpp)"

fun access_as_str :: "AccessType \<Rightarrow> string" where
  "access_as_str ThreeGpp = ''3GPP_ACCESS''"
| "access_as_str NonThreeGpp = ''NON_3GPP_ACCESS''"

fun is_3gpp :: "AccessType \<Rightarrow> bool" where
  "is_3gpp ThreeGpp = True"
| "is_3gpp NonThreeGpp = False"

record AccessLimits =
  al_max_ues_3gpp :: "u64 option"
  al_max_ues_n3gpp :: "u64 option"
  al_max_pdu_3gpp :: "u64 option"
  al_max_pdu_n3gpp :: "u64 option"

definition access_limits_default :: AccessLimits where
  "access_limits_default =
     \<lparr>al_max_ues_3gpp = None, al_max_ues_n3gpp = None, al_max_pdu_3gpp = None, al_max_pdu_n3gpp = None\<rparr>"

record EacTransition =
  et_s_nssai :: SNssai
  activated :: bool

datatype ReleaseOutcome = Released "EacTransition option" | MemberAbsent | SliceNotFound

datatype UpdateOutcome = Updated | NotFound

datatype AdmissionResult =
    Admitted
  | RejectedQuotaExceeded
  | RejectedQuotaExceededPerAccess AccessType
  | RejectedSliceNotAvailable

record SliceQuota =
  sq_id :: u64
  s_nssai :: SNssai
  max_ues :: u64
  max_pdu_sessions :: u64
  max_ues_3gpp :: "u64 option"
  max_ues_n3gpp :: "u64 option"
  max_pdu_3gpp :: "u64 option"
  max_pdu_n3gpp :: "u64 option"
  ues :: "string list"
  pdu_sessions :: "string list"
  ue_access :: "(string \<times> AccessType) list"
  pdu_access :: "(string \<times> AccessType) list"
  eac_active :: bool

definition quota_new :: "u64 \<Rightarrow> SNssai \<Rightarrow> u64 \<Rightarrow> u64 \<Rightarrow> SliceQuota" where
  "quota_new i n mu mp =
     \<lparr>sq_id = i, s_nssai = n, max_ues = mu, max_pdu_sessions = mp, max_ues_3gpp = None, max_ues_n3gpp = None,
      max_pdu_3gpp = None, max_pdu_n3gpp = None, ues = [], pdu_sessions = [], ue_access = [], pdu_access = [],
      eac_active = False\<rparr>"

definition with_access_limits :: "AccessLimits \<Rightarrow> SliceQuota \<Rightarrow> SliceQuota" where
  "with_access_limits l q =
     q\<lparr>max_ues_3gpp := al_max_ues_3gpp l, max_ues_n3gpp := al_max_ues_n3gpp l,
       max_pdu_3gpp := al_max_pdu_3gpp l, max_pdu_n3gpp := al_max_pdu_n3gpp l\<rparr>"

definition current_ues :: "SliceQuota \<Rightarrow> u64" where
  "current_ues q = of_nat (length (ues q))"

definition current_pdu_sessions :: "SliceQuota \<Rightarrow> u64" where
  "current_pdu_sessions q = of_nat (length (pdu_sessions q))"

definition current_ues_access :: "AccessType \<Rightarrow> SliceQuota \<Rightarrow> u64" where
  "current_ues_access a q = of_nat (length (filter (\<lambda>x. x = a) (map snd (ue_access q))))"

definition current_pdu_access :: "AccessType \<Rightarrow> SliceQuota \<Rightarrow> u64" where
  "current_pdu_access a q = of_nat (length (filter (\<lambda>x. x = a) (map snd (pdu_access q))))"

fun max_ues_for :: "AccessType \<Rightarrow> SliceQuota \<Rightarrow> u64 option" where
  "max_ues_for ThreeGpp q = max_ues_3gpp q"
| "max_ues_for NonThreeGpp q = max_ues_n3gpp q"

fun max_pdu_for :: "AccessType \<Rightarrow> SliceQuota \<Rightarrow> u64 option" where
  "max_pdu_for ThreeGpp q = max_pdu_3gpp q"
| "max_pdu_for NonThreeGpp q = max_pdu_n3gpp q"

record SacSubscription =
  subscription_id :: string
  notification_uri :: string
  events :: "string list"
  snssais :: "SNssai list"
  expiry :: "string option"

definition matches_snssai :: "SNssai \<Rightarrow> SacSubscription \<Rightarrow> bool" where
  "matches_snssai n s \<longleftrightarrow> snssais s = [] \<or> n \<in> set (snssais s)"

record NsacfContext =
  quota_list :: "(u64 \<times> SliceQuota) list"
  snssai_hash :: "((u8 \<times> u32 option) \<times> u64) list"
  subscriptions :: "(string \<times> SacSubscription) list"
  eac_subscriptions :: "(string \<times> string) list"
  next_quota_id :: u64
  max_quotas :: nat
  eac_threshold_percent :: u8
  initialized :: bool

definition nsacf_new :: NsacfContext where
  "nsacf_new =
     \<lparr>quota_list = [], snssai_hash = [], subscriptions = [], eac_subscriptions = [], next_quota_id = 1,
      max_quotas = 0, eac_threshold_percent = 80, initialized = False\<rparr>"

definition nsacf_init :: "nat \<Rightarrow> NsacfContext \<Rightarrow> NsacfContext" where
  "nsacf_init n c = (if initialized c then c else c\<lparr>max_quotas := n, initialized := True\<rparr>)"

definition nsacf_fini :: "NsacfContext \<Rightarrow> NsacfContext" where
  "nsacf_fini c =
     (if \<not> initialized c then c
      else c\<lparr>quota_list := [], snssai_hash := [], subscriptions := [], eac_subscriptions := [],
             initialized := False\<rparr>)"

definition eac_subscription_set :: "string \<Rightarrow> string \<Rightarrow> NsacfContext \<Rightarrow> NsacfContext" where
  "eac_subscription_set nf_id uri c =
     c\<lparr>eac_subscriptions := AList.update nf_id uri (eac_subscriptions c)\<rparr>"

definition eac_subscription_remove :: "string \<Rightarrow> NsacfContext \<Rightarrow> bool \<times> NsacfContext" where
  "eac_subscription_remove nf_id c =
     (map_of (eac_subscriptions c) nf_id \<noteq> None,
      c\<lparr>eac_subscriptions := AList.delete nf_id (eac_subscriptions c)\<rparr>)"

definition eac_notification_uris :: "NsacfContext \<Rightarrow> string list" where
  "eac_notification_uris c = map snd (eac_subscriptions c)"

definition set_eac_threshold :: "u8 \<Rightarrow> NsacfContext \<Rightarrow> NsacfContext" where
  "set_eac_threshold p c = c\<lparr>eac_threshold_percent := min p 100\<rparr>"

section \<open>Quotas\<close>

definition quota_add_with_limits ::
  "SNssai \<Rightarrow> u64 \<Rightarrow> u64 \<Rightarrow> AccessLimits \<Rightarrow> NsacfContext \<Rightarrow> SliceQuota option \<times> NsacfContext" where
  "quota_add_with_limits n mu mp l c =
     (if length (quota_list c) \<ge> max_quotas c then (None, c)
      else
        let i = next_quota_id c;
            q = with_access_limits l (quota_new i n mu mp)
        in (Some q,
            c\<lparr>next_quota_id := i + 1, quota_list := AList.update i q (quota_list c),
              snssai_hash := AList.update (sst n, sd n) (sq_id q) (snssai_hash c)\<rparr>))"

definition quota_add :: "SNssai \<Rightarrow> u64 \<Rightarrow> u64 \<Rightarrow> NsacfContext \<Rightarrow> SliceQuota option \<times> NsacfContext" where
  "quota_add n mu mp c = quota_add_with_limits n mu mp access_limits_default c"

definition quota_id_for :: "SNssai \<Rightarrow> NsacfContext \<Rightarrow> u64 option" where
  "quota_id_for n c =
     (case map_of (snssai_hash c) (sst n, sd n) of
        Some i \<Rightarrow> Some i
      | None \<Rightarrow> if sd n \<noteq> None then map_of (snssai_hash c) (sst n, None) else None)"

definition quota_update_or_add ::
  "SNssai \<Rightarrow> u64 \<Rightarrow> u64 \<Rightarrow> AccessLimits \<Rightarrow> NsacfContext \<Rightarrow> SliceQuota option \<times> NsacfContext" where
  "quota_update_or_add n mu mp l c =
     (case quota_id_for n c of
        Some i \<Rightarrow>
          (case map_of (quota_list c) i of
             None \<Rightarrow> (None, c)
           | Some q \<Rightarrow>
               let q = with_access_limits l (q\<lparr>max_ues := mu, max_pdu_sessions := mp\<rparr>)
               in (Some q, c\<lparr>quota_list := AList.update i q (quota_list c)\<rparr>))
      | None \<Rightarrow> quota_add_with_limits n mu mp l c)"

definition quota_find_by_id :: "u64 \<Rightarrow> NsacfContext \<Rightarrow> SliceQuota option" where
  "quota_find_by_id i c = map_of (quota_list c) i"

definition quota_find_by_snssai :: "SNssai \<Rightarrow> NsacfContext \<Rightarrow> SliceQuota option" where
  "quota_find_by_snssai n c =
     (case quota_id_for n c of None \<Rightarrow> None | Some i \<Rightarrow> quota_find_by_id i c)"

definition quota_remove :: "u64 \<Rightarrow> NsacfContext \<Rightarrow> bool \<times> NsacfContext" where
  "quota_remove i c =
     (case map_of (quota_list c) i of
        None \<Rightarrow> (False, c)
      | Some q \<Rightarrow>
          (True, c\<lparr>quota_list := AList.delete i (quota_list c),
                   snssai_hash := AList.delete (sst (s_nssai q), sd (s_nssai q)) (snssai_hash c)\<rparr>))"

section \<open>Early admission control\<close>

text \<open>The products are 64-bit and wrap around for ceilings beyond \<open>2 ^ 64 / 100\<close>.\<close>

definition update_eac :: "u8 \<Rightarrow> SliceQuota \<Rightarrow> EacTransition option \<times> SliceQuota" where
  "update_eac threshold_percent q =
     (if max_ues q = 0 then (None, q)
      else
        let should_be_active = (current_ues q * 100 \<ge> max_ues q * ucast threshold_percent)
        in if should_be_active \<noteq> eac_active q
           then (Some \<lparr>et_s_nssai = s_nssai q, activated = should_be_active\<rparr>, q\<lparr>eac_active := should_be_active\<rparr>)
           else (None, q))"

section \<open>Admission\<close>

definition over :: "u64 option \<Rightarrow> u64 \<Rightarrow> bool" where
  "over ceiling current = (case ceiling of None \<Rightarrow> False | Some m \<Rightarrow> current \<ge> m)"

definition admit_ue ::
  "SNssai \<Rightarrow> string \<Rightarrow> AccessType \<Rightarrow> NsacfContext \<Rightarrow> (AdmissionResult \<times> EacTransition option) \<times> NsacfContext" where
  "admit_ue n supi an_type c =
     (case quota_id_for n c of
        None \<Rightarrow> ((RejectedSliceNotAvailable, None), c)
      | Some i \<Rightarrow>
          (case map_of (quota_list c) i of
             None \<Rightarrow> ((RejectedSliceNotAvailable, None), c)
           | Some q \<Rightarrow>
               let over_per_access = over (max_ues_for an_type q) (current_ues_access an_type q)
               in if supi \<in> set (ues q) then ((Admitted, None), c)
                  else if current_ues q \<ge> max_ues q then ((RejectedQuotaExceeded, None), c)
                  else if over_per_access then ((RejectedQuotaExceededPerAccess an_type, None), c)
                  else
                    let q = q\<lparr>ues := List.insert supi (ues q), ue_access := AList.update supi an_type (ue_access q)\<rparr>;
                        (eac, q) = update_eac (eac_threshold_percent c) q
                    in ((Admitted, eac), c\<lparr>quota_list := AList.update i q (quota_list c)\<rparr>)))"

definition release_ue :: "SNssai \<Rightarrow> string \<Rightarrow> NsacfContext \<Rightarrow> ReleaseOutcome \<times> NsacfContext" where
  "release_ue n supi c =
     (case quota_id_for n c of
        None \<Rightarrow> (SliceNotFound, c)
      | Some i \<Rightarrow>
          (case map_of (quota_list c) i of
             None \<Rightarrow> (SliceNotFound, c)
           | Some q \<Rightarrow>
               if supi \<notin> set (ues q) then (MemberAbsent, c)
               else
                 let q = q\<lparr>ues := removeAll supi (ues q), ue_access := AList.delete supi (ue_access q)\<rparr>;
                     (eac, q) = update_eac (eac_threshold_percent c) q
                 in (Released eac, c\<lparr>quota_list := AList.update i q (quota_list c)\<rparr>)))"

definition update_ue_access ::
  "SNssai \<Rightarrow> string \<Rightarrow> AccessType \<Rightarrow> NsacfContext \<Rightarrow> UpdateOutcome \<times> NsacfContext" where
  "update_ue_access n supi new_access c =
     (case quota_id_for n c of
        None \<Rightarrow> (NotFound, c)
      | Some i \<Rightarrow>
          (case map_of (quota_list c) i of
             None \<Rightarrow> (NotFound, c)
           | Some q \<Rightarrow>
               if supi \<notin> set (ues q) then (NotFound, c)
               else
                 let q = q\<lparr>ue_access := AList.update supi new_access (ue_access q)\<rparr>
                 in (Updated, c\<lparr>quota_list := AList.update i q (quota_list c)\<rparr>)))"

definition admit_pdu_session ::
  "SNssai \<Rightarrow> string \<Rightarrow> AccessType \<Rightarrow> NsacfContext \<Rightarrow> AdmissionResult \<times> NsacfContext" where
  "admit_pdu_session n session_key an_type c =
     (case quota_id_for n c of
        None \<Rightarrow> (RejectedSliceNotAvailable, c)
      | Some i \<Rightarrow>
          (case map_of (quota_list c) i of
             None \<Rightarrow> (RejectedSliceNotAvailable, c)
           | Some q \<Rightarrow>
               let over_per_access = over (max_pdu_for an_type q) (current_pdu_access an_type q)
               in if session_key \<in> set (pdu_sessions q) then (Admitted, c)
                  else if current_pdu_sessions q \<ge> max_pdu_sessions q then (RejectedQuotaExceeded, c)
                  else if over_per_access then (RejectedQuotaExceededPerAccess an_type, c)
                  else
                    let q = q\<lparr>pdu_sessions := List.insert session_key (pdu_sessions q),
                              pdu_access := AList.update session_key an_type (pdu_access q)\<rparr>
                    in (Admitted, c\<lparr>quota_list := AList.update i q (quota_list c)\<rparr>)))"

definition release_pdu_session :: "SNssai \<Rightarrow> string \<Rightarrow> NsacfContext \<Rightarrow> ReleaseOutcome \<times> NsacfContext" where
  "release_pdu_session n session_key c =
     (case quota_id_for n c of
        None \<Rightarrow> (SliceNotFound, c)
      | Some i \<Rightarrow>
          (case map_of (quota_list c) i of
             None \<Rightarrow> (SliceNotFound, c)
           | Some q \<Rightarrow>
               if session_key \<in> set (pdu_sessions q)
               then let q = q\<lparr>pdu_sessions := removeAll session_key (pdu_sessions q),
                              pdu_access := AList.delete session_key (pdu_access q)\<rparr>
                    in (Released None, c\<lparr>quota_list := AList.update i q (quota_list c)\<rparr>)
               else (MemberAbsent, c)))"

definition update_pdu_access ::
  "SNssai \<Rightarrow> string \<Rightarrow> AccessType \<Rightarrow> NsacfContext \<Rightarrow> UpdateOutcome \<times> NsacfContext" where
  "update_pdu_access n session_key new_access c =
     (case quota_id_for n c of
        None \<Rightarrow> (NotFound, c)
      | Some i \<Rightarrow>
          (case map_of (quota_list c) i of
             None \<Rightarrow> (NotFound, c)
           | Some q \<Rightarrow>
               if session_key \<notin> set (pdu_sessions q) then (NotFound, c)
               else
                 let q = q\<lparr>pdu_access := AList.update session_key new_access (pdu_access q)\<rparr>
                 in (Updated, c\<lparr>quota_list := AList.update i q (quota_list c)\<rparr>)))"

definition quota_count :: "NsacfContext \<Rightarrow> nat" where
  "quota_count c = length (quota_list c)"

definition quotas_snapshot :: "NsacfContext \<Rightarrow> SliceQuota list" where
  "quotas_snapshot c = map snd (quota_list c)"

section \<open>Event subscriptions\<close>

definition subscription_add :: "SacSubscription \<Rightarrow> NsacfContext \<Rightarrow> NsacfContext" where
  "subscription_add s c = c\<lparr>subscriptions := AList.update (subscription_id s) s (subscriptions c)\<rparr>"

definition subscription_remove :: "string \<Rightarrow> NsacfContext \<Rightarrow> bool \<times> NsacfContext" where
  "subscription_remove i c =
     (map_of (subscriptions c) i \<noteq> None, c\<lparr>subscriptions := AList.delete i (subscriptions c)\<rparr>)"

definition subscription_get :: "string \<Rightarrow> NsacfContext \<Rightarrow> SacSubscription option" where
  "subscription_get i c = map_of (subscriptions c) i"

definition subscription_count :: "NsacfContext \<Rightarrow> nat" where
  "subscription_count c = length (subscriptions c)"

definition subscriptions_matching :: "SNssai \<Rightarrow> NsacfContext \<Rightarrow> SacSubscription list" where
  "subscriptions_matching n c = filter (matches_snssai n) (map snd (subscriptions c))"

section \<open>Counted members\<close>

text \<open>
  UEs and PDU sessions are counted in the same way: a set of members and, beside it, the access type of
  each member. The laws are about the three updates of a quota that admission, release and a move make.
\<close>

locale counted_members =
  fixes members :: "'q \<Rightarrow> string list"
    and access :: "'q \<Rightarrow> (string \<times> AccessType) list"
    and join :: "string \<Rightarrow> AccessType \<Rightarrow> 'q \<Rightarrow> 'q"
    and leave :: "string \<Rightarrow> 'q \<Rightarrow> 'q"
    and move :: "string \<Rightarrow> AccessType \<Rightarrow> 'q \<Rightarrow> 'q"
  assumes members_join: "members (join k a q) = List.insert k (members q)"
    and access_join: "access (join k a q) = AList.update k a (access q)"
    and members_leave: "members (leave k q) = removeAll k (members q)"
    and access_leave: "access (leave k q) = AList.delete k (access q)"
    and members_move: "members (move k a q) = members q"
    and access_move: "access (move k a q) = AList.update k a (access q)"
begin

definition in_sync :: "'q \<Rightarrow> bool" where
  "in_sync q \<longleftrightarrow> distinct (members q) \<and> distinct (map fst (access q)) \<and> set (map fst (access q)) = set (members q)"

definition bucket :: "AccessType \<Rightarrow> 'q \<Rightarrow> nat" where
  "bucket a q = length (filter (\<lambda>x. x = a) (map snd (access q)))"

lemma join_sync: "in_sync q \<Longrightarrow> in_sync (join k a q)"
  by (auto simp: in_sync_def members_join access_join distinct_update dom_update)

lemma leave_sync: "in_sync q \<Longrightarrow> in_sync (leave k q)"
  by (auto simp: in_sync_def members_leave access_leave distinct_delete distinct_removeAll delete_keys)

lemma move_sync: "in_sync q \<Longrightarrow> k \<in> set (members q) \<Longrightarrow> in_sync (move k a q)"
  by (auto simp: in_sync_def members_move access_move distinct_update dom_update)

text \<open>The buckets of the two access types add up to the number of members.\<close>

lemma buckets: "in_sync q \<Longrightarrow> bucket ThreeGpp q + bucket NonThreeGpp q = length (members q)"
proof -
  assume "in_sync q"
  then have "length (members q) = length (access q)"
    unfolding in_sync_def by (metis distinct_card length_map)
  moreover have "length xs = length (filter (\<lambda>x. x = ThreeGpp) xs) + length (filter (\<lambda>x. x = NonThreeGpp) xs)" for xs
    by (induction xs) (auto simp: AccessType.exhaust, metis AccessType.exhaust)
  from this [of "map snd (access q)"] show ?thesis
    using calculation by (simp add: bucket_def)
qed

text \<open>Leaving undoes joining, for a member that was not there before.\<close>

lemma leave_join:
  assumes "in_sync q" and "k \<notin> set (members q)"
  shows "members (leave k (join k a q)) = members q \<and> map_of (access (leave k (join k a q))) = map_of (access q)"
proof
  show "members (leave k (join k a q)) = members q"
    using assms(2) by (simp add: members_leave members_join removeAll_id)
  have "map_of (access q) k = None"
    using assms unfolding in_sync_def by (metis map_of_eq_None_iff set_map)
  then show "map_of (access (leave k (join k a q))) = map_of (access q)"
    by (auto simp: access_leave access_join AList.delete_conv' AList.update_conv' fun_upd_idem)
qed

end

abbreviation join_ue :: "string \<Rightarrow> AccessType \<Rightarrow> SliceQuota \<Rightarrow> SliceQuota" where
  "join_ue k a q \<equiv> q\<lparr>ues := List.insert k (ues q), ue_access := AList.update k a (ue_access q)\<rparr>"

abbreviation leave_ue :: "string \<Rightarrow> SliceQuota \<Rightarrow> SliceQuota" where
  "leave_ue k q \<equiv> q\<lparr>ues := removeAll k (ues q), ue_access := AList.delete k (ue_access q)\<rparr>"

abbreviation move_ue :: "string \<Rightarrow> AccessType \<Rightarrow> SliceQuota \<Rightarrow> SliceQuota" where
  "move_ue k a q \<equiv> q\<lparr>ue_access := AList.update k a (ue_access q)\<rparr>"

abbreviation join_pdu :: "string \<Rightarrow> AccessType \<Rightarrow> SliceQuota \<Rightarrow> SliceQuota" where
  "join_pdu k a q \<equiv> q\<lparr>pdu_sessions := List.insert k (pdu_sessions q), pdu_access := AList.update k a (pdu_access q)\<rparr>"

abbreviation leave_pdu :: "string \<Rightarrow> SliceQuota \<Rightarrow> SliceQuota" where
  "leave_pdu k q \<equiv> q\<lparr>pdu_sessions := removeAll k (pdu_sessions q), pdu_access := AList.delete k (pdu_access q)\<rparr>"

abbreviation move_pdu :: "string \<Rightarrow> AccessType \<Rightarrow> SliceQuota \<Rightarrow> SliceQuota" where
  "move_pdu k a q \<equiv> q\<lparr>pdu_access := AList.update k a (pdu_access q)\<rparr>"

interpretation ue: counted_members ues ue_access join_ue leave_ue move_ue
  by unfold_locales simp_all

interpretation pdu: counted_members pdu_sessions pdu_access join_pdu leave_pdu move_pdu
  by unfold_locales simp_all

section \<open>What the operations do to the quotas\<close>

definition put_quota :: "u64 \<Rightarrow> SliceQuota \<Rightarrow> NsacfContext \<Rightarrow> NsacfContext" where
  "put_quota i q c = c\<lparr>quota_list := AList.update i q (quota_list c)\<rparr>"

definition same_slice :: "SliceQuota \<Rightarrow> SliceQuota \<Rightarrow> bool" where
  "same_slice q q' \<longleftrightarrow> sq_id q' = sq_id q \<and> s_nssai q' = s_nssai q"

lemma update_eac_fields [simp]:
  "sq_id (snd (update_eac t q)) = sq_id q" "s_nssai (snd (update_eac t q)) = s_nssai q"
  "ues (snd (update_eac t q)) = ues q" "ue_access (snd (update_eac t q)) = ue_access q"
  "pdu_sessions (snd (update_eac t q)) = pdu_sessions q" "pdu_access (snd (update_eac t q)) = pdu_access q"
  "max_ues (snd (update_eac t q)) = max_ues q" "max_pdu_sessions (snd (update_eac t q)) = max_pdu_sessions q"
  by (simp_all add: update_eac_def Let_def)

lemma admit_ue_cases:
  obtains "snd (admit_ue n k a c) = c"
  | i q where "map_of (quota_list c) i = Some q" and "k \<notin> set (ues q)" and "current_ues q < max_ues q"
      and "snd (admit_ue n k a c) = put_quota i (snd (update_eac (eac_threshold_percent c) (join_ue k a q))) c"
  by (fastforce simp: admit_ue_def put_quota_def Let_def split_beta not_le split: option.splits if_splits)

lemma release_ue_cases:
  obtains "snd (release_ue n k c) = c"
  | i q where "map_of (quota_list c) i = Some q"
      and "snd (release_ue n k c) = put_quota i (snd (update_eac (eac_threshold_percent c) (leave_ue k q))) c"
  by (fastforce simp: release_ue_def put_quota_def Let_def split_beta split: option.splits if_splits)

lemma update_ue_access_cases:
  obtains "snd (update_ue_access n k a c) = c"
  | i q where "map_of (quota_list c) i = Some q" and "k \<in> set (ues q)"
      and "snd (update_ue_access n k a c) = put_quota i (move_ue k a q) c"
  by (fastforce simp: update_ue_access_def put_quota_def Let_def split: option.splits if_splits)

lemma admit_pdu_session_cases:
  obtains "snd (admit_pdu_session n k a c) = c"
  | i q where "map_of (quota_list c) i = Some q" and "k \<notin> set (pdu_sessions q)"
      and "current_pdu_sessions q < max_pdu_sessions q"
      and "snd (admit_pdu_session n k a c) = put_quota i (join_pdu k a q) c"
  by (fastforce simp: admit_pdu_session_def put_quota_def Let_def not_le split: option.splits if_splits)

lemma release_pdu_session_cases:
  obtains "snd (release_pdu_session n k c) = c"
  | i q where "map_of (quota_list c) i = Some q" and "snd (release_pdu_session n k c) = put_quota i (leave_pdu k q) c"
  by (fastforce simp: release_pdu_session_def put_quota_def Let_def split: option.splits if_splits)

lemma update_pdu_access_cases:
  obtains "snd (update_pdu_access n k a c) = c"
  | i q where "map_of (quota_list c) i = Some q" and "k \<in> set (pdu_sessions q)"
      and "snd (update_pdu_access n k a c) = put_quota i (move_pdu k a q) c"
  by (fastforce simp: update_pdu_access_def put_quota_def Let_def split: option.splits if_splits)

lemma quota_update_or_add_cases:
  obtains "snd (quota_update_or_add n mu mp l c) = c"
  | "snd (quota_update_or_add n mu mp l c) = snd (quota_add_with_limits n mu mp l c)"
  | i q where "map_of (quota_list c) i = Some q"
      and "snd (quota_update_or_add n mu mp l c) =
        put_quota i (with_access_limits l (q\<lparr>max_ues := mu, max_pdu_sessions := mp\<rparr>)) c"
  by (fastforce simp: quota_update_or_add_def put_quota_def Let_def split: option.splits)

text \<open>A count below a 64-bit ceiling that the members respect leaves room for one more.\<close>

lemma room:
  fixes m :: u64
  assumes "n \<le> unat m" and "of_nat n < m"
  shows "Suc n \<le> unat m"
proof -
  have "n < 2 ^ 64"
    using assms(1) unsigned_less [of m, where 'a = nat] by simp
  then have "unat (of_nat n :: u64) = n"
    by (simp add: unat_of_nat take_bit_nat_eq_self)
  then show ?thesis
    using assms(2) by (simp add: word_less_nat_alt)
qed

section \<open>Runs\<close>

text \<open>
  The steps of the context: every method that changes it, with any arguments. Quota identifiers are
  taken from a 64-bit counter; \<open>add\<close> excludes its wrap-around.
\<close>

inductive nsacf_op :: "NsacfContext \<Rightarrow> NsacfContext \<Rightarrow> bool" where
  init: "nsacf_op c (nsacf_init m c)"
| fini: "nsacf_op c (nsacf_fini c)"
| eac_set: "nsacf_op c (eac_subscription_set nf uri c)"
| eac_remove: "nsacf_op c (snd (eac_subscription_remove nf c))"
| threshold: "nsacf_op c (set_eac_threshold p c)"
| add: "next_quota_id c \<noteq> -1 \<Longrightarrow> nsacf_op c (snd (quota_add_with_limits n mu mp l c))"
| remove: "nsacf_op c (snd (quota_remove i c))"
| admit: "nsacf_op c (snd (admit_ue n k a c))"
| release: "nsacf_op c (snd (release_ue n k c))"
| move: "nsacf_op c (snd (update_ue_access n k a c))"
| admit_pdu: "nsacf_op c (snd (admit_pdu_session n k a c))"
| release_pdu: "nsacf_op c (snd (release_pdu_session n k c))"
| move_pdu: "nsacf_op c (snd (update_pdu_access n k a c))"
| subscribe: "nsacf_op c (subscription_add s c)"
| unsubscribe: "nsacf_op c (snd (subscription_remove j c))"

text \<open>Reconfiguration of a quota, which may lower its ceilings, is a step of its own.\<close>

inductive nsacf_step :: "NsacfContext \<Rightarrow> NsacfContext \<Rightarrow> bool" where
  op: "nsacf_op c c' \<Longrightarrow> nsacf_step c c'"
| reconfigure: "next_quota_id c \<noteq> -1 \<Longrightarrow> nsacf_step c (snd (quota_update_or_add n mu mp l c))"

text \<open>
  A property of a single quota that a fresh quota has and that every update of a quota keeps is a
  property of all quotas of every state a run reaches.
\<close>

locale quota_law =
  fixes ok :: "SliceQuota \<Rightarrow> bool"
  assumes fresh: "ok (with_access_limits l (quota_new i n mu mp))"
    and eac: "ok q \<Longrightarrow> ok (snd (update_eac t q))"
    and join: "ok q \<Longrightarrow> k \<notin> set (ues q) \<Longrightarrow> current_ues q < max_ues q \<Longrightarrow> ok (join_ue k a q)"
    and leave: "ok q \<Longrightarrow> ok (leave_ue k q)"
    and move: "ok q \<Longrightarrow> k \<in> set (ues q) \<Longrightarrow> ok (move_ue k a q)"
    and join_session: "ok q \<Longrightarrow> k \<notin> set (pdu_sessions q) \<Longrightarrow> current_pdu_sessions q < max_pdu_sessions q \<Longrightarrow>
      ok (join_pdu k a q)"
    and leave_session: "ok q \<Longrightarrow> ok (leave_pdu k q)"
    and move_session: "ok q \<Longrightarrow> k \<in> set (pdu_sessions q) \<Longrightarrow> ok (move_pdu k a q)"
begin

definition all_ok :: "NsacfContext \<Rightarrow> bool" where
  "all_ok c \<longleftrightarrow> (\<forall>i q. map_of (quota_list c) i = Some q \<longrightarrow> ok q)"

lemma all_okD: "all_ok c \<Longrightarrow> map_of (quota_list c) i = Some q \<Longrightarrow> ok q"
  unfolding all_ok_def by blast

lemma all_ok_put: "all_ok c \<Longrightarrow> ok q \<Longrightarrow> all_ok (put_quota i q c)"
  unfolding all_ok_def put_quota_def by (simp add: AList.update_conv' del: map_of_eq_Some_iff)

lemma all_ok_same: "all_ok c \<Longrightarrow> quota_list c' = quota_list c \<Longrightarrow> all_ok c'"
  unfolding all_ok_def by metis

lemma all_ok_add: "all_ok c \<Longrightarrow> all_ok (snd (quota_add_with_limits n mu mp l c))"
  unfolding all_ok_def quota_add_with_limits_def
  by (simp add: Let_def AList.update_conv' fresh del: map_of_eq_Some_iff)

lemma all_ok_remove: "all_ok c \<Longrightarrow> all_ok (snd (quota_remove i c))"
  unfolding all_ok_def quota_remove_def
  by (simp add: AList.delete_conv' del: map_of_eq_Some_iff split: option.split)

lemma op_keeps:
  assumes "nsacf_op c c'" and "all_ok c"
  shows "all_ok c'"
  using assms
proof (cases rule: nsacf_op.cases)
  case fini
  then show ?thesis using assms(2) by (simp add: nsacf_fini_def all_ok_def)
next
  case (add n mu mp l)
  then show ?thesis using all_ok_add assms(2) by simp
next
  case (remove i)
  then show ?thesis using all_ok_remove assms(2) by simp
next
  case (admit n k a)
  then show ?thesis
    by (cases rule: admit_ue_cases [of n k a c])
      (metis all_ok_put all_okD assms(2) eac local.join)+
next
  case (release n k)
  then show ?thesis
    by (cases rule: release_ue_cases [of n k c])
      (metis all_ok_put all_okD assms(2) eac local.leave)+
next
  case (move n k a)
  then show ?thesis
    by (cases rule: update_ue_access_cases [of n k a c])
      (metis all_ok_put all_okD assms(2) quota_law_axioms quota_law.move)+
next
  case (admit_pdu n k a)
  then show ?thesis
    by (cases rule: admit_pdu_session_cases [of n k a c])
      (metis all_ok_put all_okD assms(2) join_session)+
next
  case (release_pdu n k)
  then show ?thesis
    by (cases rule: release_pdu_session_cases [of n k c])
      (metis all_ok_put all_okD assms(2) leave_session)+
next
  case (move_pdu n k a)
  then show ?thesis
    by (cases rule: update_pdu_access_cases [of n k a c])
      (metis all_ok_put all_okD assms(2) move_session)+
qed (auto intro!: all_ok_same [OF assms(2)] simp: nsacf_init_def eac_subscription_set_def
    eac_subscription_remove_def set_eac_threshold_def subscription_add_def subscription_remove_def)

lemma run_keeps: "nsacf_op\<^sup>*\<^sup>* c c' \<Longrightarrow> all_ok c \<Longrightarrow> all_ok c'"
  by (induction rule: rtranclp_induct) (auto dest: op_keeps)

lemma all_ok_new: "all_ok nsacf_new"
  by (simp add: all_ok_def nsacf_new_def)

end

text \<open>A property that does not depend on the ceilings also survives their reconfiguration.\<close>

locale ceiling_free_law = quota_law +
  assumes reconfigured: "ok q \<Longrightarrow> ok (with_access_limits l (q\<lparr>max_ues := mu, max_pdu_sessions := mp\<rparr>))"
begin

lemma step_keeps:
  assumes "nsacf_step c c'" and "all_ok c"
  shows "all_ok c'"
  using assms(1)
proof (cases rule: nsacf_step.cases)
  case op
  then show ?thesis using op_keeps assms(2) by blast
next
  case (reconfigure n mu mp l)
  then show ?thesis
    by (cases rule: quota_update_or_add_cases [of n mu mp l c])
      (metis all_ok_put all_ok_add all_okD assms(2) reconfigured)+
qed

lemma reachable_keeps: "nsacf_step\<^sup>*\<^sup>* c c' \<Longrightarrow> all_ok c \<Longrightarrow> all_ok c'"
  by (induction rule: rtranclp_induct) (auto dest: step_keeps)

end

text \<open>Members and access types stay in step; the ceilings bound the members of both kinds.\<close>

definition quota_inv :: "SliceQuota \<Rightarrow> bool" where
  "quota_inv q \<longleftrightarrow> ue.in_sync q \<and> pdu.in_sync q"

definition within_ceilings :: "SliceQuota \<Rightarrow> bool" where
  "within_ceilings q \<longleftrightarrow>
     length (ues q) \<le> unat (max_ues q) \<and> length (pdu_sessions q) \<le> unat (max_pdu_sessions q)"

lemma in_sync_other [simp]:
  "ue.in_sync (snd (update_eac t q)) = ue.in_sync q" "pdu.in_sync (snd (update_eac t q)) = pdu.in_sync q"
  "ue.in_sync (q\<lparr>pdu_sessions := ks, pdu_access := m\<rparr>) = ue.in_sync q"
  "ue.in_sync (q\<lparr>pdu_access := m\<rparr>) = ue.in_sync q" "ue.in_sync (q\<lparr>pdu_sessions := ks\<rparr>) = ue.in_sync q"
  "pdu.in_sync (q\<lparr>ues := ks, ue_access := m\<rparr>) = pdu.in_sync q"
  "pdu.in_sync (q\<lparr>ue_access := m\<rparr>) = pdu.in_sync q" "pdu.in_sync (q\<lparr>ues := ks\<rparr>) = pdu.in_sync q"
  "ue.in_sync (with_access_limits l (q\<lparr>max_ues := mu, max_pdu_sessions := mp\<rparr>)) = ue.in_sync q"
  "pdu.in_sync (with_access_limits l (q\<lparr>max_ues := mu, max_pdu_sessions := mp\<rparr>)) = pdu.in_sync q"
  by (simp_all add: ue.in_sync_def pdu.in_sync_def with_access_limits_def)

lemma with_access_limits_fields [simp]:
  "ues (with_access_limits l q) = ues q" "ue_access (with_access_limits l q) = ue_access q"
  "pdu_sessions (with_access_limits l q) = pdu_sessions q" "pdu_access (with_access_limits l q) = pdu_access q"
  "sq_id (with_access_limits l q) = sq_id q" "s_nssai (with_access_limits l q) = s_nssai q"
  "max_ues (with_access_limits l q) = max_ues q" "max_pdu_sessions (with_access_limits l q) = max_pdu_sessions q"
  by (simp_all add: with_access_limits_def)

interpretation synced: ceiling_free_law quota_inv
proof unfold_locales
  fix l i n mu mp
  show "quota_inv (with_access_limits l (quota_new i n mu mp))"
    by (simp add: quota_inv_def ue.in_sync_def pdu.in_sync_def quota_new_def)
qed (simp_all add: quota_inv_def ue.join_sync ue.leave_sync ue.move_sync pdu.join_sync pdu.leave_sync
    pdu.move_sync del: not_in_set_insert)

interpretation bounded: quota_law within_ceilings
proof unfold_locales
  fix q k a
  assume "within_ceilings q" and "k \<notin> set (ues q)" and "current_ues q < max_ues q"
  then show "within_ceilings (join_ue k a q)"
    by (simp add: within_ceilings_def current_ues_def room)
next
  fix q k a
  assume "within_ceilings q" and "k \<notin> set (pdu_sessions q)" and "current_pdu_sessions q < max_pdu_sessions q"
  then show "within_ceilings (join_pdu k a q)"
    by (simp add: within_ceilings_def current_pdu_sessions_def room)
qed (auto simp: within_ceilings_def quota_new_def intro: le_trans [OF length_removeAll_less_eq])

section \<open>Keys\<close>

text \<open>
  Identifiers and slices are keys, every quota is stored under its identifier, which is smaller than the
  next one, and the hash leads to a quota of exactly the slice it is asked for.
\<close>

definition slice_key :: "SNssai \<Rightarrow> u8 \<times> u32 option" where
  "slice_key n = (sst n, sd n)"

definition nsacf_keys :: "NsacfContext \<Rightarrow> bool" where
  "nsacf_keys c \<longleftrightarrow>
     distinct (map fst (quota_list c)) \<and> distinct (map fst (snssai_hash c)) \<and>
     (\<forall>i q. map_of (quota_list c) i = Some q \<longrightarrow> sq_id q = i \<and> i < next_quota_id c) \<and>
     (\<forall>k i. map_of (snssai_hash c) k = Some i \<longrightarrow>
        (\<exists>q. map_of (quota_list c) i = Some q \<and> slice_key (s_nssai q) = k))"

lemma keys_quotas:
  assumes "nsacf_keys c" and "distinct (map fst (quota_list c'))" and "snssai_hash c' = snssai_hash c"
    and "next_quota_id c' = next_quota_id c"
    and "\<And>i q'. map_of (quota_list c') i = Some q' \<Longrightarrow> \<exists>q. map_of (quota_list c) i = Some q \<and> same_slice q q'"
    and "\<And>i. map_of (quota_list c) i \<noteq> None \<Longrightarrow> map_of (quota_list c') i \<noteq> None"
  shows "nsacf_keys c'"
  unfolding nsacf_keys_def
proof (intro conjI allI impI)
  fix i q'
  assume "map_of (quota_list c') i = Some q'"
  then obtain q where "map_of (quota_list c) i = Some q" and "same_slice q q'"
    using assms(5) by blast
  then show "sq_id q' = i" and "i < next_quota_id c'"
    using assms(1,4) unfolding nsacf_keys_def same_slice_def by auto
next
  fix k i
  assume "map_of (snssai_hash c') k = Some i"
  then obtain q where q: "map_of (quota_list c) i = Some q" and "slice_key (s_nssai q) = k"
    using assms(1,3) unfolding nsacf_keys_def by metis
  moreover obtain q' where q': "map_of (quota_list c') i = Some q'"
    using assms(6) q by blast
  ultimately show "\<exists>q. map_of (quota_list c') i = Some q \<and> slice_key (s_nssai q) = k"
    using assms(5) [OF q'] unfolding same_slice_def by auto
qed (use assms in \<open>simp_all add: nsacf_keys_def\<close>)

lemma keys_put_quota:
  assumes "nsacf_keys c" and "map_of (quota_list c) i = Some q" and "same_slice q q'"
  shows "nsacf_keys (put_quota i q' c)"
proof (rule keys_quotas [OF assms(1)])
  show "distinct (map fst (quota_list (put_quota i q' c)))"
    using assms(1) by (simp add: put_quota_def nsacf_keys_def distinct_update)
  fix j p
  assume "map_of (quota_list (put_quota i q' c)) j = Some p"
  then show "\<exists>q. map_of (quota_list c) j = Some q \<and> same_slice q p"
    using assms(2,3) by (cases "j = i")
      (auto simp add: put_quota_def AList.update_conv' same_slice_def simp del: map_of_eq_Some_iff)
next
  fix j
  assume "map_of (quota_list c) j \<noteq> None"
  then show "map_of (quota_list (put_quota i q' c)) j \<noteq> None"
    by (simp add: put_quota_def AList.update_conv' del: map_of_eq_None_iff)
qed (simp_all add: put_quota_def)

lemma keys_same:
  "nsacf_keys c \<Longrightarrow> quota_list c' = quota_list c \<Longrightarrow> snssai_hash c' = snssai_hash c \<Longrightarrow>
     next_quota_id c' = next_quota_id c \<Longrightarrow> nsacf_keys c'"
  unfolding nsacf_keys_def by metis

lemma keys_add:
  assumes "nsacf_keys c" and "next_quota_id c \<noteq> -1"
  shows "nsacf_keys (snd (quota_add_with_limits n mu mp l c))"
proof (cases "length (quota_list c) \<ge> max_quotas c")
  case True
  then show ?thesis using assms(1) by (simp add: quota_add_with_limits_def)
next
  case False
  let ?i = "next_quota_id c" and ?c = "snd (quota_add_with_limits n mu mp l c)"
  define q where "q = with_access_limits l (quota_new ?i n mu mp)"
  have c: "quota_list ?c = AList.update ?i q (quota_list c)" "next_quota_id ?c = ?i + 1"
    "snssai_hash ?c = AList.update (slice_key n) ?i (snssai_hash c)"
    using False by (simp_all add: quota_add_with_limits_def q_def Let_def slice_key_def quota_new_def)
  have q: "sq_id q = ?i" "s_nssai q = n"
    by (simp_all add: q_def quota_new_def)
  have new: "map_of (quota_list c) ?i = None"
    using assms(1) unfolding nsacf_keys_def by (metis less_irrefl option.exhaust)
  have more: "?i < ?i + 1"
    using assms(2) inc_less_eq_triv_imp [of ?i] not_le by blast
  show ?thesis
    unfolding nsacf_keys_def
  proof (intro conjI allI impI)
    fix j p
    assume "map_of (quota_list ?c) j = Some p"
    then have "j = ?i \<and> p = q \<or> map_of (quota_list c) j = Some p"
      by (simp add: c AList.update_conv' del: map_of_eq_Some_iff split: if_split_asm)
    then have "sq_id p = j \<and> j \<le> ?i"
      using assms(1) q unfolding nsacf_keys_def by (metis order.refl order.strict_implies_order)
    then show "sq_id p = j" and "j < next_quota_id ?c"
      using more unfolding c(2) by (blast, blast intro: order.strict_trans1)
  next
    fix k j
    assume "map_of (snssai_hash ?c) k = Some j"
    then have "k = slice_key n \<and> j = ?i \<or> map_of (snssai_hash c) k = Some j"
      by (simp add: c AList.update_conv' del: map_of_eq_Some_iff split: if_split_asm)
    then show "\<exists>p. map_of (quota_list ?c) j = Some p \<and> slice_key (s_nssai p) = k"
      using assms(1) q new unfolding nsacf_keys_def c(1) AList.update_conv' by (metis fun_upd_apply option.distinct(1))
  qed (use assms(1) in \<open>simp_all add: nsacf_keys_def c distinct_update\<close>)
qed

lemma keys_remove:
  assumes "nsacf_keys c"
  shows "nsacf_keys (snd (quota_remove i c))"
proof (cases "map_of (quota_list c) i")
  case None
  then show ?thesis using assms by (simp add: quota_remove_def del: map_of_eq_None_iff)
next
  case (Some q)
  let ?c = "snd (quota_remove i c)"
  have c: "quota_list ?c = AList.delete i (quota_list c)" "next_quota_id ?c = next_quota_id c"
    "snssai_hash ?c = AList.delete (slice_key (s_nssai q)) (snssai_hash c)"
    using Some by (simp_all add: quota_remove_def slice_key_def del: map_of_eq_Some_iff)
  show ?thesis
    unfolding nsacf_keys_def c(2)
  proof (intro conjI allI impI)
    fix j p
    assume "map_of (quota_list ?c) j = Some p"
    then have "map_of (quota_list c) j = Some p"
      by (simp add: c AList.delete_conv' del: map_of_eq_Some_iff split: if_split_asm)
    then show "sq_id p = j" and "j < next_quota_id c"
      using assms unfolding nsacf_keys_def by blast+
  next
    fix k j
    assume "map_of (snssai_hash ?c) k = Some j"
    then have k: "k \<noteq> slice_key (s_nssai q)" and "map_of (snssai_hash c) k = Some j"
      by (simp_all add: c AList.delete_conv' del: map_of_eq_Some_iff split: if_split_asm)
    then obtain p where p: "map_of (quota_list c) j = Some p" and "slice_key (s_nssai p) = k"
      using assms unfolding nsacf_keys_def by blast
    moreover from this k have "j \<noteq> i"
      using Some by (metis option.inject)
    ultimately show "\<exists>p. map_of (quota_list ?c) j = Some p \<and> slice_key (s_nssai p) = k"
      by (simp add: c AList.delete_conv' del: map_of_eq_Some_iff)
  qed (use assms in \<open>simp_all add: nsacf_keys_def c distinct_delete\<close>)
qed

lemma same_slice_updates [simp]:
  "same_slice q (snd (update_eac t (join_ue k a q)))" "same_slice q (snd (update_eac t (leave_ue k q)))"
  "same_slice q (move_ue k a q)" "same_slice q (join_pdu k a q)" "same_slice q (leave_pdu k q)"
  "same_slice q (move_pdu k a q)"
  "same_slice q (with_access_limits l (q\<lparr>max_ues := mu, max_pdu_sessions := mp\<rparr>))"
  by (simp_all add: same_slice_def)

lemma keys_op:
  assumes "nsacf_op c c'" and "nsacf_keys c"
  shows "nsacf_keys c'"
  using assms(1)
proof (cases rule: nsacf_op.cases)
  case fini
  then show ?thesis using assms(2) by (cases "initialized c") (simp_all add: nsacf_fini_def nsacf_keys_def del: map_of_eq_Some_iff)
next
  case (add n mu mp l)
  then show ?thesis using keys_add assms(2) by simp
next
  case (remove i)
  then show ?thesis using keys_remove assms(2) by simp
next
  case (admit n k a)
  then show ?thesis by (cases rule: admit_ue_cases [of n k a c]) (metis keys_put_quota assms(2) same_slice_updates)+
next
  case (release n k)
  then show ?thesis by (cases rule: release_ue_cases [of n k c]) (metis keys_put_quota assms(2) same_slice_updates)+
next
  case (move n k a)
  then show ?thesis
    by (cases rule: update_ue_access_cases [of n k a c]) (metis keys_put_quota assms(2) same_slice_updates)+
next
  case (admit_pdu n k a)
  then show ?thesis
    by (cases rule: admit_pdu_session_cases [of n k a c]) (metis keys_put_quota assms(2) same_slice_updates)+
next
  case (release_pdu n k)
  then show ?thesis
    by (cases rule: release_pdu_session_cases [of n k c]) (metis keys_put_quota assms(2) same_slice_updates)+
next
  case (move_pdu n k a)
  then show ?thesis
    by (cases rule: update_pdu_access_cases [of n k a c]) (metis keys_put_quota assms(2) same_slice_updates)+
qed (auto intro!: keys_same [OF assms(2)] simp: nsacf_init_def eac_subscription_set_def
    eac_subscription_remove_def set_eac_threshold_def subscription_add_def subscription_remove_def)

lemma keys_step:
  assumes "nsacf_step c c'" and "nsacf_keys c"
  shows "nsacf_keys c'"
  using assms(1)
proof (cases rule: nsacf_step.cases)
  case (reconfigure n mu mp l)
  then show ?thesis
    by (cases rule: quota_update_or_add_cases [of n mu mp l c])
      (metis keys_add keys_put_quota same_slice_updates assms(2))+
qed (use assms(2) in \<open>auto dest: keys_op\<close>)

lemma keys_reachable: "nsacf_step\<^sup>*\<^sup>* c c' \<Longrightarrow> nsacf_keys c \<Longrightarrow> nsacf_keys c'"
  by (induction rule: rtranclp_induct) (auto dest: keys_step)

lemma keys_new: "nsacf_keys nsacf_new"
  by (simp add: nsacf_keys_def nsacf_new_def)

section \<open>Admission and release\<close>

lemma put_quota_lookup [simp]:
  "quota_id_for n (put_quota i q c) = quota_id_for n c"
  "map_of (quota_list (put_quota i q c)) i = Some q"
  "eac_threshold_percent (put_quota i q c) = eac_threshold_percent c"
  "put_quota i q (put_quota i q' c) = put_quota i q c"
  by (simp_all add: put_quota_def quota_id_for_def AList.update_conv' del: map_of_eq_Some_iff cong: option.case_cong)

lemma find_by_snssai:
  "quota_find_by_snssai n c = Some q \<longleftrightarrow> (\<exists>i. quota_id_for n c = Some i \<and> map_of (quota_list c) i = Some q)"
  by (simp add: quota_find_by_snssai_def quota_find_by_id_def del: map_of_eq_Some_iff split: option.split)

lemma admit_ue_joins:
  assumes "quota_id_for n c = Some i" and "map_of (quota_list c) i = Some q" and "k \<notin> set (ues q)"
    and "fst (fst (admit_ue n k a c)) = Admitted"
  shows "snd (admit_ue n k a c) = put_quota i (snd (update_eac (eac_threshold_percent c) (join_ue k a q))) c"
  using assms
  by (simp add: admit_ue_def Let_def split_beta put_quota_def del: map_of_eq_Some_iff split: if_split_asm)

lemma admit_ue_member:
  assumes "quota_id_for n c = Some i" and "map_of (quota_list c) i = Some q" and "k \<in> set (ues q)"
  shows "admit_ue n k a c = ((Admitted, None), c)"
  using assms by (simp add: admit_ue_def Let_def del: map_of_eq_Some_iff)

lemma release_ue_member:
  assumes "quota_id_for n c = Some i" and "map_of (quota_list c) i = Some q" and "k \<in> set (ues q)"
  shows "release_ue n k c =
    (Released (fst (update_eac (eac_threshold_percent c) (leave_ue k q))),
     put_quota i (snd (update_eac (eac_threshold_percent c) (leave_ue k q))) c)"
  using assms by (simp add: release_ue_def Let_def split_beta put_quota_def del: map_of_eq_Some_iff)

text \<open>
  C18: In every state a run of operations reaches, reconfigurations included, the keys are consistent (ids
  and slices are unique, a quota is stored under its own id, below the next one, and the hash leads to a
  quota of exactly its slice), no UE is counted twice for a slice, the access map has exactly the counted
  UEs, and the counts of the two access types add up to the count of the slice; the same holds for PDU
  sessions.
\<close>

theorem nsacf_invariant:
  assumes "nsacf_step\<^sup>*\<^sup>* nsacf_new c"
  shows "nsacf_keys c \<and>
    (\<forall>i q. map_of (quota_list c) i = Some q \<longrightarrow>
       distinct (ues q) \<and> set (map fst (ue_access q)) = set (ues q) \<and>
       current_ues q = current_ues_access ThreeGpp q + current_ues_access NonThreeGpp q \<and>
       distinct (pdu_sessions q) \<and> set (map fst (pdu_access q)) = set (pdu_sessions q) \<and>
       current_pdu_sessions q = current_pdu_access ThreeGpp q + current_pdu_access NonThreeGpp q)"
proof (intro conjI allI impI)
  show "nsacf_keys c"
    using keys_reachable [OF assms keys_new] .
next
  fix i q
  assume "map_of (quota_list c) i = Some q"
  then have ue: "ue.in_sync q" and pdu: "pdu.in_sync q"
    using synced.all_okD [OF synced.reachable_keeps [OF assms synced.all_ok_new]] by (simp_all add: quota_inv_def)
  then show "distinct (ues q)" "set (map fst (ue_access q)) = set (ues q)"
    "distinct (pdu_sessions q)" "set (map fst (pdu_access q)) = set (pdu_sessions q)"
    by (simp_all add: ue.in_sync_def pdu.in_sync_def)
  show "current_ues q = current_ues_access ThreeGpp q + current_ues_access NonThreeGpp q"
    using ue.buckets [OF ue] unfolding current_ues_def current_ues_access_def ue.bucket_def
    by (metis of_nat_add)
  show "current_pdu_sessions q = current_pdu_access ThreeGpp q + current_pdu_access NonThreeGpp q"
    using pdu.buckets [OF pdu] unfolding current_pdu_sessions_def current_pdu_access_def pdu.bucket_def
    by (metis of_nat_add)
qed

text \<open>A run of three steps: initialise, configure a slice, admit a UE.\<close>

definition demo_slice :: SNssai where
  "demo_slice = \<lparr>sst = 1, sd = None\<rparr>"

definition demo_configured :: NsacfContext where
  "demo_configured = snd (quota_add_with_limits demo_slice 2 2 access_limits_default (nsacf_init 4 nsacf_new))"

definition demo_admitted :: NsacfContext where
  "demo_admitted = snd (admit_ue demo_slice ''imsi-1'' ThreeGpp demo_configured)"

lemma demo_run: "nsacf_op\<^sup>*\<^sup>* nsacf_new demo_admitted"
proof -
  have "nsacf_op nsacf_new (nsacf_init 4 nsacf_new)"
    by (rule nsacf_op.init)
  moreover have "nsacf_op (nsacf_init 4 nsacf_new) demo_configured"
    unfolding demo_configured_def by (rule nsacf_op.add) code_simp
  moreover have "nsacf_op demo_configured demo_admitted"
    unfolding demo_admitted_def by (rule nsacf_op.admit)
  ultimately show ?thesis by (meson converse_rtranclp_into_rtranclp rtranclp.rtrancl_refl)
qed

lemma demo_reachable: "nsacf_step\<^sup>*\<^sup>* nsacf_new demo_admitted"
  using demo_run by (rule rtranclp_mono [THEN predicate2D, rotated]) (auto intro: nsacf_step.op)

theorem nsacf_invariant_witness: "nsacf_keys demo_admitted \<and> quota_count demo_admitted = 1"
proof
  show "nsacf_keys demo_admitted" using nsacf_invariant [OF demo_reachable] by blast
  show "quota_count demo_admitted = 1" by code_simp
qed



text \<open>
  An admission that counts a new UE makes it a member of the quota of the slice; admitting it again,
  for any access type, is granted and changes nothing; and releasing it brings back the members and
  access types the quota had before.
\<close>

lemma nsacf_release_undoes_admit:
  assumes "nsacf_step\<^sup>*\<^sup>* nsacf_new c" and "quota_find_by_snssai n c = Some q" and "k \<notin> set (ues q)"
    and "admit_ue n k a c = ((Admitted, eac), c1)"
  shows "\<exists>q1 e c2 q2. quota_find_by_snssai n c1 = Some q1 \<and> set (ues q1) = insert k (set (ues q)) \<and>
    admit_ue n k b c1 = ((Admitted, None), c1) \<and>
    release_ue n k c1 = (Released e, c2) \<and> quota_find_by_snssai n c2 = Some q2 \<and>
    ues q2 = ues q \<and> map_of (ue_access q2) = map_of (ue_access q)"
proof -
  let ?eac = "\<lambda>q. snd (update_eac (eac_threshold_percent c) q)"
  obtain i where i: "quota_id_for n c = Some i" and q: "map_of (quota_list c) i = Some q"
    using assms(2) by (auto simp: find_by_snssai simp del: map_of_eq_Some_iff)
  have c1: "c1 = put_quota i (?eac (join_ue k a q)) c"
    using admit_ue_joins [OF i q assms(3), of a] assms(4) by simp
  have c1_i: "quota_id_for n c1 = Some i" and c1_q: "map_of (quota_list c1) i = Some (?eac (join_ue k a q))"
    and mem: "k \<in> set (ues (?eac (join_ue k a q)))" and t: "eac_threshold_percent c1 = eac_threshold_percent c"
    using i by (simp_all add: c1 del: map_of_eq_Some_iff)
  let ?q2 = "?eac (leave_ue k (?eac (join_ue k a q)))"
  let ?c2 = "put_quota i ?q2 c1"
  have sync: "ue.in_sync q"
    using synced.all_okD [OF synced.reachable_keeps [OF assms(1) synced.all_ok_new] q] by (simp add: quota_inv_def)
  have "quota_find_by_snssai n c1 = Some (?eac (join_ue k a q))" and "quota_find_by_snssai n ?c2 = Some ?q2"
    using c1_i c1_q by (simp_all add: find_by_snssai del: map_of_eq_Some_iff)
  moreover have "release_ue n k c1 = (Released (fst (update_eac (eac_threshold_percent c)
      (leave_ue k (?eac (join_ue k a q))))), ?c2)"
    using release_ue_member [OF c1_i c1_q mem] by (simp add: t)
  moreover have "ues ?q2 = ues q \<and> map_of (ue_access ?q2) = map_of (ue_access q)"
    using ue.leave_join [OF sync assms(3), of a] by simp
  moreover have "set (ues (?eac (join_ue k a q))) = insert k (set (ues q))"
    by simp
  ultimately show ?thesis
    using admit_ue_member [OF c1_i c1_q mem, of b] by blast
qed

section \<open>Departures from the documentation\<close>

text \<open>
  A reconfiguration of a slice with an SD that has no quota of its own changes the ceilings of the
  SST-wide quota instead of creating one, where the comment on \<^verbatim>\<open>quota_update_or_add\<close> says "or create it
  if absent". A move between access types does not look at the ceiling of the access type it moves to.
\<close>

lemma reconfigure_overwrites_sst_quota:
  "map_option max_ues (quota_find_by_snssai demo_slice
     (snd (quota_update_or_add \<lparr>sst = 1, sd = Some 5\<rparr> 9 9 access_limits_default demo_configured))) = Some 9"
  by code_simp

lemma move_exceeds_access_ceiling:
  "let c0 = snd (quota_add_with_limits demo_slice 2 2 (access_limits_default\<lparr>al_max_ues_n3gpp := Some 0\<rparr>)
              (nsacf_init 4 nsacf_new));
       c1 = snd (admit_ue demo_slice ''imsi-1'' ThreeGpp c0);
       c2 = snd (update_ue_access demo_slice ''imsi-1'' NonThreeGpp c1)
   in map_option (current_ues_access NonThreeGpp) (quota_find_by_snssai demo_slice c2) = Some 1"
  by code_simp

end
