(* ===== verification/Handle_Table.thy ===== *)
theory Handle_Table
  imports Prelude
begin

text \<open>
  The contract that the object pools and the timer manager of the core library share: a table that hands out handles and
  takes them back. A client sees a map from handles to contents; a new handle is never one that is still in use.
  \<open>ready\<close> is what an implementation needs of a state before it hands out a handle, for the tables whose handles are numbers that
  run out.
\<close>

datatype 'h table_op = Acquire | Release 'h

fun table_run :: "('s \<Rightarrow> 'h option \<times> 's) \<Rightarrow> ('h \<Rightarrow> 's \<Rightarrow> 's) \<Rightarrow> 'h table_op list \<Rightarrow> 's \<Rightarrow> 'h option list \<times> 's" where
  "table_run acquire release [] s = ([], s)"
| "table_run acquire release (Acquire # os) s =
     (let (h, s) = acquire s; (hs, s) = table_run acquire release os s in (h # hs, s))"
| "table_run acquire release (Release h # os) s = (let (hs, s) = table_run acquire release os (release h s) in (None # hs, s))"

text \<open>The handles in use after a run, from its results alone, and that none was handed out while it was in use.\<close>

fun live_after :: "'h table_op list \<Rightarrow> 'h option list \<Rightarrow> 'h set \<Rightarrow> 'h set" where
  "live_after (Acquire # os) (Some h # hs) live = live_after os hs (insert h live)"
| "live_after (Acquire # os) (None # hs) live = live_after os hs live"
| "live_after (Release h # os) (_ # hs) live = live_after os hs (live - {h})"
| "live_after _ _ live = live"

fun never_reused :: "'h table_op list \<Rightarrow> 'h option list \<Rightarrow> 'h set \<Rightarrow> bool" where
  "never_reused (Acquire # os) (Some h # hs) live \<longleftrightarrow> h \<notin> live \<and> never_reused os hs (insert h live)"
| "never_reused (Acquire # os) (None # hs) live \<longleftrightarrow> never_reused os hs live"
| "never_reused (Release h # os) (_ # hs) live \<longleftrightarrow> never_reused os hs (live - {h})"
| "never_reused _ _ live \<longleftrightarrow> True"

fun ready_run :: "('s \<Rightarrow> bool) \<Rightarrow> ('s \<Rightarrow> 'h option \<times> 's) \<Rightarrow> ('h \<Rightarrow> 's \<Rightarrow> 's) \<Rightarrow> 'h table_op list \<Rightarrow> 's \<Rightarrow> bool" where
  "ready_run ready acquire release [] s \<longleftrightarrow> True"
| "ready_run ready acquire release (Acquire # os) s \<longleftrightarrow> ready s \<and> ready_run ready acquire release os (snd (acquire s))"
| "ready_run ready acquire release (Release h # os) s \<longleftrightarrow> ready_run ready acquire release os (release h s)"

locale handle_table =
  fixes inv :: "'s \<Rightarrow> bool" and ready :: "'s \<Rightarrow> bool" and items :: "'s \<Rightarrow> 'h \<Rightarrow> 'x option"
    and fresh :: "'h \<Rightarrow> 'x" and acquire :: "'s \<Rightarrow> 'h option \<times> 's" and release :: "'h \<Rightarrow> 's \<Rightarrow> 's"
  assumes acquire_inv: "inv s \<Longrightarrow> ready s \<Longrightarrow> inv (snd (acquire s))"
    and acquire_some: "inv s \<Longrightarrow> ready s \<Longrightarrow> acquire s = (Some h, s') \<Longrightarrow> items s h = None \<and> items s' = (items s)(h \<mapsto> fresh h)"
    and acquire_none: "inv s \<Longrightarrow> ready s \<Longrightarrow> acquire s = (None, s') \<Longrightarrow> items s' = items s"
    and release_inv: "inv s \<Longrightarrow> inv (release h s)"
    and release_items: "inv s \<Longrightarrow> items (release h s) = (items s)(h := None)"
begin

lemma release_undoes_acquire:
  assumes "inv s" and "ready s" and "acquire s = (Some h, s')"
  shows "items (release h s') = items s"
  using acquire_some [OF assms] acquire_inv [OF assms(1,2)] assms(3) by (simp add: release_items fun_upd_idem)

lemma table_run_spec:
  assumes "inv s" and "ready_run ready acquire release os s" and "table_run acquire release os s = (hs, s')"
  shows "inv s' \<and> dom (items s') = live_after os hs (dom (items s)) \<and> never_reused os hs (dom (items s))"
  using assms
proof (induction os arbitrary: s hs)
  case (Cons op os)
  show ?case
  proof (cases op)
    case Acquire
    obtain h s1 where a: "acquire s = (h, s1)" by force
    obtain hs1 where hs: "hs = h # hs1" "table_run acquire release os s1 = (hs1, s')"
      using Cons.prems(3) a by (auto simp: Acquire split: prod.splits)
    have ready: "ready s" "ready_run ready acquire release os s1" using Cons.prems(2) a by (simp_all add: Acquire)
    have "inv s1" using acquire_inv [OF Cons.prems(1) ready(1)] a by simp
    then have IH: "inv s' \<and> dom (items s') = live_after os hs1 (dom (items s1)) \<and> never_reused os hs1 (dom (items s1))"
      using Cons.IH ready(2) hs(2) by blast
    show ?thesis
    proof (cases h)
      case None
      then have "items s1 = items s" using acquire_none [OF Cons.prems(1) ready(1)] a by simp
      then show ?thesis using IH hs(1) None Acquire by simp
    next
      case (Some h')
      then have "items s h' = None" "items s1 = (items s)(h' \<mapsto> fresh h')"
        using acquire_some [OF Cons.prems(1) ready(1)] a by simp_all
      then show ?thesis using IH hs(1) Some Acquire by (simp add: domIff)
    qed
  next
    case (Release h)
    obtain hs1 where hs: "hs = None # hs1" "table_run acquire release os (release h s) = (hs1, s')"
      using Cons.prems(3) by (auto simp: Release split: prod.splits)
    have "ready_run ready acquire release os (release h s)" using Cons.prems(2) by (simp add: Release)
    moreover have "dom (items (release h s)) = dom (items s) - {h}" by (simp only: release_items [OF Cons.prems(1)] dom_fun_upd if_P)
    ultimately show ?thesis
      using Cons.IH [OF release_inv [OF Cons.prems(1), of h] _ hs(2)] hs(1) Release by simp
  qed
qed simp

end

text \<open>A table that is always ready is ready along every run.\<close>

lemma ready_run_True: "ready_run (\<lambda>_. True) acquire release os s"
proof (induction os arbitrary: s)
  case (Cons op os)
  then show ?case by (cases op) simp_all
qed simp

end
