(* ===== verification/Timer_Mgr.thy ===== *)
theory Timer_Mgr
  imports Handle_Table "HOL-Library.RBT"
begin

text \<open>
  The timer manager of the core library (\<^verbatim>\<open>libs/nextgcore-core/src/timer.rs\<close>): timers in a vector of slots with a free list,
  and a \<^verbatim>\<open>BTreeMap\<close> from (deadline, id) to the slot of each running timer, which is a red-black tree here. Instants and
  durations are numbers of nanoseconds since the epoch of the manager; the current time is an argument of the
  operations that read the clock, and a deadline is one that the clock of the platform can represent. The coordination of timers between instances is at the end.
\<close>

section \<open>Timers and keys\<close>

record 'a NextgcoreTimer =
  tm_id :: u64
  tm_callback :: "('a \<Rightarrow> 'a) option"
  tm_data :: "'a option"
  tm_running :: bool
  tm_timeout :: "nat option"

definition timer_new :: "u64 \<Rightarrow> ('a \<Rightarrow> 'a) option \<Rightarrow> 'a option \<Rightarrow> 'a NextgcoreTimer" where
  "timer_new i cb x = \<lparr>tm_id = i, tm_callback = cb, tm_data = x, tm_running = False, tm_timeout = None\<rparr>"

datatype TimerKey = TimerKey (key_timeout: nat) (key_id: u64)

text \<open>The derived order of the key: by the deadline, then by the id.\<close>

instantiation TimerKey :: linorder
begin

definition less_eq_TimerKey :: "TimerKey \<Rightarrow> TimerKey \<Rightarrow> bool" where
  "k \<le> l \<longleftrightarrow> key_timeout k < key_timeout l \<or> key_timeout k = key_timeout l \<and> key_id k \<le> key_id l"

definition less_TimerKey :: "TimerKey \<Rightarrow> TimerKey \<Rightarrow> bool" where
  "k < l \<longleftrightarrow> key_timeout k < key_timeout l \<or> key_timeout k = key_timeout l \<and> key_id k < key_id l"

instance
  by standard (auto simp: less_eq_TimerKey_def less_TimerKey_def intro: TimerKey.expand)

end

section \<open>The manager\<close>

record 'a NextgcoreTimerMgr =
  timers :: "'a NextgcoreTimer option list"
  free_indices :: "nat list"
  tree :: "(TimerKey, nat) RBT.rbt"
  next_id :: u64
  capacity :: nat

definition mgr_new :: "nat \<Rightarrow> 'a NextgcoreTimerMgr" where
  "mgr_new c = \<lparr>timers = replicate c None, free_indices = rev [0..<c], tree = RBT.empty, next_id = 1, capacity = c\<rparr>"

definition has_id :: "u64 \<Rightarrow> 'a NextgcoreTimer option \<Rightarrow> bool" where
  "has_id i slot = (case slot of None \<Rightarrow> False | Some t \<Rightarrow> tm_id t = i)"

definition find_index :: "u64 \<Rightarrow> 'a NextgcoreTimerMgr \<Rightarrow> nat option" where
  "find_index i m = List.find (\<lambda>j. has_id i (timers m ! j)) [0..<length (timers m)]"

definition timer_get :: "u64 \<Rightarrow> 'a NextgcoreTimerMgr \<Rightarrow> 'a NextgcoreTimer option" where
  "timer_get i m = Option.bind (find_index i m) (\<lambda>j. timers m ! j)"

text \<open>A change of the user data through \<^verbatim>\<open>get_mut\<close> and \<^verbatim>\<open>data_mut\<close>.\<close>

definition timer_data_mut :: "u64 \<Rightarrow> ('a \<Rightarrow> 'a) \<Rightarrow> 'a NextgcoreTimerMgr \<Rightarrow> 'a NextgcoreTimerMgr" where
  "timer_data_mut i f m =
     (case find_index i m of
        None \<Rightarrow> m
      | Some index \<Rightarrow>
          m\<lparr>timers := (timers m)[index := map_option (\<lambda>t. t\<lparr>tm_data := map_option f (tm_data t)\<rparr>) (timers m ! index)]\<rparr>)"

text \<open>The common body of \<^verbatim>\<open>add\<close> and \<^verbatim>\<open>add_simple\<close>; the free list is popped at its end.\<close>

definition insert_timer :: "('a \<Rightarrow> 'a) option \<Rightarrow> 'a option \<Rightarrow> 'a NextgcoreTimerMgr \<Rightarrow> u64 option \<times> 'a NextgcoreTimerMgr" where
  "insert_timer cb x m =
     (if free_indices m = [] then (None, m)
      else
        let index = last (free_indices m); i = next_id m
        in (Some i, m\<lparr>free_indices := butlast (free_indices m), next_id := i + 1,
                      timers := (timers m)[index := Some (timer_new i cb x)]\<rparr>))"

definition timer_add :: "('a \<Rightarrow> 'a) \<Rightarrow> 'a \<Rightarrow> 'a NextgcoreTimerMgr \<Rightarrow> u64 option \<times> 'a NextgcoreTimerMgr" where
  "timer_add cb x m = insert_timer (Some cb) (Some x) m"

definition timer_add_simple :: "'a NextgcoreTimerMgr \<Rightarrow> u64 option \<times> 'a NextgcoreTimerMgr" where
  "timer_add_simple m = insert_timer None None m"

definition timer_start :: "nat \<Rightarrow> u64 \<Rightarrow> nat \<Rightarrow> 'a NextgcoreTimerMgr \<Rightarrow> 'a NextgcoreTimerMgr" where
  "timer_start now i duration m =
     (case find_index i m of
        None \<Rightarrow> m
      | Some index \<Rightarrow>
          (case timers m ! index of
             None \<Rightarrow> m
           | Some t \<Rightarrow>
               let tr = (case tm_timeout t of Some old \<Rightarrow> RBT.delete (TimerKey old (tm_id t)) (tree m) | None \<Rightarrow> tree m)
               in m\<lparr>timers := (timers m)[index := Some (t\<lparr>tm_timeout := Some (now + duration), tm_running := True\<rparr>)],
                    tree := RBT.insert (TimerKey (now + duration) (tm_id t)) index tr\<rparr>))"

definition timer_stop :: "u64 \<Rightarrow> 'a NextgcoreTimerMgr \<Rightarrow> 'a NextgcoreTimerMgr" where
  "timer_stop i m =
     (case find_index i m of
        None \<Rightarrow> m
      | Some index \<Rightarrow>
          (case timers m ! index of
             None \<Rightarrow> m
           | Some t \<Rightarrow>
               if \<not> tm_running t then m
               else m\<lparr>tree := (case tm_timeout t of Some old \<Rightarrow> RBT.delete (TimerKey old (tm_id t)) (tree m) | None \<Rightarrow> tree m),
                      timers := (timers m)[index := Some (t\<lparr>tm_running := False, tm_timeout := None\<rparr>)]\<rparr>))"

definition timer_delete :: "u64 \<Rightarrow> 'a NextgcoreTimerMgr \<Rightarrow> 'a NextgcoreTimerMgr" where
  "timer_delete i m =
     (case find_index i m of
        None \<Rightarrow> m
      | Some index \<Rightarrow>
          let m = timer_stop i m
          in m\<lparr>timers := (timers m)[index := None], free_indices := free_indices m @ [index]\<rparr>)"

text \<open>The time to the next deadline; it is cut to 64 bits.\<close>

datatype wait_time = Nanos nat | Infinite

definition mgr_next :: "nat \<Rightarrow> 'a NextgcoreTimerMgr \<Rightarrow> wait_time" where
  "mgr_next now m =
     (case RBT.entries (tree m) of
        [] \<Rightarrow> Infinite
      | (k, _) # _ \<Rightarrow> if key_timeout k > now then Nanos ((key_timeout k - now) mod 2 ^ 64) else Nanos 0)"

definition expired_keys :: "nat \<Rightarrow> 'a NextgcoreTimerMgr \<Rightarrow> TimerKey list" where
  "expired_keys now m = filter (\<lambda>k. k \<le> TimerKey now (- 1)) (RBT.keys (tree m))"

fun expire_loop :: "TimerKey list \<Rightarrow> 'a NextgcoreTimerMgr \<Rightarrow> u64 list \<times> 'a NextgcoreTimerMgr" where
  "expire_loop [] m = ([], m)"
| "expire_loop (k # ks) m =
     (case RBT.lookup (tree m) k of
        None \<Rightarrow> expire_loop ks m
      | Some index \<Rightarrow>
          let m = m\<lparr>tree := RBT.delete k (tree m)\<rparr>
          in case timers m ! index of
               None \<Rightarrow> expire_loop ks m
             | Some t \<Rightarrow>
                 let m = m\<lparr>timers := (timers m)[index := Some (t\<lparr>tm_running := False, tm_timeout := None\<rparr>)]\<rparr>;
                     (is, m) = expire_loop ks m
                 in (tm_id t # is, m))"

definition mgr_expire :: "nat \<Rightarrow> 'a NextgcoreTimerMgr \<Rightarrow> u64 list \<times> 'a NextgcoreTimerMgr" where
  "mgr_expire now m = expire_loop (expired_keys now m) m"

definition call_back :: "'a NextgcoreTimer \<Rightarrow> 'a NextgcoreTimer" where
  "call_back t =
     (case (tm_callback t, tm_data t) of (Some cb, Some x) \<Rightarrow> t\<lparr>tm_data := Some (cb x)\<rparr> | _ \<Rightarrow> t)"

fun callback_loop :: "(TimerKey \<times> nat) list \<Rightarrow> 'a NextgcoreTimerMgr \<Rightarrow> 'a NextgcoreTimerMgr" where
  "callback_loop [] m = m"
| "callback_loop ((k, index) # ks) m =
     (let m = m\<lparr>tree := RBT.delete k (tree m)\<rparr>
      in callback_loop ks
           (case timers m ! index of
              None \<Rightarrow> m
            | Some t \<Rightarrow> m\<lparr>timers := (timers m)[index := Some (call_back (t\<lparr>tm_running := False, tm_timeout := None\<rparr>))]\<rparr>))"

definition expire_with_callbacks :: "nat \<Rightarrow> 'a NextgcoreTimerMgr \<Rightarrow> 'a NextgcoreTimerMgr" where
  "expire_with_callbacks now m = callback_loop (filter (\<lambda>(k, _). k \<le> TimerKey now (- 1)) (RBT.entries (tree m))) m"

definition timer_count :: "'a NextgcoreTimerMgr \<Rightarrow> nat" where
  "timer_count m = length (RBT.entries (tree m))"

definition timer_available :: "'a NextgcoreTimerMgr \<Rightarrow> nat" where
  "timer_available m = length (free_indices m)"

section \<open>Coordination between instances\<close>

datatype DistributedTimerMode = Local | Coordinated | LeaderBased

record TimerSyncRecord =
  sr_timer_id :: u64
  sr_instance_id :: string
  sync_expiry_nanos :: nat
  last_sync :: nat

record DistributedTimerCoordinator =
  dt_mode :: DistributedTimerMode
  dt_instance_id :: string
  sync_records :: "TimerSyncRecord list"
  clock_skew_tolerance_nanos :: "128 word"

definition coordinator_new :: "DistributedTimerMode \<Rightarrow> string \<Rightarrow> DistributedTimerCoordinator" where
  "coordinator_new md i = \<lparr>dt_mode = md, dt_instance_id = i, sync_records = [], clock_skew_tolerance_nanos = 1000000000\<rparr>"

definition set_clock_skew_tolerance :: "128 word \<Rightarrow> DistributedTimerCoordinator \<Rightarrow> DistributedTimerCoordinator" where
  "set_clock_skew_tolerance n c = c\<lparr>clock_skew_tolerance_nanos := n\<rparr>"

text \<open>The first record of the timer is changed, or a new one is appended.\<close>

fun sync_record :: "nat \<Rightarrow> string \<Rightarrow> u64 \<Rightarrow> nat \<Rightarrow> TimerSyncRecord list \<Rightarrow> TimerSyncRecord list" where
  "sync_record now inst i expiry [] =
     [\<lparr>sr_timer_id = i, sr_instance_id = inst, sync_expiry_nanos = expiry, last_sync = now\<rparr>]"
| "sync_record now inst i expiry (r # rs) =
     (if sr_timer_id r = i then r\<lparr>sync_expiry_nanos := expiry, last_sync := now\<rparr> # rs else r # sync_record now inst i expiry rs)"

definition sync_timer :: "nat \<Rightarrow> u64 \<Rightarrow> nat \<Rightarrow> DistributedTimerCoordinator \<Rightarrow> nat \<times> DistributedTimerCoordinator" where
  "sync_timer now i expiry c =
     (expiry, if dt_mode c = Coordinated then c\<lparr>sync_records := sync_record now (dt_instance_id c) i expiry (sync_records c)\<rparr> else c)"

definition get_sync_expiry :: "u64 \<Rightarrow> DistributedTimerCoordinator \<Rightarrow> nat option" where
  "get_sync_expiry i c = map_option sync_expiry_nanos (List.find (\<lambda>r. sr_timer_id r = i) (sync_records c))"

definition unsync_timer :: "u64 \<Rightarrow> DistributedTimerCoordinator \<Rightarrow> DistributedTimerCoordinator" where
  "unsync_timer i c = c\<lparr>sync_records := filter (\<lambda>r. sr_timer_id r \<noteq> i) (sync_records c)\<rparr>"

text \<open>\<^verbatim>\<open>u128\<close> and \<^verbatim>\<open>i128\<close> arithmetic that saturates.\<close>

definition adjust_for_skew :: "128 word \<Rightarrow> 128 word \<Rightarrow> DistributedTimerCoordinator \<Rightarrow> 128 word" where
  "adjust_for_skew expiry skew c =
     (let d = (word_of_int \<bar>sint skew\<bar> :: 128 word)
      in if d > clock_skew_tolerance_nanos c
         then if sint skew > 0 then (if expiry + d < expiry then - 1 else expiry + d)
              else (if d > expiry then 0 else expiry - d)
         else expiry)"

lemma sync_then_get:
  "dt_mode c = Coordinated \<Longrightarrow> get_sync_expiry i (snd (sync_timer now i e c)) = Some e"
  "j \<noteq> i \<Longrightarrow> get_sync_expiry j (snd (sync_timer now i e c)) = get_sync_expiry j c"
  "get_sync_expiry i (unsync_timer i c) = None"
proof -
  have "map_option sync_expiry_nanos (List.find (\<lambda>r. sr_timer_id r = i) (sync_record now inst i e rs)) = Some e"
    "j \<noteq> i \<Longrightarrow> List.find (\<lambda>r. sr_timer_id r = j) (sync_record now inst i e rs) = List.find (\<lambda>r. sr_timer_id r = j) rs" for rs inst
    by (induction rs) auto
  then show "dt_mode c = Coordinated \<Longrightarrow> get_sync_expiry i (snd (sync_timer now i e c)) = Some e"
    "j \<noteq> i \<Longrightarrow> get_sync_expiry j (snd (sync_timer now i e c)) = get_sync_expiry j c"
    by (simp_all add: sync_timer_def get_sync_expiry_def)
  show "get_sync_expiry i (unsync_timer i c) = None"
    by (simp add: unsync_timer_def get_sync_expiry_def find_None_iff)
qed

section \<open>The invariant\<close>

definition slot :: "'a NextgcoreTimerMgr \<Rightarrow> nat \<Rightarrow> 'a NextgcoreTimer \<Rightarrow> bool" where
  "slot m j t \<longleftrightarrow> j < length (timers m) \<and> timers m ! j = Some t"

text \<open>
  The free list holds the empty slots, once each; ids are unique and below the next one; a timer runs exactly if it has a
  deadline; and the tree holds exactly the running timers under their deadlines.
\<close>

definition mgr_inv :: "'a NextgcoreTimerMgr \<Rightarrow> bool" where
  "mgr_inv m \<longleftrightarrow>
     length (timers m) = capacity m \<and> distinct (free_indices m) \<and>
     set (free_indices m) = {j. j < capacity m \<and> timers m ! j = None} \<and>
     (\<forall>j l t u. slot m j t \<longrightarrow> slot m l u \<longrightarrow> tm_id t = tm_id u \<longrightarrow> j = l) \<and>
     (\<forall>j t. slot m j t \<longrightarrow> tm_id t < next_id m \<and> tm_running t = (tm_timeout t \<noteq> None)) \<and>
     (\<forall>k j. RBT.lookup (tree m) k = Some j \<longleftrightarrow> (\<exists>t. slot m j t \<and> tm_timeout t = Some (key_timeout k) \<and> tm_id t = key_id k))"

lemma mgr_invD:
  assumes "mgr_inv m"
  shows "length (timers m) = capacity m" "distinct (free_indices m)" "set (free_indices m) = {j. j < capacity m \<and> timers m ! j = None}"
    "slot m j t \<Longrightarrow> slot m l u \<Longrightarrow> tm_id t = tm_id u \<Longrightarrow> j = l"
    "slot m j t \<Longrightarrow> tm_id t < next_id m" "slot m j t \<Longrightarrow> tm_running t = (tm_timeout t \<noteq> None)"
    "RBT.lookup (tree m) k = Some j \<longleftrightarrow> (\<exists>t. slot m j t \<and> tm_timeout t = Some (key_timeout k) \<and> tm_id t = key_id k)"
  using assms unfolding mgr_inv_def by blast+

lemma find_index_slot:
  assumes "mgr_inv m"
  shows "find_index i m = Some j \<longleftrightarrow> (\<exists>t. slot m j t \<and> tm_id t = i)"
proof -
  have has: "has_id i (timers m ! j) \<longleftrightarrow> (\<exists>t. slot m j t \<and> tm_id t = i)" if "j < length (timers m)" for j
    using that by (auto simp: has_id_def slot_def split: option.split)
  show ?thesis
  proof
    assume "find_index i m = Some j"
    then have "j < length (timers m)" and "has_id i (timers m ! j)"
      by (auto simp: find_index_def find_Some_iff)
    then show "\<exists>t. slot m j t \<and> tm_id t = i" by (simp add: has)
  next
    assume ex: "\<exists>t. slot m j t \<and> tm_id t = i"
    then have j: "j < length (timers m)" "has_id i (timers m ! j)" using has by (auto simp: slot_def)
    have "find_index i m \<noteq> None" using j by (auto simp: find_index_def find_None_iff)
    then obtain l where l: "find_index i m = Some l" by blast
    then have "l < length (timers m)" "has_id i (timers m ! l)" by (auto simp: find_index_def find_Some_iff)
    then have "l = j" using has ex mgr_invD(4) [OF assms] by metis
    then show "find_index i m = Some j" using l by simp
  qed
qed

lemma find_index_cases:
  assumes "mgr_inv m"
  obtains (found) j t where "find_index i m = Some j" and "slot m j t" and "tm_id t = i" and "timer_get i m = Some t"
  | (absent) "find_index i m = None" and "timer_get i m = None" and "\<And>j t. slot m j t \<Longrightarrow> tm_id t \<noteq> i"
proof (cases "find_index i m")
  case None
  then show thesis using absent find_index_slot [OF assms, of i] by (auto simp: timer_get_def)
next
  case (Some j)
  then show thesis using found find_index_slot [OF assms, of i j] by (auto simp: timer_get_def slot_def)
qed

text \<open>Changing the deadline of one timer and its entry in the tree keeps the invariant.\<close>

definition retimed :: "'a NextgcoreTimerMgr \<Rightarrow> nat \<Rightarrow> 'a NextgcoreTimer \<Rightarrow> (TimerKey, nat) RBT.rbt \<Rightarrow> 'a NextgcoreTimerMgr" where
  "retimed m j t tr = m\<lparr>timers := (timers m)[j := Some t], tree := tr\<rparr>"

lemma update_order: "m\<lparr>tree := tr, timers := ts\<rparr> = m\<lparr>timers := ts, tree := tr\<rparr>" for m :: "'a NextgcoreTimerMgr"
  by simp

lemma slot_retimed: "slot m j t \<Longrightarrow> slot (retimed m j t' tr) l u \<longleftrightarrow> (if l = j then u = t' else slot m l u)"
  by (auto simp: slot_def retimed_def)

lemma retimed_inv:
  assumes "mgr_inv m" and j: "slot m j t" and t': "tm_id t' = tm_id t" "tm_running t' = (tm_timeout t' \<noteq> None)"
    and tr: "\<And>k. RBT.lookup tr k = (if key_id k = tm_id t then (if tm_timeout t' = Some (key_timeout k) then Some j else None)
      else RBT.lookup (tree m) k)"
  shows "mgr_inv (retimed m j t' tr)"
proof -
  note inv = mgr_invD [OF assms(1)]
  let ?m = "retimed m j t' tr"
  have slots: "slot ?m l u \<longleftrightarrow> (if l = j then u = t' else slot m l u)" for l u by (rule slot_retimed [OF j])
  have "RBT.lookup (tree ?m) k = Some l \<longleftrightarrow> (\<exists>u. slot ?m l u \<and> tm_timeout u = Some (key_timeout k) \<and> tm_id u = key_id k)" for k l
  proof (cases "key_id k = tm_id t")
    case True
    then have "slot m l u \<Longrightarrow> tm_id u = key_id k \<Longrightarrow> l = j" for u using inv(4) [OF _ j] by metis
    then show ?thesis using True t'(1) tr [of k] unfolding slots by (auto simp: retimed_def)
  next
    case False
    have "tree ?m = tr" by (simp add: retimed_def)
    then have "RBT.lookup (tree ?m) k = RBT.lookup (tree m) k" using False tr [of k] by simp
    moreover have "slot m l u \<and> tm_id u = key_id k \<Longrightarrow> l \<noteq> j" for u using False j by (auto simp: slot_def)
    ultimately show ?thesis using False t'(1) inv(7) [of k l] unfolding slots by auto
  qed
  moreover have "l = n" if "slot ?m l u" "slot ?m n v" "tm_id u = tm_id v" for l n u v
  proof -
    have old: "\<exists>u'. slot m l u' \<and> tm_id u' = tm_id u" if "slot ?m l u" for l u
      using that j t'(1) unfolding slots by (metis (full_types))
    from old [OF that(1)] old [OF that(2)] that(3) show ?thesis using inv(4) by metis
  qed
  moreover have "\<forall>l u. slot ?m l u \<longrightarrow> tm_id u < next_id ?m \<and> tm_running u = (tm_timeout u \<noteq> None)"
    unfolding slots using inv(5,6) j t' by (auto simp: retimed_def)
  moreover have "set (free_indices ?m) = {l. l < capacity ?m \<and> timers ?m ! l = None}"
  proof -
    have "timers ?m ! l = None \<longleftrightarrow> timers m ! l = None" for l
      using j by (cases "l = j") (simp_all add: retimed_def slot_def)
    moreover have "free_indices ?m = free_indices m" "capacity ?m = capacity m" by (simp_all add: retimed_def)
    ultimately show ?thesis by (simp only: inv(3))
  qed
  ultimately show ?thesis unfolding mgr_inv_def using inv(1,2) by (simp add: retimed_def)
qed

lemma lookup_timer:
  assumes "mgr_inv m" and "slot m j t" and "key_id k = tm_id t"
  shows "RBT.lookup (tree m) k = (if tm_timeout t = Some (key_timeout k) then Some j else None)"
proof (cases "RBT.lookup (tree m) k")
  case None
  then show ?thesis using mgr_invD(7) [OF assms(1), of k j] assms by auto
next
  case (Some l)
  then obtain u where u: "slot m l u" "tm_timeout u = Some (key_timeout k)" "tm_id u = key_id k"
    using mgr_invD(7) [OF assms(1)] by blast
  then have "l = j" using mgr_invD(4) [OF assms(1) u(1) assms(2)] assms(3) by simp
  then show ?thesis using Some u assms(2) by (simp add: slot_def)
qed

section \<open>The deadlines that a manager keeps\<close>

definition deadlines :: "'a NextgcoreTimerMgr \<Rightarrow> u64 \<Rightarrow> nat option option" where
  "deadlines m i = map_option tm_timeout (timer_get i m)"

lemma deadlines_slot:
  assumes "mgr_inv m"
  shows "deadlines m i = Some x \<longleftrightarrow> (\<exists>j t. slot m j t \<and> tm_id t = i \<and> tm_timeout t = x)"
  using assms
proof (cases rule: find_index_cases [of m i])
  case (found j t)
  have "u = t" if "slot m l u" "tm_id u = i" for l u
  proof -
    have "l = j" using mgr_invD(4) [OF assms that(1) found(2)] that(2) found(3) by simp
    then show ?thesis using that(1) found(2) by (simp add: slot_def)
  qed
  moreover have "deadlines m i = Some (tm_timeout t)" using found(4) by (simp add: deadlines_def)
  ultimately show ?thesis using found(2,3) by (metis option.inject)
next
  case absent
  then show ?thesis by (auto simp: deadlines_def)
qed

lemma deadlines_eqI:
  assumes "mgr_inv m" and "\<And>i x. (\<exists>j t. slot m j t \<and> tm_id t = i \<and> tm_timeout t = x) \<longleftrightarrow> f i = Some x"
  shows "deadlines m = f"
proof
  fix i
  show "deadlines m i = f i"
  proof -
    have "deadlines m i = Some x \<longleftrightarrow> f i = Some x" for x
      unfolding deadlines_slot [OF assms(1)] by (rule assms(2))
    then show ?thesis by (metis not_Some_eq)
  qed
qed

lemma deadlines_retimed:
  assumes "mgr_inv m" and "slot m j t" and "tm_id t' = tm_id t" and "mgr_inv (retimed m j t' tr)"
  shows "deadlines (retimed m j t' tr) = (deadlines m)(tm_id t \<mapsto> tm_timeout t')"
proof (rule deadlines_eqI [OF assms(4)])
  fix i x
  have same: "l = j" if "slot m l u" "tm_id u = tm_id t" for l u
    by (rule mgr_invD(4) [OF assms(1) that(1) assms(2) that(2)])
  have own: "tm_id u = tm_id t" if "slot m j u" for u using that assms(2) by (simp add: slot_def)
  show "(\<exists>l u. slot (retimed m j t' tr) l u \<and> tm_id u = i \<and> tm_timeout u = x) \<longleftrightarrow>
      ((deadlines m)(tm_id t \<mapsto> tm_timeout t')) i = Some x"
  proof (cases "i = tm_id t")
    case True
    have "(\<exists>l u. slot (retimed m j t' tr) l u \<and> tm_id u = i \<and> tm_timeout u = x) \<longleftrightarrow> tm_timeout t' = x"
      unfolding slot_retimed [OF assms(2)] using True same assms(3) by (metis (full_types))
    then show ?thesis using True by simp
  next
    case False
    have "(\<exists>l u. slot (retimed m j t' tr) l u \<and> tm_id u = i \<and> tm_timeout u = x) \<longleftrightarrow>
        (\<exists>l u. slot m l u \<and> tm_id u = i \<and> tm_timeout u = x)"
      unfolding slot_retimed [OF assms(2)] using False own assms(3) by (metis (full_types))
    then show ?thesis using False deadlines_slot [OF assms(1), of i x] by simp
  qed
qed

text \<open>A running timer is stopped, with any change of its data.\<close>

lemma retimed_off:
  assumes "mgr_inv m" and "slot m j t" and "tm_timeout t = Some x" and "tm_id t' = tm_id t" "tm_timeout t' = None" "\<not> tm_running t'"
  shows "mgr_inv (retimed m j t' (RBT.delete (TimerKey x (tm_id t)) (tree m)))"
proof (rule retimed_inv [OF assms(1,2,4)])
  fix k
  show "RBT.lookup (RBT.delete (TimerKey x (tm_id t)) (tree m)) k =
    (if key_id k = tm_id t then (if tm_timeout t' = Some (key_timeout k) then Some j else None) else RBT.lookup (tree m) k)"
    using lookup_timer [OF assms(1,2), of k] assms(3,5) by (cases k) (auto simp: restrict_map_def)
qed (simp add: assms)

lemma retimed_on:
  assumes "mgr_inv m" and "slot m j t" and "tm_id t' = tm_id t" "tm_timeout t' = Some y" "tm_running t'"
  shows "mgr_inv (retimed m j t' (RBT.insert (TimerKey y (tm_id t)) j
    (case tm_timeout t of Some x \<Rightarrow> RBT.delete (TimerKey x (tm_id t)) (tree m) | None \<Rightarrow> tree m)))"
proof (rule retimed_inv [OF assms(1,2,3)])
  fix k
  show "RBT.lookup (RBT.insert (TimerKey y (tm_id t)) j
      (case tm_timeout t of Some x \<Rightarrow> RBT.delete (TimerKey x (tm_id t)) (tree m) | None \<Rightarrow> tree m)) k =
    (if key_id k = tm_id t then (if tm_timeout t' = Some (key_timeout k) then Some j else None) else RBT.lookup (tree m) k)"
    using lookup_timer [OF assms(1,2), of k] assms(4) by (cases k) (auto simp: restrict_map_def split: option.split)
qed (simp add: assms)

lemma expire_loop_spec:
  assumes "mgr_inv m" and "distinct ks" and "\<And>k. k \<in> set ks \<Longrightarrow> RBT.lookup (tree m) k \<noteq> None" and "expire_loop ks m = (is, m')"
  shows "is = map key_id ks \<and> mgr_inv m' \<and> capacity m' = capacity m \<and> next_id m' = next_id m \<and>
    deadlines m' = (\<lambda>i. if i \<in> key_id ` set ks then Some None else deadlines m i)"
  using assms
proof (induction ks arbitrary: m "is" m')
  case (Cons k ks)
  obtain j where l: "RBT.lookup (tree m) k = Some j" using Cons.prems(3) by force
  then obtain t where t: "slot m j t" "tm_timeout t = Some (key_timeout k)" "tm_id t = key_id k"
    using mgr_invD(7) [OF Cons.prems(1)] by blast
  let ?t = "t\<lparr>tm_running := False, tm_timeout := None\<rparr>"
  let ?m = "retimed m j ?t (RBT.delete k (tree m))"
  have k: "TimerKey (key_timeout k) (tm_id t) = k" using t(3) by (cases k) simp
  have inv: "mgr_inv ?m"
    using retimed_off [OF Cons.prems(1) t(1,2), of ?t] unfolding k by simp
  have dl: "deadlines ?m = (deadlines m)(key_id k \<mapsto> None)"
    using deadlines_retimed [OF Cons.prems(1) t(1) _ inv] t(3) by simp
  have "RBT.lookup (tree ?m) k' \<noteq> None" if "k' \<in> set ks" for k'
    using Cons.prems(2,3) that by (auto simp: retimed_def restrict_map_def)
  moreover obtain js m'' where rest: "expire_loop ks ?m = (js, m'')" by force
  ultimately have IH: "js = map key_id ks \<and> mgr_inv m'' \<and> capacity m'' = capacity ?m \<and> next_id m'' = next_id ?m \<and>
      deadlines m'' = (\<lambda>i. if i \<in> key_id ` set ks then Some None else deadlines ?m i)"
    using Cons.IH [OF inv, of js m''] Cons.prems(2) by simp
  have "expire_loop (k # ks) m = (tm_id t # js, m'')"
    using l t(1) rest by (simp add: slot_def retimed_def update_order)
  then have "is = tm_id t # js" "m' = m''" using Cons.prems(4) by simp_all
  then show ?case using IH t(3) unfolding dl by (auto simp: retimed_def)
qed simp

lemma callback_loop_spec:
  assumes "mgr_inv m" and "distinct (map fst ks)" and "\<And>k j. (k, j) \<in> set ks \<Longrightarrow> RBT.lookup (tree m) k = Some j"
  shows "mgr_inv (callback_loop ks m) \<and> capacity (callback_loop ks m) = capacity m \<and> next_id (callback_loop ks m) = next_id m \<and>
    deadlines (callback_loop ks m) = (\<lambda>i. if i \<in> key_id ` fst ` set ks then Some None else deadlines m i)"
  using assms
proof (induction ks arbitrary: m)
  case (Cons p ks)
  obtain k j where p: "p = (k, j)" by force
  then obtain t where t: "slot m j t" "tm_timeout t = Some (key_timeout k)" "tm_id t = key_id k"
    using mgr_invD(7) [OF Cons.prems(1), of k j] Cons.prems(3) by auto
  let ?t = "call_back (t\<lparr>tm_running := False, tm_timeout := None\<rparr>)"
  let ?m = "retimed m j ?t (RBT.delete k (tree m))"
  have t': "tm_id ?t = tm_id t" "tm_timeout ?t = None" "\<not> tm_running ?t"
    by (simp_all add: call_back_def split: option.split)
  have k: "TimerKey (key_timeout k) (tm_id t) = k" using t(3) by (cases k) simp
  have inv: "mgr_inv ?m" using retimed_off [OF Cons.prems(1) t(1,2) t'] unfolding k .
  have dl: "deadlines ?m = (deadlines m)(key_id k \<mapsto> None)"
    using deadlines_retimed [OF Cons.prems(1) t(1) t'(1) inv] t(3) t'(2) by simp
  have "RBT.lookup (tree ?m) k' = Some j'" if "(k', j') \<in> set ks" for k' j'
  proof -
    have "k' \<noteq> k" using Cons.prems(2) that p by force
    then show ?thesis using Cons.prems(3) [of k' j'] that by (simp add: retimed_def restrict_map_def)
  qed
  then have "mgr_inv (callback_loop ks ?m) \<and> capacity (callback_loop ks ?m) = capacity ?m \<and> next_id (callback_loop ks ?m) = next_id ?m \<and>
      deadlines (callback_loop ks ?m) = (\<lambda>i. if i \<in> key_id ` fst ` set ks then Some None else deadlines ?m i)"
    using Cons.IH [OF inv] Cons.prems(2) by simp
  moreover have "callback_loop (p # ks) m = callback_loop ks ?m"
    using t(1) by (simp add: p slot_def retimed_def update_order)
  ultimately show ?case unfolding dl by (auto simp: p retimed_def)
qed simp

section \<open>Refinement of a map from ids to deadlines\<close>

text \<open>
  What a timer manager promises: a map from the ids of its timers to their deadlines, if they run. A call gives a result and a
  new map.
\<close>

record timer_spec =
  sp_capacity :: nat
  sp_next :: u64
  sp_deadlines :: "u64 \<Rightarrow> nat option option"

datatype 'a timer_call =
    Add "'a \<Rightarrow> 'a" 'a
  | AddSimple
  | Delete u64
  | Start nat u64 nat
  | Stop u64
  | DataMut u64 "'a \<Rightarrow> 'a"
  | Expire nat
  | ExpireWithCallbacks nat

datatype timer_result = Done | Added "u64 option" | Expired "u64 list"

definition due :: "nat \<Rightarrow> (u64 \<Rightarrow> nat option option) \<Rightarrow> TimerKey set" where
  "due now f = {k. f (key_id k) = Some (Some (key_timeout k)) \<and> key_timeout k \<le> now}"

definition spec_add :: "timer_spec \<Rightarrow> timer_result \<times> timer_spec" where
  "spec_add s =
     (if card (dom (sp_deadlines s)) < sp_capacity s
      then (Added (Some (sp_next s)), s\<lparr>sp_next := sp_next s + 1, sp_deadlines := (sp_deadlines s)(sp_next s \<mapsto> None)\<rparr>)
      else (Added None, s))"

definition set_deadline :: "u64 \<Rightarrow> nat option \<Rightarrow> timer_spec \<Rightarrow> timer_spec" where
  "set_deadline i x s = (if i \<in> dom (sp_deadlines s) then s\<lparr>sp_deadlines := (sp_deadlines s)(i \<mapsto> x)\<rparr> else s)"

definition spec_expire :: "nat \<Rightarrow> timer_spec \<Rightarrow> timer_spec" where
  "spec_expire now s =
     s\<lparr>sp_deadlines := (\<lambda>i. if i \<in> key_id ` due now (sp_deadlines s) then Some None else sp_deadlines s i)\<rparr>"

fun spec_call :: "'a timer_call \<Rightarrow> timer_spec \<Rightarrow> timer_result \<times> timer_spec" where
  "spec_call (Add cb x) s = spec_add s"
| "spec_call AddSimple s = spec_add s"
| "spec_call (Delete i) s = (Done, s\<lparr>sp_deadlines := (sp_deadlines s)(i := None)\<rparr>)"
| "spec_call (Start now i duration) s = (Done, set_deadline i (Some (now + duration)) s)"
| "spec_call (Stop i) s = (Done, set_deadline i None s)"
| "spec_call (DataMut i f) s = (Done, s)"
| "spec_call (Expire now) s = (Expired (map key_id (sorted_list_of_set (due now (sp_deadlines s)))), spec_expire now s)"
| "spec_call (ExpireWithCallbacks now) s = (Done, spec_expire now s)"

fun run_call :: "'a timer_call \<Rightarrow> 'a NextgcoreTimerMgr \<Rightarrow> timer_result \<times> 'a NextgcoreTimerMgr" where
  "run_call (Add cb x) m = map_prod Added id (timer_add cb x m)"
| "run_call AddSimple m = map_prod Added id (timer_add_simple m)"
| "run_call (Delete i) m = (Done, timer_delete i m)"
| "run_call (Start now i duration) m = (Done, timer_start now i duration m)"
| "run_call (Stop i) m = (Done, timer_stop i m)"
| "run_call (DataMut i f) m = (Done, timer_data_mut i f m)"
| "run_call (Expire now) m = map_prod Expired id (mgr_expire now m)"
| "run_call (ExpireWithCallbacks now) m = (Done, expire_with_callbacks now m)"

definition abs_mgr :: "'a NextgcoreTimerMgr \<Rightarrow> timer_spec" where
  "abs_mgr m = \<lparr>sp_capacity = capacity m, sp_next = next_id m, sp_deadlines = deadlines m\<rparr>"

lemma dom_deadlines: "mgr_inv m \<Longrightarrow> i \<in> dom (deadlines m) \<longleftrightarrow> (\<exists>j t. slot m j t \<and> tm_id t = i)"
  using deadlines_slot [of m i] by (auto simp: dom_def)

lemma card_deadlines:
  assumes "mgr_inv m"
  shows "card (dom (deadlines m)) = capacity m - length (free_indices m)" and "length (free_indices m) \<le> capacity m"
proof -
  note inv = mgr_invD [OF assms]
  let ?used = "{j. j < capacity m \<and> timers m ! j \<noteq> None}" and ?i = "\<lambda>j. tm_id (the (timers m ! j))"
  have "dom (deadlines m) = ?i ` ?used"
  proof (rule set_eqI)
    show "i \<in> dom (deadlines m) \<longleftrightarrow> i \<in> ?i ` ?used" for i
      unfolding dom_deadlines [OF assms] slot_def inv(1) by force
  qed
  moreover have "inj_on ?i ?used"
    by (rule inj_onI) (use inv(1,4) in \<open>force simp: slot_def\<close>)
  ultimately have "card (dom (deadlines m)) = card ?used" by (simp add: card_image)
  moreover have "?used = {..<capacity m} - set (free_indices m)" unfolding inv(3) by auto
  moreover have sub: "set (free_indices m) \<subseteq> {..<capacity m}" unfolding inv(3) by auto
  moreover have "card (set (free_indices m)) = length (free_indices m)" by (rule distinct_card [OF inv(2)])
  ultimately show "card (dom (deadlines m)) = capacity m - length (free_indices m)"
    by (simp add: card_Diff_subset)
  show "length (free_indices m) \<le> capacity m"
    using card_mono [OF _ sub] distinct_card [OF inv(2)] by simp
qed

text \<open>Each operation keeps the invariant and does to the deadlines what the specification says.\<close>

lemma word_inc:
  fixes w :: u64
  assumes "w \<noteq> - 1"
  shows "w < w + 1"
proof -
  have "unat w \<noteq> unat (- 1 :: u64)" using assms by (simp only: word_unat_eq_iff not_False_eq_True)
  moreover have "unat (- 1 :: u64) = 2 ^ 64 - 1" by (simp add: unsigned_minus_1_eq_mask mask_eq_exp_minus_1)
  moreover have "unat w < 2 ^ 64" using unsigned_less [of w, where 'a = nat] by simp
  ultimately have "unat w + 1 < 2 ^ 64" by linarith
  then show ?thesis by (simp add: word_less_nat_alt unat_word_ariths)
qed

lemma insert_timer_refines:
  assumes "mgr_inv m" and "next_id m \<noteq> - 1"
  shows "mgr_inv (snd (insert_timer cb x m)) \<and>
    spec_add (abs_mgr m) = (Added (fst (insert_timer cb x m)), abs_mgr (snd (insert_timer cb x m)))"
proof (cases "free_indices m = []")
  case True
  then show ?thesis using assms card_deadlines [OF assms(1)] by (simp add: insert_timer_def spec_add_def abs_mgr_def)
next
  case False
  note inv = mgr_invD [OF assms(1)]
  let ?j = "last (free_indices m)" and ?t = "timer_new (next_id m) cb x" and ?m = "snd (insert_timer cb x m)"
  have m: "?m = m\<lparr>free_indices := butlast (free_indices m), next_id := next_id m + 1, timers := (timers m)[?j := Some ?t]\<rparr>"
    using False by (simp add: insert_timer_def Let_def)
  have j: "?j < capacity m" "timers m ! ?j = None" using False inv(3) last_in_set by blast+
  have up: "next_id m < next_id m + 1" using assms(2) by (rule word_inc)
  have slots: "slot ?m l u \<longleftrightarrow> (if l = ?j then u = ?t else slot m l u)" for l u
    using j inv(1) unfolding m slot_def by (auto simp: nth_list_update)
  have fresh: "\<not> (slot m l u \<and> tm_id u = next_id m)" for l u using inv(5) [of l u] by auto
  have set_free: "set (butlast (free_indices m)) = set (free_indices m) - {?j}"
    using inv(2) False by (metis append_butlast_last_id distinct_butlast distinct.simps(2) distinct_append insert_Diff_single list.simps(15)
      not_distinct_conv_prefix set_append Diff_insert_absorb Un_insert_right empty_set insert_absorb sup_bot.right_neutral)
  have "mgr_inv ?m"
    unfolding mgr_inv_def
  proof (intro conjI allI impI)
    show "length (timers ?m) = capacity ?m" unfolding m using inv(1) by simp
    show "distinct (free_indices ?m)" unfolding m using inv(2) by (simp add: distinct_butlast)
    have "timers ?m ! l = None \<longleftrightarrow> timers m ! l = None \<and> l \<noteq> ?j" if "l < capacity m" for l
      using that inv(1) unfolding m by (cases "l = ?j") simp_all
    then show "set (free_indices ?m) = {l. l < capacity ?m \<and> timers ?m ! l = None}"
      using set_free inv(3) unfolding m by auto
    show "l = n" if "slot ?m l u" "slot ?m n v" "tm_id u = tm_id v" for l n u v
    proof -
      have new: "tm_id w = next_id m" if "slot ?m ?j w" for w using that unfolding slots by (simp add: timer_new_def)
      have old: "slot m k w \<and> tm_id w \<noteq> next_id m" if "slot ?m k w" "k \<noteq> ?j" for k w
        using that fresh [of k w] unfolding slots by simp
      show ?thesis
      proof (rule ccontr)
        assume ne: "l \<noteq> n"
        then consider "l = ?j" "n \<noteq> ?j" | "n = ?j" "l \<noteq> ?j" | "l \<noteq> ?j" "n \<noteq> ?j" by blast
        then show False
        proof cases
          case 1
          then show False using new [of u] old [OF that(2)] that(1,3) by simp
        next
          case 2
          then show False using new [of v] old [OF that(1)] that(2,3) by simp
        next
          case 3
          then show False using inv(4) [of l u n v] old [OF that(1)] old [OF that(2)] that(3) ne by blast
        qed
      qed
    qed
    show "tm_id u < next_id ?m" if "slot ?m l u" for l u
    proof -
      have "tm_id u \<le> next_id m"
        using that [unfolded slots] inv(5) [of l u] by (auto simp: timer_new_def split: if_split_asm)
      moreover have "next_id ?m = next_id m + 1" unfolding m by simp
      ultimately show ?thesis using up by (simp only:)
    qed
    show "tm_running u = (tm_timeout u \<noteq> None)" if "slot ?m l u" for l u
      using that inv(6) [of l u] unfolding slots by (auto simp: timer_new_def split: if_split_asm)
    show "RBT.lookup (tree ?m) k = Some l \<longleftrightarrow> (\<exists>u. slot ?m l u \<and> tm_timeout u = Some (key_timeout k) \<and> tm_id u = key_id k)" for k l
    proof -
      have "\<not> slot m ?j u" for u using j by (simp add: slot_def)
      moreover have "tree ?m = tree m" unfolding m by simp
      ultimately show ?thesis using inv(7) [of k l] unfolding slots by (auto simp: timer_new_def)
    qed
  qed
  moreover have "deadlines ?m = (deadlines m)(next_id m \<mapsto> None)"
  proof (rule deadlines_eqI [OF calculation])
    fix i x
    have "\<not> slot m ?j u" for u using j by (simp add: slot_def)
    then have "(\<exists>l u. slot ?m l u \<and> tm_id u = i \<and> tm_timeout u = x) \<longleftrightarrow>
        tm_id ?t = i \<and> tm_timeout ?t = x \<or> (\<exists>l u. slot m l u \<and> tm_id u = i \<and> tm_timeout u = x)"
      unfolding slots by (metis (full_types))
    then show "(\<exists>l u. slot ?m l u \<and> tm_id u = i \<and> tm_timeout u = x) \<longleftrightarrow> ((deadlines m)(next_id m \<mapsto> None)) i = Some x"
      using deadlines_slot [OF assms(1), of i x] fresh by (cases "i = next_id m") (auto simp: timer_new_def)
  qed
  moreover have "card (dom (deadlines m)) < capacity m"
    using card_deadlines [OF assms(1)] False by (cases "free_indices m") auto
  moreover have "capacity ?m = capacity m" "next_id ?m = next_id m + 1" "fst (insert_timer cb x m) = Some (next_id m)"
    using False unfolding m by (simp_all add: insert_timer_def Let_def)
  ultimately show ?thesis by (simp add: spec_add_def abs_mgr_def)
qed

lemma abs_retimed:
  assumes "mgr_inv m" and "slot m j t" and "tm_id t' = tm_id t" and "mgr_inv (retimed m j t' tr)"
  shows "abs_mgr (retimed m j t' tr) = set_deadline (tm_id t) (tm_timeout t') (abs_mgr m)"
proof -
  have "tm_id t \<in> dom (deadlines m)" using assms(2) dom_deadlines [OF assms(1)] by blast
  then show ?thesis using deadlines_retimed [OF assms] by (simp add: abs_mgr_def set_deadline_def retimed_def)
qed

lemma timer_start_refines:
  assumes "mgr_inv m"
  shows "mgr_inv (timer_start now i y m) \<and> abs_mgr (timer_start now i y m) = set_deadline i (Some (now + y)) (abs_mgr m)"
  using assms
proof (cases rule: find_index_cases [of m i])
  case (found j t)
  let ?t = "t\<lparr>tm_timeout := Some (now + y), tm_running := True\<rparr>"
  let ?tr = "RBT.insert (TimerKey (now + y) (tm_id t)) j
    (case tm_timeout t of Some x \<Rightarrow> RBT.delete (TimerKey x (tm_id t)) (tree m) | None \<Rightarrow> tree m)"
  have "timer_start now i y m = retimed m j ?t ?tr"
    using found(1,2) by (simp add: timer_start_def retimed_def slot_def Let_def)
  moreover have "mgr_inv (retimed m j ?t ?tr)" by (rule retimed_on [OF assms found(2)]) simp_all
  ultimately show ?thesis using abs_retimed [OF assms found(2), of ?t ?tr] found(3) by simp
next
  case absent
  then have "i \<notin> dom (deadlines m)" using dom_deadlines [OF assms] by blast
  then show ?thesis using absent(1) assms by (simp add: timer_start_def abs_mgr_def set_deadline_def)
qed

lemma timer_stop_refines:
  assumes "mgr_inv m"
  shows "mgr_inv (timer_stop i m) \<and> abs_mgr (timer_stop i m) = set_deadline i None (abs_mgr m)"
  using assms
proof (cases rule: find_index_cases [of m i])
  case (found j t)
  note run = mgr_invD(6) [OF assms found(2)]
  show ?thesis
  proof (cases "tm_timeout t")
    case None
    then have "deadlines m i = Some None" using found(4) by (simp add: deadlines_def)
    moreover have "timer_stop i m = m" using found(1,2) run None by (simp add: timer_stop_def slot_def)
    ultimately show ?thesis using assms by (auto simp: set_deadline_def abs_mgr_def)
  next
    case (Some x)
    let ?t = "t\<lparr>tm_running := False, tm_timeout := None\<rparr>" and ?tr = "RBT.delete (TimerKey x (tm_id t)) (tree m)"
    have "timer_stop i m = retimed m j ?t ?tr"
      using found(1,2) run Some by (simp add: timer_stop_def retimed_def slot_def update_order)
    moreover have "mgr_inv (retimed m j ?t ?tr)" by (rule retimed_off [OF assms found(2) Some]) simp_all
    ultimately show ?thesis using abs_retimed [OF assms found(2), of ?t ?tr] found(3) by simp
  qed
next
  case absent
  then have "i \<notin> dom (deadlines m)" using dom_deadlines [OF assms] by blast
  then show ?thesis using absent(1) assms by (simp add: timer_stop_def abs_mgr_def set_deadline_def)
qed

lemma timer_data_mut_refines:
  assumes "mgr_inv m"
  shows "mgr_inv (timer_data_mut i f m) \<and> abs_mgr (timer_data_mut i f m) = abs_mgr m"
  using assms
proof (cases rule: find_index_cases [of m i])
  case (found j t)
  let ?t = "t\<lparr>tm_data := map_option f (tm_data t)\<rparr>"
  have "timer_data_mut i f m = retimed m j ?t (tree m)"
    using found(1,2) by (simp add: timer_data_mut_def retimed_def slot_def)
  moreover have inv: "mgr_inv (retimed m j ?t (tree m))"
    by (rule retimed_inv [OF assms found(2)]) (simp_all add: mgr_invD(6) [OF assms found(2)] lookup_timer [OF assms found(2)])
  moreover have "deadlines m i = Some (tm_timeout t)" using found(4) by (simp add: deadlines_def)
  then have "set_deadline i (tm_timeout t) (abs_mgr m) = abs_mgr m" by (auto simp: set_deadline_def abs_mgr_def)
  ultimately show ?thesis using abs_retimed [OF assms found(2) _ inv] found(3) by simp
next
  case absent
  then show ?thesis using assms by (simp add: timer_data_mut_def)
qed

lemma timer_delete_refines:
  assumes "mgr_inv m"
  shows "mgr_inv (timer_delete i m) \<and>
    abs_mgr (timer_delete i m) = (abs_mgr m)\<lparr>sp_deadlines := (sp_deadlines (abs_mgr m))(i := None)\<rparr>"
  using assms
proof (cases rule: find_index_cases [of m i])
  case (found j t)
  define m1 where "m1 = timer_stop i m"
  let ?m = "m1\<lparr>timers := (timers m1)[j := None], free_indices := free_indices m1 @ [j]\<rparr>"
  have m: "timer_delete i m = ?m" using found(1) by (simp add: timer_delete_def m1_def Let_def)
  have inv1: "mgr_inv m1" and abs1: "abs_mgr m1 = set_deadline i None (abs_mgr m)"
    using timer_stop_refines [OF assms] by (simp_all add: m1_def)
  note inv = mgr_invD [OF inv1]
  have "i \<in> dom (deadlines m)" using found(2,3) dom_deadlines [OF assms] by blast
  then have dl1: "deadlines m1 = (deadlines m)(i \<mapsto> None)" and same: "capacity m1 = capacity m" "next_id m1 = next_id m"
    using abs1 by (simp_all add: abs_mgr_def set_deadline_def)
  have "length (timers m1) = length (timers m) \<and> (\<exists>t1. timers m1 ! j = Some t1 \<and> tm_id t1 = i \<and> tm_timeout t1 = None)"
    using found(1-3) mgr_invD(6) [OF assms found(2)] unfolding m1_def timer_stop_def by (auto simp: slot_def)
  then obtain t1 where t1: "slot m1 j t1" "tm_id t1 = i" "tm_timeout t1 = None" using found(2) by (auto simp: slot_def)
  have slots: "slot ?m l u \<longleftrightarrow> l \<noteq> j \<and> slot m1 l u" for l u
    using t1(1) by (cases "l = j") (auto simp: slot_def)
  have other: "tm_id u \<noteq> i" if "slot m1 l u" "l \<noteq> j" for l u using inv(4) [OF that(1) t1(1)] that(2) t1(2) by auto
  have j: "j < capacity m1" "timers m1 ! j \<noteq> None" using t1(1) inv(1) by (simp_all add: slot_def)
  have "mgr_inv ?m"
    unfolding mgr_inv_def
  proof (intro conjI allI impI)
    show "length (timers ?m) = capacity ?m" using inv(1) by simp
    show "distinct (free_indices ?m)" using inv(2,3) j by simp
    have "timers ?m ! l = None \<longleftrightarrow> timers m1 ! l = None \<or> l = j" if "l < capacity m1" for l
      using that inv(1) by (cases "l = j") simp_all
    then show "set (free_indices ?m) = {l. l < capacity ?m \<and> timers ?m ! l = None}" using inv(3) j by auto
    show "l = n" if "slot ?m l u" "slot ?m n v" "tm_id u = tm_id v" for l n u v
      using that inv(4) [of l u n v] unfolding slots by blast
    show "tm_id u < next_id ?m" "tm_running u = (tm_timeout u \<noteq> None)" if "slot ?m l u" for l u
      using that inv(5,6) [of l u] unfolding slots by simp_all
    show "RBT.lookup (tree ?m) k = Some l \<longleftrightarrow> (\<exists>u. slot ?m l u \<and> tm_timeout u = Some (key_timeout k) \<and> tm_id u = key_id k)" for k l
    proof -
      have "RBT.lookup (tree m1) k = Some l \<Longrightarrow> l \<noteq> j" using inv(7) [of k l] t1 by (auto simp: slot_def)
      then show ?thesis using inv(7) [of k l] unfolding slots by auto
    qed
  qed
  moreover have "deadlines ?m = (deadlines m)(i := None)"
  proof (rule deadlines_eqI [OF calculation])
    fix i' x
    show "(\<exists>l u. slot ?m l u \<and> tm_id u = i' \<and> tm_timeout u = x) \<longleftrightarrow> ((deadlines m)(i := None)) i' = Some x"
    proof (cases "i' = i")
      case True
      then show ?thesis using other unfolding slots by auto
    next
      case False
      then have "(\<exists>l u. slot ?m l u \<and> tm_id u = i' \<and> tm_timeout u = x) \<longleftrightarrow> (\<exists>l u. slot m1 l u \<and> tm_id u = i' \<and> tm_timeout u = x)"
        unfolding slots using t1 by (metis option.inject slot_def)
      then show ?thesis using False deadlines_slot [OF inv1, of i' x] by (simp add: dl1)
    qed
  qed
  ultimately show ?thesis unfolding m by (simp add: abs_mgr_def same)
next
  case absent
  then have "deadlines m i = None" by (simp add: deadlines_def)
  then show ?thesis using absent(1) assms by (simp add: timer_delete_def abs_mgr_def fun_upd_idem)
qed

lemma due_keys:
  assumes "mgr_inv m"
  shows "k \<le> TimerKey now (- 1) \<and> RBT.lookup (tree m) k \<noteq> None \<longleftrightarrow> k \<in> due now (deadlines m)"
proof -
  have "k \<le> TimerKey now (- 1) \<longleftrightarrow> key_timeout k \<le> now" by (auto simp: less_eq_TimerKey_def)
  moreover have "RBT.lookup (tree m) k \<noteq> None \<longleftrightarrow> deadlines m (key_id k) = Some (Some (key_timeout k))"
    using mgr_invD(7) [OF assms, of k] deadlines_slot [OF assms, of "key_id k" "Some (key_timeout k)"] by auto
  ultimately show ?thesis by (auto simp: due_def)
qed

lemma expired_keys_due:
  assumes "mgr_inv m"
  shows "expired_keys now m = sorted_list_of_set (due now (deadlines m))" and "set (expired_keys now m) = due now (deadlines m)"
proof -
  have "set (expired_keys now m) = {k. k \<le> TimerKey now (- 1) \<and> RBT.lookup (tree m) k \<noteq> None}"
    by (auto simp: expired_keys_def RBT.keys_entries RBT.lookup_in_tree)
  also have "\<dots> = due now (deadlines m)" using due_keys [OF assms] by blast
  finally show s: "set (expired_keys now m) = due now (deadlines m)" .
  have "sorted (expired_keys now m)" "distinct (expired_keys now m)"
    by (simp_all add: expired_keys_def sorted_filter [of id, simplified])
  then show "expired_keys now m = sorted_list_of_set (due now (deadlines m))"
    unfolding s [symmetric] by (metis sorted_list_of_set_sort_remdups distinct_remdups_id sort_key_id_if_sorted list.map_ident)
qed

lemma mgr_expire_refines:
  assumes "mgr_inv m"
  shows "mgr_inv (snd (mgr_expire now m)) \<and> abs_mgr (snd (mgr_expire now m)) = spec_expire now (abs_mgr m) \<and>
    fst (mgr_expire now m) = map key_id (sorted_list_of_set (due now (deadlines m)))"
proof -
  have "distinct (expired_keys now m)" by (simp add: expired_keys_def)
  moreover have "RBT.lookup (tree m) k \<noteq> None" if "k \<in> set (expired_keys now m)" for k
    using that due_keys [OF assms] unfolding expired_keys_due(2) [OF assms] by blast
  moreover obtain is' m' where out: "expire_loop (expired_keys now m) m = (is', m')" by force
  ultimately show ?thesis
    using expire_loop_spec [OF assms, of "expired_keys now m" is' m'] unfolding mgr_expire_def out expired_keys_due(2) [OF assms]
    by (simp add: expired_keys_due(1) [OF assms] abs_mgr_def spec_expire_def cong: if_cong)
qed

lemma expire_with_callbacks_refines:
  assumes "mgr_inv m"
  shows "mgr_inv (expire_with_callbacks now m) \<and> abs_mgr (expire_with_callbacks now m) = spec_expire now (abs_mgr m)"
proof -
  let ?ks = "filter (\<lambda>(k, _). k \<le> TimerKey now (- 1)) (RBT.entries (tree m))"
  have "map fst ?ks = filter (\<lambda>k. k \<le> TimerKey now (- 1)) (map fst (RBT.entries (tree m)))"
    by (simp add: filter_map comp_def case_prod_unfold)
  then have "distinct (map fst ?ks)" using RBT.distinct_entries [of "tree m"] by simp
  moreover have look: "RBT.lookup (tree m) k = Some j" if "(k, j) \<in> set ?ks" for k j
    using that by (simp add: RBT.lookup_in_tree)
  moreover have "fst ` set ?ks = due now (deadlines m)"
    using due_keys [OF assms, of _ now] by (force simp: RBT.lookup_in_tree)
  ultimately show ?thesis
    using callback_loop_spec [OF assms, of ?ks] unfolding expire_with_callbacks_def by (simp add: abs_mgr_def spec_expire_def cong: if_cong)
qed

text \<open>Timers are handles, as long as the ids do not run out.\<close>

interpretation timer: handle_table mgr_inv "\<lambda>m. next_id m \<noteq> - 1" deadlines "\<lambda>_. None" "timer_add cb x" timer_delete
proof unfold_locales
  fix m m' :: "'a NextgcoreTimerMgr" and i
  assume inv: "mgr_inv m"
  show "mgr_inv (timer_delete i m)" "deadlines (timer_delete i m) = (deadlines m)(i := None)"
    using timer_delete_refines [OF inv, of i] by (simp_all add: abs_mgr_def)
  assume ready: "next_id m \<noteq> - 1"
  note add = insert_timer_refines [OF inv ready, of "Some cb" "Some x"]
  show "mgr_inv (snd (timer_add cb x m))" using add by (simp add: timer_add_def)
  show "deadlines m' = deadlines m" if "timer_add cb x m = (None, m')"
    using add that by (auto simp: timer_add_def spec_add_def abs_mgr_def split: if_splits)
  assume some: "timer_add cb x m = (Some i, m')"
  then have "i = next_id m" "deadlines m' = (deadlines m)(i \<mapsto> None)"
    using add by (auto simp: timer_add_def spec_add_def abs_mgr_def split: if_splits)
  moreover have "next_id m \<notin> dom (deadlines m)" unfolding dom_deadlines [OF inv] using mgr_invD(5) [OF inv] by (metis order.irrefl)
  ultimately show "deadlines m i = None \<and> deadlines m' = (deadlines m)(i \<mapsto> None)" by auto
qed

text \<open>The readers of the manager, over the map.\<close>

definition running :: "(u64 \<Rightarrow> nat option option) \<Rightarrow> TimerKey set" where
  "running f = {k. f (key_id k) = Some (Some (key_timeout k))}"

definition spec_next :: "nat \<Rightarrow> timer_spec \<Rightarrow> wait_time" where
  "spec_next now s =
     (if running (sp_deadlines s) = {} then Infinite
      else Nanos ((key_timeout (Min (running (sp_deadlines s))) - now) mod 2 ^ 64))"

lemma keys_running:
  assumes "mgr_inv m"
  shows "set (RBT.keys (tree m)) = running (deadlines m)"
proof -
  have "k \<in> set (RBT.keys (tree m)) \<longleftrightarrow> RBT.lookup (tree m) k \<noteq> None" for k
    by (auto simp: RBT.keys_entries RBT.lookup_in_tree)
  moreover have "RBT.lookup (tree m) k \<noteq> None \<longleftrightarrow> k \<in> running (deadlines m)" for k
    using due_keys [OF assms, of k "key_timeout k"] by (auto simp: due_def running_def less_eq_TimerKey_def)
  ultimately show ?thesis by blast
qed

lemma readers_refine:
  assumes "mgr_inv m"
  shows "timer_count m = card (running (deadlines m))"
    and "timer_available m = capacity m - card (dom (deadlines m))"
    and "mgr_next now m = spec_next now (abs_mgr m)"
proof -
  have len: "length (RBT.entries (tree m)) = length (RBT.keys (tree m))" by (simp add: RBT.keys_def_alt)
  show "timer_count m = card (running (deadlines m))"
    unfolding timer_count_def len keys_running [OF assms, symmetric] by (simp add: distinct_card)
  show "timer_available m = capacity m - card (dom (deadlines m))"
    using card_deadlines [OF assms] by (simp add: timer_available_def)
  show "mgr_next now m = spec_next now (abs_mgr m)"
  proof (cases "RBT.entries (tree m)")
    case Nil
    then show ?thesis using keys_running [OF assms] by (simp add: mgr_next_def spec_next_def abs_mgr_def RBT.keys_def_alt)
  next
    case (Cons p ps)
    then have ks: "RBT.keys (tree m) = fst p # map fst ps" by (simp add: RBT.keys_def_alt)
    then have "Min (running (deadlines m)) = fst p"
      using RBT.sorted_keys [of "tree m"] unfolding keys_running [OF assms, symmetric] by (auto intro: Min_eqI)
    moreover have "running (deadlines m) \<noteq> {}" using ks keys_running [OF assms] by auto
    ultimately show ?thesis using Cons by (simp add: mgr_next_def spec_next_def abs_mgr_def case_prod_unfold)
  qed
qed

text \<open>Sequences of calls.\<close>

fun run_calls :: "'a timer_call list \<Rightarrow> 'a NextgcoreTimerMgr \<Rightarrow> timer_result list \<times> 'a NextgcoreTimerMgr" where
  "run_calls [] m = ([], m)"
| "run_calls (c # cs) m = (let (r, m) = run_call c m; (rs, m) = run_calls cs m in (r # rs, m))"

fun spec_calls :: "'a timer_call list \<Rightarrow> timer_spec \<Rightarrow> timer_result list \<times> timer_spec" where
  "spec_calls [] s = ([], s)"
| "spec_calls (c # cs) s = (let (r, s) = spec_call c s; (rs, s) = spec_calls cs s in (r # rs, s))"

lemma run_call_refines:
  assumes "mgr_inv m" and "next_id m \<noteq> - 1"
  shows "mgr_inv (snd (run_call c m)) \<and> spec_call c (abs_mgr m) = (fst (run_call c m), abs_mgr (snd (run_call c m)))"
proof (cases c)
  case (Expire now)
  then show ?thesis using mgr_expire_refines [OF assms(1), of now] by (simp add: abs_mgr_def)
qed (simp_all add: timer_add_def timer_add_simple_def insert_timer_refines [OF assms] timer_delete_refines [OF assms(1)]
    timer_start_refines [OF assms(1)] timer_stop_refines [OF assms(1)] expire_with_callbacks_refines [OF assms(1)] timer_data_mut_refines [OF assms(1)])

lemma spec_call_next: "spec_call c s = (r, s') \<Longrightarrow> unat (sp_next s') \<le> unat (sp_next s) + 1"
proof -
  have "unat (w + 1) \<le> unat w + 1" for w :: u64 by (simp add: unat_word_ariths)
  then show "spec_call c s = (r, s') \<Longrightarrow> unat (sp_next s') \<le> unat (sp_next s) + 1"
    by (cases c) (auto simp: spec_add_def set_deadline_def spec_expire_def split: if_splits)
qed

lemma spec_call_capacity: "spec_call c s = (r, s') \<Longrightarrow> sp_capacity s' = sp_capacity s"
  by (cases c) (auto simp: spec_add_def set_deadline_def spec_expire_def split: if_splits)

lemma run_calls_refine:
  "mgr_inv m \<Longrightarrow> unat (next_id m) + length cs < 2 ^ 64 \<Longrightarrow>
    mgr_inv (snd (run_calls cs m)) \<and> spec_calls cs (abs_mgr m) = (fst (run_calls cs m), abs_mgr (snd (run_calls cs m)))"
proof (induction cs arbitrary: m)
  case (Cons c cs)
  obtain r m1 where c: "run_call c m = (r, m1)" by force
  have "unat (- 1 :: u64) = 2 ^ 64 - 1" by (simp add: unsigned_minus_1_eq_mask mask_eq_exp_minus_1)
  then have "next_id m \<noteq> - 1" using Cons.prems(2) by auto
  then have one: "mgr_inv m1" "spec_call c (abs_mgr m) = (r, abs_mgr m1)"
    using run_call_refines [OF Cons.prems(1), of c] c by simp_all
  moreover have "unat (next_id m1) \<le> unat (next_id m) + 1" using spec_call_next [OF one(2)] by (simp add: abs_mgr_def)
  ultimately show ?case using Cons.IH [of m1] Cons.prems(2) c by (auto split: prod.split)
qed simp

lemma mgr_new_refines:
  "mgr_inv (mgr_new c)" "abs_mgr (mgr_new c) = \<lparr>sp_capacity = c, sp_next = 1, sp_deadlines = Map.empty\<rparr>"
proof -
  have none: "\<not> slot (mgr_new c) j t" for j t by (simp add: slot_def mgr_new_def)
  show inv: "mgr_inv (mgr_new c)" unfolding mgr_inv_def using none by (auto simp: mgr_new_def)
  have "deadlines (mgr_new c) = Map.empty" by (rule deadlines_eqI [OF inv]) (simp add: none)
  then show "abs_mgr (mgr_new c) = \<lparr>sp_capacity = c, sp_next = 1, sp_deadlines = Map.empty\<rparr>"
    by (simp add: abs_mgr_def) (simp add: mgr_new_def)
qed

text \<open>
  C25: a new timer manager is a map from timer ids to deadlines. Any sequence of calls (adding, deleting, starting, restarting
  and stopping timers, changing their data, and both forms of expiry, at any times) gives the results that the map gives, as long as the 64-bit ids
  do not run out: an id is handed out exactly while fewer timers exist than the capacity, and an expiry reports
  exactly the timers whose deadline has come, once each and by deadline, and stops them. Afterwards the slots, the free list
  and the tree agree, and the number of running timers, the number of free slots and the time to wait are
  those of the map.
\<close>

theorem timer_mgr_refines:
  fixes cs :: "'a timer_call list"
  assumes "length cs + 1 < 2 ^ 64" and "run_calls cs (mgr_new c) = (rs, m)"
  defines "s \<equiv> snd (spec_calls cs \<lparr>sp_capacity = c, sp_next = 1, sp_deadlines = Map.empty\<rparr>)"
  shows "fst (spec_calls cs \<lparr>sp_capacity = c, sp_next = 1, sp_deadlines = Map.empty\<rparr>) = rs \<and>
    mgr_inv m \<and> abs_mgr m = s \<and>
    timer_count m = card (running (sp_deadlines s)) \<and>
    timer_available m = c - card (dom (sp_deadlines s)) \<and>
    mgr_next now m = spec_next now s \<and>
    map_option tm_timeout (timer_get i m) = sp_deadlines s i"
proof (intro conjI)
  let ?m = "mgr_new c :: 'a NextgcoreTimerMgr"
  have "unat (next_id ?m) + length cs < 2 ^ 64" using assms(1) by (simp add: mgr_new_def)
  then have ref: "mgr_inv m" "spec_calls cs (abs_mgr ?m) = (rs, abs_mgr m)"
    using run_calls_refine [OF mgr_new_refines(1), of c cs] assms(2) by simp_all
  show "mgr_inv m" by (rule ref)
  show "fst (spec_calls cs \<lparr>sp_capacity = c, sp_next = 1, sp_deadlines = Map.empty\<rparr>) = rs" and s: "abs_mgr m = s"
    using ref(2) unfolding mgr_new_refines(2) s_def by simp_all
  then have dl: "sp_deadlines s = deadlines m" by (simp add: abs_mgr_def flip: s)
  show "timer_count m = card (running (sp_deadlines s))" unfolding dl by (rule readers_refine(1) [OF ref(1)])
  show "mgr_next now m = spec_next now s" unfolding s [symmetric] by (rule readers_refine(3) [OF ref(1)])
  show "map_option tm_timeout (timer_get i m) = sp_deadlines s i" by (simp add: dl deadlines_def)
  have "sp_capacity (snd (spec_calls cs s0)) = sp_capacity s0" for s0
  proof (induction cs arbitrary: s0)
    case (Cons c cs)
    obtain r s1 where c: "spec_call c s0 = (r, s1)" by force
    then show ?case using Cons.IH [of s1] spec_call_capacity [OF c] by (auto split: prod.split)
  qed simp
  then have "sp_capacity (abs_mgr m) = c" unfolding s s_def by simp
  then have "capacity m = c" by (simp add: abs_mgr_def)
  then show "timer_available m = c - card (dom (sp_deadlines s))" using readers_refine(2) [OF ref(1)] by (simp add: dl)
qed

theorem timer_mgr_refines_witness:
  defines "cs \<equiv> [AddSimple, Add Suc 4, AddSimple, Start 0 1 9, Start 1 2 4, Expire 3, Expire 10, Delete 1, AddSimple] :: nat timer_call list"
  shows "fst (spec_calls cs \<lparr>sp_capacity = 2, sp_next = 1, sp_deadlines = Map.empty\<rparr>) =
    [Added (Some 1), Added (Some 2), Added None, Done, Done, Expired [], Expired [2, 1], Done, Added (Some 3)]"
proof -
  have "length cs + 1 < 2 ^ 64" by (simp add: cs_def)
  moreover have "fst (run_calls cs (mgr_new 2)) =
      [Added (Some 1), Added (Some 2), Added None, Done, Done, Expired [], Expired [2, 1], Done, Added (Some 3)]"
    unfolding cs_def by code_simp
  ultimately show ?thesis
    using timer_mgr_refines [THEN conjunct1, OF _ surjective_pairing [of "run_calls cs (mgr_new 2)"]] by (simp only:)
qed

end
