(* ===== verification/Pool.thy ===== *)
theory Pool
  imports Handle_Table
begin

text \<open>
  The object pools of the core library (\<^verbatim>\<open>libs/nextgcore-core/src/pool.rs\<close>): storage of a fixed size whose free indices wait in a
  circular buffer, and the pool with identifiers on top of it. Handles are indices counted from 1. The names of pools are
  for debugging and left out. The trait \<^verbatim>\<open>PoolItem\<close> is a pair of parameters that read and set the identifier of an item.
\<close>

section \<open>The pool\<close>

record 'a NextgcorePool =
  pl_head :: nat
  pl_tail :: nat
  pl_size :: nat
  pl_avail :: nat
  pl_free :: "nat option list"
  pl_array :: "'a option list"
  pl_index :: "bool list"

definition pool_new :: "nat \<Rightarrow> 'a NextgcorePool" where
  "pool_new n = \<lparr>pl_head = 0, pl_tail = 0, pl_size = n, pl_avail = n, pl_free = map Some [0..<n],
     pl_array = replicate n None, pl_index = replicate n False\<rparr>"

text \<open>
  An item is stored at the index at the head of the buffer. The count is lowered before the entry of the buffer is looked at.
\<close>

definition pool_alloc_with :: "'a \<Rightarrow> 'a NextgcorePool \<Rightarrow> nat option \<times> 'a NextgcorePool" where
  "pool_alloc_with x p =
     (if pl_avail p > 0 then
        (let p = p\<lparr>pl_avail := pl_avail p - 1\<rparr>
         in case pl_free p ! pl_head p of
              None \<Rightarrow> (None, p)
            | Some idx \<Rightarrow>
                (Some (idx + 1),
                 p\<lparr>pl_free := (pl_free p)[pl_head p := None], pl_head := (pl_head p + 1) mod pl_size p,
                   pl_array := (pl_array p)[idx := Some x], pl_index := (pl_index p)[idx := True]\<rparr>))
      else (None, p))"

definition pool_alloc :: "'a \<Rightarrow> 'a NextgcorePool \<Rightarrow> nat option \<times> 'a NextgcorePool" where
  "pool_alloc dflt p = pool_alloc_with dflt p"

definition pool_free :: "nat \<Rightarrow> 'a NextgcorePool \<Rightarrow> 'a NextgcorePool" where
  "pool_free i p =
     (if i > 0 \<and> i \<le> pl_size p \<and> pl_avail p < pl_size p then
        let idx = i - 1
        in if pl_index p ! idx
           then p\<lparr>pl_avail := pl_avail p + 1, pl_free := (pl_free p)[pl_tail p := Some idx],
                  pl_tail := (pl_tail p + 1) mod pl_size p, pl_array := (pl_array p)[idx := None],
                  pl_index := (pl_index p)[idx := False]\<rparr>
           else p
      else p)"

definition pool_find :: "'a NextgcorePool \<Rightarrow> nat \<Rightarrow> 'a option" where
  "pool_find p i = (if i > 0 \<and> i \<le> pl_size p then if pl_index p ! (i - 1) then pl_array p ! (i - 1) else None else None)"

text \<open>A change of an item through \<^verbatim>\<open>find_mut\<close>.\<close>

definition pool_find_mut :: "nat \<Rightarrow> ('a \<Rightarrow> 'a) \<Rightarrow> 'a NextgcorePool \<Rightarrow> 'a NextgcorePool" where
  "pool_find_mut i f p =
     (if i > 0 \<and> i \<le> pl_size p \<and> pl_index p ! (i - 1)
      then p\<lparr>pl_array := (pl_array p)[i - 1 := map_option f (pl_array p ! (i - 1))]\<rparr> else p)"

definition pool_allocated :: "'a NextgcorePool \<Rightarrow> nat" where
  "pool_allocated p = pl_size p - pl_avail p"

definition pool_is_empty :: "'a NextgcorePool \<Rightarrow> bool" where
  "pool_is_empty p \<longleftrightarrow> pl_avail p = pl_size p"

definition pool_is_full :: "'a NextgcorePool \<Rightarrow> bool" where
  "pool_is_full p \<longleftrightarrow> pl_avail p = 0"

definition pool_iter :: "'a NextgcorePool \<Rightarrow> (nat \<times> 'a) list" where
  "pool_iter p = List.map_filter (\<lambda>(i, s). map_option (\<lambda>x. (i + 1, x)) s) (enumerate 0 (pl_array p))"

text \<open>A change of all items through \<^verbatim>\<open>iter_mut\<close>.\<close>

definition pool_iter_mut :: "(nat \<Rightarrow> 'a \<Rightarrow> 'a) \<Rightarrow> 'a NextgcorePool \<Rightarrow> 'a NextgcorePool" where
  "pool_iter_mut f p = p\<lparr>pl_array := map (\<lambda>(i, s). map_option (f (i + 1)) s) (enumerate 0 (pl_array p))\<rparr>"

section \<open>The circular buffer\<close>

definition ring_at :: "'a NextgcorePool \<Rightarrow> nat \<Rightarrow> nat" where
  "ring_at p k = (pl_head p + k) mod pl_size p"

text \<open>The free indices in the order in which they will be handed out.\<close>

definition free_queue :: "'a NextgcorePool \<Rightarrow> nat list" where
  "free_queue p = map (\<lambda>k. the (pl_free p ! ring_at p k)) [0..<pl_avail p]"

definition pool_inv :: "'a NextgcorePool \<Rightarrow> bool" where
  "pool_inv p \<longleftrightarrow>
     length (pl_free p) = pl_size p \<and> length (pl_array p) = pl_size p \<and> length (pl_index p) = pl_size p \<and>
     (pl_size p > 0 \<longrightarrow> pl_head p < pl_size p \<and> pl_tail p = ring_at p (pl_avail p)) \<and> pl_avail p \<le> pl_size p \<and>
     (\<forall>k < pl_avail p. pl_free p ! ring_at p k \<noteq> None) \<and>
     distinct (free_queue p) \<and> set (free_queue p) = {i. i < pl_size p \<and> \<not> pl_index p ! i} \<and>
     (\<forall>i < pl_size p. pl_index p ! i \<longleftrightarrow> pl_array p ! i \<noteq> None)"

lemma pool_invD:
  assumes "pool_inv p"
  shows "length (pl_free p) = pl_size p" "length (pl_array p) = pl_size p" "length (pl_index p) = pl_size p"
    "pl_size p > 0 \<Longrightarrow> pl_head p < pl_size p" "pl_size p > 0 \<Longrightarrow> pl_tail p = ring_at p (pl_avail p)" "pl_avail p \<le> pl_size p"
    "k < pl_avail p \<Longrightarrow> pl_free p ! ring_at p k \<noteq> None"
    "distinct (free_queue p)" "set (free_queue p) = {i. i < pl_size p \<and> \<not> pl_index p ! i}"
    "i < pl_size p \<Longrightarrow> pl_index p ! i \<longleftrightarrow> pl_array p ! i \<noteq> None"
  using assms unfolding pool_inv_def by blast+

lemma ring_inj:
  fixes i j n :: nat
  assumes "(h + i) mod n = (h + j) mod n" and "i < n" and "j < n"
  shows "i = j"
proof -
  have "i = j" if "(h + i) mod n = (h + j) mod n" "i \<le> j" "j < n" for i j
  proof -
    have "n dvd (h + j) - (h + i)" using that by (metis add_le_cancel_left mod_eq_dvd_iff_nat)
    then have "n dvd j - i" by simp
    then have "j - i = 0" using that(3) by (metis dvd_imp_mod_0 mod_less less_imp_diff_less)
    then show ?thesis using that(2) by simp
  qed
  from this [of i j] this [of j i] assms show ?thesis by (cases "i \<le> j") simp_all
qed

lemma ring_at_less: "pl_size p > 0 \<Longrightarrow> ring_at p k < pl_size p"
  by (simp add: ring_at_def)

lemma queue_length [simp]: "length (free_queue p) = pl_avail p"
  by (simp add: free_queue_def)

text \<open>Taking the index at the head.\<close>

lemma alloc_step:
  assumes "pool_inv p" and "pl_avail p > 0"
  obtains idx q p' where "free_queue p = idx # q" and "pool_alloc_with x p = (Some (idx + 1), p')" and "free_queue p' = q"
    and "pool_inv p'" and "pl_size p' = pl_size p" and "idx < pl_size p" and "\<not> pl_index p ! idx"
    and "pl_array p' = (pl_array p)[idx := Some x]" and "pl_index p' = (pl_index p)[idx := True]"
proof -
  note inv = pool_invD [OF assms(1)]
  have size: "pl_size p > 0" using assms(2) inv(6) by simp
  have at0: "ring_at p 0 = pl_head p" using inv(4) [OF size] by (simp add: ring_at_def)
  obtain idx where idx: "pl_free p ! pl_head p = Some idx" using inv(7) [of 0] assms(2) at0 by auto
  let ?q = "map (\<lambda>k. the (pl_free p ! ring_at p (k + 1))) [0..<pl_avail p - 1]"
  have q: "free_queue p = idx # ?q"
  proof -
    have "[0..<pl_avail p] = 0 # map Suc [0..<pl_avail p - 1]"
      using assms(2) by (metis Suc_pred' map_Suc_upt upt_conv_Cons zero_less_Suc)
    then show ?thesis unfolding free_queue_def by (simp add: at0 idx comp_def)
  qed
  let ?p = "p\<lparr>pl_avail := pl_avail p - 1, pl_free := (pl_free p)[pl_head p := None], pl_head := (pl_head p + 1) mod pl_size p,
    pl_array := (pl_array p)[idx := Some x], pl_index := (pl_index p)[idx := True]\<rparr>"
  have alloc: "pool_alloc_with x p = (Some (idx + 1), ?p)" using assms(2) idx by (simp add: pool_alloc_with_def)
  have at: "ring_at ?p k = ring_at p (k + 1)" for k by (simp add: ring_at_def mod_simps)
  have other: "ring_at p (k + 1) \<noteq> pl_head p" if "k + 1 < pl_size p" for k
    using ring_inj [of "pl_head p" "k + 1" "pl_size p" 0] that at0 by (auto simp: ring_at_def)
  have kept: "pl_free ?p ! ring_at ?p k = pl_free p ! ring_at p (k + 1)" if "k < pl_avail p - 1" for k
  proof -
    have "k + 1 < pl_size p" using that inv(6) by linarith
    then show ?thesis unfolding at using other [of k] by simp
  qed
  then have q': "free_queue ?p = ?q" unfolding free_queue_def by simp
  have member: "idx < pl_size p" "\<not> pl_index p ! idx" using inv(9) q by (metis (mono_tags, lifting) list.set_intros(1) mem_Collect_eq)+
  have "pool_inv ?p"
    unfolding pool_inv_def
  proof (intro conjI impI allI)
    show "pl_tail ?p = ring_at ?p (pl_avail ?p)" using inv(5) [OF size] assms(2) unfolding at by simp
    show "pl_free ?p ! ring_at ?p k \<noteq> None" if "k < pl_avail ?p" for k
      using kept [of k] inv(7) [of "k + 1"] that by simp
    show "distinct (free_queue ?p)" "set (free_queue ?p) = {i. i < pl_size ?p \<and> \<not> pl_index ?p ! i}"
    proof -
      show "distinct (free_queue ?p)" using inv(8) unfolding q' q by simp
      have "set ?q = set (free_queue p) - {idx}" using inv(8) unfolding q by auto
      also have "\<dots> = {i. i < pl_size ?p \<and> \<not> pl_index ?p ! i}"
        unfolding inv(9) using inv(3) member(1) by (auto simp: nth_list_update)
      finally show "set (free_queue ?p) = {i. i < pl_size ?p \<and> \<not> pl_index ?p ! i}" unfolding q' .
    qed
    show "pl_index ?p ! i \<longleftrightarrow> pl_array ?p ! i \<noteq> None" if "i < pl_size ?p" for i
      using inv(2,3) inv(10) [of i] that by (cases "i = idx") simp_all
  qed (use inv size in simp_all)
  with that q alloc q' member show thesis by simp
qed

text \<open>Giving an index back at the tail.\<close>

lemma free_step:
  assumes "pool_inv p" and "pool_find p i \<noteq> None"
  defines "p' \<equiv> pool_free i p"
  shows "free_queue p' = free_queue p @ [i - 1]" and "pool_inv p'" and "pl_size p' = pl_size p" and "0 < i" and "i \<le> pl_size p"
    and "pl_array p' = (pl_array p)[i - 1 := None]" and "pl_index p' = (pl_index p)[i - 1 := False]"
proof -
  note inv = pool_invD [OF assms(1)]
  let ?idx = "i - 1"
  have i: "0 < i" "i \<le> pl_size p" "pl_index p ! ?idx" using assms(2) by (auto simp: pool_find_def split: if_splits)
  then have idx: "?idx < pl_size p" and size: "pl_size p > 0" by linarith+
  have room: "pl_avail p < pl_size p"
  proof -
    have "set (free_queue p) \<subset> {..<pl_size p}" unfolding inv(9) using idx i(3) by auto
    then have "card (set (free_queue p)) < pl_size p" using psubset_card_mono [of "{..<pl_size p}"] by simp
    then show ?thesis using distinct_card [OF inv(8)] by simp
  qed
  have p': "p' = p\<lparr>pl_avail := pl_avail p + 1, pl_free := (pl_free p)[pl_tail p := Some ?idx],
      pl_tail := (pl_tail p + 1) mod pl_size p, pl_array := (pl_array p)[?idx := None], pl_index := (pl_index p)[?idx := False]\<rparr>"
    using i room by (simp add: p'_def pool_free_def Let_def)
  have at: "ring_at p' k = ring_at p k" for k by (simp add: ring_at_def p')
  have tail: "pl_tail p = ring_at p (pl_avail p)" by (rule inv(5) [OF size])
  have free': "pl_free p' = (pl_free p)[pl_tail p := Some ?idx]" by (simp add: p')
  have kept: "pl_free p' ! ring_at p' k = (if k = pl_avail p then Some ?idx else pl_free p ! ring_at p k)" if "k < pl_avail p + 1" for k
  proof -
    have "k < pl_size p" using that room by simp
    then have "ring_at p k = ring_at p (pl_avail p) \<longleftrightarrow> k = pl_avail p"
      using ring_inj [of "pl_head p" k "pl_size p" "pl_avail p"] room unfolding ring_at_def by metis
    then show ?thesis using ring_at_less [OF size, of k] inv(1) by (cases "k = pl_avail p") (simp_all add: at free' tail)
  qed
  show q': "free_queue p' = free_queue p @ [?idx]"
  proof -
    have "free_queue p' = map (\<lambda>k. the (pl_free p' ! ring_at p' k)) [0..<pl_avail p + 1]" by (simp add: free_queue_def p')
    also have "\<dots> = map (\<lambda>k. if k = pl_avail p then ?idx else the (pl_free p ! ring_at p k)) [0..<pl_avail p + 1]"
      by (rule map_cong) (auto simp: kept)
    finally show ?thesis by (simp add: free_queue_def)
  qed
  show "pool_inv p'"
    unfolding pool_inv_def
  proof (intro conjI impI allI)
    show "pl_tail p' = ring_at p' (pl_avail p')" unfolding at using tail by (simp add: p' ring_at_def mod_simps)
    show "pl_free p' ! ring_at p' k \<noteq> None" if "k < pl_avail p'" for k
      using kept [of k] inv(7) [of k] that by (simp add: p' split: if_splits)
    show "distinct (free_queue p')" using inv(8,9) i(3) unfolding q' by auto
    show "set (free_queue p') = {i. i < pl_size p' \<and> \<not> pl_index p' ! i}"
      unfolding q' using inv(3,9) idx by (auto simp: p' nth_list_update)
    show "pl_index p' ! j \<longleftrightarrow> pl_array p' ! j \<noteq> None" if "j < pl_size p'" for j
      using inv(2,3) inv(10) [of j] that by (cases "j = ?idx") (simp_all add: p')
  qed (use inv size room in \<open>simp_all add: p'\<close>)
  show "pl_size p' = pl_size p" "0 < i" "i \<le> pl_size p" "pl_array p' = (pl_array p)[i - 1 := None]" "pl_index p' = (pl_index p)[i - 1 := False]"
    using i by (simp_all add: p')
qed

lemma free_unused:
  assumes "pool_inv p" and "pool_find p i = None"
  shows "pool_free i p = p"
proof (cases "0 < i \<and> i \<le> pl_size p")
  case True
  then have "i - 1 < pl_size p" by linarith
  then have "pl_index p ! (i - 1) \<longleftrightarrow> pool_find p i \<noteq> None" using pool_invD(10) [OF assms(1)] True by (simp add: pool_find_def)
  then have "\<not> pl_index p ! (i - 1)" using assms(2) by simp
  then show ?thesis by (simp add: pool_free_def Let_def)
qed (auto simp: pool_free_def)

lemma pool_find_in: "pool_inv p \<Longrightarrow> 0 < i \<Longrightarrow> i \<le> pl_size p \<Longrightarrow> pool_find p i = pl_array p ! (i - 1)"
  using pool_invD(10) [of p "i - 1"] by (auto simp: pool_find_def)

lemma pool_find_update:
  assumes "pool_inv p" and "pool_inv p'" and "pl_size p' = pl_size p" and "0 < i" and "i \<le> pl_size p"
    and "pl_array p' = (pl_array p)[i - 1 := x]"
  shows "pool_find p' = (pool_find p)(i := x)"
proof
  fix j
  show "pool_find p' j = ((pool_find p)(i := x)) j"
  proof (cases "0 < j \<and> j \<le> pl_size p")
    case True
    then have "j - 1 = i - 1 \<longleftrightarrow> j = i" using assms(4) by auto
    then show ?thesis
      using True assms pool_find_in [OF assms(2), of j] pool_find_in [OF assms(1), of j] pool_invD(2) [OF assms(1)]
      by (auto simp: nth_list_update)
  next
    case False
    then show ?thesis using assms(3-5) by (auto simp: pool_find_def)
  qed
qed

lemma pool_alloc_spec:
  assumes "pool_inv p"
  shows "pool_inv (snd (pool_alloc_with x p)) \<and> pl_size (snd (pool_alloc_with x p)) = pl_size p \<and>
    (case free_queue p of
       [] \<Rightarrow> pool_alloc_with x p = (None, p)
     | idx # q \<Rightarrow> fst (pool_alloc_with x p) = Some (idx + 1) \<and> free_queue (snd (pool_alloc_with x p)) = q \<and>
         pool_find p (idx + 1) = None \<and> pool_find (snd (pool_alloc_with x p)) = (pool_find p)(idx + 1 \<mapsto> x))"
proof (cases "pl_avail p > 0")
  case True
  obtain idx q p' where
    *: "free_queue p = idx # q" "pool_alloc_with x p = (Some (idx + 1), p')" "free_queue p' = q" "pool_inv p'"
    "pl_size p' = pl_size p" "idx < pl_size p" "\<not> pl_index p ! idx" "pl_array p' = (pl_array p)[idx := Some x]"
    using alloc_step [OF assms True, of x] by metis
  have "pool_find p' = (pool_find p)(idx + 1 \<mapsto> x)"
    by (rule pool_find_update [OF assms *(4,5)]) (use * in simp_all)
  moreover have "pool_find p (idx + 1) = None" using *(7) by (simp add: pool_find_def)
  ultimately show ?thesis using * by simp
next
  case False
  then have "free_queue p = []" using queue_length [of p] by (metis length_0_conv neq0_conv)
  then show ?thesis using False assms by (simp add: pool_alloc_with_def)
qed

lemma pool_free_spec:
  assumes "pool_inv p"
  shows "pool_inv (pool_free i p) \<and> pl_size (pool_free i p) = pl_size p \<and> pool_find (pool_free i p) = (pool_find p)(i := None) \<and>
    free_queue (pool_free i p) = (if pool_find p i = None then free_queue p else free_queue p @ [i - 1])"
proof (cases "pool_find p i = None")
  case True
  then show ?thesis using free_unused [OF assms True] assms by (simp add: fun_upd_idem)
next
  case False
  note step = free_step [OF assms False]
  have "pool_find (pool_free i p) = (pool_find p)(i := None)" by (rule pool_find_update [OF assms step(2-6)])
  then show ?thesis using False step by simp
qed

lemma pool_find_mut_spec:
  assumes "pool_inv p"
  shows "pool_inv (pool_find_mut i f p) \<and> pl_size (pool_find_mut i f p) = pl_size p \<and>
    pool_find (pool_find_mut i f p) = (pool_find p)(i := map_option f (pool_find p i)) \<and> free_queue (pool_find_mut i f p) = free_queue p"
proof (cases "0 < i \<and> i \<le> pl_size p \<and> pl_index p ! (i - 1)")
  case True
  note inv = pool_invD [OF assms]
  let ?p = "p\<lparr>pl_array := (pl_array p)[i - 1 := map_option f (pl_array p ! (i - 1))]\<rparr>"
  have p: "pool_find_mut i f p = ?p" using True by (simp add: pool_find_mut_def)
  have q: "free_queue ?p = free_queue p" by (simp add: free_queue_def ring_at_def)
  have "pl_index ?p ! j \<longleftrightarrow> pl_array ?p ! j \<noteq> None" if "j < pl_size p" for j
    using inv(2) inv(10) [of j] that by (cases "j = i - 1") simp_all
  then have "pool_inv ?p" using assms unfolding pool_inv_def q by (simp add: ring_at_def)
  moreover have "pool_find ?p = (pool_find p)(i := map_option f (pool_find p i))"
    by (rule pool_find_update [OF assms calculation]) (use True pool_find_in [OF assms] in simp_all)
  ultimately show ?thesis using p q by simp
next
  case False
  then have "pool_find p i = None" "pool_find_mut i f p = p" by (auto simp: pool_find_def pool_find_mut_def)
  then show ?thesis using assms by (simp add: fun_upd_idem)
qed

lemma pool_iter_mut_spec:
  assumes "pool_inv p"
  shows "pool_inv (pool_iter_mut f p) \<and> pl_size (pool_iter_mut f p) = pl_size p \<and>
    pool_find (pool_iter_mut f p) = (\<lambda>i. map_option (f i) (pool_find p i)) \<and> free_queue (pool_iter_mut f p) = free_queue p"
proof -
  note inv = pool_invD [OF assms]
  let ?p = "pool_iter_mut f p"
  have same: "pl_head ?p = pl_head p" "pl_tail ?p = pl_tail p" "pl_size ?p = pl_size p" "pl_avail ?p = pl_avail p" "pl_free ?p = pl_free p"
    "pl_index ?p = pl_index p" by (simp_all add: pool_iter_mut_def)
  have arr: "length (pl_array ?p) = pl_size p" "j < pl_size p \<Longrightarrow> pl_array ?p ! j = map_option (f (j + 1)) (pl_array p ! j)" for j
    using inv(2) by (simp_all add: pool_iter_mut_def nth_enumerate_eq)
  have at: "ring_at ?p = ring_at p" by (rule ext) (simp add: ring_at_def same)
  have q: "free_queue ?p = free_queue p" by (simp add: free_queue_def at same)
  have "pool_inv ?p" using assms arr unfolding pool_inv_def q at same by simp
  moreover have "pool_find ?p i = map_option (f i) (pool_find p i)" for i
  proof (cases "0 < i \<and> i \<le> pl_size p")
    case True
    then have "i - 1 < pl_size p" "i - 1 + 1 = i" by linarith+
    then show ?thesis using True arr(2) [of "i - 1"] by (simp add: pool_find_def same)
  qed (auto simp: pool_find_def same)
  ultimately show ?thesis using q same(3) by auto
qed

lemma pool_new_spec: "pool_inv (pool_new n)" "pool_find (pool_new n) = Map.empty" "free_queue (pool_new n) = [0..<n]"
proof -
  show q: "free_queue (pool_new n) = [0..<n]"
    by (rule nth_equalityI) (simp_all add: free_queue_def pool_new_def ring_at_def)
  show "pool_inv (pool_new n)" unfolding pool_inv_def q by (auto simp: pool_new_def ring_at_def)
  show "pool_find (pool_new n) = Map.empty" by (rule ext) (auto simp: pool_find_def pool_new_def)
qed

interpretation pool: handle_table pool_inv "\<lambda>_. True" pool_find "\<lambda>_. d" "pool_alloc d" pool_free
proof unfold_locales
  fix p p' :: "'a NextgcorePool" and i
  assume inv: "pool_inv p"
  note spec = pool_alloc_spec [OF inv, of d]
  show "pool_inv (snd (pool_alloc d p))" using spec by (simp add: pool_alloc_def)
  show "pool_find p i = None \<and> pool_find p' = (pool_find p)(i \<mapsto> d)" if "pool_alloc d p = (Some i, p')"
    using spec that by (auto simp: pool_alloc_def split: list.splits)
  show "pool_find p' = pool_find p" if "pool_alloc d p = (None, p')"
    using spec that by (auto simp: pool_alloc_def split: list.splits)
  show "pool_inv (pool_free i p)" "pool_find (pool_free i p) = (pool_find p)(i := None)" using pool_free_spec [OF inv, of i] by simp_all
qed

section \<open>Refinement of a queue and a map\<close>

text \<open>What the pool promises: free handles wait in a queue, first in first out, and a map holds the items in use.\<close>

record 'a pool_spec =
  ps_queue :: "nat list"
  ps_items :: "nat \<Rightarrow> 'a option"

datatype 'a pool_call = PoolAlloc 'a | PoolFree nat | PoolFindMut nat "'a \<Rightarrow> 'a" | PoolIterMut "nat \<Rightarrow> 'a \<Rightarrow> 'a"

fun spec_pool_call :: "'a pool_call \<Rightarrow> 'a pool_spec \<Rightarrow> nat option \<times> 'a pool_spec" where
  "spec_pool_call (PoolAlloc x) s =
     (case ps_queue s of
        [] \<Rightarrow> (None, s)
      | i # q \<Rightarrow> (Some i, \<lparr>ps_queue = q, ps_items = (ps_items s)(i \<mapsto> x)\<rparr>))"
| "spec_pool_call (PoolFree i) s =
     (None, if ps_items s i = None then s else \<lparr>ps_queue = ps_queue s @ [i], ps_items = (ps_items s)(i := None)\<rparr>)"
| "spec_pool_call (PoolFindMut i f) s = (None, s\<lparr>ps_items := (ps_items s)(i := map_option f (ps_items s i))\<rparr>)"
| "spec_pool_call (PoolIterMut f) s = (None, s\<lparr>ps_items := (\<lambda>i. map_option (f i) (ps_items s i))\<rparr>)"

fun run_pool_call :: "'a pool_call \<Rightarrow> 'a NextgcorePool \<Rightarrow> nat option \<times> 'a NextgcorePool" where
  "run_pool_call (PoolAlloc x) p = pool_alloc_with x p"
| "run_pool_call (PoolFree i) p = (None, pool_free i p)"
| "run_pool_call (PoolFindMut i f) p = (None, pool_find_mut i f p)"
| "run_pool_call (PoolIterMut f) p = (None, pool_iter_mut f p)"

fun spec_pool_calls :: "'a pool_call list \<Rightarrow> 'a pool_spec \<Rightarrow> nat option list \<times> 'a pool_spec" where
  "spec_pool_calls [] s = ([], s)"
| "spec_pool_calls (c # cs) s = (let (r, s) = spec_pool_call c s; (rs, s) = spec_pool_calls cs s in (r # rs, s))"

fun run_pool_calls :: "'a pool_call list \<Rightarrow> 'a NextgcorePool \<Rightarrow> nat option list \<times> 'a NextgcorePool" where
  "run_pool_calls [] p = ([], p)"
| "run_pool_calls (c # cs) p = (let (r, p) = run_pool_call c p; (rs, p) = run_pool_calls cs p in (r # rs, p))"

definition abs_pool :: "'a NextgcorePool \<Rightarrow> 'a pool_spec" where
  "abs_pool p = \<lparr>ps_queue = map Suc (free_queue p), ps_items = pool_find p\<rparr>"

lemma run_pool_call_refines:
  assumes "pool_inv p"
  shows "pool_inv (snd (run_pool_call c p)) \<and> pl_size (snd (run_pool_call c p)) = pl_size p \<and>
    spec_pool_call c (abs_pool p) = (fst (run_pool_call c p), abs_pool (snd (run_pool_call c p)))"
proof (cases c)
  case (PoolAlloc x)
  then show ?thesis using pool_alloc_spec [OF assms, of x] by (auto simp: abs_pool_def split: list.splits)
next
  case (PoolFree i)
  have "Suc (i - 1) = i" if "pool_find p i \<noteq> None" using that by (auto simp: pool_find_def split: if_splits)
  then show ?thesis using pool_free_spec [OF assms, of i] PoolFree by (auto simp: abs_pool_def)
next
  case (PoolFindMut i f)
  then show ?thesis using pool_find_mut_spec [OF assms, of i f] by (simp add: abs_pool_def)
next
  case (PoolIterMut f)
  then show ?thesis using pool_iter_mut_spec [OF assms, of f] by (simp add: abs_pool_def)
qed

lemma run_pool_calls_refine:
  "pool_inv p \<Longrightarrow> pool_inv (snd (run_pool_calls cs p)) \<and> pl_size (snd (run_pool_calls cs p)) = pl_size p \<and>
    spec_pool_calls cs (abs_pool p) = (fst (run_pool_calls cs p), abs_pool (snd (run_pool_calls cs p)))"
proof (induction cs arbitrary: p)
  case (Cons c cs)
  obtain r p1 where c: "run_pool_call c p = (r, p1)" by force
  have "pool_inv p1 \<and> pl_size p1 = pl_size p \<and> spec_pool_call c (abs_pool p) = (r, abs_pool p1)"
    using run_pool_call_refines [OF Cons.prems, of c] c by simp
  then show ?case using Cons.IH [of p1] c by (auto split: prod.split)
qed simp

lemma pool_counts:
  assumes "pool_inv p"
  shows "dom (pool_find p) = {1..pl_size p} - set (map Suc (free_queue p))" and "card (dom (pool_find p)) = pool_allocated p"
    and "finite (dom (pool_find p))"
proof -
  note inv = pool_invD [OF assms]
  show d: "dom (pool_find p) = {1..pl_size p} - set (map Suc (free_queue p))"
  proof (rule set_eqI)
    fix i
    show "i \<in> dom (pool_find p) \<longleftrightarrow> i \<in> {1..pl_size p} - set (map Suc (free_queue p))"
    proof (cases "0 < i \<and> i \<le> pl_size p")
      case True
      then obtain j where i: "i = Suc j" and j: "j < pl_size p" by (cases i) auto
      have "i \<in> dom (pool_find p) \<longleftrightarrow> pl_index p ! j" using i j inv(10) [OF j] by (simp add: dom_def pool_find_def)
      also have "\<dots> \<longleftrightarrow> j \<notin> set (free_queue p)" using inv(9) j by simp
      also have "\<dots> \<longleftrightarrow> i \<in> {1..pl_size p} - set (map Suc (free_queue p))" using i j by auto
      finally show ?thesis .
    next
      case False
      then have "pool_find p i = None" by (auto simp: pool_find_def)
      then show ?thesis using False by auto
    qed
  qed
  then show fin: "finite (dom (pool_find p))" by simp
  have sub: "set (map Suc (free_queue p)) \<subseteq> {1..pl_size p}" unfolding set_map inv(9) by auto
  have "distinct (map Suc (free_queue p))" using inv(8) by (simp add: distinct_map)
  then have "card (set (map Suc (free_queue p))) = pl_avail p" by (metis distinct_card length_map queue_length)
  then show "card (dom (pool_find p)) = pool_allocated p" unfolding d using sub by (simp add: card_Diff_subset pool_allocated_def)
qed

text \<open>
  C26: the object pool, with its circular buffer of free indices, is a queue of free handles and a map of items: any sequence
  of allocations, releases (of any index, in use or not) and changes of items on a new pool of any capacity returns what the
  queue and the map return. So handles come back into use first in first out, a handle in use is never handed out, releasing twice
  changes nothing, and the pool is exhausted exactly if all its handles are in use. Afterwards every index of the buffer is in
  range, the counters are right, and a lookup gives the item of the map.
\<close>

theorem pool_refines:
  fixes cs :: "'a pool_call list" and n :: nat
  defines "p \<equiv> snd (run_pool_calls cs (pool_new n))" and "s \<equiv> snd (spec_pool_calls cs \<lparr>ps_queue = [1..<n + 1], ps_items = Map.empty\<rparr>)"
  shows "fst (run_pool_calls cs (pool_new n)) = fst (spec_pool_calls cs \<lparr>ps_queue = [1..<n + 1], ps_items = Map.empty\<rparr>) \<and>
    pool_inv p \<and> pool_find p i = ps_items s i \<and> pl_avail p = length (ps_queue s) \<and>
    pool_allocated p = card (dom (ps_items s)) \<and> dom (ps_items s) = {1..n} - set (ps_queue s)"
proof (intro conjI)
  have "abs_pool (pool_new n :: 'a NextgcorePool) = \<lparr>ps_queue = [1..<n + 1], ps_items = Map.empty\<rparr>"
    by (simp add: abs_pool_def pool_new_spec map_Suc_upt)
  then have ref: "pool_inv p" "pl_size p = n"
    "spec_pool_calls cs \<lparr>ps_queue = [1..<n + 1], ps_items = Map.empty\<rparr> = (fst (run_pool_calls cs (pool_new n)), abs_pool p)"
    using run_pool_calls_refine [OF pool_new_spec(1) [of n], of cs] by (simp_all add: p_def pool_new_def)
  then have s: "s = abs_pool p" by (simp add: s_def)
  show "fst (run_pool_calls cs (pool_new n)) = fst (spec_pool_calls cs \<lparr>ps_queue = [1..<n + 1], ps_items = Map.empty\<rparr>)"
    by (simp only: ref(3) fst_conv)
  show "pool_inv p" by (rule ref)
  show "pool_find p i = ps_items s i" "pl_avail p = length (ps_queue s)" by (simp_all add: s abs_pool_def)
  show "pool_allocated p = card (dom (ps_items s))" "dom (ps_items s) = {1..n} - set (ps_queue s)"
    using pool_counts [OF ref(1)] ref(2) by (simp_all add: s abs_pool_def)
qed

section \<open>The pool with identifiers\<close>

text \<open>\<^verbatim>\<open>NextgcorePoolId\<close> is a 32-bit signed number; the identifiers in use are positive.\<close>

definition NEXTGCORE_MIN_POOL_ID :: u32 where
  "NEXTGCORE_MIN_POOL_ID = 1"

definition NEXTGCORE_MAX_POOL_ID :: u32 where
  "NEXTGCORE_MAX_POOL_ID = 0x7fffffff"

record 'a NextgcorePoolWithId =
  ip_pool :: "'a NextgcorePool"
  id_hash :: "u32 \<Rightarrow> nat option"
  ip_next_id :: u32

definition idpool_new :: "nat \<Rightarrow> 'a NextgcorePoolWithId" where
  "idpool_new n = \<lparr>ip_pool = pool_new n, id_hash = Map.empty, ip_next_id = NEXTGCORE_MIN_POOL_ID\<rparr>"

definition idpool_alloc :: "'a \<Rightarrow> (u32 \<Rightarrow> 'a \<Rightarrow> 'a) \<Rightarrow> 'a NextgcorePoolWithId \<Rightarrow> (u32 \<times> nat) option \<times> 'a NextgcorePoolWithId" where
  "idpool_alloc dflt set_id s =
     (case pool_alloc dflt (ip_pool s) of
        (None, p) \<Rightarrow> (None, s\<lparr>ip_pool := p\<rparr>)
      | (Some index, p) \<Rightarrow>
          let i = ip_next_id s
          in (Some (i, index),
              s\<lparr>ip_next_id := (if i = NEXTGCORE_MAX_POOL_ID then NEXTGCORE_MIN_POOL_ID else i + 1),
                ip_pool := pool_find_mut index (set_id i) p, id_hash := (id_hash s)(i \<mapsto> index)\<rparr>))"

definition free_by_id :: "u32 \<Rightarrow> 'a NextgcorePoolWithId \<Rightarrow> 'a NextgcorePoolWithId" where
  "free_by_id i s =
     (case id_hash s i of
        None \<Rightarrow> s
      | Some index \<Rightarrow> s\<lparr>id_hash := (id_hash s)(i := None), ip_pool := pool_free index (ip_pool s)\<rparr>)"

definition idpool_free :: "('a \<Rightarrow> u32) \<Rightarrow> nat \<Rightarrow> 'a NextgcorePoolWithId \<Rightarrow> 'a NextgcorePoolWithId" where
  "idpool_free item_id index s =
     (let s = (case pool_find (ip_pool s) index of None \<Rightarrow> s | Some x \<Rightarrow> s\<lparr>id_hash := (id_hash s)(item_id x := None)\<rparr>)
      in s\<lparr>ip_pool := pool_free index (ip_pool s)\<rparr>)"

definition find_by_id :: "'a NextgcorePoolWithId \<Rightarrow> u32 \<Rightarrow> 'a option" where
  "find_by_id s i = (case id_hash s i of None \<Rightarrow> None | Some index \<Rightarrow> pool_find (ip_pool s) index)"

definition find_by_id_mut :: "u32 \<Rightarrow> ('a \<Rightarrow> 'a) \<Rightarrow> 'a NextgcorePoolWithId \<Rightarrow> 'a NextgcorePoolWithId" where
  "find_by_id_mut i f s =
     (case id_hash s i of None \<Rightarrow> s | Some index \<Rightarrow> s\<lparr>ip_pool := pool_find_mut index f (ip_pool s)\<rparr>)"

text \<open>
  As long as no identifier has been used twice, the hash table and the items agree. The trait is not trusted further than that
  \<^verbatim>\<open>id\<close> reads what \<^verbatim>\<open>set_id\<close> has set.
\<close>

definition idpool_inv :: "('a \<Rightarrow> u32) \<Rightarrow> 'a NextgcorePoolWithId \<Rightarrow> bool" where
  "idpool_inv item_id s \<longleftrightarrow>
     pool_inv (ip_pool s) \<and> 0 < ip_next_id s \<and> ip_next_id s \<le> NEXTGCORE_MAX_POOL_ID \<and>
     (\<forall>i j. id_hash s i = Some j \<longleftrightarrow> (\<exists>x. pool_find (ip_pool s) j = Some x \<and> item_id x = i)) \<and>
     (\<forall>i. id_hash s i \<noteq> None \<longrightarrow> 0 < i \<and> i < ip_next_id s)"

lemma idpool_invD:
  assumes "idpool_inv item_id s"
  shows "pool_inv (ip_pool s)" "0 < ip_next_id s" "ip_next_id s \<le> NEXTGCORE_MAX_POOL_ID"
    "id_hash s i = Some j \<longleftrightarrow> (\<exists>x. pool_find (ip_pool s) j = Some x \<and> item_id x = i)"
    "id_hash s i \<noteq> None \<Longrightarrow> 0 < i \<and> i < ip_next_id s"
  using assms unfolding idpool_inv_def by blast+

text \<open>Distinct items have distinct identifiers, so the pools by index and by identifier hold the same items.\<close>

lemma find_by_id_item:
  assumes "idpool_inv item_id s"
  shows "find_by_id s i = Some x \<longleftrightarrow> (\<exists>j. pool_find (ip_pool s) j = Some x \<and> item_id x = i)"
proof (cases "id_hash s i")
  case None
  then show ?thesis using idpool_invD(4) [OF assms, of i] by (auto simp: find_by_id_def)
next
  case (Some j)
  have "l = j" if "pool_find (ip_pool s) l = Some x" "item_id x = i" for l
    using idpool_invD(4) [OF assms, of i l] Some that by simp
  moreover have "\<exists>x. pool_find (ip_pool s) j = Some x \<and> item_id x = i" using idpool_invD(4) [OF assms, of i j] Some by simp
  ultimately show ?thesis using Some unfolding find_by_id_def by (metis option.inject option.simps(5))
qed

lemma pool_id_less:
  assumes "w < NEXTGCORE_MAX_POOL_ID"
  shows "w < w + 1" "w + 1 \<le> NEXTGCORE_MAX_POOL_ID" "unat (w + 1) = unat w + 1"
proof -
  have "unat w < 0x7fffffff" using assms by (simp add: word_less_nat_alt NEXTGCORE_MAX_POOL_ID_def)
  then show *: "unat (w + 1) = unat w + 1" by (simp add: unat_word_ariths)
  show "w < w + 1" "w + 1 \<le> NEXTGCORE_MAX_POOL_ID"
    using \<open>unat w < 0x7fffffff\<close> * by (simp_all add: word_less_nat_alt word_le_nat_alt NEXTGCORE_MAX_POOL_ID_def)
qed

definition traits :: "(('a \<Rightarrow> u32) \<times> (u32 \<Rightarrow> 'a \<Rightarrow> 'a)) set" where
  "traits = {(get, set). \<forall>i x. get (set i x) = i}"

definition idpool_ready :: "'a NextgcorePoolWithId \<Rightarrow> bool" where
  "idpool_ready s \<longleftrightarrow> ip_next_id s < NEXTGCORE_MAX_POOL_ID"

lemma idpool_alloc_spec:
  assumes "idpool_inv item_id s" and "idpool_ready s" and "(item_id, set_id) \<in> traits"
  shows "idpool_inv item_id (snd (idpool_alloc d set_id s)) \<and>
    (case fst (idpool_alloc d set_id s) of
       None \<Rightarrow> snd (idpool_alloc d set_id s) = s \<and> free_queue (ip_pool s) = []
     | Some (i, j) \<Rightarrow> i = ip_next_id s \<and> ip_next_id (snd (idpool_alloc d set_id s)) = i + 1 \<and> find_by_id s i = None \<and>
         find_by_id (snd (idpool_alloc d set_id s)) = (find_by_id s)(i \<mapsto> set_id i d))"
proof (cases "free_queue (ip_pool s)")
  case Nil
  then have "pool_alloc d (ip_pool s) = (None, ip_pool s)"
    using pool_alloc_spec [OF idpool_invD(1) [OF assms(1)], of d] by (simp add: pool_alloc_def)
  then show ?thesis using assms(1) Nil by (simp add: idpool_alloc_def)
next
  case (Cons idx q)
  note inv = idpool_invD [OF assms(1)]
  have law: "item_id (set_id i x) = i" for i x using assms(3) by (simp add: traits_def)
  let ?i = "ip_next_id s" and ?j = "idx + 1" and ?p = "ip_pool s"
  obtain p1 where alloc: "pool_alloc d ?p = (Some ?j, p1)" and p1: "pool_inv p1" "pool_find p1 = (pool_find ?p)(?j \<mapsto> d)"
    and free: "pool_find ?p ?j = None"
    using pool_alloc_spec [OF inv(1), of d] Cons by (cases "pool_alloc d ?p") (simp add: pool_alloc_def)
  define p2 where "p2 = pool_find_mut ?j (set_id ?i) p1"
  have p2: "pool_inv p2" "pool_find p2 = (pool_find ?p)(?j \<mapsto> set_id ?i d)"
    using pool_find_mut_spec [OF p1(1), of ?j "set_id ?i"] p1(2) by (simp_all add: p2_def)
  let ?s = "s\<lparr>ip_next_id := ?i + 1, ip_pool := p2, id_hash := (id_hash s)(?i \<mapsto> ?j)\<rparr>"
  have out: "idpool_alloc d set_id s = (Some (?i, ?j), ?s)"
    using alloc assms(2) by (simp add: idpool_alloc_def p2_def idpool_ready_def Let_def)
  have new: "id_hash s ?i = None" using inv(5) [of ?i] by blast
  note up = pool_id_less [OF assms(2) [unfolded idpool_ready_def]]
  have hash: "id_hash ?s i = Some j \<longleftrightarrow> (\<exists>x. pool_find (ip_pool ?s) j = Some x \<and> item_id x = i)" for i j
  proof (cases "j = ?j")
    case True
    have "id_hash s i \<noteq> Some ?j" using inv(4) [of i ?j] free by simp
    then show ?thesis using True law by (auto simp: p2)
  next
    case False
    have "id_hash s i = Some j \<Longrightarrow> i \<noteq> ?i" using new by auto
    then show ?thesis using False inv(4) [of i j] new by (auto simp: p2)
  qed
  have "0 < i \<and> i < ?i + 1" if "id_hash ?s i \<noteq> None" for i
  proof (cases "i = ?i")
    case False
    then show ?thesis using that inv(5) [of i] up(1) by (auto dest: order.strict_trans)
  qed (use up(1) inv(2) in simp)
  moreover have "0 < ?i + 1" using inv(2) up(1) by (rule order.strict_trans)
  ultimately have inv': "idpool_inv item_id ?s" unfolding idpool_inv_def using p2(1) up(2) hash by simp
  have "find_by_id ?s = (find_by_id s)(?i \<mapsto> set_id ?i d)"
  proof
    fix i
    have "id_hash s i \<noteq> Some ?j" using inv(4) [of i ?j] free by simp
    then show "find_by_id ?s i = ((find_by_id s)(?i \<mapsto> set_id ?i d)) i" by (auto simp: find_by_id_def p2 split: option.split)
  qed
  then show ?thesis using out inv' new by (simp add: find_by_id_def)
qed

lemma free_by_id_spec:
  assumes "idpool_inv item_id s"
  shows "idpool_inv item_id (free_by_id i s) \<and> find_by_id (free_by_id i s) = (find_by_id s)(i := None) \<and>
    ip_next_id (free_by_id i s) = ip_next_id s"
proof (cases "id_hash s i")
  case None
  then show ?thesis using assms by (simp add: free_by_id_def find_by_id_def fun_upd_idem)
next
  case (Some j)
  note inv = idpool_invD [OF assms]
  let ?s = "s\<lparr>id_hash := (id_hash s)(i := None), ip_pool := pool_free j (ip_pool s)\<rparr>"
  note freed = pool_free_spec [OF inv(1), of j]
  have one: "id_hash s k = Some j \<Longrightarrow> k = i" for k using Some inv(4) [of i j] inv(4) [of k j] by auto
  have "id_hash ?s k = Some l \<longleftrightarrow> (\<exists>x. pool_find (ip_pool ?s) l = Some x \<and> item_id x = k)" for k l
  proof (cases "l = j")
    case True
    then have "id_hash ?s k \<noteq> Some l" using one [of k] by (cases "k = i") auto
    moreover have "pool_find (ip_pool ?s) l = None" using True freed by simp
    ultimately show ?thesis by simp
  next
    case False
    then have "pool_find (ip_pool ?s) l = pool_find (ip_pool s) l" using freed by simp
    moreover have "id_hash ?s k = Some l \<longleftrightarrow> id_hash s k = Some l" using False Some by (cases "k = i") auto
    ultimately show ?thesis using inv(4) [of k l] by simp
  qed
  moreover have "id_hash ?s k \<noteq> None \<Longrightarrow> id_hash s k \<noteq> None" for k by (simp split: if_splits)
  ultimately have "idpool_inv item_id ?s" unfolding idpool_inv_def using inv(2,3,5) freed by simp
  moreover have "find_by_id ?s = (find_by_id s)(i := None)"
  proof
    fix k
    show "find_by_id ?s k = ((find_by_id s)(i := None)) k"
      using one [of k] freed by (cases "id_hash s k") (auto simp: find_by_id_def)
  qed
  ultimately show ?thesis using Some by (simp add: free_by_id_def)
qed

text \<open>A release by index is a release by the identifier of the item.\<close>

lemma idpool_free_by_index:
  assumes "idpool_inv item_id s"
  shows "idpool_free item_id j s = (case pool_find (ip_pool s) j of None \<Rightarrow> s | Some x \<Rightarrow> free_by_id (item_id x) s)"
proof (cases "pool_find (ip_pool s) j")
  case None
  then show ?thesis using free_unused [OF idpool_invD(1) [OF assms] None] by (simp add: idpool_free_def)
next
  case (Some x)
  then have "id_hash s (item_id x) = Some j" using idpool_invD(4) [OF assms] by blast
  then show ?thesis using Some by (simp add: idpool_free_def free_by_id_def Let_def)
qed

text \<open>A change of an item that keeps its identifier keeps the invariant.\<close>

lemma find_by_id_mut_spec:
  assumes "idpool_inv item_id s" and "\<And>x. item_id (f x) = item_id x"
  shows "idpool_inv item_id (find_by_id_mut i f s) \<and> find_by_id (find_by_id_mut i f s) = (find_by_id s)(i := map_option f (find_by_id s i))"
proof (cases "id_hash s i")
  case None
  then show ?thesis using assms(1) by (simp add: find_by_id_mut_def find_by_id_def fun_upd_idem)
next
  case (Some j)
  note inv = idpool_invD [OF assms(1)]
  let ?s = "s\<lparr>ip_pool := pool_find_mut j f (ip_pool s)\<rparr>"
  note mut = pool_find_mut_spec [OF inv(1), of j f]
  have "(\<exists>x. pool_find (ip_pool ?s) l = Some x \<and> item_id x = k) \<longleftrightarrow> (\<exists>x. pool_find (ip_pool s) l = Some x \<and> item_id x = k)" for k l
    using mut assms(2) by (cases "l = j") auto
  then have "idpool_inv item_id ?s" using assms(1) mut unfolding idpool_inv_def by simp
  moreover have "find_by_id ?s k = ((find_by_id s)(i := map_option f (find_by_id s i))) k" for k
  proof (cases "k = i")
    case False
    have "id_hash s k \<noteq> Some j" using False Some inv(4) [of i j] inv(4) [of k j] by auto
    moreover have "pool_find (pool_find_mut j f (ip_pool s)) l = pool_find (ip_pool s) l" if "l \<noteq> j" for l using that mut by simp
    ultimately show ?thesis using False by (cases "id_hash s k") (simp_all add: find_by_id_def)
  qed (use mut Some in \<open>simp add: find_by_id_def\<close>)
  ultimately show ?thesis using Some by (auto simp: find_by_id_mut_def)
qed

lemma idpool_new_inv: "idpool_inv item_id (idpool_new n)" "find_by_id (idpool_new n) = Map.empty"
  by (auto simp: idpool_inv_def idpool_new_def pool_new_spec find_by_id_def NEXTGCORE_MIN_POOL_ID_def NEXTGCORE_MAX_POOL_ID_def)

text \<open>
  The pool with identifiers gives out handles by the same contract, for any trait that reads back the identifier it has set. The
  example of such a trait is a pair whose first component is the identifier.
\<close>

definition take_id :: "'a \<Rightarrow> (u32 \<Rightarrow> 'a \<Rightarrow> 'a) \<Rightarrow> 'a NextgcorePoolWithId \<Rightarrow> u32 option \<times> 'a NextgcorePoolWithId" where
  "take_id dflt set_id s = map_prod (map_option fst) id (idpool_alloc dflt set_id s)"

lemma idpool_table:
  assumes "(item_id, set_id) \<in> traits"
  shows "handle_table (idpool_inv item_id) idpool_ready find_by_id (\<lambda>i. set_id i d) (take_id d set_id) free_by_id"
proof unfold_locales
  fix s s' i
  assume inv: "idpool_inv item_id s"
  show "idpool_inv item_id (free_by_id i s)" "find_by_id (free_by_id i s) = (find_by_id s)(i := None)"
    using free_by_id_spec [OF inv, of i] by simp_all
  assume ready: "idpool_ready s"
  note spec = idpool_alloc_spec [OF inv ready assms, of d]
  show "idpool_inv item_id (snd (take_id d set_id s))" using spec by (simp add: take_id_def)
  show "find_by_id s i = None \<and> find_by_id s' = (find_by_id s)(i \<mapsto> set_id i d)" if "take_id d set_id s = (Some i, s')"
    using spec that by (cases "idpool_alloc d set_id s") (auto simp: take_id_def)
  show "find_by_id s' = find_by_id s" if "take_id d set_id s = (None, s')"
    using spec that by (cases "idpool_alloc d set_id s") (auto simp: take_id_def)
qed

interpretation idpool: handle_table "idpool_inv fst" idpool_ready find_by_id "\<lambda>i. (i, d)" "take_id (0, d) (\<lambda>i x. (i, snd x))" free_by_id
  using idpool_table [of fst "\<lambda>i x. (i, snd x)" "(0, d)"] by (simp add: traits_def)

lemma idpool_ready_run:
  assumes "(item_id, set_id) \<in> traits"
  shows "idpool_inv item_id s \<Longrightarrow> unat (ip_next_id s) + length os < 2 ^ 31 \<Longrightarrow> ready_run idpool_ready (take_id d set_id) free_by_id os s"
proof (induction os arbitrary: s)
  case (Cons op os)
  show ?case
  proof (cases op)
    case Acquire
    have ready: "idpool_ready s"
      using Cons.prems(2) by (simp add: idpool_ready_def word_less_nat_alt NEXTGCORE_MAX_POOL_ID_def)
    note spec = idpool_alloc_spec [OF Cons.prems(1) ready assms, of d]
    have "unat (ip_next_id (snd (idpool_alloc d set_id s))) \<le> unat (ip_next_id s) + 1"
      using spec pool_id_less(3) [OF ready [unfolded idpool_ready_def]] by (auto split: option.splits)
    then show ?thesis using Cons.IH [of "snd (idpool_alloc d set_id s)"] spec Cons.prems(2) Acquire ready by (simp add: take_id_def)
  next
    case (Release i)
    then show ?thesis using Cons.IH [of "free_by_id i s"] Cons.prems free_by_id_spec [OF Cons.prems(1), of i] by simp
  qed
qed simp

text \<open>
  The pool with identifiers never gives out an identifier that is still in use, in any sequence of fewer than 2147483647
  allocations and releases by identifier on a new pool, and afterwards a lookup by identifier finds an item exactly if the
  identifier has been given out and not been released since. The item type is any that reads back the identifier it is given.
\<close>

lemma idpool_ids_unique:
  assumes "(item_id, set_id) \<in> traits" and "length os + 1 < 2 ^ 31"
    and "table_run (take_id d set_id) free_by_id os (idpool_new n) = (ids, s)"
  shows "never_reused os ids {}" and "dom (find_by_id s) = live_after os ids {}" and "idpool_inv item_id s"
proof -
  have "ready_run idpool_ready (take_id d set_id) free_by_id os (idpool_new n)"
    by (rule idpool_ready_run [OF assms(1) idpool_new_inv(1)])
      (use assms(2) in \<open>simp add: idpool_new_def NEXTGCORE_MIN_POOL_ID_def\<close>)
  from handle_table.table_run_spec [OF idpool_table [OF assms(1)] idpool_new_inv(1) this assms(3)]
  show "never_reused os ids {}" "dom (find_by_id s) = live_after os ids {}" "idpool_inv item_id s"
    by (simp_all add: idpool_new_inv(2))
qed

text \<open>
  After the largest identifier the numbers start again at 1, and an identifier that is still in use is given out a second time: the
  entry of the older item in the hash table is overwritten, so that the item can no longer be found, and a release by identifier frees
  the newer one.
\<close>

lemma idpool_id_collision:
  assumes "pool_inv (ip_pool s)" and "id_hash s (ip_next_id s) = Some j" and "pl_avail (ip_pool s) > 0"
  obtains k s' where "idpool_alloc d set_id s = (Some (ip_next_id s, k), s')" and "id_hash s' (ip_next_id s) = Some k"
    and "pool_find (ip_pool s) j \<noteq> None \<Longrightarrow> k \<noteq> j"
proof -
  have "free_queue (ip_pool s) \<noteq> []" using assms(3) by (metis length_0_conv less_numeral_extra(3) queue_length)
  then obtain k p where "pool_alloc d (ip_pool s) = (Some k, p)" "pool_find (ip_pool s) k = None"
    using pool_alloc_spec [OF assms(1), of d]
    by (cases "pool_alloc d (ip_pool s)") (auto simp: pool_alloc_def split: list.splits)
  then show thesis
    by (intro that [of k "snd (idpool_alloc d set_id s)"]) (auto simp: idpool_alloc_def Let_def)
qed

end
