(* ===== verification/Gtp1_Ext.thy ===== *)
theory Gtp1_Ext
  imports Gtp_Error
begin

text \<open>
  GTPv1-U extension headers and the PDU Session Container they carry (\<^verbatim>\<open>libs/nextgcore-gtp/src/v1/types.rs\<close>):
  the type table with its comprehension classes, the header codec, and the DL and UL PDU SESSION
  INFORMATION frames with their conditional fields.
\<close>

section \<open>Extension header types\<close>

datatype ExtensionHeaderType =
    NoMoreExtensionHeaders
  | LongPdcpPduNumber
  | PduSetInformationContainer
  | ServiceClassIndicator
  | UdpPort
  | RanContainer
  | LongPdcpPduNumberLegacy
  | XwRanContainer
  | NrRanContainer
  | PduSessionContainerType
  | PduSetInformationContainerHigh
  | PdcpPduNumber

primrec ext_type_as_u8 :: "ExtensionHeaderType \<Rightarrow> u8" where
  "ext_type_as_u8 NoMoreExtensionHeaders = 0x00"
| "ext_type_as_u8 LongPdcpPduNumber = 0x03"
| "ext_type_as_u8 PduSetInformationContainer = 0x04"
| "ext_type_as_u8 ServiceClassIndicator = 0x20"
| "ext_type_as_u8 UdpPort = 0x40"
| "ext_type_as_u8 RanContainer = 0x81"
| "ext_type_as_u8 LongPdcpPduNumberLegacy = 0x82"
| "ext_type_as_u8 XwRanContainer = 0x83"
| "ext_type_as_u8 NrRanContainer = 0x84"
| "ext_type_as_u8 PduSessionContainerType = 0x85"
| "ext_type_as_u8 PduSetInformationContainerHigh = 0x86"
| "ext_type_as_u8 PdcpPduNumber = 0xC0"

definition ext_type_unknown :: "u8 \<Rightarrow> GtpError" where
  "ext_type_unknown value = InvalidFormat (''Unknown extension header type: '' @ show_hex (unat value))"

definition ext_type_try_from :: "u8 \<Rightarrow> (GtpError, ExtensionHeaderType) outcome" where
  "ext_type_try_from value =
     (if value = 0x00 then Ok NoMoreExtensionHeaders
      else if value = 0x03 then Ok LongPdcpPduNumber
      else if value = 0x04 then Ok PduSetInformationContainer
      else if value = 0x20 then Ok ServiceClassIndicator
      else if value = 0x40 then Ok UdpPort
      else if value = 0x81 then Ok RanContainer
      else if value = 0x82 then Ok LongPdcpPduNumberLegacy
      else if value = 0x83 then Ok XwRanContainer
      else if value = 0x84 then Ok NrRanContainer
      else if value = 0x85 then Ok PduSessionContainerType
      else if value = 0x86 then Ok PduSetInformationContainerHigh
      else if value = 0xC0 then Ok PdcpPduNumber
      else Err (ext_type_unknown value))"

interpretation ext_type: octet_enum ext_type_as_u8 ext_type_try_from ext_type_unknown
proof
  show "ext_type_try_from (ext_type_as_u8 m) = Ok m" for m
    by (cases m) (simp_all add: ext_type_try_from_def)
  show "ext_type_try_from v = Ok m \<Longrightarrow> ext_type_as_u8 m = v" for v m
    by (auto simp: ext_type_try_from_def split: if_splits)
  show "(\<exists>m. ext_type_try_from v = Ok m) \<or> ext_type_try_from v = Err (ext_type_unknown v)" for v
    by (auto simp: ext_type_try_from_def)
qed

datatype ExtHeaderComprehension = NotRequired | RequiredEndpointOnly | Required

definition comprehension_of :: "u8 \<Rightarrow> ExtHeaderComprehension" where
  "comprehension_of ext_type =
     (let b = drop_bit 6 ext_type AND 0b11
      in if b = 0b00 \<or> b = 0b01 then NotRequired else if b = 0b10 then RequiredEndpointOnly else Required)"

datatype PduType = DlPduSessionInformation | UlPduSessionInformation

primrec pdu_type_as_u8 :: "PduType \<Rightarrow> u8" where
  "pdu_type_as_u8 DlPduSessionInformation = 0"
| "pdu_type_as_u8 UlPduSessionInformation = 1"

definition pdu_type_unknown :: "u8 \<Rightarrow> GtpError" where
  "pdu_type_unknown value = InvalidFormat (''Unknown PDU type: '' @ show_nat (unat value))"

definition pdu_type_try_from :: "u8 \<Rightarrow> (GtpError, PduType) outcome" where
  "pdu_type_try_from value =
     (if value = 0 then Ok DlPduSessionInformation
      else if value = 1 then Ok UlPduSessionInformation
      else Err (pdu_type_unknown value))"

interpretation pdu_type: octet_enum pdu_type_as_u8 pdu_type_try_from pdu_type_unknown
proof
  show "pdu_type_try_from (pdu_type_as_u8 m) = Ok m" for m
    by (cases m) (simp_all add: pdu_type_try_from_def)
  show "pdu_type_try_from v = Ok m \<Longrightarrow> pdu_type_as_u8 m = v" for v m
    by (auto simp: pdu_type_try_from_def split: if_splits)
  show "(\<exists>m. pdu_type_try_from v = Ok m) \<or> pdu_type_try_from v = Err (pdu_type_unknown v)" for v
    by (auto simp: pdu_type_try_from_def)
qed

section \<open>PDU Session Container\<close>

record DlInfo =
  dl_qfi :: u8
  rqi :: bool
  ppi :: "u8 option"
  dl_sending_timestamp :: "u64 option"
  dl_qfi_sequence_number :: "u32 option"

record UlQosMonitoringTimestamps =
  dl_sending_timestamp_repeated :: u64
  dl_received_timestamp :: u64
  ul_sending_timestamp :: u64

record UlInfo =
  ul_qfi :: u8
  qos_monitoring :: "UlQosMonitoringTimestamps option"
  dl_delay_result :: "u32 option"
  ul_delay_result :: "u32 option"
  ul_qfi_sequence_number :: "u32 option"
  n3_n9_delay_result :: "u32 option"

datatype PduSessionContainer = Dl DlInfo | Ul UlInfo

definition container_dl :: "u8 \<Rightarrow> PduSessionContainer" where
  "container_dl qfi =
     Dl \<lparr>dl_qfi = qfi AND 0x3F, rqi = False, ppi = None, dl_sending_timestamp = None, dl_qfi_sequence_number = None\<rparr>"

definition container_ul :: "u8 \<Rightarrow> PduSessionContainer" where
  "container_ul qfi =
     Ul \<lparr>ul_qfi = qfi AND 0x3F, qos_monitoring = None, dl_delay_result = None, ul_delay_result = None,
         ul_qfi_sequence_number = None, n3_n9_delay_result = None\<rparr>"

primrec container_pdu_type :: "PduSessionContainer \<Rightarrow> PduType" where
  "container_pdu_type (Dl d) = DlPduSessionInformation"
| "container_pdu_type (Ul u) = UlPduSessionInformation"

primrec container_qfi :: "PduSessionContainer \<Rightarrow> u8" where
  "container_qfi (Dl d) = dl_qfi d"
| "container_qfi (Ul u) = ul_qfi u"

text \<open>\<open>flag b n\<close> is \<^verbatim>\<open>(b as u8) << n\<close>; \<open>put_opt\<close> writes a field that may be absent.\<close>

definition flag :: "bool \<Rightarrow> nat \<Rightarrow> u8" where
  "flag b n = push_bit n (of_bool b)"

definition put_opt :: "('a \<Rightarrow> bytes) \<Rightarrow> 'a option \<Rightarrow> bytes" where
  "put_opt put x = (case x of None \<Rightarrow> [] | Some v \<Rightarrow> put v)"

definition put_u24 :: "u32 \<Rightarrow> bytes" where
  "put_u24 sn = take 3 (drop 1 (to_be32 sn))"

definition put_timestamps :: "UlQosMonitoringTimestamps \<Rightarrow> bytes" where
  "put_timestamps qm =
     to_be64 (dl_sending_timestamp_repeated qm) @ to_be64 (dl_received_timestamp qm) @ to_be64 (ul_sending_timestamp qm)"

primrec encode_content :: "PduSessionContainer \<Rightarrow> bytes" where
  "encode_content (Dl dl) =
     [push_bit 4 (pdu_type_as_u8 DlPduSessionInformation) OR flag (dl_sending_timestamp dl \<noteq> None) 3
        OR flag (dl_qfi_sequence_number dl \<noteq> None) 2,
      flag (ppi dl \<noteq> None) 7 OR flag (rqi dl) 6 OR (dl_qfi dl AND 0x3F)]
     @ put_opt (\<lambda>p. [push_bit 5 (p AND 0x07)]) (ppi dl)
     @ put_opt to_be64 (dl_sending_timestamp dl)
     @ put_opt put_u24 (dl_qfi_sequence_number dl)"
| "encode_content (Ul ul) =
     [push_bit 4 (pdu_type_as_u8 UlPduSessionInformation) OR flag (qos_monitoring ul \<noteq> None) 3
        OR flag (dl_delay_result ul \<noteq> None) 2 OR flag (ul_delay_result ul \<noteq> None) 1
        OR flag (ul_qfi_sequence_number ul \<noteq> None) 0,
      flag (n3_n9_delay_result ul \<noteq> None) 7 OR (ul_qfi ul AND 0x3F)]
     @ put_opt put_timestamps (qos_monitoring ul)
     @ put_opt to_be32 (dl_delay_result ul)
     @ put_opt to_be32 (ul_delay_result ul)
     @ put_opt put_u24 (ul_qfi_sequence_number ul)
     @ put_opt to_be32 (n3_n9_delay_result ul)"

text \<open>A conditional field of \<open>n\<close> octets: absent, too short, or read.\<close>

definition get_opt :: "bool \<Rightarrow> nat \<Rightarrow> (bytes \<Rightarrow> (GtpError, 'a \<times> bytes) outcome) \<Rightarrow> bytes \<Rightarrow>
    (GtpError, 'a option \<times> bytes) outcome" where
  "get_opt present n get buf =
     (if present
      then if length buf < n then Err (BufferTooShort n (length buf))
           else obind (get buf) (\<lambda>(v, buf). Ok (Some v, buf))
      else Ok (None, buf))"

definition get_ppi :: "bytes \<Rightarrow> (GtpError, u8 \<times> bytes) outcome" where
  "get_ppi buf = obind (get_u8 buf) (\<lambda>(v, buf). Ok (drop_bit 5 v AND 0x07, buf))"

definition get_u24 :: "bytes \<Rightarrow> (GtpError, u32 \<times> bytes) outcome" where
  "get_u24 buf =
     obind (get_u8 buf) (\<lambda>(a, buf). obind (get_u8 buf) (\<lambda>(b, buf). obind (get_u8 buf) (\<lambda>(c, buf).
       Ok (from_be32 0 a b c, buf))))"

definition get_timestamps :: "bytes \<Rightarrow> (GtpError, UlQosMonitoringTimestamps \<times> bytes) outcome" where
  "get_timestamps buf =
     obind (get_u64 buf) (\<lambda>(a, buf). obind (get_u64 buf) (\<lambda>(b, buf). obind (get_u64 buf) (\<lambda>(c, buf).
       Ok (\<lparr>dl_sending_timestamp_repeated = a, dl_received_timestamp = b, ul_sending_timestamp = c\<rparr>, buf))))"

definition decode_content :: "bytes \<Rightarrow> (GtpError, PduSessionContainer) outcome" where
  "decode_content content =
     (if length content < 2 then Err (BufferTooShort 2 (length content))
      else
        obind (get_u8 content) (\<lambda>(octet0, buf).
        obind (pdu_type_try_from (drop_bit 4 octet0 AND 0x0F)) (\<lambda>pdu_type.
        case pdu_type of
          DlPduSessionInformation \<Rightarrow>
            (let qmp = (drop_bit 3 octet0 AND 0x01 \<noteq> 0);
                 snp = (drop_bit 2 octet0 AND 0x01 \<noteq> 0)
             in obind (get_u8 buf) (\<lambda>(octet1, buf).
                let ppp = (drop_bit 7 octet1 AND 0x01 \<noteq> 0);
                    rqi = (drop_bit 6 octet1 AND 0x01 \<noteq> 0);
                    qfi = octet1 AND 0x3F
                in obind (get_opt ppp 1 get_ppi buf) (\<lambda>(ppi, buf).
                   obind (get_opt qmp 8 get_u64 buf) (\<lambda>(ts, buf).
                   obind (get_opt snp 3 get_u24 buf) (\<lambda>(sn, buf).
                   Ok (Dl \<lparr>dl_qfi = qfi, rqi = rqi, ppi = ppi, dl_sending_timestamp = ts,
                           dl_qfi_sequence_number = sn\<rparr>))))))
        | UlPduSessionInformation \<Rightarrow>
            (let qmp = (drop_bit 3 octet0 AND 0x01 \<noteq> 0);
                 dl_delay_ind = (drop_bit 2 octet0 AND 0x01 \<noteq> 0);
                 ul_delay_ind = (drop_bit 1 octet0 AND 0x01 \<noteq> 0);
                 snp = (octet0 AND 0x01 \<noteq> 0)
             in obind (get_u8 buf) (\<lambda>(octet1, buf).
                let n3_n9_delay_ind = (drop_bit 7 octet1 AND 0x01 \<noteq> 0);
                    qfi = octet1 AND 0x3F
                in obind (get_opt qmp 24 get_timestamps buf) (\<lambda>(qm, buf).
                   obind (get_opt dl_delay_ind 4 get_u32 buf) (\<lambda>(dl_delay, buf).
                   obind (get_opt ul_delay_ind 4 get_u32 buf) (\<lambda>(ul_delay, buf).
                   obind (get_opt snp 3 get_u24 buf) (\<lambda>(sn, buf).
                   obind (get_opt n3_n9_delay_ind 4 get_u32 buf) (\<lambda>(n3, buf).
                   Ok (Ul \<lparr>ul_qfi = qfi, qos_monitoring = qm, dl_delay_result = dl_delay,
                           ul_delay_result = ul_delay, ul_qfi_sequence_number = sn,
                           n3_n9_delay_result = n3\<rparr>)))))))))))"

section \<open>Extension headers\<close>

record Gtp1ExtHeader =
  ext_type :: u8
  content :: bytes

text \<open>The padding loop of \<^verbatim>\<open>Gtp1ExtHeader::new\<close>: at most three octets are appended.\<close>

function (sequential) pad_content :: "bytes \<Rightarrow> bytes" where
  "pad_content padded = (if (length padded + 2) mod 4 \<noteq> 0 then pad_content (padded @ [0]) else padded)"
  by pat_completeness auto

termination
proof (relation "measure (\<lambda>padded. 3 - (length padded + 1) mod 4)")
  fix padded :: bytes
  assume "(length padded + 2) mod 4 \<noteq> 0"
  then show "(padded @ [0], padded) \<in> measure (\<lambda>padded. 3 - (length padded + 1) mod 4)"
    by (simp add: mod_Suc split: if_split_asm)
qed simp

declare pad_content.simps [simp del]

definition ext_new :: "u8 \<Rightarrow> bytes \<Rightarrow> Gtp1ExtHeader" where
  "ext_new t c = \<lparr>ext_type = t, content = pad_content c\<rparr>"

definition ext_pdu_session_container :: "PduSessionContainer \<Rightarrow> Gtp1ExtHeader" where
  "ext_pdu_session_container c = ext_new (ext_type_as_u8 PduSessionContainerType) (encode_content c)"

definition ext_is_known :: "u8 \<Rightarrow> bool" where
  "ext_is_known t = (case ext_type_try_from t of Ok _ \<Rightarrow> True | _ \<Rightarrow> False)"

definition ext_requires_comprehension :: "bool \<Rightarrow> Gtp1ExtHeader \<Rightarrow> bool" where
  "ext_requires_comprehension is_endpoint e =
     (if ext_is_known (ext_type e) then False
      else case comprehension_of (ext_type e) of
             Required \<Rightarrow> True
           | RequiredEndpointOnly \<Rightarrow> is_endpoint
           | NotRequired \<Rightarrow> False)"

definition ext_length_units :: "Gtp1ExtHeader \<Rightarrow> u8" where
  "ext_length_units e = of_nat ((length (content e) + 2) div 4)"

definition ext_encoded_len :: "Gtp1ExtHeader \<Rightarrow> nat" where
  "ext_encoded_len e = length (content e) + 2"

definition ext_encode :: "Gtp1ExtHeader \<Rightarrow> u8 \<Rightarrow> bytes" where
  "ext_encode e next_type = [ext_length_units e] @ content e @ [next_type]"

definition ext_decode :: "u8 \<Rightarrow> bytes \<Rightarrow> (GtpError, (Gtp1ExtHeader \<times> u8) \<times> bytes) outcome" where
  "ext_decode t buf =
     (if length buf < 1 then Err (BufferTooShort 1 (length buf))
      else obind (get_u8 buf) (\<lambda>(l, buf).
        let length_units = unat l
        in if length_units = 0 then Err (InvalidFormat ''Extension header length must be at least 1'')
           else let content_len = length_units * 4 - 2
                in if length buf < content_len + 1 then Err (BufferTooShort (content_len + 1) (length buf))
                   else let content = take content_len buf; buf = drop content_len buf
                        in obind (get_u8 buf) (\<lambda>(next_type, buf).
                             Ok ((\<lparr>ext_type = t, content = content\<rparr>, next_type), buf))))"

definition as_pdu_session_container :: "Gtp1ExtHeader \<Rightarrow> (GtpError, PduSessionContainer) outcome" where
  "as_pdu_session_container e =
     (if ext_type e \<noteq> ext_type_as_u8 PduSessionContainerType
      then Err (InvalidFormat (''Not a PDU Session Container extension header: '' @ show_hex (unat (ext_type e))))
      else decode_content (content e))"

section \<open>Round trips\<close>

text \<open>The values the fields can hold on the wire: a 6-bit QFI, a 3-bit PPI, 24-bit sequence numbers.\<close>

definition opt_below :: "'a::len word \<Rightarrow> 'a word option \<Rightarrow> bool" where
  "opt_below m x = (case x of None \<Rightarrow> True | Some v \<Rightarrow> v < m)"

primrec container_wf :: "PduSessionContainer \<Rightarrow> bool" where
  "container_wf (Dl d) \<longleftrightarrow> dl_qfi d < 64 \<and> opt_below 8 (ppi d) \<and> opt_below 0x1000000 (dl_qfi_sequence_number d)"
| "container_wf (Ul u) \<longleftrightarrow> ul_qfi u < 64 \<and> opt_below 0x1000000 (ul_qfi_sequence_number u)"

lemma get_put_u24 [simp]: "sn < 0x1000000 \<Longrightarrow> get_u24 (put_u24 sn @ r) = Ok (sn, r)"
proof -
  assume sn: "sn < 0x1000000"
  obtain a b c d where abcd: "to_be32 sn = [a, b, c, d]" and join: "from_be32 a b c d = sn"
    by (rule to_be32_octets)
  have "a = ucast (drop_bit 8 (ucast (drop_bit 16 sn) :: u16))"
    using abcd by (simp add: to_be32_def to_be16_def)
  also have "\<dots> = ucast (drop_bit 24 (take_bit 24 sn))"
    using sn by (intro bit_word_eqI) (auto simp: word_below_24 bit_simps)
  also have "\<dots> = 0"
    by (intro bit_word_eqI) (auto simp: bit_simps)
  finally have "a = 0" .
  then show ?thesis
    using abcd join by (simp add: put_u24_def get_u24_def)
qed

lemma get_put_timestamps [simp]: "get_timestamps (put_timestamps qm @ r) = Ok (qm, r)"
  by (simp add: get_timestamps_def put_timestamps_def)

lemma get_put_ppi [simp]: "p < 8 \<Longrightarrow> get_ppi ([push_bit 5 (p AND 0x07)] @ r) = Ok (p, r)"
proof -
  assume "p < 8"
  then have "take_bit 3 p = p"
    using word_below_power [of 3 p] by simp
  moreover have "x AND 0x07 = take_bit 3 x" for x :: u8
    by (simp add: take_bit_eq_mask mask_eq_exp_minus_1)
  moreover have "take_bit 3 (drop_bit 5 (push_bit 5 (take_bit 3 p))) = take_bit 3 p"
    by (intro bit_word_eqI) (auto simp: bit_simps)
  ultimately show ?thesis by (simp add: get_ppi_def)
qed

lemma length_put_u24 [simp]: "length (put_u24 sn) = 3"
  by (simp add: put_u24_def)

lemma length_put_timestamps [simp]: "length (put_timestamps qm) = 24"
  by (simp add: put_timestamps_def)

text \<open>A conditional field is read back when its presence flag is, for any field codec.\<close>

lemma get_put_opt:
  assumes "\<And>v r. x = Some v \<Longrightarrow> get (put v @ r) = Ok (v, r) \<and> length (put v) = n"
  shows "get_opt (x \<noteq> None) n get (put_opt put x @ r) = Ok (x, r)"
  using assms by (cases x) (auto simp: get_opt_def put_opt_def)

lemma low6: "q < 64 \<Longrightarrow> q AND 0x3F = (q :: u8)"
  using word_below_power [of 6 q] by (simp add: take_bit_eq_mask mask_eq_exp_minus_1)

lemma drop_low6: "drop_bit 7 (q AND 0x3F) = (0 :: u8)" "drop_bit 6 (q AND 0x3F) = (0 :: u8)"
  by (intro bit_word_eqI; simp add: bit_simps; presburger)+

text \<open>The flag octets read back.\<close>

lemma octet0_flags:
  fixes p q r s :: bool
  shows "drop_bit 4 (push_bit 4 (0 :: u8) OR flag p 3 OR flag q 2) AND 0x0F = 0"
    "(drop_bit 3 (push_bit 4 (0 :: u8) OR flag p 3 OR flag q 2) AND 1 \<noteq> 0) = p"
    "(drop_bit 2 (push_bit 4 (0 :: u8) OR flag p 3 OR flag q 2) AND 1 \<noteq> 0) = q"
    "drop_bit 4 (push_bit 4 (1 :: u8) OR flag p 3 OR flag q 2 OR flag r 1 OR flag s 0) AND 0x0F = 1"
    "(drop_bit 3 (push_bit 4 (1 :: u8) OR flag p 3 OR flag q 2 OR flag r 1 OR flag s 0) AND 1 \<noteq> 0) = p"
    "(drop_bit 2 (push_bit 4 (1 :: u8) OR flag p 3 OR flag q 2 OR flag r 1 OR flag s 0) AND 1 \<noteq> 0) = q"
    "(drop_bit 1 (push_bit 4 (1 :: u8) OR flag p 3 OR flag q 2 OR flag r 1 OR flag s 0) AND 1 \<noteq> 0) = r"
    "((push_bit 4 (1 :: u8) OR flag p 3 OR flag q 2 OR flag r 1 OR flag s 0) AND 1 \<noteq> 0) = s"
  by (cases p; cases q; cases r; cases s; simp add: flag_def)+

lemma octet1_flags:
  fixes x :: u8
  assumes "x < 64"
  shows "(drop_bit 7 (flag p 7 OR flag q 6 OR (x AND 0x3F)) AND 1 \<noteq> 0) = p"
    "(drop_bit 6 (flag p 7 OR flag q 6 OR (x AND 0x3F)) AND 1 \<noteq> 0) = q"
    "(flag p 7 OR flag q 6 OR (x AND 0x3F)) AND 0x3F = x"
    "(drop_bit 7 (flag p 7 OR (x AND 0x3F)) AND 1 \<noteq> 0) = p"
    "(flag p 7 OR (x AND 0x3F)) AND 0x3F = x"
proof -
  have and3F: "(flag p 7 OR y) AND 0x3F = y AND 0x3F" "(flag q 6 OR y) AND 0x3F = y AND 0x3F" for y :: u8
    by (cases p; cases q; simp add: flag_def bit.conj_disj_distrib2)+
  show "(flag p 7 OR flag q 6 OR (x AND 0x3F)) AND 0x3F = x" "(flag p 7 OR (x AND 0x3F)) AND 0x3F = x"
    using low6 [OF assms] by (simp_all add: and3F)
  show "(drop_bit 7 (flag p 7 OR flag q 6 OR (x AND 0x3F)) AND 1 \<noteq> 0) = p"
    "(drop_bit 6 (flag p 7 OR flag q 6 OR (x AND 0x3F)) AND 1 \<noteq> 0) = q"
    "(drop_bit 7 (flag p 7 OR (x AND 0x3F)) AND 1 \<noteq> 0) = p"
    by (cases p; cases q; simp add: flag_def drop_bit_or drop_low6)+
qed

lemma decode_encode_content:
  assumes "container_wf c"
  shows "decode_content (encode_content c @ r) = Ok c"
proof (cases c)
  case (Dl d)
  then have wf: "dl_qfi d < 64" "opt_below 8 (ppi d)" "opt_below 0x1000000 (dl_qfi_sequence_number d)"
    using assms by simp_all
  have ppi: "get_opt (ppi d \<noteq> None) 1 get_ppi (put_opt (\<lambda>p. [push_bit 5 (p AND 0x07)]) (ppi d) @ r) = Ok (ppi d, r)" for r
  proof (intro get_put_opt conjI)
    fix v r
    assume "ppi d = Some v"
    then have "v < 8" using wf(2) by (simp add: opt_below_def)
    then show "get_ppi ([push_bit 5 (v AND 0x07)] @ r) = Ok (v, r)" by (rule get_put_ppi)
  qed simp
  have sn: "get_opt (dl_qfi_sequence_number d \<noteq> None) 3 get_u24 (put_opt put_u24 (dl_qfi_sequence_number d) @ r) =
      Ok (dl_qfi_sequence_number d, r)" for r
    using wf(3) by (intro get_put_opt) (auto simp: opt_below_def)
  have ts: "get_opt (dl_sending_timestamp d \<noteq> None) 8 get_u64 (put_opt to_be64 (dl_sending_timestamp d) @ r) =
      Ok (dl_sending_timestamp d, r)" for r
    by (intro get_put_opt) simp
  show ?thesis
    unfolding Dl decode_content_def encode_content.simps append_Cons append_Nil append_assoc get_u8.simps
      obind_simps prod.case octet0_flags pdu_type_as_u8.simps
    by (simp only: octet0_flags pdu_type_try_from_def refl if_True obind_simps PduType.case Let_def get_u8.simps
        prod.case octet1_flags [OF wf(1)] ppi ts sn) simp
next
  case (Ul u)
  then have wf: "ul_qfi u < 64" "opt_below 0x1000000 (ul_qfi_sequence_number u)"
    using assms by simp_all
  have qm: "get_opt (qos_monitoring u \<noteq> None) 24 get_timestamps (put_opt put_timestamps (qos_monitoring u) @ r) =
      Ok (qos_monitoring u, r)" for r
    by (intro get_put_opt) simp
  have word: "get_opt (x \<noteq> None) 4 get_u32 (put_opt to_be32 x @ r) = Ok (x, r)" for x r
    by (intro get_put_opt) simp
  have sn: "get_opt (ul_qfi_sequence_number u \<noteq> None) 3 get_u24 (put_opt put_u24 (ul_qfi_sequence_number u) @ r) =
      Ok (ul_qfi_sequence_number u, r)" for r
    using wf(2) by (intro get_put_opt) (auto simp: opt_below_def)
  show ?thesis
    unfolding Ul decode_content_def encode_content.simps append_Cons append_Nil append_assoc get_u8.simps
      obind_simps prod.case octet0_flags pdu_type_as_u8.simps
    by (simp only: octet0_flags pdu_type_try_from_def refl if_True obind_simps PduType.case Let_def get_u8.simps
        prod.case octet1_flags [OF wf(1)] qm word sn one_neq_zero if_False) simp
qed

text \<open>The padding loop in closed form.\<close>

lemma pad_content_zeros: "pad_content c = c @ replicate (3 - (length c + 1) mod 4) 0"
proof (induction c rule: pad_content.induct)
  case (1 c)
  show ?case
  proof (cases "(length c + 2) mod 4 = 0")
    case True
    then have "(length c + 1) mod 4 = 3" by (simp add: mod_Suc split: if_split_asm)
    with True show ?thesis by (subst pad_content.simps) simp
  next
    case False
    then have "(length (c @ [0]) + 1) mod 4 = Suc ((length c + 1) mod 4)"
      by (simp add: mod_Suc split: if_split_asm)
    moreover from this have "3 - (length c + 1) mod 4 = Suc (3 - (length (c @ [0]) + 1) mod 4)"
      using mod_less_divisor [of 4 "length (c @ [0]) + 1"] by linarith
    ultimately show ?thesis
      using 1 [OF False] False by (subst pad_content.simps) simp
  qed
qed

lemma pad_content_length: "(length (pad_content c) + 2) mod 4 = 0" "length (pad_content c) \<le> length c + 3"
proof -
  have "(length c + 1) mod 4 \<in> {0, 1, 2, 3}" by auto
  then show "(length (pad_content c) + 2) mod 4 = 0" "length (pad_content c) \<le> length c + 3"
    by (auto simp: pad_content_zeros) presburger+
qed

text \<open>The header codec: the length octet counts units of four octets, the content is read back whole.\<close>

definition ext_wf :: "Gtp1ExtHeader \<Rightarrow> bool" where
  "ext_wf e \<longleftrightarrow> (length (content e) + 2) mod 4 = 0 \<and> length (content e) + 2 < 1024"

lemma ext_decode_encode:
  assumes "ext_wf e"
  shows "ext_decode (ext_type e) (ext_encode e n @ r) = Ok ((e, n), r)"
proof -
  let ?u = "(length (content e) + 2) div 4"
  have "?u < 256" and "4 * ?u = length (content e) + 2" and "0 < ?u"
    using assms by (auto simp: ext_wf_def)
  then have "unat (ext_length_units e) = ?u" and "?u * 4 - 2 = length (content e)"
    by (simp_all add: ext_length_units_def unat_of_nat take_bit_nat_eq_self)
  then show ?thesis
    using \<open>0 < ?u\<close> by (simp add: ext_decode_def ext_encode_def Let_def)
qed

lemma length_put_opt: "(\<And>v. length (put v) \<le> n) \<Longrightarrow> length (put_opt put x) \<le> n"
  by (cases x) (simp_all add: put_opt_def)

lemma length_put_opts:
  "length (put_opt to_be32 x) \<le> 4" "length (put_opt to_be64 y) \<le> 8" "length (put_opt put_u24 x) \<le> 3"
  "length (put_opt put_timestamps z) \<le> 24" "length (put_opt (\<lambda>p. [f p]) w) \<le> 1"
  by (simp_all add: length_put_opt)

lemma length_encode_content: "length (encode_content c) \<le> 41"
proof (cases c)
  case (Dl d)
  then show ?thesis
    using length_put_opts(5) [of "\<lambda>p. push_bit 5 (p AND 0x07)" "ppi d"]
      length_put_opts(2) [of "dl_sending_timestamp d"] length_put_opts(3) [of "dl_qfi_sequence_number d"]
    unfolding Dl encode_content.simps length_append list.size by linarith
next
  case (Ul u)
  then show ?thesis
    using length_put_opts(4) [of "qos_monitoring u"] length_put_opts(1) [of "dl_delay_result u"]
      length_put_opts(1) [of "ul_delay_result u"] length_put_opts(1) [of "n3_n9_delay_result u"]
      length_put_opts(3) [of "ul_qfi_sequence_number u"]
    unfolding Ul encode_content.simps length_append list.size by linarith
qed

text \<open>
  A PDU Session Container with any combination of its conditional fields survives the trip through an
  extension header: the receiver reads the header off the front of the buffer, with the next type and the
  octets that follow untouched, and the container out of the header, whatever padding was added.
\<close>

lemma pdu_session_container_roundtrip:
  assumes "container_wf c"
  shows "ext_decode 0x85 (ext_encode (ext_pdu_session_container c) n @ r) = Ok ((ext_pdu_session_container c, n), r) \<and>
    as_pdu_session_container (ext_pdu_session_container c) = Ok c"
proof
  have "ext_wf (ext_pdu_session_container c)"
    using length_encode_content [of c] pad_content_length [of "encode_content c"]
    by (simp add: ext_wf_def ext_pdu_session_container_def ext_new_def)
  from ext_decode_encode [OF this]
  show "ext_decode 0x85 (ext_encode (ext_pdu_session_container c) n @ r) = Ok ((ext_pdu_session_container c, n), r)"
    by (simp add: ext_pdu_session_container_def ext_new_def)
  show "as_pdu_session_container (ext_pdu_session_container c) = Ok c"
    by (simp add: as_pdu_session_container_def ext_pdu_session_container_def ext_new_def pad_content_zeros
        decode_encode_content [OF assms])
qed

end
