(* ===== verification/Upf_Gtpu.thy ===== *)
theory Upf_Gtpu
  imports Gtp1_Ext
begin

text \<open>
  The GTP-U frames of the UPF (\<^verbatim>\<open>bins/nextgcore-upfd/src/data_plane.rs\<close> and \<^verbatim>\<open>gtp_path.rs\<close>): building G-PDUs,
  Error Indications, End Markers and Echo messages, parsing them with their chains of extension headers,
  and the IPv4 header checksum and DSCP marking of the packets inside. An \<^verbatim>\<open>Ipv4Addr\<close> is a 32-bit word whose
  octets are its big-endian octets; a loop over an index of a slice is a recursion over that index.
\<close>

section \<open>Constants and errors\<close>

definition GTPU_PORT :: u16 where "GTPU_PORT = 2152"
definition GTPU_HEADER_SIZE :: nat where "GTPU_HEADER_SIZE = 8"
definition GTPU_IE_RECOVERY :: u8 where "GTPU_IE_RECOVERY = 14"

definition ECHO_REQUEST :: u8 where "ECHO_REQUEST = 1"
definition ECHO_RESPONSE :: u8 where "ECHO_RESPONSE = 2"
definition ERROR_INDICATION :: u8 where "ERROR_INDICATION = 26"
definition END_MARKER :: u8 where "END_MARKER = 254"
definition GPDU :: u8 where "GPDU = 255"

lemmas gtpu_msg_type = ECHO_REQUEST_def ECHO_RESPONSE_def ERROR_INDICATION_def END_MARKER_def GPDU_def

datatype GtpPathError =
    NotInitialized
  | LockError
  | PacketTooShort
  | EmptyPacket
  | InvalidVersion u8
  | InvalidMessageType u8
  | InvalidIfname
  | SyscallError string
  | NotSupported
  | IoError string

section \<open>Parsing headers\<close>

record GtpuHeaderDesc =
  gh_msg_type :: u8
  gh_teid :: u32
  gh_seq_num :: "u16 option"
  gh_qfi :: "u8 option"
  gh_header_len :: nat

text \<open>
  The walk over the extension headers in \<^verbatim>\<open>parse_gtpu_header\<close>: it stops at the end of the chain, at the end of
  the packet, or at a malformed length.
\<close>

function (sequential) parse_ext_loop :: "bytes \<Rightarrow> nat \<Rightarrow> u8 \<Rightarrow> u8 option \<Rightarrow> nat \<Rightarrow> u8 option \<times> nat" where
  "parse_ext_loop data ext_offset next_ext qfi header_len =
     (if next_ext \<noteq> 0 \<and> ext_offset < length data
      then let ext_len = unat (data ! ext_offset) * 4
           in if ext_len = 0 \<or> ext_offset + ext_len > length data then (qfi, header_len)
              else let qfi = (if next_ext = 0x85 \<and> ext_len \<ge> 4 then Some (data ! (ext_offset + 1) AND 0x3F) else qfi);
                       next_ext = data ! (ext_offset + ext_len - 1);
                       ext_offset = ext_offset + ext_len
                   in parse_ext_loop data ext_offset next_ext qfi ext_offset
      else (qfi, header_len))"
  by pat_completeness auto

termination by (relation "measure (\<lambda>(data, ext_offset, _). length data - ext_offset)") auto

declare parse_ext_loop.simps [simp del]

definition parse_gtpu_header :: "bytes \<Rightarrow> (GtpPathError, GtpuHeaderDesc) outcome" where
  "parse_gtpu_header data =
     (if length data < 8 then Err PacketTooShort
      else
        let flags = data ! 0;
            version = drop_bit 5 flags AND 0x07
        in if version \<noteq> 1 then Err (GtpPathError.InvalidVersion version)
           else
             let mt = data ! 1;
                 t = from_be32 (data ! 4) (data ! 5) (data ! 6) (data ! 7);
                 has_optional = (flags AND 0x07 \<noteq> 0)
             in if has_optional
                then if length data < 12 then Err PacketTooShort
                     else
                       let seq = Some (from_be16 (data ! 8) (data ! 9));
                           (q, len) = (if flags AND 0x04 \<noteq> 0 then parse_ext_loop data 12 (data ! 11) None 12 else (None, 12))
                       in Ok \<lparr>gh_msg_type = mt, gh_teid = t, gh_seq_num = seq, gh_qfi = q, gh_header_len = len\<rparr>
                else Ok \<lparr>gh_msg_type = mt, gh_teid = t, gh_seq_num = None, gh_qfi = None, gh_header_len = 8\<rparr>)"

section \<open>Building frames\<close>

definition build_gtpu_header :: "u32 \<Rightarrow> u16 \<Rightarrow> bytes" where
  "build_gtpu_header t payload_len = [0x30, GPDU] @ to_be16 payload_len @ to_be32 t"

definition build_gtpu_header_with_seq :: "u32 \<Rightarrow> u16 \<Rightarrow> u16 \<Rightarrow> bytes" where
  "build_gtpu_header_with_seq t payload_len seq =
     [0x32, GPDU] @ to_be16 (payload_len + 4) @ to_be32 t @ to_be16 seq @ [0, 0]"

definition build_gtpu_header_with_qfi :: "u32 \<Rightarrow> u16 \<Rightarrow> u8 \<Rightarrow> bytes" where
  "build_gtpu_header_with_qfi t payload_len q =
     (let ext = ext_pdu_session_container (container_dl q);
          ext_len = ext_encoded_len ext;
          total_len = 4 + of_nat ext_len + payload_len
      in [0x34, GPDU] @ to_be16 total_len @ to_be32 t @ [0, 0] @ [0] @ [ext_type_as_u8 PduSessionContainerType]
         @ ext_encode ext (ext_type_as_u8 NoMoreExtensionHeaders))"

definition encapsulate_dl_gpdu :: "bytes \<Rightarrow> u32 \<Rightarrow> u8 option \<Rightarrow> bytes" where
  "encapsulate_dl_gpdu inner_ip t q =
     (case q of
        Some q \<Rightarrow> build_gtpu_header_with_qfi t (of_nat (length inner_ip)) q @ inner_ip
      | None \<Rightarrow> build_gtpu_header t (of_nat (length inner_ip)) @ inner_ip)"

definition build_gtpu_error_indication :: "u32 \<Rightarrow> u32 \<Rightarrow> bytes" where
  "build_gtpu_error_indication offending_teid local_addr =
     (let payload = [16] @ to_be32 offending_teid @ [133] @ to_be16 4 @ to_be32 local_addr
      in [0x32, ERROR_INDICATION] @ to_be16 (of_nat (4 + length payload)) @ to_be32 0 @ [0, 0] @ [0] @ [0] @ payload)"

function (sequential) error_indication_loop ::
  "bytes \<Rightarrow> nat \<Rightarrow> u32 option \<Rightarrow> u32 option \<Rightarrow> (u32 option \<times> u32 option) option" where
  "error_indication_loop payload off t peer =
     (if off < length payload
      then if payload ! off = 16
           then if off + 5 > length payload then None
                else error_indication_loop payload (off + 5)
                       (Some (from_be32 (payload ! (off + 1)) (payload ! (off + 2)) (payload ! (off + 3)) (payload ! (off + 4)))) peer
           else if payload ! off = 133
           then if off + 3 > length payload then None
                else let len = unat (from_be16 (payload ! (off + 1)) (payload ! (off + 2)))
                     in if off + 3 + len > length payload then None
                        else error_indication_loop payload (off + (3 + len)) t
                               (if len = 4
                                then Some (from_be32 (payload ! (off + 3)) (payload ! (off + 4)) (payload ! (off + 5)) (payload ! (off + 6)))
                                else peer)
           else if payload ! off \<ge> 128
           then if off + 3 > length payload then None
                else let len = unat (from_be16 (payload ! (off + 1)) (payload ! (off + 2)))
                     in error_indication_loop payload (off + (3 + len)) t peer
           else Some (t, peer)
      else Some (t, peer))"
  by pat_completeness auto

termination by (relation "measure (\<lambda>(payload, off, _). length payload - off)") auto

declare error_indication_loop.simps [simp del]

definition parse_gtpu_error_indication :: "bytes \<Rightarrow> (u32 \<times> u32 option) option" where
  "parse_gtpu_error_indication payload =
     (case error_indication_loop payload 0 None None of
        None \<Rightarrow> None
      | Some (t, peer) \<Rightarrow> map_option (\<lambda>t. (t, peer)) t)"

definition build_gtpu_end_marker :: "u32 \<Rightarrow> bytes" where
  "build_gtpu_end_marker t = [0x30, END_MARKER] @ to_be16 0 @ to_be32 t"

definition build_gtpu_echo_response :: "u16 option \<Rightarrow> bytes" where
  "build_gtpu_echo_response seq =
     [0x32, ECHO_RESPONSE] @ to_be16 6 @ to_be32 0 @ to_be16 (case seq of None \<Rightarrow> 0 | Some s \<Rightarrow> s) @ [0, 0, GTPU_IE_RECOVERY, 0]"

definition build_gtpu_echo_request :: "u16 \<Rightarrow> u8 \<Rightarrow> bytes" where
  "build_gtpu_echo_request seq restart_counter =
     [0x32, ECHO_REQUEST] @ to_be16 6 @ to_be32 0 @ to_be16 seq @ [0, 0, GTPU_IE_RECOVERY, restart_counter]"

fun parse_gtpu_recovery_ie :: "bytes \<Rightarrow> u8 option" where
  "parse_gtpu_recovery_ie (t # v # r) = (if t = GTPU_IE_RECOVERY then Some v else parse_gtpu_recovery_ie r)"
| "parse_gtpu_recovery_ie _ = None"

text \<open>The walk of \<^verbatim>\<open>extract_qfi_from_gtp_header\<close> ends at the first PDU Session Container.\<close>

function (sequential) extract_qfi_loop :: "bytes \<Rightarrow> nat \<Rightarrow> u8 \<Rightarrow> u8 option" where
  "extract_qfi_loop gtp_bytes offset next_ext_type =
     (if next_ext_type \<noteq> 0
      then if offset \<ge> length gtp_bytes then None
           else let ext_len = unat (gtp_bytes ! offset) * 4
                in if ext_len = 0 \<or> offset + ext_len > length gtp_bytes then None
                   else if next_ext_type = 0x85 \<and> ext_len \<ge> 4 then Some (gtp_bytes ! (offset + 2) AND 0x3F)
                   else extract_qfi_loop gtp_bytes (offset + ext_len) (gtp_bytes ! (offset + ext_len - 1))
      else None)"
  by pat_completeness auto

termination by (relation "measure (\<lambda>(data, offset, _). length data - offset)") auto

declare extract_qfi_loop.simps [simp del]

definition extract_qfi_from_gtp_header :: "bytes \<Rightarrow> u8 option" where
  "extract_qfi_from_gtp_header gtp_bytes =
     (if length gtp_bytes < 8 then None
      else let flags = gtp_bytes ! 0; e_flag = (flags AND 0x04 \<noteq> 0)
           in if \<not> e_flag then None
              else if length gtp_bytes < 12 then None
              else extract_qfi_loop gtp_bytes 12 (gtp_bytes ! 11))"

definition sat_add16 :: "u16 \<Rightarrow> u16 \<Rightarrow> u16" where
  "sat_add16 a b = (if unat a + unat b < 2 ^ 16 then a + b else 0xFFFF)"

definition encap_gtp :: "bytes \<Rightarrow> u32 \<Rightarrow> u32 \<Rightarrow> bytes" where
  "encap_gtp inner_ip t peer_addr =
     (let gtpu_payload_len = of_nat (length inner_ip);
          udp_len = sat_add16 (8 + 8) gtpu_payload_len;
          ip_total_len = sat_add16 20 udp_len
      in [0x45, 0x00] @ to_be16 ip_total_len @ [0x00, 0x00] @ [0x40, 0x00] @ [0x40, 0x11] @ [0x00, 0x00]
         @ [0, 0, 0, 0] @ to_be32 peer_addr
         @ to_be16 GTPU_PORT @ to_be16 GTPU_PORT @ to_be16 udp_len @ [0x00, 0x00]
         @ build_gtpu_header t gtpu_payload_len @ inner_ip)"

text \<open>The walk of \<^verbatim>\<open>decap_gtp\<close> rejects a malformed chain instead of stopping there.\<close>

function (sequential) decap_ext_loop :: "bytes \<Rightarrow> nat \<Rightarrow> u8 \<Rightarrow> nat \<Rightarrow> nat option" where
  "decap_ext_loop gtp_bytes offset next_ext header_len =
     (if next_ext \<noteq> 0
      then if offset \<ge> length gtp_bytes then None
           else let ext_len = unat (gtp_bytes ! offset) * 4
                in if ext_len = 0 \<or> offset + ext_len > length gtp_bytes then None
                   else decap_ext_loop gtp_bytes (offset + ext_len) (gtp_bytes ! (offset + ext_len - 1)) (offset + ext_len)
      else Some header_len)"
  by pat_completeness auto

termination by (relation "measure (\<lambda>(data, offset, _). length data - offset)") auto

declare decap_ext_loop.simps [simp del]

definition decap_gtp :: "bytes \<Rightarrow> bytes option" where
  "decap_gtp gtp_bytes =
     (if length gtp_bytes < GTPU_HEADER_SIZE then None
      else let flags = gtp_bytes ! 0; mt = gtp_bytes ! 1
           in if mt \<noteq> 0xFF then None
              else let has_optional = (flags AND 0x07 \<noteq> 0);
                       walked =
                         (if has_optional
                          then if length gtp_bytes < 12 then None
                               else if flags AND 0x04 \<noteq> 0 then decap_ext_loop gtp_bytes 12 (gtp_bytes ! 11) 12
                               else Some 12
                          else Some GTPU_HEADER_SIZE)
                   in case walked of
                        None \<Rightarrow> None
                      | Some len \<Rightarrow> if len > length gtp_bytes then None else Some (drop len gtp_bytes))"

section \<open>Frames come back\<close>

lemma container_dl_wf [simp]: "container_wf (container_dl q)"
proof -
  have "q AND 0x3F = take_bit 6 q" by (simp add: take_bit_eq_mask mask_eq_exp_minus_1)
  then have "q AND 0x3F < 64" using word_below_power [of 6 "take_bit 6 q"] by simp
  then show ?thesis by (simp add: container_dl_def opt_below_def)
qed

text \<open>The extension header of a downlink G-PDU: one unit, PDU type 0, the QFI, no further header.\<close>

lemma ext_encode_dl: "ext_encode (ext_pdu_session_container (container_dl q)) 0 = [1, 0, q AND 0x3F, 0]"
  by (simp add: ext_encode_def ext_pdu_session_container_def ext_new_def container_dl_def ext_length_units_def
      pad_content_zeros put_opt_def flag_def and.assoc)

lemma with_qfi_frame:
  "build_gtpu_header_with_qfi t l q = [0x34, GPDU] @ to_be16 (8 + l) @ to_be32 t @ [0, 0, 0, 0x85, 1, 0, q AND 0x3F, 0]"
proof -
  have "ext_encoded_len (ext_pdu_session_container (container_dl q)) = 4"
    by (simp add: ext_encoded_len_def ext_pdu_session_container_def ext_new_def container_dl_def pad_content_zeros put_opt_def)
  then show ?thesis by (simp add: build_gtpu_header_with_qfi_def ext_encode_dl Let_def)
qed

text \<open>One step of each walk over a well-formed extension header, and its end.\<close>

lemma ext_loops_stop [simp]:
  "parse_ext_loop d off 0 q l = (q, l)" "extract_qfi_loop d off 0 = None" "decap_ext_loop d off 0 l = Some l"
  by (simp_all add: parse_ext_loop.simps extract_qfi_loop.simps decap_ext_loop.simps)

lemma ext_loops_step:
  assumes "nx \<noteq> 0" and "off < length d" and "n = unat (d ! off) * 4" and "n \<noteq> 0" and "off + n \<le> length d"
  shows "parse_ext_loop d off nx q l =
      parse_ext_loop d (off + n) (d ! (off + n - 1))
        (if nx = 0x85 \<and> n \<ge> 4 then Some (d ! (off + 1) AND 0x3F) else q) (off + n)"
    and "extract_qfi_loop d off nx =
      (if nx = 0x85 \<and> n \<ge> 4 then Some (d ! (off + 2) AND 0x3F) else extract_qfi_loop d (off + n) (d ! (off + n - 1)))"
    and "decap_ext_loop d off nx l = decap_ext_loop d (off + n) (d ! (off + n - 1)) (off + n)"
  using assms
  by (simp_all add: parse_ext_loop.simps [of d off] extract_qfi_loop.simps [of d off] decap_ext_loop.simps [of d off] Let_def)

lemma buffer_ge12:
  "12 \<le> length bs \<longleftrightarrow> (\<exists>a b c d e f g h i j k l r. bs = a # b # c # d # e # f # g # h # i # j # k # l # r)"
  by (auto simp: numeral_eq_Suc length_ge_Cons)

text \<open>A frame of the fast path, octet by octet, with its TEID in place.\<close>

lemma encapsulate_shape:
  obtains a b c d e f where "from_be32 c d e f = t"
    and "encapsulate_dl_gpdu p t None = [0x30, 0xFF, a, b, c, d, e, f] @ p"
    and "to_be16 (of_nat (length p)) = [a, b]"
proof -
  obtain c d e f where "to_be32 t = [c, d, e, f]" and "from_be32 c d e f = t" by (rule to_be32_octets)
  moreover obtain a b where "to_be16 (of_nat (length p)) = [a, b]" by (rule to_be16_octets)
  ultimately show thesis
    by (intro that) (simp_all add: encapsulate_dl_gpdu_def build_gtpu_header_def GPDU_def)
qed

lemma encapsulate_qfi_shape:
  obtains a b c d e f where "from_be32 c d e f = t"
    and "encapsulate_dl_gpdu p t (Some q) = [0x34, 0xFF, a, b, c, d, e, f, 0, 0, 0, 0x85, 1, 0, q AND 0x3F, 0] @ p"
    and "to_be16 (8 + of_nat (length p)) = [a, b]"
proof -
  obtain c d e f where "to_be32 t = [c, d, e, f]" and "from_be32 c d e f = t" by (rule to_be32_octets)
  moreover obtain a b where "to_be16 (8 + of_nat (length p)) = [a, b]" by (rule to_be16_octets)
  ultimately show thesis
    by (intro that) (simp_all add: encapsulate_dl_gpdu_def with_qfi_frame GPDU_def)
qed

text \<open>
  Whatever packet, TEID and QFI the UPF sends downlink, the receiver of the G-PDU finds the TEID in its
  header, the low six bits of the QFI in its PDU Session Container, and the packet unchanged behind the
  headers, both by \<^verbatim>\<open>decap_gtp\<close> and by the header length that \<^verbatim>\<open>parse_gtpu_header\<close> reports.
\<close>

lemma gtpu_downlink_roundtrip:
  fixes p t q
  defines "frame \<equiv> encapsulate_dl_gpdu p t q"
  shows "decap_gtp frame = Some p \<and> extract_qfi_from_gtp_header frame = map_option (\<lambda>q. q AND 0x3F) q \<and>
    (\<exists>h. parse_gtpu_header frame = Ok h \<and> gh_msg_type h = GPDU \<and> gh_teid h = t \<and> drop (gh_header_len h) frame = p)"
proof (cases q)
  case None
  obtain a b c d e f where t: "from_be32 c d e f = t" and frame: "frame = [0x30, 0xFF, a, b, c, d, e, f] @ p"
    using encapsulate_shape [of t p] None unfolding frame_def by metis
  show ?thesis
    using None t unfolding frame
    by (simp add: decap_gtp_def parse_gtpu_header_def extract_qfi_from_gtp_header_def GTPU_HEADER_SIZE_def GPDU_def)
next
  case (Some q')
  obtain a b c d e f where t: "from_be32 c d e f = t"
    and frame: "frame = [0x34, 0xFF, a, b, c, d, e, f, 0, 0, 0, 0x85, 1, 0, q' AND 0x3F, 0] @ p"
    using encapsulate_qfi_shape [of t p q'] Some unfolding frame_def by metis
  have walk: "parse_ext_loop frame 12 0x85 None 12 = (Some 0, 16)" "extract_qfi_loop frame 12 0x85 = Some (q' AND 0x3F)"
    "decap_ext_loop frame 12 0x85 12 = Some 16"
    using ext_loops_step [where nx = "0x85" and off = 12 and d = frame and n = 4] by (simp_all add: frame and.assoc)
  show ?thesis
    using Some walk t unfolding frame
    by (simp add: decap_gtp_def parse_gtpu_header_def extract_qfi_from_gtp_header_def GTPU_HEADER_SIZE_def GPDU_def)
qed

text \<open>
  \<^verbatim>\<open>parse_gtpu_header\<close> takes the octet of the PDU type for the QFI: on the UPF's own downlink frames its QFI field
  is 0, whatever the QFI is. The forwarding path asks \<^verbatim>\<open>extract_qfi_from_gtp_header\<close> instead.
\<close>

lemma parse_header_qfi:
  "\<exists>h. parse_gtpu_header (encapsulate_dl_gpdu p t (Some q)) = Ok h \<and> gh_qfi h = Some 0"
proof -
  let ?frame = "encapsulate_dl_gpdu p t (Some q)"
  obtain a b c d e f where t: "from_be32 c d e f = t"
    and frame: "?frame = [0x34, 0xFF, a, b, c, d, e, f, 0, 0, 0, 0x85, 1, 0, q AND 0x3F, 0] @ p"
    using encapsulate_qfi_shape [of t p q] by metis
  have "parse_ext_loop ?frame 12 0x85 None 12 = (Some 0, 16)"
    using ext_loops_step(1) [where nx = "0x85" and off = 12 and d = ?frame and n = 4] by (simp add: frame)
  then show ?thesis unfolding frame by (simp add: parse_gtpu_header_def)
qed

lemma decap_ext_parse:
  "decap_ext_loop d off nx l = Some n \<Longrightarrow> off \<le> length d \<Longrightarrow> \<exists>q'. parse_ext_loop d off nx q l = (q', n)"
proof (induction d off nx l arbitrary: q rule: decap_ext_loop.induct)
  case (1 d off nx l)
  show ?case
  proof (cases "nx = 0")
    case True
    then show ?thesis using "1.prems" by simp
  next
    case False
    let ?n = "unat (d ! off) * 4"
    have ok: "off < length d" "?n \<noteq> 0" "off + ?n \<le> length d"
      and rest: "decap_ext_loop d (off + ?n) (d ! (off + ?n - 1)) (off + ?n) = Some n"
      using "1.prems" False by (auto simp: decap_ext_loop.simps [of d off] Let_def split: if_split_asm)
    show ?thesis
      using "1.IH" [OF False _ refl _ rest ok(3)] ok ext_loops_step(1) [OF False ok(1) refl ok(2,3)] by (simp add: not_le)
  qed
qed

text \<open>
  The two header walkers agree: whenever \<^verbatim>\<open>decap_gtp\<close> finds a packet in a version 1 frame, the header length
  of \<^verbatim>\<open>parse_gtpu_header\<close> leads to the same packet. The converse fails only for malformed extension chains,
  which \<^verbatim>\<open>decap_gtp\<close> rejects.
\<close>

lemma gtpu_walkers_agree:
  assumes "decap_gtp d = Some p" and "drop_bit 5 (d ! 0) AND 0x07 = 1"
  shows "\<exists>h. parse_gtpu_header d = Ok h \<and> gh_msg_type h = GPDU \<and> drop (gh_header_len h) d = p"
proof -
  have len: "8 \<le> length d" and mt: "d ! 1 = 0xFF"
    using assms(1) by (auto simp: decap_gtp_def GTPU_HEADER_SIZE_def Let_def split: if_split_asm)
  show ?thesis
  proof (cases "d ! 0 AND 0x04 \<noteq> 0 \<and> d ! 0 AND 0x07 \<noteq> 0")
    case True
    then obtain n where n: "decap_ext_loop d 12 (d ! 11) 12 = Some n" "12 \<le> length d" "p = drop n d"
      using assms(1) len mt
      by (auto simp: decap_gtp_def GTPU_HEADER_SIZE_def Let_def split: if_split_asm option.split_asm)
    obtain q' where "parse_ext_loop d 12 (d ! 11) None 12 = (q', n)"
      using decap_ext_parse [OF n(1,2)] by blast
    then show ?thesis
      using True n assms(2) len mt by (simp add: parse_gtpu_header_def GPDU_def Let_def)
  next
    case False
    then show ?thesis
      using assms len mt
      by (auto simp: parse_gtpu_header_def decap_gtp_def GTPU_HEADER_SIZE_def GPDU_def Let_def split: if_split_asm)
  qed
qed

text \<open>
  The peer of an Error Indication reads the TEID and the address that the UPF put into it, and the peer of
  an Echo Request the sequence number and the restart counter.
\<close>

lemma gtpu_signalling_roundtrip:
  "parse_gtpu_error_indication (drop 12 (build_gtpu_error_indication t a)) = Some (t, Some a) \<and>
   (\<exists>h. parse_gtpu_header (build_gtpu_error_indication t a) = Ok h \<and> gh_header_len h = 12 \<and> gh_msg_type h = ERROR_INDICATION) \<and>
   parse_gtpu_recovery_ie (drop 12 (build_gtpu_echo_request s r)) = Some r \<and>
   (\<exists>h. parse_gtpu_header (build_gtpu_echo_request s r) = Ok h \<and> gh_header_len h = 12 \<and> gh_seq_num h = Some s \<and> gh_teid h = 0)"
proof -
  obtain c d e f where t: "to_be32 t = [c, d, e, f]" "from_be32 c d e f = t" by (rule to_be32_octets)
  obtain g h i j where a: "to_be32 a = [g, h, i, j]" "from_be32 g h i j = a" by (rule to_be32_octets)
  obtain k l where s: "to_be16 s = [k, l]" "from_be16 k l = s" by (rule to_be16_octets)
  have zero: "to_be32 0 = [0, 0, 0, 0]" "from_be32 0 0 0 0 = 0" "to_be16 4 = [0, 4]" "to_be16 16 = [0, 16]" "to_be16 6 = [0, 6]" "from_be16 0 4 = 4"
    by code_simp+
  let ?p = "[16, c, d, e, f, 133, 0, 4, g, h, i, j]"
  have "error_indication_loop ?p 0 None None = error_indication_loop ?p 5 (Some t) None"
    by (subst error_indication_loop.simps) (simp add: t)
  also have "\<dots> = error_indication_loop ?p 12 (Some t) (Some a)"
    by (subst error_indication_loop.simps) (simp add: Let_def a zero)
  also have "\<dots> = Some (Some t, Some a)"
    by (subst error_indication_loop.simps) simp
  finally have "error_indication_loop ?p 0 None None = Some (Some t, Some a)" .
  moreover have "build_gtpu_error_indication t a =
      [0x32, 26, 0, 16, 0, 0, 0, 0, 0, 0, 0, 0, 16, c, d, e, f, 133, 0, 4, g, h, i, j]"
    by (simp add: build_gtpu_error_indication_def t a zero ERROR_INDICATION_def Let_def)
  moreover have "build_gtpu_echo_request s r = [0x32, 1, 0, 6, 0, 0, 0, 0, k, l, 0, 0, 14, r]"
    by (simp add: build_gtpu_echo_request_def s zero ECHO_REQUEST_def GTPU_IE_RECOVERY_def)
  ultimately show ?thesis
    by (simp add: parse_gtpu_error_indication_def parse_gtpu_header_def GTPU_IE_RECOVERY_def s zero ERROR_INDICATION_def)
qed

section \<open>IPv4 header checksum and DSCP marking\<close>

definition qfi_to_dscp :: "u8 \<Rightarrow> u8" where
  "qfi_to_dscp q =
     (if q = 1 then 46 else if q = 2 then 34 else if q = 3 then 26 else if q = 4 then 24 else if q = 5 then 0
      else if q = 6 then 18 else if q = 7 then 10 else if q = 8 \<or> q = 9 then 0 else if q = 65 then 46
      else if q = 66 then 26 else if q = 82 then 46 else if q = 83 then 46 else if q = 84 then 34
      else if q = 85 then 46 else 0)"

definition is_xr_5qi :: "u8 \<Rightarrow> bool" where
  "is_xr_5qi q \<longleftrightarrow> 82 \<le> q \<and> q \<le> 85"

text \<open>The summing loop, from index \<open>i\<close>, and the loop that folds the carries.\<close>

function (sequential) checksum_sum :: "bytes \<Rightarrow> nat \<Rightarrow> nat \<Rightarrow> u32 \<Rightarrow> nat \<times> u32" where
  "checksum_sum header len i acc =
     (if i + 1 < len
      then if i = 10 then checksum_sum header len (i + 2) acc
           else checksum_sum header len (i + 2) (acc + ucast (from_be16 (header ! i) (header ! (i + 1))))
      else (i, acc))"
  by pat_completeness auto

termination by (relation "measure (\<lambda>(header, len, i, acc). len - i)") auto

declare checksum_sum.simps [simp del]

lemma fold_less: "drop_bit 16 s \<noteq> 0 \<Longrightarrow> unat ((s AND 0xFFFF) + drop_bit 16 s) < unat (s :: u32)"
  and fold_unat: "unat ((s AND 0xFFFF) + drop_bit 16 s) = unat s mod 2 ^ 16 + unat s div 2 ^ 16"
proof -
  have lo: "unat (s AND 0xFFFF) = unat s mod 2 ^ 16"
    using unat_take_bit_mod [of 16 s] by (simp add: take_bit_eq_mask mask_eq_exp_minus_1)
  have hi: "unat (drop_bit 16 s) = unat s div 2 ^ 16"
    by (rule unat_drop_bit_div)
  have "unat s < 2 ^ 32" using unsigned_less [of s, where 'a = nat] by simp
  then have "unat s div 2 ^ 16 < 2 ^ 16" by simp
  then show sum: "unat ((s AND 0xFFFF) + drop_bit 16 s) = unat s mod 2 ^ 16 + unat s div 2 ^ 16"
    by (simp add: unat_word_ariths lo hi)
  assume "drop_bit 16 s \<noteq> 0"
  then have "0 < unat s div 65536" using unat_drop_bit_div [of 16 s] by (simp add: unat_eq_zero [symmetric] del: unat_eq_zero)
  moreover have "unat s = 65536 * (unat s div 65536) + unat s mod 65536" by simp
  ultimately have "unat s mod 65536 + unat s div 65536 < unat s" by linarith
  then show "unat ((s AND 0xFFFF) + drop_bit 16 s) < unat s" using sum by simp
qed

function fold_carry :: "u32 \<Rightarrow> u32" where
  "fold_carry s = (if drop_bit 16 s \<noteq> 0 then fold_carry ((s AND 0xFFFF) + drop_bit 16 s) else s)"
  by pat_completeness auto

termination by (relation "measure unat") (auto simp: fold_less)

declare fold_carry.simps [simp del]

definition ipv4_header_checksum :: "bytes \<Rightarrow> ('e, u16) outcome" where
  "ipv4_header_checksum header =
     (if header = [] then Panic
      else let ihl = unat (header ! 0 AND 0x0F) * 4;
               len = min ihl (length header);
               (i, s) = checksum_sum header len 0 0;
               s = (if i < len then s + push_bit 8 (ucast (header ! i)) else s)
           in Ok (NOT (ucast (fold_carry s))))"

definition ipv4_header_checksum_valid :: "bytes \<Rightarrow> ('e, bool) outcome" where
  "ipv4_header_checksum_valid packet =
     (if length packet < 20 \<or> drop_bit 4 (packet ! 0) \<noteq> 4 then Ok False
      else let ihl = unat (packet ! 0 AND 0x0F) * 4
           in if ihl < 20 \<or> length packet < ihl then Ok False
              else let stored = from_be16 (packet ! 10) (packet ! 11)
                   in obind (ipv4_header_checksum (take ihl packet)) (\<lambda>c. Ok (c = stored)))"

definition apply_dscp_to_ip_packet :: "u8 \<Rightarrow> bytes \<Rightarrow> ('e, bool \<times> bytes) outcome" where
  "apply_dscp_to_ip_packet dscp packet =
     (if packet = [] then Ok (False, packet)
      else let version = drop_bit 4 (packet ! 0) AND 0x0F
           in if version = 4 \<and> length packet \<ge> 20
              then let ihl = unat (packet ! 0 AND 0x0F) * 4
                   in if ihl < 20 \<or> length packet < ihl then Ok (False, packet)
                      else let packet = packet[1 := push_bit 2 dscp OR (packet ! 1 AND 0x03)]
                           in obind (ipv4_header_checksum (take ihl packet)) (\<lambda>csum.
                                Ok (True, take 10 packet @ to_be16 csum @ drop 12 packet))
              else if version = 6 \<and> length packet \<ge> 40
              then let tc = push_bit 2 dscp OR (packet ! 1 AND 0x03);
                       b0 = (packet ! 0 AND 0xF0) OR (drop_bit 4 tc AND 0x0F);
                       b1 = push_bit 4 (tc AND 0x0F) OR (packet ! 1 AND 0x0F)
                   in Ok (True, packet[0 := b0, 1 := b1])
              else Ok (False, packet))"

definition mark_dscp :: "u8 \<Rightarrow> bytes \<Rightarrow> ('e, bytes) outcome" where
  "mark_dscp dscp ip_bytes = obind (apply_dscp_to_ip_packet dscp ip_bytes) (\<lambda>(_, p). Ok p)"

text \<open>The sum of the 16-bit words with indices \<open>k\<close> to \<open>n - 1\<close>, without the checksum itself.\<close>

definition header_word :: "bytes \<Rightarrow> nat \<Rightarrow> nat" where
  "header_word h j = unat (from_be16 (h ! (2 * j)) (h ! (2 * j + 1)))"

lemma header_word_le: "header_word h j \<le> 65535"
  using unsigned_less [of "from_be16 (h ! (2 * j)) (h ! (2 * j + 1))", where 'a = nat] by (simp add: header_word_def)

lemma checksum_sum_words:
  assumes "k \<le> n" and "unat acc + 65535 * (n - k) < 2 ^ 32"
  shows "\<exists>acc'. checksum_sum h (2 * n) (2 * k) acc = (2 * n, acc') \<and>
    unat acc' = unat acc + (\<Sum>j\<in>{k..<n} - {5}. header_word h j)"
  using assms
proof (induction "n - k" arbitrary: k acc)
  case 0
  then show ?case by (simp add: checksum_sum.simps)
next
  case (Suc m)
  then have k: "k < n" and m: "m = n - Suc k" by auto
  let ?acc = "if k = 5 then acc else acc + ucast (from_be16 (h ! (2 * k)) (h ! (2 * k + 1)))"
  have step: "checksum_sum h (2 * n) (2 * k) acc = checksum_sum h (2 * n) (2 * Suc k) ?acc"
    using k by (subst checksum_sum.simps) auto
  have acc: "unat ?acc = unat acc + (if k = 5 then 0 else header_word h k)"
  proof (cases "k = 5")
    case False
    have "unat (ucast (from_be16 (h ! (2 * k)) (h ! (2 * k + 1))) :: u32) = header_word h k"
      using unsigned_less [of "from_be16 (h ! (2 * k)) (h ! (2 * k + 1))", where 'a = nat]
      by (simp add: header_word_def unsigned_ucast_eq take_bit_nat_eq_self)
    moreover have "65535 * (n - k) = 65535 + 65535 * (n - Suc k)" using k by (simp add: Suc_diff_Suc flip: mult_Suc_right)
    ultimately show ?thesis
      using False Suc.prems(2) header_word_le [of h k] by (simp add: unat_word_ariths)
  qed simp
  have "unat ?acc + 65535 * (n - Suc k) < 2 ^ 32"
    using Suc.prems(2) k acc header_word_le [of h k] by (simp add: Suc_diff_Suc [symmetric] split: if_split_asm)
  then obtain acc' where "checksum_sum h (2 * n) (2 * Suc k) ?acc = (2 * n, acc')"
    and "unat acc' = unat ?acc + (\<Sum>j\<in>{Suc k..<n} - {5}. header_word h j)"
    using Suc.hyps(1) [OF m, of ?acc] k by auto
  moreover have "{k..<n} - {5} = (if k = 5 then {} else {k}) \<union> ({Suc k..<n} - {5})" using k by auto
  then have "(\<Sum>j\<in>{k..<n} - {5}. header_word h j) =
      (if k = 5 then 0 else header_word h k) + (\<Sum>j\<in>{Suc k..<n} - {5}. header_word h j)"
    by (auto simp: sum.union_disjoint)
  ultimately show ?case using step acc by auto
qed

lemma fold_carry_mod: "unat (fold_carry s) mod 65535 = unat s mod 65535 \<and> unat (fold_carry s) \<le> 65535"
proof (induction s rule: fold_carry.induct)
  case (1 s)
  show ?case
  proof (cases "drop_bit 16 s = 0")
    case True
    then have "unat s div 2 ^ 16 = 0" using unat_drop_bit_div [of 16 s] by simp
    then show ?thesis using True by (simp add: fold_carry.simps [of s])
  next
    case False
    have "unat s = (unat s mod 2 ^ 16 + unat s div 2 ^ 16) + 65535 * (unat s div 2 ^ 16)"
      using div_mult_mod_eq [of "unat s" "2 ^ 16"] by simp
    then have "(unat s mod 2 ^ 16 + unat s div 2 ^ 16) mod 65535 = unat s mod 65535"
      by (metis mod_mult_self2)
    then show ?thesis
      using 1 [OF False] False by (simp add: fold_carry.simps [of s] fold_unat)
  qed
qed

text \<open>The checksum of a header of \<open>2 * x\<close> words is a function of its words other than the sixth, and complements them.\<close>

definition complement :: "nat \<Rightarrow> u16" where
  "complement n = NOT (ucast (fold_carry (of_nat n)))"

lemma complement_mod: "n < 2 ^ 32 \<Longrightarrow> (unat (complement n) + n) mod 65535 = 0"
proof -
  assume "n < 2 ^ 32"
  then have n: "unat (of_nat n :: u32) = n" by (simp add: unat_of_nat take_bit_nat_eq_self)
  let ?f = "fold_carry (of_nat n)"
  have f: "unat ?f mod 65535 = n mod 65535" "unat ?f \<le> 65535"
    using fold_carry_mod [of "of_nat n"] n by simp_all
  then have "unat (ucast ?f :: u16) = unat ?f"
    by (simp add: unsigned_ucast_eq take_bit_nat_eq_self)
  moreover have "NOT w = - 1 - w" and "w \<le> - 1" for w :: u16
    by (simp_all add: not_eq_complement)
  then have "unat (NOT w) = unat (- 1 :: u16) - unat w" for w :: u16
    using unat_sub_if' [of "- 1" w] by (simp only: word_le_nat_alt if_True)
  moreover have "unat (- 1 :: u16) = 65535" by (simp add: unsigned_minus_1_eq_mask mask_eq_exp_minus_1)
  ultimately have "unat (complement n) = 65535 - unat ?f"
    by (simp only: complement_def)
  then have "(unat (complement n) + n) mod 65535 = (65535 - unat ?f + unat ?f) mod 65535"
    using f(1) by (metis mod_add_right_eq)
  also have "\<dots> = 0" using f(2) by simp
  finally show ?thesis .
qed

lemma header_checksum:
  assumes "h \<noteq> []" and "x = unat (h ! 0 AND 0x0F)" and "4 * x = length h"
  shows "ipv4_header_checksum h = Ok (complement (\<Sum>j\<in>{0..<2 * x} - {5}. header_word h j)) \<and>
    (\<Sum>j\<in>{0..<2 * x} - {5}. header_word h j) < 2 ^ 32"
proof -
  have "unat (h ! 0 AND 0x0F) = unat (h ! 0) mod 16"
    using unat_take_bit_mod [of 4 "h ! 0"] by (simp add: take_bit_eq_mask mask_eq_exp_minus_1)
  then have "x \<le> 15" using assms(2) by simp
  then obtain acc where acc: "checksum_sum h (2 * (2 * x)) (2 * 0) 0 = (2 * (2 * x), acc)"
    and sum: "unat acc = (\<Sum>j\<in>{0..<2 * x} - {5}. header_word h j)"
    using checksum_sum_words [of 0 "2 * x" 0 h] by auto
  have "unat (h ! 0 AND 0x0F) * 4 = 2 * (2 * x)" and "min (2 * (2 * x)) (length h) = 2 * (2 * x)"
    using assms(2,3) by simp_all
  then have "ipv4_header_checksum h = Ok (NOT (ucast (fold_carry acc)))"
    using assms(1) acc by (simp only: ipv4_header_checksum_def Let_def if_False mult_0_right prod.case less_irrefl)
  moreover have "unat acc < 2 ^ 32"
    using unsigned_less [of acc, where 'a = nat] by simp
  ultimately show ?thesis
    unfolding complement_def sum [symmetric] by simp
qed

text \<open>The octets of a packet after its checksum has been stored.\<close>

lemma stored_checksum:
  assumes "20 \<le> length q" and "p' = take 10 q @ to_be16 c @ drop 12 q"
  shows "length p' = length q" and "i \<notin> {10, 11} \<Longrightarrow> p' ! i = q ! i"
    and "from_be16 (p' ! 10) (p' ! 11) = c" and "j \<noteq> 5 \<Longrightarrow> header_word p' j = header_word q j"
proof -
  obtain a b where ab: "to_be16 c = [a, b]" "from_be16 a b = c" by (rule to_be16_octets)
  show "length p' = length q" and "from_be16 (p' ! 10) (p' ! 11) = c"
    using assms ab by (simp_all add: nth_append)
  show other: "p' ! i = q ! i" if "i \<notin> {10, 11}" for i
  proof (cases "i < 10")
    case False
    then have "12 \<le> i" using that by auto
    then show ?thesis using assms ab by (simp add: nth_append)
  qed (use assms in \<open>simp add: nth_append\<close>)
  show "header_word p' j = header_word q j" if "j \<noteq> 5"
    using that other [of "2 * j"] other [of "2 * j + 1"] unfolding header_word_def by simp
qed

text \<open>
  Marking an IPv4 packet with a DSCP always succeeds on a well-formed header and leaves a packet whose
  stored checksum is valid, that is, whose header words add up to a multiple of 65535 as RFC 1071 asks; the
  ECN bits and all octets other than the type of service and the checksum are untouched.
\<close>

lemma dscp_marking_valid:
  assumes "length p \<ge> 20" and "drop_bit 4 (p ! 0) = 4" and "x = unat (p ! 0 AND 0x0F)" and "5 \<le> x" and "4 * x \<le> length p"
  shows "\<exists>p'. apply_dscp_to_ip_packet dscp p = (Ok (True, p') :: ('e, bool \<times> bytes) outcome) \<and>
    ipv4_header_checksum_valid p' = (Ok True :: ('e, bool) outcome) \<and>
    (\<Sum>j<2 * x. header_word p' j) mod 65535 = 0 \<and>
    length p' = length p \<and> p' ! 1 = push_bit 2 dscp OR (p ! 1 AND 0x03) \<and>
    (\<forall>i. i \<notin> {1, 10, 11} \<longrightarrow> i < length p \<longrightarrow> p' ! i = p ! i)"
proof -
  define q where "q = p[1 := push_bit 2 dscp OR (p ! 1 AND 0x03)]"
  let ?sum = "\<lambda>h. \<Sum>j\<in>{0..<2 * x} - {5}. header_word h j"
  have q_len: "20 \<le> length q" "length q = length p" using assms(1) by (simp_all add: q_def)
  have x: "x = unat (q ! 0 AND 0x0F)" using assms(1,3) by (simp add: q_def)
  have checksum: "ipv4_header_checksum (take (4 * x) h) = (Ok (complement (?sum h)) :: ('e, u16) outcome)" "?sum h < 2 ^ 32"
    if "h ! 0 = q ! 0" and "length h = length p" for h
  proof -
    have "(\<Sum>j\<in>{0..<2 * x} - {5}. header_word (take (4 * x) h) j) = ?sum h"
      by (rule sum.cong) (auto simp: header_word_def)
    moreover have "take (4 * x) h \<noteq> []" "x = unat (take (4 * x) h ! 0 AND 0x0F)" "4 * x = length (take (4 * x) h)"
      using that x assms(4,5) by auto
    ultimately show "ipv4_header_checksum (take (4 * x) h) = (Ok (complement (?sum h)) :: ('e, u16) outcome)" "?sum h < 2 ^ 32"
      using header_checksum [of "take (4 * x) h" x, where 'a = 'e] by metis+
  qed
  define p' where "p' = take 10 q @ to_be16 (complement (?sum q)) @ drop 12 q"
  note stored = stored_checksum [OF q_len(1) p'_def]
  have sum: "?sum p' = ?sum q" by (rule sum.cong) (auto simp: stored(4))
  have valid: "ipv4_header_checksum_valid p' = (Ok True :: ('e, bool) outcome)"
    using checksum(1) [of p'] stored sum q_len x assms by (simp add: ipv4_header_checksum_valid_def q_def mult.commute)
  have "(\<Sum>j<2 * x. header_word p' j) = header_word p' 5 + ?sum p'"
    using assms(4) by (simp add: sum.remove [of _ 5] lessThan_atLeast0)
  also have "header_word p' 5 = unat (complement (?sum q))" using stored(3) by (simp add: header_word_def)
  finally have "(\<Sum>j<2 * x. header_word p' j) mod 65535 = 0"
    using complement_mod [OF checksum(2) [of q]] q_len sum by simp
  moreover have "apply_dscp_to_ip_packet dscp p = (Ok (True, p') :: ('e, bool \<times> bytes) outcome)"
  proof -
    have "(apply_dscp_to_ip_packet dscp p :: ('e, bool \<times> bytes) outcome) =
        obind (ipv4_header_checksum (take (4 * x) q)) (\<lambda>csum. Ok (True, take 10 q @ to_be16 csum @ drop 12 q))"
      unfolding q_def using assms by (auto simp: apply_dscp_to_ip_packet_def Let_def mult.commute)
    then show ?thesis using checksum(1) [of q] q_len(2) by (simp add: p'_def)
  qed
  moreover have "p' ! 1 = push_bit 2 dscp OR (p ! 1 AND 0x03)" "\<forall>i. i \<notin> {1, 10, 11} \<longrightarrow> i < length p \<longrightarrow> p' ! i = p ! i"
    using assms(1) by (auto simp: stored(2) q_def)
  ultimately show ?thesis
    using valid stored(1) q_len(2) by auto
qed

text \<open>
  On IPv6 the ECN bits are not preserved, although the comment on \<^verbatim>\<open>mark_dscp\<close> says so: they are taken from the
  flow label in the low bits of the second octet, instead of from the traffic class.
\<close>

lemma ipv6_marking_loses_ecn:
  "apply_dscp_to_ip_packet 46 ([0x60, 0x30] @ replicate 38 0) =
     (Ok (True, [0x6B, 0x80] @ replicate 38 0) :: (unit, bool \<times> bytes) outcome)"
  by code_simp

end
