(* ===== verification/Ipfw.thy ===== *)
theory Ipfw
  imports Prelude
begin

text \<open>
  IP packet filters (\<^verbatim>\<open>libs/nextgcore-ipfw/src\<close>): addresses with masks, port ranges and rules
  (\<^verbatim>\<open>types.rs\<close>), the prefix length of a mask (\<^verbatim>\<open>count_prefix_bits\<close>, \<^verbatim>\<open>contigmask\<close> of \<^verbatim>\<open>rule.rs\<close>) and the
  packet filter components generated from a rule (\<^verbatim>\<open>packet_filter.rs\<close>). An IPv4 address is a 32-bit word, an
  IPv6 address the list of its eight 16-bit segments. The textual flow descriptions of \<^verbatim>\<open>rule.rs\<close> are in
  \<open>Ipfw_Text\<close>.
\<close>

section \<open>Types\<close>

record IpAddrMask =
  ip_addr :: "u32 list"
  ip_mask :: "u32 list"

definition IPV4_BITLEN :: nat where "IPV4_BITLEN = 32"
definition IPV6_BITLEN :: nat where "IPV6_BITLEN = 128"

definition addr_mask_default :: IpAddrMask where
  "addr_mask_default = \<lparr>ip_addr = [0, 0, 0, 0], ip_mask = [0, 0, 0, 0]\<rparr>"

definition from_ipv4 :: "u32 \<Rightarrow> u8 \<Rightarrow> IpAddrMask" where
  "from_ipv4 a prefix_len =
     (let m = (if prefix_len \<ge> 32 then 0xFFFFFFFF
                  else if prefix_len = 0 then 0
                  else NOT (push_bit (unat (32 - prefix_len)) 1 - 1))
      in \<lparr>ip_addr = [a, 0, 0, 0], ip_mask = [m, 0, 0, 0]\<rparr>)"

text \<open>The mask loop of \<^verbatim>\<open>from_ipv6\<close>, word by word with the prefix bits that remain.\<close>

fun ipv6_mask_words :: "nat \<Rightarrow> int \<Rightarrow> u32 list" where
  "ipv6_mask_words 0 remaining = []"
| "ipv6_mask_words (Suc i) remaining =
     (if remaining \<ge> 32 then 0xFFFFFFFF # ipv6_mask_words i (remaining - 32)
      else if remaining > 0 then NOT (push_bit (nat (32 - remaining)) 1 - 1) # ipv6_mask_words i 0
      else 0 # ipv6_mask_words i remaining)"

definition from_ipv6 :: "u16 list \<Rightarrow> u8 \<Rightarrow> IpAddrMask" where
  "from_ipv6 segments prefix_len =
     \<lparr>ip_addr = map (\<lambda>i. push_bit 16 (ucast (segments ! (i * 2))) OR ucast (segments ! (i * 2 + 1))) [0..<4],
      ip_mask = ipv6_mask_words 4 (uint prefix_len)\<rparr>"

record PortRange =
  low :: u16
  high :: u16

definition port_single :: "u16 \<Rightarrow> PortRange" where
  "port_single p = \<lparr>low = p, high = p\<rparr>"

definition port_range :: "u16 \<Rightarrow> u16 \<Rightarrow> PortRange" where
  "port_range l h = \<lparr>low = l, high = h\<rparr>"

definition port_is_single :: "PortRange \<Rightarrow> bool" where
  "port_is_single r \<longleftrightarrow> low r = high r"

definition port_is_empty :: "PortRange \<Rightarrow> bool" where
  "port_is_empty r \<longleftrightarrow> low r = 0 \<and> high r = 0"

record IpAddresses =
  ip_src :: IpAddrMask
  ip_dst :: IpAddrMask

record PortRanges =
  port_src :: PortRange
  port_dst :: PortRange

record IpfwRule =
  proto :: u8
  ipv4_src :: bool
  ipv4_dst :: bool
  ipv6_src :: bool
  ipv6_dst :: bool
  ip :: IpAddresses
  port :: PortRanges
  tos_traffic_class :: u16
  security_parameter_index :: u32
  flow_label :: u32
  sdf_filter_id :: u32

definition rule_new :: IpfwRule where
  "rule_new =
     \<lparr>proto = 0, ipv4_src = False, ipv4_dst = False, ipv6_src = False, ipv6_dst = False,
      ip = \<lparr>ip_src = addr_mask_default, ip_dst = addr_mask_default\<rparr>,
      port = \<lparr>port_src = port_range 0 0, port_dst = port_range 0 0\<rparr>,
      tos_traffic_class = 0, security_parameter_index = 0, flow_label = 0, sdf_filter_id = 0\<rparr>"

definition rule_swap :: "IpfwRule \<Rightarrow> IpfwRule" where
  "rule_swap r =
     r\<lparr>ipv4_src := ipv4_dst r, ipv4_dst := ipv4_src r, ipv6_src := ipv6_dst r, ipv6_dst := ipv6_src r,
       ip := \<lparr>ip_src = ip_dst (ip r), ip_dst = ip_src (ip r)\<rparr>,
       port := \<lparr>port_src = port_dst (port r), port_dst = port_src (port r)\<rparr>\<rparr>"

section \<open>Prefix lengths\<close>

text \<open>\<^verbatim>\<open>u32::from_be\<close> on a little-endian host reverses the octets; \<^verbatim>\<open>leading_ones\<close> counts from bit 31.\<close>

definition u32_from_be :: "u32 \<Rightarrow> u32" where
  "u32_from_be w = (case rev (to_be32 w) of [a, b, c, d] \<Rightarrow> from_be32 a b c d | _ \<Rightarrow> 0)"

definition leading_ones :: "u32 \<Rightarrow> nat" where
  "leading_ones w = length (takeWhile (\<lambda>i. bit w (31 - i)) [0..<32])"

fun count_prefix_words :: "u32 list \<Rightarrow> nat \<Rightarrow> nat" where
  "count_prefix_words [] count = count"
| "count_prefix_words (m # ms) count =
     (let word = u32_from_be m
      in if word = 0xFFFFFFFF then count_prefix_words ms (count + 32)
         else if word = 0 then count
         else count + leading_ones word)"

definition count_prefix_bits :: "u32 list \<Rightarrow> nat \<Rightarrow> nat" where
  "count_prefix_bits m max_bits =
     (let num_words = (max_bits + 31) div 32
      in min (count_prefix_words (take num_words m) 0) max_bits)"

text \<open>The bit loop of \<^verbatim>\<open>contigmask\<close>: \<open>-1\<close> for a one after a zero.\<close>

fun contig_loop :: "bytes \<Rightarrow> nat list \<Rightarrow> int \<Rightarrow> bool \<Rightarrow> int" where
  "contig_loop m [] count found_zero = count"
| "contig_loop m (i # is) count found_zero =
     (let byte_idx = i div 8; bit_idx = 7 - i mod 8
      in if byte_idx \<ge> length m then count
         else if drop_bit bit_idx (m ! byte_idx) AND 1 = 1
              then if found_zero then - 1 else contig_loop m is (count + 1) found_zero
              else contig_loop m is count True)"

definition contigmask :: "bytes \<Rightarrow> nat \<Rightarrow> int" where
  "contigmask m len = contig_loop m [0..<len] 0 False"

section \<open>Packet filter components\<close>

datatype PfComponent =
    Protocol u8
  | Ipv4Address (pf_addr: u32) (pf_mask: u32) (is_local: bool)
  | Ipv6AddressPrefix (pf_addr6: "u32 list") (prefix_len: u8) (is_local: bool)
  | Ipv6AddressMask (pf_addr6: "u32 list") (pf_mask6: "u32 list") (is_local: bool)
  | SinglePort u16 (is_local: bool)
  | PfPortRange u16 u16 (is_local: bool)
  | SecurityParameterIndex u32
  | TosTrafficClass u16
  | FlowLabel u32

fun pf_type_id :: "PfComponent \<Rightarrow> u8" where
  "pf_type_id (Protocol _) = 48"
| "pf_type_id (Ipv4Address _ _ l) = (if l then 17 else 16)"
| "pf_type_id (Ipv6AddressPrefix _ _ l) = (if l then 35 else 33)"
| "pf_type_id (Ipv6AddressMask _ _ l) = (if l then 34 else 32)"
| "pf_type_id (SinglePort _ l) = (if l then 64 else 80)"
| "pf_type_id (PfPortRange _ _ l) = (if l then 65 else 81)"
| "pf_type_id (SecurityParameterIndex _) = 96"
| "pf_type_id (TosTrafficClass _) = 112"
| "pf_type_id (FlowLabel _) = 128"

fun pf_encoded_len :: "PfComponent \<Rightarrow> nat" where
  "pf_encoded_len (Protocol _) = 2"
| "pf_encoded_len (Ipv4Address _ _ _) = 9"
| "pf_encoded_len (Ipv6AddressPrefix _ _ _) = 18"
| "pf_encoded_len (Ipv6AddressMask _ _ _) = 33"
| "pf_encoded_len (SinglePort _ _) = 3"
| "pf_encoded_len (PfPortRange _ _ _) = 5"
| "pf_encoded_len (SecurityParameterIndex _) = 5"
| "pf_encoded_len (TosTrafficClass _) = 3"
| "pf_encoded_len (FlowLabel _) = 4"

record PfContent =
  pf_length :: nat
  components :: "PfComponent list"

definition pf_content_new :: PfContent where
  "pf_content_new = \<lparr>pf_length = 0, components = []\<rparr>"

definition add_component :: "PfComponent \<Rightarrow> PfContent \<Rightarrow> PfContent" where
  "add_component c p = p\<lparr>pf_length := pf_length p + pf_encoded_len c, components := components p @ [c]\<rparr>"

definition num_components :: "PfContent \<Rightarrow> nat" where
  "num_components p = length (components p)"

definition DOWNLINK_ONLY :: u8 where "DOWNLINK_ONLY = 1"
definition UPLINK_ONLY :: u8 where "UPLINK_ONLY = 2"
definition BIDIRECTIONAL :: u8 where "BIDIRECTIONAL = 3"

text \<open>Whether the source, or the destination, of a rule is the local side in a direction.\<close>

definition src_is_local :: "u8 \<Rightarrow> bool" where
  "src_is_local direction =
     (if direction = DOWNLINK_ONLY \<or> direction = BIDIRECTIONAL then False
      else if direction = UPLINK_ONLY then True
      else False)"

definition dst_is_local :: "u8 \<Rightarrow> bool" where
  "dst_is_local direction =
     (if direction = DOWNLINK_ONLY \<or> direction = BIDIRECTIONAL then True
      else if direction = UPLINK_ONLY then False
      else False)"

definition ipv6_prefix_len :: "IpAddrMask \<Rightarrow> u8" where
  "ipv6_prefix_len a = word_of_int (contigmask (concat (map to_be32 (ip_mask a))) 128)"

definition port_component :: "PortRange \<Rightarrow> bool \<Rightarrow> PfComponent" where
  "port_component r l = (if port_is_single r then SinglePort (low r) l else PfPortRange (low r) (high r) l)"

definition pf_content_from_ipfw_rule :: "u8 \<Rightarrow> IpfwRule \<Rightarrow> bool \<Rightarrow> PfContent" where
  "pf_content_from_ipfw_rule direction rule no_local =
     (let content = pf_content_new;
          content = (if proto rule \<noteq> 0 then add_component (Protocol (proto rule)) content else content);
          content =
            (if ipv4_src rule
             then let l = src_is_local direction
                  in if \<not> l \<or> \<not> no_local
                     then add_component (Ipv4Address (ip_addr (ip_src (ip rule)) ! 0) (ip_mask (ip_src (ip rule)) ! 0) l) content
                     else content
             else content);
          content =
            (if ipv4_dst rule
             then let l = dst_is_local direction
                  in if \<not> l \<or> \<not> no_local
                     then add_component (Ipv4Address (ip_addr (ip_dst (ip rule)) ! 0) (ip_mask (ip_dst (ip rule)) ! 0) l) content
                     else content
             else content);
          content =
            (if ipv6_src rule
             then let l = src_is_local direction
                  in if \<not> l \<or> \<not> no_local
                     then if no_local
                          then add_component (Ipv6AddressMask (ip_addr (ip_src (ip rule))) (ip_mask (ip_src (ip rule))) l) content
                          else add_component (Ipv6AddressPrefix (ip_addr (ip_src (ip rule))) (ipv6_prefix_len (ip_src (ip rule))) l) content
                     else content
             else content);
          content =
            (if ipv6_dst rule
             then let l = dst_is_local direction
                  in if \<not> l \<or> \<not> no_local
                     then if no_local \<and> \<not> l
                          then add_component (Ipv6AddressMask (ip_addr (ip_dst (ip rule))) (ip_mask (ip_dst (ip rule))) l) content
                          else add_component (Ipv6AddressPrefix (ip_addr (ip_dst (ip rule))) (ipv6_prefix_len (ip_dst (ip rule))) l) content
                     else content
             else content);
          content =
            (if low (port_src (port rule)) \<noteq> 0
             then add_component (port_component (port_src (port rule)) (src_is_local direction)) content
             else content)
      in if low (port_dst (port rule)) \<noteq> 0
         then add_component (port_component (port_dst (port rule)) (dst_is_local direction)) content
         else content)"

section \<open>Prefix masks\<close>

text \<open>A prefix mask keeps the upper bits of an address, so masked addresses agree when those do.\<close>

lemma bit_prefix_mask: "bit (NOT (push_bit k 1 - 1) :: u32) i \<longleftrightarrow> k \<le> i \<and> i < 32"
proof -
  have m: "push_bit k 1 - 1 = (mask k :: u32)"
    by (simp add: push_bit_eq_mult mask_eq_exp_minus_1)
  show ?thesis
    unfolding m bit_not_iff bit_mask_iff possible_bit_word by auto
qed

lemma prefix_mask_agree:
  fixes x y :: u32
  shows "x AND NOT (push_bit k 1 - 1) = y AND NOT (push_bit k 1 - 1) \<longleftrightarrow> drop_bit k x = drop_bit k y"
proof
  have *: "bit (z AND NOT (push_bit k 1 - 1)) i \<longleftrightarrow> k \<le> i \<and> bit z i" for z :: u32 and i
    unfolding bit_and_iff bit_prefix_mask by (auto dest: bit_imp_le_length)
  show "drop_bit k x = drop_bit k y" if "x AND NOT (push_bit k 1 - 1) = y AND NOT (push_bit k 1 - 1)"
    by (rule bit_word_eqI) (use that * in \<open>metis bit_drop_bit_eq comp_apply le_add1\<close>)
  show "x AND NOT (push_bit k 1 - 1) = y AND NOT (push_bit k 1 - 1)" if "drop_bit k x = drop_bit k y"
  proof (rule bit_word_eqI, unfold *)
    fix i
    have "bit x i = bit y i" if "k \<le> i"
      using arg_cong [OF \<open>drop_bit k x = drop_bit k y\<close>, of "\<lambda>w. bit w (i - k)"] that by (simp add: bit_drop_bit_eq)
    then show "(k \<le> i \<and> bit x i) = (k \<le> i \<and> bit y i)" by blast
  qed
qed

text \<open>\<open>mbit\<close> is the bit at a position counted from the most significant bit of the first octet.\<close>

definition mbit :: "bytes \<Rightarrow> nat \<Rightarrow> bool" where
  "mbit m i \<longleftrightarrow> bit (m ! (i div 8)) (7 - i mod 8)"

lemma contig_step:
  "i div 8 < length m \<Longrightarrow>
     contig_loop m (i # is) c z =
       (if mbit m i then if z then - 1 else contig_loop m is (c + 1) z else contig_loop m is c True)"
  by (simp add: Let_def mbit_def bit_iff_odd_drop_bit and_one_eq odd_iff_mod_2_eq_one)

lemma contig_ones:
  "\<forall>i\<in>set is. i div 8 < length m \<and> mbit m i \<Longrightarrow> contig_loop m (is @ js) c False = contig_loop m js (c + int (length is)) False"
  by (induction "is" arbitrary: c) (simp_all add: contig_step add.assoc del: contig_loop.simps)

lemma contig_zeros: "\<forall>i\<in>set js. i div 8 < length m \<and> \<not> mbit m i \<Longrightarrow> contig_loop m js c z = c"
  by (induction js arbitrary: z) (simp_all add: contig_step del: contig_loop.simps(2))

lemma contigmask_prefix:
  assumes "n \<le> len" and "len \<le> 8 * length m" and "\<And>i. i < len \<Longrightarrow> mbit m i \<longleftrightarrow> i < n"
  shows "contigmask m len = int n"
proof -
  have "[0..<len] = [0..<n] @ [n..<len]"
    using assms(1) by (metis le0 upt_add_eq_append le_add_diff_inverse)
  then have "contigmask m len = contig_loop m ([0..<n] @ [n..<len]) 0 False"
    by (simp only: contigmask_def)
  also have "\<dots> = contig_loop m [n..<len] (0 + int (length [0..<n])) False"
    using assms by (intro contig_ones) auto
  also have "\<dots> = int n"
    using assms by (subst contig_zeros) auto
  finally show ?thesis .
qed

lemma nth_to_be32: "j < 4 \<Longrightarrow> to_be32 w ! j = ucast (drop_bit (24 - 8 * j) w)"
proof -
  assume "j < 4"
  then have "j = 0 \<or> j = 1 \<or> j = 2 \<or> j = 3" by auto
  then show ?thesis
    by (elim disjE; simp add: to_be32_def to_be16_def; intro bit_word_eqI; auto simp: bit_simps)
qed

lemma mbit_to_be32: "i < 32 \<Longrightarrow> mbit (to_be32 w @ r) i \<longleftrightarrow> bit w (31 - i)"
proof -
  assume i: "i < 32"
  then have j: "i div 8 < 4" by auto
  have "24 - 8 * (i div 8) + (7 - i mod 8) = 31 - i"
    using j mult_div_mod_eq [of 8 i] mod_less_divisor [of 8 i] by linarith
  moreover have "7 - i mod 8 < 8" by simp
  ultimately show ?thesis
    using j by (simp add: mbit_def nth_append nth_to_be32 bit_simps)
qed

lemma mbit_concat:
  "i < 32 * length ws \<Longrightarrow> mbit (concat (map to_be32 ws)) i \<longleftrightarrow> bit (ws ! (i div 32)) (31 - i mod 32)"
proof (induction ws arbitrary: i)
  case (Cons w ws)
  show ?case
  proof (cases "i < 32")
    case True
    then show ?thesis by (simp add: mbit_to_be32)
  next
    case False
    then obtain j where j: "i = 32 + j" by (metis le_add_diff_inverse not_less)
    moreover have "(32 + j) div 8 = 4 + j div 8" "(32 + j) mod 8 = j mod 8"
      using div_mult_self3 [of 8 4 j] mod_mult_self3 [of 4 8 j] by simp_all
    ultimately have "mbit (to_be32 w @ r) i = mbit r j" for r
      by (simp add: mbit_def nth_append)
    moreover have "(32 + j) div 32 = Suc (j div 32)" "(32 + j) mod 32 = j mod 32"
      using div_add_self1 [of 32 j] mod_add_self1 [of 32 j] by simp_all
    ultimately show ?thesis using Cons j by simp
  qed
qed simp

lemma ipv6_mask_bit:
  "k < n \<Longrightarrow> b < 32 \<Longrightarrow> r \<ge> 0 \<Longrightarrow> bit (ipv6_mask_words n r ! k) b \<longleftrightarrow> int (32 * k + (31 - b)) < r"
proof (induction n arbitrary: k r)
  case (Suc n)
  have "bit (- 1 :: u32) b"
    using Suc.prems(2) unfolding bit_minus_1_iff possible_bit_word by simp
  moreover have "(0xFFFFFFFF :: u32) = - 1" by simp
  ultimately have ones: "bit (0xFFFFFFFF :: u32) b" by (simp only:)
  consider "r \<ge> 32" | "0 < r" "r < 32" | "r = 0" using Suc.prems(3) by linarith
  then show ?case
  proof cases
    case 1
    then show ?thesis
      using Suc ones by (cases k) (simp_all, linarith)
  next
    case 2
    then show ?thesis
      using Suc by (cases k) (auto simp: bit_prefix_mask [unfolded push_bit_of_1] nat_le_iff)
  next
    case 3
    then show ?thesis
      using Suc by (cases k) auto
  qed
qed simp

lemma length_ipv6_mask: "length (ipv6_mask_words n r) = n"
  by (induction n arbitrary: r) simp_all

text \<open>
  The prefix length that a packet filter component announces for an IPv6 address is the one the address
  mask was built from, for every prefix length up to 128.
\<close>

lemma ipfw_prefix_len_ipv6:
  assumes "p \<le> 128"
  shows "ipv6_prefix_len (from_ipv6 segments p) = p"
proof -
  let ?m = "ipv6_mask_words 4 (uint p)"
  have p: "unat p \<le> 128" using assms by (simp add: word_le_nat_alt)
  have "contigmask (concat (map to_be32 ?m)) 128 = int (unat p)"
  proof (rule contigmask_prefix)
    have "length (concat (map to_be32 ?m)) = 16"
      by (simp add: length_concat comp_def sum_list_triv length_ipv6_mask)
    then show "128 \<le> 8 * length (concat (map to_be32 ?m))" by simp
    fix i :: nat
    assume i: "i < 128"
    then have "mbit (concat (map to_be32 ?m)) i \<longleftrightarrow> bit (?m ! (i div 32)) (31 - i mod 32)"
      by (simp add: mbit_concat length_ipv6_mask)
    also have "\<dots> \<longleftrightarrow> int (32 * (i div 32) + (31 - (31 - i mod 32))) < uint p"
      using i by (intro ipv6_mask_bit) auto
    also have "32 * (i div 32) + (31 - (31 - i mod 32)) = i" by simp
    finally show "mbit (concat (map to_be32 ?m)) i \<longleftrightarrow> i < unat p"
      by (simp only: uint_nat of_nat_less_iff)
  qed (rule p)
  then show ?thesis
    by (simp add: ipv6_prefix_len_def from_ipv6_def)
qed

theorem ipfw_prefix_len_ipv6_witness: "ipv6_prefix_len (from_ipv6 [0x2001, 0xdb8, 0, 0, 0, 0, 0, 1] 61) = 61"
  using ipfw_prefix_len_ipv6 [of 61] by simp

text \<open>
  \<^verbatim>\<open>count_prefix_bits\<close> reads the words of a mask with \<^verbatim>\<open>u32::from_be\<close>, although \<^verbatim>\<open>from_ipv4\<close> stores them in host
  order: on a little-endian host only the prefix lengths 0 and 32 are found again, and the address of any
  shorter prefix up to 24 is described as "any".
\<close>

lemma count_prefix_bits_ipv4:
  "map (\<lambda>n. count_prefix_bits (ip_mask (from_ipv4 0x0A000000 n)) IPV4_BITLEN) [0, 8, 16, 24, 25, 31, 32] =
     [0, 0, 0, 0, 1, 7, 32]"
  by code_simp

section \<open>Packet filter contents\<close>

text \<open>The announced length is the length of the components, and swapping a rule twice gives it back.\<close>

lemma pf_content_length:
  "pf_length (pf_content_from_ipfw_rule d r n) = sum_list (map pf_encoded_len (components (pf_content_from_ipfw_rule d r n)))"
proof -
  define ok where "ok p \<longleftrightarrow> pf_length p = sum_list (map pf_encoded_len (components p))" for p :: PfContent
  have new: "ok pf_content_new" and add: "ok p \<Longrightarrow> ok (add_component c p)"
    and either: "ok p \<Longrightarrow> ok q \<Longrightarrow> ok (if b then p else q)" for p q c b
    by (simp_all add: ok_def pf_content_new_def add_component_def)
  have bind: "ok p \<Longrightarrow> (\<And>p. ok p \<Longrightarrow> ok (f p)) \<Longrightarrow> ok (let p = p in f p)"
    and local: "(\<And>b. ok (g b)) \<Longrightarrow> ok (let b = b in g b)" for p f and g :: "bool \<Rightarrow> PfContent" and b
    by (simp_all add: Let_def)
  have "ok (pf_content_from_ipfw_rule d r n)"
    unfolding pf_content_from_ipfw_rule_def by (intro bind local either add new)
  then show ?thesis by (simp add: ok_def)
qed

lemma rule_swap_swap: "rule_swap (rule_swap r) = r"
  by (simp add: rule_swap_def)

end
