(* ===== verification/Upf_Session.thy ===== *)
theory Upf_Session
  imports Upf_Gtpu Ipfw "HOL-Library.AList"
begin

text \<open>
  A session of the UPF's data plane (\<^verbatim>\<open>bins/nextgcore-upfd/src/data_plane.rs\<close>): packet detection rules with
  their SDF filters, forwarding decisions, QoS enforcement with gates and token buckets, usage reporting, and
  the downlink buffer.

  Floating point is kept abstract: the operations of \<^verbatim>\<open>f64\<close> that the token bucket uses are the fields of a
  record that its definitions take as an argument. An \<^verbatim>\<open>Instant\<close> is a number of nanoseconds, a \<^verbatim>\<open>HashMap\<close> an
  association list in its iteration order, and the atomics and locks inside a session are fields of the
  record, since a handler runs each of its accesses without interference.
\<close>

section \<open>Token buckets\<close>

record 'f f64_ops =
  f_add :: "'f \<Rightarrow> 'f \<Rightarrow> 'f"
  f_sub :: "'f \<Rightarrow> 'f \<Rightarrow> 'f"
  f_mul :: "'f \<Rightarrow> 'f \<Rightarrow> 'f"
  f_min :: "'f \<Rightarrow> 'f \<Rightarrow> 'f"
  f_max :: "'f \<Rightarrow> 'f \<Rightarrow> 'f"
  f_ge :: "'f \<Rightarrow> 'f \<Rightarrow> bool"
  f_nat :: "nat \<Rightarrow> 'f"
  f_frac :: "nat \<Rightarrow> nat \<Rightarrow> 'f"

record 'f TokenBucket =
  tokens :: 'f
  max_tokens :: 'f
  refill_rate :: 'f
  last_refill :: nat

definition bucket_new :: "nat \<Rightarrow> 'f \<Rightarrow> 'f \<Rightarrow> 'f TokenBucket" where
  "bucket_new now mt rr = \<lparr>tokens = mt, max_tokens = mt, refill_rate = rr, last_refill = now\<rparr>"

definition from_mbr_kbps :: "'f f64_ops \<Rightarrow> nat \<Rightarrow> u64 \<Rightarrow> 'f TokenBucket" where
  "from_mbr_kbps F now mbr_kbps =
     (let bytes_per_sec = f_mul F (f_nat F (unat mbr_kbps)) (f_nat F 125);
          burst = f_max F (f_mul F bytes_per_sec (f_frac F 1 100)) (f_nat F 1500)
      in bucket_new now burst bytes_per_sec)"

definition try_consume :: "'f f64_ops \<Rightarrow> nat \<Rightarrow> nat \<Rightarrow> 'f TokenBucket \<Rightarrow> bool \<times> 'f TokenBucket" where
  "try_consume F now bytes b =
     (let elapsed = f_frac F (now - last_refill b) 1000000000;
          b = b\<lparr>last_refill := now\<rparr>;
          b = b\<lparr>tokens := f_min F (f_add F (tokens b) (f_mul F elapsed (refill_rate b))) (max_tokens b)\<rparr>
      in if f_ge F (tokens b) (f_nat F bytes)
         then (True, b\<lparr>tokens := f_sub F (tokens b) (f_nat F bytes)\<rparr>)
         else (False, b))"

section \<open>QoS enforcement rules\<close>

record 'f DataPlaneQer =
  qer_id :: u32
  ul_gate_open :: bool
  dl_gate_open :: bool
  ul_mbr :: u64
  dl_mbr :: u64
  ul_gbr :: u64
  dl_gbr :: u64
  qer_qfi :: "u8 option"
  dscp :: u8
  is_xr :: bool
  ul_mbr_bucket :: "'f TokenBucket option"
  dl_mbr_bucket :: "'f TokenBucket option"
  ul_gbr_bucket :: "'f TokenBucket option"
  dl_gbr_bucket :: "'f TokenBucket option"

definition qer_new :: "u32 \<Rightarrow> 'f DataPlaneQer" where
  "qer_new i =
     \<lparr>qer_id = i, ul_gate_open = True, dl_gate_open = True, ul_mbr = 0, dl_mbr = 0, ul_gbr = 0, dl_gbr = 0,
      qer_qfi = None, dscp = 0, is_xr = False, ul_mbr_bucket = None, dl_mbr_bucket = None, ul_gbr_bucket = None,
      dl_gbr_bucket = None\<rparr>"

definition set_qfi :: "u8 \<Rightarrow> 'f DataPlaneQer \<Rightarrow> 'f DataPlaneQer" where
  "set_qfi q r =
     (let r = r\<lparr>qer_qfi := Some q, dscp := qfi_to_dscp q\<rparr>;
          r = r\<lparr>is_xr := is_xr_5qi q \<or> ul_gbr r > 0 \<or> dl_gbr r > 0\<rparr>
      in if is_xr r \<and> dscp r = 0 then r\<lparr>dscp := 46\<rparr> else r)"

definition armed :: "'f f64_ops \<Rightarrow> nat \<Rightarrow> u64 \<Rightarrow> 'f TokenBucket option" where
  "armed F now kbps = (if kbps > 0 then Some (from_mbr_kbps F now kbps) else None)"

definition set_mbr :: "'f f64_ops \<Rightarrow> nat \<Rightarrow> u64 \<Rightarrow> u64 \<Rightarrow> 'f DataPlaneQer \<Rightarrow> 'f DataPlaneQer" where
  "set_mbr F now ul_kbps dl_kbps r =
     r\<lparr>ul_mbr := ul_kbps, dl_mbr := dl_kbps, ul_mbr_bucket := armed F now ul_kbps, dl_mbr_bucket := armed F now dl_kbps\<rparr>"

definition set_gbr :: "'f f64_ops \<Rightarrow> nat \<Rightarrow> u64 \<Rightarrow> u64 \<Rightarrow> 'f DataPlaneQer \<Rightarrow> 'f DataPlaneQer" where
  "set_gbr F now ul_kbps dl_kbps r =
     r\<lparr>ul_gbr := ul_kbps, dl_gbr := dl_kbps, ul_gbr_bucket := armed F now ul_kbps, dl_gbr_bucket := armed F now dl_kbps\<rparr>"

definition qer_clone :: "'f f64_ops \<Rightarrow> nat \<Rightarrow> 'f DataPlaneQer \<Rightarrow> 'f DataPlaneQer" where
  "qer_clone F now r =
     set_gbr F now (ul_gbr r) (dl_gbr r) (set_mbr F now (ul_mbr r) (dl_mbr r)
       ((qer_new (qer_id r))\<lparr>ul_gate_open := ul_gate_open r, dl_gate_open := dl_gate_open r, qer_qfi := qer_qfi r,
                            dscp := dscp r, is_xr := is_xr r\<rparr>))"

text \<open>The two buckets of a direction are taken out, consumed from and put back.\<close>

definition police :: "'f f64_ops \<Rightarrow> nat \<Rightarrow> nat \<Rightarrow> 'f TokenBucket option \<Rightarrow> 'f TokenBucket option \<Rightarrow>
    bool \<times> 'f TokenBucket option \<times> 'f TokenBucket option" where
  "police F now bytes gbr_bucket mbr_bucket =
     (let (within_gbr, gbr_bucket) =
            (case gbr_bucket of
               None \<Rightarrow> (False, None)
             | Some gbr \<Rightarrow> map_prod id Some (try_consume F now bytes gbr))
      in if within_gbr
         then (True, gbr_bucket, map_option (\<lambda>mbr. snd (try_consume F now bytes mbr)) mbr_bucket)
         else case mbr_bucket of
                Some mbr \<Rightarrow> (let (ok, mbr) = try_consume F now bytes mbr in (ok, gbr_bucket, Some mbr))
              | None \<Rightarrow> (True, gbr_bucket, None))"

definition check_rate :: "'f f64_ops \<Rightarrow> nat \<Rightarrow> u64 \<Rightarrow> bool \<Rightarrow> 'f DataPlaneQer \<Rightarrow> bool \<times> 'f DataPlaneQer" where
  "check_rate F now bytes is_uplink r =
     (if is_uplink
      then let (ok, g, m) = police F now (unat bytes) (ul_gbr_bucket r) (ul_mbr_bucket r)
           in (ok, r\<lparr>ul_gbr_bucket := g, ul_mbr_bucket := m\<rparr>)
      else let (ok, g, m) = police F now (unat bytes) (dl_gbr_bucket r) (dl_mbr_bucket r)
           in (ok, r\<lparr>dl_gbr_bucket := g, dl_mbr_bucket := m\<rparr>))"

section \<open>Usage reporting rules\<close>

record DataPlaneUrr =
  urr_id :: u32
  volume_threshold_total :: "u64 option"
  volume_threshold_ul :: "u64 option"
  volume_threshold_dl :: "u64 option"
  time_threshold_secs :: "u32 option"
  measurement_period_secs :: "u32 option"
  acc_total_bytes :: u64
  acc_ul_bytes :: u64
  acc_dl_bytes :: u64
  acc_total_pkts :: u64
  acc_ul_pkts :: u64
  acc_dl_pkts :: u64
  first_pkt_time :: "nat option"
  last_report_time :: "nat option"
  threshold_exceeded :: bool
  ur_seqn :: u32

definition urr_new :: "nat \<Rightarrow> u32 \<Rightarrow> DataPlaneUrr" where
  "urr_new now i =
     \<lparr>urr_id = i, volume_threshold_total = None, volume_threshold_ul = None, volume_threshold_dl = None,
      time_threshold_secs = None, measurement_period_secs = None, acc_total_bytes = 0, acc_ul_bytes = 0,
      acc_dl_bytes = 0, acc_total_pkts = 0, acc_ul_pkts = 0, acc_dl_pkts = 0, first_pkt_time = None,
      last_report_time = Some now, threshold_exceeded = False, ur_seqn = 0\<rparr>"

definition next_ur_seqn :: "DataPlaneUrr \<Rightarrow> u32 \<times> DataPlaneUrr" where
  "next_ur_seqn u = (ur_seqn u, u\<lparr>ur_seqn := ur_seqn u + 1\<rparr>)"

definition reached :: "u64 option \<Rightarrow> u64 \<Rightarrow> bool" where
  "reached threshold value = (case threshold of None \<Rightarrow> False | Some t \<Rightarrow> value \<ge> t)"

definition elapsed_secs :: "nat \<Rightarrow> nat \<Rightarrow> nat" where
  "elapsed_secs now t = (now - t) div 1000000000"

definition urr_record :: "nat \<Rightarrow> u64 \<Rightarrow> bool \<Rightarrow> DataPlaneUrr \<Rightarrow> bool \<times> DataPlaneUrr" where
  "urr_record now bytes is_uplink u =
     (let u = u\<lparr>acc_total_bytes := acc_total_bytes u + bytes, acc_total_pkts := acc_total_pkts u + 1\<rparr>;
          total = acc_total_bytes u;
          u = (if is_uplink
               then u\<lparr>acc_ul_bytes := acc_ul_bytes u + bytes, acc_ul_pkts := acc_ul_pkts u + 1\<rparr>
               else u\<lparr>acc_dl_bytes := acc_dl_bytes u + bytes, acc_dl_pkts := acc_dl_pkts u + 1\<rparr>)
      in if (if is_uplink then reached (volume_threshold_ul u) (acc_ul_bytes u)
             else reached (volume_threshold_dl u) (acc_dl_bytes u))
         then (True, u\<lparr>threshold_exceeded := True\<rparr>)
         else
           let u = (if first_pkt_time u = None then u\<lparr>first_pkt_time := Some now\<rparr> else u)
           in if reached (volume_threshold_total u) total then (True, u\<lparr>threshold_exceeded := True\<rparr>)
              else case (time_threshold_secs u, last_report_time u) of
                     (Some t, Some t0) \<Rightarrow>
                       if elapsed_secs now t0 \<ge> unat t then (True, u\<lparr>threshold_exceeded := True\<rparr>) else (False, u)
                   | _ \<Rightarrow> (False, u))"

definition reset_counters :: "nat \<Rightarrow> DataPlaneUrr \<Rightarrow> DataPlaneUrr" where
  "reset_counters now u =
     u\<lparr>acc_total_bytes := 0, acc_ul_bytes := 0, acc_dl_bytes := 0, acc_total_pkts := 0, acc_ul_pkts := 0,
       acc_dl_pkts := 0, first_pkt_time := None, last_report_time := Some now, threshold_exceeded := False\<rparr>"

section \<open>Detection, forwarding and buffering rules\<close>

definition FAR_ACTION_DROP :: u16 where "FAR_ACTION_DROP = 0x0001"
definition FAR_ACTION_FORW :: u16 where "FAR_ACTION_FORW = 0x0002"
definition FAR_ACTION_BUFF :: u16 where "FAR_ACTION_BUFF = 0x0004"
definition FAR_ACTION_NOCP :: u16 where "FAR_ACTION_NOCP = 0x0008"
definition SRC_INTF_ACCESS :: u8 where "SRC_INTF_ACCESS = 0"
definition SRC_INTF_CORE :: u8 where "SRC_INTF_CORE = 1"
definition DEFAULT_DL_BUFFER_PACKETS :: nat where "DEFAULT_DL_BUFFER_PACKETS = 512"

record DataPlanePdr =
  pdr_id :: u16
  precedence :: u32
  source_interface :: u8
  pdr_far_id :: "u32 option"
  pdr_qer_id :: "u32 option"
  pdr_urr_ids :: "u32 list"
  outer_header_removal :: "u8 option"
  sdf_rule :: "IpfwRule option"
  pdr_qfi :: "u8 option"

record DataPlaneFar =
  far_id :: u32
  apply_action :: u16
  destination_interface :: u8
  ohc_teid :: "u32 option"
  ohc_addr :: "u32 option"
  far_bar_id :: "u8 option"

record DataPlaneBar =
  bar_id :: u8
  suggested_buffering_packets_count :: "u8 option"
  ddn_delay :: "u8 option"

datatype FarDecision =
    Forward "u32 option" "u32 option"
  | DropPacket
  | Buffer bool "u8 option"

record PacketTuple =
  src_ip :: u32
  dst_ip :: u32
  protocol :: u8
  src_port :: u16
  dst_port :: u16

definition from_ipv4_packet :: "bytes \<Rightarrow> PacketTuple option" where
  "from_ipv4_packet p =
     (if length p < 20 then None
      else let ihl = unat (p ! 0 AND 0x0F) * 4;
               proto = p ! 9;
               (sp, dp) =
                 (if (proto = 6 \<or> proto = 17) \<and> length p \<ge> ihl + 4
                  then (from_be16 (p ! ihl) (p ! (ihl + 1)), from_be16 (p ! (ihl + 2)) (p ! (ihl + 3)))
                  else (0, 0))
           in Some \<lparr>src_ip = from_be32 (p ! 12) (p ! 13) (p ! 14) (p ! 15),
                    dst_ip = from_be32 (p ! 16) (p ! 17) (p ! 18) (p ! 19),
                    protocol = proto, src_port = sp, dst_port = dp\<rparr>)"

definition matches_rule :: "PacketTuple \<Rightarrow> IpfwRule \<Rightarrow> bool" where
  "matches_rule t rule =
     (if proto rule \<noteq> 0 \<and> proto rule \<noteq> protocol t then False
      else if ipv4_src rule \<and>
        src_ip t AND ip_mask (ip_src (ip rule)) ! 0 \<noteq> ip_addr (ip_src (ip rule)) ! 0 AND ip_mask (ip_src (ip rule)) ! 0 then False
      else if ipv4_dst rule \<and>
        dst_ip t AND ip_mask (ip_dst (ip rule)) ! 0 \<noteq> ip_addr (ip_dst (ip rule)) ! 0 AND ip_mask (ip_dst (ip rule)) ! 0 then False
      else if \<not> port_is_empty (port_src (port rule)) \<and>
        (src_port t < low (port_src (port rule)) \<or> src_port t > high (port_src (port rule))) then False
      else if \<not> port_is_empty (port_dst (port rule)) \<and>
        (dst_port t < low (port_dst (port rule)) \<or> dst_port t > high (port_dst (port rule))) then False
      else True)"

section \<open>Sessions\<close>

datatype IpAddr = V4 u32 | V6 "128 word"

record SocketAddr =
  sock_ip :: IpAddr
  sock_port :: u16

record 'f DataPlaneSession =
  upf_seid :: u64
  smf_seid :: u64
  ue_ipv4 :: "u32 option"
  ul_teid :: u32
  dl_teid :: u32
  gnb_addr :: SocketAddr
  pdu_session_id :: "u8 option"
  sess_qfi :: "u8 option"
  ul_packets :: u64
  dl_packets :: u64
  ul_bytes :: u64
  dl_bytes :: u64
  pdrs :: "DataPlanePdr list"
  fars :: "(u32 \<times> DataPlaneFar) list"
  qers :: "(u32 \<times> 'f DataPlaneQer) list"
  urrs :: "(u32 \<times> DataPlaneUrr) list"
  bars :: "(u8 \<times> DataPlaneBar) list"
  dl_buffer :: "bytes list"
  ddn_sent :: bool

definition session_new_empty ::
  "u64 \<Rightarrow> u64 \<Rightarrow> u32 option \<Rightarrow> u32 \<Rightarrow> u32 \<Rightarrow> SocketAddr \<Rightarrow> u8 option \<Rightarrow> u8 option \<Rightarrow> 'f DataPlaneSession" where
  "session_new_empty us ss a ult dlt gnb pid q =
     \<lparr>upf_seid = us, smf_seid = ss, ue_ipv4 = a, ul_teid = ult, dl_teid = dlt, gnb_addr = gnb, pdu_session_id = pid,
      sess_qfi = q, ul_packets = 0, dl_packets = 0, ul_bytes = 0, dl_bytes = 0, pdrs = [], fars = [], qers = [],
      urrs = [], bars = [], dl_buffer = [], ddn_sent = False\<rparr>"

definition dl_buffer_capacity :: "u8 option \<Rightarrow> 'f DataPlaneSession \<Rightarrow> nat" where
  "dl_buffer_capacity b s =
     (case b of
        None \<Rightarrow> DEFAULT_DL_BUFFER_PACKETS
      | Some i \<Rightarrow>
          (case map_of (bars s) i of
             None \<Rightarrow> DEFAULT_DL_BUFFER_PACKETS
           | Some bar \<Rightarrow>
               (case suggested_buffering_packets_count bar of
                  None \<Rightarrow> DEFAULT_DL_BUFFER_PACKETS
                | Some count \<Rightarrow> unat count)))"

definition buffer_dl_packet :: "bytes \<Rightarrow> u8 option \<Rightarrow> 'f DataPlaneSession \<Rightarrow> (bool \<times> bool) \<times> 'f DataPlaneSession" where
  "buffer_dl_packet pkt b s =
     (if length (dl_buffer s) \<ge> dl_buffer_capacity b s then ((False, False), s)
      else let s = s\<lparr>dl_buffer := dl_buffer s @ [pkt]\<rparr>;
               first = (\<not> ddn_sent s)
           in ((True, first), s\<lparr>ddn_sent := True\<rparr>))"

definition drain_dl_buffer :: "'f DataPlaneSession \<Rightarrow> bytes list \<times> 'f DataPlaneSession" where
  "drain_dl_buffer s = (dl_buffer s, s\<lparr>dl_buffer := [], ddn_sent := False\<rparr>)"

text \<open>Whether a PDR is skipped by the loop of \<^verbatim>\<open>match_pdr_with_packet\<close> is the negation of its three conditions.\<close>

fun match_pdr_loop :: "DataPlanePdr list \<Rightarrow> u8 \<Rightarrow> PacketTuple option \<Rightarrow> u8 option \<Rightarrow>
    (u32 option \<times> u32 option \<times> u32 list \<times> u8 option) option" where
  "match_pdr_loop [] intf packet pkt_qfi = None"
| "match_pdr_loop (pdr # rest) intf packet pkt_qfi =
     (if source_interface pdr \<noteq> intf then match_pdr_loop rest intf packet pkt_qfi
      else if (case (pdr_qfi pdr, pkt_qfi) of (Some q, Some q') \<Rightarrow> q \<noteq> q' | _ \<Rightarrow> False)
      then match_pdr_loop rest intf packet pkt_qfi
      else if (case sdf_rule pdr of
                 None \<Rightarrow> False
               | Some rule \<Rightarrow> (case packet of Some pkt \<Rightarrow> \<not> matches_rule pkt rule | None \<Rightarrow> True))
      then match_pdr_loop rest intf packet pkt_qfi
      else Some (pdr_far_id pdr, pdr_qer_id pdr, pdr_urr_ids pdr, outer_header_removal pdr))"

definition match_pdr_with_packet :: "u8 \<Rightarrow> PacketTuple option \<Rightarrow> u8 option \<Rightarrow> 'f DataPlaneSession \<Rightarrow>
    (u32 option \<times> u32 option \<times> u32 list \<times> u8 option) option" where
  "match_pdr_with_packet intf packet pkt_qfi s = match_pdr_loop (pdrs s) intf packet pkt_qfi"

definition match_pdr :: "u8 \<Rightarrow> 'f DataPlaneSession \<Rightarrow> (u32 option \<times> u32 option \<times> u32 list \<times> u8 option) option" where
  "match_pdr intf s = match_pdr_with_packet intf None None s"

definition apply_far :: "u32 \<Rightarrow> 'f DataPlaneSession \<Rightarrow> FarDecision" where
  "apply_far i s =
     (case map_of (fars s) i of
        None \<Rightarrow> DropPacket
      | Some far \<Rightarrow>
          if apply_action far AND FAR_ACTION_DROP \<noteq> 0 then DropPacket
          else if apply_action far AND FAR_ACTION_FORW \<noteq> 0 then Forward (ohc_teid far) (ohc_addr far)
          else if apply_action far AND FAR_ACTION_BUFF \<noteq> 0
          then Buffer (apply_action far AND FAR_ACTION_NOCP \<noteq> 0) (far_bar_id far)
          else DropPacket)"

definition check_qer_gate :: "'f f64_ops \<Rightarrow> nat \<Rightarrow> u32 \<Rightarrow> bool \<Rightarrow> u64 \<Rightarrow> 'f DataPlaneSession \<Rightarrow> bool \<times> 'f DataPlaneSession" where
  "check_qer_gate F now i is_uplink pkt_bytes s =
     (case map_of (qers s) i of
        None \<Rightarrow> (True, s)
      | Some qer \<Rightarrow>
          if \<not> (if is_uplink then ul_gate_open qer else dl_gate_open qer) then (False, s)
          else let (ok, qer) = check_rate F now pkt_bytes is_uplink qer
               in (ok, s\<lparr>qers := AList.update i qer (qers s)\<rparr>))"

fun record_urrs_loop :: "nat \<Rightarrow> u32 list \<Rightarrow> u64 \<Rightarrow> bool \<Rightarrow> (u32 \<times> DataPlaneUrr) list \<Rightarrow> bool \<Rightarrow>
    bool \<times> (u32 \<times> DataPlaneUrr) list" where
  "record_urrs_loop now [] bytes is_uplink us any_exceeded = (any_exceeded, us)"
| "record_urrs_loop now (i # is) bytes is_uplink us any_exceeded =
     (case map_of us i of
        None \<Rightarrow> record_urrs_loop now is bytes is_uplink us any_exceeded
      | Some urr \<Rightarrow>
          let (exceeded, urr) = urr_record now bytes is_uplink urr
          in record_urrs_loop now is bytes is_uplink (AList.update i urr us) (if exceeded then True else any_exceeded))"

definition record_urrs :: "nat \<Rightarrow> u32 list \<Rightarrow> u64 \<Rightarrow> bool \<Rightarrow> 'f DataPlaneSession \<Rightarrow> bool \<times> 'f DataPlaneSession" where
  "record_urrs now ids bytes is_uplink s =
     (let (any_exceeded, us) = record_urrs_loop now ids bytes is_uplink (urrs s) False
      in (any_exceeded, s\<lparr>urrs := us\<rparr>))"

definition has_urr_threshold_exceeded :: "'f DataPlaneSession \<Rightarrow> u32 list" where
  "has_urr_threshold_exceeded s = map fst (filter (\<lambda>(_, u). threshold_exceeded u) (urrs s))"

section \<open>PDR matching\<close>

text \<open>
  The reference: a PDR matches when its interface does, its QFI does not contradict the one of the packet, and
  its filter, if it has one, admits the packet.
\<close>

definition filter_admits :: "IpfwRule \<Rightarrow> PacketTuple \<Rightarrow> bool" where
  "filter_admits r t \<longleftrightarrow>
     proto r \<in> {0, protocol t} \<and>
     (ipv4_src r \<longrightarrow> src_ip t AND ip_mask (ip_src (ip r)) ! 0 = ip_addr (ip_src (ip r)) ! 0 AND ip_mask (ip_src (ip r)) ! 0) \<and>
     (ipv4_dst r \<longrightarrow> dst_ip t AND ip_mask (ip_dst (ip r)) ! 0 = ip_addr (ip_dst (ip r)) ! 0 AND ip_mask (ip_dst (ip r)) ! 0) \<and>
     (port_is_empty (port_src (port r)) \<or> src_port t \<in> {low (port_src (port r)) .. high (port_src (port r))}) \<and>
     (port_is_empty (port_dst (port r)) \<or> dst_port t \<in> {low (port_dst (port r)) .. high (port_dst (port r))})"

definition pdr_matches :: "u8 \<Rightarrow> PacketTuple option \<Rightarrow> u8 option \<Rightarrow> DataPlanePdr \<Rightarrow> bool" where
  "pdr_matches intf packet pkt_qfi p \<longleftrightarrow>
     source_interface p = intf \<and>
     (pdr_qfi p = None \<or> pkt_qfi = None \<or> pdr_qfi p = pkt_qfi) \<and>
     (\<forall>rule. sdf_rule p = Some rule \<longrightarrow> (\<exists>t. packet = Some t \<and> filter_admits rule t))"

definition pdr_result :: "DataPlanePdr \<Rightarrow> u32 option \<times> u32 option \<times> u32 list \<times> u8 option" where
  "pdr_result p = (pdr_far_id p, pdr_qer_id p, pdr_urr_ids p, outer_header_removal p)"

lemma matches_rule_admits: "matches_rule t r \<longleftrightarrow> filter_admits r t"
  by (auto simp: matches_rule_def filter_admits_def not_less)

lemma match_pdr_find:
  "match_pdr_loop ps intf packet pkt_qfi = map_option pdr_result (List.find (pdr_matches intf packet pkt_qfi) ps)"
proof (induction ps)
  case (Cons p ps)
  then show ?case
    by (cases "pdr_qfi p"; cases pkt_qfi; cases "sdf_rule p"; cases packet)
      (simp_all add: pdr_matches_def pdr_result_def matches_rule_admits)
qed simp

lemma find_sorted_least:
  fixes key :: "'a \<Rightarrow> 'k::linorder"
  assumes "sorted (map key xs)" and "List.find P xs = Some x"
  shows "x \<in> set xs \<and> P x \<and> (\<forall>y\<in>set xs. P y \<longrightarrow> key x \<le> key y)"
  using assms by (induction xs) (auto split: if_split_asm)

text \<open>An address condition over a prefix holds for the addresses that share the bits of the prefix.\<close>

lemma ipv4_prefix_agree:
  fixes n :: u8 and x a :: u32
  defines "m \<equiv> from_ipv4 a n"
  shows "x AND ip_mask m ! 0 = ip_addr m ! 0 AND ip_mask m ! 0 \<longleftrightarrow> drop_bit (32 - unat n) x = drop_bit (32 - unat n) a"
proof -
  consider "n \<ge> 32" | "n = 0" | "n < 32" "n \<noteq> 0" by force
  then show ?thesis
  proof cases
    case 1
    then have "32 - unat n = 0" by (simp add: word_le_nat_alt)
    moreover have "x AND 0xFFFFFFFF = x" for x :: u32
    proof -
      have "x AND - 1 = x" by (rule and.right_neutral)
      moreover have "(0xFFFFFFFF :: u32) = - 1" by simp
      ultimately show ?thesis by (simp only:)
    qed
    ultimately show ?thesis using 1 by (simp add: m_def from_ipv4_def)
  next
    case 2
    have "drop_bit 32 x = 0" for x :: u32
      by (rule bit_word_eqI) (auto simp: bit_simps dest: bit_imp_le_length)
    then show ?thesis using 2 by (simp add: m_def from_ipv4_def)
  next
    case 3
    then have "unat (32 - n) = 32 - unat n" and "\<not> 32 \<le> n"
      by (simp_all add: unat_sub_if' word_less_nat_alt word_le_nat_alt)
    then show ?thesis
      using 3 prefix_mask_agree [of x "32 - unat n" a] by (simp add: m_def from_ipv4_def)
  qed
qed

text \<open>
  On rules sorted by precedence, as every installation sorts them, PDR matching returns the rules of a
  matching PDR of the least precedence value, and nothing exactly when no PDR matches.
\<close>

lemma pdr_match_least:
  assumes "sorted (map precedence (pdrs s))"
  shows "case match_pdr_with_packet intf packet pkt_qfi s of
      None \<Rightarrow> \<forall>p\<in>set (pdrs s). \<not> pdr_matches intf packet pkt_qfi p
    | Some r \<Rightarrow> \<exists>p\<in>set (pdrs s). r = pdr_result p \<and> pdr_matches intf packet pkt_qfi p \<and>
        (\<forall>p'\<in>set (pdrs s). pdr_matches intf packet pkt_qfi p' \<longrightarrow> precedence p \<le> precedence p')"
proof (cases "List.find (pdr_matches intf packet pkt_qfi) (pdrs s)")
  case None
  then have "match_pdr_with_packet intf packet pkt_qfi s = None"
    by (simp add: match_pdr_with_packet_def match_pdr_find)
  then show ?thesis using None by (auto simp: find_None_iff)
next
  case (Some p)
  then show ?thesis
    using find_sorted_least [OF assms Some] by (auto simp: match_pdr_with_packet_def match_pdr_find)
qed

definition demo_pdr :: "u16 \<Rightarrow> u32 \<Rightarrow> IpfwRule option \<Rightarrow> DataPlanePdr" where
  "demo_pdr i prec rule =
     \<lparr>pdr_id = i, precedence = prec, source_interface = SRC_INTF_ACCESS, pdr_far_id = Some (ucast i), pdr_qer_id = None,
      pdr_urr_ids = [], outer_header_removal = Some 0, sdf_rule = rule, pdr_qfi = None\<rparr>"

definition demo_session :: "'f DataPlaneSession" where
  "demo_session =
     (session_new_empty 7 8 (Some 0x0A2D0002) 9 10 \<lparr>sock_ip = V4 1, sock_port = 2152\<rparr> None None)
       \<lparr>pdrs := [demo_pdr 1 10 (Some (rule_new\<lparr>proto := 17\<rparr>)), demo_pdr 2 20 None, demo_pdr 3 30 None],
        fars := [(2, \<lparr>far_id = 2, apply_action = FAR_ACTION_FORW, destination_interface = SRC_INTF_CORE, ohc_teid = None,
                     ohc_addr = None, far_bar_id = None\<rparr>)]\<rparr>"

end
