(* ===== verification/Upf_Data_Plane.thy ===== *)
theory Upf_Data_Plane
  imports Upf_Session
begin

text \<open>
  The UPF's data plane (\<^verbatim>\<open>bins/nextgcore-upfd/src/data_plane.rs\<close>): the session manager with its three indices,
  the handlers of uplink and downlink packets, buffering and flushing, session set-up and update from PFCP,
  usage report collection, and the management of GTP-U paths.

  Sessions are shared objects (\<^verbatim>\<open>Arc<DataPlaneSession>\<close>): they live in a heap, a list in which a reference is an
  index, and the indices map keys to references, so that an update through one index is seen through the
  others. What the operating system answers to the calls of a handler (the clock, whether a write to the TUN
  device or a send on the socket succeeds) is an argument of the handler, and what the handler asks of it is a
  list of effects. A lock is poisoned only when its holder panics, which no critical section here does.
  Device and socket set-up (\<^verbatim>\<open>TunDevice\<close>, \<^verbatim>\<open>init\<close>, \<^verbatim>\<open>run\<close>) is not modelled.
\<close>

section \<open>Session manager\<close>

type_synonym ref = nat

record 'f SessionManager =
  heap :: "'f DataPlaneSession list"
  seid_map :: "(u64 \<times> ref) list"
  ul_teid_map :: "(u32 \<times> ref) list"
  ue_ip_map :: "(u32 \<times> ref) list"
  next_teid :: u64
  next_seid :: u64

definition manager_new :: "'f SessionManager" where
  "manager_new = \<lparr>heap = [], seid_map = [], ul_teid_map = [], ue_ip_map = [], next_teid = 1, next_seid = 1\<rparr>"

definition allocate_teid :: "'f SessionManager \<Rightarrow> u32 \<times> 'f SessionManager" where
  "allocate_teid m = (ucast (next_teid m), m\<lparr>next_teid := next_teid m + 1\<rparr>)"

definition allocate_seid :: "'f SessionManager \<Rightarrow> u64 \<times> 'f SessionManager" where
  "allocate_seid m = (next_seid m, m\<lparr>next_seid := next_seid m + 1\<rparr>)"

definition add_session :: "'f DataPlaneSession \<Rightarrow> 'f SessionManager \<Rightarrow> ref \<times> 'f SessionManager" where
  "add_session s m =
     (let r = length (heap m);
          m = m\<lparr>heap := heap m @ [s]\<rparr>;
          m = m\<lparr>seid_map := AList.update (upf_seid s) r (seid_map m)\<rparr>;
          m = m\<lparr>ul_teid_map := AList.update (ul_teid s) r (ul_teid_map m)\<rparr>;
          m = (case ue_ipv4 s of None \<Rightarrow> m | Some a \<Rightarrow> m\<lparr>ue_ip_map := AList.update a r (ue_ip_map m)\<rparr>)
      in (r, m))"

definition find_by_seid :: "u64 \<Rightarrow> 'f SessionManager \<Rightarrow> ref option" where
  "find_by_seid k m = map_of (seid_map m) k"

definition find_by_ul_teid :: "u32 \<Rightarrow> 'f SessionManager \<Rightarrow> ref option" where
  "find_by_ul_teid k m = map_of (ul_teid_map m) k"

definition find_by_ue_ip :: "u32 \<Rightarrow> 'f SessionManager \<Rightarrow> ref option" where
  "find_by_ue_ip k m = map_of (ue_ip_map m) k"

text \<open>\<^verbatim>\<open>update_session_dl\<close> only logs; it changes nothing.\<close>

definition update_session_dl :: "u64 \<Rightarrow> u32 \<Rightarrow> SocketAddr \<Rightarrow> 'f SessionManager \<Rightarrow> bool" where
  "update_session_dl k t a m = (find_by_seid k m \<noteq> None)"

definition remove_session_by_seid :: "u64 \<Rightarrow> 'f SessionManager \<Rightarrow> bool \<times> 'f SessionManager" where
  "remove_session_by_seid k m =
     (case map_of (seid_map m) k of
        None \<Rightarrow> (False, m)
      | Some r \<Rightarrow>
          let sess = heap m ! r;
              m = m\<lparr>seid_map := AList.delete k (seid_map m)\<rparr>;
              m = m\<lparr>ul_teid_map := AList.delete (ul_teid sess) (ul_teid_map m)\<rparr>;
              m = (case ue_ipv4 sess of None \<Rightarrow> m | Some a \<Rightarrow> m\<lparr>ue_ip_map := AList.delete a (ue_ip_map m)\<rparr>)
          in (True, m))"

definition remove_session :: "u32 \<Rightarrow> 'f SessionManager \<Rightarrow> 'f SessionManager" where
  "remove_session k m =
     (case map_of (ul_teid_map m) k of
        None \<Rightarrow> m
      | Some r \<Rightarrow>
          let sess = heap m ! r;
              m = m\<lparr>ul_teid_map := AList.delete k (ul_teid_map m)\<rparr>;
              m = m\<lparr>seid_map := AList.delete (upf_seid sess) (seid_map m)\<rparr>
          in case ue_ipv4 sess of None \<Rightarrow> m | Some a \<Rightarrow> m\<lparr>ue_ip_map := AList.delete a (ue_ip_map m)\<rparr>)"

definition session_count :: "'f SessionManager \<Rightarrow> nat" where
  "session_count m = length (seid_map m)"

definition get_all_session_stats :: "'f SessionManager \<Rightarrow> (u64 \<times> u32 option \<times> u64 \<times> u64 \<times> u64 \<times> u64) list" where
  "get_all_session_stats m =
     map (\<lambda>(_, r). let s = heap m ! r in (upf_seid s, ue_ipv4 s, ul_packets s, dl_packets s, ul_bytes s, dl_bytes s)) (seid_map m)"

section \<open>GTP-U path management\<close>

record GtpuPeerState =
  last_recovery :: "u8 option"
  pending_seq :: "u16 option"
  miss_count :: u32
  last_success :: "nat option"
  path_failed :: bool

definition peer_default :: GtpuPeerState where
  "peer_default = \<lparr>last_recovery = None, pending_seq = None, miss_count = 0, last_success = None, path_failed = False\<rparr>"

record GtpuPathTable =
  peers :: "(SocketAddr \<times> GtpuPeerState) list"
  next_seq :: u16
  restart_counter :: u8
  miss_threshold :: u32
  echo_interval_secs :: u64
  enabled :: bool

definition path_table_default :: GtpuPathTable where
  "path_table_default =
     \<lparr>peers = [], next_seq = 1, restart_counter = 0, miss_threshold = 3, echo_interval_secs = 60, enabled = True\<rparr>"

definition add_peer :: "SocketAddr \<Rightarrow> GtpuPathTable \<Rightarrow> GtpuPathTable" where
  "add_peer p t = (case map_of (peers t) p of None \<Rightarrow> t\<lparr>peers := peers t @ [(p, peer_default)]\<rparr> | Some _ \<Rightarrow> t)"

definition remove_peer :: "SocketAddr \<Rightarrow> GtpuPathTable \<Rightarrow> GtpuPathTable" where
  "remove_peer p t = t\<lparr>peers := AList.delete p (peers t)\<rparr>"

definition on_echo_response :: "nat \<Rightarrow> SocketAddr \<Rightarrow> u8 \<Rightarrow> GtpuPathTable \<Rightarrow> bool \<times> GtpuPathTable" where
  "on_echo_response now p recovery t =
     (let state = (case map_of (peers t) p of None \<Rightarrow> peer_default | Some s \<Rightarrow> s);
          state = state\<lparr>pending_seq := None, miss_count := 0, last_success := Some now, path_failed := False\<rparr>;
          (restarted, state) =
            (case last_recovery state of
               Some prev \<Rightarrow> if prev \<noteq> recovery then (True, state\<lparr>last_recovery := Some recovery\<rparr>) else (False, state)
             | None \<Rightarrow> (False, state\<lparr>last_recovery := Some recovery\<rparr>))
      in (restarted, t\<lparr>peers := AList.update p state (peers t)\<rparr>))"

text \<open>One peer of the loop of \<^verbatim>\<open>tick\<close>: the new sequence counter, the new state, what to send and whether it failed.\<close>

definition tick_peer :: "u32 \<Rightarrow> u16 \<Rightarrow> GtpuPeerState \<Rightarrow> u16 \<times> GtpuPeerState \<times> u16 option \<times> bool" where
  "tick_peer threshold seq state =
     (if path_failed state then (seq, state, None, False)
      else
        let state = (if pending_seq state \<noteq> None then state\<lparr>miss_count := miss_count state + 1\<rparr> else state)
        in if pending_seq state \<noteq> None \<and> miss_count state \<ge> threshold
           then (seq, state\<lparr>path_failed := True\<rparr>, None, True)
           else
             let nxt = (if seq + 1 = 0 then 1 else seq + 1)
             in (nxt, state\<lparr>pending_seq := Some seq\<rparr>, Some seq, False))"

fun tick_loop :: "u32 \<Rightarrow> u16 \<Rightarrow> (SocketAddr \<times> GtpuPeerState) list \<Rightarrow>
    u16 \<times> (SocketAddr \<times> GtpuPeerState) list \<times> (SocketAddr \<times> u16) list \<times> SocketAddr list" where
  "tick_loop threshold seq [] = (seq, [], [], [])"
| "tick_loop threshold seq ((p, state) # ps) =
     (let (seq, state, request, newly_failed) = tick_peer threshold seq state;
          (seq, ps, to_send, failed) = tick_loop threshold seq ps
      in (seq, (p, state) # ps, (case request of None \<Rightarrow> to_send | Some q \<Rightarrow> (p, q) # to_send),
          (if newly_failed then p # failed else failed)))"

definition tick :: "GtpuPathTable \<Rightarrow> ((SocketAddr \<times> u16) list \<times> SocketAddr list) \<times> GtpuPathTable" where
  "tick t =
     (let (seq, ps, to_send, failed) = tick_loop (miss_threshold t) (next_seq t) (peers t)
      in ((to_send, failed), t\<lparr>next_seq := seq, peers := ps\<rparr>))"

definition peer_count :: "GtpuPathTable \<Rightarrow> nat" where
  "peer_count t = length (peers t)"

section \<open>The data plane\<close>

datatype UpfReportEvent =
    DownlinkDataReport (ev_upf_seid: u64) (ev_smf_seid: u64) (ev_pdr_id: u16) (ev_qfi: "u8 option")
  | ErrorIndicationReport (ev_upf_seid: u64) (ev_smf_seid: u64) (ev_remote_teid: u32) (ev_peer_ipv4: "u32 option")

record DataPlaneStats =
  st_ul_packets :: u64
  st_dl_packets :: u64
  st_ul_bytes :: u64
  st_dl_bytes :: u64
  dropped_packets :: u64
  spoofed_packets :: u64
  oversize_packets :: u64

definition stats_default :: DataPlaneStats where
  "stats_default =
     \<lparr>st_ul_packets = 0, st_dl_packets = 0, st_ul_bytes = 0, st_dl_bytes = 0, dropped_packets = 0,
      spoofed_packets = 0, oversize_packets = 0\<rparr>"

text \<open>The report channel is the list of queued events with its capacity.\<close>

record 'f DataPlane =
  gtpu_socket :: bool
  sessions :: "'f SessionManager"
  stats :: DataPlaneStats
  report_tx :: "(UpfReportEvent list \<times> nat) option"
  local_gtpu_addr :: u32
  gtpu_tos :: u64
  path_table :: GtpuPathTable

datatype effect =
    TunWrite bytes
  | SendTo bytes SocketAddr
  | SetIpTos u64

text \<open>What the operating system answers: the clock, and the success of the calls of a handler in their order.\<close>

record os_answers =
  now :: nat
  tun_write_ok :: bool
  send_ok :: "nat \<Rightarrow> bool"
  set_tos_ok :: bool

definition TUN_MTU :: nat where "TUN_MTU = 1400"
definition GTPU_TOS_UNSET :: u64 where "GTPU_TOS_UNSET = - 1"

definition data_plane_new :: "'f DataPlane" where
  "data_plane_new =
     \<lparr>gtpu_socket = False, sessions = manager_new, stats = stats_default, report_tx = None, local_gtpu_addr = 0,
      gtpu_tos = GTPU_TOS_UNSET, path_table = path_table_default\<rparr>"

definition set_report_channel :: "nat \<Rightarrow> 'f DataPlane \<Rightarrow> 'f DataPlane" where
  "set_report_channel capacity d = d\<lparr>report_tx := Some ([], capacity)\<rparr>"

definition send_report_event :: "UpfReportEvent \<Rightarrow> 'f DataPlane \<Rightarrow> 'f DataPlane" where
  "send_report_event ev d =
     (case report_tx d of
        None \<Rightarrow> d
      | Some (queued, capacity) \<Rightarrow>
          if length queued < capacity then d\<lparr>report_tx := Some (queued @ [ev], capacity)\<rparr> else d)"

definition set_gtpu_outer_tos :: "bool \<Rightarrow> u8 \<Rightarrow> 'f DataPlane \<Rightarrow> bool \<times> effect list \<times> 'f DataPlane" where
  "set_gtpu_outer_tos ok d8 d =
     (let tos = (ucast (push_bit 2 (d8 AND 0x3F)) :: u64)
      in if gtpu_tos d = tos then (True, [], d)
         else if \<not> gtpu_socket d then (False, [], d)
         else if \<not> ok then (False, [SetIpTos tos], d)
         else (True, [SetIpTos tos], d\<lparr>gtpu_tos := tos\<rparr>))"

definition count_dropped :: "'f DataPlane \<Rightarrow> 'f DataPlane" where
  "count_dropped d = d\<lparr>stats := (stats d)\<lparr>dropped_packets := dropped_packets (stats d) + 1\<rparr>\<rparr>"

definition put_session :: "ref \<Rightarrow> 'f DataPlaneSession \<Rightarrow> 'f DataPlane \<Rightarrow> 'f DataPlane" where
  "put_session r s d = d\<lparr>sessions := (sessions d)\<lparr>heap := (heap (sessions d))[r := s]\<rparr>\<rparr>"

definition get_session :: "ref \<Rightarrow> 'f DataPlane \<Rightarrow> 'f DataPlaneSession" where
  "get_session r d = heap (sessions d) ! r"

section \<open>Uplink\<close>

definition ipv4_src_addr :: "bytes \<Rightarrow> u32" where
  "ipv4_src_addr p = from_be32 (p ! 12) (p ! 13) (p ! 14) (p ! 15)"

definition ipv4_dst_addr :: "bytes \<Rightarrow> u32" where
  "ipv4_dst_addr p = from_be32 (p ! 16) (p ! 17) (p ! 18) (p ! 19)"

definition find_uplink_session :: "u32 \<Rightarrow> bytes \<Rightarrow> 'f SessionManager \<Rightarrow> ref option" where
  "find_uplink_session t p m =
     (case find_by_ul_teid t m of
        Some r \<Rightarrow> Some r
      | None \<Rightarrow>
          if length p \<ge> 20
          then if drop_bit 4 (p ! 0) AND 0x0F = 4 then find_by_ue_ip (ipv4_src_addr p) m else None
          else None)"

definition spoofed :: "bytes \<Rightarrow> 'f DataPlaneSession \<Rightarrow> bool" where
  "spoofed p s =
     (case ue_ipv4 s of
        None \<Rightarrow> False
      | Some ue \<Rightarrow> length p \<ge> 20 \<and> drop_bit 4 (p ! 0) = 4 \<and> ipv4_src_addr p \<noteq> ue)"

text \<open>The QER part of a handler: the gate and the rate, then the marking of the QER.\<close>

definition enforce_qer :: "'f f64_ops \<Rightarrow> nat \<Rightarrow> u32 option \<Rightarrow> bool \<Rightarrow> u64 \<Rightarrow> 'f DataPlaneSession \<Rightarrow>
    bool \<times> u8 option \<times> u8 option \<times> 'f DataPlaneSession" where
  "enforce_qer F t qer is_uplink n s =
     (case qer of
        None \<Rightarrow> (True, None, None, s)
      | Some q \<Rightarrow>
          let (ok, s) = check_qer_gate F t q is_uplink n s
          in if \<not> ok then (False, None, None, s)
             else case map_of (qers s) q of
                    None \<Rightarrow> (True, None, None, s)
                  | Some x \<Rightarrow> (True, (if dscp x \<noteq> 0 then Some (dscp x) else None), qer_qfi x, s))"

definition record_usage :: "nat \<Rightarrow> u32 list \<Rightarrow> u64 \<Rightarrow> bool \<Rightarrow> 'f DataPlaneSession \<Rightarrow> 'f DataPlaneSession" where
  "record_usage t ids n is_uplink s = (if ids \<noteq> [] then snd (record_urrs t ids n is_uplink s) else s)"

definition count_ul :: "ref \<Rightarrow> u64 \<Rightarrow> 'f DataPlane \<Rightarrow> 'f DataPlane" where
  "count_ul r n d =
     (let s = get_session r d;
          d = put_session r (s\<lparr>ul_packets := ul_packets s + 1, ul_bytes := ul_bytes s + n\<rparr>) d
      in d\<lparr>stats := (stats d)\<lparr>st_ul_packets := st_ul_packets (stats d) + 1, st_ul_bytes := st_ul_bytes (stats d) + n\<rparr>\<rparr>)"

definition count_dl :: "ref \<Rightarrow> u64 \<Rightarrow> 'f DataPlane \<Rightarrow> 'f DataPlane" where
  "count_dl r n d =
     (let s = get_session r d;
          d = put_session r (s\<lparr>dl_packets := dl_packets s + 1, dl_bytes := dl_bytes s + n\<rparr>) d
      in d\<lparr>stats := (stats d)\<lparr>st_dl_packets := st_dl_packets (stats d) + 1, st_dl_bytes := st_dl_bytes (stats d) + n\<rparr>\<rparr>)"

definition count_spoofed :: "'f DataPlane \<Rightarrow> 'f DataPlane" where
  "count_spoofed d = count_dropped (d\<lparr>stats := (stats d)\<lparr>spoofed_packets := spoofed_packets (stats d) + 1\<rparr>\<rparr>)"

definition count_oversize :: "'f DataPlane \<Rightarrow> 'f DataPlane" where
  "count_oversize d = count_dropped (d\<lparr>stats := (stats d)\<lparr>oversize_packets := oversize_packets (stats d) + 1\<rparr>\<rparr>)"

definition not_forwarded :: "u32 option \<Rightarrow> 'f DataPlaneSession \<Rightarrow> bool" where
  "not_forwarded far s =
     (case far of None \<Rightarrow> False | Some f \<Rightarrow> (case apply_far f s of Forward _ _ \<Rightarrow> False | DropPacket \<Rightarrow> True | Buffer _ _ \<Rightarrow> True))"

definition marked_payload :: "u8 option \<Rightarrow> bytes \<Rightarrow> (unit, bytes) outcome" where
  "marked_payload d8 p =
     (case d8 of None \<Rightarrow> Ok p | Some x \<Rightarrow> obind (apply_dscp_to_ip_packet x p) (\<lambda>(_, p). Ok p))"

definition uplink_in_session :: "'f f64_ops \<Rightarrow> os_answers \<Rightarrow> bytes \<Rightarrow> bytes \<Rightarrow> ref \<Rightarrow> 'f DataPlane \<Rightarrow>
    (unit, effect list \<times> 'f DataPlane) outcome" where
  "uplink_in_session F os pkt p r d =
     (let s = get_session r d; n = (of_nat (length p) :: u64)
      in if spoofed p s then Ok ([], count_spoofed d)
         else case match_pdr_with_packet SRC_INTF_ACCESS (from_ipv4_packet p) (extract_qfi_from_gtp_header pkt) s of
                None \<Rightarrow> Ok ([], count_dropped d)
              | Some (far, qer, urr_ids, _) \<Rightarrow>
                  let (ok, d8, _, s) = enforce_qer F (now os) qer True n s;
                      d = put_session r s d
                  in if \<not> ok then Ok ([], count_dropped d)
                     else if not_forwarded far s then Ok ([], count_dropped d)
                     else
                       let d = put_session r (record_usage (now os) urr_ids n True s) d
                       in if n > of_nat TUN_MTU then Ok ([], count_oversize d)
                          else obind (marked_payload d8 p) (\<lambda>p.
                            if tun_write_ok os then Ok ([TunWrite p], count_ul r n d)
                            else Ok ([TunWrite p], count_dropped d)))"

definition uplink_gpdu :: "'f f64_ops \<Rightarrow> os_answers \<Rightarrow> bytes \<Rightarrow> SocketAddr \<Rightarrow> GtpuHeaderDesc \<Rightarrow> 'f DataPlane \<Rightarrow>
    (unit, effect list \<times> 'f DataPlane) outcome" where
  "uplink_gpdu F os pkt from header d =
     (if length pkt \<le> gh_header_len header then Ok ([], count_dropped d)
      else
        let p = drop (gh_header_len header) pkt
        in case find_uplink_session (gh_teid header) p (sessions d) of
             None \<Rightarrow>
               Ok (if gh_teid header \<noteq> 0 \<and> gtpu_socket d
                   then [SendTo (build_gtpu_error_indication (gh_teid header) (local_gtpu_addr d)) from] else [],
                   count_dropped d)
           | Some r \<Rightarrow> uplink_in_session F os pkt p r d)"

definition uplink_error_indication :: "bytes \<Rightarrow> GtpuHeaderDesc \<Rightarrow> 'f DataPlane \<Rightarrow> 'f DataPlane" where
  "uplink_error_indication pkt header d =
     (if length pkt > gh_header_len header
      then case parse_gtpu_error_indication (drop (gh_header_len header) pkt) of
             None \<Rightarrow> d
           | Some (t, peer) \<Rightarrow>
               (case List.find (\<lambda>s. dl_teid s = t) (map (\<lambda>(_, r). get_session r d) (seid_map (sessions d))) of
                  None \<Rightarrow> d
                | Some sess \<Rightarrow> send_report_event (ErrorIndicationReport (upf_seid sess) (smf_seid sess) t peer) d)
      else d)"

definition uplink_echo_response :: "nat \<Rightarrow> bytes \<Rightarrow> SocketAddr \<Rightarrow> GtpuHeaderDesc \<Rightarrow> 'f DataPlane \<Rightarrow> 'f DataPlane" where
  "uplink_echo_response t pkt from header d =
     (let recovery =
            (if length pkt > gh_header_len header then parse_gtpu_recovery_ie (drop (gh_header_len header) pkt) else None);
          counter = (case recovery of None \<Rightarrow> 0 | Some c \<Rightarrow> c)
      in d\<lparr>path_table := snd (on_echo_response t from counter (path_table d))\<rparr>)"

definition handle_uplink_packet :: "'f f64_ops \<Rightarrow> os_answers \<Rightarrow> bytes \<Rightarrow> SocketAddr \<Rightarrow> 'f DataPlane \<Rightarrow>
    (unit, effect list \<times> 'f DataPlane) outcome" where
  "handle_uplink_packet F os pkt from d =
     (case parse_gtpu_header pkt of
        Err e \<Rightarrow> Ok ([], count_dropped d)
      | Panic \<Rightarrow> Panic
      | Ok header \<Rightarrow>
          if gh_msg_type header = ECHO_REQUEST
          then Ok (if gtpu_socket d then [SendTo (build_gtpu_echo_response (gh_seq_num header)) from] else [], d)
          else if gh_msg_type header = ERROR_INDICATION then Ok ([], uplink_error_indication pkt header d)
          else if gh_msg_type header = ECHO_RESPONSE then Ok ([], uplink_echo_response (now os) pkt from header d)
          else if gh_msg_type header = END_MARKER then Ok ([], d)
          else if gh_msg_type header = GPDU then uplink_gpdu F os pkt from header d
          else Ok ([], d))"

section \<open>Downlink\<close>

definition downlink_destination :: "u32 option \<Rightarrow> u32 option \<Rightarrow> 'f DataPlaneSession \<Rightarrow> u32 \<times> SocketAddr" where
  "downlink_destination ot oa s =
     (case ot of None \<Rightarrow> dl_teid s | Some t \<Rightarrow> t,
      case oa of None \<Rightarrow> gnb_addr s | Some a \<Rightarrow> \<lparr>sock_ip = V4 a, sock_port = GTPU_PORT\<rparr>)"

definition downlink_forward :: "os_answers \<Rightarrow> bytes \<Rightarrow> ref \<Rightarrow> u32 list \<Rightarrow> u8 option \<Rightarrow> u8 option \<Rightarrow> u32 \<times> SocketAddr \<Rightarrow>
    'f DataPlane \<Rightarrow> effect list \<times> 'f DataPlane" where
  "downlink_forward os pkt r urr_ids d8 q dest d =
     (let n = (of_nat (length pkt) :: u64);
          (t, a) = dest;
          d = put_session r (record_usage (now os) urr_ids n False (get_session r d)) d;
          (_, tos_effects, d) = set_gtpu_outer_tos (set_tos_ok os) (case d8 of Some x \<Rightarrow> x | None \<Rightarrow> 0) d;
          frame = encapsulate_dl_gpdu pkt t q
      in (tos_effects @ [SendTo frame a], if send_ok os 0 then count_dl r n d else count_dropped d))"

definition downlink_buffer :: "bytes \<Rightarrow> ref \<Rightarrow> u32 \<Rightarrow> bool \<Rightarrow> u8 option \<Rightarrow> u8 option \<Rightarrow> 'f DataPlane \<Rightarrow> 'f DataPlane" where
  "downlink_buffer pkt r fid nocp b q d =
     (let ((buffered, first), s) = buffer_dl_packet pkt b (get_session r d);
          d = put_session r s d
      in if \<not> buffered then count_dropped d
         else if first \<and> nocp
         then send_report_event
                (DownlinkDataReport (upf_seid s) (smf_seid s)
                   (case List.find (\<lambda>p. source_interface p = SRC_INTF_CORE \<and> pdr_far_id p = Some fid) (pdrs s) of
                      None \<Rightarrow> 0 | Some p \<Rightarrow> pdr_id p) q) d
         else d)"

definition downlink_in_session :: "'f f64_ops \<Rightarrow> os_answers \<Rightarrow> bytes \<Rightarrow> ref \<Rightarrow> 'f DataPlane \<Rightarrow> effect list \<times> 'f DataPlane" where
  "downlink_in_session F os pkt r d =
     (let s = get_session r d; n = (of_nat (length pkt) :: u64);
          tuple = (if drop_bit 4 (pkt ! 0) AND 0x0F = 4 then from_ipv4_packet pkt else None)
      in case match_pdr_with_packet SRC_INTF_CORE tuple None s of
           None \<Rightarrow> ([], count_dropped d)
         | Some (far, qer, urr_ids, _) \<Rightarrow>
             let (ok, d8, q, s) = enforce_qer F (now os) qer False n s;
                 d = put_session r s d
             in if \<not> ok then ([], count_dropped d)
                else
                  let q = (case q of None \<Rightarrow> sess_qfi s | Some x \<Rightarrow> Some x)
                  in case far of
                       None \<Rightarrow> downlink_forward os pkt r urr_ids d8 q (dl_teid s, gnb_addr s) d
                     | Some fid \<Rightarrow>
                         (case apply_far fid s of
                            Forward ot oa \<Rightarrow> downlink_forward os pkt r urr_ids d8 q (downlink_destination ot oa s) d
                          | DropPacket \<Rightarrow> ([], count_dropped d)
                          | Buffer nocp b \<Rightarrow> ([], downlink_buffer pkt r fid nocp b q d)))"

definition handle_downlink_packet :: "'f f64_ops \<Rightarrow> os_answers \<Rightarrow> bytes \<Rightarrow> 'f DataPlane \<Rightarrow> effect list \<times> 'f DataPlane" where
  "handle_downlink_packet F os pkt d =
     (if pkt = [] then ([], d)
      else if (of_nat (length pkt) :: u64) > of_nat TUN_MTU then ([], count_oversize d)
      else
        let dst = (if drop_bit 4 (pkt ! 0) AND 0x0F = 4 \<and> length pkt \<ge> 20 then Some (ipv4_dst_addr pkt) else None)
        in case Option.bind dst (\<lambda>a. find_by_ue_ip a (sessions d)) of
             None \<Rightarrow> ([], count_dropped d)
           | Some r \<Rightarrow> downlink_in_session F os pkt r d)"

section \<open>Flushing, end markers\<close>

text \<open>The send loop of \<^verbatim>\<open>flush_buffered_dl\<close>; \<open>k\<close> numbers the sends.\<close>

fun flush_loop :: "os_answers \<Rightarrow> nat \<Rightarrow> bytes list \<Rightarrow> ref \<Rightarrow> u32 \<Rightarrow> SocketAddr \<Rightarrow> u8 option \<Rightarrow> 'f DataPlane \<Rightarrow>
    nat \<times> effect list \<times> 'f DataPlane" where
  "flush_loop os k [] r t a q d = (0, [], d)"
| "flush_loop os k (pkt # pkts) r t a q d =
     (let frame = encapsulate_dl_gpdu pkt t q;
          d = (if send_ok os k then count_dl r (of_nat (length pkt)) d else count_dropped d);
          (sent, effects, d) = flush_loop os (Suc k) pkts r t a q d
      in (if send_ok os k then Suc sent else sent, SendTo frame a # effects, d))"

definition flush_buffered_dl :: "os_answers \<Rightarrow> u64 \<Rightarrow> 'f DataPlane \<Rightarrow> nat \<times> effect list \<times> 'f DataPlane" where
  "flush_buffered_dl os k d =
     (case find_by_seid k (sessions d) of
        None \<Rightarrow> (0, [], d)
      | Some r \<Rightarrow>
          (case List.find (\<lambda>f. destination_interface f = SRC_INTF_ACCESS \<and> apply_action f AND FAR_ACTION_FORW \<noteq> 0)
                 (map snd (fars (get_session r d))) of
             None \<Rightarrow> (0, [], d)
           | Some f \<Rightarrow>
               let (pkts, s) = drain_dl_buffer (get_session r d);
                   d = put_session r s d
               in if pkts = [] then (0, [], d)
                  else if \<not> gtpu_socket d then (0, [], d)
                  else let (t, a) = downlink_destination (ohc_teid f) (ohc_addr f) s
                       in flush_loop os 0 pkts r t a (sess_qfi s) d))"

definition send_end_marker :: "u32 \<Rightarrow> SocketAddr \<Rightarrow> 'f DataPlane \<Rightarrow> effect list" where
  "send_end_marker old_teid old_addr d =
     (if gtpu_socket d then [SendTo (build_gtpu_end_marker old_teid) old_addr] else [])"

section \<open>Sessions from PFCP\<close>

definition default_pdr :: "u16 \<Rightarrow> u8 \<Rightarrow> u32 \<Rightarrow> u8 option \<Rightarrow> DataPlanePdr" where
  "default_pdr i intf far ohr =
     \<lparr>pdr_id = i, precedence = 100, source_interface = intf, pdr_far_id = Some far, pdr_qer_id = None, pdr_urr_ids = [],
      outer_header_removal = ohr, sdf_rule = None, pdr_qfi = None\<rparr>"

definition add_session_from_pfcp ::
  "u64 \<Rightarrow> u64 \<Rightarrow> u32 \<Rightarrow> u32 \<Rightarrow> u32 \<Rightarrow> SocketAddr \<Rightarrow> u8 option \<Rightarrow> u8 option \<Rightarrow> 'f DataPlane \<Rightarrow> 'f DataPlane" where
  "add_session_from_pfcp us ss ue ult dlt gnb pid q d =
     (let ps = sort_key precedence
                 [default_pdr 1 SRC_INTF_ACCESS 1 (Some 0), default_pdr 2 SRC_INTF_CORE 2 None];
          fs = [(1, \<lparr>far_id = 1, apply_action = FAR_ACTION_FORW, destination_interface = SRC_INTF_CORE,
                     ohc_teid = None, ohc_addr = None, far_bar_id = None\<rparr>),
                (2, \<lparr>far_id = 2, apply_action = FAR_ACTION_FORW, destination_interface = SRC_INTF_ACCESS,
                     ohc_teid = Some dlt, ohc_addr = (case sock_ip gnb of V4 a \<Rightarrow> Some a | _ \<Rightarrow> None),
                     far_bar_id = None\<rparr>)];
          s = (session_new_empty us ss (Some ue) ult dlt gnb pid q)\<lparr>pdrs := ps, fars := fs\<rparr>
      in d\<lparr>sessions := snd (add_session s (sessions d))\<rparr>)"

definition redirect_far :: "u32 option \<Rightarrow> SocketAddr option \<Rightarrow> DataPlaneFar \<Rightarrow> DataPlaneFar" where
  "redirect_far t g f =
     (if destination_interface f = SRC_INTF_ACCESS
      then let f = (case t of Some x \<Rightarrow> f\<lparr>ohc_teid := Some x\<rparr> | None \<Rightarrow> f)
           in case g of
                Some x \<Rightarrow> (case sock_ip x of V4 a \<Rightarrow> f\<lparr>ohc_addr := Some a\<rparr> | V6 _ \<Rightarrow> f)
              | None \<Rightarrow> f
      else f)"

definition update_session_from_pfcp :: "u64 \<Rightarrow> u32 option \<Rightarrow> SocketAddr option \<Rightarrow> 'f DataPlane \<Rightarrow> 'f DataPlane" where
  "update_session_from_pfcp k t g d =
     (case find_by_seid k (sessions d) of
        None \<Rightarrow> d
      | Some r \<Rightarrow>
          let s = get_session r d;
              new_dl_teid = (case t of None \<Rightarrow> dl_teid s | Some x \<Rightarrow> x);
              new_gnb_addr = (case g of None \<Rightarrow> gnb_addr s | Some x \<Rightarrow> x);
              s = (if t \<noteq> None \<or> g \<noteq> None then s\<lparr>fars := map (\<lambda>(i, f). (i, redirect_far t g f)) (fars s)\<rparr> else s);
              d = put_session r (s\<lparr>pdrs := [], fars := [], qers := [], urrs := [], bars := [], dl_buffer := []\<rparr>) d;
              m = snd (remove_session_by_seid k (sessions d));
              new = (session_new_empty (upf_seid s) (smf_seid s) (ue_ipv4 s) (ul_teid s) new_dl_teid new_gnb_addr
                       (pdu_session_id s) (sess_qfi s))
                      \<lparr>ul_packets := ul_packets s, dl_packets := dl_packets s, ul_bytes := ul_bytes s, dl_bytes := dl_bytes s,
                       pdrs := pdrs s, fars := fars s, qers := qers s, urrs := urrs s, bars := bars s,
                       dl_buffer := dl_buffer s, ddn_sent := ddn_sent s\<rparr>
          in d\<lparr>sessions := snd (add_session new m)\<rparr>)"

definition remove_session_from_pfcp :: "u64 \<Rightarrow> 'f DataPlane \<Rightarrow> 'f DataPlane" where
  "remove_session_from_pfcp k d = d\<lparr>sessions := snd (remove_session_by_seid k (sessions d))\<rparr>"

definition get_session_stats :: "u64 \<Rightarrow> 'f DataPlane \<Rightarrow> (u64 \<times> u64 \<times> u64 \<times> u64) option" where
  "get_session_stats k d =
     map_option (\<lambda>r. let s = get_session r d in (ul_packets s, dl_packets s, ul_bytes s, dl_bytes s))
       (find_by_seid k (sessions d))"

section \<open>Usage reports\<close>

record UrrReportEntry =
  re_upf_seid :: u64
  re_smf_seid :: u64
  re_urr_id :: u32
  re_ur_seqn :: u32
  total_bytes :: u64
  re_ul_bytes :: u64
  re_dl_bytes :: u64
  total_pkts :: u64
  ul_pkts :: u64
  dl_pkts :: u64

definition report_urr :: "nat \<Rightarrow> u64 \<Rightarrow> u64 \<Rightarrow> u32 \<Rightarrow> DataPlaneUrr \<Rightarrow> UrrReportEntry \<times> DataPlaneUrr" where
  "report_urr t us ss i u =
     (let (seqn, u) = next_ur_seqn u
      in (\<lparr>re_upf_seid = us, re_smf_seid = ss, re_urr_id = i, re_ur_seqn = seqn, total_bytes = acc_total_bytes u,
           re_ul_bytes = acc_ul_bytes u, re_dl_bytes = acc_dl_bytes u, total_pkts = acc_total_pkts u,
           ul_pkts = acc_ul_pkts u, dl_pkts = acc_dl_pkts u\<rparr>, reset_counters t u))"

definition period_due :: "nat \<Rightarrow> DataPlaneUrr \<Rightarrow> bool" where
  "period_due t u =
     (case (measurement_period_secs u, last_report_time u) of
        (Some period, Some t0) \<Rightarrow> elapsed_secs t t0 \<ge> unat period \<and> acc_total_bytes u > 0
      | _ \<Rightarrow> False)"

fun report_loop :: "nat \<Rightarrow> u64 \<Rightarrow> u64 \<Rightarrow> (u32 \<times> DataPlaneUrr) list \<Rightarrow> UrrReportEntry list \<times> (u32 \<times> DataPlaneUrr) list" where
  "report_loop t us ss [] = ([], [])"
| "report_loop t us ss ((i, u) # rest) =
     (let (entries, rest) = report_loop t us ss rest
      in if threshold_exceeded u then let (e, u) = report_urr t us ss i u in (e # entries, (i, u) # rest)
         else (entries, (i, u) # rest))"

text \<open>
  One session of \<^verbatim>\<open>collect_urr_reports\<close>: first the exceeded thresholds, then the measurement periods. The second loop
  holds the read guard of \<^verbatim>\<open>last_report_time\<close> when it calls \<^verbatim>\<open>reset_counters\<close>, which asks for the write guard of the
  same lock: the call does not return (the lock deadlocks or panics), which is \<open>Panic\<close> here.
\<close>

definition collect_session :: "nat \<Rightarrow> 'f DataPlaneSession \<Rightarrow> (unit, UrrReportEntry list \<times> 'f DataPlaneSession) outcome" where
  "collect_session t s =
     (let (entries, us) = report_loop t (upf_seid s) (smf_seid s) (urrs s)
      in if \<exists>(_, u) \<in> set us. \<not> threshold_exceeded u \<and> period_due t u then Panic
         else Ok (entries, s\<lparr>urrs := us\<rparr>))"

fun collect_loop :: "nat \<Rightarrow> ref list \<Rightarrow> 'f DataPlane \<Rightarrow> (unit, UrrReportEntry list \<times> 'f DataPlane) outcome" where
  "collect_loop t [] d = Ok ([], d)"
| "collect_loop t (r # rs) d =
     obind (collect_session t (get_session r d)) (\<lambda>(es, s).
     obind (collect_loop t rs (put_session r s d)) (\<lambda>(es', d). Ok (es @ es', d)))"

definition collect_urr_reports :: "nat \<Rightarrow> 'f DataPlane \<Rightarrow> (unit, UrrReportEntry list \<times> 'f DataPlane) outcome" where
  "collect_urr_reports t d = collect_loop t (map snd (seid_map (sessions d))) d"

section \<open>A round of path management\<close>

definition active_peers :: "'f DataPlane \<Rightarrow> SocketAddr list" where
  "active_peers d = remdups (map (\<lambda>(_, r). gnb_addr (get_session r d)) (seid_map (sessions d)))"

text \<open>The body of the loop of \<^verbatim>\<open>run_path_management\<close> after its timer has fired.\<close>

definition path_management_round :: "'f DataPlane \<Rightarrow> (effect list \<times> SocketAddr list) \<times> 'f DataPlane" where
  "path_management_round d =
     (if active_peers d = [] then (([], []), d)
      else
        let t = fold add_peer (active_peers d) (path_table d);
            ((to_send, failed), t) = tick t
        in ((if gtpu_socket d
             then map (\<lambda>(p, q). SendTo (build_gtpu_echo_request q (restart_counter t)) p) to_send else [], failed),
            d\<lparr>path_table := t\<rparr>))"

end
