(* ===== verification/Upf_N4.thy ===== *)
theory Upf_N4
  imports Pfcp_Header
begin

text \<open>
  PFCP on the UPF's side of N4 (\<^verbatim>\<open>bins/nextgcore-upfd/src/n4_build.rs\<close>): the builder of messages, the parsers of
  headers and information elements, and the parsed rules. A string is the list of its UTF-8 octets. Each index
  into a buffer stands behind the length check that the code makes before it, so that no slice panics.
\<close>

unbundle bit_operations_syntax

section \<open>Strings from the wire\<close>

text \<open>
  \<^verbatim>\<open>String::from_utf8_lossy\<close>: the longest prefix that is one character, or the octets of an ill-formed sequence
  that are replaced together by U+FFFD. A missing octet reads as 0, as in the library.
\<close>

type_synonym rust_string = bytes

definition octet_at :: "bytes \<Rightarrow> nat \<Rightarrow> u8" where
  "octet_at bs i = (if i < length bs then bs ! i else 0)"

definition is_continuation :: "u8 \<Rightarrow> bool" where
  "is_continuation b \<longleftrightarrow> b AND 192 = 128"

definition second_of_three :: "u8 \<Rightarrow> u8 \<Rightarrow> bool" where
  "second_of_three b c \<longleftrightarrow>
     b = 0xE0 \<and> 0xA0 \<le> c \<and> c \<le> 0xBF \<or> 0xE1 \<le> b \<and> b \<le> 0xEC \<and> 0x80 \<le> c \<and> c \<le> 0xBF \<or>
     b = 0xED \<and> 0x80 \<le> c \<and> c \<le> 0x9F \<or> 0xEE \<le> b \<and> b \<le> 0xEF \<and> 0x80 \<le> c \<and> c \<le> 0xBF"

definition second_of_four :: "u8 \<Rightarrow> u8 \<Rightarrow> bool" where
  "second_of_four b c \<longleftrightarrow>
     b = 0xF0 \<and> 0x90 \<le> c \<and> c \<le> 0xBF \<or> 0xF1 \<le> b \<and> b \<le> 0xF3 \<and> 0x80 \<le> c \<and> c \<le> 0xBF \<or>
     b = 0xF4 \<and> 0x80 \<le> c \<and> c \<le> 0x8F"

definition utf8_chunk :: "bytes \<Rightarrow> bool \<times> nat" where
  "utf8_chunk bs =
     (let b = octet_at bs 0; c1 = octet_at bs 1; c2 = octet_at bs 2; c3 = octet_at bs 3
      in if b < 128 then (True, 1)
         else if 0xC2 \<le> b \<and> b \<le> 0xDF then (if is_continuation c1 then (True, 2) else (False, 1))
         else if 0xE0 \<le> b \<and> b \<le> 0xEF
         then (if \<not> second_of_three b c1 then (False, 1) else if \<not> is_continuation c2 then (False, 2) else (True, 3))
         else if 0xF0 \<le> b \<and> b \<le> 0xF4
         then (if \<not> second_of_four b c1 then (False, 1) else if \<not> is_continuation c2 then (False, 2)
               else if \<not> is_continuation c3 then (False, 3) else (True, 4))
         else (False, 1))"

lemma utf8_chunk_pos: "0 < snd (utf8_chunk bs)"
  by (simp add: utf8_chunk_def Let_def)

function from_utf8_lossy :: "bytes \<Rightarrow> rust_string" where
  "from_utf8_lossy bs =
     (if bs = [] then []
      else let (ok, n) = utf8_chunk bs
           in (if ok then take n bs else [0xEF, 0xBF, 0xBD]) @ from_utf8_lossy (drop n bs))"
  by pat_completeness auto

termination
proof (relation "measure length")
  fix bs :: bytes and x ok n
  assume "bs \<noteq> []" "x = utf8_chunk bs" "(ok, n) = x"
  then have "0 < n" using utf8_chunk_pos by (metis snd_conv)
  then show "(drop n bs, bs) \<in> measure length" using \<open>bs \<noteq> []\<close> by simp
qed simp

declare from_utf8_lossy.simps [simp del]

section \<open>Message types, causes and element types\<close>

definition PDI :: u16 where "PDI = 2"
definition FORWARDING_PARAMETERS :: u16 where "FORWARDING_PARAMETERS = 4"
definition CREATED_PDR :: u16 where "CREATED_PDR = 8"
definition UPDATE_FORWARDING_PARAMETERS :: u16 where "UPDATE_FORWARDING_PARAMETERS = 11"
definition CAUSE :: u16 where "CAUSE = 19"
definition SOURCE_INTERFACE :: u16 where "SOURCE_INTERFACE = 20"
definition F_TEID :: u16 where "F_TEID = 21"
definition NETWORK_INSTANCE :: u16 where "NETWORK_INSTANCE = 22"
definition SDF_FILTER :: u16 where "SDF_FILTER = 23"
definition GATE_STATUS :: u16 where "GATE_STATUS = 25"
definition MBR :: u16 where "MBR = 26"
definition GBR :: u16 where "GBR = 27"
definition PRECEDENCE :: u16 where "PRECEDENCE = 29"
definition VOLUME_THRESHOLD :: u16 where "VOLUME_THRESHOLD = 31"
definition TIME_THRESHOLD :: u16 where "TIME_THRESHOLD = 32"
definition REPORTING_TRIGGERS :: u16 where "REPORTING_TRIGGERS = 37"
definition REPORT_TYPE :: u16 where "REPORT_TYPE = 39"
definition OFFENDING_IE :: u16 where "OFFENDING_IE = 40"
definition DESTINATION_INTERFACE :: u16 where "DESTINATION_INTERFACE = 42"
definition APPLY_ACTION :: u16 where "APPLY_ACTION = 44"
definition DOWNLINK_DATA_NOTIFICATION_DELAY :: u16 where "DOWNLINK_DATA_NOTIFICATION_DELAY = 46"
definition PFCPSMREQ_FLAGS :: u16 where "PFCPSMREQ_FLAGS = 49"
definition LOAD_CONTROL_INFORMATION :: u16 where "LOAD_CONTROL_INFORMATION = 51"
definition SEQUENCE_NUMBER :: u16 where "SEQUENCE_NUMBER = 52"
definition METRIC :: u16 where "METRIC = 53"
definition PDR_ID :: u16 where "PDR_ID = 56"
definition F_SEID :: u16 where "F_SEID = 57"
definition NODE_ID :: u16 where "NODE_ID = 60"
definition MEASUREMENT_METHOD :: u16 where "MEASUREMENT_METHOD = 62"
definition USAGE_REPORT_TRIGGER :: u16 where "USAGE_REPORT_TRIGGER = 63"
definition VOLUME_MEASUREMENT :: u16 where "VOLUME_MEASUREMENT = 66"
definition DURATION_MEASUREMENT :: u16 where "DURATION_MEASUREMENT = 67"
definition TIME_OF_FIRST_PACKET :: u16 where "TIME_OF_FIRST_PACKET = 69"
definition TIME_OF_LAST_PACKET :: u16 where "TIME_OF_LAST_PACKET = 70"
definition START_TIME :: u16 where "START_TIME = 75"
definition END_TIME :: u16 where "END_TIME = 76"
definition USAGE_REPORT_SDR :: u16 where "USAGE_REPORT_SDR = 79"
definition USAGE_REPORT_SRR :: u16 where "USAGE_REPORT_SRR = 80"
definition URR_ID :: u16 where "URR_ID = 81"
definition OUTER_HEADER_CREATION :: u16 where "OUTER_HEADER_CREATION = 84"
definition BAR_ID :: u16 where "BAR_ID = 88"
definition UE_IP_ADDRESS :: u16 where "UE_IP_ADDRESS = 93"
definition OUTER_HEADER_REMOVAL :: u16 where "OUTER_HEADER_REMOVAL = 95"
definition RECOVERY_TIME_STAMP :: u16 where "RECOVERY_TIME_STAMP = 96"
definition UR_SEQN :: u16 where "UR_SEQN = 104"
definition FAR_ID :: u16 where "FAR_ID = 108"
definition QER_ID :: u16 where "QER_ID = 109"
definition QFI :: u16 where "QFI = 124"
definition SUGGESTED_BUFFERING_PACKETS_COUNT :: u16 where "SUGGESTED_BUFFERING_PACKETS_COUNT = 140"

lemmas pfcp_ie = PDI_def FORWARDING_PARAMETERS_def CREATED_PDR_def UPDATE_FORWARDING_PARAMETERS_def CAUSE_def
  SOURCE_INTERFACE_def F_TEID_def NETWORK_INSTANCE_def SDF_FILTER_def GATE_STATUS_def MBR_def GBR_def PRECEDENCE_def
  VOLUME_THRESHOLD_def TIME_THRESHOLD_def REPORTING_TRIGGERS_def REPORT_TYPE_def OFFENDING_IE_def
  DESTINATION_INTERFACE_def APPLY_ACTION_def DOWNLINK_DATA_NOTIFICATION_DELAY_def PFCPSMREQ_FLAGS_def
  LOAD_CONTROL_INFORMATION_def SEQUENCE_NUMBER_def METRIC_def PDR_ID_def F_SEID_def NODE_ID_def MEASUREMENT_METHOD_def
  USAGE_REPORT_TRIGGER_def VOLUME_MEASUREMENT_def DURATION_MEASUREMENT_def TIME_OF_FIRST_PACKET_def
  TIME_OF_LAST_PACKET_def START_TIME_def END_TIME_def USAGE_REPORT_SDR_def USAGE_REPORT_SRR_def URR_ID_def
  OUTER_HEADER_CREATION_def BAR_ID_def UE_IP_ADDRESS_def OUTER_HEADER_REMOVAL_def RECOVERY_TIME_STAMP_def UR_SEQN_def
  FAR_ID_def QER_ID_def QFI_def SUGGESTED_BUFFERING_PACKETS_COUNT_def

definition DROBU :: u8 where "DROBU = 0x01"
definition SNDEM :: u8 where "SNDEM = 0x02"
definition QAURR :: u8 where "QAURR = 0x04"

datatype PfcpCause =
    RequestAccepted
  | RequestRejected
  | SessionContextNotFound
  | MandatoryIeMissing
  | ConditionalIeMissing
  | InvalidLength
  | MandatoryIeIncorrect
  | InvalidForwardingPolicy
  | InvalidFTeidAllocationOption
  | NoEstablishedPfcpAssociation
  | RuleCreationModificationFailure
  | PfcpEntityInCongestion
  | NoResourcesAvailable
  | ServiceNotSupported
  | SystemFailure
  | AllDynamicAddressAreOccupied

fun cause_as_u8 :: "PfcpCause \<Rightarrow> u8" where
  "cause_as_u8 RequestAccepted = 1"
| "cause_as_u8 RequestRejected = 64"
| "cause_as_u8 SessionContextNotFound = 65"
| "cause_as_u8 MandatoryIeMissing = 66"
| "cause_as_u8 ConditionalIeMissing = 67"
| "cause_as_u8 InvalidLength = 68"
| "cause_as_u8 MandatoryIeIncorrect = 69"
| "cause_as_u8 InvalidForwardingPolicy = 70"
| "cause_as_u8 InvalidFTeidAllocationOption = 71"
| "cause_as_u8 NoEstablishedPfcpAssociation = 72"
| "cause_as_u8 RuleCreationModificationFailure = 73"
| "cause_as_u8 PfcpEntityInCongestion = 74"
| "cause_as_u8 NoResourcesAvailable = 75"
| "cause_as_u8 ServiceNotSupported = 76"
| "cause_as_u8 SystemFailure = 77"
| "cause_as_u8 AllDynamicAddressAreOccupied = 78"

definition cause_from_u8 :: "u8 \<Rightarrow> PfcpCause" where
  "cause_from_u8 v =
     (if v = 1 then RequestAccepted else if v = 64 then RequestRejected else if v = 65 then SessionContextNotFound
      else if v = 66 then MandatoryIeMissing else if v = 67 then ConditionalIeMissing else if v = 68 then InvalidLength
      else if v = 69 then MandatoryIeIncorrect else if v = 70 then InvalidForwardingPolicy
      else if v = 71 then InvalidFTeidAllocationOption else if v = 72 then NoEstablishedPfcpAssociation
      else if v = 73 then RuleCreationModificationFailure else if v = 74 then PfcpEntityInCongestion
      else if v = 75 then NoResourcesAvailable else if v = 76 then ServiceNotSupported else if v = 77 then SystemFailure
      else if v = 78 then AllDynamicAddressAreOccupied else SystemFailure)"

section \<open>Building messages\<close>

text \<open>A builder is its buffer. An IPv6 address is its sixteen octets.\<close>

type_synonym Ipv6Addr = bytes

definition add_tlv :: "u16 \<Rightarrow> bytes \<Rightarrow> bytes \<Rightarrow> bytes" where
  "add_tlv t value buf = buf @ to_be16 t @ to_be16 (of_nat (length value)) @ value"

definition add_u8 :: "u16 \<Rightarrow> u8 \<Rightarrow> bytes \<Rightarrow> bytes" where
  "add_u8 t v = add_tlv t [v]"

definition add_u16 :: "u16 \<Rightarrow> u16 \<Rightarrow> bytes \<Rightarrow> bytes" where
  "add_u16 t v = add_tlv t (to_be16 v)"

definition add_u32 :: "u16 \<Rightarrow> u32 \<Rightarrow> bytes \<Rightarrow> bytes" where
  "add_u32 t v = add_tlv t (to_be32 v)"

definition add_u64 :: "u16 \<Rightarrow> u64 \<Rightarrow> bytes \<Rightarrow> bytes" where
  "add_u64 t v = add_tlv t (to_be64 v)"

datatype NodeId = NodeIpv4 u32 | NodeIpv6 Ipv6Addr | NodeFqdn rust_string

text \<open>\<^verbatim>\<open>str::split('.')\<close>: at least one label, cut at every full stop.\<close>

fun split_dots :: "rust_string \<Rightarrow> rust_string list" where
  "split_dots [] = [[]]"
| "split_dots (c # cs) = (if c = 0x2E then [] # split_dots cs else case split_dots cs of l # ls \<Rightarrow> (c # l) # ls | [] \<Rightarrow> [[c]])"

fun node_id_encode :: "NodeId \<Rightarrow> bytes" where
  "node_id_encode (NodeIpv4 a) = 0 # to_be32 a"
| "node_id_encode (NodeIpv6 a) = 1 # a"
| "node_id_encode (NodeFqdn fqdn) = 2 # concat (map (\<lambda>label. of_nat (length label) # label) (split_dots fqdn))"

record FSeid =
  fs_seid :: u64
  fs_ipv4 :: "u32 option"
  fs_ipv6 :: "Ipv6Addr option"

definition flag :: "bool \<Rightarrow> u8 \<Rightarrow> u8" where
  "flag b x = (if b then x else 0)"

definition opt_octets :: "('a \<Rightarrow> bytes) \<Rightarrow> 'a option \<Rightarrow> bytes" where
  "opt_octets f x = (case x of None \<Rightarrow> [] | Some a \<Rightarrow> f a)"

definition f_seid_encode :: "FSeid \<Rightarrow> bytes" where
  "f_seid_encode f =
     (let flags = flag (fs_ipv6 f \<noteq> None) 0x01 OR flag (fs_ipv4 f \<noteq> None) 0x02
      in [flags] @ to_be64 (fs_seid f) @ opt_octets to_be32 (fs_ipv4 f) @ opt_octets id (fs_ipv6 f))"

record FTeid =
  ft_teid :: u32
  ft_ipv4 :: "u32 option"
  ft_ipv6 :: "Ipv6Addr option"
  ft_choose :: bool
  ft_choose_id :: "u8 option"

record UeIpAddress =
  ue_ipv4_addr :: "u32 option"
  ue_ipv6_addr :: "Ipv6Addr option"
  ue_ipv6_prefix_len :: u8

record CreatedPdr =
  cp_pdr_id :: u16
  cp_local_f_teid :: "FTeid option"
  cp_ue_ip_address :: "UeIpAddress option"

definition add_node_id :: "NodeId \<Rightarrow> bytes \<Rightarrow> bytes" where
  "add_node_id n = add_tlv NODE_ID (node_id_encode n)"

definition add_f_seid :: "FSeid \<Rightarrow> bytes \<Rightarrow> bytes" where
  "add_f_seid f = add_tlv F_SEID (f_seid_encode f)"

definition add_cause :: "PfcpCause \<Rightarrow> bytes \<Rightarrow> bytes" where
  "add_cause c = add_u8 CAUSE (cause_as_u8 c)"

definition add_pdr_id :: "u16 \<Rightarrow> bytes \<Rightarrow> bytes" where
  "add_pdr_id i = add_u16 PDR_ID i"

text \<open>The value of the element, and the element. The debug assertion (a CHOOSE ID needs CHOOSE) is off in a release build.\<close>

definition f_teid_value :: "FTeid \<Rightarrow> bytes" where
  "f_teid_value f =
     (let flags = flag (ft_ipv4 f \<noteq> None) 0x01 OR flag (ft_ipv6 f \<noteq> None) 0x02 OR flag (ft_choose f) 0x04
            OR flag (ft_choose_id f \<noteq> None) 0x08
      in [flags] @
         (if \<not> ft_choose f then to_be32 (ft_teid f) @ opt_octets to_be32 (ft_ipv4 f) @ opt_octets id (ft_ipv6 f) else []) @
         opt_octets (\<lambda>i. [i]) (ft_choose_id f))"

definition add_f_teid :: "FTeid \<Rightarrow> bytes \<Rightarrow> bytes" where
  "add_f_teid f = add_tlv F_TEID (f_teid_value f)"

definition ue_ip_value :: "UeIpAddress \<Rightarrow> bool \<Rightarrow> bytes" where
  "ue_ip_value u source =
     (let flags = flag (ue_ipv6_addr u \<noteq> None) 0x01 OR flag (ue_ipv4_addr u \<noteq> None) 0x02 OR flag source 0x04
            OR flag (ue_ipv6_prefix_len u > 0) 0x40
      in [flags] @ opt_octets to_be32 (ue_ipv4_addr u) @ opt_octets id (ue_ipv6_addr u) @
         (if ue_ipv6_prefix_len u > 0 then [ue_ipv6_prefix_len u] else []))"

definition add_ue_ip_address :: "UeIpAddress \<Rightarrow> bool \<Rightarrow> bytes \<Rightarrow> bytes" where
  "add_ue_ip_address u source = add_tlv UE_IP_ADDRESS (ue_ip_value u source)"

definition add_opt :: "('a \<Rightarrow> bytes \<Rightarrow> bytes) \<Rightarrow> 'a option \<Rightarrow> bytes \<Rightarrow> bytes" where
  "add_opt f x buf = (case x of None \<Rightarrow> buf | Some a \<Rightarrow> f a buf)"

definition created_pdr_value :: "CreatedPdr \<Rightarrow> bytes" where
  "created_pdr_value c =
     (let inner = add_pdr_id (cp_pdr_id c) [];
          inner = add_opt add_f_teid (cp_local_f_teid c) inner
      in add_opt (\<lambda>u. add_ue_ip_address u False) (cp_ue_ip_address c) inner)"

definition add_created_pdr :: "CreatedPdr \<Rightarrow> bytes \<Rightarrow> bytes" where
  "add_created_pdr c = add_tlv CREATED_PDR (created_pdr_value c)"

record UsageReportTrigger =
  periodic_reporting :: bool
  volume_threshold :: bool
  time_threshold :: bool
  quota_holding_time :: bool
  start_of_traffic :: bool
  stop_of_traffic :: bool
  dropped_dl_traffic_threshold :: bool
  immediate_report :: bool
  volume_quota :: bool
  time_quota :: bool
  linked_usage_reporting :: bool
  termination_report :: bool
  monitoring_time :: bool
  envelope_closure :: bool
  mac_addresses_reporting :: bool
  event_threshold :: bool
  event_quota :: bool
  termination_by_up_function_report :: bool
  ip_multicast_join_leave :: bool
  quota_validity_time :: bool

definition trigger_default :: UsageReportTrigger where
  "trigger_default =
     \<lparr>periodic_reporting = False, volume_threshold = False, time_threshold = False, quota_holding_time = False,
      start_of_traffic = False, stop_of_traffic = False, dropped_dl_traffic_threshold = False, immediate_report = False,
      volume_quota = False, time_quota = False, linked_usage_reporting = False, termination_report = False,
      monitoring_time = False, envelope_closure = False, mac_addresses_reporting = False, event_threshold = False,
      event_quota = False, termination_by_up_function_report = False, ip_multicast_join_leave = False,
      quota_validity_time = False\<rparr>"

record VolumeMeasurement =
  total_volume :: "u64 option"
  uplink_volume :: "u64 option"
  downlink_volume :: "u64 option"
  total_packets :: "u64 option"
  uplink_packets :: "u64 option"
  downlink_packets :: "u64 option"

record UsageReport =
  ur_urr_id :: u32
  ur_ur_seqn :: u32
  ur_trigger :: UsageReportTrigger
  ur_start_time :: "u32 option"
  ur_end_time :: "u32 option"
  ur_volume_measurement :: "VolumeMeasurement option"
  ur_duration_measurement :: "u32 option"
  ur_time_of_first_packet :: "u32 option"
  ur_time_of_last_packet :: "u32 option"

definition add_usage_report_trigger :: "UsageReportTrigger \<Rightarrow> bytes \<Rightarrow> bytes" where
  "add_usage_report_trigger t =
     add_tlv USAGE_REPORT_TRIGGER
       [flag (periodic_reporting t) 0x01 OR flag (volume_threshold t) 0x02 OR flag (time_threshold t) 0x04 OR
        flag (quota_holding_time t) 0x08 OR flag (start_of_traffic t) 0x10 OR flag (stop_of_traffic t) 0x20 OR
        flag (dropped_dl_traffic_threshold t) 0x40 OR flag (immediate_report t) 0x80,
        flag (volume_quota t) 0x01 OR flag (time_quota t) 0x02 OR flag (linked_usage_reporting t) 0x04 OR
        flag (termination_report t) 0x08 OR flag (monitoring_time t) 0x10 OR flag (envelope_closure t) 0x20 OR
        flag (mac_addresses_reporting t) 0x40 OR flag (event_threshold t) 0x80,
        flag (event_quota t) 0x01 OR flag (termination_by_up_function_report t) 0x02 OR
        flag (ip_multicast_join_leave t) 0x04 OR flag (quota_validity_time t) 0x08]"

definition volume_value :: "VolumeMeasurement \<Rightarrow> bytes" where
  "volume_value v =
     (let flags = flag (total_volume v \<noteq> None) 0x01 OR flag (uplink_volume v \<noteq> None) 0x02 OR
            flag (downlink_volume v \<noteq> None) 0x04 OR flag (total_packets v \<noteq> None) 0x08 OR
            flag (uplink_packets v \<noteq> None) 0x10 OR flag (downlink_packets v \<noteq> None) 0x20
      in [flags] @ opt_octets to_be64 (total_volume v) @ opt_octets to_be64 (uplink_volume v) @
         opt_octets to_be64 (downlink_volume v) @ opt_octets to_be64 (total_packets v) @
         opt_octets to_be64 (uplink_packets v) @ opt_octets to_be64 (downlink_packets v))"

definition add_volume_measurement :: "VolumeMeasurement \<Rightarrow> bytes \<Rightarrow> bytes" where
  "add_volume_measurement v = add_tlv VOLUME_MEASUREMENT (volume_value v)"

definition usage_report_value :: "UsageReport \<Rightarrow> bytes" where
  "usage_report_value r =
     (let inner = add_u32 URR_ID (ur_urr_id r) [];
          inner = add_u32 UR_SEQN (ur_ur_seqn r) inner;
          inner = add_usage_report_trigger (ur_trigger r) inner;
          inner = add_opt (add_u32 START_TIME) (ur_start_time r) inner;
          inner = add_opt (add_u32 END_TIME) (ur_end_time r) inner;
          inner = add_opt add_volume_measurement (ur_volume_measurement r) inner;
          inner = add_opt (add_u32 DURATION_MEASUREMENT) (ur_duration_measurement r) inner;
          inner = add_opt (add_u32 TIME_OF_FIRST_PACKET) (ur_time_of_first_packet r) inner
      in add_opt (add_u32 TIME_OF_LAST_PACKET) (ur_time_of_last_packet r) inner)"

definition add_usage_report :: "UsageReport \<Rightarrow> u16 \<Rightarrow> bytes \<Rightarrow> bytes" where
  "add_usage_report r t = add_tlv t (usage_report_value r)"

record ReportType =
  rt_downlink_data_report :: bool
  rt_usage_report :: bool
  rt_error_indication_report :: bool
  rt_uplink_data_report :: bool
  rt_session_report :: bool

record DownlinkDataServiceInfo =
  dds_ppi :: "u8 option"
  dds_qfi :: "u8 option"

record DownlinkDataReport =
  dd_pdr_id :: u16
  dd_downlink_data_service_info :: "DownlinkDataServiceInfo option"

record UserPlaneReport =
  up_report_type :: ReportType
  up_downlink_data_report :: "DownlinkDataReport option"
  up_usage_reports :: "UsageReport list"
  up_error_indication_report :: "FTeid option"

definition add_report_type :: "ReportType \<Rightarrow> bytes \<Rightarrow> bytes" where
  "add_report_type t =
     add_u8 REPORT_TYPE
       (flag (rt_downlink_data_report t) 0x01 OR flag (rt_usage_report t) 0x02 OR flag (rt_error_indication_report t) 0x04 OR
        flag (rt_uplink_data_report t) 0x08 OR flag (rt_session_report t) 0x10)"

definition build_session_establishment_response :: "NodeId \<Rightarrow> FSeid \<Rightarrow> CreatedPdr list \<Rightarrow> bytes" where
  "build_session_establishment_response n f created =
     fold add_created_pdr created (add_f_seid f (add_cause RequestAccepted (add_node_id n [])))"

definition build_session_modification_response :: "CreatedPdr list \<Rightarrow> bytes" where
  "build_session_modification_response created = fold add_created_pdr created (add_cause RequestAccepted [])"

definition build_session_deletion_response :: "UsageReport list \<Rightarrow> bytes" where
  "build_session_deletion_response reports =
     fold (\<lambda>r. add_usage_report r USAGE_REPORT_SDR) reports (add_cause RequestAccepted [])"

definition downlink_data_service_value :: "DownlinkDataServiceInfo \<Rightarrow> bytes" where
  "downlink_data_service_value i =
     [flag (dds_ppi i \<noteq> None) 0x01 OR flag (dds_qfi i \<noteq> None) 0x02] @ opt_octets (\<lambda>x. [x]) (dds_ppi i) @ opt_octets (\<lambda>x. [x]) (dds_qfi i)"

definition downlink_data_report_value :: "DownlinkDataReport \<Rightarrow> bytes" where
  "downlink_data_report_value r =
     add_opt (\<lambda>i. add_tlv 45 (downlink_data_service_value i)) (dd_downlink_data_service_info r) (add_pdr_id (dd_pdr_id r) [])"

definition build_session_report_request :: "UserPlaneReport \<Rightarrow> bytes" where
  "build_session_report_request r =
     (let buf = add_report_type (up_report_type r) [];
          buf = add_opt (\<lambda>x. add_tlv 83 (downlink_data_report_value x)) (up_downlink_data_report r) buf;
          buf = fold (\<lambda>x. add_usage_report x USAGE_REPORT_SRR) (up_usage_reports r) buf
      in add_opt (\<lambda>f. add_tlv 99 (add_f_teid f [])) (up_error_indication_report r) buf)"

definition build_heartbeat_response :: "u32 \<Rightarrow> bytes" where
  "build_heartbeat_response t = add_u32 RECOVERY_TIME_STAMP t []"

definition build_heartbeat_request :: "u32 \<Rightarrow> bytes" where
  "build_heartbeat_request t = add_u32 RECOVERY_TIME_STAMP t []"

definition build_heartbeat_request_with_load :: "u32 \<Rightarrow> u32 \<Rightarrow> u8 \<Rightarrow> bytes" where
  "build_heartbeat_request_with_load t load_seq load_metric =
     (let lci = to_be16 SEQUENCE_NUMBER @ to_be16 4 @ to_be32 load_seq @ to_be16 METRIC @ to_be16 1 @ [min load_metric 100]
      in add_tlv LOAD_CONTROL_INFORMATION lci (add_u32 RECOVERY_TIME_STAMP t []))"

definition build_association_release_response :: "NodeId \<Rightarrow> PfcpCause \<Rightarrow> bytes" where
  "build_association_release_response n c = add_cause c (add_node_id n [])"

definition build_failure_response :: "PfcpCause \<Rightarrow> u16 option \<Rightarrow> bytes" where
  "build_failure_response c offending_ie = add_opt (add_u16 OFFENDING_IE) offending_ie (add_cause c [])"

section \<open>Parsing headers and elements\<close>

record ParsedPfcpHeader =
  ph_version :: u8
  ph_msg_type :: u8
  ph_length :: u16
  ph_seid_present :: bool
  ph_seid :: u64
  ph_sequence_number :: u32

definition be16_at :: "bytes \<Rightarrow> nat \<Rightarrow> u16" where
  "be16_at v i = from_be16 (v ! i) (v ! (i + 1))"

definition be32_at :: "bytes \<Rightarrow> nat \<Rightarrow> u32" where
  "be32_at v i = from_be32 (v ! i) (v ! (i + 1)) (v ! (i + 2)) (v ! (i + 3))"

definition be64_at :: "bytes \<Rightarrow> nat \<Rightarrow> u64" where
  "be64_at v i = from_be64 (v ! i) (v ! (i + 1)) (v ! (i + 2)) (v ! (i + 3)) (v ! (i + 4)) (v ! (i + 5)) (v ! (i + 6)) (v ! (i + 7))"

definition parse_pfcp_header :: "bytes \<Rightarrow> (string, ParsedPfcpHeader \<times> bytes) outcome" where
  "parse_pfcp_header data =
     (if length data < 8 then Err ''PFCP message too short''
      else
        let flags = data ! 0; version = drop_bit 5 flags; seid_present = (flags AND 0x01 \<noteq> 0)
        in if version \<noteq> 1 then Err ''Unsupported PFCP version''
           else
             let msg_type = data ! 1; len = be16_at data 2
             in if seid_present \<and> length data < 16 then Err ''PFCP message too short for SEID''
                else
                  let (seid, seq_start) = (if seid_present then (be64_at data 4, 12) else (0, 4))
                  in if length data < seq_start + 4 then Err ''PFCP message too short for sequence''
                     else
                       let sequence_number = from_be32 0 (data ! seq_start) (data ! (seq_start + 1)) (data ! (seq_start + 2));
                           header_len = (if seid_present then 16 else 8)
                       in Ok (\<lparr>ph_version = version, ph_msg_type = msg_type, ph_length = len, ph_seid_present = seid_present,
                               ph_seid = seid, ph_sequence_number = sequence_number\<rparr>, drop header_len data))"

record ParsedIe =
  ie_type :: u16
  ie_length :: u16
  ie_value :: bytes

function (sequential) parse_all :: "bytes \<Rightarrow> ParsedIe list" where
  "parse_all (a # b # c # d # data) =
     (let len = unat (from_be16 c d)
      in if length data < len then []
         else \<lparr>ie_type = from_be16 a b, ie_length = from_be16 c d, ie_value = take len data\<rparr> # parse_all (drop len data))"
| "parse_all data = []"
  by pat_completeness auto

termination by (relation "measure length") auto

definition find_ie :: "ParsedIe list \<Rightarrow> u16 \<Rightarrow> ParsedIe option" where
  "find_ie ies t = List.find (\<lambda>ie. ie_type ie = t) ies"

definition find_all_ies :: "ParsedIe list \<Rightarrow> u16 \<Rightarrow> ParsedIe list" where
  "find_all_ies ies t = filter (\<lambda>ie. ie_type ie = t) ies"

text \<open>\<^verbatim>\<open>if let Some(ie) = find_ie(..) { if enough octets { x = read(..) } }\<close>, with the default when absent or short.\<close>

definition ie_field :: "ParsedIe list \<Rightarrow> u16 \<Rightarrow> nat \<Rightarrow> (bytes \<Rightarrow> 'a) \<Rightarrow> 'a \<Rightarrow> 'a" where
  "ie_field ies t n read dflt =
     (case find_ie ies t of None \<Rightarrow> dflt | Some ie \<Rightarrow> if n \<le> length (ie_value ie) then read (ie_value ie) else dflt)"

text \<open>A parser that stops with an error, on the element if it is present.\<close>

definition ie_parsed :: "ParsedIe list \<Rightarrow> u16 \<Rightarrow> (bytes \<Rightarrow> (string, 'a) outcome) \<Rightarrow> (string, 'a option) outcome" where
  "ie_parsed ies t parse =
     (case find_ie ies t of None \<Rightarrow> Ok None | Some ie \<Rightarrow> obind (parse (ie_value ie)) (\<lambda>x. Ok (Some x)))"

text \<open>An address at the cursor, read when the flag is set.\<close>

definition take_ipv4 :: "bool \<Rightarrow> string \<Rightarrow> bytes \<Rightarrow> (string, u32 option \<times> bytes) outcome" where
  "take_ipv4 present short cursor =
     (if present then if length cursor < 4 then Err short else Ok (Some (be32_at cursor 0), drop 4 cursor) else Ok (None, cursor))"

definition take_ipv6 :: "bool \<Rightarrow> string \<Rightarrow> bytes \<Rightarrow> (string, Ipv6Addr option \<times> bytes) outcome" where
  "take_ipv6 present short cursor =
     (if present then if length cursor < 16 then Err short else Ok (Some (take 16 cursor), drop 16 cursor) else Ok (None, cursor))"

definition f_seid_parse :: "bytes \<Rightarrow> (string, FSeid) outcome" where
  "f_seid_parse data =
     (if data = [] then Err ''F-SEID IE empty''
      else
        let flags = data ! 0; v6 = (flags AND 0x01 \<noteq> 0); v4 = (flags AND 0x02 \<noteq> 0); cursor = drop 1 data
        in if length cursor < 8 then Err ''F-SEID too short for SEID''
           else
             let seid = be64_at cursor 0; cursor = drop 8 cursor
             in obind (take_ipv4 v4 ''F-SEID too short for IPv4'' cursor) (\<lambda>(ipv4, cursor).
                obind (take_ipv6 v6 ''F-SEID too short for IPv6'' cursor) (\<lambda>(ipv6, _).
                Ok \<lparr>fs_seid = seid, fs_ipv4 = ipv4, fs_ipv6 = ipv6\<rparr>)))"

record ParsedFTeid =
  pt_teid :: u32
  pt_ipv4 :: "u32 option"
  pt_ipv6 :: "Ipv6Addr option"
  pt_ch :: bool
  pt_chid :: bool
  pt_choose_id :: "u8 option"

definition f_teid_parse :: "bytes \<Rightarrow> (string, ParsedFTeid) outcome" where
  "f_teid_parse data =
     (if data = [] then Err ''F-TEID IE empty''
      else
        let flags = data ! 0; v4 = (flags AND 0x01 \<noteq> 0); v6 = (flags AND 0x02 \<noteq> 0); ch = (flags AND 0x04 \<noteq> 0);
            chid = (flags AND 0x08 \<noteq> 0); cursor = drop 1 data
        in if \<not> ch \<and> length cursor < 4 then Err ''F-TEID too short for TEID''
           else
             let (teid, cursor) = (if ch then (0, cursor) else (be32_at cursor 0, drop 4 cursor))
             in obind (take_ipv4 (v4 \<and> \<not> ch) ''F-TEID too short for IPv4'' cursor) (\<lambda>(ipv4, cursor).
                obind (take_ipv6 (v6 \<and> \<not> ch) ''F-TEID too short for IPv6'' cursor) (\<lambda>(ipv6, cursor).
                Ok \<lparr>pt_teid = teid, pt_ipv4 = ipv4, pt_ipv6 = ipv6, pt_ch = ch, pt_chid = chid,
                    pt_choose_id = (if chid \<and> cursor \<noteq> [] then Some (cursor ! 0) else None)\<rparr>)))"

record ParsedUeIpAddr =
  pa_ipv4 :: "u32 option"
  pa_ipv6 :: "Ipv6Addr option"
  pa_ipv6_prefix_len :: u8
  pa_source :: bool
  pa_destination :: bool

definition ue_ip_parse :: "bytes \<Rightarrow> (string, ParsedUeIpAddr) outcome" where
  "ue_ip_parse data =
     (if data = [] then Err ''UE IP Address IE empty''
      else
        let flags = data ! 0; v6 = (flags AND 0x01 \<noteq> 0); v4 = (flags AND 0x02 \<noteq> 0); sd = (flags AND 0x04 \<noteq> 0);
            ipv6d = (flags AND 0x08 \<noteq> 0)
        in obind (take_ipv4 v4 ''UE IP too short for IPv4'' (drop 1 data)) (\<lambda>(ipv4, cursor).
           obind (take_ipv6 v6 ''UE IP too short for IPv6'' cursor) (\<lambda>(ipv6, cursor).
           Ok \<lparr>pa_ipv4 = ipv4, pa_ipv6 = ipv6,
               pa_ipv6_prefix_len = (if ipv6d \<and> cursor \<noteq> [] then cursor ! 0 else if v6 then 64 else 0),
               pa_source = (\<not> sd), pa_destination = sd\<rparr>)))"

record ParsedOuterHeaderCreation =
  oh_description :: u16
  oh_teid :: u32
  oh_ipv4 :: "u32 option"
  oh_ipv6 :: "Ipv6Addr option"
  oh_port :: "u16 option"

definition ohc_parse :: "bytes \<Rightarrow> (string, ParsedOuterHeaderCreation) outcome" where
  "ohc_parse data =
     (if length data < 2 then Err ''Outer Header Creation too short''
      else
        let description = be16_at data 0; cursor = drop 2 data;
            gtpu_ipv4 = (description AND 0x0100 \<noteq> 0); gtpu_ipv6 = (description AND 0x0200 \<noteq> 0)
        in if (gtpu_ipv4 \<or> gtpu_ipv6) \<and> length cursor < 4 then Err ''OHC too short for TEID''
           else
             let (teid, cursor) = (if gtpu_ipv4 \<or> gtpu_ipv6 then (be32_at cursor 0, drop 4 cursor) else (0, cursor))
             in obind (take_ipv4 gtpu_ipv4 ''OHC too short for IPv4'' cursor) (\<lambda>(ipv4, cursor).
                obind (take_ipv6 gtpu_ipv6 ''OHC too short for IPv6'' cursor) (\<lambda>(ipv6, cursor).
                Ok \<lparr>oh_description = description, oh_teid = teid, oh_ipv4 = ipv4, oh_ipv6 = ipv6,
                    oh_port = (if length cursor \<ge> 2 then Some (be16_at cursor 0) else None)\<rparr>)))"

section \<open>Parsed rules\<close>

record ParsedPdi =
  pdi_source_interface :: u8
  pdi_local_f_teid :: "ParsedFTeid option"
  pdi_network_instance :: "rust_string option"
  pdi_ue_ip_address :: "ParsedUeIpAddr option"
  pdi_qfi :: "u8 option"
  pdi_sdf_flow_description :: "rust_string option"

definition pdi_default :: ParsedPdi where
  "pdi_default =
     \<lparr>pdi_source_interface = 0, pdi_local_f_teid = None, pdi_network_instance = None, pdi_ue_ip_address = None, pdi_qfi = None,
      pdi_sdf_flow_description = None\<rparr>"

definition sdf_flow_description :: "bytes \<Rightarrow> rust_string option" where
  "sdf_flow_description v =
     (if v ! 0 AND 0x01 \<noteq> 0
      then let fd_len = unat (be16_at v 2)
           in if length v \<ge> 4 + fd_len then Some (from_utf8_lossy (take fd_len (drop 4 v))) else None
      else None)"

definition parse_pdi :: "bytes \<Rightarrow> (string, ParsedPdi) outcome" where
  "parse_pdi data =
     (let ies = parse_all data
      in obind (ie_parsed ies F_TEID f_teid_parse) (\<lambda>f_teid.
         obind (ie_parsed ies UE_IP_ADDRESS ue_ip_parse) (\<lambda>ue_ip.
         Ok \<lparr>pdi_source_interface = ie_field ies SOURCE_INTERFACE 1 (\<lambda>v. v ! 0) 0,
             pdi_local_f_teid = f_teid,
             pdi_network_instance = map_option (\<lambda>ie. from_utf8_lossy (ie_value ie)) (find_ie ies NETWORK_INSTANCE),
             pdi_ue_ip_address = ue_ip,
             pdi_qfi = ie_field ies QFI 1 (\<lambda>v. Some (v ! 0)) None,
             pdi_sdf_flow_description = ie_field ies SDF_FILTER 4 sdf_flow_description None\<rparr>)))"

record ParsedCreatePdr =
  pp_pdr_id :: u16
  pp_precedence :: u32
  pp_pdi :: ParsedPdi
  pp_outer_header_removal :: "u8 option"
  pp_far_id :: "u32 option"
  pp_urr_ids :: "u32 list"
  pp_qer_id :: "u32 option"

definition parse_create_pdr :: "bytes \<Rightarrow> (string, ParsedCreatePdr) outcome" where
  "parse_create_pdr data =
     (let ies = parse_all data
      in if find_ie ies PDR_ID = None then Err ''PDR ID missing''
         else obind (ie_parsed ies PDI parse_pdi) (\<lambda>pdi.
           Ok \<lparr>pp_pdr_id = ie_field ies PDR_ID 2 (\<lambda>v. be16_at v 0) 0,
               pp_precedence = ie_field ies PRECEDENCE 4 (\<lambda>v. be32_at v 0) 0,
               pp_pdi = (case pdi of None \<Rightarrow> pdi_default | Some x \<Rightarrow> x),
               pp_outer_header_removal = ie_field ies OUTER_HEADER_REMOVAL 1 (\<lambda>v. Some (v ! 0)) None,
               pp_far_id = ie_field ies FAR_ID 4 (\<lambda>v. Some (be32_at v 0)) None,
               pp_urr_ids = map (\<lambda>ie. be32_at (ie_value ie) 0) (filter (\<lambda>ie. 4 \<le> length (ie_value ie)) (find_all_ies ies URR_ID)),
               pp_qer_id = ie_field ies QER_ID 4 (\<lambda>v. Some (be32_at v 0)) None\<rparr>))"

record ParsedForwardingParameters =
  fp_destination_interface :: u8
  fp_network_instance :: "rust_string option"
  fp_outer_header_creation :: "ParsedOuterHeaderCreation option"

definition parse_forwarding_parameters :: "bytes \<Rightarrow> (string, ParsedForwardingParameters) outcome" where
  "parse_forwarding_parameters data =
     (let ies = parse_all data
      in obind (ie_parsed ies OUTER_HEADER_CREATION ohc_parse) (\<lambda>ohc.
         Ok \<lparr>fp_destination_interface = ie_field ies DESTINATION_INTERFACE 1 (\<lambda>v. v ! 0) 0,
             fp_network_instance = map_option (\<lambda>ie. from_utf8_lossy (ie_value ie)) (find_ie ies NETWORK_INSTANCE),
             fp_outer_header_creation = ohc\<rparr>))"

record ParsedCreateFar =
  pf_far_id :: u32
  pf_apply_action :: u16
  pf_forwarding_parameters :: "ParsedForwardingParameters option"
  pf_bar_id :: "u8 option"

definition parse_create_far :: "bytes \<Rightarrow> (string, ParsedCreateFar) outcome" where
  "parse_create_far data =
     (let ies = parse_all data
      in if find_ie ies FAR_ID = None then Err ''FAR ID missing''
         else obind (if find_ie ies FORWARDING_PARAMETERS \<noteq> None
                     then ie_parsed ies FORWARDING_PARAMETERS parse_forwarding_parameters
                     else ie_parsed ies UPDATE_FORWARDING_PARAMETERS parse_forwarding_parameters) (\<lambda>fp.
           Ok \<lparr>pf_far_id = ie_field ies FAR_ID 4 (\<lambda>v. be32_at v 0) 0,
               pf_apply_action =
                 ie_field ies APPLY_ACTION 1 (\<lambda>v. if 2 \<le> length v then be16_at v 0 else ucast (v ! 0)) 0,
               pf_forwarding_parameters = fp,
               pf_bar_id = ie_field ies BAR_ID 1 (\<lambda>v. Some (v ! 0)) None\<rparr>))"

record ParsedCreateQer =
  pq_qer_id :: u32
  pq_ul_gate :: u8
  pq_dl_gate :: u8
  pq_ul_mbr :: u64
  pq_dl_mbr :: u64
  pq_ul_gbr :: u64
  pq_dl_gbr :: u64
  pq_qfi :: "u8 option"

text \<open>A rate on the wire: five octets, multiplied by 1000 with saturation.\<close>

definition saturating_mul :: "u64 \<Rightarrow> u64 \<Rightarrow> u64" where
  "saturating_mul a b = (if unat a * unat b < 2 ^ 64 then a * b else - 1)"

definition rate_at :: "bytes \<Rightarrow> nat \<Rightarrow> u64" where
  "rate_at v i = saturating_mul (from_be64 0 0 0 (v ! i) (v ! (i + 1)) (v ! (i + 2)) (v ! (i + 3)) (v ! (i + 4))) 1000"

definition parse_create_qer :: "bytes \<Rightarrow> (string, ParsedCreateQer) outcome" where
  "parse_create_qer data =
     (let ies = parse_all data
      in if find_ie ies QER_ID = None then Err ''QER ID missing''
         else Ok \<lparr>pq_qer_id = ie_field ies QER_ID 4 (\<lambda>v. be32_at v 0) 0,
                  pq_ul_gate = ie_field ies GATE_STATUS 1 (\<lambda>v. drop_bit 2 (v ! 0) AND 0x03) 0,
                  pq_dl_gate = ie_field ies GATE_STATUS 1 (\<lambda>v. v ! 0 AND 0x03) 0,
                  pq_ul_mbr = ie_field ies MBR 10 (\<lambda>v. rate_at v 0) 0,
                  pq_dl_mbr = ie_field ies MBR 10 (\<lambda>v. rate_at v 5) 0,
                  pq_ul_gbr = ie_field ies GBR 10 (\<lambda>v. rate_at v 0) 0,
                  pq_dl_gbr = ie_field ies GBR 10 (\<lambda>v. rate_at v 5) 0,
                  pq_qfi = ie_field ies QFI 1 (\<lambda>v. Some (v ! 0 AND 0x3F)) None\<rparr>)"

record ParsedCreateUrr =
  pu_urr_id :: u32
  pu_measure_duration :: bool
  pu_measure_volume :: bool
  pu_trigger_periodic :: bool
  pu_trigger_volume_threshold :: bool
  pu_trigger_time_threshold :: bool
  pu_volume_threshold_total :: "u64 option"
  pu_volume_threshold_ul :: "u64 option"
  pu_volume_threshold_dl :: "u64 option"
  pu_time_threshold_secs :: "u32 option"

definition take_threshold :: "bool \<Rightarrow> bytes \<Rightarrow> u64 option \<times> bytes" where
  "take_threshold present cursor =
     (if present \<and> length cursor \<ge> 8 then (Some (be64_at cursor 0), drop 8 cursor) else (None, cursor))"

definition volume_thresholds :: "bytes \<Rightarrow> u64 option \<times> u64 option \<times> u64 option" where
  "volume_thresholds v =
     (let flags = v ! 0; cursor = drop 1 v;
          (total, cursor) = take_threshold (flags AND 0x01 \<noteq> 0) cursor;
          (ul, cursor) = take_threshold (flags AND 0x02 \<noteq> 0) cursor;
          (dl, cursor) = take_threshold (flags AND 0x04 \<noteq> 0) cursor
      in (total, ul, dl))"

definition parse_create_urr :: "bytes \<Rightarrow> (string, ParsedCreateUrr) outcome" where
  "parse_create_urr data =
     (let ies = parse_all data
      in if find_ie ies URR_ID = None then Err ''URR ID missing''
         else let (total, ul, dl) = ie_field ies VOLUME_THRESHOLD 1 volume_thresholds (None, None, None)
              in Ok \<lparr>pu_urr_id = ie_field ies URR_ID 4 (\<lambda>v. be32_at v 0) 0,
                     pu_measure_duration = ie_field ies MEASUREMENT_METHOD 1 (\<lambda>v. v ! 0 AND 0x01 \<noteq> 0) False,
                     pu_measure_volume = ie_field ies MEASUREMENT_METHOD 1 (\<lambda>v. v ! 0 AND 0x02 \<noteq> 0) False,
                     pu_trigger_periodic = ie_field ies REPORTING_TRIGGERS 1 (\<lambda>v. v ! 0 AND 0x01 \<noteq> 0) False,
                     pu_trigger_volume_threshold = ie_field ies REPORTING_TRIGGERS 1 (\<lambda>v. v ! 0 AND 0x02 \<noteq> 0) False,
                     pu_trigger_time_threshold = ie_field ies REPORTING_TRIGGERS 1 (\<lambda>v. v ! 0 AND 0x04 \<noteq> 0) False,
                     pu_volume_threshold_total = total, pu_volume_threshold_ul = ul, pu_volume_threshold_dl = dl,
                     pu_time_threshold_secs = ie_field ies TIME_THRESHOLD 4 (\<lambda>v. Some (be32_at v 0)) None\<rparr>)"

datatype ParsedNodeId = ParsedIpv4 u32 | ParsedIpv6 Ipv6Addr | ParsedFqdn rust_string

definition node_id_parse :: "bytes \<Rightarrow> (string, ParsedNodeId) outcome" where
  "node_id_parse data =
     (if data = [] then Err ''Node ID IE empty''
      else
        let node_type = data ! 0; cursor = drop 1 data
        in if node_type = 0
           then if length cursor < 4 then Err ''Node ID too short for IPv4'' else Ok (ParsedIpv4 (be32_at cursor 0))
           else if node_type = 1
           then if length cursor < 16 then Err ''Node ID too short for IPv6'' else Ok (ParsedIpv6 (take 16 cursor))
           else if node_type = 2 then Ok (ParsedFqdn (from_utf8_lossy cursor))
           else Err ''Unknown Node ID type'')"

definition parse_recovery_time_stamp :: "bytes \<Rightarrow> u32 option" where
  "parse_recovery_time_stamp payload = ie_field (parse_all payload) RECOVERY_TIME_STAMP 4 (\<lambda>v. Some (be32_at v 0)) None"

record ParsedCreateBar =
  pb_bar_id :: u8
  pb_suggested_buffering_packets_count :: "u8 option"
  pb_ddn_delay :: "u8 option"

definition parse_create_bar :: "bytes \<Rightarrow> (string, ParsedCreateBar) outcome" where
  "parse_create_bar data =
     (let ies = parse_all data
      in case find_ie ies BAR_ID of
           None \<Rightarrow> Err ''BAR ID missing''
         | Some ie \<Rightarrow>
             if ie_value ie = [] then Err ''BAR ID empty''
             else Ok \<lparr>pb_bar_id = ie_value ie ! 0,
                      pb_suggested_buffering_packets_count =
                        ie_field ies SUGGESTED_BUFFERING_PACKETS_COUNT 1 (\<lambda>v. Some (v ! 0)) None,
                      pb_ddn_delay = ie_field ies DOWNLINK_DATA_NOTIFICATION_DELAY 1 (\<lambda>v. Some (v ! 0)) None\<rparr>)"

definition parse_pfcpsmreq_flags :: "bytes \<Rightarrow> u8 option" where
  "parse_pfcpsmreq_flags payload = ie_field (parse_all payload) PFCPSMREQ_FLAGS 1 (\<lambda>v. Some (v ! 0)) None"

section \<open>Elements round trip\<close>

definition ie_of :: "u16 \<Rightarrow> bytes \<Rightarrow> ParsedIe" where
  "ie_of t v = \<lparr>ie_type = t, ie_length = of_nat (length v), ie_value = v\<rparr>"

lemma parse_all_short: "length data < 4 \<Longrightarrow> parse_all data = []"
  by (cases data rule: parse_all.cases) simp_all

lemma parse_all_tlv:
  assumes "length v < 65536"
  shows "parse_all (add_tlv t v [] @ rest) = ie_of t v # parse_all rest"
proof -
  obtain a b where t: "to_be16 t = [a, b]" "from_be16 a b = t" by (rule to_be16_octets)
  obtain c d where l: "to_be16 (of_nat (length v)) = [c, d]" "from_be16 c d = of_nat (length v)" by (rule to_be16_octets)
  have "unat (of_nat (length v) :: u16) = length v" using assms by (simp add: unat_of_nat take_bit_nat_eq_self)
  then show ?thesis by (simp add: add_tlv_def t l ie_of_def)
qed

lemma add_tlv_append: "add_tlv t v buf = buf @ add_tlv t v []"
  by (simp add: add_tlv_def)

lemma be_at_put [simp]:
  "be32_at (to_be32 w @ r) 0 = w" "be64_at (to_be64 x @ r) 0 = x" "be16_at (to_be16 h @ r) 0 = h"
  by (simp_all add: be16_at_def be32_at_def be64_at_def to_be16_def to_be32_def to_be64_def from_be16_def from_be32_def
      from_be64_def halves16 halves32 halves64)

text \<open>The cursor steps over what the builder put there.\<close>

lemma take_put:
  "take_ipv4 (a \<noteq> None) e (opt_octets to_be32 a @ r) = Ok (a, r)"
  "(\<And>x. b = Some x \<Longrightarrow> length x = 16) \<Longrightarrow> take_ipv6 (b \<noteq> None) e (opt_octets id b @ r) = Ok (b, r)"
  by (cases a; simp add: take_ipv4_def opt_octets_def) (cases b; simp add: take_ipv6_def opt_octets_def)

lemma take_absent [simp]: "take_ipv4 False e r = Ok (None, r)" "take_ipv6 False e r = Ok (None, r)"
  by (simp_all add: take_ipv4_def take_ipv6_def)

lemma flags_read [simp]:
  "(flag a 1 OR flag b 2 :: u8) AND 1 = 0 \<longleftrightarrow> \<not> a" "(flag a 1 OR flag b 2 :: u8) AND 2 = 0 \<longleftrightarrow> \<not> b"
  "(flag a 1 OR (flag b 2 OR (flag c 4 OR flag d 8)) :: u8) AND 1 = 0 \<longleftrightarrow> \<not> a"
  "(flag a 1 OR (flag b 2 OR (flag c 4 OR flag d 8)) :: u8) AND 2 = 0 \<longleftrightarrow> \<not> b"
  "(flag a 1 OR (flag b 2 OR (flag c 4 OR flag d 8)) :: u8) AND 4 = 0 \<longleftrightarrow> \<not> c"
  "(flag a 1 OR (flag b 2 OR (flag c 4 OR flag d 8)) :: u8) AND 8 = 0 \<longleftrightarrow> \<not> d"
  by (cases a; cases b; simp add: flag_def)+

lemma f_seid_roundtrip:
  assumes "\<And>x. fs_ipv6 f = Some x \<Longrightarrow> length x = 16"
  shows "f_seid_parse (f_seid_encode f) = Ok f"
proof -
  have "f_seid_parse (flags # to_be64 seid @ opt_octets to_be32 a @ opt_octets id b) = Ok \<lparr>fs_seid = seid, fs_ipv4 = a, fs_ipv6 = b\<rparr>"
    if "flags AND 1 \<noteq> 0 \<longleftrightarrow> b \<noteq> None" "flags AND 2 \<noteq> 0 \<longleftrightarrow> a \<noteq> None" "\<And>x. b = Some x \<Longrightarrow> length x = 16" for flags seid a b
    using take_put(1) [of a _ "opt_octets id b"] take_put(2) [of b _ "[]"] that
    by (simp add: f_seid_parse_def Let_def)
  from this [of _ "fs_ipv6 f" "fs_ipv4 f" "fs_seid f"] assms show ?thesis
    by (simp add: f_seid_encode_def Let_def)
qed

definition f_teid_read :: "FTeid \<Rightarrow> ParsedFTeid" where
  "f_teid_read f =
     \<lparr>pt_teid = (if ft_choose f then 0 else ft_teid f), pt_ipv4 = (if ft_choose f then None else ft_ipv4 f),
      pt_ipv6 = (if ft_choose f then None else ft_ipv6 f), pt_ch = ft_choose f, pt_chid = (ft_choose_id f \<noteq> None),
      pt_choose_id = ft_choose_id f\<rparr>"

lemma f_teid_roundtrip:
  assumes "\<And>x. ft_ipv6 f = Some x \<Longrightarrow> length x = 16"
  shows "f_teid_parse (f_teid_value f) = Ok (f_teid_read f)"
proof -
  let ?id = "opt_octets (\<lambda>i. [i]) (ft_choose_id f)"
  have id: "(if ft_choose_id f \<noteq> None \<and> ?id \<noteq> [] then Some (?id ! 0) else None) = ft_choose_id f"
    by (cases "ft_choose_id f") (simp_all add: opt_octets_def)
  show ?thesis
    using take_put(1) [of "ft_ipv4 f" _ "opt_octets id (ft_ipv6 f) @ ?id"] take_put(2) [of "ft_ipv6 f" _ ?id] assms id
    by (cases "ft_choose f") (simp_all add: f_teid_parse_def f_teid_value_def f_teid_read_def Let_def or.assoc)
qed

lemma length_tlv [simp]: "length (add_tlv t v buf) = length buf + 4 + length v"
  by (simp add: add_tlv_def)

definition tlvs :: "(u16 \<times> bytes) list \<Rightarrow> bytes" where
  "tlvs xs = concat (map (\<lambda>(t, v). add_tlv t v []) xs)"

lemma tlvs_simps [simp]: "tlvs [] = []" "tlvs (x # xs) = add_tlv (fst x) (snd x) [] @ tlvs xs" "tlvs (xs @ ys) = tlvs xs @ tlvs ys"
  by (simp_all add: tlvs_def split_beta)

lemma parse_all_tlvs:
  "\<forall>x \<in> set xs. length (snd x) < 65536 \<Longrightarrow> parse_all (tlvs xs) = map (\<lambda>(t, v). ie_of t v) xs"
  by (induction xs) (auto simp: parse_all_tlv)

lemma fold_tlvs: "fold (\<lambda>x. add_tlv t (f x)) xs buf = buf @ tlvs (map (\<lambda>x. (t, f x)) xs)"
proof (induction xs arbitrary: buf)
  case (Cons x xs)
  show ?case using add_tlv_append [of t "f x" buf] by (simp add: Cons.IH)
qed simp

text \<open>What a reader of a Created PDR element gets.\<close>

definition created_pdr_read :: "bytes \<Rightarrow> u16 \<times> ParsedFTeid option" where
  "created_pdr_read v =
     (let ies = parse_all v
      in (ie_field ies PDR_ID 2 (\<lambda>x. be16_at x 0) 0,
          case ie_parsed ies F_TEID f_teid_parse of Ok x \<Rightarrow> x | _ \<Rightarrow> None))"

definition created_wf :: "CreatedPdr \<Rightarrow> bool" where
  "created_wf c \<longleftrightarrow>
     (\<forall>f x. cp_local_f_teid c = Some f \<longrightarrow> ft_ipv6 f = Some x \<longrightarrow> length x = 16) \<and>
     (\<forall>u x. cp_ue_ip_address c = Some u \<longrightarrow> ue_ipv6_addr u = Some x \<longrightarrow> length x = 16)"

lemma opt_octets_bound:
  "length (opt_octets to_be32 a) \<le> 4" "(\<And>x. b = Some x \<Longrightarrow> length x = 16) \<Longrightarrow> length (opt_octets id b) \<le> 16"
  "length (opt_octets (\<lambda>i. [i]) d) \<le> 1"
  by (simp_all add: opt_octets_def split: option.split)

lemma created_values_short:
  assumes "created_wf c"
  shows "cp_local_f_teid c = Some f \<Longrightarrow> length (f_teid_value f) \<le> 26"
    and "cp_ue_ip_address c = Some u \<Longrightarrow> length (ue_ip_value u src) \<le> 22"
  using assms opt_octets_bound(1) [of "ft_ipv4 f"] opt_octets_bound(2) [of "ft_ipv6 f"] opt_octets_bound(3) [of "ft_choose_id f"]
    opt_octets_bound(1) [of "ue_ipv4_addr u"] opt_octets_bound(2) [of "ue_ipv6_addr u"]
  by (simp_all add: created_wf_def f_teid_value_def ue_ip_value_def Let_def)

definition created_pdr_ies :: "CreatedPdr \<Rightarrow> (u16 \<times> bytes) list" where
  "created_pdr_ies c =
     (PDR_ID, to_be16 (cp_pdr_id c)) # map (\<lambda>f. (F_TEID, f_teid_value f)) (case cp_local_f_teid c of None \<Rightarrow> [] | Some f \<Rightarrow> [f]) @
     map (\<lambda>u. (UE_IP_ADDRESS, ue_ip_value u False)) (case cp_ue_ip_address c of None \<Rightarrow> [] | Some u \<Rightarrow> [u])"

lemma created_pdr_value_tlvs: "created_pdr_value c = tlvs (created_pdr_ies c)"
  unfolding created_pdr_value_def created_pdr_ies_def add_opt_def add_f_teid_def add_ue_ip_address_def add_pdr_id_def add_u16_def Let_def
  by (cases "cp_local_f_teid c"; cases "cp_ue_ip_address c") (simp_all, simp_all add: add_tlv_def)

lemma created_pdr_elements:
  assumes "created_wf c"
  shows "length (created_pdr_value c) < 65536"
    and "parse_all (created_pdr_value c) = map (\<lambda>(t, v). ie_of t v) (created_pdr_ies c)"
proof -
  note short = created_values_short [OF assms]
  show "length (created_pdr_value c) < 65536"
    using short(1) short(2) [where src = False]
    unfolding created_pdr_value_tlvs created_pdr_ies_def by (fastforce split: option.split)
  have "length (f_teid_value f) < 65536" if "cp_local_f_teid c = Some f" for f
    using short(1) [OF that] by simp
  moreover have "length (ue_ip_value u False) < 65536" if "cp_ue_ip_address c = Some u" for u
    using short(2) [OF that, of False] by simp
  ultimately have "\<forall>x \<in> set (created_pdr_ies c). length (snd x) < 65536"
    unfolding created_pdr_ies_def by (auto split: option.split)
  then show "parse_all (created_pdr_value c) = map (\<lambda>(t, v). ie_of t v) (created_pdr_ies c)"
    unfolding created_pdr_value_tlvs by (rule parse_all_tlvs)
qed

lemma created_pdr_roundtrip:
  assumes "created_wf c"
  shows "created_pdr_read (created_pdr_value c) = (cp_pdr_id c, map_option f_teid_read (cp_local_f_teid c))"
proof -
  have "ft_ipv6 f = Some x \<Longrightarrow> length x = 16" if "cp_local_f_teid c = Some f" for f x
    using assms that by (auto simp: created_wf_def)
  then show ?thesis
    using be_at_put(3) [of "cp_pdr_id c" "[]"]
    unfolding created_pdr_read_def created_pdr_elements(2) [OF assms] created_pdr_ies_def
    by (cases "cp_local_f_teid c"; cases "cp_ue_ip_address c")
      (simp_all add: Let_def ie_field_def ie_parsed_def find_ie_def ie_of_def pfcp_ie f_teid_roundtrip)
qed

lemma response_tlvs:
  "build_session_establishment_response n f created =
     tlvs ([(NODE_ID, node_id_encode n), (CAUSE, [1]), (F_SEID, f_seid_encode f)] @ map (\<lambda>c. (CREATED_PDR, created_pdr_value c)) created)"
proof -
  have "fold add_created_pdr created buf = buf @ tlvs (map (\<lambda>c. (CREATED_PDR, created_pdr_value c)) created)" for buf
    using fold_tlvs [of CREATED_PDR created_pdr_value created buf] by (simp add: add_created_pdr_def [abs_def])
  then show ?thesis
    by (simp add: build_session_establishment_response_def add_f_seid_def add_cause_def add_node_id_def add_u8_def)
      (simp add: add_tlv_def)
qed

text \<open>
  A session establishment response reads back: its cause is Request Accepted, its F-SEID is the one of the UPF,
  and its Created PDR elements carry, in order, the PDR identifiers and F-TEIDs that the UPF allocated.
\<close>

lemma establishment_response_reads:
  assumes "length (node_id_encode n) < 65536" and "\<forall>x. fs_ipv6 f = Some x \<longrightarrow> length x = 16" and "\<forall>c \<in> set created. created_wf c"
  shows "let ies = parse_all (build_session_establishment_response n f created) in
    map_option (\<lambda>ie. cause_from_u8 (ie_value ie ! 0)) (find_ie ies CAUSE) = Some RequestAccepted \<and>
    map_option (\<lambda>ie. f_seid_parse (ie_value ie)) (find_ie ies F_SEID) = Some (Ok f) \<and>
    map (\<lambda>ie. created_pdr_read (ie_value ie)) (find_all_ies ies CREATED_PDR) =
      map (\<lambda>c. (cp_pdr_id c, map_option f_teid_read (cp_local_f_teid c))) created"
proof -
  let ?ies = "[(NODE_ID, node_id_encode n), (CAUSE, [1]), (F_SEID, f_seid_encode f)] @ map (\<lambda>c. (CREATED_PDR, created_pdr_value c)) created"
  have "length (f_seid_encode f) < 65536"
    using opt_octets_bound(1) [of "fs_ipv4 f"] opt_octets_bound(2) [of "fs_ipv6 f"] assms(2) by (simp add: f_seid_encode_def Let_def)
  then have "\<forall>x \<in> set ?ies. length (snd x) < 65536" using assms(1,3) created_pdr_elements(1) by auto
  then have ies: "parse_all (build_session_establishment_response n f created) = map (\<lambda>(t, v). ie_of t v) ?ies"
    unfolding response_tlvs by (rule parse_all_tlvs)
  have "filter (\<lambda>ie. ie_type ie = CREATED_PDR) (map ((\<lambda>(t, v). ie_of t v) \<circ> (\<lambda>c. (CREATED_PDR, created_pdr_value c))) cs) =
      map (\<lambda>c. ie_of CREATED_PDR (created_pdr_value c)) cs" for cs
    by (induction cs) (simp_all add: ie_of_def)
  then have created: "map (\<lambda>ie. created_pdr_read (ie_value ie)) (find_all_ies (map (\<lambda>(t, v). ie_of t v) ?ies) CREATED_PDR) =
      map (\<lambda>c. created_pdr_read (created_pdr_value c)) created"
    by (simp add: find_all_ies_def ie_of_def pfcp_ie)
  have found: "find_ie (map (\<lambda>(t, v). ie_of t v) ?ies) CAUSE = Some (ie_of CAUSE [1])"
      "find_ie (map (\<lambda>(t, v). ie_of t v) ?ies) F_SEID = Some (ie_of F_SEID (f_seid_encode f))"
    by (simp_all add: find_ie_def ie_of_def pfcp_ie)
  have "map (\<lambda>c. created_pdr_read (created_pdr_value c)) created = map (\<lambda>c. (cp_pdr_id c, map_option f_teid_read (cp_local_f_teid c))) created"
    using assms(3) created_pdr_roundtrip by simp
  then show ?thesis
    unfolding ies Let_def created found using assms(2) by (simp add: ie_of_def cause_from_u8_def f_seid_roundtrip)
qed

section \<open>Where builder and parser disagree\<close>

text \<open>
  The builder announces the prefix length of a UE address with bit 0x40, the parser looks for it under 0x08: the
  length is lost and read as 64. And the direction that the builder calls source is the one the parser calls destination.
\<close>

lemma ue_ip_read:
  assumes "\<And>x. ue_ipv6_addr u = Some x \<Longrightarrow> length x = 16"
  shows "ue_ip_parse (ue_ip_value u src) =
    Ok \<lparr>pa_ipv4 = ue_ipv4_addr u, pa_ipv6 = ue_ipv6_addr u, pa_ipv6_prefix_len = (if ue_ipv6_addr u \<noteq> None then 64 else 0),
        pa_source = (\<not> src), pa_destination = src\<rparr>"
proof -
  have flags: "((flag a 1 OR (flag b 2 OR (flag c 4 OR flag e 64))) AND 1 = 0 \<longleftrightarrow> \<not> a) \<and> ((flag a 1 OR (flag b 2 OR (flag c 4 OR flag e 64))) AND 2 = 0 \<longleftrightarrow> \<not> b) \<and>
      ((flag a 1 OR (flag b 2 OR (flag c 4 OR flag e 64))) AND 4 = 0 \<longleftrightarrow> \<not> c) \<and> (flag a 1 OR (flag b 2 OR (flag c 4 OR flag e 64))) AND 8 = 0" for a b c e
    by (cases a; cases b; cases c; cases e; simp add: flag_def)
  show ?thesis
    using take_put(1) [of "ue_ipv4_addr u" _ "opt_octets id (ue_ipv6_addr u) @ (if ue_ipv6_prefix_len u > 0 then [ue_ipv6_prefix_len u] else [])"]
      take_put(2) [of "ue_ipv6_addr u" _ "if ue_ipv6_prefix_len u > 0 then [ue_ipv6_prefix_len u] else []"] assms
    unfolding ue_ip_parse_def ue_ip_value_def Let_def by (simp add: or.assoc flags)
qed

text \<open>A domain name is built as length-prefixed labels and parsed as plain text.\<close>

lemma fqdn_not_read_back:
  "node_id_parse (node_id_encode (NodeFqdn [0x61, 0x2E, 0x62])) = Ok (ParsedFqdn [1, 0x61, 1, 0x62])"
  by code_simp

section \<open>Two parsers of the header\<close>

text \<open>
  The UPF's own parser of PFCP headers agrees with the decoder of the PFCP library: what the library decodes, it
  decodes to the same version, type, length, SEID and sequence number, and leaves the same payload.
\<close>

lemma n4_header_agrees:
  assumes "pfcp_decode buf = Ok (h, rest)"
  shows "parse_pfcp_header buf =
    Ok (\<lparr>ph_version = hp_version h, ph_msg_type = pfcp_as_u8 (hp_message_type h), ph_length = hp_length h,
        ph_seid_present = hp_seid_presence h, ph_seid = (case hp_seid h of None \<Rightarrow> 0 | Some s \<Rightarrow> s),
        ph_sequence_number = hp_sequence_number h\<rparr>, rest)"
proof -
  have "\<not> length buf < 4" using assms pfcp_decode_short [of buf] by auto
  then obtain o1 o2 o3 o4 b where buf: "buf = o1 # o2 # o3 # o4 # b" using buffer_ge4 [of buf] by auto
  have version: "drop_bit 5 o1 AND 7 = drop_bit 5 o1" for o1 :: u8
  proof -
    have "drop_bit 5 o1 AND 7 = take_bit 3 (drop_bit 5 o1)" by (simp add: take_bit_eq_mask mask_eq_exp_minus_1)
    also have "\<dots> = drop_bit 5 o1" by (rule bit_word_eqI) (auto simp: bit_simps dest: bit_imp_le_length)
    finally show ?thesis .
  qed
  obtain t where t: "pfcp_try_from o2 = Ok t" using assms buf by (cases "pfcp_try_from o2") (auto simp: pfcp_decode_octets split: if_split_asm)
  have o2: "pfcp_as_u8 t = o2" using t by (simp add: pfcp_type.try_from_Ok_iff)
  show ?thesis
    using assms t o2 version
    unfolding buf pfcp_decode_octets parse_pfcp_header_def be16_at_def be64_at_def
    by (auto simp: Let_def pfcp_read_tail_def split: if_split_asm list.split_asm)
qed

end
