(* ===== verification/Ipfw_Text.thy ===== *)
theory Ipfw_Text
  imports Ipfw
begin

text \<open>
  Flow descriptions of packet filters (\<^verbatim>\<open>libs/nextgcore-ipfw/src/rule.rs\<close>): \<^verbatim>\<open>compile_rule\<close> parses
  \<^verbatim>\<open>permit out <proto> from <src> [<port>] to <dst> [<port>]\<close>, \<^verbatim>\<open>encode_flow_description\<close> prints a rule. A string is the list
  of its UTF-8 octets. The first section holds what the code uses of the standard library: white space, numbers, IP
  addresses as text.
\<close>

section \<open>Text\<close>

definition txt_of :: "string \<Rightarrow> bytes" where
  "txt_of = map of_char"

text \<open>The number of octets of the white-space character at the front, 0 if there is none (\<^verbatim>\<open>char::is_whitespace\<close>).\<close>

definition white_space :: "bytes \<Rightarrow> nat" where
  "white_space s =
     (case s of
        [] \<Rightarrow> 0
      | a # r \<Rightarrow>
          if 9 \<le> a \<and> a \<le> 13 \<or> a = 0x20 then 1
          else (case r of
                  [] \<Rightarrow> 0
                | b # r \<Rightarrow>
                    if a = 0xC2 \<and> (b = 0x85 \<or> b = 0xA0) then 2
                    else (case r of
                            [] \<Rightarrow> 0
                          | c # _ \<Rightarrow>
                              if a = 0xE1 \<and> b = 0x9A \<and> c = 0x80 \<or>
                                 a = 0xE2 \<and> b = 0x80 \<and> (0x80 \<le> c \<and> c \<le> 0x8A \<or> c = 0xA8 \<or> c = 0xA9 \<or> c = 0xAF) \<or>
                                 a = 0xE2 \<and> b = 0x81 \<and> c = 0x9F \<or> a = 0xE3 \<and> b = 0x80 \<and> c = 0x80
                              then 3 else 0)))"

text \<open>\<^verbatim>\<open>str::split_whitespace\<close>, with the characters of the current token.\<close>

definition token :: "bytes \<Rightarrow> bytes list" where
  "token t = (if t = [] then [] else [t])"

function split_whitespace :: "bytes \<Rightarrow> bytes \<Rightarrow> bytes list" where
  "split_whitespace t [] = token t"
| "split_whitespace t (b # s) =
     (let n = white_space (b # s)
      in if n = 0 then split_whitespace (t @ [b]) s else token t @ split_whitespace [] (drop (n - 1) s))"
  by pat_completeness auto

termination
  by (relation "measure (\<lambda>(_, s). length s)") auto

text \<open>
  \<^verbatim>\<open>to_lowercase\<close>, as far as a comparison with ASCII letters other than k can tell: no other character has a lower case made
  of such letters.
\<close>

definition to_lowercase :: "bytes \<Rightarrow> bytes" where
  "to_lowercase = map (\<lambda>b. if 0x41 \<le> b \<and> b \<le> 0x5A then b + 0x20 else b)"

definition digit_value :: "nat \<Rightarrow> u8 \<Rightarrow> nat option" where
  "digit_value radix b =
     (let d = (if 0x30 \<le> b \<and> b \<le> 0x39 then unat b - 0x30
               else if 0x61 \<le> b \<and> b \<le> 0x7A then unat b - 0x61 + 10
               else if 0x41 \<le> b \<and> b \<le> 0x5A then unat b - 0x41 + 10
               else radix)
      in if d < radix then Some d else None)"

text \<open>\<^verbatim>\<open>str::parse\<close> for an unsigned type: an optional plus sign, then digits; an overflow is an error at its digit.\<close>

fun parse_digits :: "nat \<Rightarrow> nat \<Rightarrow> bytes \<Rightarrow> nat option" where
  "parse_digits m acc [] = Some acc"
| "parse_digits m acc (b # s) =
     (case digit_value 10 b of
        None \<Rightarrow> None
      | Some d \<Rightarrow> if acc * 10 + d > m then None else parse_digits m (acc * 10 + d) s)"

definition parse_unsigned :: "nat \<Rightarrow> bytes \<Rightarrow> nat option" where
  "parse_unsigned m s =
     (let ds = (case s of [] \<Rightarrow> [] | b # r \<Rightarrow> if b = 0x2B \<and> r \<noteq> [] then r else s)
      in if ds = [] then None else parse_digits m 0 ds)"

definition parse_u8 :: "bytes \<Rightarrow> u8 option" where
  "parse_u8 s = map_option of_nat (parse_unsigned 255 s)"

definition parse_u16 :: "bytes \<Rightarrow> u16 option" where
  "parse_u16 s = map_option of_nat (parse_unsigned 65535 s)"

section \<open>IP addresses as text\<close>

text \<open>\<^verbatim>\<open>Parser::read_number\<close> of \<^verbatim>\<open>core::net\<close>: the longest run of digits, of which at most \<open>k\<close> are allowed.\<close>

definition read_number :: "nat \<Rightarrow> nat \<Rightarrow> bool \<Rightarrow> nat \<Rightarrow> bytes \<Rightarrow> (nat \<times> bytes) option" where
  "read_number radix k allow_zero_prefix m s =
     (let ds = takeWhile (\<lambda>b. digit_value radix b \<noteq> None) s;
          v = foldl (\<lambda>acc b. acc * radix + the (digit_value radix b)) 0 ds
      in if ds = [] \<or> length ds > k \<or> \<not> allow_zero_prefix \<and> hd ds = 0x30 \<and> length ds > 1 \<or> v > m then None
         else Some (v, drop (length ds) s))"

definition read_given :: "u8 \<Rightarrow> bytes \<Rightarrow> bytes option" where
  "read_given c s = (case s of b # r \<Rightarrow> if b = c then Some r else None | [] \<Rightarrow> None)"

text \<open>\<^verbatim>\<open>Parser::read_separator\<close>: no separator before the first element.\<close>

definition read_separator :: "u8 \<Rightarrow> nat \<Rightarrow> (bytes \<Rightarrow> 'a option) \<Rightarrow> bytes \<Rightarrow> 'a option" where
  "read_separator c i read s = (if i > 0 then Option.bind (read_given c s) read else read s)"

definition read_ipv4_octet :: "nat \<Rightarrow> bytes \<Rightarrow> (nat \<times> bytes) option" where
  "read_ipv4_octet i = read_separator 0x2E i (read_number 10 3 False 255)"

definition read_ipv4 :: "bytes \<Rightarrow> (nat list \<times> bytes) option" where
  "read_ipv4 s =
     Option.bind (read_ipv4_octet 0 s) (\<lambda>(a, s).
     Option.bind (read_ipv4_octet 1 s) (\<lambda>(b, s).
     Option.bind (read_ipv4_octet 2 s) (\<lambda>(c, s).
     Option.bind (read_ipv4_octet 3 s) (\<lambda>(d, s). Some ([a, b, c, d], s)))))"

definition ipv4_of_octets :: "nat list \<Rightarrow> u32" where
  "ipv4_of_octets os = from_be32 (of_nat (os ! 0)) (of_nat (os ! 1)) (of_nat (os ! 2)) (of_nat (os ! 3))"

text \<open>\<^verbatim>\<open>Ipv4Addr::from_str\<close>: at most 15 octets of text, all of it an address.\<close>

definition ipv4_from_str :: "bytes \<Rightarrow> u32 option" where
  "ipv4_from_str s =
     (if length s > 15 then None
      else case read_ipv4 s of Some (os, []) \<Rightarrow> Some (ipv4_of_octets os) | _ \<Rightarrow> None)"

text \<open>
  The groups of an IPv6 address from the \<open>i\<close>-th on, \<open>n\<close> of them at most: the last two may be an embedded IPv4 address, which
  the flag tells.
\<close>

fun read_groups :: "nat \<Rightarrow> nat \<Rightarrow> bytes \<Rightarrow> u16 list \<times> bool \<times> bytes" where
  "read_groups i 0 s = ([], False, s)"
| "read_groups i (Suc n) s =
     (case (if n > 0 then read_separator 0x3A i read_ipv4 s else None) of
        Some (os, s) \<Rightarrow> ([of_nat (os ! 0 * 256 + os ! 1), of_nat (os ! 2 * 256 + os ! 3)], True, s)
      | None \<Rightarrow>
          (case read_separator 0x3A i (read_number 16 4 True 65535) s of
             None \<Rightarrow> ([], False, s)
           | Some (g, s) \<Rightarrow> let (gs, v4, s) = read_groups (Suc i) n s in (of_nat g # gs, v4, s)))"

text \<open>\<^verbatim>\<open>Ipv6Addr::from_str\<close>: eight groups, or a head and a tail around \<open>::\<close>, which stands for at least one group.\<close>

definition ipv6_from_str :: "bytes \<Rightarrow> u16 list option" where
  "ipv6_from_str s =
     (let (head, head_v4, r) = read_groups 0 8 s
      in if length head = 8 then (if r = [] then Some head else None)
         else if head_v4 then None
         else case Option.bind (read_given 0x3A r) (read_given 0x3A) of
                None \<Rightarrow> None
              | Some r \<Rightarrow>
                  let (tl, _, r) = read_groups 0 (8 - (length head + 1)) r
                  in if r = [] then Some (head @ replicate (8 - length head - length tl) 0 @ tl) else None)"

section \<open>Compiling a flow description\<close>

datatype IpfwError =
    InvalidSyntax string
  | MissingKeyword string
  | InvalidAddress bytes
  | InvalidPort bytes
  | InvalidProtocol bytes

definition parse_protocol :: "bytes \<Rightarrow> (IpfwError, u8) outcome" where
  "parse_protocol s =
     (let l = to_lowercase s
      in if l = txt_of ''ip'' then Ok 0
         else if l = txt_of ''icmp'' then Ok 1
         else if l = txt_of ''tcp'' then Ok 6
         else if l = txt_of ''udp'' then Ok 17
         else if l = txt_of ''icmpv6'' \<or> l = txt_of ''ipv6-icmp'' then Ok 58
         else case parse_u8 s of Some p \<Rightarrow> Ok p | None \<Rightarrow> Err (InvalidProtocol s))"

text \<open>The text before and after the first \<open>c\<close>, if there is one (\<^verbatim>\<open>str::find\<close> and slicing).\<close>

definition split_at :: "u8 \<Rightarrow> bytes \<Rightarrow> (bytes \<times> bytes) option" where
  "split_at c s = (if c \<in> set s then Some (takeWhile (\<lambda>b. b \<noteq> c) s, tl (dropWhile (\<lambda>b. b \<noteq> c) s)) else None)"

definition set_ipv4 :: "bool \<Rightarrow> IpAddrMask \<Rightarrow> IpfwRule \<Rightarrow> IpfwRule" where
  "set_ipv4 is_src a r =
     (if is_src then r\<lparr>ipv4_src := True, ip := (ip r)\<lparr>ip_src := a\<rparr>\<rparr> else r\<lparr>ipv4_dst := True, ip := (ip r)\<lparr>ip_dst := a\<rparr>\<rparr>)"

definition set_ipv6 :: "bool \<Rightarrow> IpAddrMask \<Rightarrow> IpfwRule \<Rightarrow> IpfwRule" where
  "set_ipv6 is_src a r =
     (if is_src then r\<lparr>ipv6_src := True, ip := (ip r)\<lparr>ip_src := a\<rparr>\<rparr> else r\<lparr>ipv6_dst := True, ip := (ip r)\<lparr>ip_dst := a\<rparr>\<rparr>)"

definition set_port :: "bool \<Rightarrow> PortRange \<Rightarrow> IpfwRule \<Rightarrow> IpfwRule" where
  "set_port is_src p r =
     (if is_src then r\<lparr>port := (port r)\<lparr>port_src := p\<rparr>\<rparr> else r\<lparr>port := (port r)\<lparr>port_dst := p\<rparr>\<rparr>)"

definition parse_address :: "bytes \<Rightarrow> IpfwRule \<Rightarrow> bool \<Rightarrow> (IpfwError, IpfwRule) outcome" where
  "parse_address s r is_src =
     (let found = split_at 0x2F s;
          prefix = (case found of None \<Rightarrow> None | Some (_, p) \<Rightarrow> parse_u8 p);
          addr_part = (case found of None \<Rightarrow> s | Some (a, _) \<Rightarrow> a)
      in if found \<noteq> None \<and> prefix = None then Err (InvalidAddress s)
         else case ipv4_from_str addr_part of
                Some a \<Rightarrow> Ok (set_ipv4 is_src (from_ipv4 a (case prefix of None \<Rightarrow> 32 | Some p \<Rightarrow> p)) r)
              | None \<Rightarrow>
                  (case ipv6_from_str addr_part of
                     Some a \<Rightarrow> Ok (set_ipv6 is_src (from_ipv6 a (case prefix of None \<Rightarrow> 128 | Some p \<Rightarrow> p)) r)
                   | None \<Rightarrow> Err (InvalidAddress s)))"

definition parse_port :: "bytes \<Rightarrow> IpfwRule \<Rightarrow> bool \<Rightarrow> (IpfwError, IpfwRule) outcome" where
  "parse_port s r is_src =
     (case split_at 0x2D s of
        Some (l, h) \<Rightarrow>
          (case (parse_u16 l, parse_u16 h) of
             (Some l, Some h) \<Rightarrow> Ok (set_port is_src (port_range l h) r)
           | _ \<Rightarrow> Err (InvalidPort s))
      | None \<Rightarrow> (case parse_u16 s of Some p \<Rightarrow> Ok (set_port is_src (port_single p) r) | None \<Rightarrow> Err (InvalidPort s)))"

definition parse_address_port :: "bytes list \<Rightarrow> IpfwRule \<Rightarrow> bool \<Rightarrow> (IpfwError, IpfwRule) outcome" where
  "parse_address_port tokens r is_src =
     (case tokens of
        [] \<Rightarrow> Err (InvalidSyntax ''Missing address'')
      | addr_str # rest \<Rightarrow>
          obind (if addr_str = txt_of ''any'' \<or> addr_str = txt_of ''assigned'' then Ok r else parse_address addr_str r is_src)
            (\<lambda>r. case rest of [] \<Rightarrow> Ok r | p # _ \<Rightarrow> parse_port p r is_src))"

fun position :: "'a \<Rightarrow> 'a list \<Rightarrow> nat option" where
  "position x [] = None"
| "position x (y # ys) = (if x = y then Some 0 else map_option Suc (position x ys))"

text \<open>A slice whose start is behind its end panics.\<close>

definition compile_tokens :: "bytes list \<Rightarrow> (IpfwError, IpfwRule) outcome" where
  "compile_tokens tokens =
     (if tokens = [] then Err (InvalidSyntax ''Empty flow description'')
      else if tokens ! 0 \<noteq> txt_of ''permit'' then Err (MissingKeyword ''permit'')
      else if length tokens < 2 \<or> tokens ! 1 \<noteq> txt_of ''out'' then Err (MissingKeyword ''out'')
      else if length tokens < 3 then Err (InvalidSyntax ''Missing protocol'')
      else obind (parse_protocol (tokens ! 2)) (\<lambda>p.
        case position (txt_of ''from'') tokens of
          None \<Rightarrow> Err (MissingKeyword ''from'')
        | Some from_idx \<Rightarrow>
            (case position (txt_of ''to'') tokens of
               None \<Rightarrow> Err (MissingKeyword ''to'')
             | Some to_idx \<Rightarrow>
                 if from_idx + 1 > to_idx then Panic
                 else obind (parse_address_port (drop (from_idx + 1) (take to_idx tokens)) (rule_new\<lparr>proto := p\<rparr>) True)
                        (\<lambda>r. parse_address_port (drop (to_idx + 1) tokens) r False))))"

definition compile_rule :: "bytes \<Rightarrow> (IpfwError, IpfwRule) outcome" where
  "compile_rule s = compile_tokens (split_whitespace [] s)"

section \<open>Printing a rule\<close>

definition digit_char :: "nat \<Rightarrow> u8" where
  "digit_char d = of_nat (if d < 10 then 0x30 + d else 0x61 + d - 10)"

fun print_number :: "nat \<Rightarrow> nat \<Rightarrow> bytes" where
  "print_number radix n =
     (if radix < 2 \<or> n < radix then [digit_char n] else print_number radix (n div radix) @ [digit_char (n mod radix)])"

declare print_number.simps [simp del]

definition join :: "bytes \<Rightarrow> bytes list \<Rightarrow> bytes" where
  "join sep ts = (case ts of [] \<Rightarrow> [] | t # ts \<Rightarrow> t @ concat (map (\<lambda>t. sep @ t) ts))"

definition ipv4_to_string :: "u32 \<Rightarrow> bytes" where
  "ipv4_to_string a = join [0x2E] (map (\<lambda>b. print_number 10 (unat b)) (to_be32 a))"

text \<open>The longest run of zero groups, the first one of several: start and length.\<close>

fun zero_span :: "nat \<Rightarrow> u16 list \<Rightarrow> nat \<times> nat \<Rightarrow> nat \<times> nat \<Rightarrow> nat \<times> nat" where
  "zero_span i [] current longest = longest"
| "zero_span i (g # gs) current longest =
     (if g = 0
      then let current = (if snd current = 0 then i else fst current, snd current + 1)
           in zero_span (Suc i) gs current (if snd current > snd longest then current else longest)
      else zero_span (Suc i) gs (0, 0) longest)"

definition print_groups :: "u16 list \<Rightarrow> bytes" where
  "print_groups gs = join [0x3A] (map (\<lambda>g. print_number 16 (unat g)) gs)"

definition ipv6_to_string :: "u16 list \<Rightarrow> bytes" where
  "ipv6_to_string gs =
     (if take 6 gs = [0, 0, 0, 0, 0, 0xFFFF]
      then txt_of ''::ffff:'' @ ipv4_to_string (push_bit 16 (ucast (gs ! 6)) OR ucast (gs ! 7))
      else
        let (start, len) = zero_span 0 gs (0, 0) (0, 0)
        in if len > 1 then print_groups (take start gs) @ txt_of ''::'' @ print_groups (drop (start + len) gs)
           else print_groups gs)"

definition segments_of :: "u32 list \<Rightarrow> u16 list" where
  "segments_of ws = concat (map (\<lambda>w. [ucast (drop_bit 16 w), ucast w]) ws)"

definition encode_address_port :: "IpfwRule \<Rightarrow> bool \<Rightarrow> bytes" where
  "encode_address_port r is_src =
     (let has_ipv4 = (if is_src then ipv4_src r else ipv4_dst r);
          has_ipv6 = (if is_src then ipv6_src r else ipv6_dst r);
          a = (if is_src then ip_src (ip r) else ip_dst (ip r));
          p = (if is_src then port_src (port r) else port_dst (port r));
          unspecified = txt_of (if is_src then ''any'' else ''assigned'');
          printed = (\<lambda>addr bits prefix.
            if prefix = 0 then unspecified
            else if prefix = bits then addr
            else addr @ [0x2F] @ print_number 10 prefix);
          result =
            (if has_ipv4 then printed (ipv4_to_string (ip_addr a ! 0)) 32 (count_prefix_bits (ip_mask a) IPV4_BITLEN)
             else if has_ipv6 then printed (ipv6_to_string (segments_of (ip_addr a))) 128 (count_prefix_bits (ip_mask a) IPV6_BITLEN)
             else unspecified)
      in if port_is_empty p then result
         else if port_is_single p then result @ [0x20] @ print_number 10 (unat (low p))
         else result @ [0x20] @ print_number 10 (unat (low p)) @ [0x2D] @ print_number 10 (unat (high p)))"

definition encode_flow_description :: "IpfwRule \<Rightarrow> (IpfwError, bytes) outcome" where
  "encode_flow_description r =
     Ok (join [0x20]
       [txt_of ''permit out'', if proto r = 0 then txt_of ''ip'' else print_number 10 (unat (proto r)),
        txt_of ''from'', encode_address_port r True, txt_of ''to'', encode_address_port r False])"

section \<open>Printed numbers are read back\<close>

definition digit :: "u8 \<Rightarrow> bool" where
  "digit b \<longleftrightarrow> 0x30 \<le> b \<and> b \<le> 0x39"

lemma digit_value_digit:
  assumes "digit b"
  shows "digit_value 10 b = Some (unat b - 0x30)"
proof -
  have "unat b \<le> 0x39" using assms by (simp add: digit_def word_le_nat_alt)
  then have "unat b - 0x30 < 10" by simp
  then show ?thesis using assms by (simp add: digit_value_def digit_def Let_def)
qed

lemma unat_digit_char: "d < 10 \<Longrightarrow> unat (digit_char d) = 0x30 + d"
  unfolding digit_char_def by (subst unat_of_nat) simp

lemma digit_char_decimal: "d < 10 \<Longrightarrow> digit (digit_char d) \<and> digit_value 10 (digit_char d) = Some d"
proof -
  assume d: "d < 10"
  then have "digit (digit_char d)" by (simp add: digit_def word_le_nat_alt unat_digit_char)
  then show ?thesis using digit_value_digit [of "digit_char d"] unat_digit_char [OF d] by simp
qed

lemma digit_char_zero: "0 < d \<Longrightarrow> d < 10 \<Longrightarrow> digit_char d \<noteq> 0x30"
  using unat_digit_char [of d] by auto

lemma print_small: "n < 10 \<Longrightarrow> print_number 10 n = [digit_char n]"
  by (subst print_number.simps) simp

lemma print_large: "n \<ge> 10 \<Longrightarrow> print_number 10 n = print_number 10 (n div 10) @ [digit_char (n mod 10)]"
  by (subst print_number.simps) simp

lemma decimal_induct [case_names small large]:
  fixes n :: nat
  assumes "\<And>n. n < 10 \<Longrightarrow> P n" and "\<And>n. n \<ge> 10 \<Longrightarrow> P (n div 10) \<Longrightarrow> P n"
  shows "P n"
proof (induction n rule: less_induct)
  case (less n)
  then show ?case using assms by (cases "n < 10") auto
qed

lemma print_ne [simp]: "print_number 10 n \<noteq> []"
  by (cases "n < 10") (simp_all add: print_small print_large)

lemma print_digits: "list_all digit (print_number 10 n)"
  by (induction n rule: decimal_induct) (simp_all add: print_small print_large digit_char_decimal)

lemma print_hd_digit: "digit (hd (print_number 10 n))"
  using print_digits [of n] by (cases "print_number 10 n") simp_all

lemma print_hd: "n > 0 \<Longrightarrow> hd (print_number 10 n) \<noteq> 0x30"
proof (induction n rule: decimal_induct)
  case (large n)
  then show ?case by (simp add: print_large hd_append)
qed (simp add: print_small digit_char_zero)

lemma print_length: "n < 1000 \<Longrightarrow> length (print_number 10 n) \<le> 3"
  by (cases "n < 10"; cases "n div 10 < 10") (simp_all add: print_small print_large)

lemma print_single: "length (print_number 10 n) > 1 \<Longrightarrow> n > 0"
  by (cases "n < 10") (simp_all add: print_small)

lemma parse_digits_snoc:
  "parse_digits m acc (s @ [b]) = Option.bind (parse_digits m acc s) (\<lambda>v. parse_digits m v [b])"
  by (induction s arbitrary: acc) (simp_all split: option.split)

lemma parse_print_digits: "n \<le> m \<Longrightarrow> parse_digits m 0 (print_number 10 n) = Some n"
proof (induction n rule: decimal_induct)
  case (large n)
  then have "parse_digits m 0 (print_number 10 (n div 10)) = Some (n div 10)" by simp
  then show ?case
    using large digit_char_decimal [of "n mod 10"] by (simp add: print_large parse_digits_snoc)
qed (simp add: print_small digit_char_decimal)

lemma parse_print: "n \<le> m \<Longrightarrow> parse_unsigned m (print_number 10 n) = Some n"
  using parse_print_digits [of n m] print_hd_digit [of n]
  by (cases "print_number 10 n") (auto simp: parse_unsigned_def digit_def)

lemma unat_bound: "unat (w :: 'a::len word) < 2 ^ LENGTH('a)"
  by (rule unsigned_less)

lemma parse_print_u8 [simp]: "parse_u8 (print_number 10 (unat w)) = Some w"
  using unat_bound [of w] by (simp add: parse_u8_def parse_print)

lemma parse_print_u16 [simp]: "parse_u16 (print_number 10 (unat w)) = Some w"
  using unat_bound [of w] by (simp add: parse_u16_def parse_print)

section \<open>Printed addresses are read back\<close>

lemma value_snoc:
  "foldl (\<lambda>acc b. acc * 10 + the (digit_value 10 b)) 0 (print_number 10 n) = n"
  by (induction n rule: decimal_induct) (simp_all add: print_small print_large digit_char_decimal)

lemma read_number_print:
  assumes "n \<le> 255" and "r = [] \<or> \<not> digit (hd r) \<and> hd r < 0x41"
  shows "read_number 10 3 False 255 (print_number 10 n @ r) = Some (n, r)"
proof -
  have stop: "takeWhile (\<lambda>b. digit_value 10 b \<noteq> None) r = []"
    using assms(2) by (cases r) (auto simp: digit_value_def digit_def Let_def split: if_split_asm)
  have ds: "takeWhile (\<lambda>b. digit_value 10 b \<noteq> None) (print_number 10 n @ r) = print_number 10 n"
    using print_digits [of n] stop by (simp add: takeWhile_append list_all_iff digit_value_digit)
  have "\<not> (hd (print_number 10 n) = 0x30 \<and> length (print_number 10 n) > 1)"
    using print_hd print_single by blast
  then show ?thesis
    using assms(1) print_length [of n] unfolding read_number_def ds Let_def value_snoc by auto
qed

lemma octet_le [simp]: "unat (b :: u8) \<le> 255"
  using unat_bound [of b] by simp

lemma ipv4_round: "ipv4_from_str (ipv4_to_string a) = Some a"
proof -
  obtain b c d e where oct: "to_be32 a = [b, c, d, e]" and a: "from_be32 b c d e = a" by (rule to_be32_octets)
  let ?p = "\<lambda>w :: u8. print_number 10 (unat w)"
  have printed: "ipv4_to_string a = ?p b @ 0x2E # ?p c @ 0x2E # ?p d @ 0x2E # ?p e"
    by (simp add: ipv4_to_string_def oct join_def)
  have len: "length (?p w) \<le> 3" for w
    by (rule print_length) (use octet_le [of w] in linarith)
  have dot: "read_number 10 3 False 255 (?p w @ 0x2E # r) = Some (unat w, 0x2E # r)" for w r
    by (rule read_number_print) (simp_all add: digit_def)
  have last: "read_number 10 3 False 255 (?p w) = Some (unat w, [])" for w
    using read_number_print [of "unat w" "[]"] by simp
  have "read_ipv4 (ipv4_to_string a) = Some ([unat b, unat c, unat d, unat e], [])"
    unfolding printed by (simp add: read_ipv4_def read_ipv4_octet_def read_separator_def read_given_def dot last)
  then show ?thesis
    using len [of b] len [of c] len [of d] len [of e]
    by (simp add: ipv4_from_str_def ipv4_of_octets_def a) (simp add: printed)
qed

section \<open>Printed rules are read back\<close>

text \<open>Tokens of printable ASCII characters without the space survive joining and splitting.\<close>

definition plain :: "bytes \<Rightarrow> bool" where
  "plain t \<longleftrightarrow> t \<noteq> [] \<and> (\<forall>b \<in> set t. 0x21 \<le> b \<and> b \<le> 0x7E)"

lemma white_space_plain: "0x21 \<le> b \<Longrightarrow> b \<le> 0x7E \<Longrightarrow> white_space (b # s) = 0"
proof -
  assume "0x21 \<le> b" and "b \<le> 0x7E"
  then have "\<not> b \<le> 13" "b \<noteq> 0x20" "b \<noteq> 0xC2" "b \<noteq> 0xE1" "b \<noteq> 0xE2" "b \<noteq> 0xE3" by (auto simp: word_le_nat_alt)
  then show ?thesis by (simp add: white_space_def split: list.split)
qed

lemma join_Cons: "join [c] (t # ts) = t @ concat (map ((#) c) ts)"
proof -
  have "(\<lambda>t. [c] @ t) = (#) c" by auto
  then show ?thesis by (simp only: join_def list.case)
qed

lemma split_plain:
  "\<forall>b \<in> set u. 0x21 \<le> b \<and> b \<le> 0x7E \<Longrightarrow> split_whitespace t (u @ s) = split_whitespace (t @ u) s"
  by (induction u arbitrary: t) (simp_all add: white_space_plain)

lemma split_space: "split_whitespace t (0x20 # s) = token t @ split_whitespace [] s"
  by (simp add: white_space_def)

lemma split_join_rest: "plain t \<Longrightarrow> list_all plain ts \<Longrightarrow> split_whitespace t (concat (map ((#) 0x20) ts)) = t # ts"
proof (induction ts arbitrary: t)
  case (Cons u ts)
  have "split_whitespace [] (u @ concat (map ((#) 0x20) ts)) = split_whitespace u (concat (map ((#) 0x20) ts))"
    using split_plain [of u "[]"] Cons.prems(2) by (simp add: plain_def)
  then show ?case using Cons by (simp add: split_space token_def plain_def del: split_whitespace.simps)
qed (simp add: token_def plain_def)

lemma split_join: "list_all plain ts \<Longrightarrow> split_whitespace [] (join [0x20] ts) = ts"
proof (cases ts)
  case (Cons t us)
  moreover assume "list_all plain ts"
  ultimately show ?thesis
    using split_plain [of t "[]" "concat (map ((#) 0x20) us)"] split_join_rest [of t us]
    by (simp add: join_Cons plain_def)
qed (simp add: join_def token_def)

lemma plain_print [simp]: "plain (print_number 10 n)"
proof -
  have "0x21 \<le> b \<and> b \<le> 0x7E" if "digit b" for b using that by (simp add: digit_def word_le_nat_alt)
  then show ?thesis using print_digits [of n] by (auto simp: plain_def list_all_iff)
qed

lemma plain_append: "plain s \<Longrightarrow> plain t \<Longrightarrow> plain (s @ t)"
  by (auto simp: plain_def)

lemma plain_join: "list_all plain ts \<Longrightarrow> ts \<noteq> [] \<Longrightarrow> plain [c] \<Longrightarrow> plain (join [c] ts)"
  by (cases ts) (auto simp: join_def plain_def list_all_iff)

lemma plain_ipv4 [simp]: "plain (ipv4_to_string a)"
  unfolding ipv4_to_string_def by (rule plain_join) (auto simp: list_all_iff plain_def [of "[_]"] to_be32_def to_be16_def)

lemma hd_ipv4: "digit (hd (ipv4_to_string a))"
  by (simp add: ipv4_to_string_def join_def to_be32_def to_be16_def print_hd_digit)

text \<open>What \<^verbatim>\<open>encode_address_port\<close> prints for one side of a rule, as tokens.\<close>

definition port_text :: "PortRange \<Rightarrow> bytes" where
  "port_text p = (if port_is_single p then print_number 10 (unat (low p))
     else print_number 10 (unat (low p)) @ [0x2D] @ print_number 10 (unat (high p)))"

definition side_tokens :: "bool \<Rightarrow> IpAddrMask \<Rightarrow> PortRange \<Rightarrow> bytes \<Rightarrow> bytes list" where
  "side_tokens h a p u = (if h then ipv4_to_string (ip_addr a ! 0) else u) # (if port_is_empty p then [] else [port_text p])"

definition side_ok :: "bool \<Rightarrow> bool \<Rightarrow> IpAddrMask \<Rightarrow> bool" where
  "side_ok h4 h6 a \<longleftrightarrow> \<not> h6 \<and> (if h4 then a = from_ipv4 (ip_addr a ! 0) 32 else a = addr_mask_default)"

text \<open>A rule about hosts: IPv4 addresses without a shorter prefix, or none, and the fields that have no text unset.\<close>

definition host_rule :: "IpfwRule \<Rightarrow> bool" where
  "host_rule r \<longleftrightarrow> side_ok (ipv4_src r) (ipv6_src r) (ip_src (ip r)) \<and> side_ok (ipv4_dst r) (ipv6_dst r) (ip_dst (ip r)) \<and>
     tos_traffic_class r = 0 \<and> security_parameter_index r = 0 \<and> flow_label r = 0 \<and> sdf_filter_id r = 0"

lemma host_prefix: "a = from_ipv4 w 32 \<Longrightarrow> count_prefix_bits (ip_mask a) IPV4_BITLEN = 32"
  by (simp add: from_ipv4_def count_prefix_bits_def IPV4_BITLEN_def u32_from_be_def to_be32_def to_be16_def from_be32_def from_be16_def)

lemma side_prefix: "side_ok h h6 a \<Longrightarrow> h \<Longrightarrow> count_prefix_bits (ip_mask a) IPV4_BITLEN = 32"
  unfolding side_ok_def by (metis host_prefix)

lemma encode_side:
  assumes "host_rule r"
  shows "encode_address_port r True = join [0x20] (side_tokens (ipv4_src r) (ip_src (ip r)) (port_src (port r)) (txt_of ''any''))"
    and "encode_address_port r False = join [0x20] (side_tokens (ipv4_dst r) (ip_dst (ip r)) (port_dst (port r)) (txt_of ''assigned''))"
proof -
  have sides: "side_ok (ipv4_src r) (ipv6_src r) (ip_src (ip r))" "side_ok (ipv4_dst r) (ipv6_dst r) (ip_dst (ip r))"
    using assms by (simp_all add: host_rule_def)
  have "\<not> ipv6_src r" "\<not> ipv6_dst r" using sides by (simp_all add: side_ok_def)
  then show "encode_address_port r True = join [0x20] (side_tokens (ipv4_src r) (ip_src (ip r)) (port_src (port r)) (txt_of ''any''))"
    and "encode_address_port r False = join [0x20] (side_tokens (ipv4_dst r) (ip_dst (ip r)) (port_dst (port r)) (txt_of ''assigned''))"
    using side_prefix [OF sides(1)] side_prefix [OF sides(2)]
    by (simp_all add: encode_address_port_def side_tokens_def port_text_def join_def Let_def)
qed

lemma ipv4_chars: "b \<in> set (ipv4_to_string a) \<Longrightarrow> digit b \<or> b = 0x2E"
  using print_digits by (auto simp: ipv4_to_string_def join_def to_be32_def to_be16_def list_all_iff)

lemma parse_address_host: "parse_address (ipv4_to_string w) r b = Ok (set_ipv4 b (from_ipv4 w 32) r)"
proof -
  have "0x2F \<notin> set (ipv4_to_string w)" using ipv4_chars [of "0x2F" w] by (auto simp: digit_def)
  then show ?thesis by (simp add: parse_address_def split_at_def ipv4_round)
qed

lemma digits_split: "c < 0x30 \<Longrightarrow> split_at c (print_number 10 n) = None"
  "c < 0x30 \<Longrightarrow> split_at c (print_number 10 n @ c # s) = Some (print_number 10 n, s)"
proof -
  assume c: "c < 0x30"
  have none: "c \<notin> set (print_number 10 n)"
    using print_digits [of n] c by (auto simp: list_all_iff digit_def)
  then show "split_at c (print_number 10 n) = None" by (simp add: split_at_def)
  have "takeWhile (\<lambda>b. b \<noteq> c) (print_number 10 n @ c # s) = print_number 10 n"
    "dropWhile (\<lambda>b. b \<noteq> c) (print_number 10 n @ c # s) = c # s"
    using none by (auto simp: takeWhile_append dropWhile_append)
  then show "split_at c (print_number 10 n @ c # s) = Some (print_number 10 n, s)" by (simp add: split_at_def)
qed

lemma parse_port_text: "parse_port (port_text p) r b = Ok (set_port b p r)"
proof -
  have "port_single (low p) = p" if "port_is_single p" using that by (cases p) (simp add: port_single_def port_is_single_def)
  moreover have "port_range (low p) (high p) = p" by (cases p) (simp add: port_range_def)
  ultimately show ?thesis by (simp add: parse_port_def port_text_def digits_split)
qed

lemma not_keyword: "digit (hd t) \<Longrightarrow> k \<in> {''any'', ''assigned'', ''from'', ''to'', ''ip'', ''icmp'', ''tcp'', ''udp'', ''icmpv6'', ''ipv6-icmp''} \<Longrightarrow> t \<noteq> txt_of k"
  by (auto simp: txt_of_def digit_def)

lemma parse_side:
  assumes "side_ok h h6 a" and "u = txt_of ''any'' \<or> u = txt_of ''assigned''"
  shows "parse_address_port (side_tokens h a p u) r b =
    Ok ((if port_is_empty p then id else set_port b p) ((if h then set_ipv4 b a else id) r))"
proof -
  have "parse_address (ipv4_to_string (ip_addr a ! 0)) r b = Ok (set_ipv4 b a r)" if h
    using that assms(1) parse_address_host [of "ip_addr a ! 0"] by (simp add: side_ok_def)
  then show ?thesis
    using assms(2) not_keyword [OF hd_ipv4] by (auto simp: parse_address_port_def side_tokens_def parse_port_text)
qed

lemma plain_side: "plain u \<Longrightarrow> list_all plain (side_tokens h a p u)"
  by (simp add: side_tokens_def port_text_def plain_append plain_def [of "[_]"] flip: append_Cons)

lemma side_no_keyword: "u \<in> {txt_of ''any'', txt_of ''assigned''} \<Longrightarrow> txt_of ''to'' \<notin> set (side_tokens h a p u)"
  using not_keyword [OF hd_ipv4 [of "ip_addr a ! 0"], of "''to''"] not_keyword [OF print_hd_digit [of "unat (low p)"], of "''to''"]
    not_keyword [of "port_text p" "''to''"] print_hd_digit [of "unat (low p)"]
  by (auto simp: side_tokens_def port_text_def txt_of_def)

lemma position_append: "x \<notin> set xs \<Longrightarrow> position x (xs @ x # ys) = Some (length xs)"
  by (induction xs) auto

lemma to_lowercase_digits: "list_all digit t \<Longrightarrow> to_lowercase t = t"
  by (induction t) (auto simp: to_lowercase_def digit_def word_le_nat_alt)

definition proto_token :: "u8 \<Rightarrow> bytes" where
  "proto_token p = (if p = 0 then txt_of ''ip'' else print_number 10 (unat p))"

lemma proto_token_parsed: "parse_protocol (proto_token p) = Ok p"
proof (cases "p = 0")
  case True
  then show ?thesis by (simp add: proto_token_def parse_protocol_def to_lowercase_def txt_of_def)
next
  case False
  then show ?thesis
    using not_keyword [OF print_hd_digit [of "unat p"]]
    by (simp add: proto_token_def parse_protocol_def to_lowercase_digits [OF print_digits])
qed

lemma proto_token_plain: "plain (proto_token p)"
  by (cases "p = 0") (simp_all add: proto_token_def, simp add: plain_def txt_of_def)

lemma proto_token_keyword: "k \<in> {''from'', ''to''} \<Longrightarrow> proto_token p \<noteq> txt_of k"
  using not_keyword [OF print_hd_digit [of "unat p"], of k] by (auto simp: proto_token_def txt_of_def)

lemma plain_keywords:
  "plain (txt_of ''permit'')" "plain (txt_of ''out'')" "plain (txt_of ''from'')" "plain (txt_of ''to'')"
  "plain (txt_of ''any'')" "plain (txt_of ''assigned'')"
  by (simp_all add: plain_def txt_of_def)

lemma keywords_differ:
  "txt_of ''from'' \<noteq> txt_of ''permit''" "txt_of ''from'' \<noteq> txt_of ''out''" "txt_of ''to'' \<noteq> txt_of ''permit''"
  "txt_of ''to'' \<noteq> txt_of ''out''" "txt_of ''to'' \<noteq> txt_of ''from''"
  by (simp_all add: txt_of_def)

lemma compile_tokens_parts:
  assumes "txt_of ''to'' \<notin> set ss"
  shows "compile_tokens (txt_of ''permit'' # txt_of ''out'' # proto_token p # txt_of ''from'' # ss @ txt_of ''to'' # ds) =
    obind (parse_address_port ss (rule_new\<lparr>proto := p\<rparr>) True) (\<lambda>r. parse_address_port ds r False)"
proof -
  let ?pre = "[txt_of ''permit'', txt_of ''out'', proto_token p]"
  let ?ts = "txt_of ''permit'' # txt_of ''out'' # proto_token p # txt_of ''from'' # ss @ txt_of ''to'' # ds"
  have "position (txt_of ''from'') ?ts = Some 3"
    using position_append [of "txt_of ''from''" ?pre] proto_token_keyword [of "''from''" p] keywords_differ by auto
  moreover have "position (txt_of ''to'') ?ts = Some (4 + length ss)"
    using position_append [of "txt_of ''to''" "?pre @ txt_of ''from'' # ss" ds] proto_token_keyword [of "''to''" p]
      keywords_differ assms by auto
  ultimately show ?thesis by (simp add: compile_tokens_def proto_token_parsed numeral_eq_Suc)
qed

lemma encode_tokens:
  assumes "host_rule r"
  shows "encode_flow_description r = Ok (join [0x20]
    (txt_of ''permit'' # txt_of ''out'' # proto_token (proto r) # txt_of ''from'' #
     side_tokens (ipv4_src r) (ip_src (ip r)) (port_src (port r)) (txt_of ''any'') @ txt_of ''to'' #
     side_tokens (ipv4_dst r) (ip_dst (ip r)) (port_dst (port r)) (txt_of ''assigned'')))"
  unfolding encode_flow_description_def encode_side [OF assms]
  by (simp add: join_Cons proto_token_def side_tokens_def) (simp add: txt_of_def)

text \<open>
  C32: A rule about IPv4 hosts, with any protocol and any ports or port ranges on either side, survives printing and compiling:
  the flow description that the encoder prints is accepted, and compiles to the rule.
\<close>

theorem flow_description_roundtrip:
  assumes "host_rule r"
  shows "\<exists>t. encode_flow_description r = Ok t \<and> compile_rule t = Ok r"
proof -
  let ?src = "side_tokens (ipv4_src r) (ip_src (ip r)) (port_src (port r)) (txt_of ''any'')"
  let ?dst = "side_tokens (ipv4_dst r) (ip_dst (ip r)) (port_dst (port r)) (txt_of ''assigned'')"
  let ?ts = "txt_of ''permit'' # txt_of ''out'' # proto_token (proto r) # txt_of ''from'' # ?src @ txt_of ''to'' # ?dst"
  have sides: "side_ok (ipv4_src r) (ipv6_src r) (ip_src (ip r))" "side_ok (ipv4_dst r) (ipv6_dst r) (ip_dst (ip r))"
    using assms by (simp_all add: host_rule_def)
  have "list_all plain ?ts"
    using plain_keywords proto_token_plain plain_side by simp
  then have "compile_rule (join [0x20] ?ts) = compile_tokens ?ts" by (simp only: compile_rule_def split_join)
  also have "\<dots> = Ok ((if port_is_empty (port_dst (port r)) then id else set_port False (port_dst (port r)))
      ((if ipv4_dst r then set_ipv4 False (ip_dst (ip r)) else id)
      ((if port_is_empty (port_src (port r)) then id else set_port True (port_src (port r)))
      ((if ipv4_src r then set_ipv4 True (ip_src (ip r)) else id) (rule_new\<lparr>proto := proto r\<rparr>)))))"
    by (subst compile_tokens_parts) (simp_all add: side_no_keyword parse_side [OF sides(1)] parse_side [OF sides(2)])
  also have "\<dots> = Ok r"
    using assms
    by (cases r; cases "ip r"; cases "port r")
      (auto simp: host_rule_def side_ok_def rule_new_def set_port_def set_ipv4_def port_is_empty_def port_range_def)
  finally show ?thesis using encode_tokens [OF assms] by blast
qed

definition demo_rule :: IpfwRule where
  "demo_rule = rule_new\<lparr>proto := 17, ipv4_src := True, ip := (ip rule_new)\<lparr>ip_src := from_ipv4 0x0A000001 32\<rparr>,
     port := (port rule_new)\<lparr>port_dst := port_range 80 90\<rparr>\<rparr>"

theorem flow_description_roundtrip_witness:
  "host_rule demo_rule \<and> (\<exists>t. encode_flow_description demo_rule = Ok t \<and> compile_rule t = Ok demo_rule)"
proof -
  have "host_rule demo_rule" by (simp add: host_rule_def side_ok_def demo_rule_def rule_new_def from_ipv4_def)
  then show ?thesis using flow_description_roundtrip [of demo_rule] by simp
qed

section \<open>Errors and panics\<close>

lemma parse_address_no_panic: "parse_address s r b \<noteq> Panic"
  unfolding parse_address_def Let_def by (simp split: option.splits del: not_None_eq)

lemma parse_port_no_panic: "parse_port s r b \<noteq> Panic"
  unfolding parse_port_def by (simp split: option.split prod.split)

lemma parse_address_port_no_panic: "parse_address_port ts r b \<noteq> Panic"
  by (cases ts) (simp_all add: parse_address_port_def obind_eq_Panic parse_address_no_panic parse_port_no_panic split: list.split)

lemma parse_protocol_no_panic: "parse_protocol s \<noteq> Panic"
  by (auto simp: parse_protocol_def Let_def split: option.split)

text \<open>
  C39: The compiler returns a rule or an error for every text but one kind, on which it panics: a text that starts with
  \<open>permit out\<close> and a valid protocol and has its first \<open>to\<close> before its first \<open>from\<close>.
\<close>

theorem flow_description_panics:
  "compile_rule s = Panic \<longleftrightarrow>
     (\<exists>p rest i j. split_whitespace [] s = txt_of ''permit'' # txt_of ''out'' # p # rest \<and> (\<exists>x. parse_protocol p = Ok x) \<and>
        position (txt_of ''from'') (split_whitespace [] s) = Some i \<and> position (txt_of ''to'') (split_whitespace [] s) = Some j \<and> j \<le> i)"
proof -
  have "compile_tokens ts = Panic \<longleftrightarrow>
     (\<exists>p rest i j. ts = txt_of ''permit'' # txt_of ''out'' # p # rest \<and> (\<exists>x. parse_protocol p = Ok x) \<and>
        position (txt_of ''from'') ts = Some i \<and> position (txt_of ''to'') ts = Some j \<and> j \<le> i)" for ts
  proof (cases "\<exists>p rest. ts = txt_of ''permit'' # txt_of ''out'' # p # rest")
    case True
    then obtain p rest where ts: "ts = txt_of ''permit'' # txt_of ''out'' # p # rest" by blast
    show ?thesis
      using parse_protocol_no_panic [of p] parse_address_port_no_panic
      by (cases "position (txt_of ''from'') ts"; cases "position (txt_of ''to'') ts"; cases "parse_protocol p")
        (auto simp: compile_tokens_def ts obind_eq_Panic simp del: position.simps)
  next
    case False
    then have "compile_tokens ts \<noteq> Panic"
      by (cases ts; cases "tl ts"; cases "tl (tl ts)") (auto simp: compile_tokens_def)
    then show ?thesis using False by blast
  qed
  then show ?thesis by (simp add: compile_rule_def)
qed

lemma to_before_from_panics: "compile_rule (txt_of ''permit out ip to any from any'') = Panic"
  by code_simp

end
