(* ===== verification/Upf_Events.thy ===== *)
theory Upf_Events
  imports Upf_Data_Plane Upf_N4 Ipfw_Text
begin

text \<open>
  From PFCP to the data plane (\<^verbatim>\<open>handle_pfcp_session_event\<close> of \<^verbatim>\<open>bins/nextgcore-upfd/src/main.rs\<close>): the session
  events of \<^verbatim>\<open>pfcp_path.rs\<close> with their parsed rules, and what each does to the sessions. The handler panics when the
  compiler of flow descriptions does; \<open>session_event\<close> is the rest of it.
  In a modification, the sends of the flush are numbered from 0; the result of the end marker's send is not used.
\<close>

section \<open>Session events\<close>

datatype PfcpSessionEvent =
    SessionEstablished u64 u64 "u32 option" u32 u32 "u32 option" "ParsedCreatePdr list" "ParsedCreateFar list"
      "ParsedCreateQer list" "ParsedCreateUrr list" "ParsedCreateBar list"
  | SessionModified u64 "u32 option" "u32 option" "ParsedCreateFar list" "ParsedCreateQer list" "ParsedCreateBar list"
      bool bool "(u32 \<times> u32) option"
  | SessionDeleted u64 "u32 option"
  | PeerFailure SocketAddr

section \<open>Installing rules\<close>

text \<open>A flow description that does not compile is logged, and the PDR gets no filter.\<close>

definition sdf_filter :: "rust_string \<Rightarrow> IpfwRule option" where
  "sdf_filter desc = (case compile_rule desc of Ok rule \<Rightarrow> Some rule | _ \<Rightarrow> None)"

definition install_pdr :: "ParsedCreatePdr \<Rightarrow> DataPlanePdr" where
  "install_pdr p =
     \<lparr>pdr_id = pp_pdr_id p, precedence = pp_precedence p, source_interface = pdi_source_interface (pp_pdi p),
      pdr_far_id = pp_far_id p, pdr_qer_id = pp_qer_id p, pdr_urr_ids = pp_urr_ids p,
      outer_header_removal = pp_outer_header_removal p,
      sdf_rule = Option.bind (pdi_sdf_flow_description (pp_pdi p)) sdf_filter, pdr_qfi = pdi_qfi (pp_pdi p)\<rparr>"

definition install_far :: "ParsedCreateFar \<Rightarrow> DataPlaneFar" where
  "install_far f =
     \<lparr>far_id = pf_far_id f, apply_action = pf_apply_action f,
      destination_interface =
        (case pf_forwarding_parameters f of None \<Rightarrow> SRC_INTF_CORE | Some fp \<Rightarrow> fp_destination_interface fp),
      ohc_teid = Option.bind (pf_forwarding_parameters f) (\<lambda>fp. map_option oh_teid (fp_outer_header_creation fp)),
      ohc_addr = Option.bind (pf_forwarding_parameters f) (\<lambda>fp. Option.bind (fp_outer_header_creation fp) oh_ipv4),
      far_bar_id = pf_bar_id f\<rparr>"

definition install_bar :: "ParsedCreateBar \<Rightarrow> DataPlaneBar" where
  "install_bar b =
     \<lparr>bar_id = pb_bar_id b, suggested_buffering_packets_count = pb_suggested_buffering_packets_count b,
      ddn_delay = pb_ddn_delay b\<rparr>"

definition install_qer :: "'f f64_ops \<Rightarrow> nat \<Rightarrow> ParsedCreateQer \<Rightarrow> 'f DataPlaneQer" where
  "install_qer F t q =
     (let qer = (qer_new (pq_qer_id q))\<lparr>ul_gate_open := (pq_ul_gate q = 0), dl_gate_open := (pq_dl_gate q = 0)\<rparr>;
          qer = set_mbr F t (pq_ul_mbr q) (pq_dl_mbr q) qer;
          qer = set_gbr F t (pq_ul_gbr q) (pq_dl_gbr q) qer
      in case pq_qfi q of None \<Rightarrow> qer | Some x \<Rightarrow> set_qfi x qer)"

definition install_urr :: "nat \<Rightarrow> ParsedCreateUrr \<Rightarrow> DataPlaneUrr" where
  "install_urr t u =
     (urr_new t (pu_urr_id u))
       \<lparr>volume_threshold_total := pu_volume_threshold_total u, volume_threshold_ul := pu_volume_threshold_ul u,
        volume_threshold_dl := pu_volume_threshold_dl u, time_threshold_secs := pu_time_threshold_secs u\<rparr>"

text \<open>\<^verbatim>\<open>for x in &xs { map.insert(id(x), f(x)) }\<close>\<close>

definition insert_all :: "('a \<Rightarrow> 'k) \<Rightarrow> ('a \<Rightarrow> 'v) \<Rightarrow> 'a list \<Rightarrow> ('k \<times> 'v) list \<Rightarrow> ('k \<times> 'v) list" where
  "insert_all i f xs m = fold (\<lambda>x. AList.update (i x) (f x)) xs m"

definition install_rules :: "'f f64_ops \<Rightarrow> nat \<Rightarrow> ParsedCreatePdr list \<Rightarrow> ParsedCreateFar list \<Rightarrow>
    ParsedCreateQer list \<Rightarrow> ParsedCreateUrr list \<Rightarrow> ParsedCreateBar list \<Rightarrow> 'f DataPlaneSession \<Rightarrow> 'f DataPlaneSession" where
  "install_rules F t ps fs qs us bs s =
     (let s = (if ps \<noteq> [] then s\<lparr>pdrs := sort_key precedence (map install_pdr ps)\<rparr> else s);
          s = (if fs \<noteq> [] then s\<lparr>fars := insert_all pf_far_id install_far fs []\<rparr> else s);
          s = (if bs \<noteq> [] then s\<lparr>bars := insert_all pb_bar_id install_bar bs []\<rparr> else s);
          s = (if qs \<noteq> [] then s\<lparr>qers := insert_all pq_qer_id (install_qer F t) qs []\<rparr> else s)
      in if us \<noteq> [] then s\<lparr>urrs := insert_all pu_urr_id (install_urr t) us []\<rparr> else s)"

definition update_rules :: "'f f64_ops \<Rightarrow> nat \<Rightarrow> ParsedCreateFar list \<Rightarrow> ParsedCreateQer list \<Rightarrow> ParsedCreateBar list \<Rightarrow> bool \<Rightarrow>
    'f DataPlaneSession \<Rightarrow> 'f DataPlaneSession" where
  "update_rules F t fs qs bs drop_buffered s =
     (let s = s\<lparr>fars := insert_all pf_far_id install_far fs (fars s)\<rparr>;
          s = s\<lparr>qers := insert_all pq_qer_id (install_qer F t) qs (qers s)\<rparr>;
          s = s\<lparr>bars := insert_all pb_bar_id install_bar bs (bars s)\<rparr>
      in if drop_buffered then snd (drain_dl_buffer s) else s)"

section \<open>Handling session events\<close>

definition gtpu_endpoint :: "u32 \<Rightarrow> SocketAddr" where
  "gtpu_endpoint a = \<lparr>sock_ip = V4 a, sock_port = GTPU_PORT\<rparr>"

definition session_established :: "'f f64_ops \<Rightarrow> nat \<Rightarrow> u64 \<Rightarrow> u64 \<Rightarrow> u32 option \<Rightarrow> u32 \<Rightarrow> u32 \<Rightarrow>
    u32 option \<Rightarrow> ParsedCreatePdr list \<Rightarrow> ParsedCreateFar list \<Rightarrow> ParsedCreateQer list \<Rightarrow> ParsedCreateUrr list \<Rightarrow>
    ParsedCreateBar list \<Rightarrow> 'f DataPlane \<Rightarrow> 'f DataPlane" where
  "session_established F t us ss ue ult dlt gnb ps fs qs us' bs d =
     (case ue of
        None \<Rightarrow> d
      | Some a \<Rightarrow>
          let peer = (case gnb of Some g \<Rightarrow> gtpu_endpoint g | None \<Rightarrow> gtpu_endpoint 0x7F000001);
              q = (case List.map_filter pq_qfi qs of [] \<Rightarrow> None | x # _ \<Rightarrow> Some x);
              d = add_session_from_pfcp us ss a ult dlt peer None q d
          in case find_by_seid us (sessions d) of
               None \<Rightarrow> d
             | Some r \<Rightarrow> put_session r (install_rules F t ps fs qs us' bs (get_session r d)) d)"

definition session_modified :: "'f f64_ops \<Rightarrow> os_answers \<Rightarrow> u64 \<Rightarrow> u32 option \<Rightarrow> u32 option \<Rightarrow> ParsedCreateFar list \<Rightarrow>
    ParsedCreateQer list \<Rightarrow> ParsedCreateBar list \<Rightarrow> bool \<Rightarrow> bool \<Rightarrow> (u32 \<times> u32) option \<Rightarrow> 'f DataPlane \<Rightarrow> effect list \<times> 'f DataPlane" where
  "session_modified F os k t g fs qs bs end_marker drop_buffered old_dl_tunnel d =
     (let gnb_socket = map_option gtpu_endpoint g;
          markers =
            (if end_marker
             then case old_dl_tunnel of Some (old_teid, old_ip) \<Rightarrow> send_end_marker old_teid (gtpu_endpoint old_ip) d | None \<Rightarrow> []
             else []);
          d = (if t \<noteq> None \<or> gnb_socket \<noteq> None then update_session_from_pfcp k t gnb_socket d else d);
          (any_far_forwards, d) =
            (case find_by_seid k (sessions d) of
               None \<Rightarrow> (False, d)
             | Some r \<Rightarrow>
                 (list_ex (\<lambda>f. pf_apply_action f AND FAR_ACTION_FORW \<noteq> 0) fs,
                  put_session r (update_rules F (now os) fs qs bs drop_buffered (get_session r d)) d));
          (_, flushed, d) = (if any_far_forwards \<and> \<not> drop_buffered then flush_buffered_dl os k d else (0, [], d))
      in (markers @ flushed, d))"

definition peer_failure :: "'f DataPlane \<Rightarrow> 'f DataPlane" where
  "peer_failure d = fold (\<lambda>(seid, _). remove_session_from_pfcp seid) (get_all_session_stats (sessions d)) d"

fun session_event :: "'f f64_ops \<Rightarrow> os_answers \<Rightarrow> PfcpSessionEvent \<Rightarrow> 'f DataPlane \<Rightarrow> effect list \<times> 'f DataPlane" where
  "session_event F os (SessionEstablished us ss ue ult dlt gnb ps fs qs us' bs) d =
     ([], session_established F (now os) us ss ue ult dlt gnb ps fs qs us' bs d)"
| "session_event F os (SessionModified k t g fs qs bs end_marker drop_buffered old) d =
     session_modified F os k t g fs qs bs end_marker drop_buffered old d"
| "session_event F os (SessionDeleted k _) d = ([], remove_session_from_pfcp k d)"
| "session_event F os (PeerFailure peer) d = ([], peer_failure d)"

text \<open>The filters are compiled when a session with a UE address is set up, before any of its rules is installed.\<close>

definition filter_panics :: "ParsedCreatePdr \<Rightarrow> bool" where
  "filter_panics p = (case pdi_sdf_flow_description (pp_pdi p) of Some desc \<Rightarrow> compile_rule desc = Panic | None \<Rightarrow> False)"

fun event_panics :: "PfcpSessionEvent \<Rightarrow> bool" where
  "event_panics (SessionEstablished us ss ue ult dlt gnb ps fs qs us' bs) = (ue \<noteq> None \<and> list_ex filter_panics ps)"
| "event_panics _ = False"

definition handle_pfcp_session_event :: "'f f64_ops \<Rightarrow> os_answers \<Rightarrow> PfcpSessionEvent \<Rightarrow> 'f DataPlane \<Rightarrow>
    (unit, effect list \<times> 'f DataPlane) outcome" where
  "handle_pfcp_session_event F os ev d = (if event_panics ev then Panic else Ok (session_event F os ev d))"

lemma handled_event: "handle_pfcp_session_event F os ev d = Ok (es, d') \<longleftrightarrow> \<not> event_panics ev \<and> session_event F os ev d = (es, d')"
  by (simp add: handle_pfcp_session_event_def)

section \<open>Final usage reports\<close>

record FinalUsageReport =
  fr_urr_id :: u32
  fr_ur_seqn :: u32
  fr_total_volume :: u64
  fr_uplink_volume :: u64
  fr_downlink_volume :: u64
  fr_total_packets :: u64
  fr_uplink_packets :: u64
  fr_downlink_packets :: u64

fun final_reports :: "(u32 \<times> DataPlaneUrr) list \<Rightarrow> FinalUsageReport list \<times> (u32 \<times> DataPlaneUrr) list" where
  "final_reports [] = ([], [])"
| "final_reports ((i, urr) # rest) =
     (let (seqn, urr) = next_ur_seqn urr;
          (reports, rest) = final_reports rest
      in (\<lparr>fr_urr_id = urr_id urr, fr_ur_seqn = seqn, fr_total_volume = acc_total_bytes urr, fr_uplink_volume = acc_ul_bytes urr,
           fr_downlink_volume = acc_dl_bytes urr, fr_total_packets = acc_total_pkts urr, fr_uplink_packets = acc_ul_pkts urr,
           fr_downlink_packets = acc_dl_pkts urr\<rparr> # reports, (i, urr) # rest))"

definition collect_final_usage_reports :: "u64 \<Rightarrow> 'f DataPlane \<Rightarrow> FinalUsageReport list \<times> 'f DataPlane" where
  "collect_final_usage_reports k d =
     (case find_by_seid k (sessions d) of
        None \<Rightarrow> ([], d)
      | Some r \<Rightarrow>
          let s = get_session r d; (reports, us) = final_reports (urrs s)
          in (reports, put_session r (s\<lparr>urrs := us\<rparr>) d))"

section \<open>Units of the rates\<close>

text \<open>
  The wire carries kilobits per second. The parser multiplies by 1000 for a policer in bits per second, and the
  policer takes the number as kilobits per second: the bucket of a QER refills at a thousand times its rate.
\<close>

definition wire_kbps :: "bytes \<Rightarrow> nat \<Rightarrow> u64" where
  "wire_kbps v i = from_be64 0 0 0 (v ! i) (v ! (i + 1)) (v ! (i + 2)) (v ! (i + 3)) (v ! (i + 4))"

lemma wire_kbps_bound: "unat (wire_kbps v i) < 2 ^ 40"
proof -
  have "take_bit 40 (wire_kbps v i) = wire_kbps v i"
    unfolding wire_kbps_def from_be64_def from_be32_def from_be16_def
    by (rule bit_word_eqI) (auto simp: bit_simps dest: bit_imp_le_length)
  then have "unat (wire_kbps v i) = unat (wire_kbps v i) mod 2 ^ 40" by (metis unat_take_bit_mod)
  then show ?thesis by (metis mod_less_divisor zero_less_numeral zero_less_power)
qed

lemma rate_at_bits: "unat (rate_at v i) = 1000 * unat (wire_kbps v i)"
proof -
  have "unat (wire_kbps v i) * 1000 < 2 ^ 64" using wire_kbps_bound [of v i] by simp
  then show ?thesis
    unfolding rate_at_def wire_kbps_def [symmetric] saturating_mul_def by (simp add: unat_word_ariths mult.commute)
qed

text \<open>
  The token buckets of an installed QER are armed with a thousand times the maximum bit rate that the element
  carries in kilobits per second: for any QER that parses, the rate given to the bucket, which counts in
  kilobits per second, is 1000 times the rate on the wire.
\<close>

lemma mbr_units:
  assumes "parse_create_qer data = Ok q" and "find_ie (parse_all data) MBR = Some ie" and "10 \<le> length (ie_value ie)"
    and "0 < wire_kbps (ie_value ie) 0"
  shows "\<exists>k. unat k = 1000 * unat (wire_kbps (ie_value ie) 0) \<and> ul_mbr_bucket (install_qer F t q) = Some (from_mbr_kbps F t k)"
proof -
  have mbr: "pq_ul_mbr q = rate_at (ie_value ie) 0"
    using assms by (auto simp: parse_create_qer_def ie_field_def Let_def split: if_split_asm)
  have "0 < unat (rate_at (ie_value ie) 0)"
    using assms(4) unfolding rate_at_bits by (simp add: word_less_nat_alt)
  then have pos: "0 < rate_at (ie_value ie) 0" by (simp add: word_less_nat_alt)
  have "ul_mbr_bucket (install_qer F t q) = armed F t (pq_ul_mbr q)"
    by (simp add: install_qer_def set_qfi_def set_gbr_def set_mbr_def Let_def split: option.split)
  then show ?thesis using mbr pos rate_at_bits by (auto simp: armed_def)
qed

section \<open>A concrete instance of the parameters\<close>

text \<open>Natural-number arithmetic in place of floating point, and an operating system that never fails, for examples.\<close>

definition demo_f64 :: "nat f64_ops" where
  "demo_f64 = \<lparr>f_add = (+), f_sub = (-), f_mul = (*), f_min = min, f_max = max, f_ge = (\<ge>), f_nat = id, f_frac = (div)\<rparr>"

definition demo_os :: os_answers where
  "demo_os = \<lparr>now = 0, tun_write_ok = True, send_ok = (\<lambda>_. True), set_tos_ok = True\<rparr>"

end
