(* ===== verification/Upf_Index.thy ===== *)
theory Upf_Index
  imports Upf_Events
begin

text \<open>
  The three indices of the session manager as views of one set of sessions. The interface \<open>session_index\<close> is the
  contract of one index; the indices by SEID, by uplink TEID and by UE address implement it. On top of it, the
  steps of the data plane and the invariant that every run keeps.
\<close>

section \<open>Interface of an index\<close>

definition live :: "'f SessionManager \<Rightarrow> ref set" where
  "live m = ran (map_of (seid_map m))"

text \<open>A reference is only handed out for a session in the heap, and a SEID leads to the session that has it.\<close>

definition seid_exact :: "'f SessionManager \<Rightarrow> bool" where
  "seid_exact m \<longleftrightarrow> (\<forall>k r. map_of (seid_map m) k = Some r \<longrightarrow> r < length (heap m) \<and> upf_seid (heap m ! r) = k)"

locale session_index =
  fixes index :: "'f SessionManager \<Rightarrow> ('k \<times> ref) list"
    and key :: "'f DataPlaneSession \<Rightarrow> 'k option"
  assumes index_add: "map_of (index (snd (add_session s m))) =
      (case key s of None \<Rightarrow> map_of (index m) | Some x \<Rightarrow> (map_of (index m))(x \<mapsto> length (heap m)))"
    and index_remove: "seid_exact m \<Longrightarrow> map_of (seid_map m) k = Some r \<Longrightarrow>
      map_of (index (snd (remove_session_by_seid k m))) =
        (case key (heap m ! r) of None \<Rightarrow> map_of (index m) | Some x \<Rightarrow> (map_of (index m))(x := None))"
    and index_new: "index manager_new = []"
begin

text \<open>An index is exact when it finds a session under a key exactly if the session is live and has the key.\<close>

definition exact :: "'f SessionManager \<Rightarrow> bool" where
  "exact m \<longleftrightarrow> (\<forall>x r. map_of (index m) x = Some r \<longleftrightarrow> r \<in> live m \<and> key (heap m ! r) = Some x)"

lemma exactD: "exact m \<Longrightarrow> map_of (index m) x = Some r \<longleftrightarrow> r \<in> live m \<and> key (heap m ! r) = Some x"
  unfolding exact_def by blast

lemma exact_new: "exact manager_new"
proof -
  have "live (manager_new :: 'f SessionManager) = {}" by (simp add: live_def manager_new_def)
  then show ?thesis unfolding exact_def index_new by simp
qed

lemma exact_add:
  assumes "exact m" and "seid_exact m" and "map_of (seid_map m) (upf_seid s) = None"
    and "\<And>x. key s = Some x \<Longrightarrow> map_of (index m) x = None"
  shows "exact (snd (add_session s m))"
proof -
  let ?m = "snd (add_session s m)" and ?r = "length (heap m)"
  have heap: "heap ?m = heap m @ [s]" and seid: "seid_map ?m = AList.update (upf_seid s) ?r (seid_map m)"
    by (simp_all add: add_session_def Let_def split: option.split)
  have old: "r < ?r" if "r \<in> live m" for r
    using that assms(2) unfolding live_def seid_exact_def ran_def by blast
  have live: "live ?m = insert ?r (live m)"
    using assms(3) unfolding live_def seid by (simp add: AList.update_conv' ran_map_upd)
  have "map_of (index ?m) x = Some r \<longleftrightarrow> r \<in> live ?m \<and> key (heap ?m ! r) = Some x" for x r
  proof (cases "r = ?r")
    case True
    have "map_of (index m) x \<noteq> Some ?r" using assms(1) old unfolding exact_def by blast
    then show ?thesis
      using True unfolding index_add live heap by (auto split: option.split)
  next
    case False
    then have "r \<in> live ?m \<and> key (heap ?m ! r) = Some x \<longleftrightarrow> map_of (index m) x = Some r"
      using old exactD [OF assms(1)] unfolding live heap by (auto simp: nth_append)
    moreover have "map_of (index ?m) x = Some r \<longleftrightarrow> map_of (index m) x = Some r"
      using False assms(4) unfolding index_add by (auto split: option.split)
    ultimately show ?thesis by blast
  qed
  then show ?thesis unfolding exact_def by blast
qed

lemma exact_remove:
  assumes "exact m" and "seid_exact m"
  shows "exact (snd (remove_session_by_seid k m))"
proof (cases "map_of (seid_map m) k")
  case None
  then show ?thesis using assms(1) by (simp add: remove_session_by_seid_def del: map_of_eq_None_iff)
next
  case (Some r0)
  let ?m = "snd (remove_session_by_seid k m)"
  have heap: "heap ?m = heap m" and seid: "seid_map ?m = AList.delete k (seid_map m)"
    using Some by (simp_all add: remove_session_by_seid_def Let_def del: map_of_eq_Some_iff split: option.split)
  have live: "live ?m = live m - {r0}"
    using Some assms(2) unfolding live_def seid seid_exact_def AList.delete_conv' ran_def by (auto simp del: map_of_eq_Some_iff) (metis option.inject)
  have r0: "r0 \<in> live m" using Some unfolding live_def by (rule ranI)
  have "map_of (index ?m) x = Some r \<longleftrightarrow> r \<in> live ?m \<and> key (heap ?m ! r) = Some x" for x r
  proof (cases "key (heap m ! r0) = Some x")
    case True
    then have "map_of (index m) x = Some r0" using exactD [OF assms(1)] r0 by blast
    then have "r \<in> live m \<and> key (heap m ! r) = Some x \<Longrightarrow> r = r0"
      using exactD [OF assms(1)] by (metis option.inject)
    then show ?thesis
      using True unfolding index_remove [OF assms(2) Some] live heap by auto
  next
    case False
    then have "map_of (index ?m) x = map_of (index m) x"
      unfolding index_remove [OF assms(2) Some] by (auto split: option.split)
    then show ?thesis
      using False exactD [OF assms(1), of x r] unfolding live heap by auto
  qed
  then show ?thesis unfolding exact_def by blast
qed

end

interpretation by_seid: session_index seid_map "\<lambda>s. Some (upf_seid s)"
proof
  fix m :: "'f SessionManager" and k r
  assume "seid_exact m" and "map_of (seid_map m) k = Some r"
  then show "map_of (seid_map (snd (remove_session_by_seid k m))) =
      (case Some (upf_seid (heap m ! r)) of None \<Rightarrow> map_of (seid_map m) | Some x \<Rightarrow> (map_of (seid_map m))(x := None))"
    unfolding seid_exact_def
    by (simp add: remove_session_by_seid_def Let_def AList.delete_conv' del: map_of_eq_Some_iff split: option.split)
qed (simp_all add: add_session_def Let_def AList.update_conv' manager_new_def split: option.split)

interpretation by_teid: session_index ul_teid_map "\<lambda>s. Some (ul_teid s)"
  by unfold_locales
    (simp_all add: add_session_def remove_session_by_seid_def Let_def AList.update_conv' AList.delete_conv' manager_new_def
      del: map_of_eq_Some_iff split: option.split)

interpretation by_ue_ip: session_index ue_ip_map ue_ipv4
  by unfold_locales
    (simp_all add: add_session_def remove_session_by_seid_def Let_def AList.update_conv' AList.delete_conv' manager_new_def
      del: map_of_eq_Some_iff split: option.split)

section \<open>Updates that keep the keys\<close>

text \<open>
  Packets change the counters, meters and buffers of a session, never its keys, PDRs and measurement periods: the
  indices are the same, and the session behind every reference has the same keys, PDRs and periods.
\<close>

definition session_keys :: "'f DataPlaneSession \<Rightarrow> u64 \<times> u32 \<times> u32 option" where
  "session_keys s = (upf_seid s, ul_teid s, ue_ipv4 s)"

definition periods :: "(u32 \<times> DataPlaneUrr) list \<Rightarrow> u32 option list" where
  "periods us = map (\<lambda>(_, u). measurement_period_secs u) us"

definition session_fixed :: "'f DataPlaneSession \<Rightarrow> (u64 \<times> u32 \<times> u32 option) \<times> DataPlanePdr list \<times> u32 option list" where
  "session_fixed s = (session_keys s, pdrs s, periods (urrs s))"

lemma periods_simps [simp]:
  "periods [] = []"
  "periods ((i, u) # us) = measurement_period_secs u # periods us"
  by (simp_all add: periods_def)

lemma periods_update:
  "map_of us i = Some u \<Longrightarrow> measurement_period_secs u' = measurement_period_secs u \<Longrightarrow> periods (AList.update i u' us) = periods us"
  by (induction us) (auto split: if_split_asm)

lemma period_urr [simp]:
  "measurement_period_secs (snd (urr_record t n up u)) = measurement_period_secs u"
  "measurement_period_secs (reset_counters t u) = measurement_period_secs u"
  "measurement_period_secs (snd (next_ur_seqn u)) = measurement_period_secs u"
  by (simp_all add: urr_record_def reset_counters_def next_ur_seqn_def Let_def split: option.split)

lemma periods_record: "periods (snd (record_urrs_loop t ids n up us x)) = periods us"
  by (induction ids arbitrary: us x) (simp_all add: split_beta Let_def periods_update split: option.split)

lemma periods_report: "periods (snd (report_loop t us ss xs)) = periods xs"
  by (induction xs) (auto simp: split_beta Let_def report_urr_def)

lemma periods_final: "periods (snd (final_reports us)) = periods us"
  by (induction us) (auto simp: split_beta Let_def)

definition touches :: "'f DataPlane \<Rightarrow> 'f DataPlane \<Rightarrow> bool" where
  "touches d d' \<longleftrightarrow>
     seid_map (sessions d') = seid_map (sessions d) \<and> ul_teid_map (sessions d') = ul_teid_map (sessions d) \<and>
     ue_ip_map (sessions d') = ue_ip_map (sessions d) \<and> length (heap (sessions d')) = length (heap (sessions d)) \<and>
     (\<forall>r < length (heap (sessions d)). session_fixed (get_session r d') = session_fixed (get_session r d))"

lemma touches_refl [simp, intro]: "touches d d"
  by (simp add: touches_def)

lemma touches_trans [trans]: "touches d d' \<Longrightarrow> touches d' d'' \<Longrightarrow> touches d d''"
  by (simp add: touches_def)

lemma touches_sessions: "sessions d' = sessions d \<Longrightarrow> touches d d'"
  by (simp add: touches_def get_session_def)

lemma touches_put: "session_fixed s = session_fixed (get_session r d) \<Longrightarrow> touches d (put_session r s d)"
proof -
  assume *: "session_fixed s = session_fixed (get_session r d)"
  have "session_fixed ((heap (sessions d))[r := s] ! j) = session_fixed (heap (sessions d) ! j)"
    if "j < length (heap (sessions d))" for j
    using * that by (cases "j = r") (simp_all add: get_session_def)
  then show ?thesis by (simp add: touches_def put_session_def get_session_def)
qed

text \<open>Counting and reporting leave the sessions alone; the session operations keep the keys.\<close>

lemma sessions_counted [simp]:
  "sessions (count_dropped d) = sessions d" "sessions (count_spoofed d) = sessions d"
  "sessions (count_oversize d) = sessions d" "sessions (send_report_event ev d) = sessions d"
  "sessions (snd (snd (set_gtpu_outer_tos ok d8 d))) = sessions d"
  by (simp_all add: count_dropped_def count_spoofed_def count_oversize_def send_report_event_def
      set_gtpu_outer_tos_def Let_def split: option.split)

lemma session_fixed_qer [simp]: "session_fixed (snd (check_qer_gate F t i up n s)) = session_fixed s"
  by (simp add: check_qer_gate_def session_fixed_def session_keys_def split_beta split: option.split)

lemma session_fixed_enforce: "enforce_qer F t qer up n s = (ok, d8, q, s') \<Longrightarrow> session_fixed s' = session_fixed s"
  using session_fixed_qer [of F t _ up n s]
  by (auto simp: enforce_qer_def split_beta Let_def split: option.split_asm if_split_asm)

lemma session_fixed_usage [simp]: "session_fixed (record_usage t ids n up s) = session_fixed s"
  by (simp add: record_usage_def record_urrs_def session_fixed_def session_keys_def split_beta periods_record)

lemma session_fixed_buffer: "buffer_dl_packet pkt b s = (x, s') \<Longrightarrow> session_fixed s' = session_fixed s"
  by (auto simp: buffer_dl_packet_def session_fixed_def session_keys_def Let_def split: if_split_asm)

lemma touches_count:
  "touches d (count_ul r n d)" "touches d (count_dl r n d)"
  unfolding count_ul_def count_dl_def Let_def
  by (rule touches_trans [OF touches_put touches_sessions]; simp add: session_fixed_def session_keys_def)+

text \<open>So every handler touches the sessions only.\<close>

lemma touches_after_put:
  "session_fixed s = session_fixed (get_session r d) \<Longrightarrow> touches (put_session r s d) d' \<Longrightarrow> touches d d'"
  by (rule touches_trans [OF touches_put])

lemma get_put_keys:
  "session_fixed s = session_fixed (get_session r d) \<Longrightarrow> session_fixed (get_session r (put_session r s d)) = session_fixed (get_session r d)"
  by (cases "r < length (heap (sessions d))") (simp_all add: get_session_def put_session_def list_update_beyond)

lemma stats_put [simp]: "stats (put_session r s d) = stats d"
  by (simp add: put_session_def)

lemma uplink_in_session_cases:
  assumes "uplink_in_session F os pkt p r d = Ok (es, d')"
  obtains (spoofed) "spoofed p (get_session r d)" and "es = []" and "d' = count_spoofed d"
  | (dropped) d1 where "touches d d1" and "stats d1 = stats d" and "es = []" and "d' = count_dropped d1"
  | (oversize) d1 where "touches d d1" and "stats d1 = stats d" and "es = []" and "d' = count_oversize d1"
  | (written) far qer urr_ids ohr d8 q s p' d1 where "\<not> spoofed p (get_session r d)"
      and "match_pdr_with_packet SRC_INTF_ACCESS (from_ipv4_packet p) (extract_qfi_from_gtp_header pkt) (get_session r d) =
        Some (far, qer, urr_ids, ohr)"
      and "enforce_qer F (now os) qer True (of_nat (length p)) (get_session r d) = (True, d8, q, s)"
      and "\<not> not_forwarded far s" and "(of_nat (length p) :: u64) \<le> of_nat TUN_MTU" and "marked_payload d8 p = Ok p'"
      and "touches d d1" and "stats d1 = stats d" and "es = [TunWrite p']"
      and "d' = (if tun_write_ok os then count_ul r (of_nat (length p)) d1 else count_dropped d1)"
proof (cases "spoofed p (get_session r d)")
  case True
  then show thesis using assms by (intro that(1)) (simp_all add: uplink_in_session_def Let_def)
next
  case no: False
  show thesis
  proof (cases "match_pdr_with_packet SRC_INTF_ACCESS (from_ipv4_packet p) (extract_qfi_from_gtp_header pkt) (get_session r d)")
    case None
    then show thesis using assms no by (intro that(2) [of d]) (simp_all add: uplink_in_session_def Let_def)
  next
    case (Some m)
    obtain far qer urr_ids ohr where m: "m = (far, qer, urr_ids, ohr)" by (cases m) auto
    obtain ok d8 q s where e: "enforce_qer F (now os) qer True (of_nat (length p)) (get_session r d) = (ok, d8, q, s)"
      by (metis prod_cases4)
    let ?d = "put_session r s d"
    let ?d1 = "put_session r (record_usage (now os) urr_ids (of_nat (length p)) True s) ?d"
    have t: "touches d ?d"
      using session_fixed_enforce [OF e] by (rule touches_put)
    have t1: "touches d ?d1"
      using t session_fixed_enforce [OF e] get_put_keys [of s r d] by (intro touches_trans [OF t touches_put]) simp
    note defs = uplink_in_session_def Let_def
    consider "\<not> ok" | "ok" "not_forwarded far s" | "ok" "\<not> not_forwarded far s" "(of_nat (length p) :: u64) > of_nat TUN_MTU"
      | "ok" "\<not> not_forwarded far s" "(of_nat (length p) :: u64) \<le> of_nat TUN_MTU" by force
    then show thesis
    proof cases
      case 1
      then show thesis using assms no Some m e t by (intro that(2) [of ?d]) (simp_all add: defs)
    next
      case 2
      then show thesis using assms no Some m e t by (intro that(2) [of ?d]) (simp_all add: defs)
    next
      case 3
      then show thesis using assms no Some m e t1 by (intro that(3) [of ?d1]) (simp_all add: defs)
    next
      case 4
      then obtain p' where p': "marked_payload d8 p = Ok p'"
        using assms no Some m e by (cases "marked_payload d8 p") (auto simp: defs leD)
      show thesis
        using assms no Some m e t1 4 p' leD [OF 4(3)]
        by (intro that(4) [of far qer urr_ids ohr d8 q s p' ?d1]) (auto simp: defs split: if_split_asm)
    qed
  qed
qed

lemma touches_uplink: "handle_uplink_packet F os pkt from d = Ok (es, d') \<Longrightarrow> touches d d'"
proof -
  have counted: "touches d (count_dropped e)" "touches d (count_spoofed e)" "touches d (count_oversize e)" if "touches d e" for e
    by (rule touches_trans [OF that touches_sessions]; simp)+
  have in_session: "touches d d'" if "uplink_in_session F os pkt p r d = Ok (es, d')" for p r
    using that
  proof (cases rule: uplink_in_session_cases)
    case (written far qer urr_ids ohr d8 q s p' d1)
    then show ?thesis using counted [OF written(7)] touches_count(1) [of d1] by (auto intro: touches_trans)
  qed (auto intro: counted)
  assume "handle_uplink_packet F os pkt from d = Ok (es, d')"
  then show "touches d d'"
    unfolding handle_uplink_packet_def uplink_gpdu_def uplink_error_indication_def uplink_echo_response_def Let_def
    by (auto intro: counted in_session touches_sessions split: outcome.split_asm if_split_asm option.split_asm option.split prod.split)
qed

lemma touches_downlink: "touches d (snd (handle_downlink_packet F os pkt d))"
proof -
  have counted: "touches e (count_dropped d')" "touches e (send_report_event ev d')" if "touches e d'" for e d' :: "'a DataPlane" and ev
    by (rule touches_trans [OF that touches_sessions]; simp)+
  have forward: "touches e (snd (downlink_forward os pkt r ids d8 q dest e))" for r ids d8 q dest and e :: "'a DataPlane"
  proof -
    obtain ok fx e1 where tos: "set_gtpu_outer_tos (set_tos_ok os) (case d8 of Some x \<Rightarrow> x | None \<Rightarrow> 0)
        (put_session r (record_usage (now os) ids (of_nat (length pkt)) False (get_session r e)) e) = (ok, fx, e1)"
      by (metis prod_cases3)
    have "sessions e1 = sessions (put_session r (record_usage (now os) ids (of_nat (length pkt)) False (get_session r e)) e)"
      using sessions_counted(5) tos by (metis snd_conv)
    then have e1: "touches e e1"
      by (intro touches_trans [OF touches_put touches_sessions]) auto
    show ?thesis
      using touches_trans [OF e1 touches_count(2)] counted(1) [OF e1] by (simp add: downlink_forward_def Let_def split_beta tos)
  qed
  have buffer: "touches e (downlink_buffer pkt r fid nocp b q e)" for r fid nocp b q and e :: "'a DataPlane"
  proof -
    obtain x s where b: "buffer_dl_packet pkt b (get_session r e) = (x, s)" by (metis surj_pair)
    have "touches e (put_session r s e)" by (rule touches_put [OF session_fixed_buffer [OF b]])
    from this counted [OF this] show ?thesis by (simp add: downlink_buffer_def Let_def b split_beta)
  qed
  have in_session: "touches d (snd (downlink_in_session F os pkt r d))" for r
  proof (cases "match_pdr_with_packet SRC_INTF_CORE (if drop_bit 4 (pkt ! 0) AND 0x0F = 4 then from_ipv4_packet pkt else None)
      None (get_session r d)")
    case None
    then show ?thesis using counted(1) [OF touches_refl] by (simp add: downlink_in_session_def Let_def)
  next
    case (Some m)
    obtain far qer ids ohr where m: "m = (far, qer, ids, ohr)" by (cases m) auto
    obtain ok d8 q s where e: "enforce_qer F (now os) qer False (of_nat (length pkt)) (get_session r d) = (ok, d8, q, s)"
      by (metis prod_cases4)
    have t: "touches d (put_session r s d)" by (rule touches_put [OF session_fixed_enforce [OF e]])
    show ?thesis
      using Some m e counted(1) [OF t] touches_trans [OF t forward] touches_trans [OF t buffer]
      by (simp add: downlink_in_session_def Let_def split: option.split FarDecision.split)
  qed
  show ?thesis
    using in_session counted(1) [OF touches_refl, of d] touches_sessions [of "count_oversize d" d]
    by (simp add: handle_downlink_packet_def Let_def split: option.split)
qed

lemma touches_flush: "touches d (snd (snd (flush_buffered_dl os k d)))"
proof -
  have loop: "touches e (snd (snd (flush_loop os j pkts r t a q e)))" for j pkts r t a q and e :: "'a DataPlane"
  proof (induction pkts arbitrary: j e)
    case (Cons pkt pkts)
    have "touches e (if send_ok os j then count_dl r (of_nat (length pkt)) e else count_dropped e)"
      using touches_count(2) [of e] touches_sessions [of "count_dropped e" e] by simp
    from touches_trans [OF this Cons.IH] show ?case by (simp add: Let_def split_beta)
  qed simp
  have drain: "session_fixed (snd (drain_dl_buffer s)) = session_fixed s" for s :: "'a DataPlaneSession"
    by (simp add: drain_dl_buffer_def session_fixed_def session_keys_def)
  show ?thesis
    using touches_put [OF drain] touches_trans [OF touches_put [OF drain] loop]
    by (simp add: flush_buffered_dl_def Let_def split_beta split: option.split)
qed

lemma touches_collect: "collect_urr_reports t d = Ok (reports, d') \<Longrightarrow> touches d d'"
proof -
  have keys: "session_fixed s' = session_fixed s" if "collect_session t s = Ok (es, s')" for s s' :: "'a DataPlaneSession" and es
    using that periods_report [of t "upf_seid s" "smf_seid s" "urrs s"]
    by (auto simp: collect_session_def session_fixed_def session_keys_def split_beta Let_def split: if_split_asm)
  have "collect_loop t rs d = Ok (reports, d') \<Longrightarrow> touches d d'" for rs
  proof (induction rs arbitrary: d reports)
    case (Cons r rs)
    then obtain es s es' where s: "collect_session t (get_session r d) = Ok (es, s)"
      and rest: "collect_loop t rs (put_session r s d) = Ok (es', d')"
      by (auto simp: obind_eq_Ok)
    show ?case by (rule touches_trans [OF touches_put [OF keys [OF s]] Cons.IH [OF rest]])
  qed simp
  then show "collect_urr_reports t d = Ok (reports, d') \<Longrightarrow> ?thesis" by (simp add: collect_urr_reports_def)
qed

lemma session_keys_rules [simp]:
  "session_keys (install_rules F t ps fs qs us bs s) = session_keys s"
  "session_keys (update_rules F t fs qs bs drop_buffered s) = session_keys s"
  by (simp_all add: install_rules_def update_rules_def drain_dl_buffer_def session_keys_def Let_def)

lemma touches_final: "touches d (snd (collect_final_usage_reports k d))"
proof -
  have "touches d (put_session r ((get_session r d)\<lparr>urrs := snd (final_reports (urrs (get_session r d)))\<rparr>) d)" for r
    by (rule touches_put) (simp add: session_fixed_def session_keys_def periods_final)
  then show ?thesis by (simp add: collect_final_usage_reports_def Let_def split_beta split: option.split)
qed

lemma touches_path: "touches d (snd (path_management_round d))"
  by (rule touches_sessions) (simp add: path_management_round_def Let_def split_beta)

text \<open>Installing rules may replace the PDRs as well; the keys stay.\<close>

definition rekeys :: "'f DataPlane \<Rightarrow> 'f DataPlane \<Rightarrow> bool" where
  "rekeys d d' \<longleftrightarrow>
     seid_map (sessions d') = seid_map (sessions d) \<and> ul_teid_map (sessions d') = ul_teid_map (sessions d) \<and>
     ue_ip_map (sessions d') = ue_ip_map (sessions d) \<and> length (heap (sessions d')) = length (heap (sessions d)) \<and>
     (\<forall>r < length (heap (sessions d)). session_keys (get_session r d') = session_keys (get_session r d))"

lemma touches_rekeys: "touches d d' \<Longrightarrow> rekeys d d'"
  by (simp add: touches_def rekeys_def session_fixed_def)

lemma rekeys_put:
  assumes "session_keys s = session_keys (get_session r d)"
  shows "rekeys d (put_session r s d)"
proof -
  have "session_keys ((heap (sessions d))[r := s] ! j) = session_keys (heap (sessions d) ! j)"
    if "j < length (heap (sessions d))" for j
    using assms that by (cases "j = r") (simp_all add: get_session_def)
  then show ?thesis by (simp add: rekeys_def put_session_def get_session_def)
qed

section \<open>The invariant of the session manager\<close>

definition indexed :: "'f SessionManager \<Rightarrow> bool" where
  "indexed m \<longleftrightarrow> distinct (map fst (seid_map m)) \<and> seid_exact m \<and> by_seid.exact m \<and> by_teid.exact m \<and> by_ue_ip.exact m"

text \<open>A session can be added when none of its keys is in use.\<close>

definition fresh :: "'f DataPlaneSession \<Rightarrow> 'f SessionManager \<Rightarrow> bool" where
  "fresh s m \<longleftrightarrow> find_by_seid (upf_seid s) m = None \<and> find_by_ul_teid (ul_teid s) m = None \<and>
     (\<forall>a. ue_ipv4 s = Some a \<longrightarrow> find_by_ue_ip a m = None)"

lemmas find_defs = find_by_seid_def find_by_ul_teid_def find_by_ue_ip_def

lemma live_bound: "seid_exact m \<Longrightarrow> r \<in> live m \<Longrightarrow> r < length (heap m)"
  unfolding seid_exact_def live_def ran_def by blast

lemma seid_exact_add: "seid_exact m \<Longrightarrow> seid_exact (snd (add_session s m))"
  unfolding seid_exact_def
  by (auto simp: add_session_def Let_def AList.update_conv' nth_append less_Suc_eq simp del: map_of_eq_Some_iff
      split: option.split)

lemma seid_exact_remove: "seid_exact m \<Longrightarrow> seid_exact (snd (remove_session_by_seid k m))"
  unfolding seid_exact_def
  by (auto simp: remove_session_by_seid_def Let_def AList.delete_conv' simp del: map_of_eq_Some_iff
      split: option.split if_split_asm)

lemma indexed_new: "indexed manager_new"
  by (simp add: indexed_def by_seid.exact_new by_teid.exact_new by_ue_ip.exact_new) (simp add: seid_exact_def manager_new_def)

lemma indexed_add:
  assumes "indexed m" and "fresh s m"
  shows "indexed (snd (add_session s m))"
proof -
  have seid: "seid_map (snd (add_session s m)) = AList.update (upf_seid s) (length (heap m)) (seid_map m)"
    by (simp add: add_session_def Let_def split: option.split)
  note inv = assms(1) [unfolded indexed_def] and free = assms(2) [unfolded fresh_def find_defs]
  have "by_seid.exact (snd (add_session s m))"
    by (rule by_seid.exact_add) (use inv free in auto)
  moreover have "by_teid.exact (snd (add_session s m))"
    by (rule by_teid.exact_add) (use inv free in auto)
  moreover have "by_ue_ip.exact (snd (add_session s m))"
    by (rule by_ue_ip.exact_add) (use inv free in auto)
  ultimately show ?thesis
    using inv by (simp add: indexed_def seid distinct_update seid_exact_add)
qed

lemma indexed_remove: "indexed m \<Longrightarrow> indexed (snd (remove_session_by_seid k m))"
proof -
  assume inv: "indexed m"
  have "distinct (map fst (seid_map (snd (remove_session_by_seid k m))))"
    using inv by (simp add: indexed_def remove_session_by_seid_def Let_def distinct_delete split: option.split)
  then show ?thesis
    using inv unfolding indexed_def
    by (simp add: seid_exact_remove by_seid.exact_remove by_teid.exact_remove by_ue_ip.exact_remove)
qed

text \<open>Removing by TEID is removing the session that the TEID leads to.\<close>

lemma remove_session_by_teid:
  assumes "indexed m" and "find_by_ul_teid t m = Some r"
  shows "remove_session t m = snd (remove_session_by_seid (upf_seid (heap m ! r)) m)"
proof -
  have "r \<in> live m" and t: "ul_teid (heap m ! r) = t"
    using assms by_teid.exactD [of m t r] by (simp_all add: indexed_def find_defs del: map_of_eq_Some_iff)
  then have "map_of (seid_map m) (upf_seid (heap m ! r)) = Some r"
    using assms(1) by_seid.exactD [of m "upf_seid (heap m ! r)" r] by (simp add: indexed_def del: map_of_eq_Some_iff)
  then show ?thesis
    using assms(2) t
    by (simp add: remove_session_def remove_session_by_seid_def find_defs Let_def del: map_of_eq_Some_iff split: option.split)
qed

lemma indexed_rekeys:
  assumes "rekeys d d'" and "indexed (sessions d)"
  shows "indexed (sessions d')"
proof -
  let ?m = "sessions d" and ?m' = "sessions d'"
  note same = assms(1) [unfolded rekeys_def get_session_def session_keys_def]
  have live: "live ?m' = live ?m" using same by (simp add: live_def)
  have keys: "upf_seid (heap ?m' ! r) = upf_seid (heap ?m ! r)" "ul_teid (heap ?m' ! r) = ul_teid (heap ?m ! r)"
    "ue_ipv4 (heap ?m' ! r) = ue_ipv4 (heap ?m ! r)" if "r \<in> live ?m" for r
    using same live_bound [OF _ that] assms(2) unfolding indexed_def by auto
  have "seid_exact ?m'"
    using assms(2) same unfolding indexed_def seid_exact_def by (auto simp del: map_of_eq_Some_iff)
  moreover have "by_seid.exact ?m'" "by_teid.exact ?m'" "by_ue_ip.exact ?m'"
    using assms(2) same keys unfolding indexed_def by_seid.exact_def by_teid.exact_def by_ue_ip.exact_def live
    by (auto simp del: map_of_eq_Some_iff)
  ultimately show ?thesis using assms(2) same by (simp add: indexed_def)
qed

lemmas indexed_touches = indexed_rekeys [OF touches_rekeys]

text \<open>After a removal the keys of the session are free again, which is what an update relies on.\<close>

lemma fresh_removed:
  assumes "indexed m" and "find_by_seid k m = Some r" and "upf_seid s = upf_seid (heap m ! r)"
    and "ul_teid s = ul_teid (heap m ! r)" and "ue_ipv4 s = ue_ipv4 (heap m ! r)"
  shows "fresh s (snd (remove_session_by_seid k m))"
proof -
  have "seid_exact m" "map_of (seid_map m) k = Some r" using assms by (simp_all add: indexed_def find_defs)
  note gone = by_seid.index_remove [OF this] by_teid.index_remove [OF this] by_ue_ip.index_remove [OF this]
  then show ?thesis unfolding fresh_def find_defs using assms(3-) by simp
qed

section \<open>The manager as a map from SEIDs to sessions\<close>

definition sessions_of :: "'f SessionManager \<Rightarrow> u64 \<Rightarrow> 'f DataPlaneSession option" where
  "sessions_of m k = map_option (\<lambda>r. heap m ! r) (find_by_seid k m)"

lemma sessions_of_live: "indexed m \<Longrightarrow> s \<in> ran (sessions_of m) \<longleftrightarrow> (\<exists>r \<in> live m. heap m ! r = s)"
  unfolding sessions_of_def find_defs live_def ran_def by (auto simp del: map_of_eq_Some_iff)

lemma sessions_of_add:
  assumes "indexed m"
  shows "sessions_of (snd (add_session s m)) = (sessions_of m)(upf_seid s \<mapsto> s)"
proof
  fix k
  have heap: "heap (snd (add_session s m)) = heap m @ [s]"
    by (simp add: add_session_def Let_def split: option.split)
  show "sessions_of (snd (add_session s m)) k = ((sessions_of m)(upf_seid s \<mapsto> s)) k"
  proof (cases "k = upf_seid s")
    case False
    then have "find_by_seid k (snd (add_session s m)) = find_by_seid k m"
      by (simp add: find_defs by_seid.index_add)
    moreover have "r < length (heap m)" if "find_by_seid k m = Some r" for r
      using that assms unfolding find_defs indexed_def seid_exact_def by blast
    ultimately show ?thesis
      using False by (cases "find_by_seid k m") (simp_all add: sessions_of_def heap nth_append)
  qed (simp add: sessions_of_def find_defs by_seid.index_add heap)
qed

lemma sessions_of_remove:
  assumes "indexed m"
  shows "sessions_of (snd (remove_session_by_seid k m)) = (sessions_of m)(k := None)"
proof (cases "map_of (seid_map m) k")
  case None
  then show ?thesis
    by (auto simp: sessions_of_def remove_session_by_seid_def find_defs fun_eq_iff simp del: map_of_eq_None_iff)
next
  case (Some r)
  then have "heap (snd (remove_session_by_seid k m)) = heap m" and k: "upf_seid (heap m ! r) = k"
    using assms unfolding indexed_def seid_exact_def
    by (simp_all add: remove_session_by_seid_def Let_def del: map_of_eq_Some_iff split: option.split)
  then show ?thesis
    using by_seid.index_remove [OF _ Some] assms by (auto simp: sessions_of_def find_defs indexed_def fun_eq_iff)
qed


definition demo_manager :: "nat SessionManager" where
  "demo_manager = snd (add_session demo_session manager_new)"


section \<open>Runs of the data plane\<close>

text \<open>
  Each step is one call of the data plane's interface. The SMF sets up a session with keys that are not in use; the
  other steps come with arbitrary packets, rules, arguments and answers of the operating system.
\<close>

fun event_fresh :: "PfcpSessionEvent \<Rightarrow> 'f SessionManager \<Rightarrow> bool" where
  "event_fresh (SessionEstablished us ss (Some a) ult dlt gnb ps fs qs us' bs) m \<longleftrightarrow>
     find_by_seid us m = None \<and> find_by_ul_teid ult m = None \<and> find_by_ue_ip a m = None"
| "event_fresh _ m \<longleftrightarrow> True"

inductive plane_step :: "'f f64_ops \<Rightarrow> 'f DataPlane \<Rightarrow> effect list \<Rightarrow> 'f DataPlane \<Rightarrow> bool" for F where
  step_uplink: "handle_uplink_packet F os pkt from d = Ok (es, d') \<Longrightarrow> plane_step F d es d'"
| step_downlink: "handle_downlink_packet F os pkt d = (es, d') \<Longrightarrow> plane_step F d es d'"
| step_event: "event_fresh ev (sessions d) \<Longrightarrow> handle_pfcp_session_event F os ev d = Ok (es, d') \<Longrightarrow> plane_step F d es d'"
| step_collect: "collect_urr_reports t d = Ok (reports, d') \<Longrightarrow> plane_step F d [] d'"
| step_final: "collect_final_usage_reports k d = (finals, d') \<Longrightarrow> plane_step F d [] d'"
| step_path: "path_management_round d = ((es, failed), d') \<Longrightarrow> plane_step F d es d'"

inductive plane_reachable :: "'f f64_ops \<Rightarrow> 'f DataPlane \<Rightarrow> bool" for F where
  start: "sessions d = manager_new \<Longrightarrow> plane_reachable F d"
| step: "plane_reachable F d \<Longrightarrow> plane_step F d es d' \<Longrightarrow> plane_reachable F d'"

lemma reachable_event:
  "plane_reachable F d \<Longrightarrow> event_fresh ev (sessions d) \<Longrightarrow> \<not> event_panics ev \<Longrightarrow> plane_reachable F (snd (session_event F os ev d))"
  by (rule plane_reachable.step [OF _ step_event [of ev d F os "fst (session_event F os ev d)"]]) (simp_all add: handle_pfcp_session_event_def)

lemma indexed_add_pfcp:
  assumes "indexed (sessions d)" and "find_by_seid us (sessions d) = None" and "find_by_ul_teid ult (sessions d) = None"
    and "find_by_ue_ip ue (sessions d) = None"
  shows "indexed (sessions (add_session_from_pfcp us ss ue ult dlt gnb pid q d))"
  using indexed_add [OF assms(1)] assms(2-)
  by (simp add: add_session_from_pfcp_def Let_def fresh_def session_new_empty_def)

lemma indexed_update:
  assumes "indexed (sessions d)"
  shows "indexed (sessions (update_session_from_pfcp k t g d))"
proof (cases "find_by_seid k (sessions d)")
  case None
  then show ?thesis using assms by (simp add: update_session_from_pfcp_def)
next
  case (Some r)
  let ?s = "get_session r d"
  let ?s1 = "if t \<noteq> None \<or> g \<noteq> None then ?s\<lparr>fars := map (\<lambda>(i, f). (i, redirect_far t g f)) (fars ?s)\<rparr> else ?s"
  define d1 where "d1 = put_session r (?s1\<lparr>pdrs := [], fars := [], qers := [], urrs := [], bars := [], dl_buffer := []\<rparr>) d"
  have keys1: "session_keys ?s1 = session_keys ?s" by (simp add: session_keys_def)
  have t: "rekeys d d1" unfolding d1_def by (rule rekeys_put) (simp add: session_keys_def)
  have inv: "indexed (sessions d1)" by (rule indexed_rekeys [OF t assms])
  have r: "find_by_seid k (sessions d1) = Some r" and "session_keys (heap (sessions d1) ! r) = session_keys ?s"
    using t Some assms unfolding rekeys_def find_defs get_session_def indexed_def seid_exact_def by (simp_all del: map_of_eq_Some_iff)
  then have "indexed (snd (add_session new (snd (remove_session_by_seid k (sessions d1)))))"
    if "session_keys new = session_keys ?s" for new
    using that by (intro indexed_add [OF indexed_remove [OF inv] fresh_removed [OF inv r]]) (simp_all add: session_keys_def)
  moreover have "sessions (e\<lparr>sessions := m\<rparr>) = m" for e :: "'a DataPlane" and m by simp
  ultimately show ?thesis
    using keys1
    by (simp only: update_session_from_pfcp_def Some option.case Let_def d1_def [symmetric])
      (simp add: session_keys_def session_new_empty_def)
qed

lemma indexed_rules: "indexed (sessions d) \<Longrightarrow> session_keys s = session_keys (get_session r d) \<Longrightarrow> indexed (sessions (put_session r s d))"
  using indexed_rekeys [OF rekeys_put] by blast

lemma indexed_established:
  assumes "indexed (sessions d)" and "\<And>a. ue = Some a \<Longrightarrow> find_by_seid us (sessions d) = None \<and>
      find_by_ul_teid ult (sessions d) = None \<and> find_by_ue_ip a (sessions d) = None"
  shows "indexed (sessions (session_established F t us ss ue ult dlt gnb ps fs qs us' bs d))"
proof (cases ue)
  case (Some a)
  then show ?thesis
    using indexed_add_pfcp [OF assms(1), of us ult a] assms(2) [OF Some]
    by (simp add: session_established_def Let_def indexed_rules split: option.split)
qed (simp add: session_established_def assms(1))

lemma indexed_modified:
  assumes "indexed (sessions d)"
  shows "indexed (sessions (snd (session_modified F os k t g fs qs bs em db old d)))"
proof -
  define e where "e = (if t \<noteq> None \<or> map_option gtpu_endpoint g \<noteq> None then update_session_from_pfcp k t (map_option gtpu_endpoint g) d else d)"
  have updated: "indexed (sessions e)" using indexed_update [OF assms] assms by (simp add: e_def)
  have rules: "indexed (sessions (put_session r (update_rules F (now os) fs qs bs db (get_session r e)) e))" for r db
    by (rule indexed_rules [OF updated]) simp
  have flushed: "indexed (sessions (snd (snd (flush_buffered_dl os k
      (put_session r (update_rules F (now os) fs qs bs db (get_session r e)) e)))))" for r db
    by (rule indexed_touches [OF touches_flush rules])
  show ?thesis
    unfolding session_modified_def Let_def e_def [symmetric]
    by (cases "find_by_seid k (sessions e)") (simp_all add: split_beta updated rules flushed)
qed

lemma indexed_peer_failure: "indexed (sessions d) \<Longrightarrow> indexed (sessions (peer_failure d))"
proof -
  have "indexed (sessions e) \<Longrightarrow> indexed (sessions (fold (\<lambda>(seid, _). remove_session_from_pfcp seid) xs e))"
    for e :: "'a DataPlane" and xs :: "(u64 \<times> u32 option \<times> u64 \<times> u64 \<times> u64 \<times> u64) list"
    by (induction xs arbitrary: e) (auto simp: remove_session_from_pfcp_def indexed_remove)
  then show "indexed (sessions d) \<Longrightarrow> ?thesis" by (simp add: peer_failure_def)
qed

lemma indexed_event:
  assumes "indexed (sessions d)" and "event_fresh ev (sessions d)"
  shows "indexed (sessions (snd (session_event F os ev d)))"
  using assms
proof (cases ev)
  case (SessionEstablished us ss ue ult dlt gnb ps fs qs us' bs)
  then show ?thesis using assms by (auto intro!: indexed_established)
qed (simp_all add: indexed_modified indexed_peer_failure remove_session_from_pfcp_def indexed_remove)

lemma plane_reachable_indexed:
  assumes "plane_reachable F d"
  shows "indexed (sessions d)"
  using assms
proof induction
  case (start d)
  then show ?case by (simp add: indexed_new)
next
  case (step d es d')
  from step(2) show ?case
  proof cases
    case (step_uplink os pkt "from")
    then show ?thesis using indexed_touches [OF touches_uplink step.IH] by blast
  next
    case (step_downlink os pkt)
    then show ?thesis using indexed_touches [OF touches_downlink step.IH] by (metis snd_conv)
  next
    case (step_event ev os)
    then show ?thesis using indexed_event [OF step.IH step_event(1)] by (metis handled_event snd_conv)
  next
    case (step_collect t reports)
    then show ?thesis using indexed_touches [OF touches_collect step.IH] by blast
  next
    case (step_path failed)
    then show ?thesis using indexed_touches [OF touches_path step.IH] by (metis snd_conv)
  next
    case (step_final k finals)
    then show ?thesis using indexed_touches [OF touches_final step.IH] by (metis snd_conv)
  qed
qed

text \<open>
  C8: In every reachable state of the data plane, whatever packets arrived and whatever the network devices
  answered, the three indices agree: a lookup by SEID, uplink TEID or UE address finds a session exactly when a
  live session has that key, so that each G-PDU is charged to the session owning its tunnel and address.
\<close>

theorem data_plane_indexed:
  assumes "plane_reachable F d"
  shows "(find_by_seid k (sessions d) = Some r \<longleftrightarrow> r \<in> live (sessions d) \<and> upf_seid (get_session r d) = k) \<and>
    (find_by_ul_teid t (sessions d) = Some r \<longleftrightarrow> r \<in> live (sessions d) \<and> ul_teid (get_session r d) = t) \<and>
    (find_by_ue_ip a (sessions d) = Some r \<longleftrightarrow> r \<in> live (sessions d) \<and> ue_ipv4 (get_session r d) = Some a)"
  using plane_reachable_indexed [OF assms] by_seid.exactD [of "sessions d" k r] by_teid.exactD [of "sessions d" t r]
    by_ue_ip.exactD [of "sessions d" a r]
  unfolding indexed_def find_defs get_session_def by simp

text \<open>A session is established, its downlink FAR is switched to buffering, and a packet for the UE comes in.\<close>

definition demo_event :: PfcpSessionEvent where
  "demo_event = SessionEstablished 7 8 (Some 0x0A2D0002) 9 10 (Some 1) [] [] [] [] []"

definition demo_plane :: "nat DataPlane" where
  "demo_plane = snd (session_event demo_f64 demo_os demo_event (data_plane_new\<lparr>gtpu_socket := True\<rparr>))"

lemma demo_plane_reachable: "plane_reachable demo_f64 demo_plane"
proof -
  have "event_fresh demo_event (sessions (data_plane_new\<lparr>gtpu_socket := True\<rparr> :: nat DataPlane))"
    by (simp add: demo_event_def find_defs manager_new_def data_plane_new_def)
  from reachable_event [OF plane_reachable.start this] show ?thesis
    unfolding demo_plane_def by (simp add: data_plane_new_def demo_event_def)
qed

theorem data_plane_indexed_witness:
  "find_by_ul_teid 9 (sessions demo_plane) = Some 0 \<and> upf_seid (get_session 0 demo_plane) = 7 \<and>
   find_by_seid 7 (sessions demo_plane) = Some 0 \<and> find_by_ue_ip 0x0A2D0002 (sessions demo_plane) = Some 0"
proof -
  have "find_by_ul_teid 9 (sessions demo_plane) = Some 0" and "upf_seid (get_session 0 demo_plane) = 7"
    and "ue_ipv4 (get_session 0 demo_plane) = Some 0x0A2D0002"
    by code_simp+
  then show ?thesis using data_plane_indexed [OF demo_plane_reachable, of 7 0 9 "0x0A2D0002"] by simp
qed

section \<open>Rules are kept in the order of precedence\<close>

text \<open>The PDRs of a session are sorted, and none of its URRs has a measurement period.\<close>

definition rules_ok :: "'f DataPlaneSession \<Rightarrow> bool" where
  "rules_ok s \<longleftrightarrow> sorted (map precedence (pdrs s)) \<and> set (periods (urrs s)) \<subseteq> {None}"

definition rules_sorted :: "'f DataPlane \<Rightarrow> bool" where
  "rules_sorted d \<longleftrightarrow> (\<forall>s \<in> set (heap (sessions d)). rules_ok s)"

lemma rules_ok_fixed: "session_fixed s' = session_fixed s \<Longrightarrow> rules_ok s' = rules_ok s"
  by (simp add: rules_ok_def session_fixed_def)

lemma rules_sorted_touches: "touches d d' \<Longrightarrow> rules_sorted d \<Longrightarrow> rules_sorted d'"
  unfolding rules_sorted_def touches_def get_session_def
  by (metis (no_types, lifting) in_set_conv_nth rules_ok_fixed)

lemma rules_sorted_put: "rules_sorted d \<Longrightarrow> rules_ok s \<Longrightarrow> rules_sorted (put_session r s d)"
  unfolding rules_sorted_def put_session_def by (auto dest!: subsetD [OF set_update_subset_insert])

lemma rules_sorted_get: "rules_sorted d \<Longrightarrow> r < length (heap (sessions d)) \<Longrightarrow> rules_ok (get_session r d)"
  by (simp add: rules_sorted_def get_session_def)

lemma periods_insert: "set (periods (AList.update i u us)) \<subseteq> insert (measurement_period_secs u) (set (periods us))"
  by (induction us) auto

lemma periods_installed: "set (periods us) \<subseteq> {None} \<Longrightarrow> set (periods (insert_all pu_urr_id (install_urr t) xs us)) \<subseteq> {None}"
proof (induction xs arbitrary: us)
  case (Cons x xs)
  have "set (periods (AList.update (pu_urr_id x) (install_urr t x) us)) \<subseteq> {None}"
    using Cons.prems periods_insert [of "pu_urr_id x" "install_urr t x" us] by (auto simp: install_urr_def urr_new_def)
  from Cons.IH [OF this] show ?case by (simp add: insert_all_def)
qed (simp add: insert_all_def)

lemma heap_add [simp]: "heap (snd (add_session s m)) = heap m @ [s]"
  by (simp add: add_session_def Let_def split: option.split)

lemma heap_remove [simp]: "heap (snd (remove_session_by_seid k m)) = heap m"
  by (simp add: remove_session_by_seid_def Let_def split: option.split)

lemma rules_sorted_add: "rules_sorted d \<Longrightarrow> rules_sorted (add_session_from_pfcp us ss ue ult dlt gnb pid q d)"
  unfolding rules_sorted_def add_session_from_pfcp_def Let_def by (auto simp: rules_ok_def session_new_empty_def)

lemma rules_sorted_remove: "rules_sorted d \<Longrightarrow> rules_sorted (remove_session_from_pfcp k d)"
  unfolding rules_sorted_def remove_session_from_pfcp_def by simp

lemma rules_sorted_install:
  "rules_ok s \<Longrightarrow> rules_ok (install_rules F t ps fs qs us bs s)"
  "rules_ok s \<Longrightarrow> rules_ok (update_rules F t fs qs bs db s)"
  using periods_installed [of "[]" t us]
  by (simp_all add: rules_ok_def install_rules_def update_rules_def drain_dl_buffer_def Let_def)

lemma rules_sorted_update:
  assumes "rules_sorted d" and "indexed (sessions d)"
  shows "rules_sorted (update_session_from_pfcp k t g d)"
proof (cases "find_by_seid k (sessions d)")
  case None
  then show ?thesis using assms by (simp add: update_session_from_pfcp_def)
next
  case (Some r)
  then have "r < length (heap (sessions d))"
    using assms(2) unfolding indexed_def seid_exact_def find_defs by blast
  then have s: "rules_ok (get_session r d)" by (rule rules_sorted_get [OF assms(1)])
  have cleared: "\<forall>x \<in> set (heap (sessions (put_session r s' d))). rules_ok x" if "pdrs s' = []" "urrs s' = []" for s'
    using rules_sorted_put [OF assms(1), of s' r] that unfolding rules_sorted_def by (simp add: rules_ok_def)
  have new: "rules_ok s'" if "pdrs s' = pdrs (get_session r d)" "urrs s' = urrs (get_session r d)" for s'
    using s that by (simp add: rules_ok_def)
  show ?thesis
    unfolding update_session_from_pfcp_def Some option.case Let_def rules_sorted_def
    by (auto intro: cleared [rule_format, rotated 2] new)
qed

lemma rules_sorted_event:
  assumes "rules_sorted d" and "indexed (sessions d)" and "event_fresh ev (sessions d)"
  shows "rules_sorted (snd (session_event F os ev d))"
proof (cases ev)
  case (SessionEstablished us ss ue ult dlt gnb ps fs qs us' bs)
  have "rules_sorted (session_established F t us ss ue ult dlt gnb ps fs qs us' bs d)" for t
  proof (cases ue)
    case (Some a)
    define e where "e = add_session_from_pfcp us ss a ult dlt (case gnb of Some g \<Rightarrow> gtpu_endpoint g | None \<Rightarrow> gtpu_endpoint 0x7F000001) None
      (case List.map_filter pq_qfi qs of [] \<Rightarrow> None | x # _ \<Rightarrow> Some x) d"
    have e: "rules_sorted e" and "indexed (sessions e)"
      using assms Some SessionEstablished unfolding e_def by (auto intro!: rules_sorted_add indexed_add_pfcp)
    then have "r < length (heap (sessions e))" if "find_by_seid us (sessions e) = Some r" for r
      using that unfolding indexed_def seid_exact_def find_defs by blast
    then show ?thesis
      using e rules_sorted_get [OF e]
      unfolding session_established_def Some option.case Let_def e_def [symmetric]
      by (auto intro!: rules_sorted_put rules_sorted_install split: option.split)
  qed (simp add: session_established_def assms(1))
  then show ?thesis using SessionEstablished by simp
next
  case (SessionModified k t g fs qs bs em db old)
  define e where "e = (if t \<noteq> None \<or> map_option gtpu_endpoint g \<noteq> None then update_session_from_pfcp k t (map_option gtpu_endpoint g) d else d)"
  have e: "rules_sorted e" and "indexed (sessions e)"
    using rules_sorted_update [OF assms(1,2)] indexed_update [OF assms(2)] assms(1,2) by (simp_all add: e_def)
  then have "r < length (heap (sessions e))" if "find_by_seid k (sessions e) = Some r" for r
    using that unfolding indexed_def seid_exact_def find_defs by blast
  then have rules: "rules_sorted (put_session r (update_rules F (now os) fs qs bs db (get_session r e)) e)"
    if "find_by_seid k (sessions e) = Some r" for r db
    using that e rules_sorted_get [OF e] by (intro rules_sorted_put rules_sorted_install) auto
  show ?thesis
    unfolding SessionModified session_event.simps session_modified_def Let_def e_def [symmetric]
    using rules rules_sorted_touches [OF touches_flush rules] e
    by (cases "find_by_seid k (sessions e)") (simp_all add: split_beta)
next
  case (SessionDeleted k x)
  then show ?thesis using assms(1) by (simp add: rules_sorted_remove)
next
  case (PeerFailure peer)
  have "rules_sorted e \<Longrightarrow> rules_sorted (fold (\<lambda>(seid, _). remove_session_from_pfcp seid) xs e)"
    for e :: "'a DataPlane" and xs :: "(u64 \<times> u32 option \<times> u64 \<times> u64 \<times> u64 \<times> u64) list"
    by (induction xs arbitrary: e) (auto simp: rules_sorted_remove)
  then show ?thesis using PeerFailure assms(1) by (simp add: peer_failure_def)
qed

lemma plane_reachable_sorted: "plane_reachable F d \<Longrightarrow> rules_sorted d"
proof (induction rule: plane_reachable.induct)
  case (start d)
  then show ?case by (simp add: rules_sorted_def manager_new_def)
next
  case (step d es d')
  note inv = plane_reachable_indexed [OF step(1)] and sorted = rules_sorted_touches [OF _ step.IH]
  from step(2) show ?case
  proof cases
    case (step_uplink os pkt "from")
    then show ?thesis using sorted [OF touches_uplink] by blast
  next
    case (step_downlink os pkt)
    then show ?thesis using sorted [OF touches_downlink] by (metis snd_conv)
  next
    case (step_event ev os)
    then show ?thesis using rules_sorted_event [OF step.IH inv step_event(1)] by (metis handled_event snd_conv)
  next
    case (step_collect t reports)
    then show ?thesis using sorted [OF touches_collect] by blast
  next
    case (step_final k finals)
    then show ?thesis using sorted [OF touches_final] by (metis snd_conv)
  next
    case (step_path failed)
    then show ?thesis using sorted [OF touches_path] by (metis snd_conv)
  qed
qed

text \<open>
  C22: In every reachable state, whatever rules the SMF installed and in whatever order, PDR matching on a live session
  returns the rules of a matching PDR with the least precedence value, and nothing exactly when no PDR of the session matches.
\<close>

theorem data_plane_pdr_match:
  assumes "plane_reachable F d" and "r \<in> live (sessions d)"
  shows "case match_pdr_with_packet intf packet pkt_qfi (get_session r d) of
      None \<Rightarrow> \<forall>p\<in>set (pdrs (get_session r d)). \<not> pdr_matches intf packet pkt_qfi p
    | Some m \<Rightarrow> \<exists>p\<in>set (pdrs (get_session r d)). m = pdr_result p \<and> pdr_matches intf packet pkt_qfi p \<and>
        (\<forall>p'\<in>set (pdrs (get_session r d)). pdr_matches intf packet pkt_qfi p' \<longrightarrow> precedence p \<le> precedence p')"
proof (rule pdr_match_least)
  have "r < length (heap (sessions d))"
    using plane_reachable_indexed [OF assms(1)] assms(2) live_bound unfolding indexed_def by blast
  then show "sorted (map precedence (pdrs (get_session r d)))"
    using rules_sorted_get [OF plane_reachable_sorted [OF assms(1)]] by (simp add: rules_ok_def)
qed

theorem data_plane_pdr_match_witness:
  "0 \<in> live (sessions demo_plane) \<and>
   (\<exists>p \<in> set (pdrs (get_session 0 demo_plane)). pdr_matches SRC_INTF_ACCESS None None p \<and>
      (\<forall>p'\<in>set (pdrs (get_session 0 demo_plane)). pdr_matches SRC_INTF_ACCESS None None p' \<longrightarrow> precedence p \<le> precedence p'))"
proof -
  have "find_by_seid 7 (sessions demo_plane) = Some 0" by code_simp
  then have live: "0 \<in> live (sessions demo_plane)" unfolding live_def find_defs by (rule ranI)
  moreover have "match_pdr_with_packet SRC_INTF_ACCESS None None (get_session 0 demo_plane) \<noteq> None" by code_simp
  ultimately show ?thesis
    using data_plane_pdr_match [OF demo_plane_reachable live, of SRC_INTF_ACCESS None None] by (auto split: option.split_asm)
qed

end
