(* ===== verification/Upf_Forwarding.thy ===== *)
theory Upf_Forwarding
  imports Upf_Index
begin

text \<open>
  What the data plane does with packets: which uplink packets reach the TUN device and which downlink packets are
  sent on which tunnel, that every packet is accounted for once, that a buffer is flushed in order, and when a
  silent GTP-U peer is declared failed.
\<close>

section \<open>Uplink\<close>

lemma parse_header_no_panic: "parse_gtpu_header pkt \<noteq> Panic"
  by (simp add: parse_gtpu_header_def Let_def split: prod.split)

text \<open>Marking changes the traffic class and, for IPv4, the header checksum: octets 0, 1, 10 and 11.\<close>

definition same_but_marking :: "bytes \<Rightarrow> bytes \<Rightarrow> bool" where
  "same_but_marking p p' \<longleftrightarrow> length p' = length p \<and> (\<forall>i < length p. i \<notin> {0, 1, 10, 11} \<longrightarrow> p' ! i = p ! i)"

lemma same_but_marking_refl [simp]: "same_but_marking p p"
  by (simp add: same_but_marking_def)

lemma mark_octets:
  "\<exists>ok p'. apply_dscp_to_ip_packet x p = (Ok (ok, p') :: ('e, bool \<times> bytes) outcome) \<and> same_but_marking p p'"
proof (cases "p \<noteq> [] \<and> drop_bit 4 (p ! 0) AND 0x0F = 4 \<and> length p \<ge> 20 \<and>
    20 \<le> unat (p ! 0 AND 0x0F) * 4 \<and> unat (p ! 0 AND 0x0F) * 4 \<le> length p")
  case True
  define q where "q = p[1 := push_bit 2 x OR (p ! 1 AND 0x03)]"
  have len: "length q = length p" by (simp add: q_def)
  have "take (unat (p ! 0 AND 0x0F) * 4) q \<noteq> []" using True len by (cases q) auto
  then obtain c where c: "ipv4_header_checksum (take (unat (p ! 0 AND 0x0F) * 4) q) = (Ok c :: ('e, u16) outcome)"
    by (simp add: ipv4_header_checksum_def Let_def split_beta)
  have "same_but_marking p (take 10 q @ to_be16 c @ drop 12 q)"
    using True len unfolding same_but_marking_def to_be16_def
    by (auto simp: nth_append q_def nth_list_update nth_Cons' not_less)
  moreover have "apply_dscp_to_ip_packet x p = (Ok (True, take 10 q @ to_be16 c @ drop 12 q) :: ('e, bool \<times> bytes) outcome)"
    using True c unfolding q_def by (simp add: apply_dscp_to_ip_packet_def Let_def)
  ultimately show ?thesis by blast
next
  case False
  then show ?thesis by (auto simp: apply_dscp_to_ip_packet_def Let_def same_but_marking_def)
qed

lemma marked_payload_octets: "\<exists>p'. marked_payload d8 p = Ok p' \<and> same_but_marking p p'"
proof (cases d8)
  case (Some x)
  obtain ok p' where "apply_dscp_to_ip_packet x p = (Ok (ok, p') :: (unit, bool \<times> bytes) outcome)" "same_but_marking p p'"
    using mark_octets by blast
  then show ?thesis using Some by (simp add: marked_payload_def)
qed (simp add: marked_payload_def)

lemma uplink_in_session_total: "\<exists>es d'. uplink_in_session F os pkt p r d = Ok (es, d')"
proof -
  have "\<exists>p'. marked_payload d8 p = Ok p'" for d8 using marked_payload_octets by blast
  then show ?thesis
    unfolding uplink_in_session_def Let_def
    by (auto simp: obind_def split: option.split prod.split outcome.split) (metis outcome.distinct)+
qed

lemma uplink_total: "\<exists>es d'. handle_uplink_packet F os pkt from d = Ok (es, d')"
  using uplink_in_session_total parse_header_no_panic [of pkt]
  by (auto simp: handle_uplink_packet_def uplink_gpdu_def Let_def split: outcome.split option.split)

text \<open>The counters of the data plane that a G-PDU can move.\<close>

definition uplink_counted :: "bool \<Rightarrow> u64 \<Rightarrow> DataPlaneStats \<Rightarrow> DataPlaneStats \<Rightarrow> bool" where
  "uplink_counted forwarded n st st' \<longleftrightarrow>
     st_ul_packets st' = st_ul_packets st + (if forwarded then 1 else 0) \<and>
     st_ul_bytes st' = st_ul_bytes st + (if forwarded then n else 0) \<and>
     dropped_packets st' = dropped_packets st + (if forwarded then 0 else 1) \<and>
     st_dl_packets st' = st_dl_packets st \<and> st_dl_bytes st' = st_dl_bytes st"

lemma stats_counted [simp]:
  "stats (count_dropped d) = (stats d)\<lparr>dropped_packets := dropped_packets (stats d) + 1\<rparr>"
  "stats (count_spoofed d) = (stats d)\<lparr>dropped_packets := dropped_packets (stats d) + 1, spoofed_packets := spoofed_packets (stats d) + 1\<rparr>"
  "stats (count_oversize d) = (stats d)\<lparr>dropped_packets := dropped_packets (stats d) + 1, oversize_packets := oversize_packets (stats d) + 1\<rparr>"
  "stats (count_ul r n d) = (stats d)\<lparr>st_ul_packets := st_ul_packets (stats d) + 1, st_ul_bytes := st_ul_bytes (stats d) + n\<rparr>"
  "stats (count_dl r n d) = (stats d)\<lparr>st_dl_packets := st_dl_packets (stats d) + 1, st_dl_bytes := st_dl_bytes (stats d) + n\<rparr>"
  by (simp_all add: count_dropped_def count_spoofed_def count_oversize_def count_ul_def count_dl_def Let_def)

lemma uplink_in_session_counted:
  assumes "uplink_in_session F os pkt p r d = Ok (es, d')"
  shows "uplink_counted (tun_write_ok os \<and> (\<exists>p'. TunWrite p' \<in> set es)) (of_nat (length p)) (stats d) (stats d')"
  using assms by (cases rule: uplink_in_session_cases) (auto simp: uplink_counted_def)

text \<open>
  C23: The uplink handler returns for every packet, and accounts for it once: a G-PDU is either written to the TUN
  device and counted as an uplink packet with its payload octets, or counted as dropped; signalling messages
  move no counter, and a packet whose header does not parse is dropped without an effect.
\<close>

theorem uplink_accounting:
  "\<exists>es d'. handle_uplink_packet F os pkt from d = Ok (es, d') \<and>
     (case parse_gtpu_header pkt of
        Ok h \<Rightarrow>
          if gh_msg_type h = GPDU
          then uplink_counted (tun_write_ok os \<and> (\<exists>p. TunWrite p \<in> set es)) (of_nat (length pkt - gh_header_len h))
                 (stats d) (stats d')
          else stats d' = stats d \<and> (\<forall>p. TunWrite p \<notin> set es)
      | _ \<Rightarrow> es = [] \<and> stats d' = (stats d)\<lparr>dropped_packets := dropped_packets (stats d) + 1\<rparr>)"
proof -
  obtain es d' where h: "handle_uplink_packet F os pkt from d = Ok (es, d')" using uplink_total by blast
  have reported: "stats (send_report_event ev d) = stats d" for ev
    by (simp add: send_report_event_def split: option.split)
  show ?thesis
  proof (cases "parse_gtpu_header pkt")
    case (Ok hd)
    show ?thesis
    proof (cases "gh_msg_type hd = GPDU")
      case True
      then have g: "uplink_gpdu F os pkt from hd d = Ok (es, d')"
        using h Ok by (simp add: handle_uplink_packet_def gtpu_msg_type)
      then have "uplink_counted (tun_write_ok os \<and> (\<exists>p. TunWrite p \<in> set es)) (of_nat (length pkt - gh_header_len hd)) (stats d) (stats d')"
        using uplink_in_session_counted [of F os pkt "drop (gh_header_len hd) pkt" _ d es d']
        by (auto simp: uplink_gpdu_def Let_def uplink_counted_def split: if_split_asm option.split_asm)
      then show ?thesis using h Ok True by auto
    next
      case False
      then have "stats d' = stats d \<and> (\<forall>p. TunWrite p \<notin> set es)"
        using h Ok reported
        by (auto simp: handle_uplink_packet_def uplink_error_indication_def uplink_echo_response_def Let_def
            split: if_split_asm option.split)
      then show ?thesis using h Ok False by auto
    qed
  next
    case (Err e)
    then show ?thesis using h by (auto simp: handle_uplink_packet_def)
  qed (use parse_header_no_panic in blast)
qed

text \<open>What the rules of a session say about an uplink payload \<open>p\<close> of the frame \<open>pkt\<close>.\<close>

definition uplink_permitted :: "bytes \<Rightarrow> bytes \<Rightarrow> 'f DataPlaneSession \<Rightarrow> bool" where
  "uplink_permitted pkt p s \<longleftrightarrow>
     (\<forall>a. ue_ipv4 s = Some a \<longrightarrow> length p \<ge> 20 \<longrightarrow> drop_bit 4 (p ! 0) = 4 \<longrightarrow> ipv4_src_addr p = a) \<and>
     (\<exists>pdr \<in> set (pdrs s).
        pdr_matches SRC_INTF_ACCESS (from_ipv4_packet p) (extract_qfi_from_gtp_header pkt) pdr \<and>
        (\<forall>q x. pdr_qer_id pdr = Some q \<longrightarrow> map_of (qers s) q = Some x \<longrightarrow> ul_gate_open x) \<and>
        (\<forall>f. pdr_far_id pdr = Some f \<longrightarrow>
           (\<exists>far. map_of (fars s) f = Some far \<and> apply_action far AND FAR_ACTION_DROP = 0 \<and>
              apply_action far AND FAR_ACTION_FORW \<noteq> 0)))"

lemma match_pdr_matches:
  assumes "match_pdr_with_packet intf packet pkt_qfi s = Some (far, qer, ids, ohr)"
  shows "\<exists>pdr \<in> set (pdrs s). pdr_matches intf packet pkt_qfi pdr \<and> pdr_far_id pdr = far \<and> pdr_qer_id pdr = qer"
  using assms unfolding match_pdr_with_packet_def match_pdr_find
  by (auto simp: find_Some_iff pdr_result_def)

lemma enforce_qer_passed:
  assumes "enforce_qer F t qer up n s = (True, d8, q, s')"
  shows "fars s' = fars s" and "qer = Some i \<Longrightarrow> map_of (qers s) i = Some x \<Longrightarrow> (if up then ul_gate_open x else dl_gate_open x)"
  using assms
  by (auto simp: enforce_qer_def check_qer_gate_def Let_def split_beta split: option.split_asm if_split_asm)

lemma far_forwards:
  assumes "\<not> not_forwarded (Some f) s"
  shows "\<exists>far. map_of (fars s) f = Some far \<and> apply_action far AND FAR_ACTION_DROP = 0 \<and> apply_action far AND FAR_ACTION_FORW \<noteq> 0"
  using assms by (auto simp: not_forwarded_def apply_far_def split: option.split_asm if_split_asm FarDecision.split_asm)

lemma uplink_written:
  assumes "uplink_in_session F os pkt p r d = Ok (es, d')" and "TunWrite p' \<in> set es"
  shows "uplink_permitted pkt p (get_session r d) \<and> same_but_marking p p' \<and> (of_nat (length p) :: u64) \<le> of_nat TUN_MTU"
  using assms(1)
proof (cases rule: uplink_in_session_cases)
  case (written far qer urr_ids ohr d8 q s p'' d1)
  obtain pdr where "pdr \<in> set (pdrs (get_session r d))" "pdr_far_id pdr = far" "pdr_qer_id pdr = qer"
      "pdr_matches SRC_INTF_ACCESS (from_ipv4_packet p) (extract_qfi_from_gtp_header pkt) pdr"
    using match_pdr_matches [OF written(2)] by blast
  moreover have "\<exists>x. map_of (fars (get_session r d)) f = Some x \<and> apply_action x AND FAR_ACTION_DROP = 0 \<and>
      apply_action x AND FAR_ACTION_FORW \<noteq> 0" if "far = Some f" for f
    using far_forwards [of f s] written(4) that enforce_qer_passed(1) [OF written(3)] by simp
  ultimately have "uplink_permitted pkt p (get_session r d)"
    using written(1) enforce_qer_passed(2) [OF written(3)] unfolding uplink_permitted_def
    by (auto simp: spoofed_def)
  moreover have "p'' = p'" using assms(2) written(9) by simp
  ultimately show ?thesis using written(5,6) marked_payload_octets [of d8 p] by auto
qed (use assms(2) in simp_all)

lemma uplink_session_owner:
  assumes "indexed m" and "find_uplink_session t p m = Some r"
  shows "r \<in> live m \<and> (ul_teid (heap m ! r) = t \<or> ue_ipv4 (heap m ! r) = Some (ipv4_src_addr p))"
  using assms by_teid.exactD [of m t r] by_ue_ip.exactD [of m "ipv4_src_addr p" r]
  by (auto simp: find_uplink_session_def find_defs indexed_def simp del: map_of_eq_Some_iff split: option.split_asm if_split_asm)


definition demo_ip :: "u8 \<Rightarrow> u8 \<Rightarrow> bytes" where
  "demo_ip src dst = [0x45, 0, 0, 20, 0, 0, 0, 0, 64, 1, 0, 0, 10, 45, 0, src, 10, 45, 0, dst]"

definition demo_gpdu :: bytes where
  "demo_gpdu = build_gtpu_header 9 20 @ demo_ip 2 99"

definition demo_gnb :: SocketAddr where
  "demo_gnb = \<lparr>sock_ip = V4 1, sock_port = 2152\<rparr>"

lemma demo_uplink:
  "\<exists>d'. handle_uplink_packet demo_f64 demo_os demo_gpdu demo_gnb demo_plane = Ok ([TunWrite (demo_ip 2 99)], d')"
proof -
  have parsed: "parse_gtpu_header demo_gpdu = Ok \<lparr>gh_msg_type = GPDU, gh_teid = 9, gh_seq_num = None, gh_qfi = None, gh_header_len = 8\<rparr>"
    and payload: "length demo_gpdu = 28" "drop 8 demo_gpdu = demo_ip 2 99"
    and found: "find_uplink_session 9 (demo_ip 2 99) (sessions demo_plane) = Some 0"
    and honest: "\<not> spoofed (demo_ip 2 99) (get_session 0 demo_plane)"
    and rules: "match_pdr_with_packet SRC_INTF_ACCESS (from_ipv4_packet (demo_ip 2 99)) (extract_qfi_from_gtp_header demo_gpdu)
      (get_session 0 demo_plane) = Some (Some 1, None, [], Some 0)" "apply_far 1 (get_session 0 demo_plane) = Forward None None"
    by code_simp+
  have "length (demo_ip 2 99) = 20" by (simp add: demo_ip_def)
  then show ?thesis
    using parsed payload found honest rules
    by (simp add: handle_uplink_packet_def uplink_gpdu_def uplink_in_session_def enforce_qer_def not_forwarded_def
        marked_payload_def gtpu_msg_type TUN_MTU_def demo_os_def Let_def)
qed


section \<open>Downlink\<close>

text \<open>The tunnel a FAR, or the lack of one, leads to.\<close>

definition downlink_route :: "u32 option \<Rightarrow> 'f DataPlaneSession \<Rightarrow> u32 \<times> SocketAddr \<Rightarrow> bool" where
  "downlink_route far s dest \<longleftrightarrow>
     (case far of
        None \<Rightarrow> dest = (dl_teid s, gnb_addr s)
      | Some fid \<Rightarrow> \<exists>ot oa. apply_far fid s = Forward ot oa \<and> dest = downlink_destination ot oa s)"

abbreviation downlink_tuple :: "bytes \<Rightarrow> PacketTuple option" where
  "downlink_tuple pkt \<equiv> (if drop_bit 4 (pkt ! 0) AND 0x0F = 4 then from_ipv4_packet pkt else None)"

lemma enforce_qer_keeps:
  assumes "enforce_qer F t qer up n s = (ok, d8, q, s')"
  shows "fars s' = fars s \<and> dl_teid s' = dl_teid s \<and> gnb_addr s' = gnb_addr s \<and> dl_buffer s' = dl_buffer s \<and>
    bars s' = bars s \<and> pdrs s' = pdrs s"
  using assms
  by (auto simp: enforce_qer_def check_qer_gate_def Let_def split_beta split: option.split_asm if_split_asm)

lemma downlink_forward_shape:
  assumes "downlink_forward os pkt r ids d8 q dest d = (es, d')"
  shows "\<exists>fx d1. (\<forall>e \<in> set fx. \<exists>t. e = SetIpTos t) \<and> es = fx @ [SendTo (encapsulate_dl_gpdu pkt (fst dest) q) (snd dest)] \<and>
    stats d1 = stats d \<and> d' = (if send_ok os 0 then count_dl r (of_nat (length pkt)) d1 else count_dropped d1)"
proof -
  have "(\<forall>e \<in> set (fst (snd (set_gtpu_outer_tos ok x e))). \<exists>t. e = SetIpTos t) \<and> stats (snd (snd (set_gtpu_outer_tos ok x e))) = stats e"
    for ok x and e :: "'a DataPlane"
    by (auto simp: set_gtpu_outer_tos_def Let_def split: if_split_asm)
  then show ?thesis
    using assms by (simp add: downlink_forward_def Let_def split_beta) (metis stats_put)
qed

lemma downlink_buffer_shape:
  assumes "r < length (heap (sessions d))"
  shows "stats (downlink_buffer pkt r fid nocp b q d) = stats d \<and>
      dl_buffer (get_session r (downlink_buffer pkt r fid nocp b q d)) = dl_buffer (get_session r d) @ [pkt] \<or>
    (\<exists>d1. stats d1 = stats d \<and> downlink_buffer pkt r fid nocp b q d = count_dropped d1)"
proof -
  have report: "stats (send_report_event ev e) = stats e" "get_session r (send_report_event ev e) = get_session r e"
    for ev and e :: "'a DataPlane"
    by (simp_all add: send_report_event_def get_session_def split: option.split)
  have put: "get_session r (put_session r s d) = s" for s
    using assms by (simp add: get_session_def put_session_def)
  show ?thesis
    by (auto simp: downlink_buffer_def buffer_dl_packet_def Let_def report put intro!: exI [of _ "put_session r (get_session r d) d"])
qed

lemma downlink_in_session_cases:
  assumes "downlink_in_session F os pkt r d = (es, d')" and "r < length (heap (sessions d))"
  obtains (dropped) d1 where "stats d1 = stats d" and "es = []" and "d' = count_dropped d1"
  | (buffered) "stats d' = stats d" and "es = []" and "dl_buffer (get_session r d') = dl_buffer (get_session r d) @ [pkt]"
  | (sent) far qer ids ohr d8 q q' s dest fx d1 where
      "match_pdr_with_packet SRC_INTF_CORE (downlink_tuple pkt) None (get_session r d) = Some (far, qer, ids, ohr)"
      and "enforce_qer F (now os) qer False (of_nat (length pkt)) (get_session r d) = (True, d8, q, s)"
      and "downlink_route far (get_session r d) dest" and "\<forall>e \<in> set fx. \<exists>t. e = SetIpTos t"
      and "es = fx @ [SendTo (encapsulate_dl_gpdu pkt (fst dest) q') (snd dest)]" and "stats d1 = stats d"
      and "d' = (if send_ok os 0 then count_dl r (of_nat (length pkt)) d1 else count_dropped d1)"
proof -
  let ?s = "get_session r d" and ?n = "of_nat (length pkt) :: u64"
  show thesis
  proof (cases "match_pdr_with_packet SRC_INTF_CORE (downlink_tuple pkt) None ?s")
    case None
    then show thesis using assms(1) by (intro dropped [of d]) (simp_all add: downlink_in_session_def Let_def)
  next
    case (Some m)
    obtain far qer ids ohr where m: "m = (far, qer, ids, ohr)" by (cases m) auto
    obtain ok d8 q s where e: "enforce_qer F (now os) qer False ?n ?s = (ok, d8, q, s)" by (metis prod_cases4)
    let ?d = "put_session r s d" and ?q = "case q of None \<Rightarrow> sess_qfi s | Some x \<Rightarrow> Some x"
    have at_r: "get_session r ?d = s" using assms(2) by (simp add: get_session_def put_session_def)
    have routes: "downlink_route far s dest = downlink_route far ?s dest" for dest
      using enforce_qer_keeps [OF e] by (simp add: downlink_route_def apply_far_def downlink_destination_def split: option.split)
    have forward: thesis if "downlink_forward os pkt r ids d8 ?q dest ?d = (es, d')" "downlink_route far s dest" ok for dest
    proof -
      from downlink_forward_shape [OF that(1)] obtain fx d1 where "\<forall>e \<in> set fx. \<exists>t. e = SetIpTos t"
          "es = fx @ [SendTo (encapsulate_dl_gpdu pkt (fst dest) ?q) (snd dest)]" "stats d1 = stats d"
          "d' = (if send_ok os 0 then count_dl r ?n d1 else count_dropped d1)"
        by auto
      then show thesis using that(2,3) Some m e routes by (intro sent [of far qer ids ohr d8 q s dest fx ?q d1]) simp_all
    qed
    have buffer: thesis if "downlink_buffer pkt r fid nocp b ?q ?d = d'" "es = []" for fid nocp b
      using downlink_buffer_shape [of r ?d pkt fid nocp b ?q] that assms(2) at_r enforce_qer_keeps [OF e] dropped buffered
      by (auto simp: put_session_def [of r s d])
    show thesis
      using assms(1) Some m e
      by (auto simp: downlink_in_session_def Let_def downlink_route_def
          intro: dropped [of d] dropped [of ?d] forward buffer split: if_split_asm option.split_asm FarDecision.split_asm)
  qed
qed

lemma downlink_cases:
  assumes "indexed (sessions d)" and "handle_downlink_packet F os pkt d = (es, d')" and "pkt \<noteq> []"
  obtains (refused) "es = []" and "d' = count_dropped d \<or> d' = count_oversize d"
  | (session) r where "r \<in> live (sessions d)" and "r < length (heap (sessions d))" and "downlink_in_session F os pkt r d = (es, d')"
    and "ue_ipv4 (get_session r d) = Some (ipv4_dst_addr pkt)" and "drop_bit 4 (pkt ! 0) AND 0x0F = 4"
proof (cases "es = [] \<and> (d' = count_dropped d \<or> d' = count_oversize d)")
  case False
  then obtain r where r: "find_by_ue_ip (ipv4_dst_addr pkt) (sessions d) = Some r"
      "downlink_in_session F os pkt r d = (es, d')" "drop_bit 4 (pkt ! 0) AND 0x0F = 4"
    using assms(2,3) by (auto simp: handle_downlink_packet_def Let_def split: if_split_asm option.split_asm)
  then have "r \<in> live (sessions d)" "ue_ipv4 (get_session r d) = Some (ipv4_dst_addr pkt)"
    using assms(1) by_ue_ip.exactD [of "sessions d" "ipv4_dst_addr pkt" r]
    by (simp_all add: indexed_def find_defs get_session_def del: map_of_eq_Some_iff)
  then show thesis using r session live_bound assms(1) unfolding indexed_def by blast
qed (use refused in blast)

text \<open>
  The tunnel a packet must take: the one in the outer header creation of its FAR, which has to forward and not to drop, each
  part of it replaced by the session's where the FAR has none; the session's if there is no FAR.
\<close>

definition far_tunnel :: "u32 option \<Rightarrow> 'f DataPlaneSession \<Rightarrow> u32 \<Rightarrow> SocketAddr \<Rightarrow> bool" where
  "far_tunnel far s t a \<longleftrightarrow>
     (case far of
        None \<Rightarrow> t = dl_teid s \<and> a = gnb_addr s
      | Some fid \<Rightarrow> \<exists>x. map_of (fars s) fid = Some x \<and> apply_action x AND 1 = 0 \<and> apply_action x AND 2 \<noteq> 0 \<and>
          (case ohc_teid x of Some t' \<Rightarrow> t = t' | None \<Rightarrow> t = dl_teid s) \<and>
          (case ohc_addr x of Some w \<Rightarrow> sock_ip a = V4 w \<and> sock_port a = 2152 | None \<Rightarrow> a = gnb_addr s))"

lemma far_tunnel_route: "downlink_route far s (t, a) \<Longrightarrow> far_tunnel far s t a"
  unfolding downlink_route_def far_tunnel_def downlink_destination_def apply_far_def
  by (auto simp: FAR_ACTION_DROP_def FAR_ACTION_FORW_def GTPU_PORT_def split: option.split_asm option.split if_split_asm)

text \<open>
  C10: In every reachable state, a frame that the downlink handler sends decapsulates to the packet read from the TUN
  device, the packet is addressed to the UE of a live session, and the frame goes to the tunnel and peer that
  the FAR of a matching PDR of that session names, the downlink gate of its QER being open.
\<close>

theorem downlink_safety:
  assumes "plane_reachable F d" and "handle_downlink_packet F os pkt d = (es, d')" and "SendTo f a \<in> set es"
  shows "\<exists>r pdr h. r \<in> live (sessions d) \<and> ue_ipv4 (get_session r d) = Some (ipv4_dst_addr pkt) \<and>
    decap_gtp f = Some pkt \<and> parse_gtpu_header f = Ok h \<and> gh_msg_type h = GPDU \<and>
    pdr \<in> set (pdrs (get_session r d)) \<and> pdr_matches SRC_INTF_CORE (from_ipv4_packet pkt) None pdr \<and>
    (\<forall>i x. pdr_qer_id pdr = Some i \<longrightarrow> map_of (qers (get_session r d)) i = Some x \<longrightarrow> dl_gate_open x) \<and>
    far_tunnel (pdr_far_id pdr) (get_session r d) (gh_teid h) a"
proof -
  note inv = plane_reachable_indexed [OF assms(1)]
  have "pkt \<noteq> []" and ne: "es \<noteq> []" using assms(2,3) by (auto simp: handle_downlink_packet_def)
  then obtain r where r: "r \<in> live (sessions d)" "r < length (heap (sessions d))" "downlink_in_session F os pkt r d = (es, d')"
      "ue_ipv4 (get_session r d) = Some (ipv4_dst_addr pkt)" "drop_bit 4 (pkt ! 0) AND 0x0F = 4"
    using downlink_cases [OF inv assms(2)] by metis
  from r(3,2) show ?thesis
  proof (cases rule: downlink_in_session_cases)
    case (sent far qer ids ohr d8 q q' s dest fx d1)
    obtain pdr where "pdr \<in> set (pdrs (get_session r d))" "pdr_matches SRC_INTF_CORE (from_ipv4_packet pkt) None pdr"
        "pdr_far_id pdr = far" "pdr_qer_id pdr = qer"
      using match_pdr_matches [OF sent(1)] r(5) by auto
    moreover have "f = encapsulate_dl_gpdu pkt (fst dest) q'" "a = snd dest" using assms(3) sent(4,5) by auto
    ultimately show ?thesis
      using r(1,4) sent(3) enforce_qer_passed(2) [OF sent(2)] gtpu_downlink_roundtrip [of pkt "fst dest" q'] far_tunnel_route
      by (metis prod.collapse)
  qed (use ne in simp_all)
qed

text \<open>
  Every downlink packet is accounted for once: it is sent and counted with its octets, or appended to the buffer of
  a live session without moving a counter, or counted as dropped.
\<close>

lemma downlink_accounting:
  assumes "plane_reachable F d" and "handle_downlink_packet F os pkt d = (es, d')" and "pkt \<noteq> []"
  shows "((\<exists>f a. SendTo f a \<in> set es) \<and> send_ok os 0 \<and>
      stats d' = (stats d)\<lparr>st_dl_packets := st_dl_packets (stats d) + 1, st_dl_bytes := st_dl_bytes (stats d) + of_nat (length pkt)\<rparr>) \<or>
    (es = [] \<and> stats d' = stats d \<and>
      (\<exists>r \<in> live (sessions d). dl_buffer (get_session r d') = dl_buffer (get_session r d) @ [pkt])) \<or>
    (dropped_packets (stats d') = dropped_packets (stats d) + 1 \<and> st_dl_packets (stats d') = st_dl_packets (stats d) \<and>
      st_dl_bytes (stats d') = st_dl_bytes (stats d))"
  using plane_reachable_indexed [OF assms(1)] assms(2,3)
proof (cases rule: downlink_cases)
  case (session r)
  from session(3,2) show ?thesis
    by (cases rule: downlink_in_session_cases) (use session(1) in auto)
qed auto

definition demo_downlink :: "effect list \<times> nat DataPlane" where
  "demo_downlink = handle_downlink_packet demo_f64 demo_os (demo_ip 99 2) demo_plane"

lemma demo_downlink_frame:
  "SendTo (encapsulate_dl_gpdu (demo_ip 99 2) 10 None) demo_gnb \<in> set (fst demo_downlink)"
  "dropped_packets (stats (snd demo_downlink)) = 0"
proof -
  have "find_by_ue_ip (ipv4_dst_addr (demo_ip 99 2)) (sessions demo_plane) = Some 0" "drop_bit 4 (demo_ip 99 2 ! 0) AND 0x0F = 4"
    "match_pdr_with_packet SRC_INTF_CORE (from_ipv4_packet (demo_ip 99 2)) None (get_session 0 demo_plane) = Some (Some 2, None, [], None)"
    "apply_far 2 (get_session 0 demo_plane) = Forward (Some 10) (Some 1)" "sess_qfi (get_session 0 demo_plane) = None"
    by code_simp+
  moreover have "length (demo_ip 99 2) = 20" "demo_ip 99 2 \<noteq> []" by (simp_all add: demo_ip_def)
  moreover have "stats demo_plane = stats_default" "gtpu_socket demo_plane" by code_simp+
  ultimately show "SendTo (encapsulate_dl_gpdu (demo_ip 99 2) 10 None) demo_gnb \<in> set (fst demo_downlink)"
      "dropped_packets (stats (snd demo_downlink)) = 0"
    by (simp_all add: demo_downlink_def demo_os_def stats_default_def handle_downlink_packet_def downlink_in_session_def enforce_qer_def downlink_forward_def
        downlink_destination_def TUN_MTU_def GTPU_PORT_def demo_gnb_def set_gtpu_outer_tos_def
        put_session_def Let_def split_beta)
qed

theorem downlink_safety_witness:
  "\<exists>r h. r \<in> live (sessions demo_plane) \<and> decap_gtp (encapsulate_dl_gpdu (demo_ip 99 2) 10 None) = Some (demo_ip 99 2) \<and>
     parse_gtpu_header (encapsulate_dl_gpdu (demo_ip 99 2) 10 None) = Ok h \<and> gh_msg_type h = GPDU"
  using downlink_safety [OF demo_plane_reachable _ demo_downlink_frame(1), of demo_os "demo_ip 99 2" "snd demo_downlink"]
  unfolding demo_downlink_def by auto

theorem downlink_accounting_witness:
  "fst demo_downlink \<noteq> [] \<and> send_ok demo_os 0 \<and> st_dl_packets (stats (snd demo_downlink)) = 1"
proof -
  have "demo_ip 99 2 \<noteq> []" by (simp add: demo_ip_def)
  moreover have "fst demo_downlink \<noteq> []" using demo_downlink_frame(1) by auto
  moreover have "dropped_packets (stats (snd demo_downlink)) = 0" by (rule demo_downlink_frame)
  moreover have "stats demo_plane = stats_default" by code_simp
  ultimately show ?thesis
    using downlink_accounting [OF demo_plane_reachable, of demo_os "demo_ip 99 2" "fst demo_downlink" "snd demo_downlink"]
    by (auto simp: demo_downlink_def demo_os_def stats_default_def)
qed

section \<open>Flushing\<close>

lemma buffer_counted [simp]:
  "dl_buffer (get_session r (count_dl r n d)) = dl_buffer (get_session r d)"
  "dl_buffer (get_session r (count_dropped d)) = dl_buffer (get_session r d)"
  "ddn_sent (get_session r (count_dl r n d)) = ddn_sent (get_session r d)"
  "ddn_sent (get_session r (count_dropped d)) = ddn_sent (get_session r d)"
  by (cases "r < length (heap (sessions d))";
      simp add: count_dl_def count_dropped_def get_session_def put_session_def Let_def list_update_beyond)+

lemma flush_loop_sends:
  "flush_loop os k pkts r t a q d = (n, es, d') \<Longrightarrow>
     n = length (filter (send_ok os) [k..<k + length pkts]) \<and> es = map (\<lambda>p. SendTo (encapsulate_dl_gpdu p t q) a) pkts \<and>
     dl_buffer (get_session r d') = dl_buffer (get_session r d) \<and> ddn_sent (get_session r d') = ddn_sent (get_session r d)"
proof (induction pkts arbitrary: k d n es d')
  case (Cons pkt pkts)
  let ?d = "if send_ok os k then count_dl r (of_nat (length pkt)) d else count_dropped d"
  obtain n' es' d'' where rest: "flush_loop os (Suc k) pkts r t a q ?d = (n', es', d'')" by (metis prod_cases3)
  then have n: "n = (if send_ok os k then Suc n' else n')" and es: "es = SendTo (encapsulate_dl_gpdu pkt t q) a # es'"
      and "d'' = d'"
    using Cons.prems by (simp_all add: Let_def)
  have "[k..<k + length (pkt # pkts)] = k # [Suc k..<Suc k + length pkts]"
    by (subst upt_conv_Cons) (simp_all del: upt_Suc)
  then show ?case using Cons.IH [OF rest] n es \<open>d'' = d'\<close> by (simp del: upt_Suc)
qed simp

text \<open>
  C24: Once the FAR towards the access network forwards again, flushing a session sends exactly the buffered packets,
  in the order in which they were buffered, each in a frame that decapsulates to it, all to the tunnel of that FAR,
  reports how many the socket took, and leaves an empty buffer and a re-armed downlink data notification.
\<close>

theorem downlink_flush_order:
  assumes "plane_reachable F d" and "find_by_seid k (sessions d) = Some r" and "gtpu_socket d"
    and "List.find (\<lambda>f. destination_interface f = SRC_INTF_ACCESS \<and> apply_action f AND FAR_ACTION_FORW \<noteq> 0)
        (map snd (fars (get_session r d))) = Some f"
    and "flush_buffered_dl os k d = (n, es, d')"
  shows "map (\<lambda>e. case e of SendTo frame a \<Rightarrow> Some (decap_gtp frame, a) | _ \<Rightarrow> None) es =
      map (\<lambda>p. Some (Some p, snd (downlink_destination (ohc_teid f) (ohc_addr f) (get_session r d)))) (dl_buffer (get_session r d)) \<and>
    n = length (filter (send_ok os) [0..<length (dl_buffer (get_session r d))]) \<and>
    dl_buffer (get_session r d') = [] \<and> \<not> ddn_sent (get_session r d')"
proof -
  let ?s = "get_session r d" and ?s' = "snd (drain_dl_buffer (get_session r d))"
  have "r < length (heap (sessions d))"
    using plane_reachable_indexed [OF assms(1)] assms(2) unfolding indexed_def seid_exact_def find_defs by blast
  then have put: "get_session r (put_session r ?s' d) = ?s'" by (simp add: get_session_def put_session_def)
  have drained: "fst (drain_dl_buffer ?s) = dl_buffer ?s" "dl_buffer ?s' = []" "\<not> ddn_sent ?s'"
      "downlink_destination (ohc_teid f) (ohc_addr f) ?s' = downlink_destination (ohc_teid f) (ohc_addr f) ?s"
    by (simp_all add: drain_dl_buffer_def downlink_destination_def split: option.split)
  have socket: "gtpu_socket (put_session r ?s' d)" using assms(3) by (simp add: put_session_def)
  obtain t a where dest: "downlink_destination (ohc_teid f) (ohc_addr f) ?s = (t, a)" by force
  have "dl_buffer ?s = [] \<and> n = 0 \<and> es = [] \<and> d' = put_session r ?s' d \<or>
      flush_loop os 0 (dl_buffer ?s) r t a (sess_qfi ?s') (put_session r ?s' d) = (n, es, d')"
    using assms(2,4,5) socket drained dest by (auto simp: flush_buffered_dl_def split_beta Let_def split: if_split_asm)
  then show ?thesis
    using flush_loop_sends [of os 0 "dl_buffer ?s" r t a "sess_qfi ?s'" "put_session r ?s' d" n es d'] put drained dest
    by (auto simp: gtpu_downlink_roundtrip)
qed

text \<open>The FAR of the downlink PDR is set to buffer, another one forwards, and a packet for the UE arrives.\<close>

definition demo_buffering :: "nat DataPlane" where
  "demo_buffering = snd (session_event demo_f64 demo_os
     (SessionModified 7 None None
        [\<lparr>pf_far_id = 2, pf_apply_action = FAR_ACTION_BUFF,
          pf_forwarding_parameters = Some \<lparr>fp_destination_interface = SRC_INTF_ACCESS, fp_network_instance = None, fp_outer_header_creation = None\<rparr>,
          pf_bar_id = None\<rparr>,
         \<lparr>pf_far_id = 3, pf_apply_action = FAR_ACTION_FORW,
          pf_forwarding_parameters = Some \<lparr>fp_destination_interface = SRC_INTF_ACCESS, fp_network_instance = None, fp_outer_header_creation = None\<rparr>,
          pf_bar_id = None\<rparr>] [] [] False False None) demo_plane)"

definition demo_buffered :: "nat DataPlane" where
  "demo_buffered = snd (handle_downlink_packet demo_f64 demo_os (demo_ip 99 2) demo_buffering)"

lemma demo_buffered_reachable: "plane_reachable demo_f64 demo_buffered"
  unfolding demo_buffered_def demo_buffering_def
  by (rule plane_reachable.step [OF reachable_event [OF demo_plane_reachable] step_downlink [OF prod.collapse [symmetric]]]) simp_all

lemma demo_buffered_state:
  "find_by_seid 7 (sessions demo_buffered) = Some 0" "gtpu_socket demo_buffered" "dl_buffer (get_session 0 demo_buffered) = [demo_ip 99 2]"
  by code_simp+

theorem downlink_flush_order_witness:
  "\<exists>n es d' a. flush_buffered_dl demo_os 7 demo_buffered = (n, es, d') \<and>
     map (\<lambda>e. case e of SendTo frame a \<Rightarrow> Some (decap_gtp frame, a) | _ \<Rightarrow> None) es = [Some (Some (demo_ip 99 2), a)] \<and>
     n = 1 \<and> dl_buffer (get_session 0 d') = []"
proof -
  obtain n es d' where flush: "flush_buffered_dl demo_os 7 demo_buffered = (n, es, d')" by (metis prod_cases3)
  have "List.find (\<lambda>f. destination_interface f = SRC_INTF_ACCESS \<and> apply_action f AND FAR_ACTION_FORW \<noteq> 0)
      (map snd (fars (get_session 0 demo_buffered))) \<noteq> None" by code_simp
  then obtain f where far: "List.find (\<lambda>f. destination_interface f = SRC_INTF_ACCESS \<and> apply_action f AND FAR_ACTION_FORW \<noteq> 0)
      (map snd (fars (get_session 0 demo_buffered))) = Some f" by blast
  from downlink_flush_order [OF demo_buffered_reachable demo_buffered_state(1,2) far flush] flush show ?thesis
    by (auto simp: demo_buffered_state(3) demo_os_def)
qed

end
