(* ===== verification/Upf_Usage.thy ===== *)
theory Upf_Usage
  imports Upf_Forwarding
begin

text \<open>
  Usage reporting: \<^verbatim>\<open>collect_urr_reports\<close> (\<^verbatim>\<open>data_plane.rs\<close>) returns in every reachable state of the data plane, although its
  second loop would block on a lock that it holds itself, and reports every threshold that was reached.
\<close>

lemma no_period_due: "rules_ok s \<Longrightarrow> (i, u) \<in> set (urrs s) \<Longrightarrow> \<not> period_due t u"
  unfolding rules_ok_def periods_def period_due_def by (force split: option.split)

lemma collect_session_returns:
  assumes "rules_ok s"
  shows "collect_session t s = Ok (fst (report_loop t (upf_seid s) (smf_seid s) (urrs s)),
    s\<lparr>urrs := snd (report_loop t (upf_seid s) (smf_seid s) (urrs s))\<rparr>)"
proof -
  let ?l = "report_loop t (upf_seid s) (smf_seid s) (urrs s)"
  have "rules_ok (s\<lparr>urrs := snd ?l\<rparr>)" using assms by (simp add: rules_ok_def periods_report)
  then have "\<not> period_due t u" if "(i, u) \<in> set (snd ?l)" for i u
    using no_period_due [of "s\<lparr>urrs := snd ?l\<rparr>" i u t] that by simp
  then show ?thesis by (auto simp: collect_session_def Let_def split_beta)
qed

lemma report_loop_clears: "(i, u) \<in> set (snd (report_loop t us ss xs)) \<Longrightarrow> \<not> threshold_exceeded u"
  by (induction xs) (auto simp: Let_def split_beta report_urr_def reset_counters_def split: if_split_asm)

lemma report_loop_entry:
  "(i, u) \<in> set xs \<Longrightarrow> threshold_exceeded u \<Longrightarrow> fst (report_urr t us ss i u) \<in> set (fst (report_loop t us ss xs))"
  by (induction xs) (auto simp: Let_def split_beta)

lemma get_put_other: "r' \<noteq> r \<Longrightarrow> get_session r' (put_session r s d) = get_session r' d"
  by (simp add: get_session_def put_session_def)

lemma get_put_same: "r < length (heap (sessions d)) \<Longrightarrow> get_session r (put_session r s d) = s"
  by (simp add: get_session_def put_session_def)

lemma collect_loop_returns:
  assumes "\<And>r. r \<in> set rs \<Longrightarrow> r < length (heap (sessions d)) \<and> rules_ok (get_session r d)" and "distinct rs"
  shows "\<exists>reports d'. collect_loop t rs d = Ok (reports, d') \<and> (\<forall>r. r \<notin> set rs \<longrightarrow> get_session r d' = get_session r d) \<and>
    (\<forall>r \<in> set rs. let s = get_session r d; l = report_loop t (upf_seid s) (smf_seid s) (urrs s)
       in set (fst l) \<subseteq> set reports \<and> get_session r d' = s\<lparr>urrs := snd l\<rparr>)"
  using assms
proof (induction rs arbitrary: d)
  case (Cons r rs)
  let ?s = "get_session r d"
  let ?l = "report_loop t (upf_seid ?s) (smf_seid ?s) (urrs ?s)"
  let ?s' = "?s\<lparr>urrs := snd ?l\<rparr>" and ?d = "put_session r (?s\<lparr>urrs := snd ?l\<rparr>) d"
  have r: "r < length (heap (sessions d))" "rules_ok ?s" "r \<notin> set rs" "distinct rs" using Cons.prems by auto
  have other: "get_session r' ?d = get_session r' d" if "r' \<in> set rs" for r'
    using r(3) that by (intro get_put_other) blast
  have "\<And>r'. r' \<in> set rs \<Longrightarrow> r' < length (heap (sessions ?d)) \<and> rules_ok (get_session r' ?d)"
    using Cons.prems(1) other by (simp add: put_session_def)
  from Cons.IH [OF this r(4)] obtain reports d' where rest: "collect_loop t rs ?d = Ok (reports, d')"
    and kept: "\<forall>r'. r' \<notin> set rs \<longrightarrow> get_session r' d' = get_session r' ?d"
    and done_: "\<forall>r' \<in> set rs. let s = get_session r' ?d; l = report_loop t (upf_seid s) (smf_seid s) (urrs s)
       in set (fst l) \<subseteq> set reports \<and> get_session r' d' = s\<lparr>urrs := snd l\<rparr>"
    by blast
  have "collect_loop t (r # rs) d = Ok (fst ?l @ reports, d')"
    using rest by (simp add: collect_session_returns [OF r(2)])
  moreover have "get_session r d' = ?s'" using kept r(1,3) by (simp add: get_put_same)
  moreover have "get_session r' d' = get_session r' d" if "r' \<notin> set (r # rs)" for r'
    using kept that by (simp add: get_put_other)
  ultimately show ?case
    using done_ other by (intro exI [of _ "fst ?l @ reports"] exI [of _ d']) (auto simp: Let_def)
qed simp

lemma live_refs: "indexed m \<Longrightarrow> live m = set (map snd (seid_map m))"
  by (force simp: indexed_def live_def ran_def dest: map_of_SomeD intro: map_of_is_SomeI)

lemma distinct_refs:
  assumes "indexed m"
  shows "distinct (map snd (seid_map m))"
proof -
  have "upf_seid (heap m ! r) = k" if "(k, r) \<in> set (seid_map m)" for k r
    using assms that unfolding indexed_def seid_exact_def by (metis map_of_is_SomeI)
  then have "map fst (seid_map m) = map (\<lambda>r. upf_seid (heap m ! r)) (map snd (seid_map m))" by auto
  then show ?thesis using assms unfolding indexed_def by (metis distinct_map)
qed

text \<open>
  C27: In every reachable state of the data plane the collection of usage reports returns (it never reaches the loop body
  that asks for a lock it holds), reports each URR of a live session whose threshold was reached, with the counters and
  the sequence number it had, and leaves no reached threshold behind; sessions that are not live are not changed.
\<close>

theorem urr_collection_returns:
  assumes "plane_reachable F d"
  shows "\<exists>reports d'. collect_urr_reports t d = Ok (reports, d') \<and>
    (\<forall>r. r \<notin> live (sessions d) \<longrightarrow> get_session r d' = get_session r d) \<and>
    (\<forall>r \<in> live (sessions d). has_urr_threshold_exceeded (get_session r d') = [] \<and>
      (\<forall>(i, u) \<in> set (urrs (get_session r d)). threshold_exceeded u \<longrightarrow>
         (\<exists>e \<in> set reports. re_upf_seid e = upf_seid (get_session r d) \<and> re_urr_id e = i \<and> re_ur_seqn e = ur_seqn u \<and>
            total_bytes e = acc_total_bytes u \<and> re_ul_bytes e = acc_ul_bytes u \<and> re_dl_bytes e = acc_dl_bytes u)))"
proof -
  let ?rs = "map snd (seid_map (sessions d))"
  have inv: "indexed (sessions d)" and ok: "rules_sorted d"
    using assms by (rule plane_reachable_indexed, rule plane_reachable_sorted)
  have live: "live (sessions d) = set ?rs" and dist: "distinct ?rs"
    using inv by (rule live_refs, rule distinct_refs)
  have bound: "r < length (heap (sessions d)) \<and> rules_ok (get_session r d)" if "r \<in> set ?rs" for r
    using that live live_bound inv rules_sorted_get [OF ok] unfolding indexed_def by blast
  from collect_loop_returns [OF bound dist, of t] obtain reports d' where
    col: "collect_urr_reports t d = Ok (reports, d')" and kept: "\<forall>r. r \<notin> set ?rs \<longrightarrow> get_session r d' = get_session r d"
    and "\<forall>r \<in> set ?rs. let s = get_session r d; l = report_loop t (upf_seid s) (smf_seid s) (urrs s)
       in set (fst l) \<subseteq> set reports \<and> get_session r d' = s\<lparr>urrs := snd l\<rparr>"
    unfolding collect_urr_reports_def by blast
  then have after: "set (fst (report_loop t (upf_seid (get_session r d)) (smf_seid (get_session r d)) (urrs (get_session r d)))) \<subseteq> set reports"
      "urrs (get_session r d') = snd (report_loop t (upf_seid (get_session r d)) (smf_seid (get_session r d)) (urrs (get_session r d)))"
    if "r \<in> set ?rs" for r
    using that unfolding Let_def by force+
  have "has_urr_threshold_exceeded (get_session r d') = []" if "r \<in> set ?rs" for r
    unfolding has_urr_threshold_exceeded_def after(2) [OF that] by (auto simp: filter_empty_conv dest: report_loop_clears)
  moreover have "fst (report_urr t (upf_seid (get_session r d)) (smf_seid (get_session r d)) i u) \<in> set reports"
    if "r \<in> set ?rs" "(i, u) \<in> set (urrs (get_session r d))" "threshold_exceeded u" for r i u
    using after(1) [OF that(1)] report_loop_entry [OF that(2,3)] by blast
  moreover have "re_upf_seid (fst (report_urr t us ss i u)) = us \<and> re_urr_id (fst (report_urr t us ss i u)) = i \<and>
      re_ur_seqn (fst (report_urr t us ss i u)) = ur_seqn u \<and> total_bytes (fst (report_urr t us ss i u)) = acc_total_bytes u \<and>
      re_ul_bytes (fst (report_urr t us ss i u)) = acc_ul_bytes u \<and> re_dl_bytes (fst (report_urr t us ss i u)) = acc_dl_bytes u"
    for us ss i u
    by (simp add: report_urr_def next_ur_seqn_def Let_def)
  ultimately show ?thesis
    using col kept unfolding live by (intro exI [of _ reports] exI [of _ d']) blast
qed

text \<open>A session with a volume threshold of 10 octets that has forwarded a packet.\<close>

definition metered_event :: PfcpSessionEvent where
  "metered_event = SessionEstablished 7 8 (Some 0x0A2D0002) 9 10 (Some 1)
     [\<lparr>pp_pdr_id = 1, pp_precedence = 10, pp_pdi = pdi_default\<lparr>pdi_source_interface := SRC_INTF_ACCESS\<rparr>,
       pp_outer_header_removal = None, pp_far_id = None, pp_urr_ids = [5], pp_qer_id = None\<rparr>] [] []
     [\<lparr>pu_urr_id = 5, pu_measure_duration = False, pu_measure_volume = True, pu_trigger_periodic = False,
       pu_trigger_volume_threshold = True, pu_trigger_time_threshold = False, pu_volume_threshold_total = Some 10,
       pu_volume_threshold_ul = None, pu_volume_threshold_dl = None, pu_time_threshold_secs = None\<rparr>] []"

definition metered_plane :: "nat DataPlane" where
  "metered_plane = snd (session_event demo_f64 demo_os metered_event data_plane_new)"

definition reached_plane :: "nat DataPlane" where
  "reached_plane =
     (case handle_uplink_packet demo_f64 demo_os demo_gpdu demo_gnb metered_plane of Ok (_, d) \<Rightarrow> d | _ \<Rightarrow> metered_plane)"

lemma reached_plane_reachable: "plane_reachable demo_f64 reached_plane"
proof -
  have "event_fresh metered_event (sessions (data_plane_new :: nat DataPlane))"
    by (simp add: metered_event_def find_defs manager_new_def data_plane_new_def)
  from reachable_event [OF plane_reachable.start this, of demo_f64 demo_os] have "plane_reachable demo_f64 metered_plane"
    unfolding metered_plane_def by (simp add: data_plane_new_def metered_event_def filter_panics_def pdi_default_def)
  then show ?thesis
    unfolding reached_plane_def by (auto intro: plane_reachable.step step_uplink split: outcome.split)
qed

theorem urr_collection_returns_witness:
  "\<exists>reports d'. collect_urr_reports 1 reached_plane = Ok (reports, d') \<and>
     (\<exists>e \<in> set reports. re_upf_seid e = 7 \<and> re_urr_id e = 5 \<and> total_bytes e = of_nat (length (demo_ip 2 99)))"
proof -
  let ?u = "hd (map snd (urrs (get_session 0 reached_plane)))"
  have "find_by_seid 7 (sessions reached_plane) = Some 0" by code_simp
  then have live: "0 \<in> live (sessions reached_plane)" unfolding live_def find_defs by (rule ranI)
  have "map fst (urrs (get_session 0 reached_plane)) = [5]" by code_simp
  then have u: "(5, ?u) \<in> set (urrs (get_session 0 reached_plane))" by (cases "urrs (get_session 0 reached_plane)") auto
  have "threshold_exceeded ?u" and "upf_seid (get_session 0 reached_plane) = 7"
    and "acc_total_bytes ?u = of_nat (length (demo_ip 2 99))" by code_simp+
  then show ?thesis
    using urr_collection_returns [OF reached_plane_reachable, of 1] live u by fastforce
qed

end
