(* ===== verification/Upf_Path.thy ===== *)
theory Upf_Path
  imports Upf_Data_Plane
begin

text \<open>
  Management of the GTP-U paths to the gNBs (\<^verbatim>\<open>GtpuPathTable\<close> of \<^verbatim>\<open>data_plane.rs\<close>): when a peer gets Echo Requests, and
  when a peer that does not answer is declared failed.
\<close>

section \<open>One peer of a tick\<close>

lemma tick_loop_keys: "map fst (fst (snd (tick_loop th seq ps))) = map fst ps"
  by (induction ps arbitrary: seq) (auto simp: Let_def split_beta)

lemma tick_loop_absent:
  "p \<notin> fst ` set ps \<Longrightarrow> p \<notin> set (snd (snd (snd (tick_loop th seq ps)))) \<and> (\<forall>q. (p, q) \<notin> set (fst (snd (snd (tick_loop th seq ps)))))"
  by (induction ps arbitrary: seq) (auto simp: Let_def split_beta split: option.split_asm if_split_asm)

text \<open>What a tick does to a peer depends on the other peers through the sequence number only.\<close>

lemma tick_loop_peer:
  assumes "tick_loop th seq ps = (seq', ps', to_send, failed)" and "distinct (map fst ps)" and "map_of ps p = Some st"
  shows "\<exists>sq sq' st' req fl. tick_peer th sq st = (sq', st', req, fl) \<and> map_of ps' p = Some st' \<and>
    (p \<in> set failed \<longleftrightarrow> fl) \<and> ((\<exists>q. (p, q) \<in> set to_send) \<longleftrightarrow> req \<noteq> None)"
  using assms
proof (induction ps arbitrary: seq seq' ps' to_send failed)
  case (Cons x ps)
  obtain k st0 where x: "x = (k, st0)" by force
  obtain sq' st0' req fl where head: "tick_peer th seq st0 = (sq', st0', req, fl)" by (metis prod_cases4)
  obtain sq'' ps'' ts fs where rest: "tick_loop th sq' ps = (sq'', ps'', ts, fs)" by (metis prod_cases4)
  have out: "ps' = (k, st0') # ps''" "to_send = (case req of None \<Rightarrow> ts | Some q \<Rightarrow> (k, q) # ts)" "failed = (if fl then k # fs else fs)"
    using Cons.prems(1) by (simp_all add: x head rest)
  show ?case
  proof (cases "k = p")
    case True
    then have "p \<notin> set fs \<and> (\<forall>q. (p, q) \<notin> set ts)" and "st = st0"
      using tick_loop_absent [of p ps th sq'] rest Cons.prems(2,3) x by auto
    then show ?thesis
      using True head out by (intro exI [of _ seq] exI [of _ sq'] exI [of _ st0'] exI [of _ req] exI [of _ fl]) (auto split: option.split)
  next
    case False
    then have "map_of ps p = Some st" and "distinct (map fst ps)" using Cons.prems(2,3) x by auto
    from Cons.IH [OF rest this(2,1)] show ?thesis using False out by (auto split: option.split)
  qed
qed simp

section \<open>A silent peer\<close>

text \<open>The state of a peer after \<open>n\<close> ticks without an answer, below the threshold.\<close>

definition silent :: "nat \<Rightarrow> GtpuPeerState \<Rightarrow> bool" where
  "silent n st \<longleftrightarrow> \<not> path_failed st \<and> miss_count st = of_nat (n - 1) \<and> (pending_seq st \<noteq> None \<longleftrightarrow> n > 0)"

lemma tick_peer_silent:
  assumes "silent n st" and "n \<le> unat th" and "0 < th" and "tick_peer th sq st = (sq', st', req, fl)"
  shows "(fl \<longleftrightarrow> n = unat th) \<and> (req \<noteq> None \<longleftrightarrow> n < unat th) \<and> (if n = unat th then path_failed st' else silent (Suc n) st')"
proof (cases n)
  case 0
  then have "pending_seq st = None" and "\<not> path_failed st" and "miss_count st = 0" using assms(1) by (auto simp: silent_def)
  moreover have "unat th \<noteq> 0" using assms(3) by (simp add: unat_eq_0)
  ultimately show ?thesis using 0 assms(4) by (auto simp: tick_peer_def silent_def Let_def)
next
  case (Suc m)
  have "n < 2 ^ 32" using assms(2) unsigned_less [of th, where 'a = nat] by simp
  then have n: "unat (of_nat n :: u32) = n" by (simp add: unat_of_nat take_bit_nat_eq_self)
  have count: "miss_count st + 1 = of_nat n" using assms(1) Suc by (simp add: silent_def)
  have "miss_count st + 1 \<ge> th \<longleftrightarrow> n = unat th"
    using assms(2) n unfolding count word_le_nat_alt by auto
  then show ?thesis
    using assms(1,2,4) Suc count by (auto simp: tick_peer_def silent_def Let_def add.commute split: if_split_asm)
qed

lemma tick_peer_failed: "path_failed st \<Longrightarrow> tick_peer th sq st = (sq', st', req, fl) \<Longrightarrow> \<not> fl \<and> req = None \<and> path_failed st'"
  by (auto simp: tick_peer_def)

definition ticks :: "nat \<Rightarrow> GtpuPathTable \<Rightarrow> GtpuPathTable" where
  "ticks n = (\<lambda>t. snd (tick t)) ^^ n"

lemma tick_peer_table:
  assumes "distinct (map fst (peers t))" and "map_of (peers t) p = Some st"
  shows "\<exists>sq sq' st' req fl. tick_peer (miss_threshold t) sq st = (sq', st', req, fl) \<and> map_of (peers (snd (tick t))) p = Some st' \<and>
    (p \<in> set (snd (fst (tick t))) \<longleftrightarrow> fl) \<and> ((\<exists>q. (p, q) \<in> set (fst (fst (tick t)))) \<longleftrightarrow> req \<noteq> None)"
proof -
  obtain seq ps to_send failed where l: "tick_loop (miss_threshold t) (next_seq t) (peers t) = (seq, ps, to_send, failed)"
    by (metis prod_cases4)
  from tick_loop_peer [OF this assms] show ?thesis by (simp add: tick_def l)
qed

lemma tick_frame: "miss_threshold (snd (tick t)) = miss_threshold t" "map fst (peers (snd (tick t))) = map fst (peers t)"
  by (simp_all add: tick_def split_beta tick_loop_keys)

lemma ticks_frame:
  "miss_threshold (ticks n t) = miss_threshold t" "map fst (peers (ticks n t)) = map fst (peers t)"
  by (induction n) (simp_all add: ticks_def tick_frame)

lemma ticks_silent:
  assumes "distinct (map fst (peers t))" and "map_of (peers t) p = Some st" and "silent 0 st" and "0 < miss_threshold t"
  shows "\<exists>st'. map_of (peers (ticks n t)) p = Some st' \<and>
    (if n \<le> unat (miss_threshold t) then silent n st' else path_failed st')"
proof (induction n)
  case (Suc n)
  then obtain st' where st': "map_of (peers (ticks n t)) p = Some st'"
    "if n \<le> unat (miss_threshold t) then silent n st' else path_failed st'" by blast
  have "distinct (map fst (peers (ticks n t)))" using assms(1) by (simp only: ticks_frame)
  moreover have "ticks (Suc n) t = snd (tick (ticks n t))" by (simp add: ticks_def)
  ultimately obtain sq sq' st'' req fl where
    "tick_peer (miss_threshold t) sq st' = (sq', st'', req, fl)" "map_of (peers (ticks (Suc n) t)) p = Some st''"
    using tick_peer_table [of "ticks n t" p st'] st'(1) unfolding ticks_frame by metis
  then show ?case
    using tick_peer_silent [of n st' "miss_threshold t" sq sq' st'' req fl] tick_peer_failed [of st' "miss_threshold t" sq sq' st'' req fl]
      st'(2) assms(4)
    by (auto split: if_split_asm)
qed (use assms in \<open>simp add: ticks_def\<close>)

text \<open>
  C30: After an Echo Response of a peer, if no further response arrives, the peer gets an Echo Request at each of the
  next ticks until the miss threshold, is declared failed exactly at the tick numbered by the threshold
  (counting from 0) and at no other, and gets no request any more.
\<close>

theorem gtpu_path_failure:
  assumes "distinct (map fst (peers t))" and "0 < miss_threshold t"
  shows "let t' = ticks n (snd (on_echo_response tm p c t)) in
    (p \<in> set (snd (fst (tick t'))) \<longleftrightarrow> n = unat (miss_threshold t)) \<and>
    ((\<exists>q. (p, q) \<in> set (fst (fst (tick t')))) \<longleftrightarrow> n < unat (miss_threshold t))"
proof -
  let ?t = "snd (on_echo_response tm p c t)"
  have same: "miss_threshold ?t = miss_threshold t" by (simp add: on_echo_response_def Let_def split_beta)
  have dist: "distinct (map fst (peers ?t))"
    using assms(1) by (simp add: on_echo_response_def Let_def split_beta distinct_update)
  have "\<exists>st. map_of (peers ?t) p = Some st \<and> silent 0 st"
    by (simp add: on_echo_response_def Let_def split_beta AList.update_conv' silent_def split: option.split)
  then obtain st where "map_of (peers ?t) p = Some st" "silent 0 st" by blast
  from ticks_silent [OF dist this, of n] assms(2) same obtain st' where
    st': "map_of (peers (ticks n ?t)) p = Some st'" "if n \<le> unat (miss_threshold t) then silent n st' else path_failed st'"
    by auto
  have "distinct (map fst (peers (ticks n ?t)))" using dist by (simp only: ticks_frame)
  from tick_peer_table [OF this st'(1)] obtain sq sq' st'' req fl where
    "tick_peer (miss_threshold t) sq st' = (sq', st'', req, fl)" "p \<in> set (snd (fst (tick (ticks n ?t)))) \<longleftrightarrow> fl"
    "(\<exists>q. (p, q) \<in> set (fst (fst (tick (ticks n ?t))))) \<longleftrightarrow> req \<noteq> None"
    unfolding ticks_frame same by blast
  then show ?thesis
    using tick_peer_silent [of n st' "miss_threshold t" sq sq' st'' req fl] tick_peer_failed [of st' "miss_threshold t" sq sq' st'' req fl]
      st'(2) assms(2)
    by (auto simp: Let_def split: if_split_asm)
qed

theorem gtpu_path_failure_witness:
  "distinct (map fst (peers path_table_default)) \<and> 0 < miss_threshold path_table_default \<and>
   (let p = \<lparr>sock_ip = V4 1, sock_port = 2152\<rparr>; t = snd (on_echo_response 0 p 5 path_table_default)
    in p \<in> set (snd (fst (tick (ticks 3 t)))) \<and> p \<notin> set (snd (fst (tick (ticks 2 t)))))"
proof -
  have ok: "distinct (map fst (peers path_table_default))" "0 < miss_threshold path_table_default"
    by (simp_all add: path_table_default_def)
  have "unat (miss_threshold path_table_default) = 3" by (simp add: path_table_default_def)
  then show ?thesis
    using ok gtpu_path_failure [OF ok, of 3 0 "\<lparr>sock_ip = V4 1, sock_port = 2152\<rparr>" 5]
      gtpu_path_failure [OF ok, of 2 0 "\<lparr>sock_ip = V4 1, sock_port = 2152\<rparr>" 5]
    by (simp add: Let_def)
qed

end
