(* ===== verification/Upf_Pfcp.thy ===== *)
theory Upf_Pfcp
  imports Upf_Events
begin

text \<open>
  The UPF's PFCP server (\<^verbatim>\<open>PfcpServer\<close> of \<^verbatim>\<open>bins/nextgcore-upfd/src/pfcp_path.rs\<close>): association, heartbeats, session
  establishment, modification and deletion, session reports with their retransmission.

  A handler returns its result, what it sends, the events it puts into the data plane's channel, and the server.
  Whether the socket takes a datagram is an argument; a failed send ends the handler with an error, as the \<^verbatim>\<open>?\<close> of the
  code does. The receiving end of the channel stays open while the server runs, so that an event is never lost.
  The socket loop itself (\<^verbatim>\<open>run\<close>) and the synchronous helpers of the first part of the file are not modelled.
\<close>

section \<open>State\<close>

record PfcpAssociation =
  peer_addr :: SocketAddr
  peer_recovery_time_stamp :: u32

record PendingReport =
  pr_message :: bytes
  pr_dest :: SocketAddr
  pr_upf_seid :: u64
  attempts :: u32
  last_sent :: nat

record PfcpSessionInfo =
  si_upf_seid :: u64
  si_smf_seid :: u64
  si_smf_addr :: SocketAddr
  si_ue_ipv4 :: "u32 option"
  si_ul_teid :: u32
  si_dl_teid :: u32
  si_gnb_addr :: "u32 option"

record PfcpServer =
  local_node_id :: NodeId
  recovery_time_stamp :: u32
  srv_next_seid :: u64
  srv_next_teid :: u32
  srv_next_seq :: u32
  srv_sessions :: "(u64 \<times> PfcpSessionInfo) list"
  association :: "PfcpAssociation option"
  pending_reports :: "(u32 \<times> PendingReport) list"

text \<open>Three seconds, in nanoseconds.\<close>

definition PFCP_T1_DURATION :: nat where "PFCP_T1_DURATION = 3 * 1000000000"
definition PFCP_N1_MAX_RETRANSMIT :: u32 where "PFCP_N1_MAX_RETRANSMIT = 3"

definition server_new :: "NodeId \<Rightarrow> u32 \<Rightarrow> PfcpServer" where
  "server_new n rts =
     \<lparr>local_node_id = n, recovery_time_stamp = rts, srv_next_seid = 1, srv_next_teid = 0x10000, srv_next_seq = 1,
      srv_sessions = [], association = None, pending_reports = []\<rparr>"

definition alloc_seid :: "PfcpServer \<Rightarrow> u64 \<times> PfcpServer" where
  "alloc_seid s = (srv_next_seid s, s\<lparr>srv_next_seid := srv_next_seid s + 1\<rparr>)"

definition alloc_seq :: "PfcpServer \<Rightarrow> u32 \<times> PfcpServer" where
  "alloc_seq s =
     (let seq = srv_next_seq s AND 0x00FFFFFF; s = s\<lparr>srv_next_seq := srv_next_seq s + 1\<rparr>
      in if seq = 0 then (srv_next_seq s AND 0x00FFFFFF, s\<lparr>srv_next_seq := srv_next_seq s + 1\<rparr>) else (seq, s))"

section \<open>Messages\<close>

definition HEARTBEAT_REQUEST :: u8 where "HEARTBEAT_REQUEST = 1"
definition HEARTBEAT_RESPONSE :: u8 where "HEARTBEAT_RESPONSE = 2"
definition ASSOCIATION_SETUP_REQUEST :: u8 where "ASSOCIATION_SETUP_REQUEST = 5"
definition ASSOCIATION_SETUP_RESPONSE :: u8 where "ASSOCIATION_SETUP_RESPONSE = 6"
definition ASSOCIATION_RELEASE_REQUEST :: u8 where "ASSOCIATION_RELEASE_REQUEST = 9"
definition ASSOCIATION_RELEASE_RESPONSE :: u8 where "ASSOCIATION_RELEASE_RESPONSE = 10"
definition SESSION_ESTABLISHMENT_REQUEST :: u8 where "SESSION_ESTABLISHMENT_REQUEST = 50"
definition SESSION_ESTABLISHMENT_RESPONSE :: u8 where "SESSION_ESTABLISHMENT_RESPONSE = 51"
definition SESSION_MODIFICATION_REQUEST :: u8 where "SESSION_MODIFICATION_REQUEST = 52"
definition SESSION_MODIFICATION_RESPONSE :: u8 where "SESSION_MODIFICATION_RESPONSE = 53"
definition SESSION_DELETION_REQUEST :: u8 where "SESSION_DELETION_REQUEST = 54"
definition SESSION_DELETION_RESPONSE :: u8 where "SESSION_DELETION_RESPONSE = 55"
definition SESSION_REPORT_REQUEST :: u8 where "SESSION_REPORT_REQUEST = 56"
definition SESSION_REPORT_RESPONSE :: u8 where "SESSION_REPORT_RESPONSE = 57"

lemmas pfcp_type = HEARTBEAT_REQUEST_def HEARTBEAT_RESPONSE_def ASSOCIATION_SETUP_REQUEST_def ASSOCIATION_SETUP_RESPONSE_def
  ASSOCIATION_RELEASE_REQUEST_def ASSOCIATION_RELEASE_RESPONSE_def SESSION_ESTABLISHMENT_REQUEST_def
  SESSION_ESTABLISHMENT_RESPONSE_def SESSION_MODIFICATION_REQUEST_def SESSION_MODIFICATION_RESPONSE_def
  SESSION_DELETION_REQUEST_def SESSION_DELETION_RESPONSE_def SESSION_REPORT_REQUEST_def SESSION_REPORT_RESPONSE_def

definition CREATE_PDR :: u16 where "CREATE_PDR = 1"
definition CREATE_FAR :: u16 where "CREATE_FAR = 3"
definition CREATE_URR :: u16 where "CREATE_URR = 6"
definition CREATE_QER :: u16 where "CREATE_QER = 7"
definition UPDATE_FAR :: u16 where "UPDATE_FAR = 10"
definition UPDATE_QER :: u16 where "UPDATE_QER = 14"
definition UP_FUNCTION_FEATURES :: u16 where "UP_FUNCTION_FEATURES = 43"
definition CREATE_BAR :: u16 where "CREATE_BAR = 85"
definition UPDATE_BAR :: u16 where "UPDATE_BAR = 86"

text \<open>FTUP in bit 5 of the first feature octet, EMPU in bit 1 of the second, six octets without a feature.\<close>

definition upf_function_features :: bytes where
  "upf_function_features = [push_bit 4 1, 1, 0, 0, 0, 0, 0, 0]"

definition build_association_setup_response :: "NodeId \<Rightarrow> u32 \<Rightarrow> PfcpCause \<Rightarrow> bytes" where
  "build_association_setup_response n rts c =
     add_tlv UP_FUNCTION_FEATURES upf_function_features (add_u32 RECOVERY_TIME_STAMP rts (add_cause c (add_node_id n [])))"

definition build_response :: "u8 \<Rightarrow> u64 \<Rightarrow> u32 \<Rightarrow> bytes \<Rightarrow> bool \<Rightarrow> bytes" where
  "build_response msg_type seid seq payload seid_present =
     (let flags = (if seid_present then 0x21 else 0x20);
          len = (if seid_present then 12 + of_nat (length payload) else 4 + of_nat (length payload))
      in [flags, msg_type] @ to_be16 len @ (if seid_present then to_be64 seid else []) @ tl (to_be32 seq) @ [0] @ payload)"

datatype handler_error = ParseError string | SendError

type_synonym handled = "(handler_error, unit) outcome \<times> effect list \<times> PfcpSessionEvent list \<times> PfcpServer"

definition answer :: "bool \<Rightarrow> bytes \<Rightarrow> SocketAddr \<Rightarrow> PfcpServer \<Rightarrow> handled" where
  "answer ok msg addr s = (if ok then Ok () else Err SendError, [SendTo msg addr], [], s)"

section \<open>Association\<close>

definition is_associated :: "PfcpServer \<Rightarrow> bool" where
  "is_associated s \<longleftrightarrow> association s \<noteq> None"

definition declare_peer_failure :: "SocketAddr \<Rightarrow> PfcpServer \<Rightarrow> PfcpSessionEvent list \<times> PfcpServer" where
  "declare_peer_failure peer s =
     (case association s of
        Some a \<Rightarrow> if peer_addr a = peer then ([PeerFailure peer], s\<lparr>association := None, srv_sessions := []\<rparr>) else ([], s)
      | None \<Rightarrow> ([], s))"

definition check_peer_recovery :: "SocketAddr \<Rightarrow> u32 \<Rightarrow> PfcpServer \<Rightarrow> PfcpSessionEvent list \<times> PfcpServer" where
  "check_peer_recovery src rts s =
     (let restarted =
            (case association s of Some a \<Rightarrow> peer_addr a = src \<and> peer_recovery_time_stamp a \<noteq> rts | None \<Rightarrow> False)
      in if restarted then declare_peer_failure src s else ([], s))"

definition handle_heartbeat_request :: "bool \<Rightarrow> ParsedPfcpHeader \<Rightarrow> bytes \<Rightarrow> SocketAddr \<Rightarrow> PfcpServer \<Rightarrow> handled" where
  "handle_heartbeat_request ok header payload src s =
     (let (events, s) = (case parse_recovery_time_stamp payload of Some rts \<Rightarrow> check_peer_recovery src rts s | None \<Rightarrow> ([], s));
          response = build_response HEARTBEAT_RESPONSE 0 (ph_sequence_number header)
            (build_heartbeat_response (recovery_time_stamp s)) False
      in (if ok then Ok () else Err SendError, [SendTo response src], events, s))"

definition handle_association_setup_request :: "bool \<Rightarrow> ParsedPfcpHeader \<Rightarrow> bytes \<Rightarrow> SocketAddr \<Rightarrow> PfcpServer \<Rightarrow> handled" where
  "handle_association_setup_request ok header payload src s =
     (let node_id_present = (find_ie (parse_all payload) NODE_ID \<noteq> None)
      in case (node_id_present, parse_recovery_time_stamp payload) of
           (True, Some rts) \<Rightarrow>
             (let (events, s) = check_peer_recovery src rts s;
                  s = s\<lparr>association := Some \<lparr>peer_addr = src, peer_recovery_time_stamp = rts\<rparr>\<rparr>;
                  response = build_response ASSOCIATION_SETUP_RESPONSE 0 (ph_sequence_number header)
                    (build_association_setup_response (local_node_id s) (recovery_time_stamp s) RequestAccepted) False
              in (if ok then Ok () else Err SendError, [SendTo response src], events, s))
         | _ \<Rightarrow>
             let offending = (if node_id_present then RECOVERY_TIME_STAMP else NODE_ID)
             in answer ok (build_response ASSOCIATION_SETUP_RESPONSE 0 (ph_sequence_number header)
                  (build_failure_response MandatoryIeMissing (Some offending)) False) src s)"

definition handle_association_release_request :: "bool \<Rightarrow> ParsedPfcpHeader \<Rightarrow> SocketAddr \<Rightarrow> PfcpServer \<Rightarrow> handled" where
  "handle_association_release_request ok header src s =
     (let response = build_response ASSOCIATION_RELEASE_RESPONSE 0 (ph_sequence_number header)
            (build_association_release_response (local_node_id s) RequestAccepted) False
      in if \<not> ok then (Err SendError, [SendTo response src], [], s)
         else let (events, s) = declare_peer_failure src s in (Ok (), [SendTo response src], events, s))"

text \<open>The heartbeat of the server to its peer, in a build without the load metric.\<close>

definition send_heartbeat_request :: "bool \<Rightarrow> PfcpServer \<Rightarrow> SocketAddr option \<times> effect list \<times> PfcpServer" where
  "send_heartbeat_request ok s =
     (case association s of
        None \<Rightarrow> (None, [], s)
      | Some a \<Rightarrow>
          let (seq, s) = alloc_seq s;
              msg = build_response HEARTBEAT_REQUEST 0 seq (build_heartbeat_request (recovery_time_stamp s)) False
          in (if ok then Some (peer_addr a) else None, [SendTo msg (peer_addr a)], s))"

section \<open>Session establishment\<close>

definition missing_ie :: "ParsedIe list \<Rightarrow> u16 option" where
  "missing_ie ies =
     (if find_ie ies NODE_ID = None then Some NODE_ID
      else if find_ie ies F_SEID = None then Some F_SEID
      else if find_ie ies CREATE_PDR = None then Some CREATE_PDR
      else if find_ie ies CREATE_FAR = None then Some CREATE_FAR
      else None)"

definition node_ipv4 :: "NodeId \<Rightarrow> u32 option" where
  "node_ipv4 n = (case n of NodeIpv4 a \<Rightarrow> Some a | _ \<Rightarrow> None)"

text \<open>
  The loop over the Create PDRs: UE address, uplink TEID and next TEID go through it, the created and the parsed PDRs come
  out. An element that does not parse is skipped.
\<close>

fun establish_pdrs :: "NodeId \<Rightarrow> ParsedIe list \<Rightarrow> u32 option \<Rightarrow> u32 \<Rightarrow> u32 \<Rightarrow>
    (u32 option \<times> u32 \<times> u32) \<times> CreatedPdr list \<times> ParsedCreatePdr list" where
  "establish_pdrs n [] ue ul next_t = ((ue, ul, next_t), [], [])"
| "establish_pdrs n (ie # ies) ue ul next_t =
     (case parse_create_pdr (ie_value ie) of
        Ok pdr \<Rightarrow>
          let (local_f_teid, ul, next_t) =
                (case pdi_local_f_teid (pp_pdi pdr) of
                   None \<Rightarrow> (None, ul, next_t)
                 | Some f \<Rightarrow>
                     if pt_ch f \<or> pt_teid f = 0
                     then (Some \<lparr>ft_teid = next_t, ft_ipv4 = node_ipv4 n, ft_ipv6 = None, ft_choose = False, ft_choose_id = None\<rparr>,
                           next_t, next_t + 1)
                     else (None, pt_teid f, next_t));
              ue = (case Option.bind (pdi_ue_ip_address (pp_pdi pdr)) pa_ipv4 of Some a \<Rightarrow> Some a | None \<Rightarrow> ue);
              (state, created, parsed) = establish_pdrs n ies ue ul next_t
          in (state, \<lparr>cp_pdr_id = pp_pdr_id pdr, cp_local_f_teid = local_f_teid, cp_ue_ip_address = None\<rparr> # created, pdr # parsed)
      | _ \<Rightarrow> establish_pdrs n ies ue ul next_t)"

text \<open>The elements that parse; the others are logged and skipped.\<close>

fun parsed_ies :: "(bytes \<Rightarrow> (string, 'a) outcome) \<Rightarrow> ParsedIe list \<Rightarrow> 'a list" where
  "parsed_ies parse [] = []"
| "parsed_ies parse (ie # ies) = (case parse (ie_value ie) of Ok x \<Rightarrow> x # parsed_ies parse ies | _ \<Rightarrow> parsed_ies parse ies)"

definition far_ohc :: "ParsedCreateFar \<Rightarrow> ParsedOuterHeaderCreation option" where
  "far_ohc f = Option.bind (pf_forwarding_parameters f) fp_outer_header_creation"

text \<open>The downlink tunnel: that of the last FAR with an outer header.\<close>

definition establish_tunnel :: "ParsedCreateFar list \<Rightarrow> u32 \<times> u32 option" where
  "establish_tunnel fs = fold (\<lambda>f tunnel. case far_ohc f of Some o' \<Rightarrow> (oh_teid o', oh_ipv4 o') | None \<Rightarrow> tunnel) fs (0, None)"

definition handle_session_establishment_request ::
  "bool \<Rightarrow> ParsedPfcpHeader \<Rightarrow> bytes \<Rightarrow> SocketAddr \<Rightarrow> PfcpServer \<Rightarrow> handled" where
  "handle_session_establishment_request ok header payload src s =
     (let ies = parse_all payload;
          reject = (\<lambda>c ie. answer ok (build_response SESSION_ESTABLISHMENT_RESPONSE (ph_seid header) (ph_sequence_number header)
                      (build_failure_response c ie) True) src s)
      in if \<not> is_associated s then reject NoEstablishedPfcpAssociation None
         else case missing_ie ies of
                Some offending \<Rightarrow> reject MandatoryIeMissing (Some offending)
              | None \<Rightarrow>
                  (case Option.bind (find_ie ies F_SEID) (\<lambda>ie. case f_seid_parse (ie_value ie) of Ok f \<Rightarrow> Some f | _ \<Rightarrow> None) of
                     None \<Rightarrow> reject MandatoryIeIncorrect (Some F_SEID)
                   | Some cp_f_seid \<Rightarrow>
                       let smf_seid = fs_seid cp_f_seid;
                           (seid, s) = alloc_seid s;
                           ((ue, ul, next_t), created, pdrs) =
                             establish_pdrs (local_node_id s) (find_all_ies ies CREATE_PDR) None 0 (srv_next_teid s);
                           s = s\<lparr>srv_next_teid := next_t\<rparr>;
                           fars = parsed_ies parse_create_far (find_all_ies ies CREATE_FAR);
                           (dl, gnb) = establish_tunnel fars;
                           qers = parsed_ies parse_create_qer (find_all_ies ies CREATE_QER);
                           urrs = parsed_ies parse_create_urr (find_all_ies ies CREATE_URR);
                           bars = parsed_ies parse_create_bar (find_all_ies ies CREATE_BAR);
                           response = build_response SESSION_ESTABLISHMENT_RESPONSE smf_seid (ph_sequence_number header)
                             (build_session_establishment_response (local_node_id s)
                                \<lparr>fs_seid = seid, fs_ipv4 = node_ipv4 (local_node_id s), fs_ipv6 = None\<rparr> created) True
                       in if \<not> ok then (Err SendError, [SendTo response src], [], s)
                          else (Ok (), [SendTo response src],
                                [SessionEstablished seid smf_seid ue ul dl gnb pdrs fars qers urrs bars],
                                s\<lparr>srv_sessions := AList.update seid
                                    \<lparr>si_upf_seid = seid, si_smf_seid = smf_seid, si_smf_addr = src, si_ue_ipv4 = ue, si_ul_teid = ul,
                                     si_dl_teid = dl, si_gnb_addr = gnb\<rparr> (srv_sessions s)\<rparr>)))"

section \<open>Session modification and deletion\<close>

definition updated_tunnel :: "ParsedCreateFar list \<Rightarrow> u32 option \<times> u32 option" where
  "updated_tunnel fs = fold (\<lambda>f tunnel. case far_ohc f of Some o' \<Rightarrow> (Some (oh_teid o'), oh_ipv4 o') | None \<Rightarrow> tunnel) fs (None, None)"

definition handle_session_modification_request ::
  "bool \<Rightarrow> ParsedPfcpHeader \<Rightarrow> bytes \<Rightarrow> SocketAddr \<Rightarrow> PfcpServer \<Rightarrow> handled" where
  "handle_session_modification_request ok header payload src s =
     (let seid = ph_seid header; ies = parse_all payload;
          fars = parsed_ies parse_create_far (find_all_ies ies UPDATE_FAR);
          (dl, gnb) = updated_tunnel fars;
          qers = parsed_ies parse_create_qer (find_all_ies ies UPDATE_QER);
          bars = parsed_ies parse_create_bar (find_all_ies ies CREATE_BAR @ find_all_ies ies UPDATE_BAR);
          flags = (case parse_pfcpsmreq_flags payload of Some x \<Rightarrow> x | None \<Rightarrow> 0);
          end_marker = (flags AND SNDEM \<noteq> 0); drop_buffered = (flags AND DROBU \<noteq> 0)
      in case map_of (srv_sessions s) seid of
           None \<Rightarrow> answer ok (build_response SESSION_MODIFICATION_RESPONSE 0 (ph_sequence_number header)
                     (build_failure_response SessionContextNotFound None) True) src s
         | Some info \<Rightarrow>
             let old_tunnel = map_option (\<lambda>a. (si_dl_teid info, a)) (si_gnb_addr info);
                 info' = info\<lparr>si_dl_teid := (case dl of Some t \<Rightarrow> t | None \<Rightarrow> si_dl_teid info),
                              si_gnb_addr := (case gnb of Some a \<Rightarrow> Some a | None \<Rightarrow> si_gnb_addr info)\<rparr>;
                 s = s\<lparr>srv_sessions := AList.update seid info' (srv_sessions s)\<rparr>;
                 response = build_response SESSION_MODIFICATION_RESPONSE (si_smf_seid info) (ph_sequence_number header)
                   (build_session_modification_response []) True;
                 changes = (dl \<noteq> None \<or> gnb \<noteq> None \<or> fars \<noteq> [] \<or> qers \<noteq> [] \<or> bars \<noteq> [] \<or> end_marker \<or> drop_buffered)
             in if \<not> ok then (Err SendError, [SendTo response src], [], s)
                else (Ok (), [SendTo response src],
                      (if changes then [SessionModified seid dl gnb fars qers bars end_marker drop_buffered old_tunnel] else []), s))"

definition final_report :: "FinalUsageReport \<Rightarrow> UsageReport" where
  "final_report r =
     \<lparr>ur_urr_id = fr_urr_id r, ur_ur_seqn = fr_ur_seqn r, ur_trigger = trigger_default\<lparr>termination_report := True\<rparr>,
      ur_start_time = None, ur_end_time = None,
      ur_volume_measurement = Some
        \<lparr>total_volume = Some (fr_total_volume r), uplink_volume = Some (fr_uplink_volume r),
         downlink_volume = Some (fr_downlink_volume r), total_packets = Some (fr_total_packets r),
         uplink_packets = Some (fr_uplink_packets r), downlink_packets = Some (fr_downlink_packets r)\<rparr>,
      ur_duration_measurement = None, ur_time_of_first_packet = None, ur_time_of_last_packet = None\<rparr>"

text \<open>The data plane is read for the final reports when it is attached, and its report sequence numbers move on.\<close>

definition handle_session_deletion_request ::
  "bool \<Rightarrow> ParsedPfcpHeader \<Rightarrow> SocketAddr \<Rightarrow> PfcpServer \<Rightarrow> 'f DataPlane option \<Rightarrow> handled \<times> 'f DataPlane option" where
  "handle_session_deletion_request ok header src s dp =
     (let seid = ph_seid header
      in case map_of (srv_sessions s) seid of
           None \<Rightarrow> (answer ok (build_response SESSION_DELETION_RESPONSE 0 (ph_sequence_number header)
                     (build_failure_response SessionContextNotFound None) True) src s, dp)
         | Some info \<Rightarrow>
             let s = s\<lparr>srv_sessions := AList.delete seid (srv_sessions s)\<rparr>;
                 (finals, dp) =
                   (case dp of None \<Rightarrow> ([], None) | Some d \<Rightarrow> map_prod id Some (collect_final_usage_reports seid d));
                 response = build_response SESSION_DELETION_RESPONSE (si_smf_seid info) (ph_sequence_number header)
                   (build_session_deletion_response (map final_report finals)) True
             in if \<not> ok then ((Err SendError, [SendTo response src], [], s), dp)
                else ((Ok (), [SendTo response src], [SessionDeleted seid (si_ue_ipv4 info)], s), dp))"

section \<open>Dispatch\<close>

definition handle_message :: "bool \<Rightarrow> bytes \<Rightarrow> SocketAddr \<Rightarrow> PfcpServer \<Rightarrow> 'f DataPlane option \<Rightarrow> handled \<times> 'f DataPlane option" where
  "handle_message ok data src s dp =
     (case parse_pfcp_header data of
        Err e \<Rightarrow> ((Err (ParseError e), [], [], s), dp)
      | Panic \<Rightarrow> ((Panic, [], [], s), dp)
      | Ok (header, payload) \<Rightarrow>
          let t = ph_msg_type header
          in if t = HEARTBEAT_REQUEST then (handle_heartbeat_request ok header payload src s, dp)
             else if t = HEARTBEAT_RESPONSE
             then (case parse_recovery_time_stamp payload of
                     Some rts \<Rightarrow> let (events, s) = check_peer_recovery src rts s in ((Ok (), [], events, s), dp)
                   | None \<Rightarrow> ((Ok (), [], [], s), dp))
             else if t = ASSOCIATION_SETUP_REQUEST then (handle_association_setup_request ok header payload src s, dp)
             else if t = ASSOCIATION_RELEASE_REQUEST then (handle_association_release_request ok header src s, dp)
             else if t = SESSION_ESTABLISHMENT_REQUEST then (handle_session_establishment_request ok header payload src s, dp)
             else if t = SESSION_MODIFICATION_REQUEST then (handle_session_modification_request ok header payload src s, dp)
             else if t = SESSION_DELETION_REQUEST then handle_session_deletion_request ok header src s dp
             else if t = SESSION_REPORT_RESPONSE
             then ((Ok (), [], [], s\<lparr>pending_reports := AList.delete (ph_sequence_number header) (pending_reports s)\<rparr>), dp)
             else ((Ok (), [], [], s), dp))"

section \<open>Session reports\<close>

definition send_and_track_report :: "bool \<Rightarrow> nat \<Rightarrow> u64 \<Rightarrow> u64 \<Rightarrow> SocketAddr \<Rightarrow> bytes \<Rightarrow> PfcpServer \<Rightarrow> bool \<times> effect list \<times> PfcpServer" where
  "send_and_track_report ok t us ss smf_addr payload s =
     (let (seq, s) = alloc_seq s;
          message = build_response SESSION_REPORT_REQUEST ss seq payload True;
          s = s\<lparr>pending_reports := AList.update seq
                 \<lparr>pr_message = message, pr_dest = smf_addr, pr_upf_seid = us, attempts = 0, last_sent = t\<rparr> (pending_reports s)\<rparr>
      in if ok then (True, [SendTo message smf_addr], s)
         else (False, [SendTo message smf_addr], s\<lparr>pending_reports := AList.delete seq (pending_reports s)\<rparr>))"

definition report_type_default :: ReportType where
  "report_type_default =
     \<lparr>rt_downlink_data_report = False, rt_usage_report = False, rt_error_indication_report = False,
      rt_uplink_data_report = False, rt_session_report = False\<rparr>"

definition report_default :: UserPlaneReport where
  "report_default =
     \<lparr>up_report_type = report_type_default, up_downlink_data_report = None, up_usage_reports = [], up_error_indication_report = None\<rparr>"

definition send_report :: "bool \<Rightarrow> nat \<Rightarrow> u64 \<Rightarrow> u64 \<Rightarrow> UserPlaneReport \<Rightarrow> PfcpServer \<Rightarrow> bool \<times> effect list \<times> PfcpServer" where
  "send_report ok t us ss report s =
     (case map_of (srv_sessions s) us of
        None \<Rightarrow> (False, [], s)
      | Some info \<Rightarrow> send_and_track_report ok t us ss (si_smf_addr info) (build_session_report_request report) s)"

definition send_downlink_data_report :: "bool \<Rightarrow> nat \<Rightarrow> u64 \<Rightarrow> u64 \<Rightarrow> u16 \<Rightarrow> u8 option \<Rightarrow> PfcpServer \<Rightarrow> bool \<times> effect list \<times> PfcpServer" where
  "send_downlink_data_report ok t us ss pdr q =
     send_report ok t us ss
       (report_default\<lparr>up_report_type := report_type_default\<lparr>rt_downlink_data_report := True\<rparr>,
          up_downlink_data_report := Some \<lparr>dd_pdr_id = pdr,
            dd_downlink_data_service_info = map_option (\<lambda>x. \<lparr>dds_ppi = None, dds_qfi = Some x\<rparr>) q\<rparr>\<rparr>)"

definition send_error_indication_report ::
  "bool \<Rightarrow> nat \<Rightarrow> u64 \<Rightarrow> u64 \<Rightarrow> u32 \<Rightarrow> u32 option \<Rightarrow> PfcpServer \<Rightarrow> bool \<times> effect list \<times> PfcpServer" where
  "send_error_indication_report ok t us ss remote_teid peer_ipv4 =
     send_report ok t us ss
       (report_default\<lparr>up_report_type := report_type_default\<lparr>rt_error_indication_report := True\<rparr>,
          up_error_indication_report := Some
            \<lparr>ft_teid = remote_teid, ft_ipv4 = peer_ipv4, ft_ipv6 = None, ft_choose = False, ft_choose_id = None\<rparr>\<rparr>)"

definition threshold_report :: "UrrReportEntry \<Rightarrow> UsageReport" where
  "threshold_report r =
     \<lparr>ur_urr_id = re_urr_id r, ur_ur_seqn = re_ur_seqn r, ur_trigger = trigger_default\<lparr>volume_threshold := True\<rparr>,
      ur_start_time = None, ur_end_time = None,
      ur_volume_measurement = Some
        \<lparr>total_volume = Some (total_bytes r), uplink_volume = Some (re_ul_bytes r), downlink_volume = Some (re_dl_bytes r),
         total_packets = Some (total_pkts r), uplink_packets = Some (ul_pkts r), downlink_packets = Some (dl_pkts r)\<rparr>,
      ur_duration_measurement = None, ur_time_of_first_packet = None, ur_time_of_last_packet = None\<rparr>"

definition send_urr_report :: "bool \<Rightarrow> nat \<Rightarrow> u64 \<Rightarrow> u64 \<Rightarrow> UrrReportEntry list \<Rightarrow> PfcpServer \<Rightarrow> bool \<times> effect list \<times> PfcpServer" where
  "send_urr_report ok t us ss reports =
     send_report ok t us ss
       (report_default\<lparr>up_report_type := report_type_default\<lparr>rt_usage_report := True\<rparr>, up_usage_reports := map threshold_report reports\<rparr>)"

text \<open>The entries that stay, and what is sent again; what is given up on is only logged.\<close>

fun retransmit_loop :: "nat \<Rightarrow> (u32 \<times> PendingReport) list \<Rightarrow> effect list \<times> (u32 \<times> PendingReport) list" where
  "retransmit_loop t [] = ([], [])"
| "retransmit_loop t ((seq, p) # ps) =
     (let (es, rest) = retransmit_loop t ps
      in if t - last_sent p < PFCP_T1_DURATION then (es, (seq, p) # rest)
         else if attempts p \<ge> PFCP_N1_MAX_RETRANSMIT then (es, rest)
         else (SendTo (pr_message p) (pr_dest p) # es, (seq, p\<lparr>attempts := attempts p + 1, last_sent := t\<rparr>) # rest))"

definition retransmit_pending_reports :: "nat \<Rightarrow> PfcpServer \<Rightarrow> effect list \<times> PfcpServer" where
  "retransmit_pending_reports t s =
     (let (es, ps) = retransmit_loop t (pending_reports s) in (es, s\<lparr>pending_reports := ps\<rparr>))"

definition pending_report_count :: "PfcpServer \<Rightarrow> nat" where
  "pending_report_count s = length (pending_reports s)"

section \<open>Responses read back\<close>

lemma build_response_reads:
  assumes "seq < 0x1000000"
  shows "\<exists>len. parse_pfcp_header (build_response t seid seq payload True) =
    Ok (\<lparr>ph_version = 1, ph_msg_type = t, ph_length = len, ph_seid_present = True, ph_seid = seid, ph_sequence_number = seq\<rparr>, payload)"
proof -
  obtain l1 l2 where l: "to_be16 (12 + of_nat (length payload)) = [l1, l2]" by (rule to_be16_octets)
  obtain e1 e2 e3 e4 e5 e6 e7 e8 where e: "to_be64 seid = [e1, e2, e3, e4, e5, e6, e7, e8]" "from_be64 e1 e2 e3 e4 e5 e6 e7 e8 = seid"
    by (rule to_be64_octets)
  obtain s1 s2 s3 where q: "to_be32 seq = [0, s1, s2, s3]" "from_be32 0 s1 s2 s3 = seq" using assms by (rule seq_octets)
  show ?thesis
    by (simp add: parse_pfcp_header_def build_response_def l e q be16_at_def be64_at_def Let_def)
qed

section \<open>The uplink tunnel of a session\<close>

definition announced :: "CreatedPdr list \<Rightarrow> FTeid list" where
  "announced created = List.map_filter cp_local_f_teid created"

text \<open>The UPF is to choose the F-TEID of every PDR that has one.\<close>

definition all_chosen :: "ParsedCreatePdr list \<Rightarrow> bool" where
  "all_chosen ps \<longleftrightarrow> (\<forall>pdr \<in> set ps. \<forall>f. pdi_local_f_teid (pp_pdi pdr) = Some f \<longrightarrow> pt_ch f \<or> pt_teid f = 0)"

lemma map_filter_Cons [simp]:
  "List.map_filter f (x # xs) = (case f x of None \<Rightarrow> List.map_filter f xs | Some y \<Rightarrow> y # List.map_filter f xs)" "List.map_filter f [] = []"
  by (simp_all add: List.map_filter_def split: option.split)

lemma establish_pdrs_teids:
  "establish_pdrs n ies ue ul nt = ((ue', ul', nt'), created, parsed) \<Longrightarrow> all_chosen parsed \<Longrightarrow>
     ul' = (if announced created = [] then ul else ft_teid (last (announced created))) \<and> (\<forall>c \<in> set created. created_wf c) \<and>
     (\<forall>f \<in> set (announced created). \<not> ft_choose f)"
proof (induction ies arbitrary: ue ul nt created parsed)
  case (Cons ie ies)
  show ?case
  proof (cases "parse_create_pdr (ie_value ie)")
    case (Ok pdr)
    define lf where "lf = (case pdi_local_f_teid (pp_pdi pdr) of None \<Rightarrow> (None, ul, nt)
      | Some f \<Rightarrow> if pt_ch f \<or> pt_teid f = 0
          then (Some \<lparr>ft_teid = nt, ft_ipv4 = node_ipv4 n, ft_ipv6 = None, ft_choose = False, ft_choose_id = None\<rparr>, nt, nt + 1)
          else (None, pt_teid f, nt))"
    define ue1 where "ue1 = (case Option.bind (pdi_ue_ip_address (pp_pdi pdr)) pa_ipv4 of Some a \<Rightarrow> Some a | None \<Rightarrow> ue)"
    obtain st created' parsed' where out: "establish_pdrs n ies ue1 (fst (snd lf)) (snd (snd lf)) = (st, created', parsed')"
      by (metis prod_cases3)
    have rest: "establish_pdrs n ies ue1 (fst (snd lf)) (snd (snd lf)) = ((ue', ul', nt'), created', parsed')"
        and c: "created = \<lparr>cp_pdr_id = pp_pdr_id pdr, cp_local_f_teid = fst lf, cp_ue_ip_address = None\<rparr> # created'"
        and p: "parsed = pdr # parsed'"
      using Cons.prems(1) Ok out by (simp_all add: Let_def split_beta lf_def [symmetric] ue1_def [symmetric])
    have "all_chosen parsed'" and first: "\<And>f. pdi_local_f_teid (pp_pdi pdr) = Some f \<Longrightarrow> pt_ch f \<or> pt_teid f = 0"
      using Cons.prems(2) p by (auto simp: all_chosen_def)
    from Cons.IH [OF rest this(1)] show ?thesis
      using first unfolding c by (cases "pdi_local_f_teid (pp_pdi pdr)") (auto simp: lf_def announced_def created_wf_def)
  next
    case (Err e)
    then show ?thesis using Cons by simp
  next
    case Panic
    then show ?thesis using Cons by simp
  qed
qed (simp add: announced_def)

text \<open>What the SMF reads in the response: the tunnels of the created PDRs.\<close>

definition read_teids :: "bytes \<Rightarrow> u32 list" where
  "read_teids body =
     List.map_filter (\<lambda>ie. map_option pt_teid (snd (created_pdr_read (ie_value ie)))) (find_all_ies (parse_all body) CREATED_PDR)"

lemma read_teids_response:
  assumes "length (node_id_encode n) < 65536" and "fs_ipv6 f = None" and "\<forall>c \<in> set created. created_wf c"
    and "\<forall>f \<in> set (announced created). \<not> ft_choose f"
  shows "read_teids (build_session_establishment_response n f created) = map ft_teid (announced created)"
proof -
  have "List.map_filter (\<lambda>ie. map_option pt_teid (snd (created_pdr_read (ie_value ie)))) ies =
      List.map_filter (\<lambda>r. map_option pt_teid (snd r)) (map (\<lambda>ie. created_pdr_read (ie_value ie)) ies)" for ies :: "ParsedIe list"
    by (induction ies) (simp_all split: option.split)
  moreover have "map (\<lambda>ie. created_pdr_read (ie_value ie)) (find_all_ies (parse_all (build_session_establishment_response n f created)) CREATED_PDR) =
      map (\<lambda>c. (cp_pdr_id c, map_option f_teid_read (cp_local_f_teid c))) created"
    using establishment_response_reads [OF assms(1) _ assms(3), of f] assms(2) by (simp add: Let_def)
  moreover have "List.map_filter (\<lambda>r. map_option pt_teid (snd r)) (map (\<lambda>c. (cp_pdr_id c, map_option f_teid_read (cp_local_f_teid c))) cs) =
      map ft_teid (announced cs)" if "\<forall>f \<in> set (announced cs). \<not> ft_choose f" for cs
    using that by (induction cs) (auto simp: announced_def f_teid_read_def split: option.split)
  ultimately show ?thesis unfolding read_teids_def using assms(4) by simp
qed

lemma established_by_teid:
  assumes "ue = Some a"
  shows "\<exists>r. find_by_ul_teid ult (sessions (session_established F t us ss ue ult dlt gnb ps fs qs us' bs d)) = Some r \<and>
    upf_seid (get_session r (session_established F t us ss ue ult dlt gnb ps fs qs us' bs d)) = us \<and>
    smf_seid (get_session r (session_established F t us ss ue ult dlt gnb ps fs qs us' bs d)) = ss"
proof -
  let ?r = "length (heap (sessions d))"
  have smf: "smf_seid (install_rules F t ps fs qs us' bs s) = smf_seid s" "upf_seid (install_rules F t ps fs qs us' bs s) = upf_seid s"
    for s :: "'a DataPlaneSession"
    by (simp_all add: install_rules_def Let_def)
  show ?thesis
    unfolding session_established_def assms option.case Let_def
    by (rule exI [of _ ?r])
      (simp add: add_session_from_pfcp_def find_by_seid_def find_by_ul_teid_def add_session_def AList.update_conv' put_session_def
        get_session_def Let_def smf session_new_empty_def)
qed

lemma establishment_cases:
  assumes "handle_session_establishment_request True header payload src s = (res, es, evs, s')" and "evs \<noteq> []"
  obtains smf ue ul nt created ps fs dl gnb qs us bs where "is_associated s" and "missing_ie (parse_all payload) = None"
    and "establish_pdrs (local_node_id s) (find_all_ies (parse_all payload) CREATE_PDR) None 0 (srv_next_teid s) = ((ue, ul, nt), created, ps)"
    and "es = [SendTo (build_response SESSION_ESTABLISHMENT_RESPONSE (smf) (ph_sequence_number header)
        (build_session_establishment_response (local_node_id s)
           \<lparr>fs_seid = srv_next_seid s, fs_ipv4 = node_ipv4 (local_node_id s), fs_ipv6 = None\<rparr> created) True) src]"
    and "evs = [SessionEstablished (srv_next_seid s) (smf) ue ul dl gnb ps fs qs us bs]"
    and "map_of (srv_sessions s') (srv_next_seid s) = Some \<lparr>si_upf_seid = srv_next_seid s, si_smf_seid = smf, si_smf_addr = src,
        si_ue_ipv4 = ue, si_ul_teid = ul, si_dl_teid = dl, si_gnb_addr = gnb\<rparr>"
    and "srv_next_seid s' = srv_next_seid s + 1" and "srv_next_teid s' = nt"
proof -
  let ?ies = "parse_all payload"
  have acc: "is_associated s" "missing_ie ?ies = None"
    using assms by (auto simp: handle_session_establishment_request_def answer_def Let_def split: if_split_asm option.split_asm)
  obtain ue ul nt created ps where pdrs:
    "establish_pdrs (local_node_id s) (find_all_ies ?ies CREATE_PDR) None 0 (srv_next_teid s) = ((ue, ul, nt), created, ps)"
    by (metis prod_cases3)
  obtain dl gnb where tunnel: "establish_tunnel (parsed_ies parse_create_far (find_all_ies ?ies CREATE_FAR)) = (dl, gnb)" by force
  obtain f where f: "Option.bind (find_ie ?ies F_SEID) (\<lambda>ie. case f_seid_parse (ie_value ie) of Ok f \<Rightarrow> Some f | _ \<Rightarrow> None) = Some f"
    using assms acc
    by (cases "Option.bind (find_ie ?ies F_SEID) (\<lambda>ie. case f_seid_parse (ie_value ie) of Ok f \<Rightarrow> Some f | _ \<Rightarrow> None)")
      (auto simp: handle_session_establishment_request_def answer_def Let_def)
  show thesis
    using assms(1) acc f pdrs tunnel
    by (intro that [where smf = "fs_seid f" and dl = dl and gnb = gnb and fs = "parsed_ies parse_create_far (find_all_ies ?ies CREATE_FAR)"
          and qs = "parsed_ies parse_create_qer (find_all_ies ?ies CREATE_QER)"
          and us = "parsed_ies parse_create_urr (find_all_ies ?ies CREATE_URR)"
          and bs = "parsed_ies parse_create_bar (find_all_ies ?ies CREATE_BAR)", OF acc pdrs])
      (auto simp: handle_session_establishment_request_def Let_def alloc_seid_def AList.update_conv')
qed


text \<open>The smallest request: an uplink PDR whose F-TEID the UPF is to choose, a UE address, and one FAR.\<close>

definition demo_request :: bytes where
  "demo_request = tlvs
     [(NODE_ID, [0, 127, 0, 0, 4]), (F_SEID, [2, 0, 0, 0, 0, 0, 0, 0, 5, 127, 0, 0, 4]),
      (CREATE_PDR, tlvs [(PDR_ID, [0, 1]), (PRECEDENCE, [0, 0, 0, 10]),
         (PDI, tlvs [(SOURCE_INTERFACE, [0]), (F_TEID, [4]), (UE_IP_ADDRESS, [2, 10, 45, 0, 2])]), (FAR_ID, [0, 0, 0, 1])]),
      (CREATE_FAR, tlvs [(FAR_ID, [0, 0, 0, 1]), (APPLY_ACTION, [0, 2])])]"

definition demo_header :: ParsedPfcpHeader where
  "demo_header = \<lparr>ph_version = 1, ph_msg_type = SESSION_ESTABLISHMENT_REQUEST, ph_length = 0, ph_seid_present = True, ph_seid = 0,
     ph_sequence_number = 7\<rparr>"

definition demo_smf :: SocketAddr where
  "demo_smf = \<lparr>sock_ip = V4 0x7F000004, sock_port = 8805\<rparr>"

definition demo_server :: PfcpServer where
  "demo_server = (server_new (NodeIpv4 0x7F000007) 1)\<lparr>association := Some \<lparr>peer_addr = demo_smf, peer_recovery_time_stamp = 9\<rparr>\<rparr>"

lemma demo_established:
  "fst (snd (snd (handle_session_establishment_request True demo_header demo_request demo_smf demo_server))) =
     [SessionEstablished 1 5 (Some 0x0A2D0002) 0x10000 0 None
        [\<lparr>pp_pdr_id = 1, pp_precedence = 10,
          pp_pdi = \<lparr>pdi_source_interface = 0, pdi_local_f_teid = Some \<lparr>pt_teid = 0, pt_ipv4 = None, pt_ipv6 = None, pt_ch = True,
              pt_chid = False, pt_choose_id = None\<rparr>, pdi_network_instance = None,
            pdi_ue_ip_address = Some \<lparr>pa_ipv4 = Some 0x0A2D0002, pa_ipv6 = None, pa_ipv6_prefix_len = 0, pa_source = True, pa_destination = False\<rparr>,
            pdi_qfi = None, pdi_sdf_flow_description = None\<rparr>,
          pp_outer_header_removal = None, pp_far_id = Some 1, pp_urr_ids = [], pp_qer_id = None\<rparr>]
        [\<lparr>pf_far_id = 1, pf_apply_action = 2, pf_forwarding_parameters = None, pf_bar_id = None\<rparr>] [] [] []]"
  by code_simp


section \<open>Only the associated peer ends an association\<close>

text \<open>What the session handlers leave alone.\<close>

definition keeps_association :: "PfcpServer \<Rightarrow> PfcpSessionEvent list \<Rightarrow> PfcpServer \<Rightarrow> bool" where
  "keeps_association s evs s' \<longleftrightarrow> (\<forall>p. PeerFailure p \<notin> set evs) \<and> association s' = association s"

definition keeps_sessions :: "PfcpServer \<Rightarrow> PfcpServer \<Rightarrow> bool" where
  "keeps_sessions s s' \<longleftrightarrow> (\<forall>k. map_of (srv_sessions s) k \<noteq> None \<longrightarrow> map_of (srv_sessions s') k \<noteq> None)"

lemma keeps_refl [simp]: "keeps_association s [] s" "keeps_sessions s s"
  by (simp_all add: keeps_association_def keeps_sessions_def)

lemma establishment_keeps:
  assumes "handle_session_establishment_request ok header payload src s = (res, es, evs, s')"
  shows "keeps_association s evs s' \<and> keeps_sessions s s'"
proof -
  have "fst (snd (snd (handle_session_establishment_request ok header payload src s))) = evs"
    "snd (snd (snd (handle_session_establishment_request ok header payload src s))) = s'"
    using assms by simp_all
  then show ?thesis
    unfolding handle_session_establishment_request_def Let_def split_beta keeps_association_def keeps_sessions_def
    by (auto simp: answer_def alloc_seid_def AList.update_conv' split: if_split_asm option.split_asm)
qed

lemma modification_keeps:
  assumes "handle_session_modification_request ok header payload src s = (res, es, evs, s')"
  shows "keeps_association s evs s' \<and> keeps_sessions s s'"
proof -
  have "fst (snd (snd (handle_session_modification_request ok header payload src s))) = evs"
    "snd (snd (snd (handle_session_modification_request ok header payload src s))) = s'"
    using assms by simp_all
  then show ?thesis
    unfolding handle_session_modification_request_def Let_def split_beta keeps_association_def keeps_sessions_def
    by (auto simp: answer_def AList.update_conv' split: if_split_asm option.split_asm)
qed

lemma deletion_keeps:
  assumes "handle_session_deletion_request ok header src s dp = ((res, es, evs, s'), dp')"
  shows "keeps_association s evs s' \<and> (\<forall>k. map_of (srv_sessions s') k = None \<longrightarrow> map_of (srv_sessions s) k \<noteq> None \<longrightarrow> k = ph_seid header)"
proof -
  have "fst (snd (snd (fst (handle_session_deletion_request ok header src s dp)))) = evs"
    "snd (snd (snd (fst (handle_session_deletion_request ok header src s dp)))) = s'"
    using assms by simp_all
  then show ?thesis
    unfolding handle_session_deletion_request_def Let_def split_beta keeps_association_def
    by (auto simp: answer_def AList.delete_conv' split: if_split_asm option.split_asm)
qed

text \<open>
  C29: Whatever a host that does not hold the association sends, the association stays or becomes the one this host sets up
  with an Association Setup Request, no peer failure is declared, and no session is removed except by a deletion of its SEID.
\<close>

theorem pfcp_association_guard:
  assumes "handle_message ok data src s dp = ((res, es, evs, s'), dp')" and "\<forall>a. association s = Some a \<longrightarrow> peer_addr a \<noteq> src"
  shows "(\<forall>p. PeerFailure p \<notin> set evs) \<and>
    (association s' = association s \<or> (\<exists>rts. association s' = Some \<lparr>peer_addr = src, peer_recovery_time_stamp = rts\<rparr>)) \<and>
    (\<forall>k. map_of (srv_sessions s) k \<noteq> None \<longrightarrow> map_of (srv_sessions s') k = None \<longrightarrow>
      (\<exists>h body. parse_pfcp_header data = Ok (h, body) \<and> ph_msg_type h = SESSION_DELETION_REQUEST \<and> ph_seid h = k))"
proof -
  have quiet: "declare_peer_failure src s = ([], s)" "check_peer_recovery src rts s = ([], s)" for rts
    using assms(2) by (auto simp: declare_peer_failure_def check_peer_recovery_def split: option.split)
  show ?thesis
  proof (cases "parse_pfcp_header data")
    case (Ok x)
    obtain h body where x: "x = (h, body)" by force
    consider (est) "ph_msg_type h = SESSION_ESTABLISHMENT_REQUEST" | (modi) "ph_msg_type h = SESSION_MODIFICATION_REQUEST"
      | (del) "ph_msg_type h = SESSION_DELETION_REQUEST"
      | (other) "ph_msg_type h \<notin> {SESSION_ESTABLISHMENT_REQUEST, SESSION_MODIFICATION_REQUEST, SESSION_DELETION_REQUEST}" by blast
    then show ?thesis
    proof cases
      case est
      then have "handle_session_establishment_request ok h body src s = (res, es, evs, s')"
        using assms(1) Ok x by (simp add: handle_message_def pfcp_type)
      from establishment_keeps [OF this] show ?thesis by (auto simp: keeps_association_def keeps_sessions_def)
    next
      case modi
      then have "handle_session_modification_request ok h body src s = (res, es, evs, s')"
        using assms(1) Ok x by (simp add: handle_message_def pfcp_type)
      from modification_keeps [OF this] show ?thesis by (auto simp: keeps_association_def keeps_sessions_def)
    next
      case del
      then have "handle_session_deletion_request ok h src s dp = ((res, es, evs, s'), dp')"
        using assms(1) Ok x by (simp add: handle_message_def pfcp_type)
      from deletion_keeps [OF this] del show ?thesis using Ok x by (auto simp: keeps_association_def)
    next
      case other
      have "(\<forall>p. PeerFailure p \<notin> set evs) \<and> srv_sessions s' = srv_sessions s \<and>
          (association s' = association s \<or> (\<exists>rts. association s' = Some \<lparr>peer_addr = src, peer_recovery_time_stamp = rts\<rparr>))"
        using assms(1) Ok x quiet other
        by (auto simp: handle_message_def Let_def handle_heartbeat_request_def handle_association_setup_request_def
            handle_association_release_request_def answer_def split: if_split_asm option.split_asm bool.split_asm)
      then show ?thesis by auto
    qed
  qed (use assms(1) in \<open>auto simp: handle_message_def\<close>)
qed

section \<open>Retransmission ends\<close>

fun retransmit_rounds :: "nat list \<Rightarrow> PfcpServer \<Rightarrow> effect list \<times> PfcpServer" where
  "retransmit_rounds [] s = ([], s)"
| "retransmit_rounds (t # ts) s =
     (let (es, s) = retransmit_pending_reports t s; (es', s) = retransmit_rounds ts s in (es @ es', s))"

fun spaced :: "nat \<Rightarrow> nat list \<Rightarrow> bool" where
  "spaced t0 [] \<longleftrightarrow> True"
| "spaced t0 (t # ts) \<longleftrightarrow> t0 + PFCP_T1_DURATION \<le> t \<and> spaced t ts"

definition tried :: "nat \<Rightarrow> nat \<Rightarrow> (u32 \<times> PendingReport) list \<Rightarrow> bool" where
  "tried k t ps \<longleftrightarrow> (\<forall>(q, p) \<in> set ps. last_sent p \<le> t \<and> k \<le> unat (attempts p))"

definition tries_left :: "(u32 \<times> PendingReport) list \<Rightarrow> nat" where
  "tries_left ps = sum_list (map (\<lambda>(q, p). 3 - unat (attempts p)) ps)"

lemma attempt_more: "attempts p < PFCP_N1_MAX_RETRANSMIT \<Longrightarrow> unat (attempts p + 1) = Suc (unat (attempts p)) \<and> unat (attempts p) < 3"
  by (simp add: PFCP_N1_MAX_RETRANSMIT_def word_less_nat_alt unat_word_ariths)

lemma retransmit_loop_sends:
  "length (fst (retransmit_loop t ps)) + tries_left (snd (retransmit_loop t ps)) \<le> tries_left ps"
proof (induction ps)
  case (Cons x ps)
  obtain q p where x: "x = (q, p)" by force
  show ?case
    using Cons.IH attempt_more [of p] unfolding x by (auto simp: Let_def split_beta tries_left_def not_le)
qed (simp add: tries_left_def)

lemma retransmit_loop_tries:
  "tried k t0 ps \<Longrightarrow> t0 + PFCP_T1_DURATION \<le> t \<Longrightarrow> tried (Suc k) t (snd (retransmit_loop t ps)) \<and> (3 \<le> k \<longrightarrow> snd (retransmit_loop t ps) = [])"
proof (induction ps)
  case (Cons x ps)
  obtain q p where x: "x = (q, p)" by force
  have "\<not> t - last_sent p < PFCP_T1_DURATION" and "k \<le> unat (attempts p)"
    using Cons.prems x by (auto simp: tried_def)
  then show ?case
    using Cons.IH Cons.prems attempt_more [of p] unfolding x
    by (auto simp: Let_def split_beta tried_def not_le PFCP_N1_MAX_RETRANSMIT_def word_less_nat_alt word_le_nat_alt)
qed (simp add: tried_def)

lemma retransmit_rounds_ends:
  "tried k t0 (pending_reports s) \<Longrightarrow> spaced t0 ts \<Longrightarrow> 4 \<le> k + length ts \<Longrightarrow> ts \<noteq> [] \<Longrightarrow>
     pending_reports (snd (retransmit_rounds ts s)) = [] \<and> length (fst (retransmit_rounds ts s)) \<le> tries_left (pending_reports s)"
proof (induction ts arbitrary: k t0 s)
  case (Cons t ts)
  define s1 where "s1 = snd (retransmit_pending_reports t s)"
  have s1: "pending_reports s1 = snd (retransmit_loop t (pending_reports s))"
    "length (fst (retransmit_pending_reports t s)) + tries_left (pending_reports s1) \<le> tries_left (pending_reports s)"
    using retransmit_loop_sends [of t "pending_reports s"] by (simp_all add: s1_def retransmit_pending_reports_def split_beta)
  have step: "tried (Suc k) t (pending_reports s1)" "3 \<le> k \<longrightarrow> pending_reports s1 = []" "spaced t ts"
    using retransmit_loop_tries [OF Cons.prems(1), of t] Cons.prems(2) s1(1) by auto
  have out: "retransmit_rounds (t # ts) s = (fst (retransmit_pending_reports t s) @ fst (retransmit_rounds ts s1), snd (retransmit_rounds ts s1))"
    by (simp add: Let_def split_beta s1_def)
  show ?case
  proof (cases "ts = []")
    case True
    then show ?thesis unfolding out using step(2) Cons.prems(3) s1(2) by simp
  next
    case False
    then show ?thesis unfolding out using Cons.IH [OF step(1,3)] Cons.prems(3) s1(2) by simp
  qed
qed simp


definition demo_pending :: PfcpServer where
  "demo_pending = snd (snd (send_and_track_report True 0 1 5 demo_smf [] demo_server))"

definition demo_polls :: "nat list" where
  "demo_polls = [PFCP_T1_DURATION, 2 * PFCP_T1_DURATION, 3 * PFCP_T1_DURATION, 4 * PFCP_T1_DURATION]"


theorem pfcp_association_guard_witness:
  "\<exists>res es evs s' dp'. handle_message True (build_response ASSOCIATION_RELEASE_REQUEST 0 3 [] False) (demo_smf\<lparr>sock_port := 9\<rparr>) demo_server
      (None :: nat DataPlane option) = ((res, es, evs, s'), dp') \<and> (\<forall>p. PeerFailure p \<notin> set evs)"
proof -
  obtain res es evs s' dp' where out: "handle_message True (build_response ASSOCIATION_RELEASE_REQUEST 0 3 [] False) (demo_smf\<lparr>sock_port := 9\<rparr>)
      demo_server (None :: nat DataPlane option) = ((res, es, evs, s'), dp')"
    by (metis prod.collapse)
  have "\<forall>a. association demo_server = Some a \<longrightarrow> peer_addr a \<noteq> demo_smf\<lparr>sock_port := 9\<rparr>"
    by (simp add: demo_server_def demo_smf_def)
  from pfcp_association_guard [OF out this] out show ?thesis by blast
qed

section \<open>Errors\<close>

text \<open>
  A modification or deletion of a session that the server does not know is answered with the cause Session Context Not
  Found, changes nothing and tells the data plane nothing.
\<close>

lemma pfcp_unknown_session:
  assumes "map_of (srv_sessions s) (ph_seid header) = None"
  shows "handle_session_modification_request ok header payload src s =
      answer ok (build_response SESSION_MODIFICATION_RESPONSE 0 (ph_sequence_number header) (add_cause SessionContextNotFound []) True) src s \<and>
    handle_session_deletion_request ok header src s dp =
      (answer ok (build_response SESSION_DELETION_RESPONSE 0 (ph_sequence_number header) (add_cause SessionContextNotFound []) True) src s, dp)"
  using assms
  by (simp add: handle_session_modification_request_def handle_session_deletion_request_def build_failure_response_def add_opt_def
      Let_def split_beta)

text \<open>
  The session is removed before the response is sent; when the send fails, the data plane is not told, and forwards on.
\<close>

lemma deletion_send_failure:
  assumes "map_of (srv_sessions s) (ph_seid header) = Some info"
  shows "\<exists>es s' dp'. handle_session_deletion_request False header src s dp = ((Err SendError, es, [], s'), dp') \<and>
    map_of (srv_sessions s') (ph_seid header) = None"
  using assms
  by (simp add: handle_session_deletion_request_def Let_def split_beta AList.delete_conv' del: map_of_eq_Some_iff map_of_eq_None_iff)

text \<open>The sender of an establishment request need not be the peer of the association.\<close>

lemma establishment_from_anyone:
  "fst (snd (snd (handle_session_establishment_request ok header payload src s))) =
   fst (snd (snd (handle_session_establishment_request ok header payload src' s)))"
  by (simp add: handle_session_establishment_request_def answer_def Let_def split_beta split: option.split)

text \<open>Of several F-TEIDs that the UPF chooses for one session, only the last is installed.\<close>

definition two_tunnels :: bytes where
  "two_tunnels = tlvs [(PDR_ID, [0, 1]), (PDI, tlvs [(F_TEID, [4])])]"

lemma only_last_tunnel:
  "case establish_pdrs (NodeIpv4 0) [ie_of CREATE_PDR two_tunnels, ie_of CREATE_PDR two_tunnels] None 0 0x10000 of
     ((_, ul, _), created, _) \<Rightarrow> map ft_teid (announced created) = [0x10000, 0x10001] \<and> ul = 0x10001"
  by code_simp

end
