(* ===== verification/Smf_N4.thy ===== *)
theory Smf_N4
  imports Upf_N4
begin

text \<open>
  The PFCP message bodies that the SMF builds (\<^verbatim>\<open>nextgcore-smfd/src/n4_build.rs\<close>), and what the parsers of the UPF
  (\<open>Upf_N4\<close>) read in them. A builder is its buffer. An IPv4 address (\<^verbatim>\<open>[u8; 4]\<close>) is the number of its octets, an IPv6
  address its sixteen octets. The module \<^verbatim>\<open>pfcp_ie\<close> of the SMF has the same numbers as that of the UPF; those that the UPF
  does not use are added here.
\<close>

section \<open>Elements\<close>

definition UPDATE_PDR :: u16 where "UPDATE_PDR = 9"
definition UPDATE_URR :: u16 where "UPDATE_URR = 13"
definition REMOVE_PDR :: u16 where "REMOVE_PDR = 15"
definition REMOVE_FAR :: u16 where "REMOVE_FAR = 16"
definition REMOVE_URR :: u16 where "REMOVE_URR = 17"
definition REMOVE_QER :: u16 where "REMOVE_QER = 18"
definition VOLUME_QUOTA :: u16 where "VOLUME_QUOTA = 73"
definition TIME_QUOTA :: u16 where "TIME_QUOTA = 74"
definition PDN_TYPE :: u16 where "PDN_TYPE = 113"
definition USER_ID :: u16 where "USER_ID = 141"
definition APN_DNN :: u16 where "APN_DNN = 159"
definition QUOTA_VALIDITY_TIME :: u16 where "QUOTA_VALIDITY_TIME = 181"
definition PFCPSEREQ_FLAGS :: u16 where "PFCPSEREQ_FLAGS = 186"
definition S_NSSAI :: u16 where "S_NSSAI = 250"

lemmas smf_ie = UPDATE_PDR_def UPDATE_URR_def REMOVE_PDR_def REMOVE_FAR_def REMOVE_URR_def REMOVE_QER_def VOLUME_QUOTA_def TIME_QUOTA_def
  PDN_TYPE_def USER_ID_def APN_DNN_def QUOTA_VALIDITY_TIME_def PFCPSEREQ_FLAGS_def S_NSSAI_def

definition FORW :: u16 where "FORW = 0x0002"
definition BUFF :: u16 where "BUFF = 0x0004"
definition NOCP :: u16 where "NOCP = 0x0008"

definition URR_MEAS_METHOD :: u64 where "URR_MEAS_METHOD = push_bit 16 1"
definition URR_REPORT_TRIGGER :: u64 where "URR_REPORT_TRIGGER = push_bit 17 1"
definition URR_VOLUME_THRESH :: u64 where "URR_VOLUME_THRESH = push_bit 18 1"
definition URR_VOLUME_QUOTA :: u64 where "URR_VOLUME_QUOTA = push_bit 19 1"
definition URR_TIME_THRESH :: u64 where "URR_TIME_THRESH = push_bit 20 1"
definition URR_TIME_QUOTA :: u64 where "URR_TIME_QUOTA = push_bit 21 1"
definition URR_QUOTA_VALIDITY_TIME :: u64 where "URR_QUOTA_VALIDITY_TIME = push_bit 22 1"

section \<open>The builder\<close>

definition smf_add_tlv :: "u16 \<Rightarrow> bytes \<Rightarrow> bytes \<Rightarrow> bytes" where
  "smf_add_tlv t value buf = buf @ to_be16 t @ to_be16 (of_nat (length value)) @ value"

definition smf_add_u8 :: "u16 \<Rightarrow> u8 \<Rightarrow> bytes \<Rightarrow> bytes" where
  "smf_add_u8 t v = smf_add_tlv t [v]"

definition smf_add_u16 :: "u16 \<Rightarrow> u16 \<Rightarrow> bytes \<Rightarrow> bytes" where
  "smf_add_u16 t v = smf_add_tlv t (to_be16 v)"

definition smf_add_u32 :: "u16 \<Rightarrow> u32 \<Rightarrow> bytes \<Rightarrow> bytes" where
  "smf_add_u32 t v = smf_add_tlv t (to_be32 v)"

definition smf_add_u64 :: "u16 \<Rightarrow> u64 \<Rightarrow> bytes \<Rightarrow> bytes" where
  "smf_add_u64 t v = smf_add_tlv t (to_be64 v)"

definition smf_add_node_id :: "bytes \<Rightarrow> bytes \<Rightarrow> bytes" where
  "smf_add_node_id node_id = smf_add_tlv NODE_ID node_id"

definition smf_add_node_id_ipv4 :: "u32 \<Rightarrow> bytes \<Rightarrow> bytes" where
  "smf_add_node_id_ipv4 ip = smf_add_tlv NODE_ID (0 # to_be32 ip)"

definition smf_f_seid_value :: "u64 \<Rightarrow> u32 option \<Rightarrow> Ipv6Addr option \<Rightarrow> bytes" where
  "smf_f_seid_value seid ipv4 ipv6 =
     (let flags = flag (ipv6 \<noteq> None) 0x01 OR flag (ipv4 \<noteq> None) 0x02
      in [flags] @ to_be64 seid @ opt_octets to_be32 ipv4 @ opt_octets id ipv6)"

definition smf_add_f_seid :: "u64 \<Rightarrow> u32 option \<Rightarrow> Ipv6Addr option \<Rightarrow> bytes \<Rightarrow> bytes" where
  "smf_add_f_seid seid ipv4 ipv6 = smf_add_tlv F_SEID (smf_f_seid_value seid ipv4 ipv6)"

definition smf_add_pdr_id :: "u16 \<Rightarrow> bytes \<Rightarrow> bytes" where
  "smf_add_pdr_id i = smf_add_u16 PDR_ID i"

definition smf_add_far_id :: "u32 \<Rightarrow> bytes \<Rightarrow> bytes" where
  "smf_add_far_id i = smf_add_u32 FAR_ID i"

definition smf_add_urr_id :: "u32 \<Rightarrow> bytes \<Rightarrow> bytes" where
  "smf_add_urr_id i = smf_add_u32 URR_ID i"

definition smf_add_qer_id :: "u32 \<Rightarrow> bytes \<Rightarrow> bytes" where
  "smf_add_qer_id i = smf_add_u32 QER_ID i"

definition smf_add_bar_id :: "u8 \<Rightarrow> bytes \<Rightarrow> bytes" where
  "smf_add_bar_id i = smf_add_u8 BAR_ID i"

definition smf_add_cause_raw :: "u8 \<Rightarrow> bytes \<Rightarrow> bytes" where
  "smf_add_cause_raw c = smf_add_u8 CAUSE c"

definition smf_add_precedence :: "u32 \<Rightarrow> bytes \<Rightarrow> bytes" where
  "smf_add_precedence p = smf_add_u32 PRECEDENCE p"

definition smf_add_source_interface :: "u8 \<Rightarrow> bytes \<Rightarrow> bytes" where
  "smf_add_source_interface i = smf_add_u8 SOURCE_INTERFACE i"

definition smf_add_destination_interface :: "u8 \<Rightarrow> bytes \<Rightarrow> bytes" where
  "smf_add_destination_interface i = smf_add_u8 DESTINATION_INTERFACE i"

definition smf_add_apply_action :: "u16 \<Rightarrow> bytes \<Rightarrow> bytes" where
  "smf_add_apply_action a = smf_add_u16 APPLY_ACTION a"

definition smf_add_pdn_type :: "u8 \<Rightarrow> bytes \<Rightarrow> bytes" where
  "smf_add_pdn_type t = smf_add_u8 PDN_TYPE t"

definition smf_add_qfi :: "u8 \<Rightarrow> bytes \<Rightarrow> bytes" where
  "smf_add_qfi q = smf_add_u8 QFI q"

definition apn_labels :: "rust_string \<Rightarrow> bytes" where
  "apn_labels apn = concat (map (\<lambda>label. of_nat (length label) # label) (split_dots apn))"

definition smf_add_apn_dnn :: "rust_string \<Rightarrow> bytes \<Rightarrow> bytes" where
  "smf_add_apn_dnn apn = smf_add_tlv APN_DNN (apn_labels apn)"

definition low24 :: "u32 \<Rightarrow> bytes" where
  "low24 x = [ucast (drop_bit 16 x), ucast (drop_bit 8 x), ucast x]"

definition smf_add_s_nssai :: "u8 \<Rightarrow> u32 option \<Rightarrow> bytes \<Rightarrow> bytes" where
  "smf_add_s_nssai sst sd = smf_add_tlv S_NSSAI (sst # opt_octets low24 sd)"

definition counted :: "bytes \<Rightarrow> bytes" where
  "counted v = of_nat (length v) # v"

definition user_id_value :: "bytes option \<Rightarrow> bytes option \<Rightarrow> bytes option \<Rightarrow> bytes" where
  "user_id_value imsi imeisv msisdn =
     (let flags = flag (imsi \<noteq> None) 0x01 OR flag (imeisv \<noteq> None) 0x02 OR flag (msisdn \<noteq> None) 0x04
      in [flags] @ opt_octets counted imsi @ opt_octets counted imeisv @ opt_octets counted msisdn)"

definition smf_add_user_id :: "bytes option \<Rightarrow> bytes option \<Rightarrow> bytes option \<Rightarrow> bytes \<Rightarrow> bytes" where
  "smf_add_user_id imsi imeisv msisdn = smf_add_tlv USER_ID (user_id_value imsi imeisv msisdn)"

definition smf_add_pfcpsereq_flags :: "bool \<Rightarrow> bytes \<Rightarrow> bytes" where
  "smf_add_pfcpsereq_flags restoration = smf_add_u8 PFCPSEREQ_FLAGS (flag restoration 0x01)"

definition smf_add_outer_header_removal :: "u8 \<Rightarrow> bytes \<Rightarrow> bytes" where
  "smf_add_outer_header_removal d = smf_add_u8 OUTER_HEADER_REMOVAL d"

text \<open>The F-TEID of the SMF always carries the TEID, also when it asks the UPF to choose.\<close>

definition smf_f_teid_value :: "u32 \<Rightarrow> u32 option \<Rightarrow> Ipv6Addr option \<Rightarrow> u8 option \<Rightarrow> bytes" where
  "smf_f_teid_value teid ipv4 ipv6 choose_id =
     (let flags = flag (ipv4 \<noteq> None) 0x01 OR flag (ipv6 \<noteq> None) 0x02 OR flag (choose_id \<noteq> None) 0x04
      in [flags] @ to_be32 teid @ opt_octets to_be32 ipv4 @ opt_octets id ipv6 @ opt_octets (\<lambda>i. [i]) choose_id)"

definition smf_add_f_teid :: "u32 \<Rightarrow> u32 option \<Rightarrow> Ipv6Addr option \<Rightarrow> u8 option \<Rightarrow> bytes \<Rightarrow> bytes" where
  "smf_add_f_teid teid ipv4 ipv6 choose_id = smf_add_tlv F_TEID (smf_f_teid_value teid ipv4 ipv6 choose_id)"

text \<open>The debug assertion (not both source and destination) is off in a release build.\<close>

definition smf_ue_ip_value :: "u32 option \<Rightarrow> Ipv6Addr option \<Rightarrow> bool \<Rightarrow> bytes" where
  "smf_ue_ip_value ipv4 ipv6 destination =
     (let flags = flag (ipv6 \<noteq> None) 0x01 OR flag (ipv4 \<noteq> None) 0x02 OR flag destination 0x04
      in [flags] @ opt_octets to_be32 ipv4 @ opt_octets id ipv6)"

definition smf_add_ue_ip_address :: "u32 option \<Rightarrow> Ipv6Addr option \<Rightarrow> bool \<Rightarrow> bool \<Rightarrow> bytes \<Rightarrow> bytes" where
  "smf_add_ue_ip_address ipv4 ipv6 source destination = smf_add_tlv UE_IP_ADDRESS (smf_ue_ip_value ipv4 ipv6 destination)"

definition smf_ohc_value :: "u16 \<Rightarrow> u32 \<Rightarrow> u32 option \<Rightarrow> Ipv6Addr option \<Rightarrow> bytes" where
  "smf_ohc_value description teid ipv4 ipv6 =
     to_be16 description @ to_be32 teid @ opt_octets to_be32 ipv4 @ opt_octets id ipv6"

definition smf_add_outer_header_creation :: "u16 \<Rightarrow> u32 \<Rightarrow> u32 option \<Rightarrow> Ipv6Addr option \<Rightarrow> bytes \<Rightarrow> bytes" where
  "smf_add_outer_header_creation description teid ipv4 ipv6 =
     smf_add_tlv OUTER_HEADER_CREATION (smf_ohc_value description teid ipv4 ipv6)"

text \<open>Rates: bit/s to kbit/s, rounded up, in the low five octets.\<close>

definition div_ceil_1000 :: "u64 \<Rightarrow> u64" where
  "div_ceil_1000 x = (if x mod 1000 = 0 then x div 1000 else x div 1000 + 1)"

definition rate_octets :: "u64 \<Rightarrow> bytes" where
  "rate_octets x = drop 3 (to_be64 (div_ceil_1000 x))"

definition smf_add_mbr :: "u64 \<Rightarrow> u64 \<Rightarrow> bytes \<Rightarrow> bytes" where
  "smf_add_mbr ul dl = smf_add_tlv MBR (rate_octets ul @ rate_octets dl)"

definition smf_add_gbr :: "u64 \<Rightarrow> u64 \<Rightarrow> bytes \<Rightarrow> bytes" where
  "smf_add_gbr ul dl = smf_add_tlv GBR (rate_octets ul @ rate_octets dl)"

definition smf_add_gate_status :: "u8 \<Rightarrow> u8 \<Rightarrow> bytes \<Rightarrow> bytes" where
  "smf_add_gate_status dl ul = smf_add_u8 GATE_STATUS ((dl AND 0x03) OR push_bit 2 (ul AND 0x03))"

definition smf_add_measurement_method :: "bool \<Rightarrow> bool \<Rightarrow> bool \<Rightarrow> bytes \<Rightarrow> bytes" where
  "smf_add_measurement_method duration volume event =
     smf_add_u8 MEASUREMENT_METHOD (flag duration 0x01 OR flag volume 0x02 OR flag event 0x04)"

definition smf_add_reporting_triggers :: "u32 \<Rightarrow> bytes \<Rightarrow> bytes" where
  "smf_add_reporting_triggers t = smf_add_tlv REPORTING_TRIGGERS (low24 t)"

definition smf_volume_value :: "u64 option \<Rightarrow> u64 option \<Rightarrow> u64 option \<Rightarrow> bytes" where
  "smf_volume_value tot ul dl =
     (let flags = flag (tot \<noteq> None) 0x01 OR flag (ul \<noteq> None) 0x02 OR flag (dl \<noteq> None) 0x04
      in [flags] @ opt_octets to_be64 tot @ opt_octets to_be64 ul @ opt_octets to_be64 dl)"

definition smf_add_volume_threshold :: "u64 option \<Rightarrow> u64 option \<Rightarrow> u64 option \<Rightarrow> bytes \<Rightarrow> bytes" where
  "smf_add_volume_threshold tot ul dl = smf_add_tlv VOLUME_THRESHOLD (smf_volume_value tot ul dl)"

definition smf_add_volume_quota :: "u64 option \<Rightarrow> u64 option \<Rightarrow> u64 option \<Rightarrow> bytes \<Rightarrow> bytes" where
  "smf_add_volume_quota tot ul dl = smf_add_tlv VOLUME_QUOTA (smf_volume_value tot ul dl)"

definition smf_add_time_threshold :: "u32 \<Rightarrow> bytes \<Rightarrow> bytes" where
  "smf_add_time_threshold s = smf_add_u32 TIME_THRESHOLD s"

definition smf_add_time_quota :: "u32 \<Rightarrow> bytes \<Rightarrow> bytes" where
  "smf_add_time_quota s = smf_add_u32 TIME_QUOTA s"

definition smf_add_quota_validity_time :: "u32 \<Rightarrow> bytes \<Rightarrow> bytes" where
  "smf_add_quota_validity_time s = smf_add_u32 QUOTA_VALIDITY_TIME s"

definition smf_sdf_value :: "rust_string option \<Rightarrow> u16 option \<Rightarrow> u32 option \<Rightarrow> u32 option \<Rightarrow> u32 option \<Rightarrow> bytes" where
  "smf_sdf_value fd ttc spi fl bid =
     (let flags = flag (fd \<noteq> None) 0x01 OR flag (ttc \<noteq> None) 0x02 OR flag (spi \<noteq> None) 0x04 OR flag (fl \<noteq> None) 0x08
            OR flag (bid \<noteq> None) 0x10
      in [flags, 0] @ opt_octets (\<lambda>s. to_be16 (of_nat (length s)) @ s) fd @ opt_octets to_be16 ttc @ opt_octets to_be32 spi @
         opt_octets low24 fl @ opt_octets to_be32 bid)"

definition smf_add_sdf_filter ::
  "rust_string option \<Rightarrow> u16 option \<Rightarrow> u32 option \<Rightarrow> u32 option \<Rightarrow> u32 option \<Rightarrow> bytes \<Rightarrow> bytes" where
  "smf_add_sdf_filter fd ttc spi fl bid = smf_add_tlv SDF_FILTER (smf_sdf_value fd ttc spi fl bid)"

section \<open>Rules\<close>

record PdrParams =
  bp_pdr_id :: u16
  bp_precedence :: u32
  bp_source_interface :: u8
  bp_far_id :: "u32 option"
  bp_urr_ids :: "u32 list"
  bp_qer_id :: "u32 option"
  bp_outer_header_removal :: "u8 option"
  bp_f_teid :: "(u32 \<times> u32 option \<times> Ipv6Addr option) option"
  bp_ue_ip_address :: "(u32 option \<times> Ipv6Addr option \<times> bool) option"
  bp_sdf_filters :: "rust_string list"
  bp_qfi :: "u8 option"
  bp_network_instance :: "rust_string option"

definition smf_pdi :: "PdrParams \<Rightarrow> bytes" where
  "smf_pdi p =
     (let pdi = smf_add_source_interface (bp_source_interface p) [];
          pdi = add_opt (\<lambda>(teid, ipv4, ipv6). smf_add_f_teid teid ipv4 ipv6 None) (bp_f_teid p) pdi;
          pdi = add_opt (\<lambda>(ipv4, ipv6, source). smf_add_ue_ip_address ipv4 ipv6 source (\<not> source)) (bp_ue_ip_address p) pdi;
          pdi = fold (\<lambda>sdf. smf_add_sdf_filter (Some sdf) None None None None) (bp_sdf_filters p) pdi;
          pdi = add_opt smf_add_qfi (bp_qfi p) pdi
      in add_opt (smf_add_tlv NETWORK_INSTANCE) (bp_network_instance p) pdi)"

definition build_create_pdr :: "PdrParams \<Rightarrow> bytes" where
  "build_create_pdr p =
     (let b = smf_add_pdr_id (bp_pdr_id p) [];
          b = smf_add_precedence (bp_precedence p) b;
          b = smf_add_tlv PDI (smf_pdi p) b;
          b = add_opt smf_add_outer_header_removal (bp_outer_header_removal p) b;
          b = add_opt smf_add_far_id (bp_far_id p) b;
          b = fold smf_add_urr_id (bp_urr_ids p) b
      in add_opt smf_add_qer_id (bp_qer_id p) b)"

definition build_update_pdr :: "u16 \<Rightarrow> u8 option \<Rightarrow> bytes" where
  "build_update_pdr i ohr = add_opt smf_add_outer_header_removal ohr (smf_add_pdr_id i [])"

definition build_remove_pdr :: "u16 \<Rightarrow> bytes" where
  "build_remove_pdr i = smf_add_pdr_id i []"

type_synonym outer_header = "u16 \<times> u32 \<times> u32 option \<times> Ipv6Addr option"

record FarParams =
  bf_far_id :: u32
  bf_apply_action :: u16
  bf_destination_interface :: "u8 option"
  bf_outer_header_creation :: "outer_header option"
  bf_network_instance :: "rust_string option"

definition smf_add_ohc :: "outer_header \<Rightarrow> bytes \<Rightarrow> bytes" where
  "smf_add_ohc = (\<lambda>(desc, teid, ipv4, ipv6). smf_add_outer_header_creation desc teid ipv4 ipv6)"

definition smf_forwarding :: "FarParams \<Rightarrow> bytes" where
  "smf_forwarding p =
     (let fp = add_opt smf_add_destination_interface (bf_destination_interface p) [];
          fp = add_opt (smf_add_tlv NETWORK_INSTANCE) (bf_network_instance p) fp
      in add_opt smf_add_ohc (bf_outer_header_creation p) fp)"

definition build_create_far :: "FarParams \<Rightarrow> bytes" where
  "build_create_far p =
     (let b = smf_add_far_id (bf_far_id p) [];
          b = smf_add_apply_action (bf_apply_action p) b
      in if bf_apply_action p AND FORW \<noteq> 0 then smf_add_tlv FORWARDING_PARAMETERS (smf_forwarding p) b else b)"

definition build_update_far_activate :: "u32 \<Rightarrow> u8 \<Rightarrow> outer_header option \<Rightarrow> bool \<Rightarrow> bytes" where
  "build_update_far_activate i dst ohc send_end_marker =
     (let b = smf_add_far_id i [];
          b = smf_add_apply_action FORW b;
          ufp = smf_add_destination_interface dst [];
          ufp = add_opt smf_add_ohc ohc ufp
      in smf_add_tlv UPDATE_FORWARDING_PARAMETERS ufp b)"

definition build_update_far_deactivate :: "u32 \<Rightarrow> bytes" where
  "build_update_far_deactivate i = smf_add_apply_action (BUFF OR NOCP) (smf_add_far_id i [])"

definition build_remove_far :: "u32 \<Rightarrow> bytes" where
  "build_remove_far i = smf_add_far_id i []"

record UrrParams =
  bu_urr_id :: u32
  bu_measurement_method :: "bool \<times> bool \<times> bool"
  bu_reporting_triggers :: u32
  bu_volume_threshold :: "(u64 option \<times> u64 option \<times> u64 option) option"
  bu_volume_quota :: "(u64 option \<times> u64 option \<times> u64 option) option"
  bu_time_threshold :: "u32 option"
  bu_time_quota :: "u32 option"
  bu_quota_validity_time :: "u32 option"

definition build_create_urr :: "UrrParams \<Rightarrow> bytes" where
  "build_create_urr p =
     (let b = smf_add_urr_id (bu_urr_id p) [];
          (duration, volume, event) = bu_measurement_method p;
          b = smf_add_measurement_method duration volume event b;
          b = smf_add_reporting_triggers (bu_reporting_triggers p) b;
          b = add_opt (\<lambda>(tot, ul, dl). smf_add_volume_threshold tot ul dl) (bu_volume_threshold p) b;
          b = add_opt (\<lambda>(tot, ul, dl). smf_add_volume_quota tot ul dl) (bu_volume_quota p) b;
          b = add_opt smf_add_time_threshold (bu_time_threshold p) b;
          b = add_opt smf_add_time_quota (bu_time_quota p) b
      in add_opt smf_add_quota_validity_time (bu_quota_validity_time p) b)"

definition when_flag :: "u64 \<Rightarrow> u64 \<Rightarrow> 'a option \<Rightarrow> 'a option" where
  "when_flag flags f x = (if flags AND f \<noteq> 0 then x else None)"

definition build_update_urr :: "UrrParams \<Rightarrow> u64 \<Rightarrow> bytes" where
  "build_update_urr p flags =
     (let b = smf_add_urr_id (bu_urr_id p) [];
          b = add_opt (\<lambda>(duration, volume, event). smf_add_measurement_method duration volume event)
                (when_flag flags URR_MEAS_METHOD (Some (bu_measurement_method p))) b;
          b = add_opt smf_add_reporting_triggers (when_flag flags URR_REPORT_TRIGGER (Some (bu_reporting_triggers p))) b;
          b = add_opt (\<lambda>(tot, ul, dl). smf_add_volume_threshold tot ul dl) (when_flag flags URR_VOLUME_THRESH (bu_volume_threshold p)) b;
          b = add_opt (\<lambda>(tot, ul, dl). smf_add_volume_quota tot ul dl) (when_flag flags URR_VOLUME_QUOTA (bu_volume_quota p)) b;
          b = add_opt smf_add_time_threshold (when_flag flags URR_TIME_THRESH (bu_time_threshold p)) b;
          b = add_opt smf_add_time_quota (when_flag flags URR_TIME_QUOTA (bu_time_quota p)) b
      in add_opt smf_add_quota_validity_time (when_flag flags URR_QUOTA_VALIDITY_TIME (bu_quota_validity_time p)) b)"

definition build_remove_urr :: "u32 \<Rightarrow> bytes" where
  "build_remove_urr i = smf_add_urr_id i []"

record QerParams =
  bq_qer_id :: u32
  bq_gate_status :: "u8 \<times> u8"
  bq_mbr :: "(u64 \<times> u64) option"
  bq_gbr :: "(u64 \<times> u64) option"
  bq_qfi :: "u8 option"

definition build_create_qer :: "QerParams \<Rightarrow> bytes" where
  "build_create_qer p =
     (let b = smf_add_qer_id (bq_qer_id p) [];
          (dl, ul) = bq_gate_status p;
          b = smf_add_gate_status dl ul b;
          b = add_opt (\<lambda>(ul, dl). smf_add_mbr ul dl) (bq_mbr p) b;
          b = add_opt (\<lambda>(ul, dl). smf_add_gbr ul dl) (bq_gbr p) b
      in add_opt smf_add_qfi (bq_qfi p) b)"

definition build_update_qer :: "QerParams \<Rightarrow> bytes" where
  "build_update_qer p = build_create_qer p"

definition build_remove_qer :: "u32 \<Rightarrow> bytes" where
  "build_remove_qer i = smf_add_qer_id i []"

record BarParams =
  bb_bar_id :: u8
  bb_downlink_data_notification_delay :: "u8 option"
  bb_suggested_buffering_packets_count :: "u8 option"

definition build_create_bar :: "BarParams \<Rightarrow> bytes" where
  "build_create_bar p =
     (let b = smf_add_bar_id (bb_bar_id p) [];
          b = add_opt (smf_add_u8 DOWNLINK_DATA_NOTIFICATION_DELAY) (bb_downlink_data_notification_delay p) b
      in add_opt (smf_add_u8 SUGGESTED_BUFFERING_PACKETS_COUNT) (bb_suggested_buffering_packets_count p) b)"

section \<open>Bodies as lists of elements\<close>

named_theorems as_tlvs \<open>a builder appends elements to a list of elements\<close>

lemma tlvs_snoc: "smf_add_tlv t v (tlvs xs) = tlvs (xs @ [(t, v)])"
  by (simp add: smf_add_tlv_def add_tlv_def)

definition opt_ie :: "u16 \<Rightarrow> ('a \<Rightarrow> bytes) \<Rightarrow> 'a option \<Rightarrow> (u16 \<times> bytes) list" where
  "opt_ie t f x = (case x of None \<Rightarrow> [] | Some a \<Rightarrow> [(t, f a)])"

lemmas smf_add_defs = smf_add_u8_def [abs_def] smf_add_u16_def [abs_def] smf_add_u32_def [abs_def] smf_add_node_id_def [abs_def]
  smf_add_node_id_ipv4_def [abs_def] smf_add_f_seid_def [abs_def] smf_add_pdr_id_def [abs_def] smf_add_far_id_def [abs_def]
  smf_add_urr_id_def [abs_def] smf_add_qer_id_def [abs_def] smf_add_bar_id_def [abs_def] smf_add_precedence_def [abs_def]
  smf_add_source_interface_def [abs_def] smf_add_destination_interface_def [abs_def] smf_add_apply_action_def [abs_def]
  smf_add_pdn_type_def [abs_def] smf_add_qfi_def [abs_def] smf_add_apn_dnn_def [abs_def] smf_add_s_nssai_def [abs_def]
  smf_add_user_id_def [abs_def] smf_add_pfcpsereq_flags_def [abs_def] smf_add_outer_header_removal_def [abs_def]
  smf_add_f_teid_def [abs_def] smf_add_ue_ip_address_def [abs_def] smf_add_outer_header_creation_def [abs_def]
  smf_add_mbr_def [abs_def] smf_add_gbr_def [abs_def] smf_add_gate_status_def [abs_def] smf_add_measurement_method_def [abs_def]
  smf_add_reporting_triggers_def [abs_def] smf_add_volume_threshold_def [abs_def] smf_add_volume_quota_def [abs_def]
  smf_add_time_threshold_def [abs_def] smf_add_time_quota_def [abs_def] smf_add_quota_validity_time_def [abs_def]
  smf_add_sdf_filter_def [abs_def] smf_add_ohc_def

lemma tlvs_tuple [as_tlvs]:
  "(\<lambda>(a, b). smf_add_tlv t (f2 a b)) = (\<lambda>x. smf_add_tlv t (case x of (a, b) \<Rightarrow> f2 a b))"
  "(\<lambda>(a, b, c). smf_add_tlv t (f3 a b c)) = (\<lambda>x. smf_add_tlv t (case x of (a, b, c) \<Rightarrow> f3 a b c))"
  "(\<lambda>(a, b, c, d). smf_add_tlv t (f4 a b c d)) = (\<lambda>x. smf_add_tlv t (case x of (a, b, c, d) \<Rightarrow> f4 a b c d))"
  by (auto simp: fun_eq_iff)

lemma tlvs_opt [as_tlvs]: "add_opt (\<lambda>a. smf_add_tlv t (f a)) x (tlvs xs) = tlvs (xs @ opt_ie t f x)"
  by (simp add: add_opt_def opt_ie_def tlvs_snoc split: option.split del: tlvs_simps)

lemma tlvs_fold [as_tlvs]: "fold (\<lambda>a. smf_add_tlv t (f a)) as (tlvs xs) = tlvs (xs @ map (\<lambda>a. (t, f a)) as)"
  by (induction "as" arbitrary: xs) (simp_all add: tlvs_snoc del: tlvs_simps)

lemma tlvs_start [as_tlvs]: "smf_add_tlv t v [] = tlvs [(t, v)]" "add_opt (\<lambda>a. smf_add_tlv t (f a)) x [] = tlvs (opt_ie t f x)"
  using tlvs_snoc [of t v "[]"] tlvs_opt [of t f x "[]"] by simp_all

declare tlvs_snoc [as_tlvs]

definition pdi_ies :: "PdrParams \<Rightarrow> (u16 \<times> bytes) list" where
  "pdi_ies p =
     [(SOURCE_INTERFACE, [bp_source_interface p])] @
     opt_ie F_TEID (\<lambda>(teid, ipv4, ipv6). smf_f_teid_value teid ipv4 ipv6 None) (bp_f_teid p) @
     opt_ie UE_IP_ADDRESS (\<lambda>(ipv4, ipv6, source). smf_ue_ip_value ipv4 ipv6 (\<not> source)) (bp_ue_ip_address p) @
     map (\<lambda>sdf. (SDF_FILTER, smf_sdf_value (Some sdf) None None None None)) (bp_sdf_filters p) @
     opt_ie QFI (\<lambda>q. [q]) (bp_qfi p) @ opt_ie NETWORK_INSTANCE (\<lambda>n. n) (bp_network_instance p)"

lemma smf_pdi_tlvs: "smf_pdi p = tlvs (pdi_ies p)"
  unfolding smf_pdi_def pdi_ies_def Let_def smf_add_defs as_tlvs append_assoc ..

definition pdr_ies :: "PdrParams \<Rightarrow> (u16 \<times> bytes) list" where
  "pdr_ies p =
     [(PDR_ID, to_be16 (bp_pdr_id p)), (PRECEDENCE, to_be32 (bp_precedence p)), (PDI, tlvs (pdi_ies p))] @
     opt_ie OUTER_HEADER_REMOVAL (\<lambda>d. [d]) (bp_outer_header_removal p) @ opt_ie FAR_ID to_be32 (bp_far_id p) @
     map (\<lambda>i. (URR_ID, to_be32 i)) (bp_urr_ids p) @ opt_ie QER_ID to_be32 (bp_qer_id p)"

lemma build_create_pdr_tlvs: "build_create_pdr p = tlvs (pdr_ies p)"
  unfolding build_create_pdr_def pdr_ies_def Let_def smf_add_defs smf_pdi_tlvs as_tlvs append_assoc append_Cons append_Nil ..

definition ohc_octets :: "outer_header \<Rightarrow> bytes" where
  "ohc_octets = (\<lambda>(desc, teid, ipv4, ipv6). smf_ohc_value desc teid ipv4 ipv6)"

definition forwarding_ies :: "FarParams \<Rightarrow> (u16 \<times> bytes) list" where
  "forwarding_ies p =
     opt_ie DESTINATION_INTERFACE (\<lambda>i. [i]) (bf_destination_interface p) @
     opt_ie NETWORK_INSTANCE (\<lambda>n. n) (bf_network_instance p) @ opt_ie OUTER_HEADER_CREATION ohc_octets (bf_outer_header_creation p)"

definition far_ies :: "FarParams \<Rightarrow> (u16 \<times> bytes) list" where
  "far_ies p =
     [(FAR_ID, to_be32 (bf_far_id p)), (APPLY_ACTION, to_be16 (bf_apply_action p))] @
     (if bf_apply_action p AND FORW \<noteq> 0 then [(FORWARDING_PARAMETERS, tlvs (forwarding_ies p))] else [])"

lemma build_create_far_tlvs: "build_create_far p = tlvs (far_ies p)"
proof -
  have "smf_forwarding p = tlvs (forwarding_ies p)"
    unfolding smf_forwarding_def forwarding_ies_def Let_def smf_add_defs as_tlvs append_assoc ohc_octets_def ..
  then show ?thesis
    unfolding build_create_far_def far_ies_def Let_def smf_add_defs as_tlvs append_assoc append_Cons append_Nil
    by (simp only: as_tlvs append_Cons append_Nil if_distrib [where f = tlvs] split: if_split) simp
qed

definition activate_ies :: "u32 \<Rightarrow> u8 \<Rightarrow> outer_header option \<Rightarrow> (u16 \<times> bytes) list" where
  "activate_ies i dst ohc =
     [(FAR_ID, to_be32 i), (APPLY_ACTION, to_be16 FORW),
      (UPDATE_FORWARDING_PARAMETERS, tlvs ([(DESTINATION_INTERFACE, [dst])] @ opt_ie OUTER_HEADER_CREATION ohc_octets ohc))]"

lemma build_update_far_tlvs:
  "build_update_far_activate i dst ohc em = tlvs (activate_ies i dst ohc)"
  "build_update_far_deactivate i = tlvs [(FAR_ID, to_be32 i), (APPLY_ACTION, to_be16 (BUFF OR NOCP))]"
  unfolding build_update_far_activate_def build_update_far_deactivate_def activate_ies_def Let_def smf_add_defs as_tlvs append_assoc
    append_Cons append_Nil ohc_octets_def by (rule refl)+

definition volume_octets :: "u64 option \<times> u64 option \<times> u64 option \<Rightarrow> bytes" where
  "volume_octets = (\<lambda>(tot, ul, dl). smf_volume_value tot ul dl)"

definition method_octets :: "bool \<times> bool \<times> bool \<Rightarrow> bytes" where
  "method_octets = (\<lambda>(duration, volume, event). [flag duration 0x01 OR flag volume 0x02 OR flag event 0x04])"

definition urr_ies :: "UrrParams \<Rightarrow> (u16 \<times> bytes) list" where
  "urr_ies p =
     [(URR_ID, to_be32 (bu_urr_id p)), (MEASUREMENT_METHOD, method_octets (bu_measurement_method p)),
      (REPORTING_TRIGGERS, low24 (bu_reporting_triggers p))] @
     opt_ie VOLUME_THRESHOLD volume_octets (bu_volume_threshold p) @ opt_ie VOLUME_QUOTA volume_octets (bu_volume_quota p) @
     opt_ie TIME_THRESHOLD to_be32 (bu_time_threshold p) @ opt_ie TIME_QUOTA to_be32 (bu_time_quota p) @
     opt_ie QUOTA_VALIDITY_TIME to_be32 (bu_quota_validity_time p)"

lemma build_create_urr_tlvs: "build_create_urr p = tlvs (urr_ies p)"
  unfolding build_create_urr_def urr_ies_def Let_def smf_add_defs volume_octets_def method_octets_def
  by (cases "bu_measurement_method p") (simp only: prod.case as_tlvs append_assoc append_Cons append_Nil)

definition pair_octets :: "u64 \<times> u64 \<Rightarrow> bytes" where
  "pair_octets = (\<lambda>(ul, dl). rate_octets ul @ rate_octets dl)"

definition gate_octet :: "u8 \<times> u8 \<Rightarrow> u8" where
  "gate_octet = (\<lambda>(dl, ul). (dl AND 0x03) OR push_bit 2 (ul AND 0x03))"

definition qer_ies :: "QerParams \<Rightarrow> (u16 \<times> bytes) list" where
  "qer_ies p =
     [(QER_ID, to_be32 (bq_qer_id p)), (GATE_STATUS, [gate_octet (bq_gate_status p)])] @
     opt_ie MBR pair_octets (bq_mbr p) @ opt_ie GBR pair_octets (bq_gbr p) @ opt_ie QFI (\<lambda>q. [q]) (bq_qfi p)"

lemma build_create_qer_tlvs: "build_create_qer p = tlvs (qer_ies p)"
  unfolding build_create_qer_def qer_ies_def Let_def smf_add_defs pair_octets_def gate_octet_def
  by (cases "bq_gate_status p") (simp only: prod.case as_tlvs append_assoc append_Cons append_Nil)

definition bar_ies :: "BarParams \<Rightarrow> (u16 \<times> bytes) list" where
  "bar_ies p =
     [(BAR_ID, [bb_bar_id p])] @ opt_ie DOWNLINK_DATA_NOTIFICATION_DELAY (\<lambda>d. [d]) (bb_downlink_data_notification_delay p) @
     opt_ie SUGGESTED_BUFFERING_PACKETS_COUNT (\<lambda>c. [c]) (bb_suggested_buffering_packets_count p)"

lemma build_create_bar_tlvs: "build_create_bar p = tlvs (bar_ies p)"
  unfolding build_create_bar_def bar_ies_def Let_def smf_add_defs as_tlvs append_assoc ..

section \<open>What the UPF reads\<close>

text \<open>Looking for an element in a body is looking for it in the list.\<close>

lemma tlvs_member: "x \<in> set xs \<Longrightarrow> length (snd x) \<le> length (tlvs xs)"
  by (induction xs) auto

lemma parse_tlvs:
  assumes "length (tlvs xs) < 65536"
  shows "parse_all (tlvs xs) = map (\<lambda>(t, v). ie_of t v) xs"
  by (rule parse_all_tlvs) (use tlvs_member [of _ xs] assms in \<open>force dest: le_less_trans\<close>)

lemma find_ie_tlvs:
  assumes "length (tlvs xs) < 65536"
  shows "find_ie (parse_all (tlvs xs)) t = map_option (ie_of t) (map_of xs t)"
proof -
  have "List.find (\<lambda>ie. ie_type ie = t) (map (\<lambda>(t, v). ie_of t v) xs) = map_option (ie_of t) (map_of xs t)" for xs
    by (induction xs) (auto simp: ie_of_def)
  then show ?thesis unfolding parse_tlvs [OF assms] find_ie_def .
qed

lemma ie_field_tlvs:
  assumes "length (tlvs xs) < 65536"
  shows "ie_field (parse_all (tlvs xs)) t n read d =
    (case map_of xs t of None \<Rightarrow> d | Some v \<Rightarrow> if n \<le> length v then read v else d)"
  by (simp add: ie_field_def find_ie_tlvs [OF assms] ie_of_def split: option.split)

lemma ie_parsed_tlvs:
  assumes "length (tlvs xs) < 65536"
  shows "ie_parsed (parse_all (tlvs xs)) t parse =
    (case map_of xs t of None \<Rightarrow> Ok None | Some v \<Rightarrow> obind (parse v) (\<lambda>x. Ok (Some x)))"
  by (simp add: ie_parsed_def find_ie_tlvs [OF assms] ie_of_def split: option.split)

lemma find_all_tlvs:
  assumes "length (tlvs xs) < 65536"
  shows "map ie_value (find_all_ies (parse_all (tlvs xs)) t) = map snd (filter (\<lambda>x. fst x = t) xs)"
proof -
  have "map ie_value (filter (\<lambda>ie. ie_type ie = t) (map (\<lambda>(t, v). ie_of t v) xs)) = map snd (filter (\<lambda>x. fst x = t) xs)" for xs
    by (induction xs) (auto simp: ie_of_def)
  then show ?thesis unfolding parse_tlvs [OF assms] find_all_ies_def .
qed

lemmas reads_tlvs = find_ie_tlvs ie_field_tlvs ie_parsed_tlvs

lemma opt_ie_lookup [simp]:
  "map_of (opt_ie t f x) t' = (if t' = t then map_option f x else None)"
  "filter (\<lambda>y. fst y = t') (opt_ie t f x) = (if t' = t then opt_ie t f x else [])"
  by (simp_all add: opt_ie_def split: option.split)

lemma repeated_lookup [simp]:
  "map_of (map (\<lambda>a. (t, f a)) as) t' = (if t' = t \<and> as \<noteq> [] then Some (f (hd as)) else None)"
  "filter (\<lambda>y. fst y = t') (map (\<lambda>a. (t, f a)) as) = (if t' = t then map (\<lambda>a. (t, f a)) as else [])"
  by (induction "as") auto

lemma be_at_exact [simp]: "be16_at (to_be16 h) 0 = h" "be32_at (to_be32 w) 0 = w"
  using be_at_put [where r = "[]"] by simp_all

definition ipv6_ok :: "Ipv6Addr option \<Rightarrow> bool" where
  "ipv6_ok a \<longleftrightarrow> (\<forall>x. a = Some x \<longrightarrow> length x = 16)"

text \<open>A Rust string is valid UTF-8: reading it with replacement changes nothing.\<close>

definition rust_str :: "rust_string \<Rightarrow> bool" where
  "rust_str s \<longleftrightarrow> from_utf8_lossy s = s"

lemma lossy_instance: "\<forall>n. x = Some n \<longrightarrow> rust_str n \<Longrightarrow> map_option from_utf8_lossy x = x"
  by (cases x) (simp_all add: rust_str_def)

lemma smf_values_upf:
  "smf_f_seid_value seid a b = f_seid_encode \<lparr>fs_seid = seid, fs_ipv4 = a, fs_ipv6 = b\<rparr>"
  "smf_f_teid_value teid a b None = f_teid_value \<lparr>ft_teid = teid, ft_ipv4 = a, ft_ipv6 = b, ft_choose = False, ft_choose_id = None\<rparr>"
  "smf_ue_ip_value a b dst = ue_ip_value \<lparr>ue_ipv4_addr = a, ue_ipv6_addr = b, ue_ipv6_prefix_len = 0\<rparr> dst"
  by (simp_all add: smf_f_seid_value_def f_seid_encode_def smf_f_teid_value_def f_teid_value_def smf_ue_ip_value_def ue_ip_value_def
      Let_def flag_def opt_octets_def)

definition teid_read :: "u32 \<times> u32 option \<times> Ipv6Addr option \<Rightarrow> ParsedFTeid" where
  "teid_read = (\<lambda>(teid, ipv4, ipv6).
     \<lparr>pt_teid = teid, pt_ipv4 = ipv4, pt_ipv6 = ipv6, pt_ch = False, pt_chid = False, pt_choose_id = None\<rparr>)"

definition ue_read :: "u32 option \<times> Ipv6Addr option \<times> bool \<Rightarrow> ParsedUeIpAddr" where
  "ue_read = (\<lambda>(ipv4, ipv6, source).
     \<lparr>pa_ipv4 = ipv4, pa_ipv6 = ipv6, pa_ipv6_prefix_len = (if ipv6 \<noteq> None then 64 else 0), pa_source = source, pa_destination = (\<not> source)\<rparr>)"

lemma smf_values_read:
  "ipv6_ok b \<Longrightarrow> f_seid_parse (smf_f_seid_value seid a b) = Ok \<lparr>fs_seid = seid, fs_ipv4 = a, fs_ipv6 = b\<rparr>"
  "ipv6_ok b \<Longrightarrow> f_teid_parse (smf_f_teid_value teid a b None) = Ok (teid_read (teid, a, b))"
  "ipv6_ok b \<Longrightarrow> ue_ip_parse (smf_ue_ip_value a b (\<not> source)) = Ok (ue_read (a, b, source))"
proof -
  assume b: "ipv6_ok b"
  show "f_seid_parse (smf_f_seid_value seid a b) = Ok \<lparr>fs_seid = seid, fs_ipv4 = a, fs_ipv6 = b\<rparr>"
    unfolding smf_values_upf by (rule f_seid_roundtrip) (use b in \<open>simp add: ipv6_ok_def\<close>)
  have "f_teid_parse (f_teid_value f) = Ok (f_teid_read f)" if "ft_ipv6 f = b" for f
    by (rule f_teid_roundtrip) (use b that in \<open>simp add: ipv6_ok_def\<close>)
  then show "f_teid_parse (smf_f_teid_value teid a b None) = Ok (teid_read (teid, a, b))"
    unfolding smf_values_upf by (simp add: f_teid_read_def teid_read_def)
  have "ue_ip_parse (ue_ip_value u src) = Ok \<lparr>pa_ipv4 = ue_ipv4_addr u, pa_ipv6 = b, pa_ipv6_prefix_len = (if b \<noteq> None then 64 else 0),
      pa_source = (\<not> src), pa_destination = src\<rparr>" if "ue_ipv6_addr u = b" for u src
    using ue_ip_read [of u src] b that by (simp add: ipv6_ok_def)
  then show "ue_ip_parse (smf_ue_ip_value a b (\<not> source)) = Ok (ue_read (a, b, source))"
    unfolding smf_values_upf ue_read_def by simp
qed

lemma sdf_read:
  assumes "length s + 4 < 65536" and "rust_str s"
  shows "4 \<le> length (smf_sdf_value (Some s) None None None None)" "sdf_flow_description (smf_sdf_value (Some s) None None None None) = Some s"
proof -
  let ?v = "smf_sdf_value (Some s) None None None None"
  have v: "?v = [1, 0] @ to_be16 (of_nat (length s)) @ s" by (simp add: smf_sdf_value_def flag_def opt_octets_def)
  have len: "be16_at ?v 2 = of_nat (length s)"
    using be_at_put(3) [of "of_nat (length s)" s] by (simp add: v be16_at_def)
  have "unat (of_nat (length s) :: u16) = length s" using assms(1) by (simp add: unat_of_nat take_bit_nat_eq_self)
  then show "4 \<le> length ?v" "sdf_flow_description ?v = Some s"
    using assms(2) by (simp_all add: sdf_flow_description_def Let_def len rust_str_def) (simp_all add: v)
qed

text \<open>A Create PDR element. Of several SDF filters the UPF takes the first.\<close>

definition pdi_read :: "PdrParams \<Rightarrow> ParsedPdi" where
  "pdi_read p =
     \<lparr>pdi_source_interface = bp_source_interface p, pdi_local_f_teid = map_option teid_read (bp_f_teid p),
      pdi_network_instance = bp_network_instance p, pdi_ue_ip_address = map_option ue_read (bp_ue_ip_address p),
      pdi_qfi = bp_qfi p, pdi_sdf_flow_description = (case bp_sdf_filters p of [] \<Rightarrow> None | sdf # _ \<Rightarrow> Some sdf)\<rparr>"

definition pdr_read :: "PdrParams \<Rightarrow> ParsedCreatePdr" where
  "pdr_read p =
     \<lparr>pp_pdr_id = bp_pdr_id p, pp_precedence = bp_precedence p, pp_pdi = pdi_read p,
      pp_outer_header_removal = bp_outer_header_removal p, pp_far_id = bp_far_id p, pp_urr_ids = bp_urr_ids p, pp_qer_id = bp_qer_id p\<rparr>"

definition pdr_wf :: "PdrParams \<Rightarrow> bool" where
  "pdr_wf p \<longleftrightarrow>
     (\<forall>x. bp_f_teid p = Some x \<longrightarrow> ipv6_ok (snd (snd x))) \<and> (\<forall>x. bp_ue_ip_address p = Some x \<longrightarrow> ipv6_ok (fst (snd x))) \<and>
     (\<forall>sdf \<in> set (bp_sdf_filters p). rust_str sdf) \<and> (\<forall>n. bp_network_instance p = Some n \<longrightarrow> rust_str n) \<and>
     length (build_create_pdr p) < 65536"

lemma pdi_bound:
  assumes "pdr_wf p"
  shows "length (tlvs (pdi_ies p)) < 65536"
    and "sdf \<in> set (bp_sdf_filters p) \<Longrightarrow> length sdf + 4 < 65536"
proof -
  have "(PDI, tlvs (pdi_ies p)) \<in> set (pdr_ies p)" by (simp add: pdr_ies_def)
  then show pdi: "length (tlvs (pdi_ies p)) < 65536"
    using tlvs_member assms by (force simp: pdr_wf_def build_create_pdr_tlvs)
  assume "sdf \<in> set (bp_sdf_filters p)"
  then have "(SDF_FILTER, smf_sdf_value (Some sdf) None None None None) \<in> set (pdi_ies p)" by (simp add: pdi_ies_def)
  from tlvs_member [OF this] pdi show "length sdf + 4 < 65536" by (simp add: smf_sdf_value_def Let_def opt_octets_def)
qed

lemma create_pdr_read:
  assumes "pdr_wf p"
  shows "parse_create_pdr (build_create_pdr p) = Ok (pdr_read p)"
proof -
  note bound = pdi_bound [OF assms]
  have f: "ie_parsed (parse_all (tlvs (pdi_ies p))) F_TEID f_teid_parse = Ok (map_option teid_read (bp_f_teid p))"
    using assms unfolding ie_parsed_tlvs [OF bound(1)]
    by (cases "bp_f_teid p") (auto simp: pdi_ies_def map_add_def pfcp_ie pdr_wf_def smf_values_read)
  have u: "ie_parsed (parse_all (tlvs (pdi_ies p))) UE_IP_ADDRESS ue_ip_parse = Ok (map_option ue_read (bp_ue_ip_address p))"
    using assms unfolding ie_parsed_tlvs [OF bound(1)]
    by (cases "bp_ue_ip_address p") (auto simp: pdi_ies_def map_add_def pfcp_ie pdr_wf_def smf_values_read split: option.split)
  have s: "ie_field (parse_all (tlvs (pdi_ies p))) SDF_FILTER 4 sdf_flow_description None =
      (case bp_sdf_filters p of [] \<Rightarrow> None | sdf # _ \<Rightarrow> Some sdf)"
  proof (cases "bp_sdf_filters p")
    case (Cons sdf rest)
    then show ?thesis
      using sdf_read [of sdf] bound(2) [of sdf] assms unfolding ie_field_tlvs [OF bound(1)]
      by (auto simp: pdi_ies_def map_add_def pfcp_ie pdr_wf_def split: option.split)
  next
    case Nil
    then show ?thesis unfolding ie_field_tlvs [OF bound(1)] by (auto simp: pdi_ies_def map_add_def pfcp_ie split: option.split)
  qed
  have n: "map_option (\<lambda>ie. from_utf8_lossy (ie_value ie)) (find_ie (parse_all (tlvs (pdi_ies p))) NETWORK_INSTANCE) = bp_network_instance p"
    unfolding find_ie_tlvs [OF bound(1)] using lossy_instance [of "bp_network_instance p"] assms
    by (cases "bp_network_instance p") (simp_all add: pdi_ies_def map_add_def pfcp_ie pdr_wf_def ie_of_def)
  have i: "ie_field (parse_all (tlvs (pdi_ies p))) SOURCE_INTERFACE 1 (\<lambda>v. v ! 0) 0 = bp_source_interface p"
    unfolding ie_field_tlvs [OF bound(1)] by (simp add: pdi_ies_def map_add_def pfcp_ie)
  have q: "ie_field (parse_all (tlvs (pdi_ies p))) QFI 1 (\<lambda>v. Some (v ! 0)) None = bp_qfi p"
    unfolding ie_field_tlvs [OF bound(1)] by (cases "bp_qfi p") (simp_all add: pdi_ies_def map_add_def pfcp_ie)
  have "parse_pdi (tlvs (pdi_ies p)) = Ok (pdi_read p)"
    by (simp only: parse_pdi_def Let_def f u s n i q pdi_read_def obind_simps)
  moreover have "length (tlvs (pdr_ies p)) < 65536" using assms by (simp add: pdr_wf_def build_create_pdr_tlvs)
  note all = this
  have urrs: "map (\<lambda>ie. be32_at (ie_value ie) 0) (filter (\<lambda>ie. 4 \<le> length (ie_value ie)) (find_all_ies (parse_all (tlvs (pdr_ies p))) URR_ID)) =
      bp_urr_ids p"
  proof -
    have step: "map (\<lambda>ie. be32_at (ie_value ie) 0) (filter (\<lambda>ie. 4 \<le> length (ie_value ie)) ies) =
        map (\<lambda>v. be32_at v 0) (filter (\<lambda>v. 4 \<le> length v) (map ie_value ies))" for ies
      by (induction ies) simp_all
    show ?thesis
      unfolding step find_all_tlvs [OF all] by (simp add: pdr_ies_def pfcp_ie comp_def filter_map)
  qed
  ultimately show ?thesis
    unfolding build_create_pdr_tlvs parse_create_pdr_def Let_def reads_tlvs [OF all] urrs pdr_read_def
    by (auto simp: pdr_ies_def map_add_def pfcp_ie split: option.split)
qed

text \<open>Outer headers: the description says which addresses follow.\<close>

definition ohc_wf :: "outer_header \<Rightarrow> bool" where
  "ohc_wf = (\<lambda>(desc, teid, ipv4, ipv6).
     (desc AND 0x0100 \<noteq> 0 \<longleftrightarrow> ipv4 \<noteq> None) \<and> (desc AND 0x0200 \<noteq> 0 \<longleftrightarrow> ipv6 \<noteq> None) \<and> (ipv4 \<noteq> None \<or> ipv6 \<noteq> None) \<and> ipv6_ok ipv6)"

definition ohc_read :: "outer_header \<Rightarrow> ParsedOuterHeaderCreation" where
  "ohc_read = (\<lambda>(desc, teid, ipv4, ipv6).
     \<lparr>oh_description = desc, oh_teid = teid, oh_ipv4 = ipv4, oh_ipv6 = ipv6, oh_port = None\<rparr>)"

lemma ohc_roundtrip:
  assumes "ohc_wf h"
  shows "ohc_parse (ohc_octets h) = Ok (ohc_read h)"
proof -
  obtain desc teid a b where h: "h = (desc, teid, a, b)" by (cases h)
  have wf: "desc AND 0x0100 \<noteq> 0 \<longleftrightarrow> a \<noteq> None" "desc AND 0x0200 \<noteq> 0 \<longleftrightarrow> b \<noteq> None" "a \<noteq> None \<or> b \<noteq> None"
    "\<And>x. b = Some x \<Longrightarrow> length x = 16"
    using assms by (auto simp: ohc_wf_def h ipv6_ok_def)
  let ?v = "ohc_octets h"
  have v: "?v = to_be16 desc @ to_be32 teid @ opt_octets to_be32 a @ opt_octets id b" by (simp add: ohc_octets_def h smf_ohc_value_def)
  have "be16_at ?v 0 = desc" "drop 2 ?v = to_be32 teid @ opt_octets to_be32 a @ opt_octets id b" "\<not> length ?v < 2"
    by (simp_all add: v)
  then show ?thesis
    using take_put(1) [of a _ "opt_octets id b"] take_put(2) [of b _ "[]"] wf
    unfolding ohc_parse_def Let_def by (simp add: ohc_read_def h)
qed

definition forwarding_read :: "FarParams \<Rightarrow> ParsedForwardingParameters" where
  "forwarding_read p =
     \<lparr>fp_destination_interface = (case bf_destination_interface p of None \<Rightarrow> 0 | Some i \<Rightarrow> i),
      fp_network_instance = bf_network_instance p, fp_outer_header_creation = map_option ohc_read (bf_outer_header_creation p)\<rparr>"

definition far_read :: "FarParams \<Rightarrow> ParsedCreateFar" where
  "far_read p =
     \<lparr>pf_far_id = bf_far_id p, pf_apply_action = bf_apply_action p,
      pf_forwarding_parameters = (if bf_apply_action p AND FORW \<noteq> 0 then Some (forwarding_read p) else None), pf_bar_id = None\<rparr>"

definition far_wf :: "FarParams \<Rightarrow> bool" where
  "far_wf p \<longleftrightarrow>
     (\<forall>h. bf_outer_header_creation p = Some h \<longrightarrow> ohc_wf h) \<and> (\<forall>n. bf_network_instance p = Some n \<longrightarrow> rust_str n) \<and>
     length (build_create_far p) < 65536"

lemma forwarding_parsed:
  assumes "far_wf p" and "length (tlvs (forwarding_ies p)) < 65536"
  shows "parse_forwarding_parameters (tlvs (forwarding_ies p)) = Ok (forwarding_read p)"
proof -
  have "ie_parsed (parse_all (tlvs (forwarding_ies p))) OUTER_HEADER_CREATION ohc_parse =
      Ok (map_option ohc_read (bf_outer_header_creation p))"
    using assms(1) unfolding ie_parsed_tlvs [OF assms(2)]
    by (cases "bf_outer_header_creation p") (auto simp: forwarding_ies_def map_add_def pfcp_ie far_wf_def ohc_roundtrip split: option.split)
  moreover have "map_option (\<lambda>ie. from_utf8_lossy (ie_value ie)) (find_ie (parse_all (tlvs (forwarding_ies p))) NETWORK_INSTANCE) =
      bf_network_instance p"
    unfolding find_ie_tlvs [OF assms(2)] using lossy_instance [of "bf_network_instance p"] assms(1)
    by (cases "bf_network_instance p") (simp_all add: forwarding_ies_def map_add_def pfcp_ie far_wf_def ie_of_def)
  moreover have "ie_field (parse_all (tlvs (forwarding_ies p))) DESTINATION_INTERFACE 1 (\<lambda>v. v ! 0) 0 =
      (case bf_destination_interface p of None \<Rightarrow> 0 | Some i \<Rightarrow> i)"
    unfolding ie_field_tlvs [OF assms(2)] by (cases "bf_destination_interface p") (simp_all add: forwarding_ies_def map_add_def pfcp_ie)
  ultimately show ?thesis
    by (simp only: parse_forwarding_parameters_def Let_def forwarding_read_def obind_simps)
qed

lemma create_far_read:
  assumes "far_wf p"
  shows "parse_create_far (build_create_far p) = Ok (far_read p)"
proof -
  have all: "length (tlvs (far_ies p)) < 65536" using assms by (simp add: far_wf_def build_create_far_tlvs)
  have fp: "parse_forwarding_parameters (tlvs (forwarding_ies p)) = Ok (forwarding_read p)" if "bf_apply_action p AND FORW \<noteq> 0"
  proof (rule forwarding_parsed [OF assms])
    have "(FORWARDING_PARAMETERS, tlvs (forwarding_ies p)) \<in> set (far_ies p)" using that by (simp add: far_ies_def)
    from tlvs_member [OF this] all show "length (tlvs (forwarding_ies p)) < 65536" by simp
  qed
  show ?thesis
  proof (cases "bf_apply_action p AND FORW = 0")
    case True
    then show ?thesis
      unfolding build_create_far_tlvs parse_create_far_def Let_def reads_tlvs [OF all] far_read_def
      by (simp add: far_ies_def pfcp_ie)
  next
    case False
    then show ?thesis
      using fp unfolding build_create_far_tlvs parse_create_far_def Let_def reads_tlvs [OF all] far_read_def
      by (simp add: far_ies_def pfcp_ie)
  qed
qed

text \<open>Update FAR elements: activation towards a tunnel, and deactivation.\<close>

definition activate_read :: "u32 \<Rightarrow> u8 \<Rightarrow> outer_header option \<Rightarrow> ParsedCreateFar" where
  "activate_read i dst ohc =
     \<lparr>pf_far_id = i, pf_apply_action = FORW,
      pf_forwarding_parameters = Some \<lparr>fp_destination_interface = dst, fp_network_instance = None,
        fp_outer_header_creation = map_option ohc_read ohc\<rparr>,
      pf_bar_id = None\<rparr>"

definition deactivate_read :: "u32 \<Rightarrow> ParsedCreateFar" where
  "deactivate_read i = \<lparr>pf_far_id = i, pf_apply_action = BUFF OR NOCP, pf_forwarding_parameters = None, pf_bar_id = None\<rparr>"

lemma ohc_length: "ohc_wf h \<Longrightarrow> length (ohc_octets h) \<le> 26"
proof -
  assume wf: "ohc_wf h"
  obtain desc teid a b where h: "h = (desc, teid, a, b)" by (cases h)
  then have "length (opt_octets id b) \<le> 16" using wf opt_octets_bound(2) [of b] by (simp add: ohc_wf_def ipv6_ok_def)
  then show "length (ohc_octets h) \<le> 26" using opt_octets_bound(1) [of a] by (simp add: h ohc_octets_def smf_ohc_value_def)
qed

lemma update_far_read:
  assumes "\<forall>h. ohc = Some h \<longrightarrow> ohc_wf h"
  shows "parse_create_far (build_update_far_activate i dst ohc em) = Ok (activate_read i dst ohc)"
    and "parse_create_far (build_update_far_deactivate i) = Ok (deactivate_read i)"
    and "length (build_update_far_activate i dst ohc em) < 100" and "length (build_update_far_deactivate i) < 100"
proof -
  let ?fp = "[(DESTINATION_INTERFACE, [dst])] @ opt_ie OUTER_HEADER_CREATION ohc_octets ohc"
  have fp: "length (tlvs ?fp) \<le> 35" using assms ohc_length by (auto simp: opt_ie_def split: option.split)
  then show len: "length (build_update_far_activate i dst ohc em) < 100" unfolding build_update_far_tlvs by (simp add: activate_ies_def)
  then have all: "length (tlvs (activate_ies i dst ohc)) < 65536" unfolding build_update_far_tlvs by simp
  have short: "length (tlvs ?fp) < 65536" using fp by simp
  have "ie_parsed (parse_all (tlvs ?fp)) OUTER_HEADER_CREATION ohc_parse = Ok (map_option ohc_read ohc)"
    using assms unfolding ie_parsed_tlvs [OF short] by (cases ohc) (simp_all add: map_add_def pfcp_ie ohc_roundtrip)
  then have "parse_forwarding_parameters (tlvs ?fp) =
      Ok \<lparr>fp_destination_interface = dst, fp_network_instance = None, fp_outer_header_creation = map_option ohc_read ohc\<rparr>"
    unfolding parse_forwarding_parameters_def Let_def reads_tlvs [OF short] by (simp add: map_add_def pfcp_ie split: option.split)
  then show "parse_create_far (build_update_far_activate i dst ohc em) = Ok (activate_read i dst ohc)"
    unfolding build_update_far_tlvs parse_create_far_def Let_def reads_tlvs [OF all] activate_read_def
    by (simp add: activate_ies_def pfcp_ie)
  show d: "length (build_update_far_deactivate i) < 100" unfolding build_update_far_tlvs by simp
  then have short_d: "length (tlvs [(FAR_ID, to_be32 i), (APPLY_ACTION, to_be16 (BUFF OR NOCP))]) < 65536"
    unfolding build_update_far_tlvs by simp
  show "parse_create_far (build_update_far_deactivate i) = Ok (deactivate_read i)"
    unfolding build_update_far_tlvs parse_create_far_def Let_def reads_tlvs [OF short_d] deactivate_read_def by (simp add: pfcp_ie)
qed

text \<open>
  Rates below the largest that five octets of kbit/s can carry come out as the next multiple of 1000 bit/s. An absent rate is read
  as 0, and of a QFI the low six bits are kept.
\<close>

definition rate_ok :: "u64 \<Rightarrow> bool" where
  "rate_ok x \<longleftrightarrow> unat x \<le> 1000 * (2 ^ 40 - 1)"

definition rate_read :: "u64 \<Rightarrow> u64" where
  "rate_read x = 1000 * div_ceil_1000 x"

lemma ceil_div: "(n + 999) div 1000 = n div 1000 + (if n mod 1000 = 0 then 0 else 1)" for n :: nat
proof -
  have "(r + 999) div 1000 = (if r = 0 then 0 else 1)" if "r < 1000" for r :: nat
    using that by (auto intro: div_nat_eqI)
  moreover have "(n + 999) div 1000 = n div 1000 + (n mod 1000 + 999) div 1000"
    using div_mult_self4 [of 1000 "n div 1000" "n mod 1000 + 999"] by (simp flip: add.assoc)
  ultimately show ?thesis by simp
qed

lemma div_ceil_bound:
  assumes "rate_ok x"
  shows "unat (div_ceil_1000 x) = (unat x + 999) div 1000" and "unat (div_ceil_1000 x) < 2 ^ 40"
proof -
  let ?q = "unat x div 1000"
  have le: "unat x \<le> 1000 * (2 ^ 40 - 1)" using assms by (simp add: rate_ok_def)
  then have q: "?q \<le> 2 ^ 40 - 1" by (rule div_le_mono [of _ _ 1000, THEN order_trans]) simp
  have k: "unat (1000 :: u64) = 1000" by simp
  have zero: "x mod 1000 = 0 \<longleftrightarrow> unat x mod 1000 = 0"
    unfolding word_unat_eq_iff unat_mod_distrib k by simp
  have d: "unat (x div 1000) = ?q" unfolding unat_div_distrib k ..
  show "unat (div_ceil_1000 x) = (unat x + 999) div 1000"
  proof (cases "unat x mod 1000 = 0")
    case True
    then show ?thesis using zero d ceil_div [of "unat x"] by (simp add: div_ceil_1000_def)
  next
    case False
    moreover have "unat (x div 1000 + 1) = ?q + 1" using d q by (simp add: unat_word_ariths)
    ultimately show ?thesis using zero ceil_div [of "unat x"] by (simp add: div_ceil_1000_def)
  qed
  then show "unat (div_ceil_1000 x) < 2 ^ 40" using le by simp
qed

lemma length_rate_octets [simp]: "length (rate_octets x) = 5"
  by (simp add: rate_octets_def to_be64_def)

lemma top_octets:
  assumes "to_be64 w = [a, b, c, d, e, f, g, h]" and "\<And>n. \<not> bit w (40 + n)"
  shows "a = 0 \<and> b = 0 \<and> c = 0"
proof -
  have off: "\<not> bit w (40 + n)" "\<not> bit w (48 + n)" "\<not> bit w (56 + n)" for n
    using assms(2) [of n] assms(2) [of "8 + n"] assms(2) [of "16 + n"] by simp_all
  have "a = ucast (drop_bit 56 w)" "b = ucast (drop_bit 48 w)" "c = ucast (drop_bit 40 w)"
    using assms(1) by (auto simp: to_be64_def to_be32_def to_be16_def intro!: bit_word_eqI simp: bit_simps ac_simps)
  then show ?thesis by (auto intro!: bit_word_eqI simp: bit_simps off)
qed

lemma rate_at_octets:
  assumes "rate_ok x"
  shows "rate_at (rate_octets x @ r) 0 = rate_read x" and "length l = 5 \<Longrightarrow> rate_at (l @ rate_octets x @ r) 5 = rate_read x"
proof -
  obtain a b c d e f g h where o8: "to_be64 (div_ceil_1000 x) = [a, b, c, d, e, f, g, h]" by (rule to_be64_octets)
  have k: "div_ceil_1000 x = from_be64 a b c d e f g h"
    using be_at_put(2) [of "div_ceil_1000 x" "[]"] unfolding o8 by (simp add: be64_at_def)
  have "take_bit 40 (div_ceil_1000 x) = div_ceil_1000 x"
    using div_ceil_bound(2) [OF assms] by (simp add: word_unat_eq_iff unat_take_bit_mod)
  then have "bit (div_ceil_1000 x) n \<Longrightarrow> n < 40" for n by (metis bit_take_bit_iff)
  then have "\<not> bit (div_ceil_1000 x) (40 + n)" for n by fastforce
  then have top: "a = 0 \<and> b = 0 \<and> c = 0" using top_octets [OF o8] by simp
  have low: "from_be64 0 0 0 d e f g h = div_ceil_1000 x" using k top by simp
  have "unat (div_ceil_1000 x) * 1000 < 2 ^ 64" using div_ceil_bound(2) [OF assms] by simp
  then have "saturating_mul (from_be64 0 0 0 d e f g h) 1000 = rate_read x"
    unfolding low by (simp add: saturating_mul_def rate_read_def mult.commute)
  moreover have "rate_octets x = [d, e, f, g, h]" by (simp add: rate_octets_def o8)
  ultimately show "rate_at (rate_octets x @ r) 0 = rate_read x" "length l = 5 \<Longrightarrow> rate_at (l @ rate_octets x @ r) 5 = rate_read x"
    by (simp_all add: rate_at_def nth_append)
qed

definition qer_read :: "QerParams \<Rightarrow> ParsedCreateQer" where
  "qer_read p =
     \<lparr>pq_qer_id = bq_qer_id p, pq_ul_gate = snd (bq_gate_status p) AND 0x03, pq_dl_gate = fst (bq_gate_status p) AND 0x03,
      pq_ul_mbr = (case bq_mbr p of None \<Rightarrow> 0 | Some (ul, dl) \<Rightarrow> rate_read ul),
      pq_dl_mbr = (case bq_mbr p of None \<Rightarrow> 0 | Some (ul, dl) \<Rightarrow> rate_read dl),
      pq_ul_gbr = (case bq_gbr p of None \<Rightarrow> 0 | Some (ul, dl) \<Rightarrow> rate_read ul),
      pq_dl_gbr = (case bq_gbr p of None \<Rightarrow> 0 | Some (ul, dl) \<Rightarrow> rate_read dl),
      pq_qfi = map_option (\<lambda>q. q AND 0x3F) (bq_qfi p)\<rparr>"

definition qer_wf :: "QerParams \<Rightarrow> bool" where
  "qer_wf p \<longleftrightarrow>
     (\<forall>r. bq_mbr p = Some r \<longrightarrow> rate_ok (fst r) \<and> rate_ok (snd r)) \<and> (\<forall>r. bq_gbr p = Some r \<longrightarrow> rate_ok (fst r) \<and> rate_ok (snd r))"

lemma gates_read: "drop_bit 2 (gate_octet g) AND 0x03 = snd g AND 0x03" "gate_octet g AND 0x03 = fst g AND 0x03"
proof -
  have three: "x AND 3 = take_bit 2 x" for x :: u8 by (simp add: take_bit_eq_mask mask_eq_exp_minus_1)
  have "drop_bit 2 (take_bit 2 d OR push_bit 2 (take_bit 2 u)) = take_bit 2 u"
    "take_bit 2 (take_bit 2 d OR push_bit 2 (take_bit 2 u)) = take_bit 2 d" for d u :: u8
    by (rule bit_word_eqI; auto simp: bit_simps)+
  then show "drop_bit 2 (gate_octet g) AND 0x03 = snd g AND 0x03" "gate_octet g AND 0x03 = fst g AND 0x03"
    by (cases g; simp add: gate_octet_def three)+
qed

lemma rates_read:
  assumes "\<forall>r. x = Some r \<longrightarrow> rate_ok (fst r) \<and> rate_ok (snd r)"
  shows "(case map_option pair_octets x of None \<Rightarrow> 0 | Some v \<Rightarrow> if 10 \<le> length v then rate_at v 0 else 0) =
      (case x of None \<Rightarrow> 0 | Some (ul, dl) \<Rightarrow> rate_read ul)"
    and "(case map_option pair_octets x of None \<Rightarrow> 0 | Some v \<Rightarrow> if 10 \<le> length v then rate_at v 5 else 0) =
      (case x of None \<Rightarrow> 0 | Some (ul, dl) \<Rightarrow> rate_read dl)"
proof -
  have "rate_at (pair_octets r) 0 = rate_read (fst r)" "rate_at (pair_octets r) 5 = rate_read (snd r)" "length (pair_octets r) = 10"
    if "rate_ok (fst r)" "rate_ok (snd r)" for r
    using rate_at_octets(1) [OF that(1), of "rate_octets (snd r)"] rate_at_octets(2) [OF that(2), of "rate_octets (fst r)" "[]"]
    by (simp_all add: pair_octets_def case_prod_unfold)
  then show "(case map_option pair_octets x of None \<Rightarrow> 0 | Some v \<Rightarrow> if 10 \<le> length v then rate_at v 0 else 0) =
      (case x of None \<Rightarrow> 0 | Some (ul, dl) \<Rightarrow> rate_read ul)"
    "(case map_option pair_octets x of None \<Rightarrow> 0 | Some v \<Rightarrow> if 10 \<le> length v then rate_at v 5 else 0) =
      (case x of None \<Rightarrow> 0 | Some (ul, dl) \<Rightarrow> rate_read dl)"
    using assms by (cases x; simp add: case_prod_unfold)+
qed

lemma create_qer_read:
  assumes "qer_wf p"
  shows "parse_create_qer (build_create_qer p) = Ok (qer_read p)" and "length (build_create_qer p) < 100"
proof -
  show len: "length (build_create_qer p) < 100"
    unfolding build_create_qer_tlvs by (simp add: qer_ies_def opt_ie_def pair_octets_def split: option.split prod.split)
  then have all: "length (tlvs (qer_ies p)) < 65536" unfolding build_create_qer_tlvs by simp
  have get: "map_of (qer_ies p) QER_ID = Some (to_be32 (bq_qer_id p))" "map_of (qer_ies p) GATE_STATUS = Some [gate_octet (bq_gate_status p)]"
    "map_of (qer_ies p) MBR = map_option pair_octets (bq_mbr p)" "map_of (qer_ies p) GBR = map_option pair_octets (bq_gbr p)"
    "map_of (qer_ies p) QFI = map_option (\<lambda>q. [q]) (bq_qfi p)"
    by (simp_all add: qer_ies_def map_add_def pfcp_ie split: option.split)
  have mbr: "\<forall>r. bq_mbr p = Some r \<longrightarrow> rate_ok (fst r) \<and> rate_ok (snd r)" and gbr: "\<forall>r. bq_gbr p = Some r \<longrightarrow> rate_ok (fst r) \<and> rate_ok (snd r)"
    using assms by (simp_all add: qer_wf_def)
  show "parse_create_qer (build_create_qer p) = Ok (qer_read p)"
    unfolding build_create_qer_tlvs parse_create_qer_def Let_def reads_tlvs [OF all] get qer_read_def rates_read [OF mbr] rates_read [OF gbr]
    by (simp add: gates_read split: option.split)
qed

text \<open>
  Usage reporting rules: the UPF takes the triggers from the first of the three octets, which are bits 16 to 18 of the number that
  the SMF is given. Quotas are not read.
\<close>

definition urr_read :: "UrrParams \<Rightarrow> ParsedCreateUrr" where
  "urr_read p =
     (let (duration, volume, event) = bu_measurement_method p;
          (tot, ul, dl) = (case bu_volume_threshold p of None \<Rightarrow> (None, None, None) | Some v \<Rightarrow> v)
      in \<lparr>pu_urr_id = bu_urr_id p, pu_measure_duration = duration, pu_measure_volume = volume,
          pu_trigger_periodic = bit (bu_reporting_triggers p) 16, pu_trigger_volume_threshold = bit (bu_reporting_triggers p) 17,
          pu_trigger_time_threshold = bit (bu_reporting_triggers p) 18,
          pu_volume_threshold_total = tot, pu_volume_threshold_ul = ul, pu_volume_threshold_dl = dl,
          pu_time_threshold_secs = bu_time_threshold p\<rparr>)"

lemma flags3_read:
  "(flag a 1 OR (flag b 2 OR flag c 4) :: u8) AND 1 = 0 \<longleftrightarrow> \<not> a" "(flag a 1 OR (flag b 2 OR flag c 4) :: u8) AND 2 = 0 \<longleftrightarrow> \<not> b"
  "(flag a 1 OR (flag b 2 OR flag c 4) :: u8) AND 4 = 0 \<longleftrightarrow> \<not> c"
  by (cases a; cases b; cases c; simp add: flag_def)+

lemma volume_read: "volume_thresholds (volume_octets v) = v" "1 \<le> length (volume_octets v)" "length (volume_octets v) \<le> 25"
proof -
  obtain x y z where v: "v = (x, y, z)" by (cases v)
  have step: "take_threshold (a \<noteq> None) (opt_octets to_be64 a @ r) = (a, r)" for a r
    by (cases a) (simp_all add: take_threshold_def opt_octets_def)
  show "volume_thresholds (volume_octets v) = v"
    using step [of x "opt_octets to_be64 y @ opt_octets to_be64 z"] step [of y "opt_octets to_be64 z"] step [of z "[]"]
    unfolding v volume_octets_def smf_volume_value_def volume_thresholds_def Let_def prod.case
    by (simp add: or.assoc flags3_read)
  have "length (opt_octets to_be64 a) \<le> 8" for a by (simp add: opt_octets_def split: option.split)
  from this [of x] this [of y] this [of z] show "1 \<le> length (volume_octets v)" "length (volume_octets v) \<le> 25"
    by (simp_all add: v volume_octets_def smf_volume_value_def Let_def)
qed

lemma triggers_read:
  "low24 t ! 0 AND 1 \<noteq> 0 \<longleftrightarrow> bit t 16" "low24 t ! 0 AND 2 \<noteq> 0 \<longleftrightarrow> bit t 17" "low24 t ! 0 AND 4 \<noteq> 0 \<longleftrightarrow> bit t 18"
proof -
  have "(x AND 1 \<noteq> 0 \<longleftrightarrow> bit x 0) \<and> (x AND 2 \<noteq> 0 \<longleftrightarrow> bit x 1) \<and> (x AND 4 \<noteq> 0 \<longleftrightarrow> bit x 2)" for x :: u8
    using and_exp_eq_0_iff_not_bit [of x 0] and_exp_eq_0_iff_not_bit [of x 1] and_exp_eq_0_iff_not_bit [of x 2] by simp
  from this [of "low24 t ! 0"]
  show "low24 t ! 0 AND 1 \<noteq> 0 \<longleftrightarrow> bit t 16" "low24 t ! 0 AND 2 \<noteq> 0 \<longleftrightarrow> bit t 17" "low24 t ! 0 AND 4 \<noteq> 0 \<longleftrightarrow> bit t 18"
    by (simp_all add: low24_def bit_simps)
qed

lemma length_low24 [simp]: "length (low24 t) = 3"
  by (simp add: low24_def)

lemma create_urr_read: "parse_create_urr (build_create_urr p) = Ok (urr_read p)" and create_urr_short: "length (build_create_urr p) < 200"
proof -
  have vol: "length (tlvs (opt_ie t volume_octets x)) \<le> 29" for t x
    using volume_read(3) by (cases x) (simp_all add: opt_ie_def)
  have time: "length (tlvs (opt_ie t to_be32 x)) \<le> 8" for t x by (cases x) (simp_all add: opt_ie_def)
  have m: "length (method_octets x) = 1" for x by (cases x) (simp add: method_octets_def)
  show len: "length (build_create_urr p) < 200"
    using vol [of VOLUME_THRESHOLD "bu_volume_threshold p"] vol [of VOLUME_QUOTA "bu_volume_quota p"]
      time [of TIME_THRESHOLD "bu_time_threshold p"] time [of TIME_QUOTA "bu_time_quota p"] time [of QUOTA_VALIDITY_TIME "bu_quota_validity_time p"]
    unfolding build_create_urr_tlvs urr_ies_def by (simp add: m low24_def)
  then have all: "length (tlvs (urr_ies p)) < 65536" unfolding build_create_urr_tlvs by simp
  have get: "map_of (urr_ies p) URR_ID = Some (to_be32 (bu_urr_id p))"
    "map_of (urr_ies p) MEASUREMENT_METHOD = Some (method_octets (bu_measurement_method p))"
    "map_of (urr_ies p) REPORTING_TRIGGERS = Some (low24 (bu_reporting_triggers p))"
    "map_of (urr_ies p) VOLUME_THRESHOLD = map_option volume_octets (bu_volume_threshold p)"
    "map_of (urr_ies p) TIME_THRESHOLD = map_option to_be32 (bu_time_threshold p)"
    by (simp_all add: urr_ies_def map_add_def pfcp_ie smf_ie split: option.split)
  obtain d v e where meth: "bu_measurement_method p = (d, v, e)" by (cases "bu_measurement_method p")
  have one_octet: "method_octets (d, v, e) = [flag d 1 OR (flag v 2 OR flag e 4)]" by (simp add: method_octets_def or.assoc)
  have threshold: "(case map_option volume_octets x of None \<Rightarrow> (None, None, None) | Some v \<Rightarrow> if 1 \<le> length v then volume_thresholds v else (None, None, None)) =
      (case x of None \<Rightarrow> (None, None, None) | Some v \<Rightarrow> v)" for x
    using volume_read(1,2) by (cases x) simp_all
  have seconds: "(case map_option to_be32 x of None \<Rightarrow> None | Some v \<Rightarrow> if 4 \<le> length v then Some (be32_at v 0) else None) = x" for x
    by (cases x) simp_all
  show "parse_create_urr (build_create_urr p) = Ok (urr_read p)"
    unfolding build_create_urr_tlvs parse_create_urr_def Let_def reads_tlvs [OF all] get urr_read_def threshold seconds meth one_octet
    by (simp add: flags3_read triggers_read [simplified] length_low24 split: prod.split)
qed

definition bar_read :: "BarParams \<Rightarrow> ParsedCreateBar" where
  "bar_read p =
     \<lparr>pb_bar_id = bb_bar_id p, pb_suggested_buffering_packets_count = bb_suggested_buffering_packets_count p,
      pb_ddn_delay = bb_downlink_data_notification_delay p\<rparr>"

lemma create_bar_read: "parse_create_bar (build_create_bar p) = Ok (bar_read p)" and create_bar_short: "length (build_create_bar p) < 100"
proof -
  have "length (tlvs (opt_ie t (\<lambda>d. [d]) x)) \<le> 5" for t and x :: "u8 option" by (cases x) (simp_all add: opt_ie_def)
  from this [of DOWNLINK_DATA_NOTIFICATION_DELAY "bb_downlink_data_notification_delay p"]
    this [of SUGGESTED_BUFFERING_PACKETS_COUNT "bb_suggested_buffering_packets_count p"]
  show len: "length (build_create_bar p) < 100" unfolding build_create_bar_tlvs bar_ies_def by simp
  then have all: "length (tlvs (bar_ies p)) < 65536" unfolding build_create_bar_tlvs by simp
  have get: "map_of (bar_ies p) BAR_ID = Some [bb_bar_id p]"
    "map_of (bar_ies p) DOWNLINK_DATA_NOTIFICATION_DELAY = map_option (\<lambda>d. [d]) (bb_downlink_data_notification_delay p)"
    "map_of (bar_ies p) SUGGESTED_BUFFERING_PACKETS_COUNT = map_option (\<lambda>d. [d]) (bb_suggested_buffering_packets_count p)"
    by (simp_all add: bar_ies_def map_add_def pfcp_ie split: option.split)
  show "parse_create_bar (build_create_bar p) = Ok (bar_read p)"
    unfolding build_create_bar_tlvs parse_create_bar_def Let_def reads_tlvs [OF all] get bar_read_def
    by (cases "bb_downlink_data_notification_delay p"; cases "bb_suggested_buffering_packets_count p") (simp_all add: ie_of_def)
qed

end
