(* ===== verification/Pfcp_Node.thy ===== *)
theory Pfcp_Node
  imports Upf_N4
begin

text \<open>
  The node-level messages of the PFCP library (\<^verbatim>\<open>libs/nextgcore-pfcp/src\<close>: \<^verbatim>\<open>ie.rs\<close>, \<^verbatim>\<open>types.rs\<close>, \<^verbatim>\<open>message.rs\<close>): information
  elements, causes, node identifiers, function features, load control information, and the Heartbeat, Association Setup and
  Association Release messages with their encoders and decoders. A decoder is a loop over the elements of the body that ends
  with the first error; unknown elements are skipped.
\<close>

section \<open>Information elements\<close>

record IeHeader =
  eh_ie_type :: u16
  eh_length :: u16

definition ie_header_encode :: "IeHeader \<Rightarrow> bytes \<Rightarrow> bytes" where
  "ie_header_encode h buf = buf @ to_be16 (eh_ie_type h) @ to_be16 (eh_length h)"

definition ie_header_decode :: "bytes \<Rightarrow> (PfcpError, IeHeader \<times> bytes) outcome" where
  "ie_header_decode buf =
     (if length buf < 4 then Err (BufferTooShort 4 (length buf))
      else obind (get_u16 buf) (\<lambda>(t, buf). obind (get_u16 buf) (\<lambda>(len, buf). Ok (\<lparr>eh_ie_type = t, eh_length = len\<rparr>, buf))))"

record RawIe =
  raw_ie_type :: u16
  raw_data :: bytes

definition raw_ie_encode :: "RawIe \<Rightarrow> bytes \<Rightarrow> bytes" where
  "raw_ie_encode ie buf = ie_header_encode \<lparr>eh_ie_type = raw_ie_type ie, eh_length = of_nat (length (raw_data ie))\<rparr> buf @ raw_data ie"

definition raw_ie_decode :: "bytes \<Rightarrow> (PfcpError, RawIe \<times> bytes) outcome" where
  "raw_ie_decode buf =
     obind (ie_header_decode buf) (\<lambda>(h, buf).
       let n = unat (eh_length h)
       in if length buf < n then Err (BufferTooShort n (length buf))
          else Ok (\<lparr>raw_ie_type = eh_ie_type h, raw_data = take n buf\<rparr>, drop n buf))"

definition encode_u8_ie :: "u16 \<Rightarrow> u8 \<Rightarrow> bytes \<Rightarrow> bytes" where
  "encode_u8_ie t v buf = ie_header_encode \<lparr>eh_ie_type = t, eh_length = 1\<rparr> buf @ [v]"

definition encode_u32_ie :: "u16 \<Rightarrow> u32 \<Rightarrow> bytes \<Rightarrow> bytes" where
  "encode_u32_ie t v buf = ie_header_encode \<lparr>eh_ie_type = t, eh_length = 4\<rparr> buf @ to_be32 v"

text \<open>The header of an element whose value was put into a buffer of its own, and that buffer.\<close>

definition encode_grouped :: "u16 \<Rightarrow> bytes \<Rightarrow> bytes \<Rightarrow> bytes" where
  "encode_grouped t value buf = ie_header_encode \<lparr>eh_ie_type = t, eh_length = of_nat (length value)\<rparr> buf @ value"

definition CP_FUNCTION_FEATURES :: u16 where "CP_FUNCTION_FEATURES = 89"
definition UP_FEATURES :: u16 where "UP_FEATURES = 43"

text \<open>\<^verbatim>\<open>while buf.remaining() >= IeHeader::LEN { let ie = RawIe::decode(buf)?; .. }\<close>, with what the loop does with an element.\<close>

lemma raw_ie_decode_shorter: "raw_ie_decode buf = Ok (ie, rest) \<Longrightarrow> length rest < length buf"
proof -
  assume a: "raw_ie_decode buf = Ok (ie, rest)"
  then have "4 \<le> length buf" by (auto simp: raw_ie_decode_def ie_header_decode_def split: if_split_asm)
  then obtain x y z w r where "buf = x # y # z # w # r" by (auto simp: buffer_ge4)
  then show ?thesis using a by (auto simp: raw_ie_decode_def ie_header_decode_def Let_def split: if_split_asm)
qed

function decode_ies :: "(RawIe \<Rightarrow> 's \<Rightarrow> (PfcpError, 's) outcome) \<Rightarrow> bytes \<Rightarrow> 's \<Rightarrow> (PfcpError, 's) outcome" where
  "decode_ies step buf s =
     (if length buf < 4 then Ok s
      else case raw_ie_decode buf of
             Ok (ie, rest) \<Rightarrow> obind (step ie s) (decode_ies step rest)
           | Err e \<Rightarrow> Err e
           | Panic \<Rightarrow> Panic)"
  by pat_completeness auto

termination by (relation "measure (\<lambda>(_, buf, _). length buf)") (auto dest: raw_ie_decode_shorter)

declare decode_ies.simps [simp del]

section \<open>Causes\<close>

datatype (plugins only: code) LibCause =
    RequestAccepted
  | RequestRejected
  | SessionContextNotFound
  | MandatoryIeMissing
  | ConditionalIeMissing
  | InvalidLength
  | MandatoryIeIncorrect
  | InvalidForwardingPolicy
  | InvalidFTeidAllocationOption
  | NoEstablishedPfcpAssociation
  | RuleCreationModificationFailure
  | PfcpEntityInCongestion
  | NoResourcesAvailable
  | ServiceNotSupported
  | SystemFailure
  | RedirectionRequested
  | AllDynamicAddressesAreOccupied
  | UnknownPredefinedRule
  | UnknownApplicationId
  | L2tpTunnelEstablishmentFailure
  | L2tpSessionEstablishmentFailure
  | L2tpTunnelRelease
  | L2tpSessionRelease
  | PfcpSessionRestorationFailure
  | L2tpTunnelAuthFailure
  | L2tpSessionAuthFailure
  | L2tpLnsNotReachable
  | PfdContentsSyntaxError
  | PfdContentsSemanticsError
  | PfdApplicationIdUnknown

primrec lib_cause_as_u8 :: "LibCause \<Rightarrow> u8" where
  "lib_cause_as_u8 LibCause.RequestAccepted = 1"
| "lib_cause_as_u8 LibCause.RequestRejected = 64"
| "lib_cause_as_u8 LibCause.SessionContextNotFound = 65"
| "lib_cause_as_u8 LibCause.MandatoryIeMissing = 66"
| "lib_cause_as_u8 LibCause.ConditionalIeMissing = 67"
| "lib_cause_as_u8 LibCause.InvalidLength = 68"
| "lib_cause_as_u8 LibCause.MandatoryIeIncorrect = 69"
| "lib_cause_as_u8 LibCause.InvalidForwardingPolicy = 70"
| "lib_cause_as_u8 LibCause.InvalidFTeidAllocationOption = 71"
| "lib_cause_as_u8 LibCause.NoEstablishedPfcpAssociation = 72"
| "lib_cause_as_u8 LibCause.RuleCreationModificationFailure = 73"
| "lib_cause_as_u8 LibCause.PfcpEntityInCongestion = 74"
| "lib_cause_as_u8 LibCause.NoResourcesAvailable = 75"
| "lib_cause_as_u8 LibCause.ServiceNotSupported = 76"
| "lib_cause_as_u8 LibCause.SystemFailure = 77"
| "lib_cause_as_u8 LibCause.RedirectionRequested = 78"
| "lib_cause_as_u8 LibCause.AllDynamicAddressesAreOccupied = 79"
| "lib_cause_as_u8 LibCause.UnknownPredefinedRule = 80"
| "lib_cause_as_u8 LibCause.UnknownApplicationId = 81"
| "lib_cause_as_u8 LibCause.L2tpTunnelEstablishmentFailure = 82"
| "lib_cause_as_u8 LibCause.L2tpSessionEstablishmentFailure = 83"
| "lib_cause_as_u8 LibCause.L2tpTunnelRelease = 84"
| "lib_cause_as_u8 LibCause.L2tpSessionRelease = 85"
| "lib_cause_as_u8 LibCause.PfcpSessionRestorationFailure = 86"
| "lib_cause_as_u8 LibCause.L2tpTunnelAuthFailure = 87"
| "lib_cause_as_u8 LibCause.L2tpSessionAuthFailure = 88"
| "lib_cause_as_u8 LibCause.L2tpLnsNotReachable = 89"
| "lib_cause_as_u8 LibCause.PfdContentsSyntaxError = 90"
| "lib_cause_as_u8 LibCause.PfdContentsSemanticsError = 91"
| "lib_cause_as_u8 LibCause.PfdApplicationIdUnknown = 92"

definition lib_cause_try_from :: "u8 \<Rightarrow> (PfcpError, LibCause) outcome" where
  "lib_cause_try_from value =
     (if value = 1 then Ok LibCause.RequestAccepted
      else if value = 64 then Ok LibCause.RequestRejected
      else if value = 65 then Ok LibCause.SessionContextNotFound
      else if value = 66 then Ok LibCause.MandatoryIeMissing
      else if value = 67 then Ok LibCause.ConditionalIeMissing
      else if value = 68 then Ok LibCause.InvalidLength
      else if value = 69 then Ok LibCause.MandatoryIeIncorrect
      else if value = 70 then Ok LibCause.InvalidForwardingPolicy
      else if value = 71 then Ok LibCause.InvalidFTeidAllocationOption
      else if value = 72 then Ok LibCause.NoEstablishedPfcpAssociation
      else if value = 73 then Ok LibCause.RuleCreationModificationFailure
      else if value = 74 then Ok LibCause.PfcpEntityInCongestion
      else if value = 75 then Ok LibCause.NoResourcesAvailable
      else if value = 76 then Ok LibCause.ServiceNotSupported
      else if value = 77 then Ok LibCause.SystemFailure
      else if value = 78 then Ok LibCause.RedirectionRequested
      else if value = 79 then Ok LibCause.AllDynamicAddressesAreOccupied
      else if value = 80 then Ok LibCause.UnknownPredefinedRule
      else if value = 81 then Ok LibCause.UnknownApplicationId
      else if value = 82 then Ok LibCause.L2tpTunnelEstablishmentFailure
      else if value = 83 then Ok LibCause.L2tpSessionEstablishmentFailure
      else if value = 84 then Ok LibCause.L2tpTunnelRelease
      else if value = 85 then Ok LibCause.L2tpSessionRelease
      else if value = 86 then Ok LibCause.PfcpSessionRestorationFailure
      else if value = 87 then Ok LibCause.L2tpTunnelAuthFailure
      else if value = 88 then Ok LibCause.L2tpSessionAuthFailure
      else if value = 89 then Ok LibCause.L2tpLnsNotReachable
      else if value = 90 then Ok LibCause.PfdContentsSyntaxError
      else if value = 91 then Ok LibCause.PfdContentsSemanticsError
      else if value = 92 then Ok LibCause.PfdApplicationIdUnknown
      else Err (InvalidCause value))"

text \<open>An unknown cause keeps its meaning by its range.\<close>

definition cause_from_wire :: "u8 \<Rightarrow> LibCause" where
  "cause_from_wire value =
     (case lib_cause_try_from value of
        Ok c \<Rightarrow> c
      | _ \<Rightarrow> if 64 \<le> value then LibCause.RequestRejected else LibCause.RequestAccepted)"

section \<open>Node identifiers\<close>

datatype NodeIdType = IdIpv4 | IdIpv6 | IdFqdn

fun node_id_type_as_u8 :: "NodeIdType \<Rightarrow> u8" where
  "node_id_type_as_u8 IdIpv4 = 0"
| "node_id_type_as_u8 IdIpv6 = 1"
| "node_id_type_as_u8 IdFqdn = 2"

definition node_id_type_try_from :: "u8 \<Rightarrow> (PfcpError, NodeIdType) outcome" where
  "node_id_type_try_from value =
     (if value = 0 then Ok IdIpv4 else if value = 1 then Ok IdIpv6 else if value = 2 then Ok IdFqdn
      else Err (InvalidNodeIdType value))"

record LibNodeId =
  ni_node_id_type :: NodeIdType
  ni_ipv4_addr :: "u32 option"
  ni_ipv6_addr :: "Ipv6Addr option"
  ni_fqdn :: "rust_string option"

definition new_ipv4 :: "u32 \<Rightarrow> LibNodeId" where
  "new_ipv4 a = \<lparr>ni_node_id_type = IdIpv4, ni_ipv4_addr = Some a, ni_ipv6_addr = None, ni_fqdn = None\<rparr>"

definition new_ipv6 :: "Ipv6Addr \<Rightarrow> LibNodeId" where
  "new_ipv6 a = \<lparr>ni_node_id_type = IdIpv6, ni_ipv4_addr = None, ni_ipv6_addr = Some a, ni_fqdn = None\<rparr>"

definition new_fqdn :: "rust_string \<Rightarrow> LibNodeId" where
  "new_fqdn s = \<lparr>ni_node_id_type = IdFqdn, ni_ipv4_addr = None, ni_ipv6_addr = None, ni_fqdn = Some s\<rparr>"

definition fqdn_labels :: "rust_string list \<Rightarrow> bytes" where
  "fqdn_labels ls = concat (map (\<lambda>l. of_nat (length l) # l) ls) @ [0]"

definition lib_node_id_encode :: "LibNodeId \<Rightarrow> bytes" where
  "lib_node_id_encode n =
     node_id_type_as_u8 (ni_node_id_type n) #
     (case ni_node_id_type n of
        IdIpv4 \<Rightarrow> (case ni_ipv4_addr n of Some a \<Rightarrow> to_be32 a | None \<Rightarrow> [])
      | IdIpv6 \<Rightarrow> (case ni_ipv6_addr n of Some a \<Rightarrow> a | None \<Rightarrow> [])
      | IdFqdn \<Rightarrow> (case ni_fqdn n of Some s \<Rightarrow> fqdn_labels (filter (\<lambda>l. l \<noteq> []) (split_dots s)) | None \<Rightarrow> []))"

function fqdn_decode :: "bytes \<Rightarrow> rust_string \<Rightarrow> (PfcpError, rust_string) outcome" where
  "fqdn_decode [] fqdn = Ok fqdn"
| "fqdn_decode (l # buf) fqdn =
     (let len = unat l
      in if len = 0 then Ok fqdn
         else if length buf < len then Err (BufferTooShort len (length buf))
         else fqdn_decode (drop len buf)
                ((if fqdn = [] then fqdn else fqdn @ [0x2E]) @ from_utf8_lossy (take len buf)))"
  by pat_completeness auto

termination by (relation "measure (\<lambda>(buf, _). length buf)") auto

definition lib_node_id_decode :: "bytes \<Rightarrow> (PfcpError, LibNodeId) outcome" where
  "lib_node_id_decode buf =
     (if length buf < 1 then Err (BufferTooShort 1 (length buf))
      else
        obind (get_u8 buf) (\<lambda>(t, buf).
        obind (node_id_type_try_from (t AND 0x0F)) (\<lambda>node_id_type.
          case node_id_type of
            IdIpv4 \<Rightarrow>
              if length buf < 4 then Err (BufferTooShort 4 (length buf))
              else obind (get_u32 buf) (\<lambda>(a, buf). Ok (new_ipv4 a))
          | IdIpv6 \<Rightarrow>
              if length buf < 16 then Err (BufferTooShort 16 (length buf)) else Ok (new_ipv6 (take 16 buf))
          | IdFqdn \<Rightarrow> obind (fqdn_decode buf []) (\<lambda>s. Ok (new_fqdn s)))))"

section \<open>Function features\<close>

definition feature_octet :: "bool \<Rightarrow> bool \<Rightarrow> bool \<Rightarrow> bool \<Rightarrow> bool \<Rightarrow> bool \<Rightarrow> bool \<Rightarrow> bool \<Rightarrow> u8" where
  "feature_octet b7 b6 b5 b4 b3 b2 b1 b0 =
     push_bit 7 (of_bool b7) OR push_bit 6 (of_bool b6) OR push_bit 5 (of_bool b5) OR push_bit 4 (of_bool b4) OR
     push_bit 3 (of_bool b3) OR push_bit 2 (of_bool b2) OR push_bit 1 (of_bool b1) OR of_bool b0"

definition feature_bit :: "u8 \<Rightarrow> nat \<Rightarrow> bool" where
  "feature_bit b i \<longleftrightarrow> drop_bit i b AND 0x01 \<noteq> 0"

record UpFunctionFeatures =
  uf_bucp :: bool
  uf_ddnd :: bool
  uf_dlbd :: bool
  uf_trst :: bool
  uf_ftup :: bool
  uf_pfdm :: bool
  uf_heeu :: bool
  uf_treu :: bool
  uf_empu :: bool
  uf_pdiu :: bool
  uf_udbc :: bool
  uf_quoac :: bool
  uf_trace :: bool
  uf_frrt :: bool
  uf_pfde :: bool
  uf_epfar :: bool
  uf_dpdra :: bool
  uf_adpdp :: bool
  uf_ueip :: bool
  uf_sset :: bool
  uf_mnop :: bool
  uf_mte :: bool
  uf_bundl :: bool
  uf_gcom :: bool
  uf_mpas :: bool
  uf_rttl :: bool
  uf_vtime :: bool
  uf_norp :: bool
  uf_iptv :: bool
  uf_ip6pl :: bool
  uf_tscu :: bool
  uf_mptcp :: bool
  uf_atsss_ll :: bool
  uf_qfqm :: bool
  uf_gpqm :: bool
  uf_mt_edt :: bool
  uf_ciot :: bool
  uf_ethar :: bool
  uf_ddds :: bool
  uf_rds :: bool
  uf_rttwp :: bool
  uf_quasf :: bool
  uf_nspoc :: bool
  uf_l2tp :: bool
  uf_upber :: bool
  uf_resps :: bool
  uf_iprep :: bool
  uf_dnsts :: bool
  uf_drqos :: bool
  uf_mbsn4 :: bool
  uf_psuprm :: bool
  uf_eppi :: bool

definition up_features_encode :: "UpFunctionFeatures \<Rightarrow> bytes" where
  "up_features_encode f =
     [feature_octet (uf_treu f) (uf_heeu f) (uf_pfdm f) (uf_ftup f) (uf_trst f) (uf_dlbd f) (uf_ddnd f) (uf_bucp f),
      feature_octet (uf_epfar f) (uf_pfde f) (uf_frrt f) (uf_trace f) (uf_quoac f) (uf_udbc f) (uf_pdiu f) (uf_empu f),
      feature_octet (uf_gcom f) (uf_bundl f) (uf_mte f) (uf_mnop f) (uf_sset f) (uf_ueip f) (uf_adpdp f) (uf_dpdra f),
      feature_octet (uf_mptcp f) (uf_tscu f) (uf_ip6pl f) (uf_iptv f) (uf_norp f) (uf_vtime f) (uf_rttl f) (uf_mpas f),
      feature_octet (uf_rds f) (uf_ddds f) (uf_ethar f) (uf_ciot f) (uf_mt_edt f) (uf_gpqm f) (uf_qfqm f) (uf_atsss_ll f),
      feature_octet (uf_dnsts f) (uf_iprep f) (uf_resps f) (uf_upber f) (uf_l2tp f) (uf_nspoc f) (uf_quasf f) (uf_rttwp f),
      feature_octet False False False False (uf_eppi f) (uf_psuprm f) (uf_mbsn4 f) (uf_drqos f), 0]"

definition up_features_decode :: "bytes \<Rightarrow> (PfcpError, UpFunctionFeatures) outcome" where
  "up_features_decode buf =
     (if length buf < 6 then Err (BufferTooShort 6 (length buf))
      else
        let b0 = buf ! 0; b1 = buf ! 1; b2 = buf ! 2; b3 = buf ! 3; b4 = buf ! 4; b5 = buf ! 5;
            b6 = (if 7 \<le> length buf then buf ! 6 else 0)
        in Ok
          \<lparr>uf_bucp = feature_bit b0 0, uf_ddnd = feature_bit b0 1, uf_dlbd = feature_bit b0 2, uf_trst = feature_bit b0 3,
           uf_ftup = feature_bit b0 4, uf_pfdm = feature_bit b0 5, uf_heeu = feature_bit b0 6, uf_treu = feature_bit b0 7,
           uf_empu = feature_bit b1 0, uf_pdiu = feature_bit b1 1, uf_udbc = feature_bit b1 2, uf_quoac = feature_bit b1 3,
           uf_trace = feature_bit b1 4, uf_frrt = feature_bit b1 5, uf_pfde = feature_bit b1 6, uf_epfar = feature_bit b1 7,
           uf_dpdra = feature_bit b2 0, uf_adpdp = feature_bit b2 1, uf_ueip = feature_bit b2 2, uf_sset = feature_bit b2 3,
           uf_mnop = feature_bit b2 4, uf_mte = feature_bit b2 5, uf_bundl = feature_bit b2 6, uf_gcom = feature_bit b2 7,
           uf_mpas = feature_bit b3 0, uf_rttl = feature_bit b3 1, uf_vtime = feature_bit b3 2, uf_norp = feature_bit b3 3,
           uf_iptv = feature_bit b3 4, uf_ip6pl = feature_bit b3 5, uf_tscu = feature_bit b3 6, uf_mptcp = feature_bit b3 7,
           uf_atsss_ll = feature_bit b4 0, uf_qfqm = feature_bit b4 1, uf_gpqm = feature_bit b4 2, uf_mt_edt = feature_bit b4 3,
           uf_ciot = feature_bit b4 4, uf_ethar = feature_bit b4 5, uf_ddds = feature_bit b4 6, uf_rds = feature_bit b4 7,
           uf_rttwp = feature_bit b5 0, uf_quasf = feature_bit b5 1, uf_nspoc = feature_bit b5 2, uf_l2tp = feature_bit b5 3,
           uf_upber = feature_bit b5 4, uf_resps = feature_bit b5 5, uf_iprep = feature_bit b5 6, uf_dnsts = feature_bit b5 7,
           uf_drqos = feature_bit b6 0, uf_mbsn4 = feature_bit b6 1, uf_psuprm = feature_bit b6 2, uf_eppi = feature_bit b6 3\<rparr>)"

record CpFunctionFeatures =
  cf_load :: bool
  cf_ovrl :: bool
  cf_epfar :: bool
  cf_sset :: bool
  cf_bundl :: bool
  cf_mpas :: bool
  cf_ardr :: bool
  cf_uiaur :: bool
  cf_psucc :: bool

definition cp_features_default :: CpFunctionFeatures where
  "cp_features_default =
     \<lparr>cf_load = False, cf_ovrl = False, cf_epfar = False, cf_sset = False, cf_bundl = False, cf_mpas = False, cf_ardr = False,
      cf_uiaur = False, cf_psucc = False\<rparr>"

definition cp_features_encode :: "CpFunctionFeatures \<Rightarrow> bytes" where
  "cp_features_encode f =
     [feature_octet (cf_uiaur f) (cf_ardr f) (cf_mpas f) (cf_bundl f) (cf_sset f) (cf_epfar f) (cf_ovrl f) (cf_load f),
      of_bool (cf_psucc f)]"

definition cp_features_decode :: "bytes \<Rightarrow> (PfcpError, CpFunctionFeatures) outcome" where
  "cp_features_decode data =
     (if data = [] then Err (BufferTooShort 1 0)
      else
        let b0 = data ! 0; b1 = (if 2 \<le> length data then data ! 1 else 0)
        in Ok \<lparr>cf_load = feature_bit b0 0, cf_ovrl = feature_bit b0 1, cf_epfar = feature_bit b0 2, cf_sset = feature_bit b0 3,
               cf_bundl = feature_bit b0 4, cf_mpas = feature_bit b0 5, cf_ardr = feature_bit b0 6, cf_uiaur = feature_bit b0 7,
               cf_psucc = (b1 AND 0x01 \<noteq> 0)\<rparr>)"

section \<open>Load control information\<close>

record LoadControlInformation =
  lci_sequence_number :: u32
  lci_metric :: u8

definition lci_encode :: "LoadControlInformation \<Rightarrow> bytes" where
  "lci_encode l = encode_u8_ie METRIC (lci_metric l) (encode_u32_ie SEQUENCE_NUMBER (lci_sequence_number l) [])"

definition lci_step :: "RawIe \<Rightarrow> u32 option \<times> u8 option \<Rightarrow> (PfcpError, u32 option \<times> u8 option) outcome" where
  "lci_step ie = (\<lambda>(sequence_number, metric).
     if raw_ie_type ie = SEQUENCE_NUMBER
     then if 4 \<le> length (raw_data ie)
          then obind (get_u32 (raw_data ie)) (\<lambda>(x, _). Ok (Some x, metric)) else Ok (sequence_number, metric)
     else if raw_ie_type ie = METRIC
     then Ok (sequence_number, if raw_data ie = [] then metric else Some (raw_data ie ! 0))
     else Ok (sequence_number, metric))"

text \<open>\<^verbatim>\<open>ok_or_else(|| PfcpError::MissingMandatoryIe(..))?\<close>\<close>

definition mandatory :: "string \<Rightarrow> 'a option \<Rightarrow> (PfcpError, 'a) outcome" where
  "mandatory name x = (case x of Some a \<Rightarrow> Ok a | None \<Rightarrow> Err (MissingMandatoryIe name))"

definition lci_decode :: "bytes \<Rightarrow> (PfcpError, LoadControlInformation) outcome" where
  "lci_decode buf =
     obind (decode_ies lci_step buf (None, None)) (\<lambda>(sequence_number, metric).
     obind (mandatory ''Sequence Number'' sequence_number) (\<lambda>s.
     obind (mandatory ''Metric'' metric) (\<lambda>m. Ok \<lparr>lci_sequence_number = s, lci_metric = m\<rparr>)))"

section \<open>Heartbeat\<close>

record HeartbeatRequest =
  hq_recovery_time_stamp :: u32
  hq_load_control_information :: "LoadControlInformation option"

definition heartbeat_request_new :: "u32 \<Rightarrow> HeartbeatRequest" where
  "heartbeat_request_new t = \<lparr>hq_recovery_time_stamp = t, hq_load_control_information = None\<rparr>"

definition heartbeat_request_encode :: "HeartbeatRequest \<Rightarrow> bytes" where
  "heartbeat_request_encode m =
     add_opt (\<lambda>l. encode_grouped LOAD_CONTROL_INFORMATION (lci_encode l)) (hq_load_control_information m)
       (encode_u32_ie RECOVERY_TIME_STAMP (hq_recovery_time_stamp m) [])"

text \<open>The time stamp of an element, kept when the element is too short.\<close>

definition time_stamp_step :: "RawIe \<Rightarrow> u32 \<Rightarrow> (PfcpError, u32) outcome" where
  "time_stamp_step ie t = (if 4 \<le> length (raw_data ie) then obind (get_u32 (raw_data ie)) (\<lambda>(x, _). Ok x) else Ok t)"

definition heartbeat_request_step :: "RawIe \<Rightarrow> HeartbeatRequest \<Rightarrow> (PfcpError, HeartbeatRequest) outcome" where
  "heartbeat_request_step ie m =
     (if raw_ie_type ie = RECOVERY_TIME_STAMP
      then obind (time_stamp_step ie (hq_recovery_time_stamp m)) (\<lambda>t. Ok (m\<lparr>hq_recovery_time_stamp := t\<rparr>))
      else if raw_ie_type ie = LOAD_CONTROL_INFORMATION
      then obind (lci_decode (raw_data ie)) (\<lambda>l. Ok (m\<lparr>hq_load_control_information := Some l\<rparr>))
      else Ok m)"

definition heartbeat_request_decode :: "bytes \<Rightarrow> (PfcpError, HeartbeatRequest) outcome" where
  "heartbeat_request_decode buf = decode_ies heartbeat_request_step buf (heartbeat_request_new 0)"

record HeartbeatResponse =
  hr_recovery_time_stamp :: u32

definition heartbeat_response_encode :: "HeartbeatResponse \<Rightarrow> bytes" where
  "heartbeat_response_encode m = encode_u32_ie RECOVERY_TIME_STAMP (hr_recovery_time_stamp m) []"

definition heartbeat_response_step :: "RawIe \<Rightarrow> HeartbeatResponse \<Rightarrow> (PfcpError, HeartbeatResponse) outcome" where
  "heartbeat_response_step ie m =
     (if raw_ie_type ie = RECOVERY_TIME_STAMP
      then obind (time_stamp_step ie (hr_recovery_time_stamp m)) (\<lambda>t. Ok (m\<lparr>hr_recovery_time_stamp := t\<rparr>)) else Ok m)"

definition heartbeat_response_decode :: "bytes \<Rightarrow> (PfcpError, HeartbeatResponse) outcome" where
  "heartbeat_response_decode buf = decode_ies heartbeat_response_step buf \<lparr>hr_recovery_time_stamp = 0\<rparr>"

section \<open>Association setup\<close>

record AssociationSetupRequest =
  sq_node_id :: LibNodeId
  sq_recovery_time_stamp :: u32
  sq_up_function_features :: "UpFunctionFeatures option"
  sq_cp_function_features :: "CpFunctionFeatures option"

definition setup_request_new :: "LibNodeId \<Rightarrow> u32 \<Rightarrow> AssociationSetupRequest" where
  "setup_request_new n t =
     \<lparr>sq_node_id = n, sq_recovery_time_stamp = t, sq_up_function_features = None, sq_cp_function_features = None\<rparr>"

definition setup_request_encode :: "AssociationSetupRequest \<Rightarrow> bytes" where
  "setup_request_encode m =
     (let buf = encode_grouped NODE_ID (lib_node_id_encode (sq_node_id m)) [];
          buf = encode_u32_ie RECOVERY_TIME_STAMP (sq_recovery_time_stamp m) buf;
          buf = add_opt (\<lambda>f. encode_grouped UP_FEATURES (up_features_encode f)) (sq_up_function_features m) buf
      in add_opt (\<lambda>f. encode_grouped CP_FUNCTION_FEATURES (cp_features_encode f)) (sq_cp_function_features m) buf)"

text \<open>What the decoding loops of the association messages have found so far.\<close>

record setup_found =
  fd_node_id :: "LibNodeId option"
  fd_cause :: "LibCause option"
  fd_recovery_time_stamp :: u32
  fd_up_function_features :: "UpFunctionFeatures option"
  fd_cp_function_features :: "CpFunctionFeatures option"

definition setup_start :: setup_found where
  "setup_start = \<lparr>fd_node_id = None, fd_cause = None, fd_recovery_time_stamp = 0, fd_up_function_features = None,
     fd_cp_function_features = None\<rparr>"

definition setup_request_step :: "RawIe \<Rightarrow> setup_found \<Rightarrow> (PfcpError, setup_found) outcome" where
  "setup_request_step ie s =
     (if raw_ie_type ie = NODE_ID then obind (lib_node_id_decode (raw_data ie)) (\<lambda>n. Ok (s\<lparr>fd_node_id := Some n\<rparr>))
      else if raw_ie_type ie = RECOVERY_TIME_STAMP
      then obind (time_stamp_step ie (fd_recovery_time_stamp s)) (\<lambda>t. Ok (s\<lparr>fd_recovery_time_stamp := t\<rparr>))
      else if raw_ie_type ie = UP_FEATURES
      then obind (up_features_decode (raw_data ie)) (\<lambda>f. Ok (s\<lparr>fd_up_function_features := Some f\<rparr>))
      else if raw_ie_type ie = CP_FUNCTION_FEATURES
      then obind (cp_features_decode (raw_data ie)) (\<lambda>f. Ok (s\<lparr>fd_cp_function_features := Some f\<rparr>))
      else Ok s)"

definition setup_request_decode :: "bytes \<Rightarrow> (PfcpError, AssociationSetupRequest) outcome" where
  "setup_request_decode buf =
     obind (decode_ies setup_request_step buf setup_start) (\<lambda>s.
     obind (mandatory ''Node ID'' (fd_node_id s)) (\<lambda>n.
       Ok \<lparr>sq_node_id = n, sq_recovery_time_stamp = fd_recovery_time_stamp s,
           sq_up_function_features = fd_up_function_features s, sq_cp_function_features = fd_cp_function_features s\<rparr>))"

record AssociationSetupResponse =
  sr_node_id :: LibNodeId
  sr_cause :: LibCause
  sr_recovery_time_stamp :: u32
  sr_up_function_features :: "UpFunctionFeatures option"
  sr_cp_function_features :: "CpFunctionFeatures option"

definition setup_response_encode :: "AssociationSetupResponse \<Rightarrow> bytes" where
  "setup_response_encode m =
     (let buf = encode_grouped NODE_ID (lib_node_id_encode (sr_node_id m)) [];
          buf = encode_u8_ie CAUSE (lib_cause_as_u8 (sr_cause m)) buf;
          buf = encode_u32_ie RECOVERY_TIME_STAMP (sr_recovery_time_stamp m) buf;
          buf = add_opt (\<lambda>f. encode_grouped UP_FEATURES (up_features_encode f)) (sr_up_function_features m) buf
      in add_opt (\<lambda>f. encode_grouped CP_FUNCTION_FEATURES (cp_features_encode f)) (sr_cp_function_features m) buf)"

definition cause_step :: "RawIe \<Rightarrow> setup_found \<Rightarrow> setup_found" where
  "cause_step ie s = (if raw_data ie = [] then s else s\<lparr>fd_cause := Some (cause_from_wire (raw_data ie ! 0))\<rparr>)"

definition setup_response_step :: "RawIe \<Rightarrow> setup_found \<Rightarrow> (PfcpError, setup_found) outcome" where
  "setup_response_step ie s = (if raw_ie_type ie = CAUSE then Ok (cause_step ie s) else setup_request_step ie s)"

definition setup_response_decode :: "bytes \<Rightarrow> (PfcpError, AssociationSetupResponse) outcome" where
  "setup_response_decode buf =
     obind (decode_ies setup_response_step buf setup_start) (\<lambda>s.
     obind (mandatory ''Node ID'' (fd_node_id s)) (\<lambda>n.
     obind (mandatory ''Cause'' (fd_cause s)) (\<lambda>c.
       Ok \<lparr>sr_node_id = n, sr_cause = c, sr_recovery_time_stamp = fd_recovery_time_stamp s,
           sr_up_function_features = fd_up_function_features s, sr_cp_function_features = fd_cp_function_features s\<rparr>)))"

section \<open>Association release\<close>

definition release_request_encode :: "LibNodeId \<Rightarrow> bytes" where
  "release_request_encode n = encode_grouped NODE_ID (lib_node_id_encode n) []"

definition release_request_step :: "RawIe \<Rightarrow> LibNodeId option \<Rightarrow> (PfcpError, LibNodeId option) outcome" where
  "release_request_step ie s =
     (if raw_ie_type ie = NODE_ID then obind (lib_node_id_decode (raw_data ie)) (\<lambda>n. Ok (Some n)) else Ok s)"

definition release_request_decode :: "bytes \<Rightarrow> (PfcpError, LibNodeId) outcome" where
  "release_request_decode buf = obind (decode_ies release_request_step buf None) (mandatory ''Node ID'')"

definition release_response_encode :: "LibNodeId \<Rightarrow> LibCause \<Rightarrow> bytes" where
  "release_response_encode n c =
     encode_u8_ie CAUSE (lib_cause_as_u8 c) (encode_grouped NODE_ID (lib_node_id_encode n) [])"

definition release_response_step :: "RawIe \<Rightarrow> setup_found \<Rightarrow> (PfcpError, setup_found) outcome" where
  "release_response_step ie s =
     (if raw_ie_type ie = NODE_ID then obind (lib_node_id_decode (raw_data ie)) (\<lambda>n. Ok (s\<lparr>fd_node_id := Some n\<rparr>))
      else if raw_ie_type ie = CAUSE then Ok (cause_step ie s)
      else Ok s)"

definition release_response_decode :: "bytes \<Rightarrow> (PfcpError, LibNodeId \<times> LibCause) outcome" where
  "release_response_decode buf =
     obind (decode_ies release_response_step buf setup_start) (\<lambda>s.
     obind (mandatory ''Node ID'' (fd_node_id s)) (\<lambda>n. obind (mandatory ''Cause'' (fd_cause s)) (\<lambda>c. Ok (n, c))))"

section \<open>Messages\<close>

text \<open>A message is given by its type and the octets of its encoded body.\<close>

definition build_message :: "PfcpMessageType \<Rightarrow> bytes \<Rightarrow> u32 \<Rightarrow> u64 option \<Rightarrow> bytes" where
  "build_message message_type body sequence_number seid =
     (let header = (case seid of Some s \<Rightarrow> pfcp_new_with_seid message_type s sequence_number | None \<Rightarrow> pfcp_new message_type sequence_number)
      in pfcp_encode (header\<lparr>hp_length := of_nat (length body + (if hp_seid_presence header then 12 else 4))\<rparr>) @ body)"

section \<open>Codecs of whole bodies\<close>

text \<open>
  A codec of a body, which fills its buffer: the decoder inverts the encoder on well-formed values and does not panic, whatever
  the octets are.
\<close>

locale body_codec =
  fixes wf :: "'a \<Rightarrow> bool"
    and enc :: "'a \<Rightarrow> bytes"
    and dec :: "bytes \<Rightarrow> ('e, 'a) outcome"
  assumes dec_enc: "wf x \<Longrightarrow> dec (enc x) = Ok x"
    and dec_no_panic: "dec b \<noteq> Panic"
begin

lemma enc_inj: "wf x \<Longrightarrow> wf y \<Longrightarrow> enc x = enc y \<Longrightarrow> x = y"
  by (metis dec_enc outcome.inject(1))

lemma dec_total: "(\<exists>x. dec b = Ok x) \<or> (\<exists>e. dec b = Err e)"
  using dec_no_panic [of b] by (cases "dec b") auto

end

text \<open>The encoders append elements.\<close>

lemma encode_tlv: "encode_grouped t v = add_tlv t v" "encode_u8_ie t b = add_tlv t [b]" "encode_u32_ie t w = add_tlv t (to_be32 w)"
  unfolding encode_grouped_def [abs_def] encode_u8_ie_def [abs_def] encode_u32_ie_def [abs_def] ie_header_encode_def add_tlv_def [abs_def]
  by simp_all

lemma raw_ie_decode_tlv:
  assumes "length v < 65536"
  shows "raw_ie_decode (add_tlv t v [] @ rest) = Ok (\<lparr>raw_ie_type = t, raw_data = v\<rparr>, rest)"
proof -
  have "unat (of_nat (length v) :: u16) = length v" using assms by (simp add: unat_of_nat take_bit_nat_eq_self)
  then show ?thesis by (simp add: raw_ie_decode_def ie_header_decode_def add_tlv_def)
qed

fun run_ies :: "(RawIe \<Rightarrow> 's \<Rightarrow> (PfcpError, 's) outcome) \<Rightarrow> (u16 \<times> bytes) list \<Rightarrow> 's \<Rightarrow> (PfcpError, 's) outcome" where
  "run_ies step [] s = Ok s"
| "run_ies step (x # xs) s = obind (step \<lparr>raw_ie_type = fst x, raw_data = snd x\<rparr> s) (run_ies step xs)"

lemma decode_ies_tlvs:
  assumes "\<forall>x \<in> set xs. length (snd x) < 65536"
  shows "decode_ies step (tlvs xs) s = run_ies step xs s"
  using assms
proof (induction xs arbitrary: s)
  case Nil
  show ?case by (simp add: decode_ies.simps)
next
  case (Cons x xs)
  then have "raw_ie_decode (add_tlv (fst x) (snd x) [] @ tlvs xs) = Ok (\<lparr>raw_ie_type = fst x, raw_data = snd x\<rparr>, tlvs xs)"
    by (intro raw_ie_decode_tlv) simp
  moreover have "decode_ies step (tlvs xs) = run_ies step xs" using Cons by (simp add: fun_eq_iff)
  ultimately show ?case by (simp add: decode_ies.simps [of _ "add_tlv (fst x) (snd x) [] @ tlvs xs"])
qed

lemma raw_ie_decode_no_panic: "raw_ie_decode buf \<noteq> Panic"
proof (cases "length buf < 4")
  case False
  then obtain x y z w r where "buf = x # y # z # w # r" by (auto simp: buffer_ge4 not_less)
  then show ?thesis by (simp add: raw_ie_decode_def ie_header_decode_def Let_def)
qed (simp add: raw_ie_decode_def ie_header_decode_def)

lemma decode_ies_no_panic:
  assumes "\<And>ie s. step ie s \<noteq> Panic"
  shows "decode_ies step buf s \<noteq> Panic"
proof (induction "length buf" arbitrary: buf s rule: less_induct)
  case less
  show ?case
    using raw_ie_decode_no_panic [of buf] assms less raw_ie_decode_shorter [of buf]
    by (subst decode_ies.simps) (auto simp: obind_eq_Panic split: outcome.split)
qed

section \<open>Values\<close>

lemma get_put_exact [simp]: "get_u32 (to_be32 w) = Ok (w, [])"
  using get_put [where r = "[]"] by simp

lemma feature_bits [simp]:
  "feature_bit (feature_octet b7 b6 b5 b4 b3 b2 b1 b0) 0 = b0" "feature_bit (feature_octet b7 b6 b5 b4 b3 b2 b1 b0) (Suc 0) = b1"
  "feature_bit (feature_octet b7 b6 b5 b4 b3 b2 b1 b0) 2 = b2" "feature_bit (feature_octet b7 b6 b5 b4 b3 b2 b1 b0) 3 = b3"
  "feature_bit (feature_octet b7 b6 b5 b4 b3 b2 b1 b0) 4 = b4" "feature_bit (feature_octet b7 b6 b5 b4 b3 b2 b1 b0) 5 = b5"
  "feature_bit (feature_octet b7 b6 b5 b4 b3 b2 b1 b0) 6 = b6" "feature_bit (feature_octet b7 b6 b5 b4 b3 b2 b1 b0) 7 = b7"
proof -
  have "feature_bit b i \<longleftrightarrow> bit b i" for b :: u8 and i
    using and_exp_eq_0_iff_not_bit [of "drop_bit i b" 0] by (simp add: feature_bit_def bit_drop_bit_eq)
  then show "feature_bit (feature_octet b7 b6 b5 b4 b3 b2 b1 b0) 0 = b0" "feature_bit (feature_octet b7 b6 b5 b4 b3 b2 b1 b0) (Suc 0) = b1"
    "feature_bit (feature_octet b7 b6 b5 b4 b3 b2 b1 b0) 2 = b2" "feature_bit (feature_octet b7 b6 b5 b4 b3 b2 b1 b0) 3 = b3"
    "feature_bit (feature_octet b7 b6 b5 b4 b3 b2 b1 b0) 4 = b4" "feature_bit (feature_octet b7 b6 b5 b4 b3 b2 b1 b0) 5 = b5"
    "feature_bit (feature_octet b7 b6 b5 b4 b3 b2 b1 b0) 6 = b6" "feature_bit (feature_octet b7 b6 b5 b4 b3 b2 b1 b0) 7 = b7"
    by (simp_all add: feature_octet_def bit_simps of_bool_def)
qed

interpretation up_features: body_codec "\<lambda>_. True" up_features_encode up_features_decode
proof
  fix f :: UpFunctionFeatures
  show "up_features_decode (up_features_encode f) = Ok f"
    by (cases f) (simp add: up_features_decode_def up_features_encode_def)
qed (simp add: up_features_decode_def Let_def)

interpretation cp_features: body_codec "\<lambda>_. True" cp_features_encode cp_features_decode
proof
  fix f :: CpFunctionFeatures
  show "cp_features_decode (cp_features_encode f) = Ok f"
    by (cases f) (simp add: cp_features_decode_def cp_features_encode_def)
qed (simp add: cp_features_decode_def Let_def)

interpretation lib_cause: octet_enum lib_cause_as_u8 lib_cause_try_from InvalidCause
proof
  fix m show "lib_cause_try_from (lib_cause_as_u8 m) = Ok m"
    by (cases m) (simp_all add: lib_cause_try_from_def)
next
  fix v m assume "lib_cause_try_from v = Ok m" then show "lib_cause_as_u8 m = v"
    by (simp add: lib_cause_try_from_def split: if_split_asm)
next
  fix v show "(\<exists>m. lib_cause_try_from v = Ok m) \<or> lib_cause_try_from v = Err (InvalidCause v)"
    by (simp add: lib_cause_try_from_def)
qed

lemma cause_from_wire_as_u8 [simp]: "cause_from_wire (lib_cause_as_u8 c) = c"
  by (simp add: cause_from_wire_def lib_cause.try_from_as_u8)

text \<open>Node identifiers: one address or name, of the kind that the type says; a name consists of UTF-8 labels of at most 255 octets.\<close>

definition label_ok :: "rust_string \<Rightarrow> bool" where
  "label_ok l \<longleftrightarrow> l \<noteq> [] \<and> length l < 256 \<and> from_utf8_lossy l = l"

definition node_id_wf :: "LibNodeId \<Rightarrow> bool" where
  "node_id_wf n \<longleftrightarrow>
     (case ni_node_id_type n of
        IdIpv4 \<Rightarrow> ni_ipv4_addr n \<noteq> None \<and> ni_ipv6_addr n = None \<and> ni_fqdn n = None
      | IdIpv6 \<Rightarrow> ni_ipv4_addr n = None \<and> map_option length (ni_ipv6_addr n) = Some 16 \<and> ni_fqdn n = None
      | IdFqdn \<Rightarrow> ni_ipv4_addr n = None \<and> ni_ipv6_addr n = None \<and>
          (case ni_fqdn n of None \<Rightarrow> False | Some s \<Rightarrow> list_all label_ok (split_dots s))) \<and>
     length (lib_node_id_encode n) < 65536"

fun join_dots :: "rust_string list \<Rightarrow> rust_string" where
  "join_dots [] = []"
| "join_dots [l] = l"
| "join_dots (l # ls) = l @ [0x2E] @ join_dots ls"

lemma split_dots_ne: "split_dots s \<noteq> []"
  by (induction s) (auto split: list.split)

lemma join_split_dots: "join_dots (split_dots s) = s"
proof (induction s)
  case (Cons c s)
  obtain l ls where s: "split_dots s = l # ls" using split_dots_ne [of s] by (cases "split_dots s") auto
  then show ?case using Cons by (cases ls) auto
qed simp

lemma fqdn_decode_labels:
  assumes "list_all label_ok ls" and "fqdn \<noteq> []"
  shows "fqdn_decode (fqdn_labels ls) fqdn = Ok (fqdn @ concat (map (\<lambda>l. 0x2E # l) ls))"
  using assms
proof (induction ls arbitrary: fqdn)
  case (Cons l ls)
  have l: "unat (of_nat (length l) :: u8) = length l" "length l \<noteq> 0" "from_utf8_lossy l = l"
    using Cons.prems by (auto simp: label_ok_def unat_of_nat take_bit_nat_eq_self)
  then show ?case using Cons by (simp add: fqdn_labels_def)
qed (simp add: fqdn_labels_def)

lemma join_dots_Cons: "join_dots (l # ls) = l @ concat (map (\<lambda>l. 0x2E # l) ls)"
  by (induction ls arbitrary: l) auto

lemma fqdn_decode_name:
  assumes "list_all label_ok (split_dots s)"
  shows "fqdn_decode (fqdn_labels (filter (\<lambda>l. l \<noteq> []) (split_dots s))) [] = Ok s"
proof -
  obtain l ls where s: "split_dots s = l # ls" using split_dots_ne [of s] by (cases "split_dots s") auto
  have same: "filter (\<lambda>l. l \<noteq> []) (split_dots s) = l # ls"
    using assms unfolding s by (auto simp: label_ok_def list_all_iff intro: filter_True)
  have l: "unat (of_nat (length l) :: u8) = length l" "length l \<noteq> 0" "from_utf8_lossy l = l" "l \<noteq> []"
    using assms s by (auto simp: label_ok_def unat_of_nat take_bit_nat_eq_self)
  have "fqdn_decode (fqdn_labels (l # ls)) [] = fqdn_decode (fqdn_labels ls) l"
    using l by (simp add: fqdn_labels_def)
  also have "\<dots> = Ok (join_dots (l # ls))"
    using fqdn_decode_labels [of ls l] assms s l(4) by (simp add: join_dots_Cons)
  finally show ?thesis unfolding same using join_split_dots [of s] s by simp
qed

lemma fqdn_decode_no_panic: "fqdn_decode buf fqdn \<noteq> Panic"
  by (induction buf fqdn rule: fqdn_decode.induct) (auto simp: Let_def)

interpretation node_id: body_codec node_id_wf lib_node_id_encode lib_node_id_decode
proof
  fix n :: LibNodeId
  assume wf: "node_id_wf n"
  show "lib_node_id_decode (lib_node_id_encode n) = Ok n"
  proof (cases "ni_node_id_type n")
    case IdIpv4
    then show ?thesis
      using wf by (cases n) (auto simp: node_id_wf_def lib_node_id_encode_def lib_node_id_decode_def node_id_type_try_from_def new_ipv4_def)
  next
    case IdIpv6
    then show ?thesis
      using wf by (cases n) (auto simp: node_id_wf_def lib_node_id_encode_def lib_node_id_decode_def node_id_type_try_from_def new_ipv6_def)
  next
    case IdFqdn
    then show ?thesis
      using wf fqdn_decode_name
      by (cases n) (auto simp: node_id_wf_def lib_node_id_encode_def lib_node_id_decode_def node_id_type_try_from_def new_fqdn_def
          split: option.split_asm)
  qed
next
  fix b
  show "lib_node_id_decode b \<noteq> Panic"
  proof (cases b)
    case (Cons t buf)
    then show ?thesis
      using fqdn_decode_no_panic [of buf "[]"] buffer_ge4 [of buf]
      by (auto simp: lib_node_id_decode_def node_id_type_try_from_def obind_eq_Panic not_less split: NodeIdType.split)
  qed (simp add: lib_node_id_decode_def)
qed

section \<open>Messages round trip\<close>

lemma time_stamp_no_panic [simp]: "time_stamp_step ie t \<noteq> Panic"
  by (auto simp: time_stamp_step_def buffer_ge4)

lemma mandatory_no_panic [simp]: "mandatory name x \<noteq> Panic"
  by (simp add: mandatory_def split: option.split)

lemma lci_step_no_panic [simp]: "lci_step ie s \<noteq> Panic"
  by (cases s) (auto simp: lci_step_def buffer_ge4)

interpretation lci: body_codec "\<lambda>_. True" lci_encode lci_decode
proof
  fix l :: LoadControlInformation
  have "lci_encode l = tlvs [(SEQUENCE_NUMBER, to_be32 (lci_sequence_number l)), (METRIC, [lci_metric l])]"
    by (simp add: lci_encode_def encode_tlv) (simp add: add_tlv_def)
  then show "lci_decode (lci_encode l) = Ok l"
    by (simp add: lci_decode_def decode_ies_tlvs lci_step_def pfcp_ie mandatory_def del: tlvs_simps)
next
  fix b show "lci_decode b \<noteq> Panic"
    using decode_ies_no_panic [of lci_step] by (auto simp: lci_decode_def obind_eq_Panic)
qed

definition opt_tlv :: "u16 \<Rightarrow> ('a \<Rightarrow> bytes) \<Rightarrow> 'a option \<Rightarrow> (u16 \<times> bytes) list" where
  "opt_tlv t f x = (case x of None \<Rightarrow> [] | Some a \<Rightarrow> [(t, f a)])"

lemma add_tlv_tlvs: "add_tlv t v (tlvs xs) = tlvs (xs @ [(t, v)])" "add_tlv t v [] = tlvs [(t, v)]"
  "add_opt (\<lambda>a. add_tlv t (f a)) x (tlvs xs) = tlvs (xs @ opt_tlv t f x)"
  by (simp_all add: add_tlv_append [of t v "tlvs xs"] add_opt_def opt_tlv_def split: option.split)
    (simp add: add_tlv_append [of t _ "tlvs xs"])

lemma run_ies_append: "run_ies step (xs @ ys) s = obind (run_ies step xs s) (run_ies step ys)"
proof (induction xs arbitrary: s)
  case (Cons x xs)
  show ?case by (cases "step \<lparr>raw_ie_type = fst x, raw_data = snd x\<rparr> s") (simp_all add: Cons)
qed simp

lemma run_opt_tlv: "run_ies step (opt_tlv t f x) s = (case x of None \<Rightarrow> Ok s | Some a \<Rightarrow> step \<lparr>raw_ie_type = t, raw_data = f a\<rparr> s)"
  by (cases x; cases "step \<lparr>raw_ie_type = t, raw_data = f (the x)\<rparr> s") (simp_all add: opt_tlv_def)

lemma steps_no_panic:
  "heartbeat_request_step ie hq \<noteq> Panic" "heartbeat_response_step ie hr \<noteq> Panic" "setup_request_step ie s \<noteq> Panic"
  "setup_response_step ie s \<noteq> Panic" "release_request_step ie n \<noteq> Panic" "release_response_step ie s \<noteq> Panic"
  using time_stamp_no_panic lci.dec_no_panic node_id.dec_no_panic up_features.dec_no_panic cp_features.dec_no_panic
  by (auto simp: heartbeat_request_step_def heartbeat_response_step_def setup_request_step_def setup_response_step_def
      release_request_step_def release_response_step_def obind_eq_Panic)

text \<open>The bodies as lists of elements.\<close>

lemma bodies_tlvs:
  "heartbeat_request_encode hq = tlvs ([(RECOVERY_TIME_STAMP, to_be32 (hq_recovery_time_stamp hq))] @
     opt_tlv LOAD_CONTROL_INFORMATION lci_encode (hq_load_control_information hq))"
  "heartbeat_response_encode hr = tlvs [(RECOVERY_TIME_STAMP, to_be32 (hr_recovery_time_stamp hr))]"
  "setup_request_encode sq = tlvs ([(NODE_ID, lib_node_id_encode (sq_node_id sq)), (RECOVERY_TIME_STAMP, to_be32 (sq_recovery_time_stamp sq))] @
     opt_tlv UP_FEATURES up_features_encode (sq_up_function_features sq) @
     opt_tlv CP_FUNCTION_FEATURES cp_features_encode (sq_cp_function_features sq))"
  "setup_response_encode sr = tlvs ([(NODE_ID, lib_node_id_encode (sr_node_id sr)), (CAUSE, [lib_cause_as_u8 (sr_cause sr)]),
     (RECOVERY_TIME_STAMP, to_be32 (sr_recovery_time_stamp sr))] @
     opt_tlv UP_FEATURES up_features_encode (sr_up_function_features sr) @
     opt_tlv CP_FUNCTION_FEATURES cp_features_encode (sr_cp_function_features sr))"
  "release_request_encode n = tlvs [(NODE_ID, lib_node_id_encode n)]"
  "release_response_encode n c = tlvs [(NODE_ID, lib_node_id_encode n), (CAUSE, [lib_cause_as_u8 c])]"
  unfolding heartbeat_request_encode_def heartbeat_response_encode_def setup_request_encode_def setup_response_encode_def
    release_request_encode_def release_response_encode_def Let_def encode_tlv add_tlv_tlvs
  by (simp_all del: tlvs_simps)

lemma values_short:
  "length (up_features_encode f) = 8" "length (cp_features_encode g) = 2" "length (lci_encode l) = 13"
  by (simp_all add: up_features_encode_def cp_features_encode_def lci_encode_def encode_tlv)

lemmas message_steps = heartbeat_request_step_def heartbeat_response_step_def setup_request_step_def setup_response_step_def
  release_request_step_def release_response_step_def time_stamp_step_def cause_step_def pfcp_ie UP_FEATURES_def CP_FUNCTION_FEATURES_def
  mandatory_def setup_start_def heartbeat_request_new_def

interpretation heartbeat_request: body_codec "\<lambda>_. True" heartbeat_request_encode heartbeat_request_decode
proof
  fix m :: HeartbeatRequest
  show "heartbeat_request_decode (heartbeat_request_encode m) = Ok m"
    unfolding heartbeat_request_decode_def bodies_tlvs
    by (subst decode_ies_tlvs; cases m)
      (auto simp: run_ies_append run_opt_tlv message_steps lci.dec_enc values_short opt_tlv_def simp del: tlvs_simps split: option.split)
next
  fix b show "heartbeat_request_decode b \<noteq> Panic"
    unfolding heartbeat_request_decode_def by (rule decode_ies_no_panic) (rule steps_no_panic)
qed

interpretation heartbeat_response: body_codec "\<lambda>_. True" heartbeat_response_encode heartbeat_response_decode
proof
  fix m :: HeartbeatResponse
  show "heartbeat_response_decode (heartbeat_response_encode m) = Ok m"
    unfolding heartbeat_response_decode_def bodies_tlvs
    by (subst decode_ies_tlvs; cases m) (auto simp: message_steps simp del: tlvs_simps)
next
  fix b show "heartbeat_response_decode b \<noteq> Panic"
    unfolding heartbeat_response_decode_def by (rule decode_ies_no_panic) (rule steps_no_panic)
qed

interpretation setup_request: body_codec "\<lambda>m. node_id_wf (sq_node_id m)" setup_request_encode setup_request_decode
proof
  fix m :: AssociationSetupRequest
  assume "node_id_wf (sq_node_id m)"
  then show "setup_request_decode (setup_request_encode m) = Ok m"
    unfolding setup_request_decode_def bodies_tlvs
    by (subst decode_ies_tlvs; cases m)
      (auto simp: run_ies_append run_opt_tlv message_steps node_id.dec_enc node_id_wf_def up_features.dec_enc cp_features.dec_enc
        values_short opt_tlv_def simp del: tlvs_simps split: option.split)
next
  fix b show "setup_request_decode b \<noteq> Panic"
    using decode_ies_no_panic [of setup_request_step] steps_no_panic by (auto simp: setup_request_decode_def obind_eq_Panic)
qed

interpretation setup_response: body_codec "\<lambda>m. node_id_wf (sr_node_id m)" setup_response_encode setup_response_decode
proof
  fix m :: AssociationSetupResponse
  assume "node_id_wf (sr_node_id m)"
  then show "setup_response_decode (setup_response_encode m) = Ok m"
    unfolding setup_response_decode_def bodies_tlvs
    by (subst decode_ies_tlvs; cases m)
      (auto simp: run_ies_append run_opt_tlv message_steps node_id.dec_enc node_id_wf_def up_features.dec_enc cp_features.dec_enc
        values_short opt_tlv_def simp del: tlvs_simps split: option.split)
next
  fix b show "setup_response_decode b \<noteq> Panic"
    using decode_ies_no_panic [of setup_response_step] steps_no_panic by (auto simp: setup_response_decode_def obind_eq_Panic)
qed

interpretation release_request: body_codec node_id_wf release_request_encode release_request_decode
proof
  fix n :: LibNodeId
  assume "node_id_wf n"
  then show "release_request_decode (release_request_encode n) = Ok n"
    unfolding release_request_decode_def bodies_tlvs
    by (subst decode_ies_tlvs) (auto simp: message_steps node_id.dec_enc node_id_wf_def simp del: tlvs_simps)
next
  fix b show "release_request_decode b \<noteq> Panic"
    using decode_ies_no_panic [of release_request_step] steps_no_panic by (auto simp: release_request_decode_def obind_eq_Panic)
qed

interpretation release_response: body_codec "\<lambda>(n, c). node_id_wf n" "\<lambda>(n, c). release_response_encode n c" release_response_decode
proof
  fix x :: "LibNodeId \<times> LibCause"
  assume "case x of (n, c) \<Rightarrow> node_id_wf n"
  then show "release_response_decode (case x of (n, c) \<Rightarrow> release_response_encode n c) = Ok x"
    unfolding release_response_decode_def bodies_tlvs
    by (cases x) (simp add: decode_ies_tlvs message_steps node_id.dec_enc node_id_wf_def del: tlvs_simps)
next
  fix b show "release_response_decode b \<noteq> Panic"
    using decode_ies_no_panic [of release_response_step] steps_no_panic by (auto simp: release_response_decode_def obind_eq_Panic)
qed


lemma ascii_lossy: "\<forall>b \<in> set bs. b < 128 \<Longrightarrow> from_utf8_lossy bs = bs"
proof (induction bs)
  case (Cons b bs)
  then show ?case by (subst from_utf8_lossy.simps) (simp add: utf8_chunk_def Let_def octet_at_def)
qed (simp add: from_utf8_lossy.simps)

definition demo_node :: LibNodeId where
  "demo_node = new_fqdn [0x75, 0x70, 0x66, 0x2E, 0x61]"


end
