(* ===== verification/Smf_Client.thy ===== *)
theory Smf_Client
  imports Smf_N4 Pfcp_Node Upf_Pfcp
begin

text \<open>
  The SMF's PFCP endpoint (\<^verbatim>\<open>PfcpClient\<close> of \<^verbatim>\<open>bins/nextgcore-smfd/src/pfcp_path.rs\<close>): wire helpers, request transactions with T1
  retransmission, association setup and release, heartbeats, the reaction to datagrams, and the choice of the UPF for a session.

  A client is a record; an operation takes it together with the map of PFCP sessions of the SMF context, which a torn down
  association empties, and returns both. The responses that a client waits for are the sequence numbers in its map of
  pending transactions. What the network does during a request is an argument: for every transmission, whether it fails,
  is answered before T1 expires, or is not.
\<close>

section \<open>Wire helpers\<close>

definition is_response_type :: "u8 \<Rightarrow> bool" where
  "is_response_type msg_type \<longleftrightarrow> msg_type \<in> {2, 4, 6, 8, 10, 11, 13, 15, 51, 53, 55, 57}"

record WireHeader =
  wh_version :: u8
  wh_msg_type :: u8
  wh_seid_present :: bool
  wh_seid :: u64
  wh_sequence_number :: u32
  wh_body_offset :: nat

definition parse_wire_header :: "bytes \<Rightarrow> WireHeader option" where
  "parse_wire_header pkt =
     (if length pkt < 8 then None
      else
        let version = drop_bit 5 (pkt ! 0); seid_present = (pkt ! 0 AND 0x01 \<noteq> 0); msg_type = pkt ! 1
        in if seid_present
           then if length pkt < 16 then None
                else Some \<lparr>wh_version = version, wh_msg_type = msg_type, wh_seid_present = True, wh_seid = be64_at pkt 4,
                           wh_sequence_number = from_be32 0 (pkt ! 12) (pkt ! 13) (pkt ! 14), wh_body_offset = 16\<rparr>
           else Some \<lparr>wh_version = version, wh_msg_type = msg_type, wh_seid_present = False, wh_seid = 0,
                      wh_sequence_number = from_be32 0 (pkt ! 4) (pkt ! 5) (pkt ! 6), wh_body_offset = 8\<rparr>)"

definition encode_wire_message :: "u8 \<Rightarrow> u64 option \<Rightarrow> u32 \<Rightarrow> bytes \<Rightarrow> bytes" where
  "encode_wire_message msg_type seid seq body =
     (case seid of
        Some seid \<Rightarrow> [0x21, msg_type] @ to_be16 (of_nat (12 + length body)) @ to_be64 seid
      | None \<Rightarrow> [0x20, msg_type] @ to_be16 (of_nat (4 + length body))) @ tl (to_be32 seq) @ [0] @ body"

function (sequential) smf_find_ie :: "bytes \<Rightarrow> u16 \<Rightarrow> bytes option" where
  "smf_find_ie (a # b # c # d # body) t =
     (let l = unat (from_be16 c d)
      in if length body < l then None
         else if from_be16 a b = t then Some (take l body)
         else smf_find_ie (drop l body) t)"
| "smf_find_ie body t = None"
  by pat_completeness auto

termination by (relation "measure (\<lambda>(body, _). length body)") auto

definition parse_cause :: "bytes \<Rightarrow> u8 option" where
  "parse_cause body = Option.bind (smf_find_ie body 19) (\<lambda>v. if v = [] then None else Some (v ! 0))"

definition REQUEST_ACCEPTED :: u8 where "REQUEST_ACCEPTED = 1"

section \<open>State\<close>

datatype PfcpRequestError =
    Timeout u32
  | Rejected u8
  | Local string
  | NotAssociated

record AssociationState =
  as_associated :: bool
  as_peer_recovery_time_stamp :: "u32 option"
  as_up_function_features :: "UpFunctionFeatures option"
  as_peer_load :: "u8 option"
  as_peer_load_seq :: "u32 option"

definition association_default :: AssociationState where
  "association_default =
     \<lparr>as_associated = False, as_peer_recovery_time_stamp = None, as_up_function_features = None, as_peer_load = None,
      as_peer_load_seq = None\<rparr>"

text \<open>The configuration of a timer: the number of retransmissions and the seconds until one.\<close>

record TimerConfig =
  tc_enabled :: bool
  tc_max_count :: u32
  tc_duration_secs :: u64

definition timer_config :: "u32 \<Rightarrow> u64 \<Rightarrow> TimerConfig" where
  "timer_config max_count duration_secs = \<lparr>tc_enabled = True, tc_max_count = max_count, tc_duration_secs = duration_secs\<rparr>"

record SmfTimerConfigs =
  pfcp_association :: TimerConfig
  pfcp_no_heartbeat :: TimerConfig
  pfcp_no_establishment_response :: TimerConfig
  pfcp_no_deletion_response :: TimerConfig

definition smf_timers_default :: SmfTimerConfigs where
  "smf_timers_default =
     \<lparr>pfcp_association = timer_config 3 3, pfcp_no_heartbeat = timer_config 3 10,
      pfcp_no_establishment_response = timer_config 3 3, pfcp_no_deletion_response = timer_config 3 3\<rparr>"

record PfcpClient =
  cl_peer :: SocketAddr
  cl_node_ip :: u32
  cl_recovery_time_stamp :: u32
  cl_pending :: "u32 list"
  cl_assoc :: AssociationState
  cl_timers :: SmfTimerConfigs

type_synonym pfcp_sessions = "(rust_string \<times> u64) list"

definition client_new :: "SocketAddr \<Rightarrow> u32 \<Rightarrow> u32 \<Rightarrow> PfcpClient" where
  "client_new peer node_ip rts =
     \<lparr>cl_peer = peer, cl_node_ip = node_ip, cl_recovery_time_stamp = rts, cl_pending = [], cl_assoc = association_default,
      cl_timers = smf_timers_default\<rparr>"

definition retransmit_params :: "u8 \<Rightarrow> PfcpClient \<Rightarrow> u64 \<times> u32" where
  "retransmit_params msg_type c =
     (let cfg = (if msg_type = SESSION_ESTABLISHMENT_REQUEST \<or> msg_type = SESSION_MODIFICATION_REQUEST
                 then pfcp_no_establishment_response (cl_timers c)
                 else if msg_type = SESSION_DELETION_REQUEST then pfcp_no_deletion_response (cl_timers c)
                 else if msg_type = HEARTBEAT_REQUEST then pfcp_no_heartbeat (cl_timers c)
                 else pfcp_association (cl_timers c))
      in (tc_duration_secs cfg, tc_max_count cfg))"

section \<open>Requests\<close>

text \<open>What becomes of one transmission.\<close>

datatype transmission = SendFails | ChannelClosed | Answered u8 bytes | T1Expires

definition pending_insert :: "u32 \<Rightarrow> PfcpClient \<Rightarrow> PfcpClient" where
  "pending_insert seq c = c\<lparr>cl_pending := List.insert seq (cl_pending c)\<rparr>"

definition pending_remove :: "u32 \<Rightarrow> PfcpClient \<Rightarrow> PfcpClient" where
  "pending_remove seq c = c\<lparr>cl_pending := removeAll seq (cl_pending c)\<rparr>"

text \<open>
  The loop of \<^verbatim>\<open>request\<close>. The slot of an answered transaction was taken out of the map by \<^verbatim>\<open>on_datagram\<close> when the
  answer came in. The number of attempts stays at most \<open>max_attempts\<close>, so that it does not wrap.
\<close>

function request_loop :: "(nat \<Rightarrow> transmission) \<Rightarrow> u32 \<Rightarrow> bytes \<Rightarrow> u32 \<Rightarrow> nat \<Rightarrow> PfcpClient \<Rightarrow>
    (PfcpRequestError, u8 \<times> bytes) outcome \<times> effect list \<times> PfcpClient" where
  "request_loop net seq pkt max_attempts attempt c =
     (let c = pending_insert seq c; sent = [SendTo pkt (cl_peer c)]
      in case net attempt of
           SendFails \<Rightarrow> (Err (Local ''send failed''), sent, pending_remove seq c)
         | Answered resp_type resp_body \<Rightarrow> (Ok (resp_type, resp_body), sent, pending_remove seq c)
         | ChannelClosed \<Rightarrow> (Err (Local ''response channel closed''), sent, c)
         | T1Expires \<Rightarrow>
             let c = pending_remove seq c
             in if unat max_attempts \<le> attempt + 1 then (Err (Timeout max_attempts), sent, c)
                else let (result, es, c) = request_loop net seq pkt max_attempts (attempt + 1) c in (result, sent @ es, c))"
  by pat_completeness auto

termination by (relation "measure (\<lambda>(net, seq, pkt, m, a, c). unat m - a)") auto

declare request_loop.simps [simp del]

definition mark_down :: "PfcpClient \<Rightarrow> PfcpClient" where
  "mark_down c = c\<lparr>cl_assoc := (cl_assoc c)\<lparr>as_associated := False\<rparr>\<rparr>"

text \<open>A request, with the next value of the global sequence number counter.\<close>

definition request :: "(nat \<Rightarrow> transmission) \<Rightarrow> u8 \<Rightarrow> u64 option \<Rightarrow> bytes \<Rightarrow> u32 \<Rightarrow> PfcpClient \<Rightarrow>
    (PfcpRequestError, u8 \<times> bytes) outcome \<times> effect list \<times> u32 \<times> PfcpClient" where
  "request net msg_type seid body counter c =
     (let seq = counter AND 0x00FFFFFF; pkt = encode_wire_message msg_type seid seq body;
          (t1, n1) = retransmit_params msg_type c;
          (result, es, c) = request_loop net seq pkt (n1 + 1) 0 c
      in (result, es, counter + 1, (case result of Err (Timeout _) \<Rightarrow> mark_down c | _ \<Rightarrow> c)))"

section \<open>Association and heartbeat\<close>

text \<open>Sessions of every UPF are flushed, as \<^verbatim>\<open>clear_pfcp_sessions\<close> does.\<close>

definition clear_pfcp_sessions :: "pfcp_sessions \<Rightarrow> nat \<times> pfcp_sessions" where
  "clear_pfcp_sessions ps = (length ps, [])"

definition teardown_association :: "PfcpClient \<Rightarrow> pfcp_sessions \<Rightarrow> PfcpClient \<times> pfcp_sessions" where
  "teardown_association c ps =
     (c\<lparr>cl_assoc := (cl_assoc c)\<lparr>as_associated := False, as_peer_load := None, as_peer_load_seq := None\<rparr>\<rparr>,
      snd (clear_pfcp_sessions ps))"

definition check_peer_restart :: "u32 \<Rightarrow> PfcpClient \<Rightarrow> pfcp_sessions \<Rightarrow> PfcpClient \<times> pfcp_sessions" where
  "check_peer_restart rts c ps =
     (let restarted = (case as_peer_recovery_time_stamp (cl_assoc c) of Some stored \<Rightarrow> stored \<noteq> rts | None \<Rightarrow> False)
      in if restarted
         then let (c, ps) = teardown_association c ps
              in (c\<lparr>cl_assoc := (cl_assoc c)\<lparr>as_peer_recovery_time_stamp := Some rts\<rparr>\<rparr>, ps)
         else (c, ps))"

definition setup_request_body :: "PfcpClient \<Rightarrow> bytes" where
  "setup_request_body c =
     setup_request_encode ((setup_request_new (new_ipv4 (cl_node_ip c)) (cl_recovery_time_stamp c))
       \<lparr>sq_cp_function_features := Some cp_features_default\<rparr>)"

definition associate :: "(nat \<Rightarrow> transmission) \<Rightarrow> u32 \<Rightarrow> PfcpClient \<Rightarrow> pfcp_sessions \<Rightarrow>
    (PfcpRequestError, unit) outcome \<times> effect list \<times> u32 \<times> PfcpClient \<times> pfcp_sessions" where
  "associate net counter c ps =
     (let (result, es, counter, c) = request net ASSOCIATION_SETUP_REQUEST None (setup_request_body c) counter c
      in case result of
           Err e \<Rightarrow> (Err e, es, counter, c, ps)
         | Panic \<Rightarrow> (Panic, es, counter, c, ps)
         | Ok (resp_type, resp_body) \<Rightarrow>
             if resp_type \<noteq> ASSOCIATION_SETUP_RESPONSE then (Err (Local ''unexpected response type''), es, counter, c, ps)
             else case setup_response_decode resp_body of
                    Err e \<Rightarrow> (Err (Local ''malformed response''), es, counter, c, ps)
                  | Panic \<Rightarrow> (Panic, es, counter, c, ps)
                  | Ok resp \<Rightarrow>
                      if sr_cause resp \<noteq> LibCause.RequestAccepted
                      then (Err (Rejected (lib_cause_as_u8 (sr_cause resp))), es, counter, c, ps)
                      else
                        let (c, ps) = check_peer_restart (sr_recovery_time_stamp resp) c ps
                        in (Ok (), es, counter,
                            c\<lparr>cl_assoc := (cl_assoc c)\<lparr>as_associated := True,
                                as_peer_recovery_time_stamp := Some (sr_recovery_time_stamp resp),
                                as_up_function_features := sr_up_function_features resp\<rparr>\<rparr>, ps))"

definition release_association :: "(nat \<Rightarrow> transmission) \<Rightarrow> u32 \<Rightarrow> PfcpClient \<Rightarrow> pfcp_sessions \<Rightarrow>
    (PfcpRequestError, unit) outcome \<times> effect list \<times> u32 \<times> PfcpClient \<times> pfcp_sessions" where
  "release_association net counter c ps =
     (if \<not> as_associated (cl_assoc c) then (Ok (), [], counter, c, ps)
      else
        let (result, es, counter, c) =
              request net ASSOCIATION_RELEASE_REQUEST None (release_request_encode (new_ipv4 (cl_node_ip c))) counter c;
            (c, ps) = teardown_association c ps
        in ((case result of
               Ok (_, body) \<Rightarrow> (case parse_cause body of None \<Rightarrow> Ok () | Some cause \<Rightarrow> if cause = REQUEST_ACCEPTED then Ok () else Err (Rejected cause))
             | Err e \<Rightarrow> Err e
             | Panic \<Rightarrow> Panic), es, counter, c, ps))"

text \<open>\<^verbatim>\<open>find_ie(body, 96).filter(|v| v.len() >= 4).map(..)\<close>\<close>

definition smf_time_stamp :: "bytes \<Rightarrow> u32 option" where
  "smf_time_stamp body = Option.bind (smf_find_ie body 96) (\<lambda>v. if 4 \<le> length v then Some (be32_at v 0) else None)"

definition heartbeat_once :: "(nat \<Rightarrow> transmission) \<Rightarrow> u32 \<Rightarrow> PfcpClient \<Rightarrow> pfcp_sessions \<Rightarrow>
    (PfcpRequestError, bool) outcome \<times> effect list \<times> u32 \<times> PfcpClient \<times> pfcp_sessions" where
  "heartbeat_once net counter c ps =
     (let (result, es, counter, c) =
            request net HEARTBEAT_REQUEST None (heartbeat_request_encode (heartbeat_request_new (cl_recovery_time_stamp c))) counter c
      in case result of
           Err e \<Rightarrow> (Err e, es, counter, c, ps)
         | Panic \<Rightarrow> (Panic, es, counter, c, ps)
         | Ok (_, resp_body) \<Rightarrow>
             let (c, ps) = (case smf_time_stamp resp_body of Some rts \<Rightarrow> check_peer_restart rts c ps | None \<Rightarrow> (c, ps))
             in (Ok True, es, counter, c, ps))"

section \<open>Datagrams\<close>

text \<open>The load metric of a heartbeat, unless its sequence number is older than that of the stored one.\<close>

definition store_load :: "bytes \<Rightarrow> PfcpClient \<Rightarrow> PfcpClient" where
  "store_load body c =
     (case heartbeat_request_decode body of
        Ok hb \<Rightarrow>
          (case hq_load_control_information hb of
             Some lci \<Rightarrow>
               let newer = (case as_peer_load_seq (cl_assoc c) of Some seq \<Rightarrow> seq \<le> lci_sequence_number lci | None \<Rightarrow> True)
               in if newer
                  then c\<lparr>cl_assoc := (cl_assoc c)\<lparr>as_peer_load := Some (min (lci_metric lci) 100),
                          as_peer_load_seq := Some (lci_sequence_number lci)\<rparr>\<rparr>
                  else c
           | None \<Rightarrow> c)
      | _ \<Rightarrow> c)"

text \<open>
  The reaction to a datagram: whether it was consumed, the response that it completes a transaction with (its sequence number,
  type and body), what is sent, and the new state.
\<close>

definition on_datagram :: "bytes \<Rightarrow> SocketAddr \<Rightarrow> PfcpClient \<Rightarrow> pfcp_sessions \<Rightarrow>
    bool \<times> (u32 \<times> u8 \<times> bytes) option \<times> effect list \<times> PfcpClient \<times> pfcp_sessions" where
  "on_datagram pkt from c ps =
     (case parse_wire_header pkt of
        None \<Rightarrow> (False, None, [], c, ps)
      | Some header \<Rightarrow>
          let seq = wh_sequence_number header; t = wh_msg_type header
          in if wh_version header \<noteq> 1
             then (True, None, [SendTo (encode_wire_message 11 None seq []) from], c, ps)
             else
               let body = drop (min (wh_body_offset header) (length pkt)) pkt
               in if is_response_type t
                  then if seq \<in> set (cl_pending c) then (True, Some (seq, t, body), [], pending_remove seq c, ps)
                       else (True, None, [], c, ps)
                  else if t = HEARTBEAT_REQUEST
                  then let (c, ps) = (case smf_time_stamp body of Some rts \<Rightarrow> check_peer_restart rts c ps | None \<Rightarrow> (c, ps));
                           c = store_load body c;
                           resp = build_message PfcpMessageType.HeartbeatResponse
                             (heartbeat_response_encode \<lparr>hr_recovery_time_stamp = cl_recovery_time_stamp c\<rparr>) seq None
                       in (True, None, [SendTo resp from], c, ps)
                  else if t = ASSOCIATION_RELEASE_REQUEST
                  then let resp = build_message PfcpMessageType.AssociationReleaseResponse
                             (release_response_encode (new_ipv4 (cl_node_ip c)) LibCause.RequestAccepted) seq None;
                           (c, ps) = teardown_association c ps
                       in (True, None, [SendTo resp from], c, ps)
                  else (False, None, [], c, ps))"

section \<open>The UPF of a session\<close>

text \<open>
  The clients of the configured UPFs, in order, and the UPF that each session was established on. A client is shared by
  reference; the functions that choose one return its position.
\<close>

record UpfPool =
  pool_clients :: "PfcpClient list"
  session_peers :: "(u64 \<times> SocketAddr) list"

definition client_of_peer :: "SocketAddr \<Rightarrow> UpfPool \<Rightarrow> nat option" where
  "client_of_peer peer p = List.find (\<lambda>i. cl_peer (pool_clients p ! i) = peer) [0..<length (pool_clients p)]"

text \<open>The client that a datagram belongs to; unknown senders belong to the first client.\<close>

definition client_of_sender :: "SocketAddr \<Rightarrow> UpfPool \<Rightarrow> nat" where
  "client_of_sender src p = (case client_of_peer src p of Some i \<Rightarrow> i | None \<Rightarrow> 0)"

definition record_session_peer :: "u64 \<Rightarrow> SocketAddr \<Rightarrow> UpfPool \<Rightarrow> UpfPool" where
  "record_session_peer seid peer p = p\<lparr>session_peers := AList.update seid peer (session_peers p)\<rparr>"

definition forget_session_peer :: "u64 \<Rightarrow> UpfPool \<Rightarrow> UpfPool" where
  "forget_session_peer seid p = p\<lparr>session_peers := AList.delete seid (session_peers p)\<rparr>"

definition global_client :: "UpfPool \<Rightarrow> nat option" where
  "global_client p = (if pool_clients p = [] then None else Some 0)"

definition client_for_session :: "u64 \<Rightarrow> UpfPool \<Rightarrow> nat option" where
  "client_for_session seid p =
     (case map_of (session_peers p) seid of
        Some peer \<Rightarrow> (case client_of_peer peer p of Some i \<Rightarrow> Some i | None \<Rightarrow> global_client p)
      | None \<Rightarrow> global_client p)"

definition load_key :: "u8 option \<Rightarrow> u16" where
  "load_key load = (case load of Some l \<Rightarrow> ucast l | None \<Rightarrow> 0xFFFF)"

text \<open>\<^verbatim>\<open>min_by_key\<close>: of several least elements the first.\<close>

fun min_by_key :: "('a \<Rightarrow> 'k::linorder) \<Rightarrow> 'a list \<Rightarrow> 'a option" where
  "min_by_key key [] = None"
| "min_by_key key (x # xs) =
     Some (fold (\<lambda>y best. if key y < key best then y else best) xs x)"

definition select_least_loaded :: "(bool \<times> u8 option) list \<Rightarrow> nat option" where
  "select_least_loaded candidates =
     map_option fst (min_by_key (\<lambda>(_, _, load). load_key load) (filter (\<lambda>(_, associated, _). associated) (enumerate 0 candidates)))"

definition select_upf_from :: "PfcpClient list \<Rightarrow> nat option" where
  "select_upf_from cs = select_least_loaded (map (\<lambda>c. (as_associated (cl_assoc c), as_peer_load (cl_assoc c))) cs)"

text \<open>The choice for a new session; the flag is the cargo feature \<^verbatim>\<open>compute-aware-upf\<close>, which is off by default.\<close>

definition select_upf :: "bool \<Rightarrow> UpfPool \<Rightarrow> nat option" where
  "select_upf compute_aware p =
     (if \<not> compute_aware then global_client p
      else if length (pool_clients p) > 1
      then (case select_upf_from (pool_clients p) of Some i \<Rightarrow> Some i | None \<Rightarrow> global_client p)
      else global_client p)"

text \<open>The SMF's SEID of a session, by the reference of its SM context.\<close>

definition smf_n4_seid_for :: "rust_string \<Rightarrow> u64" where
  "smf_n4_seid_for sm_context_ref =
     (case parse_unsigned (2 ^ 64 - 1) sm_context_ref of Some n \<Rightarrow> of_nat n | None \<Rightarrow> 1) OR 0x1000"

section \<open>The wire\<close>

text \<open>The SMF and the UPF frame messages alike, and each reads what the other frames.\<close>

lemma encode_wire_build:
  "encode_wire_message t (Some seid) seq body = build_response t seid seq body True"
  "encode_wire_message t None seq body = build_response t x seq body False"
  by (simp_all add: encode_wire_message_def build_response_def)

lemma build_response_wire:
  assumes "seq < 0x1000000"
  shows "\<exists>len. parse_pfcp_header (build_response t seid seq body present) =
      Ok (\<lparr>ph_version = 1, ph_msg_type = t, ph_length = len, ph_seid_present = present, ph_seid = (if present then seid else 0),
           ph_sequence_number = seq\<rparr>, body)"
    and "parse_wire_header (build_response t seid seq body present) =
      Some \<lparr>wh_version = 1, wh_msg_type = t, wh_seid_present = present, wh_seid = (if present then seid else 0),
        wh_sequence_number = seq, wh_body_offset = (if present then 16 else 8)\<rparr>"
    and "drop (if present then 16 else 8) (build_response t seid seq body present) = body"
proof -
  obtain l1 l2 where l: "to_be16 (12 + of_nat (length body)) = [l1, l2]" by (rule to_be16_octets)
  obtain m1 m2 where m: "to_be16 (4 + of_nat (length body)) = [m1, m2]" by (rule to_be16_octets)
  obtain e1 e2 e3 e4 e5 e6 e7 e8 where e: "to_be64 seid = [e1, e2, e3, e4, e5, e6, e7, e8]" "from_be64 e1 e2 e3 e4 e5 e6 e7 e8 = seid"
    by (rule to_be64_octets)
  obtain s1 s2 s3 where q: "to_be32 seq = [0, s1, s2, s3]" "from_be32 0 s1 s2 s3 = seq" using assms by (rule seq_octets)
  show "\<exists>len. parse_pfcp_header (build_response t seid seq body present) =
      Ok (\<lparr>ph_version = 1, ph_msg_type = t, ph_length = len, ph_seid_present = present, ph_seid = (if present then seid else 0),
           ph_sequence_number = seq\<rparr>, body)"
    by (cases present) (simp_all add: parse_pfcp_header_def build_response_def l m e q be16_at_def be64_at_def Let_def)
  show "parse_wire_header (build_response t seid seq body present) =
      Some \<lparr>wh_version = 1, wh_msg_type = t, wh_seid_present = present, wh_seid = (if present then seid else 0),
        wh_sequence_number = seq, wh_body_offset = (if present then 16 else 8)\<rparr>"
    by (cases present) (simp_all add: parse_wire_header_def build_response_def l m e q be64_at_def Let_def)
  show "drop (if present then 16 else 8) (build_response t seid seq body present) = body"
    by (cases present) (simp_all add: build_response_def l m e q Let_def)
qed

lemma seq_below: "counter AND 0x00FFFFFF < (0x1000000 :: u32)"
proof -
  have "counter AND 0x00FFFFFF = take_bit 24 counter" by (simp add: take_bit_eq_mask mask_eq_exp_minus_1)
  then show ?thesis by (simp add: word_below_24)
qed

text \<open>Looking for an element on the fly is looking for it in the list of elements.\<close>

lemma smf_find_ie_elements: "smf_find_ie body t = map_option ie_value (find_ie (parse_all body) t)"
  by (induction body t rule: smf_find_ie.induct) (simp_all add: find_ie_def Let_def)

lemma smf_find_ie_tlvs:
  assumes "length (tlvs xs) < 65536"
  shows "smf_find_ie (tlvs xs) t = map_of xs t"
  unfolding smf_find_ie_elements find_ie_tlvs [OF assms] by (simp add: option.map_comp comp_def ie_of_def option.map_ident)

text \<open>A response of the UPF completes the transaction with its sequence number.\<close>

lemma on_response:
  assumes "seq < 0x1000000" and "is_response_type t" and "seq \<in> set (cl_pending c)"
  shows "on_datagram (build_response t seid seq body present) from c ps = (True, Some (seq, t, body), [], pending_remove seq c, ps)"
proof -
  have drop: "drop (min n (length pkt)) pkt = drop n pkt" for n and pkt :: bytes by (simp add: min_def)
  show ?thesis
    unfolding on_datagram_def build_response_wire(2) [OF assms(1)] Let_def drop
    using build_response_wire(3) [OF assms(1), of present t seid body] assms(2,3) by (cases present) simp_all
qed

section \<open>Transactions\<close>

definition transmission_result :: "transmission \<Rightarrow> (PfcpRequestError, u8 \<times> bytes) outcome" where
  "transmission_result x =
     (case x of SendFails \<Rightarrow> Err (Local ''send failed'') | ChannelClosed \<Rightarrow> Err (Local ''response channel closed'')
      | Answered t b \<Rightarrow> Ok (t, b) | T1Expires \<Rightarrow> Panic)"

lemma pending_rounds [simp]:
  "pending_remove seq (pending_insert seq c) = pending_remove seq c" "pending_remove seq (pending_remove seq c) = pending_remove seq c"
  "cl_peer (pending_remove seq c) = cl_peer c" "cl_peer (pending_insert seq c) = cl_peer c"
  by (simp_all add: pending_remove_def pending_insert_def List.insert_def)

lemma request_loop_spec:
  assumes "a < unat m"
  shows "request_loop net seq pkt m a c =
    (case List.find (\<lambda>i. net i \<noteq> T1Expires) [a..<unat m] of
       None \<Rightarrow> (Err (Timeout m), replicate (unat m - a) (SendTo pkt (cl_peer c)), pending_remove seq c)
     | Some k \<Rightarrow> (transmission_result (net k), replicate (k + 1 - a) (SendTo pkt (cl_peer c)),
         if net k = ChannelClosed then pending_insert seq (if k = a then c else pending_remove seq c) else pending_remove seq c))"
  using assms
proof (induction "unat m - a" arbitrary: a c)
  case (Suc n)
  have range: "[a..<unat m] = a # [Suc a..<unat m]" using Suc.prems by (rule upt_conv_Cons)
  show ?case
  proof (cases "net a")
    case T1Expires
    show ?thesis
    proof (cases "unat m \<le> a + 1")
      case True
      then have "[Suc a..<unat m] = []" "unat m - a = 1" using Suc.prems by simp_all
      then show ?thesis using True T1Expires unfolding range by (simp add: request_loop.simps [of _ _ _ _ a])
    next
      case False
      then have IH: "request_loop net seq pkt m (Suc a) c' =
        (case List.find (\<lambda>i. net i \<noteq> T1Expires) [Suc a..<unat m] of
           None \<Rightarrow> (Err (Timeout m), replicate (unat m - Suc a) (SendTo pkt (cl_peer c')), pending_remove seq c')
         | Some k \<Rightarrow> (transmission_result (net k), replicate (k + 1 - Suc a) (SendTo pkt (cl_peer c')),
             if net k = ChannelClosed then pending_insert seq (if k = Suc a then c' else pending_remove seq c') else pending_remove seq c'))" for c'
        using Suc by (intro Suc.hyps(1)) auto
      have "k \<ge> Suc a" if "List.find (\<lambda>i. net i \<noteq> T1Expires) [Suc a..<unat m] = Some k" for k
        using that by (auto simp: find_Some_iff)
      moreover have "unat m - a = Suc (unat m - Suc a)" using False by simp
      ultimately show ?thesis
        using False T1Expires unfolding range
        by (subst request_loop.simps) (auto simp: IH Let_def Suc_diff_le split: option.split)
    qed
  qed (simp_all add: request_loop.simps [of _ _ _ _ a] range transmission_result_def)
qed simp

lemma default_params: "cl_timers c = smf_timers_default \<Longrightarrow> snd (retransmit_params t c) = 3"
  by (simp add: retransmit_params_def smf_timers_default_def timer_config_def)

lemma request_transaction:
  assumes "cl_timers c = smf_timers_default"
  shows "request net t seid body counter c =
    (let seq = counter AND 0x00FFFFFF; sent = (\<lambda>n. replicate n (SendTo (encode_wire_message t seid seq body) (cl_peer c)))
     in case List.find (\<lambda>i. net i \<noteq> T1Expires) [0..<4] of
          None \<Rightarrow> (Err (Timeout 4), sent 4, counter + 1, mark_down (pending_remove seq c))
        | Some k \<Rightarrow> (transmission_result (net k), sent (k + 1), counter + 1,
            if net k = ChannelClosed then pending_insert seq (if k = 0 then c else pending_remove seq c) else pending_remove seq c))"
proof -
  obtain t1 where params: "retransmit_params t c = (t1, 3)" using default_params [OF assms, of t] by (metis prod.collapse)
  have "transmission_result x \<noteq> Err (Timeout m)" for x m by (simp add: transmission_result_def split: transmission.split)
  then show ?thesis
    unfolding request_def params Let_def prod.case
    using request_loop_spec [of 0 4 net "counter AND 0x00FFFFFF" "encode_wire_message t seid (counter AND 0x00FFFFFF) body" c]
    by (auto simp: transmission_result_def split: option.split transmission.split)
qed

text \<open>
  C16: A request of the SMF returns after at most four transmissions of one datagram, whatever the network does. It returns the
  answer to the first transmission that is answered before T1 expires, having sent the datagram once for it and once for every earlier one;
  a failed transmission ends it with an error; when all four expire, it reports a timeout and the association is down.
  The transaction is no longer pending then, unless its channel was closed.
\<close>

theorem smf_request_transaction:
  assumes "cl_timers c = smf_timers_default"
  shows "request net t seid body counter c =
    (let seq = counter AND 0x00FFFFFF; sent = (\<lambda>n. replicate n (SendTo (encode_wire_message t seid seq body) (cl_peer c)))
     in case List.find (\<lambda>i. net i \<noteq> T1Expires) [0..<4] of
          None \<Rightarrow> (Err (Timeout 4), sent 4, counter + 1, mark_down (pending_remove seq c))
        | Some k \<Rightarrow> (transmission_result (net k), sent (k + 1), counter + 1,
            if net k = ChannelClosed then pending_insert seq (if k = 0 then c else pending_remove seq c) else pending_remove seq c))"
  using request_transaction [OF assms] .

definition demo_client :: PfcpClient where
  "demo_client = client_new \<lparr>sock_ip = V4 0x7F000007, sock_port = 8805\<rparr> 0x7F000004 9"

theorem smf_request_transaction_witness:
  "fst (request (\<lambda>i. if i < 2 then T1Expires else Answered 55 [0, 19, 0, 1, 1]) SESSION_DELETION_REQUEST (Some 7) [] 41 demo_client) =
     Ok (55, [0, 19, 0, 1, 1]) \<and>
   length (fst (snd (request (\<lambda>i. if i < 2 then T1Expires else Answered 55 [0, 19, 0, 1, 1]) SESSION_DELETION_REQUEST (Some 7) [] 41 demo_client))) = 3"
proof -
  let ?net = "\<lambda>i. if i < 2 then T1Expires else Answered 55 [0, 19, 0, 1, 1]"
  have "List.find (\<lambda>i. ?net i \<noteq> T1Expires) [0..<4] = Some 2" by (simp add: upt_rec)
  moreover have "cl_timers demo_client = smf_timers_default" by (simp add: demo_client_def client_new_def)
  from smf_request_transaction [OF this, of ?net SESSION_DELETION_REQUEST "Some 7" "[]" 41]
  have "request ?net SESSION_DELETION_REQUEST (Some 7) [] 41 demo_client =
    (let seq = 41 AND 0x00FFFFFF; sent = (\<lambda>n. replicate n (SendTo (encode_wire_message SESSION_DELETION_REQUEST (Some 7) seq []) (cl_peer demo_client)))
     in case List.find (\<lambda>i. ?net i \<noteq> T1Expires) [0..<4] of
          None \<Rightarrow> (Err (Timeout 4), sent 4, 41 + 1, mark_down (pending_remove seq demo_client))
        | Some k \<Rightarrow> (transmission_result (?net k), sent (k + 1), 41 + 1,
            if ?net k = ChannelClosed then pending_insert seq (if k = 0 then demo_client else pending_remove seq demo_client)
            else pending_remove seq demo_client))" .
  ultimately show ?thesis by (simp add: Let_def transmission_result_def)
qed

section \<open>Association with the UPF\<close>

lemma setup_body_tlvs:
  "setup_request_body c =
     tlvs [(NODE_ID, lib_node_id_encode (new_ipv4 (cl_node_ip c))), (RECOVERY_TIME_STAMP, to_be32 (cl_recovery_time_stamp c)),
       (CP_FUNCTION_FEATURES, cp_features_encode cp_features_default)]"
  unfolding setup_request_body_def bodies_tlvs by (simp add: setup_request_new_def opt_tlv_def del: tlvs_simps)

lemma setup_body_read:
  "find_ie (parse_all (setup_request_body c)) NODE_ID \<noteq> None"
  "parse_recovery_time_stamp (setup_request_body c) = Some (cl_recovery_time_stamp c)"
proof -
  have short: "length (tlvs [(NODE_ID, lib_node_id_encode (new_ipv4 (cl_node_ip c))), (RECOVERY_TIME_STAMP, to_be32 (cl_recovery_time_stamp c)),
       (CP_FUNCTION_FEATURES, cp_features_encode cp_features_default)]) < 65536"
    by (simp add: values_short lib_node_id_encode_def new_ipv4_def)
  show "find_ie (parse_all (setup_request_body c)) NODE_ID \<noteq> None"
    "parse_recovery_time_stamp (setup_request_body c) = Some (cl_recovery_time_stamp c)"
    unfolding setup_body_tlvs parse_recovery_time_stamp_def reads_tlvs [OF short] by (simp_all add: pfcp_ie)
qed

text \<open>What the SMF decodes from the UPF's answer.\<close>

lemma setup_answer_decoded:
  "\<exists>f. up_features_decode upf_function_features = Ok f \<and> uf_ftup f \<and> uf_empu f \<and>
     setup_response_decode (build_association_setup_response (NodeIpv4 a) rts PfcpCause.RequestAccepted) =
       Ok \<lparr>sr_node_id = new_ipv4 a, sr_cause = LibCause.RequestAccepted, sr_recovery_time_stamp = rts,
           sr_up_function_features = Some f, sr_cp_function_features = None\<rparr>"
proof -
  obtain f where f: "up_features_decode upf_function_features = Ok f" "uf_ftup f" "uf_empu f"
    by (simp add: upf_function_features_def up_features_decode_def feature_bit_def)
  have body: "build_association_setup_response (NodeIpv4 a) rts PfcpCause.RequestAccepted =
      tlvs [(NODE_ID, 0 # to_be32 a), (CAUSE, [1]), (RECOVERY_TIME_STAMP, to_be32 rts), (UP_FUNCTION_FEATURES, upf_function_features)]"
    by (simp add: build_association_setup_response_def add_node_id_def add_cause_def add_u8_def add_u32_def) (simp add: add_tlv_def)
  have "lib_node_id_decode (0 # to_be32 a) = Ok (new_ipv4 a)"
    by (simp add: lib_node_id_decode_def node_id_type_try_from_def)
  moreover have "cause_from_wire 1 = LibCause.RequestAccepted" by (simp add: cause_from_wire_def lib_cause_try_from_def)
  ultimately show ?thesis
    using f unfolding body setup_response_decode_def
    by (subst decode_ies_tlvs) (simp_all add: message_steps UP_FUNCTION_FEATURES_def upf_function_features_def)
qed

lemma upf_setup_answer:
  assumes "seq < 0x1000000"
  shows "\<exists>evs s'. handle_message True (encode_wire_message ASSOCIATION_SETUP_REQUEST None seq (setup_request_body c)) src s dp =
      ((Ok (), [SendTo (build_response ASSOCIATION_SETUP_RESPONSE 0 seq
          (build_association_setup_response (local_node_id s) (recovery_time_stamp s) PfcpCause.RequestAccepted) False) src], evs, s'), dp) \<and>
    association s' = Some \<lparr>peer_addr = src, peer_recovery_time_stamp = cl_recovery_time_stamp c\<rparr>"
proof -
  obtain len where header: "parse_pfcp_header (encode_wire_message ASSOCIATION_SETUP_REQUEST None seq (setup_request_body c)) =
      Ok (\<lparr>ph_version = 1, ph_msg_type = ASSOCIATION_SETUP_REQUEST, ph_length = len, ph_seid_present = False, ph_seid = 0,
           ph_sequence_number = seq\<rparr>, setup_request_body c)"
    using build_response_wire(1) [OF assms, of ASSOCIATION_SETUP_REQUEST 0 "setup_request_body c" False]
    unfolding encode_wire_build(2) [where x = 0] by auto
  obtain evs s1 where check: "check_peer_recovery src (cl_recovery_time_stamp c) s = (evs, s1)" by force
  have same: "local_node_id s1 = local_node_id s" "recovery_time_stamp s1 = recovery_time_stamp s"
    using check by (auto simp: check_peer_recovery_def declare_peer_failure_def split: if_split_asm option.split_asm)
  have present: "(find_ie (parse_all (setup_request_body c)) NODE_ID \<noteq> None) = True" using setup_body_read(1) by simp
  have handler: "handle_association_setup_request True h (setup_request_body c) src s =
      (Ok (), [SendTo (build_response ASSOCIATION_SETUP_RESPONSE 0 (ph_sequence_number h)
          (build_association_setup_response (local_node_id s) (recovery_time_stamp s) PfcpCause.RequestAccepted) False) src], evs,
        s1\<lparr>association := Some \<lparr>peer_addr = src, peer_recovery_time_stamp = cl_recovery_time_stamp c\<rparr>\<rparr>)" for h
    unfolding handle_association_setup_request_def present setup_body_read(2) Let_def by (simp add: check same)
  show ?thesis
    unfolding handle_message_def header by (simp add: pfcp_type handler)
qed

text \<open>
  C17: The Association Setup of the SMF with the UPF agrees: the UPF accepts the SMF's request from any address and records that address with the
  SMF's Recovery Time Stamp. Its answer completes the SMF's transaction; when it arrives before the fourth T1 expires, the
  SMF is associated, holds the UPF's Recovery Time Stamp and features (F-TEID allocation and End Markers), and has flushed its
  sessions exactly if the time stamp shows that the UPF restarted.
\<close>

theorem smf_upf_association:
  assumes "cl_timers c = smf_timers_default" and "local_node_id s = NodeIpv4 a"
  shows "\<exists>resp body evs s'. let seq = counter AND 0x00FFFFFF; pkt = encode_wire_message ASSOCIATION_SETUP_REQUEST None seq (setup_request_body c)
    in handle_message True pkt src s dp = ((Ok (), [SendTo resp src], evs, s'), dp) \<and>
       association s' = Some \<lparr>peer_addr = src, peer_recovery_time_stamp = cl_recovery_time_stamp c\<rparr> \<and>
       on_datagram resp from (pending_insert seq c) ps = (True, Some (seq, ASSOCIATION_SETUP_RESPONSE, body), [], pending_remove seq c, ps) \<and>
       (\<forall>net k. k < 4 \<longrightarrow> (\<forall>i<k. net i = T1Expires) \<longrightarrow> net k = Answered ASSOCIATION_SETUP_RESPONSE body \<longrightarrow>
         (\<exists>c' f. associate net counter c ps = (Ok (), replicate (k + 1) (SendTo pkt (cl_peer c)), counter + 1, c',
               if as_peer_recovery_time_stamp (cl_assoc c) \<in> {None, Some (recovery_time_stamp s)} then ps else []) \<and>
           as_associated (cl_assoc c') \<and> as_peer_recovery_time_stamp (cl_assoc c') = Some (recovery_time_stamp s) \<and>
           as_up_function_features (cl_assoc c') = Some f \<and> uf_ftup f \<and> uf_empu f))"
proof -
  let ?seq = "counter AND 0x00FFFFFF"
  let ?pkt = "encode_wire_message ASSOCIATION_SETUP_REQUEST None ?seq (setup_request_body c)"
  let ?body = "build_association_setup_response (local_node_id s) (recovery_time_stamp s) PfcpCause.RequestAccepted"
  let ?resp = "build_response ASSOCIATION_SETUP_RESPONSE 0 ?seq ?body False"
  obtain evs s' where upf: "handle_message True ?pkt src s dp = ((Ok (), [SendTo ?resp src], evs, s'), dp)"
    "association s' = Some \<lparr>peer_addr = src, peer_recovery_time_stamp = cl_recovery_time_stamp c\<rparr>"
    using upf_setup_answer [OF seq_below] by blast
  have smf: "on_datagram ?resp from (pending_insert ?seq c) ps =
      (True, Some (?seq, ASSOCIATION_SETUP_RESPONSE, ?body), [], pending_remove ?seq c, ps)"
    using on_response [OF seq_below, of ASSOCIATION_SETUP_RESPONSE counter "pending_insert ?seq c"]
    by (simp add: is_response_type_def pfcp_type) (simp add: pending_insert_def)
  obtain f where f: "uf_ftup f" "uf_empu f" and dec: "setup_response_decode ?body =
      Ok \<lparr>sr_node_id = new_ipv4 a, sr_cause = LibCause.RequestAccepted, sr_recovery_time_stamp = recovery_time_stamp s,
          sr_up_function_features = Some f, sr_cp_function_features = None\<rparr>"
    using setup_answer_decoded [of a "recovery_time_stamp s"] assms(2) by auto
  have "\<exists>c' f. associate net counter c ps = (Ok (), replicate (k + 1) (SendTo ?pkt (cl_peer c)), counter + 1, c',
      if as_peer_recovery_time_stamp (cl_assoc c) \<in> {None, Some (recovery_time_stamp s)} then ps else []) \<and>
      as_associated (cl_assoc c') \<and> as_peer_recovery_time_stamp (cl_assoc c') = Some (recovery_time_stamp s) \<and>
      as_up_function_features (cl_assoc c') = Some f \<and> uf_ftup f \<and> uf_empu f"
    if k: "k < 4" "\<forall>i<k. net i = T1Expires" "net k = Answered ASSOCIATION_SETUP_RESPONSE ?body" for net k
  proof -
    have "List.find (\<lambda>i. net i \<noteq> T1Expires) [0..<4] = Some k"
      using k by (auto simp: find_Some_iff intro!: exI [of _ k])
    then have "request net ASSOCIATION_SETUP_REQUEST None (setup_request_body c) counter c =
        (Ok (ASSOCIATION_SETUP_RESPONSE, ?body), replicate (k + 1) (SendTo ?pkt (cl_peer c)), counter + 1, pending_remove ?seq c)"
      using request_transaction [OF assms(1), of net ASSOCIATION_SETUP_REQUEST None "setup_request_body c" counter] k(3)
      by (simp add: Let_def transmission_result_def)
    then show ?thesis
      using f unfolding associate_def
      by (cases "as_peer_recovery_time_stamp (cl_assoc c)")
        (auto simp: dec check_peer_restart_def teardown_association_def clear_pfcp_sessions_def pending_remove_def)
  qed
  with upf smf show ?thesis unfolding Let_def by blast
qed

theorem smf_upf_association_witness:
  "\<exists>resp body evs s' c' ps'.
     handle_message True (encode_wire_message ASSOCIATION_SETUP_REQUEST None 1 (setup_request_body demo_client)) demo_smf demo_server
       (None :: nat DataPlane option) = ((Ok (), [SendTo resp demo_smf], evs, s'), None) \<and>
     fst (associate (\<lambda>i. if i = 0 then T1Expires else Answered ASSOCIATION_SETUP_RESPONSE body) 1 demo_client [([0x31], 1)]) = Ok () \<and>
     snd (snd (snd (associate (\<lambda>i. if i = 0 then T1Expires else Answered ASSOCIATION_SETUP_RESPONSE body) 1 demo_client [([0x31], 1)]))) =
       (c', ps') \<and> as_associated (cl_assoc c') \<and> ps' = [([0x31], 1)]"
proof -
  have timers: "cl_timers demo_client = smf_timers_default" and node: "local_node_id demo_server = NodeIpv4 0x7F000007"
    and fresh: "as_peer_recovery_time_stamp (cl_assoc demo_client) = None"
    by (simp_all add: demo_client_def client_new_def association_default_def demo_server_def server_new_def)
  have kept: "(if None \<in> {None, Some r} then x else y) = x" for r :: u32 and x y :: pfcp_sessions by simp
  have one: "(1 :: u32) AND 0x00FFFFFF = 1" by simp
  show ?thesis
    using smf_upf_association [OF timers node, of 1 demo_smf "None :: nat DataPlane option" demo_smf "[([0x31], 1)]"]
    unfolding Let_def fresh kept one
  proof (elim exE conjE, goal_cases)
    case (1 resp body evs s')
    have "\<exists>c'. fst (associate (\<lambda>i. if i = 0 then T1Expires else Answered ASSOCIATION_SETUP_RESPONSE body) 1 demo_client [([0x31], 1)]) = Ok () \<and>
        snd (snd (snd (associate (\<lambda>i. if i = 0 then T1Expires else Answered ASSOCIATION_SETUP_RESPONSE body) 1 demo_client [([0x31], 1)]))) =
          (c', [([0x31], 1)]) \<and> as_associated (cl_assoc c')"
      using 1(4) [rule_format, of 1 "\<lambda>i. if i = 0 then T1Expires else Answered ASSOCIATION_SETUP_RESPONSE body"] by auto
    with 1(1) show ?case by blast
  qed
qed

section \<open>A heartbeat from anybody\<close>

text \<open>
  A Heartbeat Request with a foreign Recovery Time Stamp ends the association and flushes the sessions of all UPFs,
  whatever address it comes from: the sender is not compared with the peer.
\<close>

lemma heartbeat_from_anyone:
  assumes "as_peer_recovery_time_stamp (cl_assoc c) = Some stored" and "stored \<noteq> rts" and "seq < 0x1000000"
    and "on_datagram (encode_wire_message HEARTBEAT_REQUEST None seq (heartbeat_request_encode (heartbeat_request_new rts))) from c ps =
      (consumed, resp, es, c', ps')"
  shows "ps' = [] \<and> \<not> as_associated (cl_assoc c') \<and> as_peer_recovery_time_stamp (cl_assoc c') = Some rts"
proof -
  let ?body = "heartbeat_request_encode (heartbeat_request_new rts)"
  have body: "?body = tlvs [(RECOVERY_TIME_STAMP, to_be32 rts)]"
    unfolding bodies_tlvs by (simp add: heartbeat_request_new_def opt_tlv_def del: tlvs_simps)
  have "smf_find_ie (tlvs [(RECOVERY_TIME_STAMP, to_be32 rts)]) 96 = Some (to_be32 rts)"
    by (subst smf_find_ie_tlvs) (simp_all add: pfcp_ie)
  then have rts: "smf_time_stamp ?body = Some rts" unfolding body smf_time_stamp_def by simp
  have load: "store_load ?body x = x" for x
    by (simp add: store_load_def heartbeat_request.dec_enc heartbeat_request_new_def)
  have drop: "drop (min n (length pkt)) pkt = drop n pkt" for n and pkt :: bytes by (simp add: min_def)
  have "on_datagram (build_response HEARTBEAT_REQUEST 0 seq ?body False) from c ps = (consumed, resp, es, c', ps')"
    using assms(4) unfolding encode_wire_build(2) [where x = 0] .
  then show ?thesis
    using build_response_wire(3) [OF assms(3), of False HEARTBEAT_REQUEST 0 ?body] assms(1,2)
    unfolding on_datagram_def build_response_wire(2) [OF assms(3)] Let_def drop
    by (auto simp: is_response_type_def pfcp_type rts load check_peer_restart_def teardown_association_def clear_pfcp_sessions_def)
qed

section \<open>Choosing the UPF of a session\<close>

lemma fold_least:
  fixes key :: "'a \<Rightarrow> 'k::linorder"
  assumes "\<And>z. z \<in> set (x # xs) \<Longrightarrow> pos z \<ge> (lo :: nat)" and "sorted_wrt (\<lambda>y z. pos y < pos z) (x # xs)"
  defines "b \<equiv> fold (\<lambda>y best. if key y < key best then y else best) xs x"
  shows "b \<in> set (x # xs) \<and> (\<forall>z \<in> set (x # xs). key b \<le> key z \<and> (key z = key b \<longrightarrow> pos b \<le> pos z))"
  using assms(2) unfolding b_def
proof (induction xs rule: rev_induct)
  case (snoc y xs)
  let ?b = "fold (\<lambda>y best. if key y < key best then y else best) xs x"
  have IH: "?b \<in> set (x # xs)" "\<forall>z \<in> set (x # xs). key ?b \<le> key z \<and> (key z = key ?b \<longrightarrow> pos ?b \<le> pos z)"
    using snoc by (auto simp: sorted_wrt_append)
  moreover have "pos z < pos y" if "z \<in> set (x # xs)" for z using snoc.prems that by (auto simp: sorted_wrt_append)
  ultimately show ?case by (auto simp: not_less less_imp_le intro: order.trans)
qed simp

lemma enumerate_sorted: "sorted_wrt (\<lambda>x y. fst x < fst y) (filter P (enumerate n xs))"
proof -
  have "sorted_wrt (\<lambda>x y. fst x < fst y) (enumerate n xs)"
    by (induction xs arbitrary: n) (auto simp: in_set_enumerate_eq)
  then show ?thesis by (rule sorted_wrt_filter)
qed

text \<open>
  The load-aware choice of a UPF picks an associated one whenever there is one, of least reported load, an unreported load counting as the
  highest, and of several such the first in the configuration.
\<close>

lemma least_loaded_spec:
  "case select_least_loaded cs of
     None \<Rightarrow> \<forall>j < length cs. \<not> fst (cs ! j)
   | Some i \<Rightarrow> i < length cs \<and> fst (cs ! i) \<and>
       (\<forall>j < length cs. fst (cs ! j) \<longrightarrow> load_key (snd (cs ! i)) \<le> load_key (snd (cs ! j)) \<and>
          (load_key (snd (cs ! j)) = load_key (snd (cs ! i)) \<longrightarrow> i \<le> j))"
proof (cases "filter (\<lambda>(_, associated, _). associated) (enumerate 0 cs)")
  case Nil
  then have "\<not> fst (cs ! j)" if "j < length cs" for j
    using that in_set_enumerate_eq [of "(j, cs ! j)" 0 cs] by (cases "cs ! j") (force simp: filter_empty_conv)
  with Nil show ?thesis by (simp add: select_least_loaded_def)
next
  case (Cons x xs)
  let ?key = "\<lambda>y :: nat \<times> bool \<times> u8 option. load_key (snd (snd y))"
  define b where "b = fold (\<lambda>y best. if ?key y < ?key best then y else best) xs x"
  have least: "b \<in> set (x # xs)" "\<forall>z \<in> set (x # xs). ?key b \<le> ?key z \<and> (?key z = ?key b \<longrightarrow> fst b \<le> fst z)"
    using fold_least [of x xs 0 fst ?key] enumerate_sorted [of "\<lambda>(_, associated, _). associated" 0 cs] Cons
    by (auto simp: b_def)
  have member: "(i, a, l) \<in> set (x # xs) \<longleftrightarrow> i < length cs \<and> cs ! i = (a, l) \<and> a" for i a l
    unfolding Cons [symmetric] by (auto simp: in_set_enumerate_eq)
  have choice: "select_least_loaded cs = Some (fst b)"
    unfolding select_least_loaded_def Cons b_def by (simp add: case_prod_unfold)
  obtain i a l where b: "b = (i, a, l)" by (cases b)
  have "?key b \<le> load_key (snd (cs ! j)) \<and> (load_key (snd (cs ! j)) = ?key b \<longrightarrow> i \<le> j)" if "j < length cs" "fst (cs ! j)" for j
  proof -
    have "(j, fst (cs ! j), snd (cs ! j)) \<in> set (x # xs)" using that unfolding member by (cases "cs ! j") simp
    from bspec [OF least(2) this] show ?thesis unfolding b by simp
  qed
  then show ?thesis using choice least(1) member [of i a l] b by simp
qed

section \<open>The SMF's session identifiers\<close>

text \<open>References of SM contexts are decimal numbers of a counter.\<close>

lemma seid_of_ref: "n < 2 ^ 64 \<Longrightarrow> smf_n4_seid_for (print_number 10 n) = of_nat n OR 0x1000"
  by (simp add: smf_n4_seid_for_def parse_print)

lemma seid_eq_iff:
  assumes "n < 2 ^ 64" and "m < 2 ^ 64"
  shows "smf_n4_seid_for (print_number 10 n) = smf_n4_seid_for (print_number 10 m) \<longleftrightarrow> n OR 4096 = m OR 4096"
proof -
  have nat: "unat (of_nat k OR 0x1000 :: u64) = k OR 4096" if "k < 2 ^ 64" for k
    using that by (simp add: unsigned_or_eq unsigned_of_nat take_bit_nat_eq_self)
  have "(of_nat n OR 0x1000 :: u64) = of_nat m OR 0x1000 \<longleftrightarrow> n OR 4096 = m OR 4096"
    using nat [OF assms(1)] nat [OF assms(2)] by (metis unsigned_word_eqI word_unat_eq_iff)
  then show ?thesis using assms by (simp add: seid_of_ref)
qed

text \<open>
  The SEIDs by which the SMF identifies its sessions to the UPF, and by which it remembers the UPF of a session, are distinct exactly for
  SM contexts whose numbers differ in another bit than bit 12: the first 4096 contexts get different ones,
  but contexts 1 and 4097 share theirs, and so do all contexts whose reference is not a number with context 1.
\<close>

lemma smf_seid_distinct:
  assumes "n < 2 ^ 64" and "m < 2 ^ 64"
  shows "(smf_n4_seid_for (print_number 10 n) = smf_n4_seid_for (print_number 10 m) \<longleftrightarrow> n OR 4096 = m OR 4096) \<and>
    (n < 4096 \<longrightarrow> m < 4096 \<longrightarrow> smf_n4_seid_for (print_number 10 n) = smf_n4_seid_for (print_number 10 m) \<longrightarrow> n = m) \<and>
    smf_n4_seid_for (print_number 10 1) = smf_n4_seid_for (print_number 10 4097) \<and>
    (\<forall>ref. parse_unsigned (2 ^ 64 - 1) ref = None \<longrightarrow> smf_n4_seid_for ref = smf_n4_seid_for (print_number 10 1))"
proof -
  have low: "take_bit 12 (k OR 4096) = k" if "k < 4096" for k :: nat
    using that take_bit_nat_eq_self [of k 12] by (simp add: take_bit_or)
  have "n = m" if "n < 4096" "m < 4096" "smf_n4_seid_for (print_number 10 n) = smf_n4_seid_for (print_number 10 m)"
    using that seid_eq_iff [OF assms] low by metis
  moreover have "smf_n4_seid_for (print_number 10 1) = smf_n4_seid_for (print_number 10 4097)"
    by (subst seid_eq_iff) simp_all
  moreover have "smf_n4_seid_for ref = smf_n4_seid_for (print_number 10 1)" if "parse_unsigned (2 ^ 64 - 1) ref = None" for ref
    using that by (simp add: smf_n4_seid_for_def parse_print)
  ultimately show ?thesis using seid_eq_iff [OF assms] by blast
qed

end
