(* ===== verification/Smf_Session.thy ===== *)
theory Smf_Session
  imports Smf_Client Upf_Index
begin

text \<open>
  Sessions between the SMF and the UPF. The SMF's side: the messages of \<^verbatim>\<open>bins/nextgcore-smfd/src/n4_build.rs\<close> and the procedures of
  \<^verbatim>\<open>bins/nextgcore-smfd/src/main.rs\<close> that establish, modify and delete a session and answer session reports. The UPF's side is
  \<open>Upf_Pfcp\<close>. The theorems put the two together: what the SMF asks for is what the UPF hands to its data plane, and
  what the UPF answers is what the SMF stores.
\<close>

section \<open>Messages of the SMF\<close>

type_synonym user_identity = "bytes \<times> bytes option \<times> bytes option"

definition smf_session_header :: "u64 \<Rightarrow> bytes \<Rightarrow> u32 option \<Rightarrow> Ipv6Addr option \<Rightarrow> u8 option \<Rightarrow> rust_string option \<Rightarrow>
    (u8 \<times> u32 option) option \<Rightarrow> user_identity option \<Rightarrow> bool \<Rightarrow> bytes" where
  "smf_session_header smf_n4_seid node_id local_addr_v4 local_addr_v6 pdn_type apn_dnn s_nssai user_id restoration_indication =
     (let b = smf_add_node_id node_id [];
          b = smf_add_f_seid smf_n4_seid local_addr_v4 local_addr_v6 b;
          b = add_opt smf_add_pdn_type pdn_type b;
          b = add_opt (\<lambda>(imsi, imeisv, msisdn). smf_add_user_id (Some imsi) imeisv msisdn) user_id b;
          b = add_opt smf_add_apn_dnn apn_dnn b;
          b = add_opt (\<lambda>(sst, sd). smf_add_s_nssai sst sd) s_nssai b
      in if restoration_indication then smf_add_pfcpsereq_flags True b else b)"

definition build_session_establishment_request :: "u64 \<Rightarrow> bytes \<Rightarrow> u32 option \<Rightarrow> Ipv6Addr option \<Rightarrow> u8 option \<Rightarrow>
    rust_string option \<Rightarrow> (u8 \<times> u32 option) option \<Rightarrow> user_identity option \<Rightarrow> bool \<Rightarrow> bytes" where
  "build_session_establishment_request = smf_session_header"

definition build_session_establishment_request_full :: "u64 \<Rightarrow> bytes \<Rightarrow> u32 option \<Rightarrow> Ipv6Addr option \<Rightarrow> u8 option \<Rightarrow>
    rust_string option \<Rightarrow> (u8 \<times> u32 option) option \<Rightarrow> user_identity option \<Rightarrow> bool \<Rightarrow>
    PdrParams list \<Rightarrow> FarParams list \<Rightarrow> QerParams list \<Rightarrow> UrrParams list \<Rightarrow> BarParams list \<Rightarrow> bytes" where
  "build_session_establishment_request_full smf_n4_seid node_id local_addr_v4 local_addr_v6 pdn_type apn_dnn s_nssai user_id
       restoration_indication create_pdrs create_fars create_qers create_urrs create_bars =
     (let b = smf_session_header smf_n4_seid node_id local_addr_v4 local_addr_v6 pdn_type apn_dnn s_nssai user_id restoration_indication;
          b = fold (\<lambda>pdr. smf_add_tlv CREATE_PDR (build_create_pdr pdr)) create_pdrs b;
          b = fold (\<lambda>far. smf_add_tlv CREATE_FAR (build_create_far far)) create_fars b;
          b = fold (\<lambda>qer. smf_add_tlv CREATE_QER (build_create_qer qer)) create_qers b;
          b = fold (\<lambda>urr. smf_add_tlv CREATE_URR (build_create_urr urr)) create_urrs b
      in fold (\<lambda>bar. smf_add_tlv CREATE_BAR (build_create_bar bar)) create_bars b)"

record SessionModificationParams =
  sm_create_pdrs :: "PdrParams list"
  sm_update_pdrs :: "(u16 \<times> u8 option) list"
  sm_remove_pdr_ids :: "u16 list"
  sm_create_fars :: "FarParams list"
  sm_update_fars_activate :: "(u32 \<times> u8 \<times> outer_header option \<times> bool) list"
  sm_update_fars_deactivate :: "u32 list"
  sm_remove_far_ids :: "u32 list"
  sm_create_qers :: "QerParams list"
  sm_update_qers :: "QerParams list"
  sm_remove_qer_ids :: "u32 list"
  sm_create_urrs :: "UrrParams list"
  sm_update_urrs :: "(UrrParams \<times> u64) list"
  sm_remove_urr_ids :: "u32 list"

definition modification_default :: SessionModificationParams where
  "modification_default =
     \<lparr>sm_create_pdrs = [], sm_update_pdrs = [], sm_remove_pdr_ids = [], sm_create_fars = [], sm_update_fars_activate = [],
      sm_update_fars_deactivate = [], sm_remove_far_ids = [], sm_create_qers = [], sm_update_qers = [], sm_remove_qer_ids = [],
      sm_create_urrs = [], sm_update_urrs = [], sm_remove_urr_ids = []\<rparr>"

definition build_session_modification_request :: "SessionModificationParams \<Rightarrow> bytes" where
  "build_session_modification_request p =
     (let b = (if list_ex (\<lambda>(_, _, _, send_em). send_em) (sm_update_fars_activate p) then smf_add_u8 PFCPSMREQ_FLAGS 0x02 [] else []);
          b = fold (\<lambda>pdr. smf_add_tlv CREATE_PDR (build_create_pdr pdr)) (sm_create_pdrs p) b;
          b = fold (\<lambda>(pdr_id, ohr). smf_add_tlv UPDATE_PDR (build_update_pdr pdr_id ohr)) (sm_update_pdrs p) b;
          b = fold (\<lambda>pdr_id. smf_add_tlv REMOVE_PDR (build_remove_pdr pdr_id)) (sm_remove_pdr_ids p) b;
          b = fold (\<lambda>far. smf_add_tlv CREATE_FAR (build_create_far far)) (sm_create_fars p) b;
          b = fold (\<lambda>(far_id, dst_if, ohc, send_em). smf_add_tlv UPDATE_FAR (build_update_far_activate far_id dst_if ohc send_em))
                (sm_update_fars_activate p) b;
          b = fold (\<lambda>far_id. smf_add_tlv UPDATE_FAR (build_update_far_deactivate far_id)) (sm_update_fars_deactivate p) b;
          b = fold (\<lambda>far_id. smf_add_tlv REMOVE_FAR (build_remove_far far_id)) (sm_remove_far_ids p) b;
          b = fold (\<lambda>qer. smf_add_tlv CREATE_QER (build_create_qer qer)) (sm_create_qers p) b;
          b = fold (\<lambda>qer. smf_add_tlv UPDATE_QER (build_update_qer qer)) (sm_update_qers p) b;
          b = fold (\<lambda>qer_id. smf_add_tlv REMOVE_QER (build_remove_qer qer_id)) (sm_remove_qer_ids p) b;
          b = fold (\<lambda>urr. smf_add_tlv CREATE_URR (build_create_urr urr)) (sm_create_urrs p) b;
          b = fold (\<lambda>(urr, flags). smf_add_tlv UPDATE_URR (build_update_urr urr flags)) (sm_update_urrs p) b
      in fold (\<lambda>urr_id. smf_add_tlv REMOVE_URR (build_remove_urr urr_id)) (sm_remove_urr_ids p) b)"

definition build_session_deletion_request :: bytes where
  "build_session_deletion_request = []"

section \<open>Establishment\<close>

record PfcpSessionResult =
  res_upf_seid :: u64
  res_upf_teid :: u32
  res_upf_addr :: u32

record XrSessionFlow =
  xr_five_qi :: u8
  xr_gbr_ul_bps :: u64
  xr_gbr_dl_bps :: u64

record SessionQos =
  qos_qfi :: u8
  qos_ambr_ul_bps :: u64
  qos_ambr_dl_bps :: u64
  qos_xr_flow :: "XrSessionFlow option"

datatype SmfError =
    NotInitialised
  | NoAssociation SocketAddr
  | RequestFailed PfcpRequestError
  | UnexpectedType u8
  | CauseRejected u8
  | MissingCause
  | MissingUpSeid
  | MissingTeid

definition pdr_default :: PdrParams where
  "pdr_default =
     \<lparr>bp_pdr_id = 0, bp_precedence = 0, bp_source_interface = 0, bp_far_id = None, bp_urr_ids = [], bp_qer_id = None,
      bp_outer_header_removal = None, bp_f_teid = None, bp_ue_ip_address = None, bp_sdf_filters = [], bp_qfi = None,
      bp_network_instance = None\<rparr>"

definition far_default :: FarParams where
  "far_default =
     \<lparr>bf_far_id = 0, bf_apply_action = 0, bf_destination_interface = None, bf_outer_header_creation = None,
      bf_network_instance = None\<rparr>"

definition session_qer :: "SessionQos \<Rightarrow> QerParams" where
  "session_qer qos =
     \<lparr>bq_qer_id = 1, bq_gate_status = (0, 0), bq_mbr = Some (qos_ambr_ul_bps qos, qos_ambr_dl_bps qos), bq_gbr = None,
      bq_qfi = Some (qos_qfi qos)\<rparr>"

definition xr_qer :: "SessionQos \<Rightarrow> XrSessionFlow \<Rightarrow> QerParams" where
  "xr_qer qos xr =
     \<lparr>bq_qer_id = 2, bq_gate_status = (0, 0), bq_mbr = Some (qos_ambr_ul_bps qos, qos_ambr_dl_bps qos),
      bq_gbr = Some (xr_gbr_ul_bps xr, xr_gbr_dl_bps xr), bq_qfi = Some (xr_five_qi xr AND 0x3F)\<rparr>"

definition flow_qer_id :: "SessionQos \<Rightarrow> u32" where
  "flow_qer_id qos = (if qos_xr_flow qos \<noteq> None then 2 else 1)"

definition flow_qfi :: "SessionQos \<Rightarrow> u8" where
  "flow_qfi qos = (case qos_xr_flow qos of Some xr \<Rightarrow> xr_five_qi xr AND 0x3F | None \<Rightarrow> qos_qfi qos)"

definition ul_pdr :: "u32 \<Rightarrow> SessionQos \<Rightarrow> PdrParams" where
  "ul_pdr ue_ip qos = pdr_default
     \<lparr>bp_pdr_id := 1, bp_precedence := 100, bp_source_interface := 0, bp_f_teid := Some (0, None, None),
      bp_ue_ip_address := Some (Some ue_ip, None, True), bp_outer_header_removal := Some 0, bp_far_id := Some 1,
      bp_qer_id := Some (flow_qer_id qos), bp_qfi := Some (flow_qfi qos)\<rparr>"

definition ul_far :: FarParams where
  "ul_far = far_default\<lparr>bf_far_id := 1, bf_apply_action := 0x02, bf_destination_interface := Some 2\<rparr>"

definition dl_pdr :: "u32 \<Rightarrow> SessionQos \<Rightarrow> PdrParams" where
  "dl_pdr ue_ip qos = pdr_default
     \<lparr>bp_pdr_id := 2, bp_precedence := 100, bp_source_interface := 1, bp_ue_ip_address := Some (Some ue_ip, None, False),
      bp_far_id := Some 2, bp_qer_id := Some (flow_qer_id qos), bp_qfi := Some (flow_qfi qos)\<rparr>"

definition dl_far :: FarParams where
  "dl_far = far_default\<lparr>bf_far_id := 2, bf_apply_action := 0x04, bf_destination_interface := Some 0\<rparr>"

definition establish_payload :: "u64 \<Rightarrow> u32 \<Rightarrow> u32 \<Rightarrow> rust_string \<Rightarrow> u8 \<Rightarrow> SessionQos \<Rightarrow> bytes" where
  "establish_payload smf_n4_seid smf_ip ue_ip dnn sst qos =
     (let b = smf_add_node_id_ipv4 smf_ip [];
          b = smf_add_f_seid smf_n4_seid (Some smf_ip) None b;
          b = smf_add_apn_dnn dnn b;
          b = smf_add_s_nssai sst None b;
          b = smf_add_tlv CREATE_QER (build_create_qer (session_qer qos)) b;
          b = add_opt (\<lambda>xr. smf_add_tlv CREATE_QER (build_create_qer (xr_qer qos xr))) (qos_xr_flow qos) b;
          b = smf_add_tlv CREATE_PDR (build_create_pdr (ul_pdr ue_ip qos)) b;
          b = smf_add_tlv CREATE_FAR (build_create_far ul_far) b;
          b = smf_add_tlv CREATE_PDR (build_create_pdr (dl_pdr ue_ip qos)) b
      in smf_add_tlv CREATE_FAR (build_create_far dl_far) b)"

text \<open>A loop over the elements of a body, up to the first that overruns it, with what it does with an element.\<close>

function (sequential) smf_walk :: "(u16 \<Rightarrow> bytes \<Rightarrow> 's \<Rightarrow> 's) \<Rightarrow> bytes \<Rightarrow> 's \<Rightarrow> 's" where
  "smf_walk step (a # b # c # d # rest) s =
     (let len = unat (from_be16 c d)
      in if length rest < len then s
         else smf_walk step (drop len rest) (step (from_be16 a b) (take len rest) s))"
| "smf_walk step rest s = s"
  by pat_completeness auto

termination by (relation "measure (\<lambda>(step, body, s). length body)") auto

text \<open>The SEID of an F-SEID element and the address, when it is there.\<close>

definition read_up_seid :: "bytes \<Rightarrow> PfcpSessionResult \<Rightarrow> PfcpSessionResult" where
  "read_up_seid v r =
     (if length v < 9 then r
      else
        let r = r\<lparr>res_upf_seid := be64_at v 1\<rparr>
        in if v ! 0 AND 0x02 \<noteq> 0 \<and> 13 \<le> length v then r\<lparr>res_upf_addr := be32_at v 9\<rparr> else r)"

definition read_created_pdr :: "u16 \<Rightarrow> bytes \<Rightarrow> PfcpSessionResult \<Rightarrow> PfcpSessionResult" where
  "read_created_pdr t v r =
     (if t = 21 \<and> 5 \<le> length v
      then
        let teid = be32_at v 1;
            r = (if v ! 0 AND 0x01 \<noteq> 0 \<and> 9 \<le> length v then r\<lparr>res_upf_addr := be32_at v 5\<rparr> else r)
        in if teid \<noteq> 0 then r\<lparr>res_upf_teid := teid\<rparr> else r
      else r)"

definition read_establishment :: "u16 \<Rightarrow> bytes \<Rightarrow> PfcpSessionResult \<Rightarrow> PfcpSessionResult" where
  "read_establishment t v r =
     (if t = 57 then read_up_seid v r else if t = 8 then smf_walk read_created_pdr v r else r)"

definition established :: "bytes \<Rightarrow> (SmfError, PfcpSessionResult) outcome" where
  "established body =
     (let r = smf_walk read_establishment body \<lparr>res_upf_seid = 0, res_upf_teid = 0, res_upf_addr = 0x7F000001\<rparr>
      in if res_upf_seid r = 0 then Err MissingUpSeid
         else if res_upf_teid r = 0 then Err MissingTeid
         else Ok r)"

text \<open>The checks of a response: its type, and its cause.\<close>

definition accepted_cause :: "bytes \<Rightarrow> (SmfError, bytes) outcome" where
  "accepted_cause body =
     (case parse_cause body of
        Some cause \<Rightarrow> if cause = REQUEST_ACCEPTED then Ok body else Err (CauseRejected cause)
      | None \<Rightarrow> Err MissingCause)"

definition accepted :: "u8 \<Rightarrow> (PfcpRequestError, u8 \<times> bytes) outcome \<Rightarrow> (SmfError, bytes) outcome" where
  "accepted wanted result =
     (case result of
        Ok (resp_type, body) \<Rightarrow> if resp_type \<noteq> wanted then Err (UnexpectedType resp_type) else accepted_cause body
      | Err e \<Rightarrow> Err (RequestFailed e)
      | Panic \<Rightarrow> Panic)"

text \<open>A request of the client at a position of the pool.\<close>

definition n4_request :: "(nat \<Rightarrow> transmission) \<Rightarrow> u8 \<Rightarrow> u64 option \<Rightarrow> bytes \<Rightarrow> nat \<Rightarrow> u32 \<Rightarrow> UpfPool \<Rightarrow>
    (PfcpRequestError, u8 \<times> bytes) outcome \<times> effect list \<times> u32 \<times> UpfPool" where
  "n4_request net t seid payload i counter p =
     (let (result, es, counter, c) = request net t seid payload counter (pool_clients p ! i)
      in (result, es, counter, p\<lparr>pool_clients := (pool_clients p)[i := c]\<rparr>))"

type_synonym 'a n4_outcome = "(SmfError, 'a) outcome \<times> effect list \<times> u32 \<times> UpfPool"

definition pfcp_session_establish :: "(nat \<Rightarrow> transmission) \<Rightarrow> bool \<Rightarrow> u64 \<Rightarrow> u32 \<Rightarrow> rust_string \<Rightarrow> u8 \<Rightarrow> SessionQos \<Rightarrow>
    u32 \<Rightarrow> UpfPool \<Rightarrow> PfcpSessionResult n4_outcome" where
  "pfcp_session_establish net compute_aware smf_n4_seid ue_ip dnn sst qos counter p =
     (case select_upf compute_aware p of
        None \<Rightarrow> (Err NotInitialised, [], counter, p)
      | Some i \<Rightarrow>
          let client = pool_clients p ! i
          in if \<not> as_associated (cl_assoc client) then (Err (NoAssociation (cl_peer client)), [], counter, p)
             else
               let (result, es, counter, p) =
                     n4_request net SESSION_ESTABLISHMENT_REQUEST (Some 0)
                       (establish_payload smf_n4_seid (cl_node_ip client) ue_ip dnn sst qos) i counter p
               in (case obind (accepted SESSION_ESTABLISHMENT_RESPONSE result) established of
                     Ok r \<Rightarrow> (Ok r, es, counter, record_session_peer smf_n4_seid (cl_peer client) p)
                   | bad \<Rightarrow> (bad, es, counter, p)))"

section \<open>Modification and deletion\<close>

definition modify_params :: "u32 \<Rightarrow> u32 \<Rightarrow> SessionModificationParams" where
  "modify_params gnb_teid gnb_ip = modification_default
     \<lparr>sm_update_fars_activate := [(2, 0, Some (0x0100, gnb_teid, Some gnb_ip, None), True)]\<rparr>"

definition pfcp_session_modify :: "(nat \<Rightarrow> transmission) \<Rightarrow> u64 \<Rightarrow> u64 \<Rightarrow> u32 \<Rightarrow> u32 \<Rightarrow> u32 \<Rightarrow> UpfPool \<Rightarrow> unit n4_outcome" where
  "pfcp_session_modify net smf_n4_seid up_seid gnb_teid gnb_ip counter p =
     (case client_for_session smf_n4_seid p of
        None \<Rightarrow> (Err NotInitialised, [], counter, p)
      | Some i \<Rightarrow>
          let client = pool_clients p ! i
          in if \<not> as_associated (cl_assoc client) then (Err (NoAssociation (cl_peer client)), [], counter, p)
             else
               let (result, es, counter, p) =
                     n4_request net SESSION_MODIFICATION_REQUEST (Some up_seid)
                       (build_session_modification_request (modify_params gnb_teid gnb_ip)) i counter p
               in (obind (accepted SESSION_MODIFICATION_RESPONSE result) (\<lambda>_. Ok ()), es, counter, p))"

definition pfcp_session_delete :: "(nat \<Rightarrow> transmission) \<Rightarrow> u64 \<Rightarrow> u64 \<Rightarrow> u32 \<Rightarrow> UpfPool \<Rightarrow> unit n4_outcome" where
  "pfcp_session_delete net smf_n4_seid up_seid counter p =
     (case client_for_session smf_n4_seid p of
        None \<Rightarrow> (Err NotInitialised, [], counter, p)
      | Some i \<Rightarrow>
          let client = pool_clients p ! i
          in if \<not> as_associated (cl_assoc client) then (Err (NoAssociation (cl_peer client)), [], counter, p)
             else
               let (result, es, counter, p) =
                     n4_request net SESSION_DELETION_REQUEST (Some up_seid) build_session_deletion_request i counter p
               in (case accepted SESSION_DELETION_RESPONSE result of
                     Ok _ \<Rightarrow> (Ok (), es, counter, forget_session_peer smf_n4_seid p)
                   | Err e \<Rightarrow> (Err e, es, counter, p)
                   | Panic \<Rightarrow> (Panic, es, counter, p)))"

text \<open>The two modifications that check neither the association nor the type of the response.\<close>

definition unchecked_modification :: "(nat \<Rightarrow> transmission) \<Rightarrow> u64 \<Rightarrow> u64 \<Rightarrow> SessionModificationParams \<Rightarrow> u32 \<Rightarrow> UpfPool \<Rightarrow> unit n4_outcome" where
  "unchecked_modification net smf_n4_seid up_seid params counter p =
     (case client_for_session smf_n4_seid p of
        None \<Rightarrow> (Err NotInitialised, [], counter, p)
      | Some i \<Rightarrow>
          let (result, es, counter, p) =
                n4_request net SESSION_MODIFICATION_REQUEST (Some up_seid) (build_session_modification_request params) i counter p
          in ((case result of
                 Ok (_, body) \<Rightarrow> obind (accepted_cause body) (\<lambda>_. Ok ())
               | Err e \<Rightarrow> Err (RequestFailed e)
               | Panic \<Rightarrow> Panic), es, counter, p))"

definition pfcp_update_session_qer :: "(nat \<Rightarrow> transmission) \<Rightarrow> u64 \<Rightarrow> u64 \<Rightarrow> u8 \<Rightarrow> u64 \<Rightarrow> u64 \<Rightarrow> u32 \<Rightarrow> UpfPool \<Rightarrow> unit n4_outcome" where
  "pfcp_update_session_qer net smf_n4_seid up_seid qfi ambr_ul ambr_dl =
     unchecked_modification net smf_n4_seid up_seid
       (modification_default\<lparr>sm_update_qers :=
          [\<lparr>bq_qer_id = 1, bq_gate_status = (0, 0), bq_mbr = Some (ambr_ul, ambr_dl), bq_gbr = None, bq_qfi = Some qfi\<rparr>]\<rparr>)"

definition pfcp_deactivate_dl_far :: "(nat \<Rightarrow> transmission) \<Rightarrow> u64 \<Rightarrow> u64 \<Rightarrow> u32 \<Rightarrow> UpfPool \<Rightarrow> unit n4_outcome" where
  "pfcp_deactivate_dl_far net smf_n4_seid up_seid =
     unchecked_modification net smf_n4_seid up_seid (modification_default\<lparr>sm_update_fars_deactivate := [2]\<rparr>)"

section \<open>Requests as the UPF reads them\<close>

definition vals :: "(u16 \<times> bytes) list \<Rightarrow> u16 \<Rightarrow> bytes list" where
  "vals xs t = map snd (filter (\<lambda>x. fst x = t) xs)"

lemma vals_simps [simp]:
  "vals [] t = []" "vals (x # xs) t = (if fst x = t then snd x # vals xs t else vals xs t)" "vals (xs @ ys) t = vals xs t @ vals ys t"
  "vals (opt_ie t' f y) t = (if t = t' then (case y of None \<Rightarrow> [] | Some a \<Rightarrow> [f a]) else [])"
  "vals (map (\<lambda>a. (t', g a)) as) t = (if t = t' then map g as else [])"
  by (simp_all add: vals_def opt_ie_def split: option.split)

lemma parsed_ies_values: "map (\<lambda>ie. parse (ie_value ie)) ies = map Ok ps \<Longrightarrow> parsed_ies parse ies = ps"
  by (induction ies arbitrary: ps) (auto simp: Cons_eq_map_conv)

lemma map_values: "length (tlvs xs) < 65536 \<Longrightarrow>
    map (\<lambda>ie. parse (ie_value ie)) (find_all_ies (parse_all (tlvs xs)) t) = map parse (vals xs t)"
  unfolding vals_def find_all_tlvs [symmetric] by simp

lemma parsed_ies_tlvs:
  assumes "length (tlvs xs) < 65536" and "map parse (vals xs t) = map Ok ps"
  shows "parsed_ies parse (find_all_ies (parse_all (tlvs xs)) t) = ps"
  using parsed_ies_values [of parse "find_all_ies (parse_all (tlvs xs)) t" ps] map_values [OF assms(1), of parse t] assms(2) by simp

text \<open>The loop over the Create PDRs, on the parsed PDRs.\<close>

fun establish_parsed :: "NodeId \<Rightarrow> ParsedCreatePdr list \<Rightarrow> u32 option \<Rightarrow> u32 \<Rightarrow> u32 \<Rightarrow> (u32 option \<times> u32 \<times> u32) \<times> CreatedPdr list" where
  "establish_parsed n [] ue ul nt = ((ue, ul, nt), [])"
| "establish_parsed n (pdr # rest) ue ul nt =
     (let (local_f_teid, ul, nt) =
            (case pdi_local_f_teid (pp_pdi pdr) of
               None \<Rightarrow> (None, ul, nt)
             | Some f \<Rightarrow>
                 if pt_ch f \<or> pt_teid f = 0
                 then (Some \<lparr>ft_teid = nt, ft_ipv4 = node_ipv4 n, ft_ipv6 = None, ft_choose = False, ft_choose_id = None\<rparr>, nt, nt + 1)
                 else (None, pt_teid f, nt));
          ue = (case Option.bind (pdi_ue_ip_address (pp_pdi pdr)) pa_ipv4 of Some a \<Rightarrow> Some a | None \<Rightarrow> ue);
          (state, created) = establish_parsed n rest ue ul nt
      in (state, \<lparr>cp_pdr_id = pp_pdr_id pdr, cp_local_f_teid = local_f_teid, cp_ue_ip_address = None\<rparr> # created))"

lemma establish_pdrs_parsed:
  "map (\<lambda>ie. parse_create_pdr (ie_value ie)) ies = map Ok ps \<Longrightarrow>
     establish_pdrs n ies ue ul nt = (fst (establish_parsed n ps ue ul nt), snd (establish_parsed n ps ue ul nt), ps)"
  by (induction ies arbitrary: ps ue ul nt) (auto simp: Let_def split_beta split: option.split)

lemma upf_establishes:
  assumes "length (tlvs xs) < 65536" and "is_associated s"
    and "map_of xs NODE_ID \<noteq> None" and "map_of xs F_SEID = Some (smf_f_seid_value smf a b)" and "ipv6_ok b"
    and "map parse_create_pdr (vals xs CREATE_PDR) = map Ok ps" and "ps \<noteq> []"
    and "map parse_create_far (vals xs CREATE_FAR) = map Ok fs" and "fs \<noteq> []"
    and "map parse_create_qer (vals xs CREATE_QER) = map Ok qs"
    and "map parse_create_urr (vals xs CREATE_URR) = map Ok us"
    and "map parse_create_bar (vals xs CREATE_BAR) = map Ok bs"
    and "establish_parsed (local_node_id s) ps None 0 (srv_next_teid s) = ((ue, ul, nt), created)" and "establish_tunnel fs = (dl, gnb)"
  shows "handle_session_establishment_request True header (tlvs xs) src s =
    (Ok (), [SendTo (build_response SESSION_ESTABLISHMENT_RESPONSE smf (ph_sequence_number header)
        (build_session_establishment_response (local_node_id s)
           \<lparr>fs_seid = srv_next_seid s, fs_ipv4 = node_ipv4 (local_node_id s), fs_ipv6 = None\<rparr> created) True) src],
     [SessionEstablished (srv_next_seid s) smf ue ul dl gnb ps fs qs us bs],
     s\<lparr>srv_next_seid := srv_next_seid s + 1, srv_next_teid := nt,
       srv_sessions := AList.update (srv_next_seid s)
         \<lparr>si_upf_seid = srv_next_seid s, si_smf_seid = smf, si_smf_addr = src, si_ue_ipv4 = ue, si_ul_teid = ul, si_dl_teid = dl,
          si_gnb_addr = gnb\<rparr> (srv_sessions s)\<rparr>)"
proof -
  have present: "find_ie (parse_all (tlvs xs)) t \<noteq> None" if "vals xs t \<noteq> []" for t
  proof -
    have "t \<in> fst ` set xs" using that by (force simp: vals_def filter_empty_conv)
    then show ?thesis unfolding find_ie_tlvs [OF assms(1)] by (auto simp: map_of_eq_None_iff)
  qed
  have some: "vals xs CREATE_PDR \<noteq> []" "vals xs CREATE_FAR \<noteq> []" using assms(6-9) by auto
  have missing: "missing_ie (parse_all (tlvs xs)) = None"
    using present [OF some(1)] present [OF some(2)] assms(3,4)
    by (simp add: missing_ie_def find_ie_tlvs [OF assms(1)])
  have seid: "Option.bind (find_ie (parse_all (tlvs xs)) F_SEID) (\<lambda>ie. case f_seid_parse (ie_value ie) of Ok f \<Rightarrow> Some f | _ \<Rightarrow> None) =
      Some \<lparr>fs_seid = smf, fs_ipv4 = a, fs_ipv6 = b\<rparr>"
    unfolding find_ie_tlvs [OF assms(1)] assms(4) using smf_values_read(1) [OF assms(5), of smf a] by (simp add: ie_of_def)
  have pdrs: "establish_pdrs n (find_all_ies (parse_all (tlvs xs)) CREATE_PDR) None 0 t =
      (fst (establish_parsed n ps None 0 t), snd (establish_parsed n ps None 0 t), ps)" for n t
    by (rule establish_pdrs_parsed) (simp add: map_values [OF assms(1)] assms(6))
  show ?thesis
    unfolding handle_session_establishment_request_def Let_def missing seid pdrs
      parsed_ies_tlvs [OF assms(1,8)] parsed_ies_tlvs [OF assms(1,10)] parsed_ies_tlvs [OF assms(1,11)] parsed_ies_tlvs [OF assms(1,12)]
    using assms(2,13,14) by (simp add: alloc_seid_def)
qed

lemma upf_modifies:
  assumes "length (tlvs xs) < 65536" and "map_of (srv_sessions s) (ph_seid header) = Some info"
    and "map parse_create_far (vals xs UPDATE_FAR) = map Ok fs" and "map parse_create_qer (vals xs UPDATE_QER) = map Ok qs"
    and "vals xs CREATE_BAR = []" and "vals xs UPDATE_BAR = []"
    and "map_of xs PFCPSMREQ_FLAGS = (if end_marker then Some [0x02] else None)" and "updated_tunnel fs = (dl, gnb)"
  shows "\<exists>s'. handle_session_modification_request True header (tlvs xs) src s =
    (Ok (), [SendTo (build_response SESSION_MODIFICATION_RESPONSE (si_smf_seid info) (ph_sequence_number header)
        (build_session_modification_response []) True) src],
     if fs \<noteq> [] \<or> qs \<noteq> [] \<or> end_marker
     then [SessionModified (ph_seid header) dl gnb fs qs [] end_marker False (map_option (\<lambda>a. (si_dl_teid info, a)) (si_gnb_addr info))]
     else [], s') \<and>
    map_of (srv_sessions s') (ph_seid header) = Some (info\<lparr>si_dl_teid := (case dl of Some t \<Rightarrow> t | None \<Rightarrow> si_dl_teid info),
      si_gnb_addr := (case gnb of Some a \<Rightarrow> Some a | None \<Rightarrow> si_gnb_addr info)\<rparr>) \<and> local_node_id s' = local_node_id s"
proof -
  have bars: "parsed_ies parse_create_bar (find_all_ies (parse_all (tlvs xs)) CREATE_BAR @ find_all_ies (parse_all (tlvs xs)) UPDATE_BAR) = []"
  proof -
    have "find_all_ies (parse_all (tlvs xs)) t = []" if "vals xs t = []" for t
      using find_all_tlvs [OF assms(1), of t] that by (simp add: vals_def)
    then show ?thesis using assms(5,6) by simp
  qed
  have flags: "parse_pfcpsmreq_flags (tlvs xs) = (if end_marker then Some 0x02 else None)"
    unfolding parse_pfcpsmreq_flags_def ie_field_tlvs [OF assms(1)] assms(7) by simp
  have none: "dl = None" "gnb = None" if "fs = []"
    using assms(8) that by (auto simp: updated_tunnel_def)
  show ?thesis
    unfolding handle_session_modification_request_def Let_def bars flags parsed_ies_tlvs [OF assms(1,3)] parsed_ies_tlvs [OF assms(1,4)]
    using assms(2,8) none by (auto simp: SNDEM_def DROBU_def AList.update_conv' simp del: map_of_eq_Some_iff)
qed

section \<open>The messages as lists of elements\<close>

definition header_ies :: "u64 \<Rightarrow> bytes \<Rightarrow> u32 option \<Rightarrow> Ipv6Addr option \<Rightarrow> u8 option \<Rightarrow> rust_string option \<Rightarrow>
    (u8 \<times> u32 option) option \<Rightarrow> user_identity option \<Rightarrow> bool \<Rightarrow> (u16 \<times> bytes) list" where
  "header_ies seid node_id v4 v6 pdn apn nssai user restoration =
     [(NODE_ID, node_id), (F_SEID, smf_f_seid_value seid v4 v6)] @ opt_ie PDN_TYPE (\<lambda>x. [x]) pdn @
     opt_ie USER_ID (\<lambda>(imsi, imeisv, msisdn). user_id_value (Some imsi) imeisv msisdn) user @ opt_ie APN_DNN apn_labels apn @
     opt_ie S_NSSAI (\<lambda>(sst, sd). sst # opt_octets low24 sd) nssai @
     (if restoration then [(PFCPSEREQ_FLAGS, [Upf_N4.flag True 1])] else [])"

lemma smf_session_header_tlvs:
  "smf_session_header seid node_id v4 v6 pdn apn nssai user restoration = tlvs (header_ies seid node_id v4 v6 pdn apn nssai user restoration)"
  unfolding smf_session_header_def header_ies_def Let_def smf_add_defs as_tlvs append_assoc
  by (cases restoration) (simp_all add: as_tlvs del: tlvs_simps)

definition full_ies :: "(u16 \<times> bytes) list \<Rightarrow> PdrParams list \<Rightarrow> FarParams list \<Rightarrow> QerParams list \<Rightarrow> UrrParams list \<Rightarrow> BarParams list \<Rightarrow>
    (u16 \<times> bytes) list" where
  "full_ies h ps fs qs us bs =
     h @ map (\<lambda>p. (CREATE_PDR, build_create_pdr p)) ps @ map (\<lambda>p. (CREATE_FAR, build_create_far p)) fs @
     map (\<lambda>p. (CREATE_QER, build_create_qer p)) qs @ map (\<lambda>p. (CREATE_URR, build_create_urr p)) us @
     map (\<lambda>p. (CREATE_BAR, build_create_bar p)) bs"

lemma build_full_tlvs:
  "build_session_establishment_request_full seid node_id v4 v6 pdn apn nssai user restoration ps fs qs us bs =
     tlvs (full_ies (header_ies seid node_id v4 v6 pdn apn nssai user restoration) ps fs qs us bs)"
  unfolding build_session_establishment_request_full_def full_ies_def Let_def smf_session_header_tlvs as_tlvs append_assoc ..

definition modification_ies :: "SessionModificationParams \<Rightarrow> (u16 \<times> bytes) list" where
  "modification_ies p =
     (if list_ex (\<lambda>(_, _, _, send_em). send_em) (sm_update_fars_activate p) then [(PFCPSMREQ_FLAGS, [0x02])] else []) @
     map (\<lambda>x. (CREATE_PDR, build_create_pdr x)) (sm_create_pdrs p) @
     map (\<lambda>x. (UPDATE_PDR, case x of (i, ohr) \<Rightarrow> build_update_pdr i ohr)) (sm_update_pdrs p) @
     map (\<lambda>x. (REMOVE_PDR, build_remove_pdr x)) (sm_remove_pdr_ids p) @
     map (\<lambda>x. (CREATE_FAR, build_create_far x)) (sm_create_fars p) @
     map (\<lambda>x. (UPDATE_FAR, case x of (i, dst, ohc, em) \<Rightarrow> build_update_far_activate i dst ohc em)) (sm_update_fars_activate p) @
     map (\<lambda>x. (UPDATE_FAR, build_update_far_deactivate x)) (sm_update_fars_deactivate p) @
     map (\<lambda>x. (REMOVE_FAR, build_remove_far x)) (sm_remove_far_ids p) @
     map (\<lambda>x. (CREATE_QER, build_create_qer x)) (sm_create_qers p) @
     map (\<lambda>x. (UPDATE_QER, build_update_qer x)) (sm_update_qers p) @
     map (\<lambda>x. (REMOVE_QER, build_remove_qer x)) (sm_remove_qer_ids p) @
     map (\<lambda>x. (CREATE_URR, build_create_urr x)) (sm_create_urrs p) @
     map (\<lambda>x. (UPDATE_URR, case x of (q, flags) \<Rightarrow> build_update_urr q flags)) (sm_update_urrs p) @
     map (\<lambda>x. (REMOVE_URR, build_remove_urr x)) (sm_remove_urr_ids p)"

lemma build_modification_tlvs: "build_session_modification_request p = tlvs (modification_ies p)"
proof -
  have start: "(if c then smf_add_u8 t x [] else []) = tlvs (if c then [(t, [x])] else [])" for c t x
    by (simp add: smf_add_u8_def as_tlvs del: tlvs_simps) (simp add: tlvs_def)
  show ?thesis
    unfolding build_session_modification_request_def modification_ies_def Let_def start as_tlvs append_assoc ..
qed

definition payload_ies :: "u64 \<Rightarrow> u32 \<Rightarrow> u32 \<Rightarrow> rust_string \<Rightarrow> u8 \<Rightarrow> SessionQos \<Rightarrow> (u16 \<times> bytes) list" where
  "payload_ies seid smf_ip ue dnn sst qos =
     [(NODE_ID, 0 # to_be32 smf_ip), (F_SEID, smf_f_seid_value seid (Some smf_ip) None), (APN_DNN, apn_labels dnn),
      (S_NSSAI, sst # opt_octets low24 None), (CREATE_QER, build_create_qer (session_qer qos))] @
     opt_ie CREATE_QER (\<lambda>xr. build_create_qer (xr_qer qos xr)) (qos_xr_flow qos) @
     [(CREATE_PDR, build_create_pdr (ul_pdr ue qos)), (CREATE_FAR, build_create_far ul_far),
      (CREATE_PDR, build_create_pdr (dl_pdr ue qos)), (CREATE_FAR, build_create_far dl_far)]"

lemma payload_tlvs: "establish_payload seid smf_ip ue dnn sst qos = tlvs (payload_ies seid smf_ip ue dnn sst qos)"
  unfolding establish_payload_def payload_ies_def Let_def smf_add_defs as_tlvs append_assoc by (simp del: tlvs_simps)

lemmas n4_ie = pfcp_ie smf_ie CREATE_PDR_def CREATE_FAR_def CREATE_QER_def CREATE_URR_def CREATE_BAR_def UPDATE_FAR_def UPDATE_QER_def
  UPDATE_BAR_def

lemma header_lookup:
  "map_of (header_ies seid node_id v4 v6 pdn apn nssai user restoration @ ys) NODE_ID = Some node_id"
  "map_of (header_ies seid node_id v4 v6 pdn apn nssai user restoration @ ys) F_SEID = Some (smf_f_seid_value seid v4 v6)"
  "t \<in> {CREATE_PDR, CREATE_FAR, CREATE_QER, CREATE_URR, CREATE_BAR} \<Longrightarrow>
     vals (header_ies seid node_id v4 v6 pdn apn nssai user restoration) t = []"
  by (auto simp: header_ies_def n4_ie)

lemma vals_full:
  "vals (full_ies (header_ies seid node_id v4 v6 pdn apn nssai user restoration) ps fs qs us bs) CREATE_PDR = map build_create_pdr ps"
  "vals (full_ies (header_ies seid node_id v4 v6 pdn apn nssai user restoration) ps fs qs us bs) CREATE_FAR = map build_create_far fs"
  "vals (full_ies (header_ies seid node_id v4 v6 pdn apn nssai user restoration) ps fs qs us bs) CREATE_QER = map build_create_qer qs"
  "vals (full_ies (header_ies seid node_id v4 v6 pdn apn nssai user restoration) ps fs qs us bs) CREATE_URR = map build_create_urr us"
  "vals (full_ies (header_ies seid node_id v4 v6 pdn apn nssai user restoration) ps fs qs us bs) CREATE_BAR = map build_create_bar bs"
  by (simp_all add: full_ies_def header_lookup(3)) (simp_all add: n4_ie)

lemma reads_ok:
  "\<forall>p \<in> set ps. pdr_wf p \<Longrightarrow> map parse_create_pdr (map build_create_pdr ps) = map Ok (map pdr_read ps)"
  "\<forall>p \<in> set fs. far_wf p \<Longrightarrow> map parse_create_far (map build_create_far fs) = map Ok (map far_read fs)"
  "\<forall>p \<in> set qs. qer_wf p \<Longrightarrow> map parse_create_qer (map build_create_qer qs) = map Ok (map qer_read qs)"
  "map parse_create_urr (map build_create_urr us) = map Ok (map urr_read us)"
  "map parse_create_bar (map build_create_bar bs) = map Ok (map bar_read bs)"
  by (simp_all add: create_pdr_read create_far_read create_qer_read create_urr_read create_bar_read)

lemma full_establishes:
  assumes "is_associated s" and "ps \<noteq> []" and "fs \<noteq> []" and "\<forall>p \<in> set ps. pdr_wf p" and "\<forall>p \<in> set fs. far_wf p" and "\<forall>q \<in> set qs. qer_wf q"
    and "ipv6_ok v6"
    and "length (build_session_establishment_request_full seid node_id v4 v6 pdn apn nssai user restoration ps fs qs us bs) < 65536"
    and "establish_parsed (local_node_id s) (map pdr_read ps) None 0 (srv_next_teid s) = ((ue, ul, nt), created)"
    and "establish_tunnel (map far_read fs) = (dl, gnb)"
  shows "handle_session_establishment_request True header
      (build_session_establishment_request_full seid node_id v4 v6 pdn apn nssai user restoration ps fs qs us bs) src s =
    (Ok (), [SendTo (build_response SESSION_ESTABLISHMENT_RESPONSE seid (ph_sequence_number header)
        (build_session_establishment_response (local_node_id s)
           \<lparr>fs_seid = srv_next_seid s, fs_ipv4 = node_ipv4 (local_node_id s), fs_ipv6 = None\<rparr> created) True) src],
     [SessionEstablished (srv_next_seid s) seid ue ul dl gnb (map pdr_read ps) (map far_read fs) (map qer_read qs) (map urr_read us)
        (map bar_read bs)],
     s\<lparr>srv_next_seid := srv_next_seid s + 1, srv_next_teid := nt,
       srv_sessions := AList.update (srv_next_seid s)
         \<lparr>si_upf_seid = srv_next_seid s, si_smf_seid = seid, si_smf_addr = src, si_ue_ipv4 = ue, si_ul_teid = ul, si_dl_teid = dl,
          si_gnb_addr = gnb\<rparr> (srv_sessions s)\<rparr>)"
  unfolding build_full_tlvs
proof (rule upf_establishes [where a = v4 and b = v6])
  let ?xs = "full_ies (header_ies seid node_id v4 v6 pdn apn nssai user restoration) ps fs qs us bs"
  show "length (tlvs ?xs) < 65536" using assms(8) unfolding build_full_tlvs .
  show "map_of ?xs NODE_ID \<noteq> None" "map_of ?xs F_SEID = Some (smf_f_seid_value seid v4 v6)"
    unfolding full_ies_def header_lookup by simp_all
  show "map parse_create_pdr (vals ?xs CREATE_PDR) = map Ok (map pdr_read ps)" "map parse_create_far (vals ?xs CREATE_FAR) = map Ok (map far_read fs)"
    "map parse_create_qer (vals ?xs CREATE_QER) = map Ok (map qer_read qs)" "map parse_create_urr (vals ?xs CREATE_URR) = map Ok (map urr_read us)"
    "map parse_create_bar (vals ?xs CREATE_BAR) = map Ok (map bar_read bs)"
    unfolding vals_full by (fact reads_ok(1) [OF assms(4)] reads_ok(2) [OF assms(5)] reads_ok(3) [OF assms(6)] reads_ok(4,5))+
qed (use assms in simp_all)


section \<open>The answer as the SMF reads it\<close>

lemma smf_walk_tlv: "length v < 65536 \<Longrightarrow> smf_walk step (add_tlv t v [] @ rest) s = smf_walk step rest (step t v s)"
proof -
  assume v: "length v < 65536"
  obtain a b where t: "to_be16 t = [a, b]" "from_be16 a b = t" by (rule to_be16_octets)
  obtain c d where l: "to_be16 (of_nat (length v)) = [c, d]" "from_be16 c d = of_nat (length v)" by (rule to_be16_octets)
  have "unat (of_nat (length v) :: u16) = length v" using v by (simp add: unat_of_nat take_bit_nat_eq_self)
  then show ?thesis by (simp add: add_tlv_def t l)
qed

lemma smf_walk_tlvs:
  "\<forall>x \<in> set xs. length (snd x) < 65536 \<Longrightarrow> smf_walk step (tlvs xs) s = fold (\<lambda>x. step (fst x) (snd x)) xs s"
  by (induction xs arbitrary: s) (simp_all add: smf_walk_tlv)

lemma flag_bits: "(Upf_N4.flag p 1 OR Upf_N4.flag q 2) AND 2 = 0 \<longleftrightarrow> \<not> q" "(Upf_N4.flag p 1 OR Upf_N4.flag q 2) AND 1 = 0 \<longleftrightarrow> \<not> p"
  by (cases p; cases q; simp add: Upf_N4.flag_def)+

lemma be_at_skip: "be64_at (x # to_be64 w @ r) (Suc 0) = w" "be32_at (x # to_be32 v @ r) (Suc 0) = v"
  "be32_at (x # to_be64 w @ to_be32 v) 9 = v" "be32_at (x # to_be32 u @ to_be32 v) 5 = v"
proof -
  obtain e1 e2 e3 e4 e5 e6 e7 e8 where w: "to_be64 w = [e1, e2, e3, e4, e5, e6, e7, e8]" "from_be64 e1 e2 e3 e4 e5 e6 e7 e8 = w"
    by (rule to_be64_octets)
  obtain v1 v2 v3 v4 where v: "to_be32 v = [v1, v2, v3, v4]" "from_be32 v1 v2 v3 v4 = v" by (rule to_be32_octets)
  obtain u1 u2 u3 u4 where u: "to_be32 u = [u1, u2, u3, u4]" by (rule to_be32_octets)
  show "be64_at (x # to_be64 w @ r) (Suc 0) = w" "be32_at (x # to_be32 v @ r) (Suc 0) = v"
    "be32_at (x # to_be64 w @ to_be32 v) 9 = v" "be32_at (x # to_be32 u @ to_be32 v) 5 = v"
    by (simp_all add: be64_at_def be32_at_def w v u)
qed

definition upf_f_seid :: "u64 \<Rightarrow> u32 \<Rightarrow> FSeid" where
  "upf_f_seid seid a = \<lparr>fs_seid = seid, fs_ipv4 = Some a, fs_ipv6 = None\<rparr>"

definition upf_f_teid :: "u32 \<Rightarrow> u32 \<Rightarrow> FTeid" where
  "upf_f_teid teid a = \<lparr>ft_teid = teid, ft_ipv4 = Some a, ft_ipv6 = None, ft_choose = False, ft_choose_id = None\<rparr>"

definition created_pair :: "FTeid \<Rightarrow> CreatedPdr list" where
  "created_pair f =
     [\<lparr>cp_pdr_id = 1, cp_local_f_teid = Some f, cp_ue_ip_address = None\<rparr>, \<lparr>cp_pdr_id = 2, cp_local_f_teid = None, cp_ue_ip_address = None\<rparr>]"

lemma read_up_seid_value: "read_up_seid (f_seid_encode (upf_f_seid seid a)) r = r\<lparr>res_upf_seid := seid, res_upf_addr := a\<rparr>"
  by (simp add: read_up_seid_def f_seid_encode_def upf_f_seid_def Upf_N4.opt_octets_def Let_def be_at_skip flag_bits)

lemma read_created_values:
  assumes "teid \<noteq> 0"
  shows "fold (\<lambda>c. smf_walk read_created_pdr (created_pdr_value c)) (created_pair (upf_f_teid teid a)) r =
    r\<lparr>res_upf_teid := teid, res_upf_addr := a\<rparr>"
proof -
  have octets: "f_teid_value (upf_f_teid teid a) = 1 # to_be32 teid @ to_be32 a"
    by (simp add: f_teid_value_def upf_f_teid_def Upf_N4.flag_def Upf_N4.opt_octets_def Let_def)
  show ?thesis
    using assms
    by (simp add: created_pair_def created_pdr_value_tlvs created_pdr_ies_def smf_walk_tlvs octets read_created_pdr_def pfcp_ie be_at_skip Let_def
        del: tlvs_simps)
qed

lemma established_response:
  assumes "seid \<noteq> 0" and "teid \<noteq> 0"
  shows "accepted SESSION_ESTABLISHMENT_RESPONSE
      (Ok (SESSION_ESTABLISHMENT_RESPONSE, build_session_establishment_response (NodeIpv4 a) (upf_f_seid seid a) (created_pair (upf_f_teid teid a)))) =
      Ok (build_session_establishment_response (NodeIpv4 a) (upf_f_seid seid a) (created_pair (upf_f_teid teid a)))"
    and "established (build_session_establishment_response (NodeIpv4 a) (upf_f_seid seid a) (created_pair (upf_f_teid teid a))) =
      Ok \<lparr>res_upf_seid = seid, res_upf_teid = teid, res_upf_addr = a\<rparr>"
proof -
  let ?created = "created_pair (upf_f_teid teid a)"
  let ?xs = "[(NODE_ID, 0 # to_be32 a), (CAUSE, [1]), (F_SEID, f_seid_encode (upf_f_seid seid a))] @ map (\<lambda>c. (CREATED_PDR, created_pdr_value c)) ?created"
  let ?body = "build_session_establishment_response (NodeIpv4 a) (upf_f_seid seid a) ?created"
  have body: "?body = tlvs ?xs" using response_tlvs [of "NodeIpv4 a"] by simp
  have lens: "length (f_seid_encode (upf_f_seid seid a)) = 13" "length (created_pdr_value (?created ! 0)) = 19" "length (created_pdr_value (?created ! 1)) = 6"
    by (simp_all add: f_seid_encode_def upf_f_seid_def Upf_N4.opt_octets_def created_pair_def created_pdr_value_tlvs created_pdr_ies_def
        f_teid_value_def upf_f_teid_def Let_def)
  then have short: "length (tlvs ?xs) < 65536" by (simp add: created_pair_def)
  have "parse_cause ?body = Some 1"
    unfolding parse_cause_def body smf_find_ie_tlvs [OF short] by (simp add: pfcp_ie)
  then show "accepted SESSION_ESTABLISHMENT_RESPONSE (Ok (SESSION_ESTABLISHMENT_RESPONSE, ?body)) = Ok ?body"
    by (simp add: accepted_def accepted_cause_def REQUEST_ACCEPTED_def)
  have each: "\<forall>x \<in> set ?xs. length (snd x) < 65536" using lens by (simp add: created_pair_def)
  have "fold (\<lambda>x. read_establishment (fst x) (snd x)) (map (\<lambda>c. (CREATED_PDR, created_pdr_value c)) cs) r =
      fold (\<lambda>c. smf_walk read_created_pdr (created_pdr_value c)) cs r" for cs r
    by (induction cs arbitrary: r) (simp_all add: read_establishment_def pfcp_ie)
  then have "smf_walk read_establishment ?body r = r\<lparr>res_upf_seid := seid, res_upf_teid := teid, res_upf_addr := a\<rparr>" for r
    unfolding body smf_walk_tlvs [OF each]
    by (simp add: read_establishment_def pfcp_ie read_up_seid_value read_created_values [OF assms(2)])
  then show "established ?body = Ok \<lparr>res_upf_seid = seid, res_upf_teid = teid, res_upf_addr = a\<rparr>"
    using assms by (simp add: established_def)
qed

section \<open>The SMF's session\<close>

lemma length_apn_labels: "length (apn_labels dnn) = length dnn + 1"
proof -
  have "length (concat (map (\<lambda>l. of_nat (length l) # l) (split_dots s))) = length s + 1" for s :: rust_string
    by (induction s) (auto split: list.split list.split_asm)
  then show ?thesis unfolding apn_labels_def .
qed

definition qos_wf :: "SessionQos \<Rightarrow> bool" where
  "qos_wf qos \<longleftrightarrow> rate_ok (qos_ambr_ul_bps qos) \<and> rate_ok (qos_ambr_dl_bps qos) \<and>
     (\<forall>xr. qos_xr_flow qos = Some xr \<longrightarrow> rate_ok (xr_gbr_ul_bps xr) \<and> rate_ok (xr_gbr_dl_bps xr))"

definition session_qers :: "SessionQos \<Rightarrow> QerParams list" where
  "session_qers qos = session_qer qos # (case qos_xr_flow qos of None \<Rightarrow> [] | Some xr \<Rightarrow> [xr_qer qos xr])"

lemma session_qers_wf: "qos_wf qos \<Longrightarrow> \<forall>q \<in> set (session_qers qos). qer_wf q"
  by (auto simp: session_qers_def qos_wf_def qer_wf_def session_qer_def xr_qer_def split: option.split)

lemma session_pdrs_wf: "pdr_wf (ul_pdr ue qos)" "pdr_wf (dl_pdr ue qos)" "length (build_create_pdr (ul_pdr ue qos)) < 200"
  "length (build_create_pdr (dl_pdr ue qos)) < 200"
proof -
  show u: "length (build_create_pdr (ul_pdr ue qos)) < 200" and d: "length (build_create_pdr (dl_pdr ue qos)) < 200"
    unfolding build_create_pdr_tlvs
    by (simp_all add: pdr_ies_def pdi_ies_def ul_pdr_def dl_pdr_def pdr_default_def opt_ie_def smf_f_teid_value_def smf_ue_ip_value_def
        Upf_N4.opt_octets_def Let_def)
  show "pdr_wf (ul_pdr ue qos)" "pdr_wf (dl_pdr ue qos)"
    using u d by (simp_all add: pdr_wf_def ul_pdr_def dl_pdr_def pdr_default_def ipv6_ok_def)
qed

lemma session_fars_wf: "far_wf ul_far" "far_wf dl_far" "length (build_create_far ul_far) < 100" "length (build_create_far dl_far) < 100"
proof -
  show u: "length (build_create_far ul_far) < 100" and d: "length (build_create_far dl_far) < 100"
    unfolding build_create_far_tlvs
    by (simp_all add: far_ies_def forwarding_ies_def ul_far_def dl_far_def far_default_def opt_ie_def)
  show "far_wf ul_far" "far_wf dl_far"
    using u d by (simp_all add: far_wf_def ul_far_def dl_far_def far_default_def)
qed

lemma payload_short:
  assumes "length dnn < 60000" and "qos_wf qos"
  shows "length (tlvs (payload_ies seid smf_ip ue dnn sst qos)) < 65536"
proof -
  have "length (build_create_qer q) < 100" if "q \<in> set (session_qers qos)" for q
    using create_qer_read(2) session_qers_wf [OF assms(2)] that by blast
  then have "length (build_create_qer (session_qer qos)) < 100" "\<forall>xr. qos_xr_flow qos = Some xr \<longrightarrow> length (build_create_qer (xr_qer qos xr)) < 100"
    by (auto simp: session_qers_def)
  then show ?thesis
    using assms(1) session_pdrs_wf(3) [of ue qos] session_pdrs_wf(4) [of ue qos] session_fars_wf(3,4)
    by (auto simp: payload_ies_def length_apn_labels opt_ie_def smf_f_seid_value_def Upf_N4.opt_octets_def Let_def split: option.split)
qed

lemma payload_vals:
  "vals (payload_ies seid smf_ip ue dnn sst qos) CREATE_PDR = map build_create_pdr [ul_pdr ue qos, dl_pdr ue qos]"
  "vals (payload_ies seid smf_ip ue dnn sst qos) CREATE_FAR = map build_create_far [ul_far, dl_far]"
  "vals (payload_ies seid smf_ip ue dnn sst qos) CREATE_QER = map build_create_qer (session_qers qos)"
  "vals (payload_ies seid smf_ip ue dnn sst qos) CREATE_URR = map build_create_urr []"
  "vals (payload_ies seid smf_ip ue dnn sst qos) CREATE_BAR = map build_create_bar []"
  by (simp_all add: payload_ies_def n4_ie session_qers_def split: option.split)

text \<open>The session event and the answer of the UPF for the SMF's payload.\<close>

definition session_event_of :: "u64 \<Rightarrow> u64 \<Rightarrow> u32 \<Rightarrow> u32 \<Rightarrow> SessionQos \<Rightarrow> PfcpSessionEvent" where
  "session_event_of seid smf teid ue qos =
     SessionEstablished seid smf (Some ue) teid 0 None [pdr_read (ul_pdr ue qos), pdr_read (dl_pdr ue qos)]
       [far_read ul_far, far_read dl_far] (map qer_read (session_qers qos)) [] []"

lemma payload_establishes:
  assumes "is_associated s" and "local_node_id s = NodeIpv4 a" and "length dnn < 60000" and "qos_wf qos"
  shows "handle_session_establishment_request True header (establish_payload smf smf_ip ue dnn sst qos) src s =
    (Ok (), [SendTo (build_response SESSION_ESTABLISHMENT_RESPONSE smf (ph_sequence_number header)
        (build_session_establishment_response (NodeIpv4 a) (upf_f_seid (srv_next_seid s) a)
           (created_pair (upf_f_teid (srv_next_teid s) a))) True) src],
     [session_event_of (srv_next_seid s) smf (srv_next_teid s) ue qos],
     s\<lparr>srv_next_seid := srv_next_seid s + 1, srv_next_teid := srv_next_teid s + 1,
       srv_sessions := AList.update (srv_next_seid s)
         \<lparr>si_upf_seid = srv_next_seid s, si_smf_seid = smf, si_smf_addr = src, si_ue_ipv4 = Some ue, si_ul_teid = srv_next_teid s,
          si_dl_teid = 0, si_gnb_addr = None\<rparr> (srv_sessions s)\<rparr>)"
proof -
  let ?xs = "payload_ies smf smf_ip ue dnn sst qos"
  let ?ps = "map pdr_read [ul_pdr ue qos, dl_pdr ue qos]"
  have created: "establish_parsed (local_node_id s) ?ps None 0 (srv_next_teid s) =
      ((Some ue, srv_next_teid s, srv_next_teid s + 1), created_pair (upf_f_teid (srv_next_teid s) a))"
    by (simp add: assms(2) pdr_read_def pdi_read_def ul_pdr_def dl_pdr_def pdr_default_def teid_read_def ue_read_def node_ipv4_def
        created_pair_def upf_f_teid_def)
  have tunnel: "establish_tunnel (map far_read [ul_far, dl_far]) = (0, None)"
    by (simp add: establish_tunnel_def far_ohc_def far_read_def forwarding_read_def ul_far_def dl_far_def far_default_def FORW_def)
  have parsed: "map parse_create_pdr (vals ?xs CREATE_PDR) = map Ok ?ps" "map parse_create_far (vals ?xs CREATE_FAR) = map Ok (map far_read [ul_far, dl_far])"
    "map parse_create_qer (vals ?xs CREATE_QER) = map Ok (map qer_read (session_qers qos))"
    "map parse_create_urr (vals ?xs CREATE_URR) = map Ok (map urr_read [])" "map parse_create_bar (vals ?xs CREATE_BAR) = map Ok (map bar_read [])"
    unfolding payload_vals using reads_ok(3) [OF session_qers_wf [OF assms(4)]]
    by (simp_all add: create_pdr_read create_far_read session_pdrs_wf session_fars_wf)
  have ids: "map_of ?xs NODE_ID \<noteq> None" "map_of ?xs F_SEID = Some (smf_f_seid_value smf (Some smf_ip) None)"
    by (simp_all add: payload_ies_def n4_ie)
  show ?thesis
    using upf_establishes [OF payload_short [OF assms(3,4)] assms(1) ids _ parsed(1) _ parsed(2) _ parsed(3-5) created tunnel, of header src] assms(2)
    unfolding payload_tlvs by (simp add: ipv6_ok_def session_event_of_def upf_f_seid_def node_ipv4_def)
qed


section \<open>Establishing a session end to end\<close>

lemma session_event_handled:
  "\<exists>fx d' r. handle_pfcp_session_event F os (session_event_of seid smf teid ue qos) d = Ok (fx, d') \<and>
     find_by_ul_teid teid (sessions d') = Some r \<and> upf_seid (get_session r d') = seid \<and> smf_seid (get_session r d') = smf"
proof -
  have "\<not> event_panics (session_event_of seid smf teid ue qos)"
    by (simp add: session_event_of_def filter_panics_def pdr_read_def pdi_read_def ul_pdr_def dl_pdr_def pdr_default_def)
  then show ?thesis
    using established_by_teid [OF refl, of teid F "now os" seid smf] by (auto simp: handled_event session_event_of_def)
qed

lemma first_answer: "k < 4 \<Longrightarrow> \<forall>i<k. net i = T1Expires \<Longrightarrow> net k = Answered t b \<Longrightarrow> List.find (\<lambda>i. net i \<noteq> T1Expires) [0..<4] = Some k"
  by (auto simp: find_Some_iff intro!: exI [of _ k])

lemma n4_request_answered:
  assumes "cl_timers (pool_clients p ! i) = smf_timers_default" and "k < 4" and "\<forall>j<k. net j = T1Expires" and "net k = Answered t' b"
  shows "n4_request net t seid payload i counter p =
    (Ok (t', b), replicate (k + 1) (SendTo (encode_wire_message t seid (counter AND 0x00FFFFFF) payload) (cl_peer (pool_clients p ! i))), counter + 1,
     p\<lparr>pool_clients := (pool_clients p)[i := pending_remove (counter AND 0x00FFFFFF) (pool_clients p ! i)]\<rparr>)"
  using request_transaction [OF assms(1), of net t seid payload counter] first_answer [OF assms(2-4)] assms(4)
  by (simp add: n4_request_def Let_def transmission_result_def)

lemma upf_dispatch:
  assumes "seq < 0x1000000"
  shows "\<exists>header. handle_message True (encode_wire_message SESSION_ESTABLISHMENT_REQUEST (Some seid) seq body) src s dp =
      (handle_session_establishment_request True header body src s, dp) \<and> ph_seid header = seid \<and> ph_sequence_number header = seq"
    and "\<exists>header. handle_message True (encode_wire_message SESSION_MODIFICATION_REQUEST (Some seid) seq body) src s dp =
      (handle_session_modification_request True header body src s, dp) \<and> ph_seid header = seid \<and> ph_sequence_number header = seq"
proof -
  have "\<exists>len. parse_pfcp_header (encode_wire_message t (Some seid) seq body) =
      Ok (\<lparr>ph_version = 1, ph_msg_type = t, ph_length = len, ph_seid_present = True, ph_seid = seid, ph_sequence_number = seq\<rparr>, body)" for t
    using build_response_wire(1) [OF assms, of t seid body True] unfolding encode_wire_build by simp
  note this [of SESSION_ESTABLISHMENT_REQUEST] this [of SESSION_MODIFICATION_REQUEST]
  then show "\<exists>header. handle_message True (encode_wire_message SESSION_ESTABLISHMENT_REQUEST (Some seid) seq body) src s dp =
      (handle_session_establishment_request True header body src s, dp) \<and> ph_seid header = seid \<and> ph_sequence_number header = seq"
    and "\<exists>header. handle_message True (encode_wire_message SESSION_MODIFICATION_REQUEST (Some seid) seq body) src s dp =
      (handle_session_modification_request True header body src s, dp) \<and> ph_seid header = seid \<and> ph_sequence_number header = seq"
    by (auto simp: handle_message_def pfcp_type Let_def)
qed


section \<open>Modifying a session\<close>

definition asked_fars :: "SessionModificationParams \<Rightarrow> ParsedCreateFar list" where
  "asked_fars m =
     map (\<lambda>(i, dst, ohc, em). activate_read i dst ohc) (sm_update_fars_activate m) @ map deactivate_read (sm_update_fars_deactivate m)"

definition asked_end_marker :: "SessionModificationParams \<Rightarrow> bool" where
  "asked_end_marker m = list_ex (\<lambda>(_, _, _, send_em). send_em) (sm_update_fars_activate m)"

definition modification_wf :: "SessionModificationParams \<Rightarrow> bool" where
  "modification_wf m \<longleftrightarrow> (\<forall>(i, dst, ohc, em) \<in> set (sm_update_fars_activate m). \<forall>h. ohc = Some h \<longrightarrow> ohc_wf h) \<and>
     (\<forall>q \<in> set (sm_update_qers m). qer_wf q) \<and> length (build_session_modification_request m) < 65536"

lemma modification_vals:
  "vals (modification_ies m) UPDATE_FAR =
     map (\<lambda>x. case x of (i, dst, ohc, em) \<Rightarrow> build_update_far_activate i dst ohc em) (sm_update_fars_activate m) @
     map build_update_far_deactivate (sm_update_fars_deactivate m)"
  "vals (modification_ies m) UPDATE_QER = map build_update_qer (sm_update_qers m)"
  "vals (modification_ies m) CREATE_BAR = []" "vals (modification_ies m) UPDATE_BAR = []"
  by (simp_all add: modification_ies_def n4_ie REMOVE_PDR_def)

lemma modification_flags:
  "map_of (modification_ies m) PFCPSMREQ_FLAGS = (if asked_end_marker m then Some [0x02] else None)"
proof -
  have other: "map_of (map (\<lambda>x. (t', f x)) xs @ ys) t = map_of ys t" if "t \<noteq> t'" for t t' :: u16 and f :: "'a \<Rightarrow> bytes" and xs ys
    using that by (induction xs) simp_all
  have last: "map_of (map (\<lambda>x. (t', f x)) xs) t = None" if "t \<noteq> t'" for t t' :: u16 and f :: "'a \<Rightarrow> bytes" and xs
    using that by (induction xs) simp_all
  show ?thesis
    unfolding modification_ies_def asked_end_marker_def by (simp add: other last n4_ie del: map_append map_of_append)
qed

lemma asked_parsed:
  assumes "modification_wf m"
  shows "map parse_create_far (vals (modification_ies m) UPDATE_FAR) = map Ok (asked_fars m)"
    and "map parse_create_qer (vals (modification_ies m) UPDATE_QER) = map Ok (map qer_read (sm_update_qers m))"
proof -
  have "parse_create_far (case x of (i, dst, ohc, em) \<Rightarrow> build_update_far_activate i dst ohc em) =
      Ok (case x of (i, dst, ohc, em) \<Rightarrow> activate_read i dst ohc)" if "x \<in> set (sm_update_fars_activate m)" for x
    using assms that update_far_read(1) by (cases x) (fastforce simp: modification_wf_def)
  moreover have "parse_create_far (build_update_far_deactivate i) = Ok (deactivate_read i)" for i
    by (rule update_far_read(2) [of None]) simp
  ultimately show "map parse_create_far (vals (modification_ies m) UPDATE_FAR) = map Ok (asked_fars m)"
    unfolding modification_vals asked_fars_def by simp
  show "map parse_create_qer (vals (modification_ies m) UPDATE_QER) = map Ok (map qer_read (sm_update_qers m))"
    using assms unfolding modification_vals modification_wf_def build_update_qer_def [abs_def] by (simp add: create_qer_read)
qed

lemma upf_modifies_as_asked:
  assumes "modification_wf m" and "map_of (srv_sessions s) (ph_seid header) = Some info" and "updated_tunnel (asked_fars m) = (dl, gnb)"
  shows "\<exists>s'. handle_session_modification_request True header (build_session_modification_request m) src s =
    (Ok (), [SendTo (build_response SESSION_MODIFICATION_RESPONSE (si_smf_seid info) (ph_sequence_number header)
        (build_session_modification_response []) True) src],
     if asked_fars m \<noteq> [] \<or> sm_update_qers m \<noteq> [] \<or> asked_end_marker m
     then [SessionModified (ph_seid header) dl gnb (asked_fars m) (map qer_read (sm_update_qers m)) [] (asked_end_marker m) False
             (map_option (\<lambda>a. (si_dl_teid info, a)) (si_gnb_addr info))]
     else [], s') \<and>
    map_of (srv_sessions s') (ph_seid header) = Some (info\<lparr>si_dl_teid := (case dl of Some t \<Rightarrow> t | None \<Rightarrow> si_dl_teid info),
      si_gnb_addr := (case gnb of Some a \<Rightarrow> Some a | None \<Rightarrow> si_gnb_addr info)\<rparr>)"
proof -
  have short: "length (tlvs (modification_ies m)) < 65536" using assms(1) by (simp add: modification_wf_def build_modification_tlvs)
  show ?thesis
    using upf_modifies [OF short assms(2) asked_parsed [OF assms(1)] modification_vals(3,4) modification_flags assms(3), of src]
    unfolding build_modification_tlvs by auto
qed

text \<open>
  C15: A modification request of the SMF, whatever it contains, is accepted by the UPF that knows the session. What reaches the data
  plane is exactly the FARs to activate and to deactivate and the QERs to update, and an End Marker for the old tunnel if
  any activated FAR asks for one. The rules that the request creates or removes, and its updates of PDRs
  and URRs, are accepted and have no effect; a request with nothing else has no event at all.
\<close>

theorem smf_upf_modification:
  assumes "modification_wf m" and "map_of (srv_sessions s) seid = Some info" and "seq < 0x1000000"
  shows "\<exists>s'. handle_message True (encode_wire_message SESSION_MODIFICATION_REQUEST (Some seid) seq (build_session_modification_request m)) src s dp =
    ((Ok (), [SendTo (build_response SESSION_MODIFICATION_RESPONSE (si_smf_seid info) seq (build_session_modification_response []) True) src],
      if asked_fars m \<noteq> [] \<or> sm_update_qers m \<noteq> [] \<or> asked_end_marker m
      then [SessionModified seid (fst (updated_tunnel (asked_fars m))) (snd (updated_tunnel (asked_fars m))) (asked_fars m)
              (map qer_read (sm_update_qers m)) [] (asked_end_marker m) False (map_option (\<lambda>a. (si_dl_teid info, a)) (si_gnb_addr info))]
      else [], s'), dp)"
proof -
  obtain header where dispatch: "handle_message True (encode_wire_message SESSION_MODIFICATION_REQUEST (Some seid) seq (build_session_modification_request m)) src s dp =
      (handle_session_modification_request True header (build_session_modification_request m) src s, dp)" "ph_seid header = seid" "ph_sequence_number header = seq"
    using upf_dispatch(2) [OF assms(3)] by blast
  have known: "map_of (srv_sessions s) (ph_seid header) = Some info" using assms(2) dispatch(2) by simp
  show ?thesis
    using upf_modifies_as_asked [OF assms(1) known prod.collapse [symmetric], of src] unfolding dispatch by auto
qed

section \<open>Handing a session over\<close>

text \<open>What the tunnel to the base station depends on, in the data plane.\<close>

definition tunnel_state :: "'f DataPlaneSession \<Rightarrow> (u32 \<times> DataPlaneFar) list \<times> u32 \<times> SocketAddr" where
  "tunnel_state s = (fars s, dl_teid s, gnb_addr s)"

definition has_tunnel :: "u64 \<Rightarrow> 'f DataPlane \<Rightarrow> (u32 \<times> DataPlaneFar) list \<times> u32 \<times> SocketAddr \<Rightarrow> bool" where
  "has_tunnel k d x \<longleftrightarrow> (\<exists>r. find_by_seid k (sessions d) = Some r \<and> r < length (heap (sessions d)) \<and> tunnel_state (get_session r d) = x)"

lemma tunnel_put:
  assumes "has_tunnel k d x" and "tunnel_state s = tunnel_state (get_session r d)"
  shows "has_tunnel k (put_session r s d) x"
proof -
  obtain r' where r': "find_by_seid k (sessions d) = Some r'" "r' < length (heap (sessions d))" "tunnel_state (get_session r' d) = x"
    using assms(1) unfolding has_tunnel_def by blast
  then have "tunnel_state (get_session r' (put_session r s d)) = x"
    using assms(2) by (cases "r = r'") (simp_all add: get_session_def put_session_def)
  with r' show ?thesis unfolding has_tunnel_def by (auto simp: find_by_seid_def put_session_def)
qed

lemma tunnel_sessions: "has_tunnel k d x \<Longrightarrow> sessions d' = sessions d \<Longrightarrow> has_tunnel k d' x"
  by (simp add: has_tunnel_def get_session_def)

lemma tunnel_counted: "has_tunnel k d x \<Longrightarrow> has_tunnel k (count_dl r n d) x" "has_tunnel k d x \<Longrightarrow> has_tunnel k (count_dropped d) x"
proof -
  assume x: "has_tunnel k d x"
  then have "has_tunnel k (put_session r ((get_session r d)\<lparr>dl_packets := dl_packets (get_session r d) + 1, dl_bytes := dl_bytes (get_session r d) + n\<rparr>) d) x"
    by (rule tunnel_put) (simp add: tunnel_state_def)
  then show "has_tunnel k (count_dl r n d) x" unfolding count_dl_def Let_def by (rule tunnel_sessions) simp
  show "has_tunnel k (count_dropped d) x" using x by (rule tunnel_sessions) (simp add: count_dropped_def)
qed

lemma tunnel_flush_loop: "has_tunnel k d x \<Longrightarrow> has_tunnel k (snd (snd (flush_loop os j pkts r t a q d))) x"
  by (induction pkts arbitrary: j d) (simp_all add: Let_def split_beta tunnel_counted)

lemma tunnel_flush: "has_tunnel k d x \<Longrightarrow> has_tunnel k (snd (snd (flush_buffered_dl os k' d))) x"
proof -
  assume x: "has_tunnel k d x"
  have "has_tunnel k (put_session r (snd (drain_dl_buffer (get_session r d))) d) x" for r
    by (rule tunnel_put [OF x]) (simp add: drain_dl_buffer_def tunnel_state_def)
  moreover have "has_tunnel k e x \<Longrightarrow> has_tunnel k (snd (snd (flush_loop os j pkts r t a q e))) x" for j pkts r t a q and e :: "'a DataPlane"
    by (rule tunnel_flush_loop)
  ultimately show ?thesis
    using x by (auto simp: flush_buffered_dl_def Let_def split_beta split: option.split)
qed

lemma tunnel_update:
  assumes "indexed (sessions d)" and "find_by_seid k (sessions d) = Some r"
  shows "\<exists>fs. has_tunnel k (update_session_from_pfcp k (Some t) (Some g) d) (fs, t, g)"
proof -
  let ?s = "get_session r d"
  have seid: "upf_seid ?s = k" and "r < length (heap (sessions d))"
    using assms unfolding indexed_def seid_exact_def find_by_seid_def get_session_def by auto
  have add: "has_tunnel k (e\<lparr>sessions := snd (add_session new m)\<rparr>) (fars new, dl_teid new, gnb_addr new)" if "upf_seid new = k"
    for e :: "'a DataPlane" and new m
    using that unfolding has_tunnel_def
    by (intro exI [of _ "length (heap m)"])
      (auto simp: add_session_def Let_def find_by_seid_def get_session_def tunnel_state_def AList.update_conv' split: option.split)
  have "\<exists>e new m. update_session_from_pfcp k (Some t) (Some g) d = e\<lparr>sessions := snd (add_session new m)\<rparr> \<and>
      upf_seid new = k \<and> dl_teid new = t \<and> gnb_addr new = g"
    unfolding update_session_from_pfcp_def assms(2) option.case Let_def
    by (rule exI, rule exI, rule exI, rule conjI, rule refl) (simp add: session_new_empty_def seid)
  then show ?thesis using add by metis
qed

lemma insert_one: "insert_all i f [x] m = AList.update (i x) (f x) m" and insert_none: "insert_all i f [] m = m"
  by (simp_all add: insert_all_def)

lemma gnb_tunnel_set:
  assumes "indexed (sessions d)" and "find_by_seid seid (sessions d) \<noteq> None"
  shows "\<exists>fx d' fs. handle_pfcp_session_event F os (SessionModified seid (Some gt) (Some ga) [activate_read 2 0 (Some (0x0100, gt, Some ga, None))] [] []
        em False old) d = Ok (fx, d') \<and>
      has_tunnel seid d' (fs, gt, gtpu_endpoint ga) \<and> map_of fs 2 = Some
        \<lparr>far_id = 2, apply_action = FORW, destination_interface = SRC_INTF_ACCESS, ohc_teid = Some gt, ohc_addr = Some ga, far_bar_id = None\<rparr> \<and>
      (\<forall>t a. em \<longrightarrow> gtpu_socket d \<longrightarrow> old = Some (t, a) \<longrightarrow> (\<exists>rest. fx = SendTo (build_gtpu_end_marker t) (gtpu_endpoint a) # rest))"
proof -
  let ?far = "activate_read 2 0 (Some (0x0100, gt, Some ga, None))"
  let ?e = "update_session_from_pfcp seid (Some gt) (Some (gtpu_endpoint ga)) d"
  obtain r where "find_by_seid seid (sessions d) = Some r" using assms(2) by blast
  then obtain fs where e: "has_tunnel seid ?e (fs, gt, gtpu_endpoint ga)" using tunnel_update [OF assms(1)] by blast
  then obtain r' where r': "find_by_seid seid (sessions ?e) = Some r'" "r' < length (heap (sessions ?e))"
    "tunnel_state (get_session r' ?e) = (fs, gt, gtpu_endpoint ga)" unfolding has_tunnel_def by blast
  let ?fs = "AList.update 2 (install_far ?far) fs"
  let ?e' = "put_session r' (update_rules F (now os) [?far] [] [] False (get_session r' ?e)) ?e"
  have rules: "has_tunnel seid ?e' (?fs, gt, gtpu_endpoint ga)"
    using r' unfolding has_tunnel_def
    by (intro exI [of _ r']) (simp add: find_by_seid_def put_session_def get_session_def update_rules_def tunnel_state_def insert_one
        insert_none activate_read_def Let_def)
  have forwards: "list_ex (\<lambda>f. pf_apply_action f AND FAR_ACTION_FORW \<noteq> 0) [?far]"
    by (simp add: activate_read_def FORW_def FAR_ACTION_FORW_def)
  have "snd (session_modified F os seid (Some gt) (Some ga) [?far] [] [] em False old d) = snd (snd (flush_buffered_dl os seid ?e'))"
    "fst (session_modified F os seid (Some gt) (Some ga) [?far] [] [] em False old d) =
      (if em then case old of Some (t, a) \<Rightarrow> send_end_marker t (gtpu_endpoint a) d | None \<Rightarrow> [] else []) @ fst (snd (flush_buffered_dl os seid ?e'))"
    using forwards by (simp_all add: session_modified_def r'(1) Let_def split_beta)
  moreover have "map_of ?fs 2 = Some
      \<lparr>far_id = 2, apply_action = FORW, destination_interface = SRC_INTF_ACCESS, ohc_teid = Some gt, ohc_addr = Some ga, far_bar_id = None\<rparr>"
    by (simp add: AList.update_conv' install_far_def activate_read_def ohc_read_def SRC_INTF_ACCESS_def)
  ultimately show ?thesis
    using tunnel_flush [OF rules, of os seid]
    by (intro exI conjI) (auto simp: handle_pfcp_session_event_def send_end_marker_def prod_eq_iff)
qed

lemma modify_params_asked:
  "asked_fars (modify_params gt ga) = [activate_read 2 0 (Some (0x0100, gt, Some ga, None))]" "sm_update_qers (modify_params gt ga) = []"
  "asked_end_marker (modify_params gt ga)" "modification_wf (modify_params gt ga)"
  "updated_tunnel (asked_fars (modify_params gt ga)) = (Some gt, Some ga)"
proof -
  let ?h = "(0x0100, gt, Some ga, None) :: outer_header"
  have ohc: "ohc_wf ?h" by (simp add: ohc_wf_def ipv6_ok_def)
  have "length (build_update_far_activate 2 0 (Some ?h) True) < 100" by (rule update_far_read(3)) (simp add: ohc)
  then have "length (build_session_modification_request (modify_params gt ga)) < 65536"
    unfolding build_modification_tlvs by (simp add: modification_ies_def modify_params_def modification_default_def)
  then show "modification_wf (modify_params gt ga)" using ohc by (simp add: modification_wf_def modify_params_def modification_default_def)
  show fars: "asked_fars (modify_params gt ga) = [activate_read 2 0 (Some ?h)]" and "sm_update_qers (modify_params gt ga) = []"
    "asked_end_marker (modify_params gt ga)"
    by (simp_all add: asked_fars_def asked_end_marker_def modify_params_def modification_default_def)
  show "updated_tunnel (asked_fars (modify_params gt ga)) = (Some gt, Some ga)"
    unfolding fars by (simp add: updated_tunnel_def far_ohc_def activate_read_def ohc_read_def FORW_def)
qed

lemma modified_response:
  "accepted SESSION_MODIFICATION_RESPONSE (Ok (SESSION_MODIFICATION_RESPONSE, build_session_modification_response [])) =
     Ok (build_session_modification_response [])"
proof -
  have body: "build_session_modification_response [] = tlvs [(CAUSE, [1])]"
    by (simp add: build_session_modification_response_def add_cause_def add_u8_def add_tlv_def)
  have "parse_cause (tlvs [(CAUSE, [1])]) = Some 1" unfolding parse_cause_def by (subst smf_find_ie_tlvs) (simp_all add: pfcp_ie)
  then show ?thesis unfolding body by (simp add: accepted_def accepted_cause_def REQUEST_ACCEPTED_def)
qed

text \<open>
  C13: A handover end to end. When the SMF moves the downlink of a session to a tunnel of a base station, the UPF accepts,
  and its data plane, in any state it can be in, has the session forward to that tunnel afterwards; an End Marker
  goes out first on the tunnel of before, if there was one. Whichever of up to four transmissions is answered,
  the SMF ends with success.
\<close>

theorem smf_upf_handover:
  assumes "client_for_session smf p = Some i" and "client = pool_clients p ! i"
    and "as_associated (cl_assoc client)" and "cl_timers client = smf_timers_default"
    and "map_of (srv_sessions s) seid = Some info" and "plane_reachable F d" and "find_by_seid seid (sessions d) \<noteq> None"
  shows "\<exists>resp body s' event fx d' r. let seq = counter AND 0x00FFFFFF;
      pkt = encode_wire_message SESSION_MODIFICATION_REQUEST (Some seid) seq (build_session_modification_request (modify_params gnb_teid gnb_ip))
    in handle_message True pkt src s dp = ((Ok (), [SendTo resp src], [event], s'), dp) \<and>
       handle_pfcp_session_event F os event d = Ok (fx, d') \<and> find_by_seid seid (sessions d') = Some r \<and>
       dl_teid (get_session r d') = gnb_teid \<and> gnb_addr (get_session r d') = gtpu_endpoint gnb_ip \<and>
       apply_far 2 (get_session r d') = Forward (Some gnb_teid) (Some gnb_ip) \<and>
       (\<forall>old. gtpu_socket d \<longrightarrow> si_gnb_addr info = Some old \<longrightarrow>
          (\<exists>rest. fx = SendTo (build_gtpu_end_marker (si_dl_teid info)) (gtpu_endpoint old) # rest)) \<and>
       on_datagram resp sender (pending_insert seq client) ps = (True, Some (seq, SESSION_MODIFICATION_RESPONSE, body), [], pending_remove seq client, ps) \<and>
       (\<forall>net k. k < 4 \<longrightarrow> (\<forall>j<k. net j = T1Expires) \<longrightarrow> net k = Answered SESSION_MODIFICATION_RESPONSE body \<longrightarrow>
          (\<exists>p'. pfcp_session_modify net smf seid gnb_teid gnb_ip counter p =
             (Ok (), replicate (k + 1) (SendTo pkt (cl_peer client)), counter + 1, p')))"
proof -
  let ?seq = "counter AND 0x00FFFFFF"
  let ?m = "modify_params gnb_teid gnb_ip"
  let ?body = "build_session_modification_response []"
  let ?resp = "build_response SESSION_MODIFICATION_RESPONSE (si_smf_seid info) ?seq ?body True"
  let ?old = "map_option (\<lambda>a. (si_dl_teid info, a)) (si_gnb_addr info)"
  let ?event = "SessionModified seid (Some gnb_teid) (Some gnb_ip) (asked_fars ?m) [] [] True False ?old"
  obtain header where dispatch: "handle_message True (encode_wire_message SESSION_MODIFICATION_REQUEST (Some seid) ?seq (build_session_modification_request ?m)) src s dp =
      (handle_session_modification_request True header (build_session_modification_request ?m) src s, dp)" "ph_seid header = seid" "ph_sequence_number header = ?seq"
    using upf_dispatch(2) [OF seq_below] by blast
  have known: "map_of (srv_sessions s) (ph_seid header) = Some info" using assms(5) dispatch(2) by simp
  obtain s' where upf: "handle_session_modification_request True header (build_session_modification_request ?m) src s =
      (Ok (), [SendTo ?resp src], [?event], s')"
    using upf_modifies_as_asked [OF modify_params_asked(4) [of gnb_teid gnb_ip] known modify_params_asked(5), of src] dispatch(2,3) modify_params_asked(2,3) by auto
  obtain fx d' fs where plane: "handle_pfcp_session_event F os ?event d = Ok (fx, d')" "has_tunnel seid d' (fs, gnb_teid, gtpu_endpoint gnb_ip)"
    "map_of fs 2 = Some \<lparr>far_id = 2, apply_action = FORW, destination_interface = SRC_INTF_ACCESS, ohc_teid = Some gnb_teid,
       ohc_addr = Some gnb_ip, far_bar_id = None\<rparr>"
    "\<forall>t a. gtpu_socket d \<longrightarrow> ?old = Some (t, a) \<longrightarrow> (\<exists>rest. fx = SendTo (build_gtpu_end_marker t) (gtpu_endpoint a) # rest)"
    using gnb_tunnel_set [OF plane_reachable_indexed [OF assms(6)] assms(7), of F os gnb_teid gnb_ip True ?old]
    unfolding modify_params_asked(1) by auto
  obtain r where r: "find_by_seid seid (sessions d') = Some r" "fars (get_session r d') = fs" "dl_teid (get_session r d') = gnb_teid"
    "gnb_addr (get_session r d') = gtpu_endpoint gnb_ip"
    using plane(2) unfolding has_tunnel_def tunnel_state_def by auto
  have far: "apply_far 2 (get_session r d') = Forward (Some gnb_teid) (Some gnb_ip)"
    using r(2) plane(3) by (simp add: apply_far_def FORW_def FAR_ACTION_FORW_def FAR_ACTION_DROP_def FAR_ACTION_BUFF_def)
  have smf: "on_datagram ?resp sender (pending_insert ?seq client) ps =
      (True, Some (?seq, SESSION_MODIFICATION_RESPONSE, ?body), [], pending_remove ?seq client, ps)"
    using on_response [OF seq_below, of SESSION_MODIFICATION_RESPONSE counter "pending_insert ?seq client"]
    by (simp add: is_response_type_def pfcp_type) (simp add: pending_insert_def)
  have side: "\<exists>p'. pfcp_session_modify net smf seid gnb_teid gnb_ip counter p =
      (Ok (), replicate (k + 1) (SendTo (encode_wire_message SESSION_MODIFICATION_REQUEST (Some seid) ?seq (build_session_modification_request ?m))
         (cl_peer client)), counter + 1, p')"
    if "k < 4" "\<forall>j<k. net j = T1Expires" "net k = Answered SESSION_MODIFICATION_RESPONSE ?body" for net k
    using n4_request_answered [of p i, OF _ that, of SESSION_MODIFICATION_REQUEST "Some seid" _ counter] assms(1-4)
    by (simp add: pfcp_session_modify_def modified_response Let_def del: replicate.simps)
  show ?thesis
    unfolding Let_def dispatch(1) upf
    by (rule exI [of _ ?resp], rule exI [of _ ?body], rule exI, rule exI [of _ ?event], rule exI, rule exI, rule exI, intro conjI, rule refl, rule plane(1))
      (use r far plane(4) smf side in \<open>simp_all del: replicate.simps\<close>)
qed

section \<open>A concrete session\<close>

definition demo_qos :: SessionQos where
  "demo_qos = \<lparr>qos_qfi = 9, qos_ambr_ul_bps = 1000000, qos_ambr_dl_bps = 2000000, qos_xr_flow = None\<rparr>"

definition demo_peer :: PfcpClient where
  "demo_peer = demo_client\<lparr>cl_assoc := (cl_assoc demo_client)\<lparr>as_associated := True\<rparr>\<rparr>"

definition demo_pool :: UpfPool where
  "demo_pool = \<lparr>pool_clients = [demo_peer], session_peers = []\<rparr>"

lemma demo_pool_facts:
  "select_upf False demo_pool = Some 0" "client_for_session n demo_pool = Some 0" "length (pool_clients demo_pool) = 1"
  "pool_clients demo_pool ! 0 = demo_peer" "as_associated (cl_assoc demo_peer)" "cl_timers demo_peer = smf_timers_default"
  by (simp_all add: select_upf_def global_client_def demo_pool_def client_for_session_def demo_peer_def demo_client_def client_new_def)

lemma demo_server_facts:
  "is_associated demo_server" "local_node_id demo_server = NodeIpv4 0x7F000007" "srv_next_seid demo_server = 1"
  "srv_next_teid demo_server = 0x10000" "srv_sessions demo_server = []"
  by (simp_all add: is_associated_def demo_server_def server_new_def)


definition demo_info :: PfcpSessionInfo where
  "demo_info =
     \<lparr>si_upf_seid = 1, si_smf_seid = 4103, si_smf_addr = demo_smf, si_ue_ipv4 = Some 0x0A2D0002, si_ul_teid = 9, si_dl_teid = 0x77,
      si_gnb_addr = Some 0x7F000009\<rparr>"

text \<open>A request that only creates a FAR and removes a PDR is accepted without an event.\<close>

theorem smf_upf_modification_witness:
  "\<exists>s'. fst (handle_message True (encode_wire_message SESSION_MODIFICATION_REQUEST (Some 1) 6
        (build_session_modification_request (modification_default\<lparr>sm_create_fars := [ul_far], sm_remove_pdr_ids := [2]\<rparr>))) demo_smf
      (demo_server\<lparr>srv_sessions := [(1, demo_info)]\<rparr>) (None :: nat DataPlane option)) =
    (Ok (), [SendTo (build_response SESSION_MODIFICATION_RESPONSE 4103 6 (build_session_modification_response []) True) demo_smf], [], s')"
proof -
  let ?m = "modification_default\<lparr>sm_create_fars := [ul_far], sm_remove_pdr_ids := [2]\<rparr>"
  have "length (tlvs (modification_ies ?m)) < 65536"
    using session_fars_wf(3) by (simp add: modification_ies_def modification_default_def build_remove_pdr_def smf_add_pdr_id_def smf_add_u16_def
        smf_add_tlv_def add_tlv_def)
  then have wf: "modification_wf ?m" unfolding modification_wf_def build_modification_tlvs by (simp add: modification_default_def)
  have none: "asked_fars ?m = []" "sm_update_qers ?m = []" "\<not> asked_end_marker ?m"
    by (simp_all add: asked_fars_def asked_end_marker_def modification_default_def)
  have known: "map_of (srv_sessions (demo_server\<lparr>srv_sessions := [(1, demo_info)]\<rparr>)) 1 = Some demo_info" by simp
  have smf: "si_smf_seid demo_info = 4103" by (simp add: demo_info_def)
  show ?thesis
    using smf_upf_modification [OF wf known, of 6 demo_smf "None :: nat DataPlane option"] none unfolding smf by auto
qed

text \<open>A session whose downlink goes to another base station.\<close>

theorem smf_upf_handover_witness:
  "\<exists>event fx d' r. handle_pfcp_session_event demo_f64 demo_os event demo_plane = Ok (fx, d') \<and> find_by_seid 7 (sessions d') = Some r \<and>
     apply_far 2 (get_session r d') = Forward (Some 0x88) (Some 0x7F00000A) \<and>
     (\<exists>rest. fx = SendTo (build_gtpu_end_marker 0x77) (gtpu_endpoint 0x7F000009) # rest)"
proof -
  have known: "map_of (srv_sessions (demo_server\<lparr>srv_sessions := [(7, demo_info)]\<rparr>)) 7 = Some demo_info" by simp
  have plane: "find_by_seid 7 (sessions demo_plane) \<noteq> None" "gtpu_socket demo_plane" by code_simp+
  have tunnel: "si_gnb_addr demo_info = Some 0x7F000009" "si_dl_teid demo_info = 0x77" by (simp_all add: demo_info_def)
  show ?thesis
    using smf_upf_handover [OF demo_pool_facts(2) demo_pool_facts(4) [symmetric] demo_pool_facts(5,6) known demo_plane_reachable plane(1),
        where smf = 4103 and gnb_teid = "0x88" and gnb_ip = "0x7F00000A" and os = demo_os and counter = 5 and src = demo_smf and sender = demo_smf
          and ps = "[]" and dp = "None :: nat DataPlane option"]
    unfolding Let_def tunnel
  proof (elim exE conjE, goal_cases)
    case (1 resp body s' event fx d' r)
    have "\<exists>rest. fx = SendTo (build_gtpu_end_marker 0x77) (gtpu_endpoint 0x7F000009) # rest" using 1(7) plane(2) by simp
    with 1(2,3,6) show ?case by blast
  qed
qed

end
