(* ===== verification/Milenage.thy ===== *)
theory Milenage
  imports Aes_Modes
begin

text \<open>
  Milenage (\<^verbatim>\<open>libs/nextgcore-crypt/src/milenage.rs\<close>): the functions f1 to f5* with which the home network and the
  USIM authenticate each other, the authentication token AUTN of the network, the check of the USIM, and the token AUTS
  by which it asks for resynchronisation. The AES block cipher is the argument \<open>enc\<close>, as in \<open>Aes_Modes\<close>; arrays of a
  fixed size are lists, with their sizes as hypotheses. The octet-wise code is compared with the 128-bit definition
  of TS 35.206, and the network's side with the USIM's.
\<close>

section \<open>Octets of a block\<close>

lemma bit_le_nat: "bit (le_nat bs) i \<longleftrightarrow> i div 8 < length bs \<and> bit (bs ! (i div 8)) (i mod 8)"
proof (induction bs arbitrary: i)
  case (Cons b bs)
  have "take_bit 8 (unat b) = unat b"
    using unsigned_less [of b, where 'a = nat] by (simp add: take_bit_nat_eq_self)
  then have low: "\<not> bit (unat b) j" if "8 \<le> j" for j using that by (metis bit_take_bit_iff leD)
  have "unat b + push_bit 8 (le_nat bs) = unat b OR push_bit 8 (le_nat bs)"
    by (rule disjunctive_add) (auto simp: bit_push_bit_iff low)
  then have "unat b + 256 * le_nat bs = unat b OR push_bit 8 (le_nat bs)"
    by (simp add: push_bit_eq_mult mult.commute)
  then show ?case
    using Cons.IH [of "i - 8"] low [of i]
    by (cases "i < 8")
      (auto simp: bit_or_iff bit_push_bit_iff bit_unsigned_iff le_div_geq nth_Cons' mod_if dest: bit_imp_le_length)
qed simp

lemma bit_octets_block:
  assumes "length bs = 16"
  shows "bit (octets_block bs) i \<longleftrightarrow> i < 128 \<and> bit (bs ! (15 - i div 8)) (i mod 8)"
proof -
  have "bit (octets_block bs) i \<longleftrightarrow> i < 128 \<and> bit (le_nat (rev bs)) i"
    using bit_unsigned_iff [of "octets_block bs" i, where 'a = nat]
    by (simp add: octets_block_def unsigned_of_nat bit_take_bit_iff)
  then show ?thesis using assms by (auto simp: bit_le_nat rev_nth)
qed

lemma octets_block_xor:
  assumes "length a = 16" "length b = 16"
  shows "octets_block (xor_bytes a b) = octets_block a XOR octets_block b"
  by (rule bit_word_eqI) (use assms in \<open>simp add: bit_octets_block bit_xor_iff xor_bytes_nth\<close>)

lemma mirror_index:
  fixes m q :: nat
  assumes "m < 16" "q < 16"
  shows "(m + (15 - q)) mod 16 = 15 - (q + (16 - m)) mod 16"
proof (cases "q < m")
  case True
  with assms have "m + (15 - q) = m - Suc q + 16" "q + (16 - m) < 16" by simp_all
  then show ?thesis using assms True by (simp add: mod_if)
next
  case False
  with assms have "q + (16 - m) = q - m + 16" and small: "m + (15 - q) < 16" by simp_all
  then have "(q + (16 - m)) mod 16 = q - m" using assms by (simp add: mod_if)
  then show ?thesis using assms False unfolding mod_less [OF small] by simp
qed

text \<open>Rotating the octets of a block by \<open>n\<close> places rotates its bits by \<open>8 n\<close>.\<close>

lemma octets_block_rotate:
  assumes "length bs = 16"
  shows "octets_block (rotate n bs) = word_rotl (8 * n) (octets_block bs)"
proof (rule bit_word_eqI)
  fix i assume i: "i < LENGTH(128)"
  define m where "m = n mod 16"
  have m: "8 * n mod 128 = 8 * m" by (simp add: m_def mult_mod_right)
  let ?j = "(i + (128 - 8 * m)) mod 128"
  have m16: "m < 16" by (simp add: m_def)
  have sum: "i + (128 - 8 * m) = i + 8 * (16 - m)" using m16 by simp
  have "?j div 8 = (i + 8 * (16 - m)) div 8 mod 16" unfolding sum
    using mod_mult2_eq [of "i + 8 * (16 - m)" 8 16] by simp
  then have j: "?j div 8 = (i div 8 + (16 - m)) mod 16" by (simp add: add.commute)
  have "?j mod 8 = (i + 8 * (16 - m)) mod 8" unfolding sum by (simp add: mod_mod_cancel)
  then have j8: "?j mod 8 = i mod 8" by simp
  have octet: "i div 8 < 16" using i by simp
  have "(n + (15 - i div 8)) mod 16 = (m + (15 - i div 8)) mod 16" by (simp add: m_def mod_add_left_eq)
  also have "\<dots> = 15 - (i div 8 + (16 - m)) mod 16" using m16 octet by (rule mirror_index)
  finally have idx: "15 - ?j div 8 = (n + (15 - i div 8)) mod 16" unfolding j by simp
  have "rotate n bs ! (15 - i div 8) = bs ! ((n + (15 - i div 8)) mod 16)"
    using i nth_rotate [of "15 - i div 8" bs n] by (simp add: assms)
  moreover have "?j < 128" by simp
  ultimately show "bit (octets_block (rotate n bs)) i = bit (word_rotl (8 * n) (octets_block bs)) i"
    using i unfolding bit_word_rotl_iff by (simp add: bit_octets_block assms m idx j8)
qed

lemma octets_block_last:
  assumes "length bs = 16"
  shows "octets_block (bs[15 := bs ! 15 XOR c]) = octets_block bs XOR ucast c"
proof (rule bit_word_eqI)
  fix i assume i: "i < LENGTH(128)"
  show "bit (octets_block (bs[15 := bs ! 15 XOR c])) i = bit (octets_block bs XOR ucast c) i"
  proof (cases "i < 8")
    case False
    then have "\<not> bit c i" and "15 - i div 8 \<noteq> 15" using bit_imp_le_length [of c i] i by auto
    with i show ?thesis by (simp add: bit_octets_block assms bit_xor_iff bit_ucast_iff)
  qed (use i in \<open>simp add: bit_octets_block assms bit_xor_iff bit_ucast_iff\<close>)
qed

lemma xor_bytes_block:
  "length a = 16 \<Longrightarrow> length b = 16 \<Longrightarrow> xor_bytes a b = block_octets (octets_block a XOR octets_block b)"
  by (metis block_octets_block length_xor_bytes min.idem octets_block_xor)

lemma rotate_block:
  "length bs = 16 \<Longrightarrow> rotate n bs = block_octets (word_rotl (8 * n) (octets_block bs))"
  by (metis block_octets_block length_rotate octets_block_rotate)

lemma last_block:
  "length bs = 16 \<Longrightarrow> bs[15 := bs ! 15 XOR c] = block_octets (octets_block bs XOR ucast c)"
  by (metis block_octets_block length_list_update octets_block_last)

section \<open>Rotation\<close>

datatype MilenageError = AesError | MacMismatch | SyncFailure | InvalidLength

definition aes_128_encrypt_block :: "block_fun \<Rightarrow> bytes \<Rightarrow> bytes \<Rightarrow> (MilenageError, bytes) outcome" where
  "aes_128_encrypt_block enc key input =
     (case aes_context_new key 128 of
        Ok ctx \<Rightarrow> Ok (aes_block enc ctx input)
      | Err _ \<Rightarrow> Err AesError
      | Panic \<Rightarrow> Panic)"

text \<open>
  \<^verbatim>\<open>deltlen\<close> is \<open>16 - r / 8\<close>, which wraps around below zero for \<open>r\<close> from 136 on; as 16 divides the modulus
  of \<^verbatim>\<open>usize\<close>, the index modulo 16 is that of the integers. The first argument after \<open>r\<close> is the old contents of
  \<^verbatim>\<open>rijndael_input\<close>.
\<close>

definition scatter_xor :: "int \<Rightarrow> bytes \<Rightarrow> bytes \<Rightarrow> bytes \<Rightarrow> bytes" where
  "scatter_xor deltlen temp opc out =
     fold (\<lambda>i out. out[nat ((int i + deltlen) mod 16) := temp ! i XOR opc ! i]) [0..<16] out"

definition shift_bits :: "u8 \<Rightarrow> bytes \<Rightarrow> bytes \<Rightarrow> bytes \<Rightarrow> bytes" where
  "shift_bits r rijndael_input temp opc =
     (let deltlen = 16 - int (unat r div 8); leftout = unat r mod 8 in
      if leftout = 0 then scatter_xor deltlen temp opc rijndael_input
      else
        let temp1 = scatter_xor deltlen temp opc (replicate 16 0);
            move_bits = 8 - leftout;
            out = fold (\<lambda>i out. out[i := push_bit move_bits (temp1 ! i) OR drop_bit leftout (temp1 ! (i + 1))])
                    [0..<15] (rijndael_input[15 := 0])
        in out[15 := out ! 15 OR drop_bit leftout (temp1 ! 0)])"

lemma fold_update_length [simp]: "length (fold (\<lambda>i out. out[p i := f i]) is out) = length out"
  by (induction "is" arbitrary: out) simp_all

lemma fold_update_nth:
  assumes "inj_on p (set is)" "i \<in> set is" "p i < length out"
  shows "fold (\<lambda>i out. out[p i := f i]) is out ! p i = f i"
  using assms
proof (induction "is" rule: rev_induct)
  case (snoc x xs)
  show ?case
  proof (cases "i = x")
    case False
    have "p i \<noteq> p x" using False snoc.prems inj_onD [OF snoc.prems(1), of i x] by auto
    moreover have "fold (\<lambda>i out. out[p i := f i]) xs out ! p i = f i"
      by (rule snoc.IH) (use False snoc.prems in \<open>auto intro: inj_on_subset\<close>)
    ultimately show ?thesis by simp
  qed (use snoc.prems in simp)
qed simp

lemma scatter_xor_rotate:
  assumes [simp]: "length temp = 16" "length opc = 16" "length out = 16" and n: "n \<le> 31"
  shows "scatter_xor (16 - int n) temp opc out = rotate n (xor_bytes temp opc)"
proof (rule nth_equalityI)
  show "length (scatter_xor (16 - int n) temp opc out) = length (rotate n (xor_bytes temp opc))"
    by (simp add: scatter_xor_def)
next
  fix j assume "j < length (scatter_xor (16 - int n) temp opc out)"
  then have j: "j < 16" by (simp add: scatter_xor_def)
  let ?p = "\<lambda>i. nat ((int i + (16 - int n)) mod 16)"
  let ?i = "(n + j) mod 16"
  have inj: "inj_on ?p (set [0..<16])"
  proof (rule inj_onI)
    fix i i' assume "i \<in> set [0..<16]" "i' \<in> set [0..<16]" and eq: "?p i = ?p i'"
    then have "i < 16" "i' < 16" by auto
    moreover from eq have "(int i + (16 - int n)) mod 16 = (int i' + (16 - int n)) mod 16"
      by (simp add: nat_eq_iff)
    then have "16 dvd int i - int i'" by (simp add: mod_eq_dvd_iff)
    ultimately show "i = i'" by presburger
  qed
  have p: "?p ?i = j"
  proof -
    have "int ?i = (int n + int j) mod 16" by (simp add: zmod_int)
    then have "(int ?i + (16 - int n)) mod 16 = (int n + int j + (16 - int n)) mod 16" by presburger
    also have "\<dots> = int j" using j by simp
    finally show ?thesis by simp
  qed
  have "?i \<in> set [0..<16]" "?p ?i < length out" using p j by simp_all
  from fold_update_nth [OF inj this, of "\<lambda>i. temp ! i XOR opc ! i"] p
  show "scatter_xor (16 - int n) temp opc out ! j = rotate n (xor_bytes temp opc) ! j"
    using j by (simp add: scatter_xor_def nth_rotate xor_bytes_nth)
qed

text \<open>The rotations of the algorithm are by whole octets.\<close>

lemma shift_bits_octets:
  assumes "length temp = 16" "length opc = 16" "length out = 16" "unat r = 8 * n"
  shows "shift_bits r out temp opc = rotate n (xor_bytes temp opc)"
proof -
  have "n \<le> 31" using unsigned_less [of r, where 'a = nat] assms(4) by simp
  with assms show ?thesis by (simp add: shift_bits_def scatter_xor_rotate)
qed

text \<open>
  The branch for other rotations, which no caller reaches, shifts by \<open>8 - r mod 8\<close> bits instead of \<open>r mod 8\<close> and loses
  the bits that leave the last octet: rotating a block by one bit gives neither a left nor a right rotation.
\<close>

lemma shift_bits_by_one:
  "shift_bits 1 (replicate 16 0) (replicate 15 0 @ [1]) (replicate 16 0) = replicate 16 0"
  by code_simp

section \<open>The functions f1 to f5*\<close>

text \<open>The results: \<^verbatim>\<open>(mac_a, mac_s)\<close>, and \<^verbatim>\<open>(res, ck, ik, ak, akstar)\<close>.\<close>

definition milenage_f1 ::
  "block_fun \<Rightarrow> bytes \<Rightarrow> bytes \<Rightarrow> bytes \<Rightarrow> bytes \<Rightarrow> bytes \<Rightarrow> (MilenageError, bytes \<times> bytes) outcome" where
  "milenage_f1 enc opc k rand sqn amf =
     obind (aes_128_encrypt_block enc k (xor_bytes rand opc)) (\<lambda>tmp1.
       let tmp2 = sqn @ amf @ sqn @ amf;
           tmp3 = xor_bytes (shift_bits 64 (replicate 16 0) tmp2 opc) tmp1
       in obind (aes_128_encrypt_block enc k tmp3) (\<lambda>tmp1.
            let tmp1 = xor_bytes tmp1 opc in Ok (take 8 tmp1, drop 8 tmp1)))"

definition milenage_f2345 ::
  "block_fun \<Rightarrow> bytes \<Rightarrow> bytes \<Rightarrow> bytes \<Rightarrow>
     (MilenageError, bytes \<times> bytes \<times> bytes \<times> bytes \<times> bytes) outcome" where
  "milenage_f2345 enc opc k rand =
     (let tmp1 = xor_bytes rand opc in
      obind (aes_128_encrypt_block enc k tmp1) (\<lambda>tmp2.
        let tmp1 = shift_bits 0 tmp1 tmp2 opc; tmp1 = tmp1[15 := tmp1 ! 15 XOR 1] in
        obind (aes_128_encrypt_block enc k tmp1) (\<lambda>tmp3.
          let tmp3 = xor_bytes tmp3 opc; res = drop 8 tmp3; ak = take 6 tmp3;
              tmp1 = shift_bits 32 tmp1 tmp2 opc; tmp1 = tmp1[15 := tmp1 ! 15 XOR 2] in
          obind (aes_128_encrypt_block enc k tmp1) (\<lambda>ck.
            let ck = xor_bytes ck opc;
                tmp1 = shift_bits 64 tmp1 tmp2 opc; tmp1 = tmp1[15 := tmp1 ! 15 XOR 4] in
            obind (aes_128_encrypt_block enc k tmp1) (\<lambda>ik.
              let ik = xor_bytes ik opc;
                  tmp1 = shift_bits 96 tmp1 tmp2 opc; tmp1 = tmp1[15 := tmp1 ! 15 XOR 8] in
              obind (aes_128_encrypt_block enc k tmp1) (\<lambda>tmp_out.
                Ok (res, ck, ik, ak, take 6 (xor_bytes tmp_out opc))))))))"

definition milenage_opc :: "block_fun \<Rightarrow> bytes \<Rightarrow> bytes \<Rightarrow> (MilenageError, bytes) outcome" where
  "milenage_opc enc k op = obind (aes_128_encrypt_block enc k op) (\<lambda>opc. Ok (xor_bytes opc op))"

text \<open>The result is \<^verbatim>\<open>(autn, ik, ck, ak, res)\<close>.\<close>

definition milenage_generate ::
  "block_fun \<Rightarrow> bytes \<Rightarrow> bytes \<Rightarrow> bytes \<Rightarrow> bytes \<Rightarrow> bytes \<Rightarrow>
     (MilenageError, bytes \<times> bytes \<times> bytes \<times> bytes \<times> bytes) outcome" where
  "milenage_generate enc opc amf k sqn rand =
     obind (milenage_f1 enc opc k rand sqn amf) (\<lambda>(mac_a, _).
     obind (milenage_f2345 enc opc k rand) (\<lambda>(res, ck, ik, ak, _).
       Ok (xor_bytes sqn ak @ amf @ mac_a, ik, ck, ak, res)))"

definition milenage_auts ::
  "block_fun \<Rightarrow> bytes \<Rightarrow> bytes \<Rightarrow> bytes \<Rightarrow> bytes \<Rightarrow> (MilenageError, bytes) outcome" where
  "milenage_auts enc opc k rand auts =
     (let amf = [0, 0] in
      obind (milenage_f2345 enc opc k rand) (\<lambda>(_, _, _, _, akstar).
        let sqn = xor_bytes (take 6 auts) akstar in
        obind (milenage_f1 enc opc k rand sqn amf) (\<lambda>(_, mac_s).
          if mac_s \<noteq> drop 6 auts then Err MacMismatch else Ok sqn)))"

definition gsm_milenage :: "block_fun \<Rightarrow> bytes \<Rightarrow> bytes \<Rightarrow> bytes \<Rightarrow> (MilenageError, bytes \<times> bytes) outcome" where
  "gsm_milenage enc opc k rand =
     obind (milenage_f2345 enc opc k rand) (\<lambda>(res, ck, ik, _, _).
       let kc = map (\<lambda>i. ck ! i XOR ck ! (i + 8) XOR ik ! i XOR ik ! (i + 8)) [0..<8];
           sres = map (\<lambda>i. res ! i XOR res ! (i + 4)) [0..<4]
       in Ok (sres, kc))"

text \<open>\<^verbatim>\<open><\<close> on slices: lexicographic.\<close>

fun slice_less :: "bytes \<Rightarrow> bytes \<Rightarrow> bool" where
  "slice_less [] bs = (bs \<noteq> [])"
| "slice_less (a # as) [] = False"
| "slice_less (a # as) (b # bs) = (a < b \<or> a = b \<and> slice_less as bs)"

text \<open>The USIM's check: \<^verbatim>\<open>(ik, ck, res, auts)\<close>, where \<open>auts\<close> is \<open>None\<close> when the network is authenticated.\<close>

definition milenage_check ::
  "block_fun \<Rightarrow> bytes \<Rightarrow> bytes \<Rightarrow> bytes \<Rightarrow> bytes \<Rightarrow> bytes \<Rightarrow>
     (MilenageError, bytes \<times> bytes \<times> bytes \<times> bytes option) outcome" where
  "milenage_check enc opc k sqn rand autn =
     obind (milenage_f2345 enc opc k rand) (\<lambda>(res, ck, ik, ak, _).
       let rx_sqn = xor_bytes (take 6 autn) ak in
       if \<not> slice_less sqn rx_sqn then
         let auts_amf = [0, 0] in
         obind (milenage_f2345 enc opc k rand) (\<lambda>(_, _, _, _, akstar).
           let auts = xor_bytes sqn akstar in
           obind (milenage_f1 enc opc k rand sqn auts_amf) (\<lambda>(_, mac_s).
             Ok (ik, ck, res, Some (auts @ mac_s))))
       else
         let amf = [autn ! 6, autn ! 7] in
         obind (milenage_f1 enc opc k rand rx_sqn amf) (\<lambda>(mac_a, _).
           if mac_a \<noteq> take 8 (drop 8 autn) then Err MacMismatch else Ok (ik, ck, res, None)))"

section \<open>The algorithm of the standard\<close>

text \<open>
  TS 35.206, clause 4.1, on 128-bit words: \<open>TEMP = E (RAND XOR OP_C)\<close>; OUT1 of the input block
  \<open>IN1 = SQN || AMF || SQN || AMF\<close>, with the rotation by 64 bits and the constant 0; OUT2 to OUT5 with their rotations
  and constants.
\<close>

definition ts35206_out1 :: "(block \<Rightarrow> block) \<Rightarrow> block \<Rightarrow> block \<Rightarrow> block \<Rightarrow> block" where
  "ts35206_out1 E opc rand in1 = E (E (rand XOR opc) XOR word_rotl 64 (in1 XOR opc)) XOR opc"

definition ts35206_out :: "(block \<Rightarrow> block) \<Rightarrow> block \<Rightarrow> block \<Rightarrow> nat \<Rightarrow> block \<Rightarrow> block" where
  "ts35206_out E opc rand r c = E (word_rotl r (E (rand XOR opc) XOR opc) XOR c) XOR opc"

definition f1_out :: "block_fun \<Rightarrow> bytes \<Rightarrow> bytes \<Rightarrow> bytes \<Rightarrow> bytes \<Rightarrow> bytes \<Rightarrow> bytes" where
  "f1_out enc opc k rand sqn amf =
     block_octets (ts35206_out1 (enc (Aes128 k)) (octets_block opc) (octets_block rand)
                     (octets_block (sqn @ amf @ sqn @ amf)))"

definition f_out :: "block_fun \<Rightarrow> bytes \<Rightarrow> bytes \<Rightarrow> bytes \<Rightarrow> nat \<Rightarrow> block \<Rightarrow> bytes" where
  "f_out enc opc k rand r c =
     block_octets (ts35206_out (enc (Aes128 k)) (octets_block opc) (octets_block rand) r c)"

lemma rotl_zero [simp]: "word_rotl 0 w = w"
  by (rule bit_word_eqI) (simp add: bit_word_rotl_iff)

lemma length_f_out [simp]:
  "length (f1_out enc opc k rand sqn amf) = 16" "length (f_out enc opc k rand r c) = 16"
  by (simp_all add: f1_out_def f_out_def)

lemma encrypt_128 [simp]:
  "length k = 16 \<Longrightarrow> aes_128_encrypt_block enc k b = Ok (block_octets (enc (Aes128 k) (octets_block b)))"
  by (simp add: aes_128_encrypt_block_def aes_context_new_def aes_block_def)

lemma shift_bits_block:
  assumes "length temp = 16" "length opc = 16" "length out = 16"
  shows "shift_bits 0 out temp opc = block_octets (octets_block temp XOR octets_block opc)"
    and "shift_bits 32 out temp opc = block_octets (word_rotl 32 (octets_block temp XOR octets_block opc))"
    and "shift_bits 64 out temp opc = block_octets (word_rotl 64 (octets_block temp XOR octets_block opc))"
    and "shift_bits 96 out temp opc = block_octets (word_rotl 96 (octets_block temp XOR octets_block opc))"
  using shift_bits_octets [OF assms, of 0 0] shift_bits_octets [OF assms, of 32 4]
    shift_bits_octets [OF assms, of 64 8] shift_bits_octets [OF assms, of 96 12] assms
  by (simp_all add: rotate_block xor_bytes_block)

lemma milenage_f1_eq:
  assumes "length opc = 16" "length k = 16" "length rand = 16" "length sqn = 6" "length amf = 2"
  shows "milenage_f1 enc opc k rand sqn amf =
    Ok (take 8 (f1_out enc opc k rand sqn amf), drop 8 (f1_out enc opc k rand sqn amf))"
  using assms
  by (simp add: milenage_f1_def f1_out_def ts35206_out1_def shift_bits_block xor_bytes_block Let_def xor.commute)

lemma milenage_f2345_eq:
  assumes "length opc = 16" "length k = 16" "length rand = 16"
  shows "milenage_f2345 enc opc k rand =
    Ok (drop 8 (f_out enc opc k rand 0 1), f_out enc opc k rand 32 2, f_out enc opc k rand 64 4,
        take 6 (f_out enc opc k rand 0 1), take 6 (f_out enc opc k rand 96 8))"
  using assms
  by (simp add: milenage_f2345_def f_out_def ts35206_out_def shift_bits_block xor_bytes_block last_block Let_def)

section \<open>Sequence numbers\<close>

text \<open>A sequence number of six octets as the number it stands for.\<close>

definition be_nat :: "bytes \<Rightarrow> nat" where
  "be_nat bs = le_nat (rev bs)"

lemma le_nat_append: "le_nat (as @ bs) = le_nat as + 256 ^ length as * le_nat bs"
  by (induction as) (simp_all add: algebra_simps)

lemma be_nat_Cons [simp]: "be_nat (b # bs) = unat b * 256 ^ length bs + be_nat bs"
  by (simp add: be_nat_def le_nat_append)

lemma be_nat_Nil [simp]: "be_nat [] = 0"
  by (simp add: be_nat_def)

lemma be_nat_bound: "be_nat bs < 256 ^ length bs"
  using le_nat_bound [of "rev bs"] by (simp add: be_nat_def)

lemma high_digit_less:
  fixes a b :: nat
  assumes "x < m" "y < m"
  shows "a * m + x < b * m + y \<longleftrightarrow> a < b \<or> a = b \<and> x < y"
proof (cases a b rule: linorder_cases)
  case less
  then have "Suc a * m \<le> b * m" by (intro mult_le_mono1) simp
  with less assms show ?thesis by simp
next
  case greater
  then have "Suc b * m \<le> a * m" by (intro mult_le_mono1) simp
  with greater assms show ?thesis by simp
qed simp

text \<open>The comparison of slices is that of the numbers.\<close>

lemma slice_less_nat: "length a = length b \<Longrightarrow> slice_less a b \<longleftrightarrow> be_nat a < be_nat b"
proof (induction a b rule: slice_less.induct)
  case (3 a as b bs)
  have "length as = length bs" using "3.prems" by simp
  then show ?case
    using high_digit_less [of "be_nat as" "256 ^ length bs" "be_nat bs" "unat a" "unat b"]
      be_nat_bound [of as] be_nat_bound [of bs] 3
    by (auto simp: word_less_nat_alt word_unat_eq_iff)
qed simp_all

section \<open>Mutual authentication\<close>

lemma milenage_generate_eq:
  assumes "length opc = 16" "length k = 16" "length rand = 16" "length sqn = 6" "length amf = 2"
  shows "milenage_generate enc opc amf k sqn rand =
    Ok (xor_bytes sqn (take 6 (f_out enc opc k rand 0 1)) @ amf @ take 8 (f1_out enc opc k rand sqn amf),
        f_out enc opc k rand 64 4, f_out enc opc k rand 32 2, take 6 (f_out enc opc k rand 0 1),
        drop 8 (f_out enc opc k rand 0 1))"
  using assms by (simp add: milenage_generate_def milenage_f1_eq milenage_f2345_eq)

lemma milenage_auts_eq:
  assumes "length opc = 16" "length k = 16" "length rand = 16" "length auts = 14"
  shows "milenage_auts enc opc k rand auts =
    (let sqn = xor_bytes (take 6 auts) (take 6 (f_out enc opc k rand 96 8))
     in if drop 6 auts = drop 8 (f1_out enc opc k rand sqn [0, 0]) then Ok sqn else Err MacMismatch)"
  using assms by (auto simp: milenage_auts_def milenage_f1_eq milenage_f2345_eq Let_def)

lemma milenage_check_eq:
  assumes "length opc = 16" "length k = 16" "length rand = 16" "length sqn = 6" "length autn = 16"
  shows "milenage_check enc opc k sqn rand autn =
    (let ik = f_out enc opc k rand 64 4; ck = f_out enc opc k rand 32 2; res = drop 8 (f_out enc opc k rand 0 1);
         rx_sqn = xor_bytes (take 6 autn) (take 6 (f_out enc opc k rand 0 1))
     in if be_nat rx_sqn \<le> be_nat sqn
        then Ok (ik, ck, res, Some (xor_bytes sqn (take 6 (f_out enc opc k rand 96 8)) @
                                    drop 8 (f1_out enc opc k rand sqn [0, 0])))
        else if take 8 (drop 8 autn) = take 8 (f1_out enc opc k rand rx_sqn [autn ! 6, autn ! 7])
             then Ok (ik, ck, res, None)
             else Err MacMismatch)"
  using assms by (auto simp: milenage_check_def milenage_f1_eq milenage_f2345_eq slice_less_nat Let_def not_less)

lemma octets_6_2_8:
  assumes "length autn = 16"
  shows "autn = take 6 autn @ [autn ! 6, autn ! 7] @ take 8 (drop 8 autn)"
proof -
  have "drop 6 autn = autn ! 6 # autn ! 7 # drop 8 autn"
    using assms Cons_nth_drop_Suc [of 6 autn] Cons_nth_drop_Suc [of 7 autn] by simp
  then show ?thesis using assms append_take_drop_id [of 6 autn] by simp
qed

text \<open>What the USIM makes of the network's token: it recovers the sequence number and the field AMF.\<close>

lemma check_generated:
  assumes "length opc = 16" "length k = 16" "length rand = 16" "length sqn = 6" "length amf = 2" "length sqn_ms = 6"
    and "milenage_generate enc opc amf k sqn rand = Ok (autn, ik, ck, ak, res)"
  shows "milenage_check enc opc k sqn_ms rand autn =
    Ok (ik, ck, res, if be_nat sqn \<le> be_nat sqn_ms
                     then Some (xor_bytes sqn_ms (take 6 (f_out enc opc k rand 96 8)) @
                                drop 8 (f1_out enc opc k rand sqn_ms [0, 0]))
                     else None)"
proof -
  obtain a b where amf: "amf = [a, b]" using assms(5) by (auto simp: numeral_2_eq_2 length_Suc_conv)
  from assms have autn: "autn = xor_bytes sqn (take 6 (f_out enc opc k rand 0 1)) @ [a, b] @
      take 8 (f1_out enc opc k rand sqn [a, b])"
    and keys: "ik = f_out enc opc k rand 64 4" "ck = f_out enc opc k rand 32 2" "res = drop 8 (f_out enc opc k rand 0 1)"
    by (auto simp: milenage_generate_eq amf)
  have "take 6 autn = xor_bytes sqn (take 6 (f_out enc opc k rand 0 1))" "autn ! 6 = a" "autn ! 7 = b"
    "take 8 (drop 8 autn) = take 8 (f1_out enc opc k rand sqn [a, b])" "length autn = 16"
    using assms(4) by (simp_all add: autn nth_append)
  with assms show ?thesis
    by (simp add: milenage_check_eq keys xor_bytes_involution Let_def)
qed

section \<open>Properties\<close>

text \<open>
  C34: The octet-wise code of f1 and of f2 to f5* computes the algorithm of TS 35.206 on 128-bit words: MAC-A and MAC-S
  are the halves of OUT1, RES and AK come from OUT2, CK is OUT3, IK is OUT4 and AK* comes from OUT5, with the standard's
  left rotations by 64, 0, 32, 64 and 96 bits and its constants 0, 1, 2, 4 and 8, whatever the block cipher.
\<close>

theorem milenage_standard:
  assumes "length opc = 16" "length k = 16" "length rand = 16" "length sqn = 6" "length amf = 2"
  shows "milenage_f1 enc opc k rand sqn amf =
      (let E = enc (Aes128 k);
           OUT1 = ts35206_out1 E (octets_block opc) (octets_block rand) (octets_block (sqn @ amf @ sqn @ amf))
       in Ok (take 8 (block_octets OUT1), drop 8 (block_octets OUT1))) \<and>
    milenage_f2345 enc opc k rand =
      (let E = enc (Aes128 k); OUT = ts35206_out E (octets_block opc) (octets_block rand);
           OUT2 = block_octets (OUT 0 1)
       in Ok (drop 8 OUT2, block_octets (OUT 32 2), block_octets (OUT 64 4), take 6 OUT2,
              take 6 (block_octets (OUT 96 8))))"
  using assms by (simp add: milenage_f1_eq milenage_f2345_eq f1_out_def f_out_def Let_def)

lemma milenage_standard_witness:
  "milenage_f2345 (\<lambda>_ b. b + 1) (replicate 16 7) (replicate 16 1) (replicate 16 9) =
     (let OUT = ts35206_out (\<lambda>b. b + 1) (octets_block (replicate 16 7)) (octets_block (replicate 16 9));
          OUT2 = block_octets (OUT 0 1)
      in Ok (drop 8 OUT2, block_octets (OUT 32 2), block_octets (OUT 64 4), take 6 OUT2,
             take 6 (block_octets (OUT 96 8))))"
  using milenage_standard [of "replicate 16 7" "replicate 16 1" "replicate 16 9" "replicate 6 0" "[0x80, 0]"
      "\<lambda>_ b. b + 1"]
  by (simp add: Let_def)

text \<open>
  Authentication and resynchronisation agree. When the home network generates a token AUTN for a sequence number,
  a USIM with the same K and OPc accepts it if the number is above its own, and has the network's RES, CK and IK;
  otherwise it answers with a token AUTS of 14 octets from which the network recovers exactly the number of the USIM.
\<close>

lemma milenage_agreement:
  assumes "length opc = 16" "length k = 16" "length rand = 16" "length sqn = 6" "length amf = 2" "length sqn_ms = 6"
    and "milenage_generate enc opc amf k sqn rand = Ok (autn, ik, ck, ak, res)"
  shows "if be_nat sqn_ms < be_nat sqn
    then milenage_check enc opc k sqn_ms rand autn = Ok (ik, ck, res, None)
    else \<exists>auts. milenage_check enc opc k sqn_ms rand autn = Ok (ik, ck, res, Some auts) \<and>
           length auts = 14 \<and> milenage_auts enc opc k rand auts = Ok sqn_ms"
  using check_generated [OF assms] assms(1-6)
  by (auto simp: milenage_auts_eq xor_bytes_involution Let_def)

text \<open>
  C6: Only the home network's tokens authenticate: the USIM accepts a token AUTN exactly when the home network generates
  it, with the same keys, for the challenge RAND and some sequence number above that of the USIM and some field AMF;
  and the home network accepts a token AUTS, with a sequence number, exactly when a USIM at that number answers so.
\<close>

theorem milenage_authentic:
  assumes "length opc = 16" "length k = 16" "length rand = 16" "length sqn_ms = 6" "length autn = 16" "length auts = 14"
  shows "(milenage_check enc opc k sqn_ms rand autn = Ok (ik, ck, res, None) \<longleftrightarrow>
      (\<exists>sqn amf ak. length sqn = 6 \<and> length amf = 2 \<and> be_nat sqn_ms < be_nat sqn \<and>
         milenage_generate enc opc amf k sqn rand = Ok (autn, ik, ck, ak, res))) \<and>
    (milenage_auts enc opc k rand auts = Ok sqn_ms \<longleftrightarrow>
      (\<exists>autn ik ck res. length autn = 16 \<and>
         milenage_check enc opc k sqn_ms rand autn = Ok (ik, ck, res, Some auts)))"
proof (intro conjI iffI, goal_cases)
  case 1
  let ?ak = "take 6 (f_out enc opc k rand 0 1)"
  let ?sqn = "xor_bytes (take 6 autn) ?ak"
  from 1 assms have "be_nat sqn_ms < be_nat ?sqn" "ik = f_out enc opc k rand 64 4" "ck = f_out enc opc k rand 32 2"
    "res = drop 8 (f_out enc opc k rand 0 1)"
    "take 8 (drop 8 autn) = take 8 (f1_out enc opc k rand ?sqn [autn ! 6, autn ! 7])"
    by (auto simp: milenage_check_eq Let_def not_le split: if_splits)
  moreover from this have "milenage_generate enc opc [autn ! 6, autn ! 7] k ?sqn rand = Ok (autn, ik, ck, ?ak, res)"
    using assms octets_6_2_8 [of autn] by (simp add: milenage_generate_eq xor_bytes_involution)
  ultimately show ?case using assms by (intro exI [of _ ?sqn] exI [of _ "[autn ! 6, autn ! 7]"] exI [of _ ?ak]) simp
next
  case 2
  then obtain sqn amf ak where "length sqn = 6" "length amf = 2" "be_nat sqn_ms < be_nat sqn"
    "milenage_generate enc opc amf k sqn rand = Ok (autn, ik, ck, ak, res)" by blast
  then show ?case using check_generated [of opc k rand sqn amf sqn_ms enc autn ik ck ak res] assms by simp
next
  case 3
  obtain autn' ik' ck' ak' res' where gen: "milenage_generate enc opc [0, 0] k sqn_ms rand = Ok (autn', ik', ck', ak', res')"
    and len: "length autn' = 16"
    using assms by (simp add: milenage_generate_eq)
  from 3 assms have "take 6 auts = xor_bytes sqn_ms (take 6 (f_out enc opc k rand 96 8))"
    "drop 6 auts = drop 8 (f1_out enc opc k rand sqn_ms [0, 0])"
    by (auto simp: milenage_auts_eq Let_def xor_bytes_involution split: if_splits)
  then have "auts = xor_bytes sqn_ms (take 6 (f_out enc opc k rand 96 8)) @ drop 8 (f1_out enc opc k rand sqn_ms [0, 0])"
    by (metis append_take_drop_id)
  with check_generated [OF assms(1-3) assms(4) _ assms(4) gen] len show ?case
    by (intro exI [of _ autn'] exI [of _ ik'] exI [of _ ck'] exI [of _ res']) simp
next
  case 4
  then obtain autn' ik' ck' res' where "length autn' = 16"
    and "milenage_check enc opc k sqn_ms rand autn' = Ok (ik', ck', res', Some auts)" by blast
  then have "auts = xor_bytes sqn_ms (take 6 (f_out enc opc k rand 96 8)) @ drop 8 (f1_out enc opc k rand sqn_ms [0, 0])"
    using assms by (auto simp: milenage_check_eq Let_def split: if_splits)
  then show ?case using assms by (simp add: milenage_auts_eq xor_bytes_involution)
qed

text \<open>A subscriber with a simple block function in the place of AES.\<close>

definition demo_enc :: block_fun where
  "demo_enc ctx b = b + 1"

lemma milenage_authentic_witness:
  "\<exists>auts. milenage_auts demo_enc (replicate 16 7) (replicate 16 1) (replicate 16 9) auts = Ok (replicate 6 3)"
proof -
  obtain autn ik ck ak res where gen: "milenage_generate demo_enc (replicate 16 7) [0, 0] (replicate 16 1)
      (replicate 6 3) (replicate 16 9) = Ok (autn, ik, ck, ak, res)" and len: "length autn = 16"
    by (simp add: milenage_generate_eq)
  let ?auts = "xor_bytes (replicate 6 3) (take 6 (f_out demo_enc (replicate 16 7) (replicate 16 1) (replicate 16 9) 96 8)) @
      drop 8 (f1_out demo_enc (replicate 16 7) (replicate 16 1) (replicate 16 9) (replicate 6 3) [0, 0])"
  have "milenage_check demo_enc (replicate 16 7) (replicate 16 1) (replicate 6 3) (replicate 16 9) autn =
      Ok (ik, ck, res, Some ?auts)"
    using check_generated [OF _ _ _ _ _ _ gen, of "replicate 6 3"] by simp
  with milenage_authentic [of "replicate 16 7" "replicate 16 1" "replicate 16 9" "replicate 6 3" autn ?auts demo_enc] len
  have "milenage_auts demo_enc (replicate 16 7) (replicate 16 1) (replicate 16 9) ?auts = Ok (replicate 6 3)"
    by (simp del: append.simps) blast
  then show ?thesis by blast
qed

end
