(* ===== verification/Kdf.thy ===== *)
theory Kdf
  imports Milenage
begin

text \<open>
  Key derivation (\<^verbatim>\<open>libs/nextgcore-crypt/src/kdf.rs\<close>): the generic function of TS 33.220 and the keys of the 5G and
  EPS hierarchies derived with it. HMAC-SHA-256 and SHA-256 come from the crates \<^verbatim>\<open>hmac\<close> and \<^verbatim>\<open>sha2\<close>: they are the
  arguments \<open>hmac\<close> and \<open>sha256\<close>, without a law but the length of their result, 32 octets. A \<^verbatim>\<open>&str\<close> is the list of its
  UTF-8 octets. Keys and challenges of a fixed size are lists. \<open>ne\<close> is \<^verbatim>\<open>u32::to_ne_bytes\<close>, which depends on the machine. The
  \<^verbatim>\<open>debug_assert!\<close>s are not part of the release profile.
\<close>

type_synonym mac_fun = "bytes \<Rightarrow> bytes \<Rightarrow> bytes"
type_synonym hash_fun = "bytes \<Rightarrow> bytes"

section \<open>The generic function\<close>

record KdfParam =
  kp_buf :: "bytes option"
  kp_len :: u16

text \<open>A parameter as the callers set it: the octets and \<^verbatim>\<open>len() as u16\<close>.\<close>

definition kdf_param :: "bytes \<Rightarrow> KdfParam" where
  "kdf_param bs = \<lparr> kp_buf = Some bs, kp_len = of_nat (length bs) \<rparr>"

definition kdf_no_param :: KdfParam where
  "kdf_no_param = \<lparr> kp_buf = None, kp_len = 0 \<rparr>"

definition kdf_s_param :: "KdfParam \<Rightarrow> bytes" where
  "kdf_s_param p =
     (case kp_buf p of None \<Rightarrow> [] | Some buf \<Rightarrow> if 0 < kp_len p then buf @ to_be16 (kp_len p) else [])"

definition kdf_s :: "u8 \<Rightarrow> KdfParam list \<Rightarrow> bytes" where
  "kdf_s fc params = fc # concat (map kdf_s_param params)"

definition nextgcore_kdf_common :: "mac_fun \<Rightarrow> bytes \<Rightarrow> u8 \<Rightarrow> KdfParam list \<Rightarrow> bytes" where
  "nextgcore_kdf_common hmac key fc params = hmac key (kdf_s fc params)"

section \<open>The 5G key hierarchy\<close>

definition nextgcore_kdf_kausf :: "mac_fun \<Rightarrow> bytes \<Rightarrow> bytes \<Rightarrow> bytes \<Rightarrow> bytes \<Rightarrow> (unit, bytes) outcome" where
  "nextgcore_kdf_kausf hmac ck ik serving_network_name autn =
     (if length autn < 6 then Panic
      else Ok (nextgcore_kdf_common hmac (ck @ ik) 0x6A [kdf_param serving_network_name, kdf_param (take 6 autn)]))"

definition nextgcore_kdf_ck_ik_prime :: "mac_fun \<Rightarrow> bytes \<Rightarrow> bytes \<Rightarrow> bytes \<Rightarrow> bytes \<Rightarrow> bytes \<times> bytes" where
  "nextgcore_kdf_ck_ik_prime hmac ck ik serving_network_name sqn_xor_ak =
     (let output = nextgcore_kdf_common hmac (ck @ ik) 0x20 [kdf_param serving_network_name, kdf_param sqn_xor_ak]
      in (take 16 output, drop 16 output))"

definition nextgcore_kdf_xres_star :: "mac_fun \<Rightarrow> bytes \<Rightarrow> bytes \<Rightarrow> bytes \<Rightarrow> bytes \<Rightarrow> bytes \<Rightarrow> bytes" where
  "nextgcore_kdf_xres_star hmac ck ik serving_network_name rand xres =
     drop 16 (nextgcore_kdf_common hmac (ck @ ik) 0x6B
                [kdf_param serving_network_name, kdf_param rand, kdf_param xres])"

definition nextgcore_kdf_hxres_star :: "hash_fun \<Rightarrow> bytes \<Rightarrow> bytes \<Rightarrow> bytes" where
  "nextgcore_kdf_hxres_star sha256 rand xres_star = drop 16 (sha256 (rand @ xres_star))"

definition nextgcore_kdf_kseaf :: "mac_fun \<Rightarrow> bytes \<Rightarrow> bytes \<Rightarrow> bytes" where
  "nextgcore_kdf_kseaf hmac serving_network_name kausf =
     nextgcore_kdf_common hmac kausf 0x6C [kdf_param serving_network_name]"

text \<open>\<^verbatim>\<open>split('-')\<close> on the octets.\<close>

fun split_octet :: "u8 \<Rightarrow> bytes \<Rightarrow> bytes list" where
  "split_octet c [] = [[]]"
| "split_octet c (b # bs) =
     (if b = c then [] # split_octet c bs
      else case split_octet c bs of [] \<Rightarrow> [[b]] | part # parts \<Rightarrow> (b # part) # parts)"

definition nextgcore_id_get_value :: "bytes \<Rightarrow> bytes" where
  "nextgcore_id_get_value id' =
     (let parts = split_octet 0x2D id' in if 2 \<le> length parts then parts ! 1 else id')"

definition nextgcore_kdf_kamf :: "mac_fun \<Rightarrow> bytes \<Rightarrow> bytes \<Rightarrow> bytes \<Rightarrow> bytes" where
  "nextgcore_kdf_kamf hmac supi abba kseaf =
     nextgcore_kdf_common hmac kseaf 0x6D [kdf_param (nextgcore_id_get_value supi), kdf_param abba]"

definition nextgcore_kdf_nas_5gs :: "mac_fun \<Rightarrow> u8 \<Rightarrow> u8 \<Rightarrow> bytes \<Rightarrow> bytes" where
  "nextgcore_kdf_nas_5gs hmac algorithm_type algorithm_identity kamf =
     drop 16 (nextgcore_kdf_common hmac kamf 0x69 [kdf_param [algorithm_type], kdf_param [algorithm_identity]])"

definition nextgcore_kdf_kgnb_and_kn3iwf :: "mac_fun \<Rightarrow> bytes \<Rightarrow> u32 \<Rightarrow> u8 \<Rightarrow> bytes" where
  "nextgcore_kdf_kgnb_and_kn3iwf hmac kamf ul_count access_type =
     nextgcore_kdf_common hmac kamf 0x6E [kdf_param (to_be32 ul_count), kdf_param [access_type]]"

definition nextgcore_kdf_nh_gnb :: "mac_fun \<Rightarrow> bytes \<Rightarrow> bytes \<Rightarrow> bytes" where
  "nextgcore_kdf_nh_gnb hmac kamf sync_input = nextgcore_kdf_common hmac kamf 0x6F [kdf_param sync_input]"

definition nextgcore_kdf_sor_mac_iausf :: "mac_fun \<Rightarrow> bytes \<Rightarrow> bytes \<Rightarrow> u16 \<Rightarrow> bytes option \<Rightarrow> bytes" where
  "nextgcore_kdf_sor_mac_iausf hmac kausf sor_header counter_sor steering_list =
     drop 16 (nextgcore_kdf_common hmac kausf 0x77
       [kdf_param sor_header, kdf_param (to_be16 counter_sor),
        case steering_list of None \<Rightarrow> kdf_no_param | Some octets \<Rightarrow> kdf_param octets])"

definition nextgcore_kdf_sor_mac_iue :: "mac_fun \<Rightarrow> bytes \<Rightarrow> u16 \<Rightarrow> bytes" where
  "nextgcore_kdf_sor_mac_iue hmac kausf counter_sor =
     drop 16 (nextgcore_kdf_common hmac kausf 0x78 [kdf_param [1], kdf_param (to_be16 counter_sor)])"

definition nextgcore_kdf_upu_mac_iausf :: "mac_fun \<Rightarrow> bytes \<Rightarrow> bytes \<Rightarrow> u16 \<Rightarrow> bytes" where
  "nextgcore_kdf_upu_mac_iausf hmac kausf upu_data counter_upu =
     drop 16 (nextgcore_kdf_common hmac kausf 0x7B [kdf_param upu_data, kdf_param (to_be16 counter_upu)])"

definition nextgcore_kdf_upu_mac_iue :: "mac_fun \<Rightarrow> bytes \<Rightarrow> u16 \<Rightarrow> bytes" where
  "nextgcore_kdf_upu_mac_iue hmac kausf counter_upu =
     drop 16 (nextgcore_kdf_common hmac kausf 0x7C [kdf_param [1], kdf_param (to_be16 counter_upu)])"

text \<open>ANSI-X9.63 for ECIES: encryption key, initial counter block and MAC key.\<close>

definition nextgcore_kdf_ansi_x963 :: "hash_fun \<Rightarrow> bytes \<Rightarrow> bytes \<Rightarrow> bytes \<times> bytes \<times> bytes" where
  "nextgcore_kdf_ansi_x963 sha256 z info =
     (let output1 = sha256 (z @ to_be32 1 @ info); mk = sha256 (z @ to_be32 2 @ info)
      in (take 16 output1, take 16 (drop 16 output1), mk))"

section \<open>The EPS key hierarchy\<close>

definition nextgcore_auc_kasme :: "mac_fun \<Rightarrow> bytes \<Rightarrow> bytes \<Rightarrow> bytes \<Rightarrow> bytes \<Rightarrow> bytes \<Rightarrow> bytes" where
  "nextgcore_auc_kasme hmac ck ik plmn_id sqn ak =
     nextgcore_kdf_common hmac (ck @ ik) 0x10 [kdf_param plmn_id, kdf_param (xor_bytes sqn ak)]"

definition nextgcore_kdf_kenb :: "mac_fun \<Rightarrow> bytes \<Rightarrow> u32 \<Rightarrow> bytes" where
  "nextgcore_kdf_kenb hmac kasme ul_count = nextgcore_kdf_common hmac kasme 0x11 [kdf_param (to_be32 ul_count)]"

definition nextgcore_kdf_nh_enb :: "mac_fun \<Rightarrow> bytes \<Rightarrow> bytes \<Rightarrow> bytes" where
  "nextgcore_kdf_nh_enb hmac kasme sync_input = nextgcore_kdf_common hmac kasme 0x12 [kdf_param sync_input]"

definition nextgcore_kdf_nas_eps :: "mac_fun \<Rightarrow> u8 \<Rightarrow> u8 \<Rightarrow> bytes \<Rightarrow> bytes" where
  "nextgcore_kdf_nas_eps hmac algorithm_type algorithm_identity kasme =
     drop 16 (nextgcore_kdf_common hmac kasme 0x15 [kdf_param [algorithm_type], kdf_param [algorithm_identity]])"

definition nextgcore_kdf_ck_ik_handover :: "mac_fun \<Rightarrow> (u32 \<Rightarrow> bytes) \<Rightarrow> u32 \<Rightarrow> bytes \<Rightarrow> bytes \<times> bytes" where
  "nextgcore_kdf_ck_ik_handover hmac ne dl_count kasme =
     (let output = nextgcore_kdf_common hmac kasme 0x16 [kdf_param (ne dl_count)]
      in (take 16 output, drop 16 output))"

definition nextgcore_kdf_nas_token :: "mac_fun \<Rightarrow> (u32 \<Rightarrow> bytes) \<Rightarrow> u32 \<Rightarrow> bytes \<Rightarrow> bytes" where
  "nextgcore_kdf_nas_token hmac ne ul_count kasme =
     take 2 (nextgcore_kdf_common hmac kasme 0x17 [kdf_param (ne ul_count)])"

definition nextgcore_kdf_kasme_idle_mobility ::
  "mac_fun \<Rightarrow> (u32 \<Rightarrow> bytes) \<Rightarrow> bytes \<Rightarrow> bytes \<Rightarrow> u32 \<Rightarrow> u32 \<Rightarrow> bytes" where
  "nextgcore_kdf_kasme_idle_mobility hmac ne ck ik nonce_ue nonce_mme =
     nextgcore_kdf_common hmac (ck @ ik) 0x19 [kdf_param (ne nonce_ue), kdf_param (ne nonce_mme)]"

definition nextgcore_kdf_ck_ik_idle_mobility :: "mac_fun \<Rightarrow> (u32 \<Rightarrow> bytes) \<Rightarrow> u32 \<Rightarrow> bytes \<Rightarrow> bytes \<times> bytes" where
  "nextgcore_kdf_ck_ik_idle_mobility hmac ne ul_count kasme =
     (let output = nextgcore_kdf_common hmac kasme 0x1B [kdf_param (ne ul_count)]
      in (take 16 output, drop 16 output))"

definition nextgcore_kdf_hash_mme :: "mac_fun \<Rightarrow> bytes \<Rightarrow> bytes" where
  "nextgcore_kdf_hash_mme hmac message = drop 24 (hmac (replicate 32 0) message)"

text \<open>Resynchronisation: \<^verbatim>\<open>(sqn_ms, mac_s)\<close>.\<close>

definition nextgcore_auc_sqn ::
  "block_fun \<Rightarrow> bytes \<Rightarrow> bytes \<Rightarrow> bytes \<Rightarrow> bytes \<Rightarrow> (MilenageError, bytes \<times> bytes) outcome" where
  "nextgcore_auc_sqn enc opc k rand conc_sqn_ms =
     (let amf = [0, 0] in
      obind (milenage_f2345 enc opc k rand) (\<lambda>(_, _, _, _, akstar).
        let sqn_ms = xor_bytes akstar conc_sqn_ms in
        obind (milenage_f1 enc opc k rand sqn_ms amf) (\<lambda>(_, mac_s). Ok (sqn_ms, mac_s))))"

section \<open>Separation of the derivations\<close>

text \<open>The parameters that enter the input of the MAC: the code leaves empty ones out.\<close>

lemma kdf_s_param_param:
  "length b < 65536 \<Longrightarrow> kdf_s_param (kdf_param b) = (if b = [] then [] else b @ to_be16 (of_nat (length b)))"
  by (simp add: kdf_s_param_def kdf_param_def word_less_nat_alt unat_of_nat)

lemma kdf_s_no_param [simp]: "kdf_s_param kdf_no_param = []"
  by (simp add: kdf_s_param_def kdf_no_param_def)

definition kdf_chunk :: "bytes \<Rightarrow> bytes" where
  "kdf_chunk b = b @ to_be16 (of_nat (length b))"

lemma kdf_chunks:
  "list_all (\<lambda>b. length b < 65536) bs \<Longrightarrow>
     concat (map (kdf_s_param \<circ> kdf_param) bs) = concat (map kdf_chunk (filter (\<lambda>b. b \<noteq> []) bs))"
  by (induction bs) (simp_all add: kdf_s_param_param kdf_chunk_def)

lemma to_be16_inj:
  assumes "to_be16 v = to_be16 w" shows "v = w"
proof -
  have "(get_u16 (to_be16 v @ []) :: (unit, u16 \<times> bytes) outcome) = get_u16 (to_be16 w @ [])" unfolding assms ..
  then show ?thesis unfolding get_put by simp
qed

text \<open>Read from its end, a sequence of parameters with their lengths is unique.\<close>

lemma kdf_chunks_inj:
  assumes "list_all (\<lambda>b. length b < 65536) bs" "list_all (\<lambda>b. length b < 65536) cs"
    and "concat (map kdf_chunk bs) = concat (map kdf_chunk cs)"
  shows "bs = cs"
  using assms
proof (induction bs arbitrary: cs rule: rev_induct)
  case Nil
  then show ?case by (cases cs) (auto simp: kdf_chunk_def to_be16_def)
next
  case (snoc b bs)
  from snoc.prems(3) have "cs \<noteq> []" by (auto simp: kdf_chunk_def to_be16_def)
  then obtain ds d where cs: "cs = ds @ [d]" by (cases cs rule: rev_cases) auto
  from snoc.prems have eq: "(concat (map kdf_chunk bs) @ b) @ to_be16 (of_nat (length b)) =
      (concat (map kdf_chunk ds) @ d) @ to_be16 (of_nat (length d))"
    by (simp add: cs kdf_chunk_def [of b] kdf_chunk_def [of d])
  have "concat (map kdf_chunk bs) @ b = concat (map kdf_chunk ds) @ d \<and>
      to_be16 (of_nat (length b)) = to_be16 (of_nat (length d))"
    by (rule append_eq_append_conv [THEN iffD1, OF _ eq]) simp
  then have rest: "concat (map kdf_chunk bs) @ b = concat (map kdf_chunk ds) @ d"
    and "to_be16 (of_nat (length b)) = to_be16 (of_nat (length d))" by blast+
  then have "(of_nat (length b) :: u16) = of_nat (length d)" by (intro to_be16_inj)
  then have "length b = length d"
    using snoc.prems by (auto simp: cs word_of_nat_eq_iff take_bit_nat_eq_self)
  with rest have "b = d" and "concat (map kdf_chunk bs) = concat (map kdf_chunk ds)"
    by (simp_all add: append_eq_append_conv)
  with snoc show ?case by (simp add: cs)
qed

lemma kdf_s_inj:
  assumes "list_all (\<lambda>b. length b < 65536) bs" "list_all (\<lambda>b. length b < 65536) cs"
  shows "kdf_s fc (map kdf_param bs) = kdf_s fc' (map kdf_param cs) \<longleftrightarrow>
    fc = fc' \<and> filter (\<lambda>b. b \<noteq> []) bs = filter (\<lambda>b. b \<noteq> []) cs"
proof -
  have sub: "list_all (\<lambda>b. length b < 65536) (filter (\<lambda>b. b \<noteq> []) xs)"
    if "list_all (\<lambda>b. length b < 65536) xs" for xs :: "bytes list"
    using that by (auto simp: list_all_iff)
  show ?thesis
    using kdf_chunks_inj [OF sub [OF assms(1)] sub [OF assms(2)]] assms
    by (auto simp: kdf_s_def kdf_chunks)
qed

text \<open>
  The derivations with their parameters: 5G keys, the codes of steering of roaming and parameters update, EPS keys. The
  derivations with a count in the machine's order are left out.
\<close>

datatype derivation =
    DCkIkPrime bytes bytes | DKausf bytes bytes | DXresStar bytes bytes bytes | DKseaf bytes
  | DKamf bytes bytes | DNas5gs u8 u8 | DKgnb u32 u8 | DNhGnb bytes
  | DSorAusf bytes u16 bytes | DSorUe u16 | DUpuAusf bytes u16 | DUpuUe u16
  | DKasme bytes bytes | DKenb u32 | DNhEnb bytes | DNasEps u8 u8

fun derivation_parts :: "derivation \<Rightarrow> u8 \<times> bytes list" where
  "derivation_parts (DCkIkPrime snn sqn) = (0x20, [snn, sqn])"
| "derivation_parts (DKausf snn sqn) = (0x6A, [snn, sqn])"
| "derivation_parts (DXresStar snn rand xres) = (0x6B, [snn, rand, xres])"
| "derivation_parts (DKseaf snn) = (0x6C, [snn])"
| "derivation_parts (DKamf val abba) = (0x6D, [val, abba])"
| "derivation_parts (DNas5gs t i) = (0x69, [[t], [i]])"
| "derivation_parts (DKgnb c a) = (0x6E, [to_be32 c, [a]])"
| "derivation_parts (DNhGnb sync) = (0x6F, [sync])"
| "derivation_parts (DSorAusf hdr c octets) = (0x77, [hdr, to_be16 c, octets])"
| "derivation_parts (DSorUe c) = (0x78, [[1], to_be16 c])"
| "derivation_parts (DUpuAusf octets c) = (0x7B, [octets, to_be16 c])"
| "derivation_parts (DUpuUe c) = (0x7C, [[1], to_be16 c])"
| "derivation_parts (DKasme plmn sqn) = (0x10, [plmn, sqn])"
| "derivation_parts (DKenb c) = (0x11, [to_be32 c])"
| "derivation_parts (DNhEnb sync) = (0x12, [sync])"
| "derivation_parts (DNasEps t i) = (0x15, [[t], [i]])"

text \<open>Sizes the types of the code give, lengths that fit their 16-bit fields, and what must not be empty; the value of
  an identity has no hyphen.\<close>

fun derivation_sizes :: "derivation \<Rightarrow> bool" where
  "derivation_sizes (DCkIkPrime snn sqn) = (length sqn = 6)"
| "derivation_sizes (DKausf snn sqn) = (length sqn = 6)"
| "derivation_sizes (DXresStar snn rand xres) = (snn \<noteq> [] \<and> length rand = 16)"
| "derivation_sizes (DKamf val abba) = (val \<noteq> [] \<and> 0x2D \<notin> set val \<and> abba \<noteq> [])"
| "derivation_sizes (DSorAusf hdr c octets) = (hdr \<noteq> [])"
| "derivation_sizes (DKasme plmn sqn) = (length plmn = 3 \<and> length sqn = 6)"
| "derivation_sizes _ = True"

definition derivation_wf :: "derivation \<Rightarrow> bool" where
  "derivation_wf d \<longleftrightarrow> derivation_sizes d \<and> list_all (\<lambda>b. length b < 65536) (snd (derivation_parts d))"

definition derivation_input :: "derivation \<Rightarrow> bytes" where
  "derivation_input d = kdf_s (fst (derivation_parts d)) (map kdf_param (snd (derivation_parts d)))"

text \<open>
  What the library returns for a derivation under a key, which is \<^verbatim>\<open>CK || IK\<close> for the derivations from these, and the
  part of the MAC it keeps.
\<close>

fun derivation_output :: "mac_fun \<Rightarrow> bytes \<Rightarrow> derivation \<Rightarrow> bytes" where
  "derivation_output hmac key (DCkIkPrime snn sqn) =
     (let (ck, ik) = nextgcore_kdf_ck_ik_prime hmac (take 16 key) (drop 16 key) snn sqn in ck @ ik)"
| "derivation_output hmac key (DKausf snn sqn) =
     (case nextgcore_kdf_kausf hmac (take 16 key) (drop 16 key) snn sqn of Ok kausf \<Rightarrow> kausf | _ \<Rightarrow> [])"
| "derivation_output hmac key (DXresStar snn rand xres) =
     nextgcore_kdf_xres_star hmac (take 16 key) (drop 16 key) snn rand xres"
| "derivation_output hmac key (DKseaf snn) = nextgcore_kdf_kseaf hmac snn key"
| "derivation_output hmac key (DKamf val abba) = nextgcore_kdf_kamf hmac (0x2D # val) abba key"
| "derivation_output hmac key (DNas5gs t i) = nextgcore_kdf_nas_5gs hmac t i key"
| "derivation_output hmac key (DKgnb c a) = nextgcore_kdf_kgnb_and_kn3iwf hmac key c a"
| "derivation_output hmac key (DNhGnb sync) = nextgcore_kdf_nh_gnb hmac key sync"
| "derivation_output hmac key (DSorAusf hdr c octets) = nextgcore_kdf_sor_mac_iausf hmac key hdr c (Some octets)"
| "derivation_output hmac key (DSorUe c) = nextgcore_kdf_sor_mac_iue hmac key c"
| "derivation_output hmac key (DUpuAusf octets c) = nextgcore_kdf_upu_mac_iausf hmac key octets c"
| "derivation_output hmac key (DUpuUe c) = nextgcore_kdf_upu_mac_iue hmac key c"
| "derivation_output hmac key (DKasme plmn sqn) =
     nextgcore_auc_kasme hmac (take 16 key) (drop 16 key) plmn sqn (replicate 6 0)"
| "derivation_output hmac key (DKenb c) = nextgcore_kdf_kenb hmac key c"
| "derivation_output hmac key (DNhEnb sync) = nextgcore_kdf_nh_enb hmac key sync"
| "derivation_output hmac key (DNasEps t i) = nextgcore_kdf_nas_eps hmac t i key"

fun derivation_keeps :: "derivation \<Rightarrow> bytes \<Rightarrow> bytes" where
  "derivation_keeps (DXresStar _ _ _) out = drop 16 out"
| "derivation_keeps (DNas5gs _ _) out = drop 16 out"
| "derivation_keeps (DSorAusf _ _ _) out = drop 16 out"
| "derivation_keeps (DSorUe _) out = drop 16 out"
| "derivation_keeps (DUpuAusf _ _) out = drop 16 out"
| "derivation_keeps (DUpuUe _) out = drop 16 out"
| "derivation_keeps (DNasEps _ _) out = drop 16 out"
| "derivation_keeps _ out = out"

lemma split_octet_none: "c \<notin> set bs \<Longrightarrow> split_octet c bs = [bs]"
  by (induction bs) auto

lemma split_octet_Cons: "\<exists>part parts. split_octet c bs = part # parts"
  by (induction bs) (auto split: list.splits)

lemma split_octet_append: "c \<notin> set as \<Longrightarrow> split_octet c (as @ c # bs) = as # split_octet c bs"
  by (induction as) (auto split: list.splits)

text \<open>The value of an identity with a prefix: what lies between its first two hyphens.\<close>

lemma id_get_value_prefixed:
  assumes "0x2D \<notin> set prefix" "0x2D \<notin> set val"
  shows "nextgcore_id_get_value (prefix @ 0x2D # val) = val"
    and "nextgcore_id_get_value (prefix @ 0x2D # val @ 0x2D # rest) = val"
  using assms split_octet_Cons [of "0x2D" rest]
  by (auto simp: nextgcore_id_get_value_def split_octet_append split_octet_none Suc_le_eq)

lemma xor_bytes_zero: "length a = n \<Longrightarrow> xor_bytes a (replicate n 0) = a"
  by (rule nth_equalityI) (simp_all add: xor_bytes_nth)

lemma derivation_wf_list: "derivation_wf d \<Longrightarrow> list_all (\<lambda>b. length b < 65536) (snd (derivation_parts d))"
  by (simp add: derivation_wf_def)

lemma to_be32_inj:
  assumes "to_be32 v = to_be32 w" shows "v = w"
proof -
  have "(get_u32 (to_be32 v @ []) :: (unit, u32 \<times> bytes) outcome) = get_u32 (to_be32 w @ [])" unfolding assms ..
  then show ?thesis unfolding get_put by simp
qed

lemma to_be_nonempty [simp]: "to_be16 v \<noteq> []" "to_be32 w \<noteq> []"
  by (simp_all add: to_be16_def to_be32_def)

lemma to_be_eq [simp]: "to_be16 v = to_be16 v' \<longleftrightarrow> v = v'" "to_be32 w = to_be32 w' \<longleftrightarrow> w = w'"
  using to_be16_inj to_be32_inj by blast+

lemma derivation_input_inj:
  assumes "derivation_wf d" "derivation_wf e" "derivation_input d = derivation_input e"
  shows "d = e"
proof -
  from assms have "fst (derivation_parts d) = fst (derivation_parts e)"
    and "filter (\<lambda>b. b \<noteq> []) (snd (derivation_parts d)) = filter (\<lambda>b. b \<noteq> []) (snd (derivation_parts e))"
    by (simp_all add: derivation_input_def kdf_s_inj derivation_wf_list)
  with assms(1,2) show ?thesis
    by (cases d; cases e) (auto simp: derivation_wf_def split: if_splits)
qed

lemma derivation_output_eq:
  assumes "derivation_wf d"
  shows "derivation_output hmac key d = derivation_keeps d (hmac key (derivation_input d))"
  using assms id_get_value_prefixed(1) [of "[]"]
  by (cases d) (simp_all add: derivation_wf_def derivation_input_def nextgcore_kdf_common_def Let_def
      nextgcore_kdf_ck_ik_prime_def nextgcore_kdf_kausf_def nextgcore_kdf_xres_star_def nextgcore_kdf_kseaf_def
      nextgcore_kdf_kamf_def nextgcore_kdf_nas_5gs_def nextgcore_kdf_kgnb_and_kn3iwf_def nextgcore_kdf_nh_gnb_def
      nextgcore_kdf_sor_mac_iausf_def nextgcore_kdf_sor_mac_iue_def nextgcore_kdf_upu_mac_iausf_def
      nextgcore_kdf_upu_mac_iue_def nextgcore_auc_kasme_def nextgcore_kdf_kenb_def nextgcore_kdf_nh_enb_def
      nextgcore_kdf_nas_eps_def xor_bytes_zero)



text \<open>
  The identity's value ends at its second hyphen: two subscribers whose identities differ only after it get the same
  K_AMF from the same K_SEAF.
\<close>

lemma kamf_same_value:
  assumes "0x2D \<notin> set prefix" "0x2D \<notin> set val"
  shows "nextgcore_kdf_kamf hmac (prefix @ 0x2D # val @ 0x2D # rest) abba kseaf =
    nextgcore_kdf_kamf hmac (prefix @ 0x2D # val @ 0x2D # rest') abba kseaf"
  by (simp add: nextgcore_kdf_kamf_def id_get_value_prefixed(2) [OF assms])

text \<open>An empty parameter of \<^verbatim>\<open>nextgcore_kdf_kamf\<close> leaves its place to the other one.\<close>

lemma kamf_empty_parameter:
  assumes "0x2D \<notin> set p" "0x2D \<notin> set q" "0x2D \<notin> set val"
  shows "nextgcore_kdf_kamf hmac (p @ [0x2D]) val kseaf = nextgcore_kdf_kamf hmac (q @ 0x2D # val) [] kseaf"
  using id_get_value_prefixed(1) [of p "[]"] id_get_value_prefixed(1) [of q val] assms
  by (simp add: nextgcore_kdf_kamf_def nextgcore_kdf_common_def kdf_s_def kdf_s_param_def kdf_param_def)

lemma auc_sqn_eq:
  assumes "length opc = 16" "length k = 16" "length rand = 16" "length conc = 6"
  shows "nextgcore_auc_sqn enc opc k rand conc =
    (let sqn_ms = xor_bytes (take 6 (f_out enc opc k rand 96 8)) conc
     in Ok (sqn_ms, drop 8 (f1_out enc opc k rand sqn_ms [0, 0])))"
  using assms by (simp add: nextgcore_auc_sqn_def milenage_f1_eq milenage_f2345_eq Let_def)

end
