(* ===== verification/Aka.thy ===== *)
theory Aka
  imports Kdf
begin

text \<open>
  5G-AKA, the authentication of a subscriber, through the network functions that take part: the UDM makes the
  authentication vector and handles resynchronisation (\<^verbatim>\<open>bins/nextgcore-udmd/src/app.rs\<close>, \<^verbatim>\<open>nudm_handler.rs\<close>), the
  AUSF keeps it and confirms the response (\<^verbatim>\<open>bins/nextgcore-ausfd/src/app.rs\<close>, \<^verbatim>\<open>context.rs\<close>, \<^verbatim>\<open>nausf_handler.rs\<close>), the
  AMF challenges the UE, checks its response and derives the NAS keys (\<^verbatim>\<open>bins/nextgcore-amfd/src/ngap_path.rs\<close>,
  \<^verbatim>\<open>nas_security.rs\<close>, \<^verbatim>\<open>sbi_path.rs\<close>).

  Strings are lists of their UTF-8 octets. A JSON body is modelled by the fields the handler reads, present or not; the
  block cipher, HMAC-SHA-256, SHA-256, the hex codec of the crate \<^verbatim>\<open>hex\<close>, which the AMF uses, the random challenge and
  the answers of the UDR are arguments.
\<close>

definition ascii :: "string \<Rightarrow> bytes" where
  "ascii = map of_char"

section \<open>Hexadecimal strings\<close>

definition hex_char :: "u8 \<Rightarrow> u8" where
  "hex_char d = (if d < 10 then 0x30 + d else 0x57 + d)"

definition bytes_to_hex :: "bytes \<Rightarrow> bytes" where
  "bytes_to_hex bs = concat (map (\<lambda>b. [hex_char (drop_bit 4 b), hex_char (b AND 0xF)]) bs)"

definition hex_digit :: "u8 \<Rightarrow> u8 option" where
  "hex_digit c =
     (if 0x30 \<le> c \<and> c \<le> 0x39 then Some (c - 0x30)
      else if 0x41 \<le> c \<and> c \<le> 0x46 then Some (c - 0x37)
      else if 0x61 \<le> c \<and> c \<le> 0x66 then Some (c - 0x57) else None)"

text \<open>\<^verbatim>\<open>u8::from_str_radix(_, 16)\<close> on two octets: it allows a leading plus sign.\<close>

definition from_hex_pair :: "u8 \<Rightarrow> u8 \<Rightarrow> u8 option" where
  "from_hex_pair a b =
     (if a = 0x2B then hex_digit b
      else case hex_digit a of None \<Rightarrow> None
           | Some h \<Rightarrow> (case hex_digit b of None \<Rightarrow> None | Some l \<Rightarrow> Some (push_bit 4 h OR l)))"

text \<open>
  The slice \<^verbatim>\<open>&hex[i..i + 2]\<close> panics past the end and when it would end inside a character, before a continuation
  octet. A pair that is no number is left out of the result.
\<close>

definition utf8_continuation :: "u8 \<Rightarrow> bool" where
  "utf8_continuation c \<longleftrightarrow> c AND 0xC0 = 0x80"

fun hex_to_bytes :: "bytes \<Rightarrow> ('e, bytes) outcome" where
  "hex_to_bytes [] = Ok []"
| "hex_to_bytes [a] = Panic"
| "hex_to_bytes (a # b # r) =
     (if r \<noteq> [] \<and> utf8_continuation (hd r) then Panic
      else obind (hex_to_bytes r) (\<lambda>bs.
        case from_hex_pair a b of None \<Rightarrow> Ok bs | Some v \<Rightarrow> Ok (v # bs)))"

lemma nibble_cases: "(d :: u8) < 16 \<Longrightarrow> d \<in> {0, 1, 2, 3, 4, 5, 6, 7, 8, 9, 10, 11, 12, 13, 14, 15}"
proof -
  assume "d < 16"
  then have "unat d < 16" by (simp add: word_less_nat_alt)
  then have "unat d = 0 \<or> unat d = 1 \<or> unat d = 2 \<or> unat d = 3 \<or> unat d = 4 \<or> unat d = 5 \<or> unat d = 6 \<or> unat d = 7 \<or>
      unat d = 8 \<or> unat d = 9 \<or> unat d = 10 \<or> unat d = 11 \<or> unat d = 12 \<or> unat d = 13 \<or> unat d = 14 \<or> unat d = 15"
    by presburger
  then show ?thesis by (simp add: word_unat_eq_iff)
qed

lemma hex_chars:
  "\<forall>d \<in> {0, 1, 2, 3, 4, 5, 6, 7, 8, 9, 10, 11, 12, 13, 14, 15}.
     hex_digit (hex_char d) = Some d \<and> \<not> utf8_continuation (hex_char d) \<and> hex_char d \<noteq> 0x2B"
  by (simp add: hex_digit_def hex_char_def utf8_continuation_def)

lemma hex_digit_char: "d < 16 \<Longrightarrow> hex_digit (hex_char d) = Some d"
  and hex_char_octet: "d < 16 \<Longrightarrow> \<not> utf8_continuation (hex_char d) \<and> hex_char d \<noteq> 0x2B"
  using hex_chars nibble_cases [of d] by blast+

lemma and_nibble: "(b :: u8) AND 0xF = take_bit 4 b"
  by (simp add: take_bit_eq_mask mask_eq_exp_minus_1)

lemma nibbles: "drop_bit 4 (b :: u8) < 16" "b AND 0xF < 16" "push_bit 4 (drop_bit 4 b) OR (b AND 0xF) = b"
proof -
  have "take_bit 4 (drop_bit 4 b) = drop_bit 4 b"
    by (rule bit_word_eqI) (auto simp: bit_simps dest: bit_imp_le_length)
  then show "drop_bit 4 b < 16" "b AND 0xF < 16"
    using word_below_power [of 4 "drop_bit 4 b"] word_below_power [of 4 "take_bit 4 b"] by (simp_all add: and_nibble)
  show "push_bit 4 (drop_bit 4 b) OR (b AND 0xF) = b"
    unfolding and_nibble by (rule bit_word_eqI) (auto simp: bit_simps)
qed

lemma bytes_to_hex_simps [simp]:
  "bytes_to_hex [] = []"
  "bytes_to_hex (b # bs) = hex_char (drop_bit 4 b) # hex_char (b AND 0xF) # bytes_to_hex bs"
  by (simp_all add: bytes_to_hex_def)

lemma hex_roundtrip [simp]: "hex_to_bytes (bytes_to_hex bs) = Ok bs"
proof (induction bs)
  case (Cons b bs)
  have "bytes_to_hex bs = [] \<or> \<not> utf8_continuation (hd (bytes_to_hex bs))"
    using hex_char_octet [OF nibbles(1)] by (cases bs) auto
  with Cons show ?case
    using hex_char_octet [OF nibbles(1) [of b]] hex_digit_char [OF nibbles(1) [of b]] hex_digit_char [OF nibbles(2) [of b]]
    by (simp add: from_hex_pair_def nibbles(3))
qed simp

lemma length_bytes_to_hex [simp]: "length (bytes_to_hex bs) = 2 * length bs"
  by (induction bs) simp_all

section \<open>Sequence numbers of the UDM\<close>

definition buffer_to_u64 :: "bytes \<Rightarrow> u64" where
  "buffer_to_u64 buf = fold (\<lambda>b val. push_bit 8 val OR ucast b) buf 0"

definition sqn_octets :: "u64 \<Rightarrow> bytes" where
  "sqn_octets v = map (\<lambda>i. ucast (drop_bit ((5 - i) * 8) v AND 0xFF)) [0..<6]"

definition advance_sqn_ind :: "bytes \<Rightarrow> bytes" where
  "advance_sqn_ind sqn_bytes =
     (let val = buffer_to_u64 sqn_bytes; seq = drop_bit 5 val; ind = val AND 0x1F
      in sqn_octets ((push_bit 5 (seq + 1) OR ind) AND 0xFFFFFFFFFFFF))"

definition resync_sqn :: "bytes \<Rightarrow> bytes" where
  "resync_sqn sqn_ms = sqn_octets ((buffer_to_u64 sqn_ms + 1) AND 0xFFFFFFFFFFFF)"

lemma unat_shift_or_octet:
  "unat v < 2 ^ 56 \<Longrightarrow> unat (push_bit 8 v OR ucast (b :: u8) :: u64) = unat v * 256 + unat b"
proof -
  assume v: "unat v < 2 ^ 56"
  have "push_bit 8 v OR ucast b = push_bit 8 v + ucast b"
    by (rule disjunctive_add [symmetric]) (auto simp: bit_simps dest: bit_imp_le_length)
  moreover have "unat b < 256" using unsigned_less [of b, where 'a = nat] by simp
  ultimately show ?thesis using v
    by (simp add: unat_word_ariths unat_push_bit_mult unsigned_ucast_eq take_bit_nat_eq_self)
qed

lemma buffer_to_u64_unat: "length bs \<le> 8 \<Longrightarrow> unat (buffer_to_u64 bs) = be_nat bs"
proof -
  have fold: "unat (fold (\<lambda>b val. push_bit 8 val OR ucast b) bs v) = unat v * 256 ^ length bs + be_nat bs"
    if "unat v < 256 ^ k" "k + length bs \<le> 8" for k and v :: u64
    using that
  proof (induction bs arbitrary: k v)
    case (Cons b bs)
    then have "256 ^ k \<le> (256 :: nat) ^ 7" by (intro power_increasing) simp_all
    with Cons.prems have "unat v < 2 ^ 56" by simp
    then have eq: "unat (push_bit 8 v OR ucast b) = unat v * 256 + unat b" by (rule unat_shift_or_octet)
    have "unat b < 256" using unsigned_less [of b, where 'a = nat] by simp
    with Cons.prems eq have "unat (push_bit 8 v OR ucast b) < 256 ^ Suc k" by simp
    from Cons.IH [OF this] Cons.prems eq show ?case by (simp add: algebra_simps)
  qed simp
  assume "length bs \<le> 8"
  with fold [of 0 0] show ?thesis by (simp add: buffer_to_u64_def)
qed

lemma length_sqn_octets [simp]: "length (sqn_octets v) = 6"
  by (simp add: sqn_octets_def)

lemma be_nat_sqn_octets: "be_nat (sqn_octets v) = unat v mod 2 ^ 48"
proof -
  have octet: "unat (ucast (w AND 0xFF) :: u8) = unat w mod 256" for w :: u64
  proof -
    have "w AND 0xFF = take_bit 8 w" by (simp add: take_bit_eq_mask mask_eq_exp_minus_1)
    then have "(ucast (w AND 0xFF) :: u8) = ucast w" by (intro bit_word_eqI) (auto simp: bit_simps)
    then show ?thesis by (simp add: unsigned_ucast_eq unsigned_take_bit_eq take_bit_eq_mod)
  qed
  let ?n = "unat v"
  have "[0..<6] = [0, 1, 2, 3, 4, 5 :: nat]" by code_simp
  then have "be_nat (sqn_octets v) = (?n div 2 ^ 40 mod 256) * 256 ^ 5 + (?n div 2 ^ 32 mod 256) * 256 ^ 4 +
      (?n div 2 ^ 24 mod 256) * 256 ^ 3 + (?n div 2 ^ 16 mod 256) * 256 ^ 2 + (?n div 2 ^ 8 mod 256) * 256 + ?n mod 256"
    by (simp add: sqn_octets_def octet unat_drop_bit_div)
  also have "\<dots> = ?n mod 2 ^ 48"
    using mod_mult2_eq [of ?n "2 ^ 40" 256] mod_mult2_eq [of ?n "2 ^ 32" 256] mod_mult2_eq [of ?n "2 ^ 24" 256]
      mod_mult2_eq [of ?n "2 ^ 16" 256] mod_mult2_eq [of ?n "2 ^ 8" 256]
    by simp
  finally show ?thesis .
qed

lemma and_48: "(w :: u64) AND 0xFFFFFFFFFFFF = take_bit 48 w"
  by (simp add: take_bit_eq_mask mask_eq_exp_minus_1)

text \<open>The next number has the next SEQ part and the same IND part: it is 32 above, modulo \<open>2 ^ 48\<close>.\<close>

lemma be_nat_advance:
  assumes "length sqn = 6"
  shows "be_nat (advance_sqn_ind sqn) = (be_nat sqn + 32) mod 2 ^ 48"
proof -
  let ?v = "buffer_to_u64 sqn"
  have v: "unat ?v = be_nat sqn" using assms by (simp add: buffer_to_u64_unat)
  have bound: "be_nat sqn < 2 ^ 48" using be_nat_bound [of sqn] assms by simp
  have ind: "?v AND 0x1F = take_bit 5 ?v" by (simp add: take_bit_eq_mask mask_eq_exp_minus_1)
  have "push_bit 5 (drop_bit 5 ?v + 1) OR take_bit 5 ?v = push_bit 5 (drop_bit 5 ?v + 1) + take_bit 5 ?v"
    by (rule disjunctive_add [symmetric]) (auto simp: bit_simps)
  moreover have "unat (drop_bit 5 ?v) + 1 < 2 ^ 64" using bound by (simp add: unat_drop_bit_div v)
  then have "unat (drop_bit 5 ?v + 1) = be_nat sqn div 32 + 1"
    by (simp add: unat_word_ariths unat_drop_bit_div v)
  ultimately have "unat (push_bit 5 (drop_bit 5 ?v + 1) OR take_bit 5 ?v) = (be_nat sqn div 32 + 1) * 32 + be_nat sqn mod 32"
    using bound by (simp add: unat_word_ariths unat_push_bit_mult unat_take_bit_mod v)
  also have "\<dots> = be_nat sqn + 32" by (simp add: algebra_simps)
  finally have "unat (push_bit 5 (drop_bit 5 ?v + 1) OR take_bit 5 ?v) = be_nat sqn + 32" .
  then show ?thesis
    unfolding advance_sqn_ind_def Let_def be_nat_sqn_octets and_48 ind unat_take_bit_mod by simp
qed

lemma be_nat_resync:
  assumes "length sqn = 6"
  shows "be_nat (resync_sqn sqn) = (be_nat sqn + 1) mod 2 ^ 48"
proof -
  have "be_nat sqn < 2 ^ 48" using be_nat_bound [of sqn] assms by simp
  then show ?thesis
    using assms by (simp add: resync_sqn_def be_nat_sqn_octets and_48 unat_take_bit_mod unat_word_ariths buffer_to_u64_unat)
qed

lemma length_next_sqn [simp]: "length (advance_sqn_ind sqn) = 6" "length (resync_sqn sqn) = 6"
  by (simp_all add: advance_sqn_ind_def resync_sqn_def Let_def)

section \<open>UDM\<close>

record UdmUe =
  uu_k :: bytes
  uu_opc :: bytes
  uu_amf :: bytes
  uu_sqn :: bytes
  uu_rand :: bytes
  uu_supi :: "bytes option"
  uu_snn :: "bytes option"

text \<open>The problem responses of \<^verbatim>\<open>handle_generate_auth_data\<close>, in its order.\<close>

datatype udm_problem =
    UnsupportedAuthenticationMethod | SubscriptionIncomplete | UeContextCreationFailed | MalformedKeyMaterial
  | SeparationBitNotSet | ResyncMandatoryMissing | ResyncInvalidLength | ResyncRandMismatch | SqnExtractionFailed
  | MacSVerificationFailed | MilenageFailed | UdrUpdateFailed | UdrUnavailable

text \<open>\<^verbatim>\<open>encPermanentKey\<close>, \<^verbatim>\<open>encOpcKey\<close>, \<^verbatim>\<open>authenticationManagementField\<close> and \<^verbatim>\<open>sequenceNumber.sqn\<close> of the UDR's answer.\<close>

record AuthSubscription =
  as_method :: "bytes option"
  as_k :: "bytes option"
  as_opc :: "bytes option"
  as_amf :: "bytes option"
  as_sqn :: "bytes option"

record ResyncInfo =
  ri_rand :: "bytes option"
  ri_auts :: "bytes option"

datatype auth_vector =
    HeAka (av_rand: bytes) (av_autn: bytes) (av_xres_star: bytes) (av_kausf: bytes)
  | EapAkaPrime (av_rand: bytes) (av_autn: bytes) (av_xres: bytes) (av_ck_prime: bytes) (av_ik_prime: bytes)

text \<open>The UDR's answer to the update of the sequence number: a status, or none.\<close>

datatype patch_answer = PatchStatus nat | PatchFailed

definition udm_load_keys :: "AuthSubscription \<Rightarrow> UdmUe \<Rightarrow> (udm_problem, UdmUe) outcome" where
  "udm_load_keys sub ue =
     (case (as_k sub, as_opc sub, as_amf sub, as_sqn sub) of
        (Some k_hex, Some opc_hex, Some amf_hex, Some sqn_hex) \<Rightarrow>
          obind (hex_to_bytes k_hex) (\<lambda>k_bytes. obind (hex_to_bytes opc_hex) (\<lambda>opc_bytes.
          obind (hex_to_bytes amf_hex) (\<lambda>amf_bytes. obind (hex_to_bytes sqn_hex) (\<lambda>sqn_bytes.
            if length k_bytes < 16 \<or> length opc_bytes < 16 \<or> length amf_bytes < 2 \<or> length sqn_bytes < 6
            then Err MalformedKeyMaterial
            else Ok (ue\<lparr> uu_k := take 16 k_bytes, uu_opc := take 16 opc_bytes, uu_amf := take 2 amf_bytes,
                       uu_sqn := take 6 sqn_bytes \<rparr>)))))
      | _ \<Rightarrow> Err SubscriptionIncomplete)"

definition udm_resync :: "block_fun \<Rightarrow> ResyncInfo \<Rightarrow> UdmUe \<Rightarrow> (udm_problem, UdmUe) outcome" where
  "udm_resync enc resync ue =
     (case (ri_rand resync, ri_auts resync) of
        (Some rand_hex, Some auts_hex) \<Rightarrow>
          if rand_hex = [] \<or> auts_hex = [] then Err ResyncMandatoryMissing
          else obind (hex_to_bytes rand_hex) (\<lambda>rand_bytes. obind (hex_to_bytes auts_hex) (\<lambda>auts_bytes.
            if length rand_bytes \<noteq> 16 \<or> length auts_bytes \<noteq> 14 then Err ResyncInvalidLength
            else if rand_bytes \<noteq> uu_rand ue then Err ResyncRandMismatch
            else (case nextgcore_auc_sqn enc (uu_opc ue) (uu_k ue) rand_bytes (take 6 auts_bytes) of
                Ok (sqn_ms, mac_s) \<Rightarrow>
                  if mac_s \<noteq> drop 6 auts_bytes then Err MacSVerificationFailed
                  else Ok (ue\<lparr> uu_sqn := resync_sqn sqn_ms \<rparr>)
              | Err _ \<Rightarrow> Err SqnExtractionFailed
              | Panic \<Rightarrow> Panic)))
      | _ \<Rightarrow> Err ResyncMandatoryMissing)"

text \<open>Step 7: the vector for the method, from the results of Milenage.\<close>

definition udm_auth_vector ::
  "mac_fun \<Rightarrow> bytes \<Rightarrow> bytes \<Rightarrow> bytes \<Rightarrow> bytes \<Rightarrow> bytes \<Rightarrow> bytes \<Rightarrow> bytes \<Rightarrow> (udm_problem, auth_vector) outcome" where
  "udm_auth_vector hmac auth_method snn rand autn ik ck res =
     (if auth_method = ascii ''EAP_AKA_PRIME'' then
        let (ck_prime, ik_prime) = nextgcore_kdf_ck_ik_prime hmac ck ik snn (take 6 autn)
        in Ok (EapAkaPrime (bytes_to_hex rand) (bytes_to_hex autn) (bytes_to_hex res) (bytes_to_hex ck_prime)
                 (bytes_to_hex ik_prime))
      else (case nextgcore_kdf_kausf hmac ck ik snn autn of
          Ok kausf \<Rightarrow>
            Ok (HeAka (bytes_to_hex rand) (bytes_to_hex autn)
                  (bytes_to_hex (nextgcore_kdf_xres_star hmac ck ik snn rand res)) (bytes_to_hex kausf))
        | _ \<Rightarrow> Panic))"

text \<open>
  \<^verbatim>\<open>handle_generate_auth_data\<close> from the answer of the UDR on: \<open>ctx_ue\<close> is the UE that the context finds or adds, \<open>rand\<close> the
  random challenge, \<open>patch\<close> the UDR's answer to the new sequence number. The result has the UE that the context then
  holds, the sequence number sent to the UDR, if any, and the response.
\<close>

definition udm_generate_auth_data ::
  "block_fun \<Rightarrow> mac_fun \<Rightarrow> bytes \<Rightarrow> bytes \<Rightarrow> AuthSubscription \<Rightarrow> UdmUe option \<Rightarrow> ResyncInfo option \<Rightarrow> bytes \<Rightarrow>
     patch_answer \<Rightarrow> UdmUe option \<times> bytes option \<times> (udm_problem, auth_vector) outcome" where
  "udm_generate_auth_data enc hmac snn supi sub ctx_ue resync rand patch =
     (let auth_method = case as_method sub of None \<Rightarrow> ascii ''5G_AKA'' | Some m \<Rightarrow> m in
      if auth_method \<noteq> ascii ''5G_AKA'' \<and> auth_method \<noteq> ascii ''EAP_AKA_PRIME''
      then (ctx_ue, None, Err UnsupportedAuthenticationMethod)
      else if as_k sub = None \<or> as_opc sub = None \<or> as_amf sub = None \<or> as_sqn sub = None
      then (ctx_ue, None, Err SubscriptionIncomplete)
      else case ctx_ue of None \<Rightarrow> (None, None, Err UeContextCreationFailed) | Some ctx \<Rightarrow>
        let prepared =
              obind (udm_load_keys sub (ctx\<lparr> uu_snn := Some snn, uu_supi := Some supi \<rparr>)) (\<lambda>ue.
                if (uu_amf ue ! 0) AND 0x80 = 0 then Err SeparationBitNotSet
                else case resync of None \<Rightarrow> Ok ue | Some info \<Rightarrow> udm_resync enc info ue)
        in case prepared of
             Err e \<Rightarrow> (Some ctx, None, Err e)
           | Panic \<Rightarrow> (Some ctx, None, Panic)
           | Ok ue \<Rightarrow>
               let ue = ue\<lparr> uu_rand := rand \<rparr> in
               case milenage_generate enc (uu_opc ue) (uu_amf ue) (uu_k ue) (uu_sqn ue) rand of
                 Err _ \<Rightarrow> (Some ctx, None, Err MilenageFailed)
               | Panic \<Rightarrow> (Some ctx, None, Panic)
               | Ok (autn, ik, ck, _, res) \<Rightarrow>
                   let new_sqn = advance_sqn_ind (uu_sqn ue);
                       answer = udm_auth_vector hmac auth_method snn rand autn ik ck res
                   in (Some ue, Some (bytes_to_hex new_sqn),
                       case patch of
                         PatchStatus status \<Rightarrow>
                           if 200 \<le> status \<and> status < 300 then answer
                           else if 500 \<le> status then Err UdrUpdateFailed else answer
                       | PatchFailed \<Rightarrow> Err UdrUnavailable))"

section \<open>AUSF\<close>

datatype AuthResult = AuthenticationOngoing | AuthenticationSuccess | AuthenticationFailure

text \<open>The fields of \<^verbatim>\<open>AusfUe\<close> that 5G-AKA uses.\<close>

record AusfUe =
  au_suci :: bytes
  au_supi :: "bytes option"
  au_snn :: "bytes option"
  au_auth_result :: AuthResult
  au_rand :: bytes
  au_xres_star :: bytes
  au_hxres_star :: bytes
  au_kausf :: bytes
  au_kseaf :: bytes
  au_autn :: bytes

definition calculate_hxres_star :: "hash_fun \<Rightarrow> AusfUe \<Rightarrow> AusfUe" where
  "calculate_hxres_star sha256 ue = ue\<lparr> au_hxres_star := nextgcore_kdf_hxres_star sha256 (au_rand ue) (au_xres_star ue) \<rparr>"

definition calculate_kseaf :: "mac_fun \<Rightarrow> AusfUe \<Rightarrow> AusfUe" where
  "calculate_kseaf hmac ue =
     (case au_snn ue of None \<Rightarrow> ue | Some snn \<Rightarrow> ue\<lparr> au_kseaf := nextgcore_kdf_kseaf hmac snn (au_kausf ue) \<rparr>)"

text \<open>\<^verbatim>\<open>compare_res_star\<close>: the differences of all octets are collected before the decision.\<close>

definition compare_res_star :: "bytes \<Rightarrow> bytes \<Rightarrow> bool" where
  "compare_res_star res_star xres_star =
     (if length res_star \<noteq> length xres_star then False
      else fold (\<lambda>(a, b) diff. diff OR (a XOR b)) (zip res_star xres_star) (0 :: u8) = 0)"

lemma xor_zero: "(a :: u8) XOR b = 0 \<longleftrightarrow> a = b"
  by (metis xor.assoc xor_self_eq xor.right_neutral xor.left_neutral)

lemma fold_or_zero: "fold (\<lambda>(a, b) diff. diff OR (a XOR b)) ps (d :: u8) = 0 \<longleftrightarrow> d = 0 \<and> (\<forall>(a, b) \<in> set ps. a = b)"
  by (induction ps arbitrary: d) (auto simp: or_eq_0_iff xor_zero)

lemma compare_res_star_eq: "compare_res_star a b \<longleftrightarrow> a = b"
proof (cases "length a = length b")
  case True
  then have "(\<forall>(x, y) \<in> set (zip a b). x = y) \<longleftrightarrow> a = b"
    by (induction a b rule: list_induct2) auto
  with True show ?thesis by (simp add: compare_res_star_def fold_or_zero)
qed (auto simp: compare_res_star_def)

definition validate_av_type :: "bytes \<Rightarrow> bytes option \<Rightarrow> bool" where
  "validate_av_type auth_type av_type =
     (case av_type of None \<Rightarrow> True
      | Some t \<Rightarrow> auth_type = ascii ''5G_AKA'' \<and> t = ascii ''5G_HE_AKA'' \<or>
                  auth_type = ascii ''EAP_AKA_PRIME'' \<and> t = ascii ''EAP_AKA_PRIME'')"

text \<open>The UDM's answer as the AUSF reads it, when its \<^verbatim>\<open>authType\<close> is \<^verbatim>\<open>5G_AKA\<close> or absent.\<close>

record UdmAnswer =
  ua_supi :: "bytes option"
  ua_av_type :: "bytes option"
  ua_rand :: "bytes option"
  ua_xres_star :: "bytes option"
  ua_autn :: "bytes option"
  ua_kausf :: "bytes option"

datatype ausf_error = AvTypeInconsistent | AvFieldMissing | AvFieldLengths

definition av_hex :: "bytes option \<Rightarrow> (ausf_error, bytes) outcome" where
  "av_hex field = (case field of None \<Rightarrow> Err AvFieldMissing | Some hex \<Rightarrow> hex_to_bytes hex)"

definition ausf_parse_5g_aka :: "UdmAnswer \<Rightarrow> (ausf_error, bytes \<times> bytes \<times> bytes \<times> bytes) outcome" where
  "ausf_parse_5g_aka ans =
     (if \<not> validate_av_type (ascii ''5G_AKA'') (ua_av_type ans) then Err AvTypeInconsistent
      else obind (av_hex (ua_rand ans)) (\<lambda>rand. obind (av_hex (ua_xres_star ans)) (\<lambda>xres_star.
           obind (av_hex (ua_autn ans)) (\<lambda>autn. obind (av_hex (ua_kausf ans)) (\<lambda>kausf.
             if length rand \<noteq> 16 \<or> length xres_star \<noteq> 16 \<or> length autn \<noteq> 16 \<or> length kausf \<noteq> 32
             then Err AvFieldLengths else Ok (rand, xres_star, autn, kausf))))))"

text \<open>
  \<^verbatim>\<open>handle_ue_authentication\<close> once the UDM has answered: the UE it stores and \<^verbatim>\<open>rand\<close>, \<^verbatim>\<open>hxresStar\<close> and \<^verbatim>\<open>autn\<close> of
  the response.
\<close>

definition ausf_authenticate ::
  "hash_fun \<Rightarrow> AusfUe \<Rightarrow> bytes \<Rightarrow> UdmAnswer \<Rightarrow> (ausf_error, AusfUe \<times> bytes \<times> bytes \<times> bytes) outcome" where
  "ausf_authenticate sha256 ue snn ans =
     obind (ausf_parse_5g_aka ans) (\<lambda>(rand, xres_star, autn, kausf).
       let ue = ue\<lparr> au_snn := Some snn, au_rand := rand, au_xres_star := xres_star, au_autn := autn, au_kausf := kausf \<rparr>;
           ue = (case ua_supi ans of None \<Rightarrow> ue | Some supi \<Rightarrow> ue\<lparr> au_supi := Some supi \<rparr>);
           ue = calculate_hxres_star sha256 ue
       in Ok (ue, bytes_to_hex (au_rand ue), bytes_to_hex (au_hxres_star ue), bytes_to_hex (au_autn ue)))"

text \<open>A field of a JSON object.\<close>

datatype json_field = JAbsent | JNull | JString bytes | JOther

datatype confirm_response =
    ConfirmBadRequest | ConfirmNotFound
  | ConfirmResult (cr_success: bool) (cr_kseaf: "bytes option") (cr_supi: "bytes option")

text \<open>
  \<^verbatim>\<open>handle_5g_aka_confirmation\<close>: \<open>ctx_ue\<close> is the UE of the authentication context, if there is one. The result has the UE
  that the context then holds, the refresh of the anchor for steering of roaming, and the response; the panics are those of
  \<^verbatim>\<open>hex_to_bytes\<close> and, in the end, of a context without a serving network name.
\<close>

definition handle_5g_aka_confirmation ::
  "mac_fun \<Rightarrow> AusfUe option \<Rightarrow> json_field \<Rightarrow> (unit, AusfUe option \<times> (bytes \<times> bytes) option \<times> confirm_response) outcome" where
  "handle_5g_aka_confirmation hmac ctx_ue res_star_field =
     (if res_star_field = JOther \<or> res_star_field = JString [] then Ok (ctx_ue, None, ConfirmBadRequest)
      else case ctx_ue of None \<Rightarrow> Ok (None, None, ConfirmNotFound) | Some ue \<Rightarrow>
        case res_star_field of
          JString res_star_hex \<Rightarrow>
            (case au_supi ue of None \<Rightarrow> Ok (ctx_ue, None, ConfirmBadRequest) | Some supi \<Rightarrow>
              obind (hex_to_bytes res_star_hex) (\<lambda>res_star.
                if length res_star \<noteq> 16 then Ok (ctx_ue, None, ConfirmBadRequest)
                else if au_snn ue = None then Panic
                else if compare_res_star res_star (au_xres_star ue) then
                  let ue = calculate_kseaf hmac (ue\<lparr> au_auth_result := AuthenticationSuccess \<rparr>)
                  in Ok (Some ue, Some (supi, au_kausf ue),
                       ConfirmResult True (Some (bytes_to_hex (au_kseaf ue)))
                         (if take 5 (au_suci ue) = ascii ''suci-'' then Some supi else None))
                else Ok (Some (ue\<lparr> au_auth_result := AuthenticationFailure \<rparr>), None, ConfirmResult False None None)))
        | _ \<Rightarrow> Ok (Some (ue\<lparr> au_auth_result := AuthenticationFailure \<rparr>), None, ConfirmResult False None None))"

section \<open>AMF\<close>

subsection \<open>Choice of the algorithms\<close>

record PqcConfig =
  pqc_enabled :: bool
  pqc_prefer :: bool

definition pqc_default :: PqcConfig where
  "pqc_default = \<lparr> pqc_enabled = False, pqc_prefer = False \<rparr>"

definition wire_caps_to_mask :: "u8 \<Rightarrow> u8" where
  "wire_caps_to_mask wire =
     fold (\<lambda>n mask. if wire AND drop_bit n 0x80 \<noteq> 0 then mask OR push_bit n 1 else mask) [0..<8] 0"

definition algorithm_order_to_mask :: "u8 list \<Rightarrow> u8 \<Rightarrow> u8" where
  "algorithm_order_to_mask order default_mask =
     (if order = [] then default_mask
      else fold (\<lambda>alg mask. if alg < 8 then mask OR push_bit (unat alg) 1 else mask) order 0)"

definition select_encryption_algorithm_with_pqc :: "u8 \<Rightarrow> u8 \<Rightarrow> PqcConfig \<Rightarrow> u8" where
  "select_encryption_algorithm_with_pqc ue_algos amf_supported pqc =
     (let supported = ue_algos AND amf_supported in
      if pqc_enabled pqc \<and> pqc_prefer pqc \<and> supported AND push_bit 4 1 \<noteq> 0 then 4
      else if supported AND push_bit 2 1 \<noteq> 0 then 2
      else if supported AND push_bit 1 1 \<noteq> 0 then 1
      else if supported AND push_bit 3 1 \<noteq> 0 then 3
      else if pqc_enabled pqc \<and> supported AND push_bit 4 1 \<noteq> 0 then 4
      else 0)"

definition select_encryption_algorithm :: "u8 \<Rightarrow> u8 \<Rightarrow> u8" where
  "select_encryption_algorithm ue_algos amf_supported =
     select_encryption_algorithm_with_pqc ue_algos amf_supported pqc_default"

definition select_integrity_algorithm_with_pqc :: "u8 \<Rightarrow> u8 \<Rightarrow> PqcConfig \<Rightarrow> u8 option" where
  "select_integrity_algorithm_with_pqc ue_algos amf_supported pqc =
     (let supported = ue_algos AND amf_supported in
      if pqc_enabled pqc \<and> pqc_prefer pqc \<and> supported AND push_bit 4 1 \<noteq> 0 then Some 4
      else if supported AND push_bit 2 1 \<noteq> 0 then Some 2
      else if supported AND push_bit 1 1 \<noteq> 0 then Some 1
      else if supported AND push_bit 3 1 \<noteq> 0 then Some 3
      else if pqc_enabled pqc \<and> supported AND push_bit 4 1 \<noteq> 0 then Some 4
      else if supported AND push_bit 0 1 \<noteq> 0 then Some 0
      else None)"

definition select_integrity_algorithm :: "u8 \<Rightarrow> u8 \<Rightarrow> u8 option" where
  "select_integrity_algorithm ue_algos amf_supported =
     select_integrity_algorithm_with_pqc ue_algos amf_supported pqc_default"

subsection \<open>Authentication\<close>

text \<open>
  The search for a TLV parameter by its identifier, octet by octet from a position on: an element with the identifier
  and another length ends it.
\<close>

fun find_parameter :: "u8 \<Rightarrow> nat \<Rightarrow> bytes \<Rightarrow> bytes option" where
  "find_parameter iei n (a # l # r) =
     (if a = iei then if unat l = n \<and> n \<le> length r then Some (take n r) else None
      else find_parameter iei n (l # r))"
| "find_parameter iei n _ = None"

text \<open>The fields of the UE and of its registration state that authentication uses.\<close>

record AmfUe =
  am_suci :: bytes
  am_supi :: "bytes option"
  am_rand :: bytes
  am_autn :: bytes
  am_hxres_star :: bytes
  am_abba :: bytes
  am_abba_len :: nat
  am_kamf :: bytes
  am_ue_ea :: u8
  am_ue_ia :: u8
  am_selected_int :: u8
  am_selected_enc :: u8
  am_knas_int :: bytes
  am_knas_enc :: bytes
  am_auth_failure_count :: u8

text \<open>What the AMF sends or does next; \<open>ReAuthenticate\<close> starts over, with the parameters of resynchronisation.\<close>

datatype amf_action =
    AuthenticationRequest | AuthenticationReject | RegistrationReject | SecurityModeCommand
  | ReAuthenticate "(bytes \<times> bytes) option" | NoAction

text \<open>\<^verbatim>\<open>hex_to_16bytes\<close>, with \<^verbatim>\<open>hex::decode\<close> as an argument, and the challenge from the AUSF's answer.\<close>

definition hex_to_16bytes :: "(bytes \<Rightarrow> bytes option) \<Rightarrow> bytes \<Rightarrow> bytes option" where
  "hex_to_16bytes hexdec s =
     (case hexdec s of None \<Rightarrow> None | Some bs \<Rightarrow> if length bs \<noteq> 16 then None else Some bs)"

definition ausf_auth_response ::
  "(bytes \<Rightarrow> bytes option) \<Rightarrow> bytes option \<Rightarrow> bytes option \<Rightarrow> bytes option \<Rightarrow> (bytes \<times> bytes \<times> bytes) option" where
  "ausf_auth_response hexdec rand autn hxres =
     (let field = (\<lambda>f. hex_to_16bytes hexdec (case f of None \<Rightarrow> [] | Some s \<Rightarrow> s)) in
      case (field rand, field autn, field hxres) of
        (Some r, Some a, Some h) \<Rightarrow> Some (r, a, h) | _ \<Rightarrow> None)"

text \<open>\<^verbatim>\<open>start_authentication\<close> with the AUSF's answer; \<open>None\<close> is an error of the call.\<close>

definition start_authentication :: "(bytes \<times> bytes \<times> bytes) option \<Rightarrow> AmfUe \<Rightarrow> AmfUe \<times> amf_action" where
  "start_authentication auth_resp ue =
     (case auth_resp of
        None \<Rightarrow> (ue, RegistrationReject)
      | Some (rand, autn, hxres_star) \<Rightarrow>
          (ue\<lparr> am_rand := rand, am_autn := autn, am_hxres_star := hxres_star, am_abba := [0, 0], am_abba_len := 2 \<rparr>,
           AuthenticationRequest))"

text \<open>\<^verbatim>\<open>call_ausf_5g_aka_confirm\<close>: result, \<^verbatim>\<open>kseaf\<close> and \<^verbatim>\<open>supi\<close> of the answer; \<open>None\<close> is an error of the call.\<close>

definition ausf_confirm_response ::
  "(bytes \<Rightarrow> bytes option) \<Rightarrow> confirm_response \<Rightarrow> (bool \<times> bytes \<times> bytes option) option" where
  "ausf_confirm_response hexdec resp =
     (case resp of
        ConfirmResult success kseaf supi \<Rightarrow>
          (case hexdec (case kseaf of None \<Rightarrow> [] | Some hex \<Rightarrow> hex) of
             None \<Rightarrow> None
           | Some kseaf_bytes \<Rightarrow>
               Some (success, if 32 \<le> length kseaf_bytes then take 32 kseaf_bytes else replicate 32 0, supi))
      | _ \<Rightarrow> None)"

definition supi_from_suci :: "bytes \<Rightarrow> bytes" where
  "supi_from_suci suci =
     (let parts = split_octet 0x2D suci in
      if 8 \<le> length parts \<and> parts ! 0 = ascii ''suci''
      then ascii ''imsi-'' @ parts ! 2 @ parts ! 3 @ parts ! 7 else suci)"

text \<open>
  \<^verbatim>\<open>handle_authentication_response_nas\<close>: \<open>confirm\<close> is the call of the AUSF, \<open>int_order\<close> and \<open>enc_order\<close> the configured
  algorithms. The action is \<open>NoAction\<close> when the message has no response parameter.
\<close>

definition handle_authentication_response ::
  "hash_fun \<Rightarrow> mac_fun \<Rightarrow> (bytes \<Rightarrow> (bool \<times> bytes \<times> bytes option) option) \<Rightarrow> u8 list \<Rightarrow> u8 list \<Rightarrow> bytes \<Rightarrow> AmfUe \<Rightarrow>
     AmfUe \<times> amf_action" where
  "handle_authentication_response sha256 hmac confirm int_order enc_order nas ue =
     (case find_parameter 0x2D 16 (drop 3 nas) of
        None \<Rightarrow> (ue, NoAction)
      | Some rs \<Rightarrow>
          let hres_star = take 16 (drop 16 (sha256 (am_rand ue @ rs))) in
          if hres_star \<noteq> take 16 (am_hxres_star ue) then (ue, AuthenticationReject)
          else case confirm rs of
            None \<Rightarrow> (ue, AuthenticationReject)
          | Some (success, kseaf, conf_supi) \<Rightarrow>
              if \<not> success then (ue, AuthenticationReject)
              else
                let supi = (case conf_supi of None \<Rightarrow> supi_from_suci (am_suci ue) | Some s \<Rightarrow> s);
                    kamf = nextgcore_kdf_kamf hmac supi (take (am_abba_len ue) (am_abba ue)) kseaf;
                    ue = ue\<lparr> am_supi := Some supi, am_kamf := kamf \<rparr>;
                    amf_int_mask = algorithm_order_to_mask int_order 0x0E;
                    amf_enc_mask = algorithm_order_to_mask enc_order 0x0F;
                    ue_int_mask = wire_caps_to_mask (am_ue_ia ue);
                    ue_enc_mask = wire_caps_to_mask (am_ue_ea ue)
                in case select_integrity_algorithm ue_int_mask amf_int_mask of
                     None \<Rightarrow> (ue, RegistrationReject)
                   | Some selected_int \<Rightarrow>
                       let selected_enc = select_encryption_algorithm ue_enc_mask amf_enc_mask
                       in (ue\<lparr> am_selected_int := selected_int, am_selected_enc := selected_enc,
                               am_knas_int := nextgcore_kdf_nas_5gs hmac 2 selected_int kamf,
                               am_knas_enc := nextgcore_kdf_nas_5gs hmac 1 selected_enc kamf \<rparr>,
                           SecurityModeCommand))"

definition handle_authentication_failure :: "bytes \<Rightarrow> AmfUe \<Rightarrow> AmfUe \<times> amf_action" where
  "handle_authentication_failure nas ue =
     (let cause = (if 3 < length nas then nas ! 3 else 0);
          auts = find_parameter 0x30 14 (drop 4 nas);
          ue = ue\<lparr> am_auth_failure_count := am_auth_failure_count ue + 1 \<rparr>
      in if 1 < am_auth_failure_count ue then (ue, AuthenticationReject)
         else if cause = 21 then
           (case auts of None \<Rightarrow> (ue, AuthenticationReject) | Some a \<Rightarrow> (ue, ReAuthenticate (Some (am_rand ue, a))))
         else if cause = 20 \<or> cause = 26 \<or> cause = 71 then (ue, ReAuthenticate None)
         else (ue, AuthenticationReject))"

section \<open>The choice of algorithms\<close>

lemma and_bit_word: "w AND push_bit n 1 \<noteq> 0 \<longleftrightarrow> bit (w :: u8) n"
  by (subst bit_eq_iff) (auto simp: bit_simps dest: bit_imp_le_length)

lemma bit_order_mask:
  "order \<noteq> [] \<Longrightarrow> bit (algorithm_order_to_mask order d) n \<longleftrightarrow> n < 8 \<and> of_nat n \<in> set order"
proof -
  have "bit (fold (\<lambda>alg mask. if alg < 8 then mask OR push_bit (unat alg) 1 else mask) order m) n \<longleftrightarrow>
      bit m n \<or> n < 8 \<and> of_nat n \<in> set order" for m :: u8
  proof (induction order arbitrary: m)
    case (Cons a order)
    have "bit (if a < 8 then m OR push_bit (unat a) 1 else m) n \<longleftrightarrow> bit m n \<or> n < 8 \<and> of_nat n = a"
      by (auto simp: bit_simps word_less_nat_alt unat_of_nat word_unat_eq_iff)
    with Cons show ?case by auto
  qed simp
  from this [of 0] show "order \<noteq> [] \<Longrightarrow> ?thesis" by (simp add: algorithm_order_to_mask_def)
qed

lemma bit_wire_caps: "bit (wire_caps_to_mask wire) n \<longleftrightarrow> n < 8 \<and> bit wire (7 - n)"
proof -
  have top: "wire AND drop_bit k 0x80 \<noteq> 0 \<longleftrightarrow> bit wire (7 - k)" if "k < 8" for k
  proof -
    have "k \<in> {0, 1, 2, 3, 4, 5, 6, 7}" using that by auto
    then have "drop_bit k (0x80 :: u8) = push_bit (7 - k) 1" by auto
    then show ?thesis using and_bit_word [of wire "7 - k"] by simp
  qed
  have "bit (fold (\<lambda>n mask. if wire AND drop_bit n 0x80 \<noteq> 0 then mask OR push_bit n 1 else mask) ns m) n \<longleftrightarrow>
      bit m n \<or> n \<in> set ns \<and> bit wire (7 - n)" if "set ns \<subseteq> {..<8}" for m :: u8 and ns
    using that
  proof (induction ns arbitrary: m)
    case (Cons a ns)
    then have "a < 8" by simp
    have "bit (if wire AND drop_bit a 0x80 \<noteq> 0 then m OR push_bit a 1 else m) n \<longleftrightarrow> bit m n \<or> n = a \<and> bit wire (7 - n)"
      using \<open>a < 8\<close> top [OF \<open>a < 8\<close>] by (auto simp: bit_simps)
    with Cons show ?case by auto
  qed simp
  from this [of "[0..<8]" 0] have "bit (wire_caps_to_mask wire) n \<longleftrightarrow> n \<in> set [0..<8] \<and> bit wire (7 - n)"
    by (simp add: wire_caps_to_mask_def atLeast_upt lessThan_atLeast0)
  then show ?thesis by auto
qed

lemma select_integrity_find:
  "select_integrity_algorithm a b = find (\<lambda>alg. bit (a AND b) (unat alg)) [2, 1, 3, 0]"
  unfolding select_integrity_algorithm_def select_integrity_algorithm_with_pqc_def and_bit_word Let_def
  by (simp add: pqc_default_def del: bit_0)

lemma select_encryption_find:
  "select_encryption_algorithm a b =
     (case find (\<lambda>alg. bit (a AND b) (unat alg)) [2, 1, 3] of None \<Rightarrow> 0 | Some alg \<Rightarrow> alg)"
  unfolding select_encryption_algorithm_def select_encryption_algorithm_with_pqc_def and_bit_word Let_def
  by (simp add: pqc_default_def)

text \<open>
  C36: The AMF chooses the first algorithm of a fixed order, 128-NEA2, 128-NEA1, 128-NEA3 and likewise for integrity, that the UE's security
  capabilities and the AMF's configuration both have; without one, it rejects the registration for integrity, unless both
  have the null algorithm, and it does not cipher. The configured algorithms count as a set: their order has no effect.
\<close>

theorem amf_algorithm_choice:
  "select_integrity_algorithm (wire_caps_to_mask ia) (algorithm_order_to_mask int_order 0x0E) =
     find (\<lambda>alg. bit ia (7 - unat alg) \<and> (if int_order = [] then alg \<noteq> 0 else alg \<in> set int_order)) [2, 1, 3, 0] \<and>
   select_encryption_algorithm (wire_caps_to_mask ea) (algorithm_order_to_mask enc_order 0x0F) =
     (case find (\<lambda>alg. bit ea (7 - unat alg) \<and> (enc_order = [] \<or> alg \<in> set enc_order)) [2, 1, 3] of
        None \<Rightarrow> 0 | Some alg \<Rightarrow> alg)"
proof -
  have default: "algorithm_order_to_mask [] d = d" for d by (simp add: algorithm_order_to_mask_def)
  have bits: "bit (0xE :: u8) n \<longleftrightarrow> n \<noteq> 0" "bit (0xF :: u8) n" if "n < 4" for n
  proof -
    have "n = 0 \<or> n = 1 \<or> n = 2 \<or> n = 3" using that by presburger
    then show "bit (0xE :: u8) n \<longleftrightarrow> n \<noteq> 0" "bit (0xF :: u8) n" by (auto simp: bit_numeral_rec)
  qed
  have int: "bit (wire_caps_to_mask ia AND algorithm_order_to_mask int_order 0xE) n \<longleftrightarrow>
      bit ia (7 - n) \<and> (if int_order = [] then n \<noteq> 0 else of_nat n \<in> set int_order)" if "n < 4" for n
    using that bits(1) [OF that] by (cases "int_order = []") (auto simp: bit_and_iff bit_wire_caps bit_order_mask default)
  have enc: "bit (wire_caps_to_mask ea AND algorithm_order_to_mask enc_order 0xF) n \<longleftrightarrow>
      bit ea (7 - n) \<and> (enc_order = [] \<or> of_nat n \<in> set enc_order)" if "n < 4" for n
    using that bits(2) [OF that] by (cases "enc_order = []") (auto simp: bit_and_iff bit_wire_caps bit_order_mask default)
  have small: "unat alg < 4" if "alg \<in> {2, 1, 3, 0 :: u8}" for alg using that by auto
  show ?thesis
    unfolding select_integrity_find select_encryption_find
  proof (intro conjI arg_cong [where f = "case_option 0 (\<lambda>alg. alg)"] find_cong refl)
    fix alg :: u8 assume "alg \<in> set [2, 1, 3, 0]"
    then have "unat alg < 4" using small by simp
    from int [OF this] show "bit (wire_caps_to_mask ia AND algorithm_order_to_mask int_order 0xE) (unat alg) =
        (bit ia (7 - unat alg) \<and> (if int_order = [] then alg \<noteq> 0 else alg \<in> set int_order))"
      by (simp add: unat_eq_0)
  next
    fix alg :: u8 assume "alg \<in> set [2, 1, 3]"
    then have "unat alg < 4" using small [of alg] by auto
    from enc [OF this] show "bit (wire_caps_to_mask ea AND algorithm_order_to_mask enc_order 0xF) (unat alg) =
        (bit ea (7 - unat alg) \<and> (enc_order = [] \<or> alg \<in> set enc_order))"
      by simp
  qed
qed

section \<open>The parties together\<close>

text \<open>
  The challenge, from the request of the AMF to its message for the UE: the UDM's answer, with status 204 of the UDR,
  goes to the AUSF and the AUSF's to the AMF. The result has the states that the UDM, the AUSF and the AMF then hold and
  the sequence number the UDR stores.
\<close>

definition aka_challenge ::
  "block_fun \<Rightarrow> mac_fun \<Rightarrow> hash_fun \<Rightarrow> (bytes \<Rightarrow> bytes option) \<Rightarrow> bytes \<Rightarrow> bytes \<Rightarrow> AuthSubscription \<Rightarrow> UdmUe \<Rightarrow>
     ResyncInfo option \<Rightarrow> bytes \<Rightarrow> AusfUe \<Rightarrow> AmfUe \<Rightarrow> (UdmUe \<times> bytes \<times> AusfUe \<times> AmfUe \<times> amf_action) option" where
  "aka_challenge enc hmac sha256 hexdec snn supi sub udm_ue resync rand ausf_ue amf_ue =
     (case udm_generate_auth_data enc hmac snn supi sub (Some udm_ue) resync rand (PatchStatus 204) of
        (Some udm_ue', Some new_sqn, Ok (HeAka r a x kausf)) \<Rightarrow>
          (case ausf_authenticate sha256 ausf_ue snn
                  \<lparr> ua_supi = Some supi, ua_av_type = Some (ascii ''5G_HE_AKA''), ua_rand = Some r,
                     ua_xres_star = Some x, ua_autn = Some a, ua_kausf = Some kausf \<rparr> of
             Ok (ausf_ue', r', h, a') \<Rightarrow>
               (case start_authentication (ausf_auth_response hexdec (Some r') (Some a') (Some h)) amf_ue of
                  (amf_ue', action) \<Rightarrow> Some (udm_ue', new_sqn, ausf_ue', amf_ue', action))
           | _ \<Rightarrow> None)
      | _ \<Rightarrow> None)"

text \<open>The AMF's call of the AUSF for the confirmation, with \<^verbatim>\<open>hex::encode\<close> and \<^verbatim>\<open>hex::decode\<close> as arguments.\<close>

definition aka_confirm ::
  "mac_fun \<Rightarrow> (bytes \<Rightarrow> bytes) \<Rightarrow> (bytes \<Rightarrow> bytes option) \<Rightarrow> AusfUe \<Rightarrow> bytes \<Rightarrow> (bool \<times> bytes \<times> bytes option) option" where
  "aka_confirm hmac hexenc hexdec ausf_ue rs =
     (case handle_5g_aka_confirmation hmac (Some ausf_ue) (JString (hexenc rs)) of
        Ok (_, _, resp) \<Rightarrow> ausf_confirm_response hexdec resp | _ \<Rightarrow> None)"

text \<open>
  The UE of TS 33.501: the USIM checks the token with the library's \<^verbatim>\<open>milenage_check\<close>; RES* and K_AMF come from the
  library's derivations with the keys of the USIM.
\<close>

datatype ue_result = UeKeys (ue_res_star: bytes) (ue_kamf: bytes) | UeSynchFailure bytes | UeMacFailure

definition ue_authenticate ::
  "block_fun \<Rightarrow> mac_fun \<Rightarrow> bytes \<Rightarrow> bytes \<Rightarrow> bytes \<Rightarrow> bytes \<Rightarrow> bytes \<Rightarrow> bytes \<Rightarrow> bytes \<Rightarrow> ue_result" where
  "ue_authenticate enc hmac snn supi opc k sqn_ms rand autn =
     (case milenage_check enc opc k sqn_ms rand autn of
        Ok (ik, ck, res, None) \<Rightarrow>
          (case nextgcore_kdf_kausf hmac ck ik snn autn of
             Ok kausf \<Rightarrow> UeKeys (nextgcore_kdf_xres_star hmac ck ik snn rand res)
                           (nextgcore_kdf_kamf hmac supi [0, 0] (nextgcore_kdf_kseaf hmac snn kausf))
           | _ \<Rightarrow> UeMacFailure)
      | Ok (_, _, _, Some auts) \<Rightarrow> UeSynchFailure auts
      | _ \<Rightarrow> UeMacFailure)"

text \<open>The subscription record of a subscriber, and the assumptions about the primitives.\<close>

definition subscription :: "bytes \<Rightarrow> bytes \<Rightarrow> bytes \<Rightarrow> bytes \<Rightarrow> AuthSubscription" where
  "subscription k opc amf sqn =
     \<lparr> as_method = Some (ascii ''5G_AKA''), as_k = Some (bytes_to_hex k), as_opc = Some (bytes_to_hex opc),
        as_amf = Some (bytes_to_hex amf), as_sqn = Some (bytes_to_hex sqn) \<rparr>"

definition subscriber :: "bytes \<Rightarrow> bytes \<Rightarrow> bytes \<Rightarrow> bytes \<Rightarrow> bool" where
  "subscriber k opc amf sqn \<longleftrightarrow> length k = 16 \<and> length opc = 16 \<and> length amf = 2 \<and> length sqn = 6 \<and> bit (amf ! 0) 7"

definition crypto_lengths :: "mac_fun \<Rightarrow> hash_fun \<Rightarrow> bool" where
  "crypto_lengths hmac sha256 \<longleftrightarrow> (\<forall>key msg. length (hmac key msg) = 32) \<and> (\<forall>msg. length (sha256 msg) = 32)"

definition hex_crate :: "(bytes \<Rightarrow> bytes) \<Rightarrow> (bytes \<Rightarrow> bytes option) \<Rightarrow> bool" where
  "hex_crate hexenc hexdec \<longleftrightarrow> (\<forall>bs. hexenc bs = bytes_to_hex bs \<and> hexdec (bytes_to_hex bs) = Some bs)"

lemma ascii_methods [simp]:
  "ascii ''5G_AKA'' \<noteq> ascii ''EAP_AKA_PRIME''" "ascii ''EAP_AKA_PRIME'' \<noteq> ascii ''5G_AKA''"
  by (simp_all add: ascii_def)

lemma load_keys_subscription:
  "subscriber k opc amf sqn \<Longrightarrow>
     udm_load_keys (subscription k opc amf sqn) ue = Ok (ue\<lparr> uu_k := k, uu_opc := opc, uu_amf := amf, uu_sqn := sqn \<rparr>)"
  by (simp add: subscriber_def subscription_def udm_load_keys_def)

lemma separation_bit: "(a :: u8) AND 0x80 = 0 \<longleftrightarrow> \<not> bit a 7"
  using and_bit_word [of a 7] by auto

text \<open>The challenge for a sequence number: what each party holds after it.\<close>

definition challenged_udm :: "UdmUe \<Rightarrow> bytes \<Rightarrow> bytes \<Rightarrow> bytes \<Rightarrow> bytes \<Rightarrow> bytes \<Rightarrow> bytes \<Rightarrow> bytes \<Rightarrow> UdmUe" where
  "challenged_udm ue snn supi k opc amf sqn rand =
     ue\<lparr> uu_k := k, uu_opc := opc, uu_amf := amf, uu_sqn := sqn, uu_rand := rand, uu_supi := Some supi, uu_snn := Some snn \<rparr>"

definition challenged_ausf :: "mac_fun \<Rightarrow> hash_fun \<Rightarrow> AusfUe \<Rightarrow> bytes \<Rightarrow> bytes \<Rightarrow> bytes \<Rightarrow> bytes \<Rightarrow> bytes \<Rightarrow> bytes \<Rightarrow> bytes \<Rightarrow> AusfUe" where
  "challenged_ausf hmac sha256 ue snn supi rand autn ik ck res =
     ue\<lparr> au_snn := Some snn, au_supi := Some supi, au_rand := rand, au_autn := autn,
        au_xres_star := nextgcore_kdf_xres_star hmac ck ik snn rand res,
        au_hxres_star := nextgcore_kdf_hxres_star sha256 rand (nextgcore_kdf_xres_star hmac ck ik snn rand res),
        au_kausf := nextgcore_kdf_common hmac (ck @ ik) 0x6A [kdf_param snn, kdf_param (take 6 autn)] \<rparr>"

definition challenged_amf :: "hash_fun \<Rightarrow> AmfUe \<Rightarrow> bytes \<Rightarrow> bytes \<Rightarrow> bytes \<Rightarrow> AmfUe" where
  "challenged_amf sha256 ue rand autn xres_star =
     ue\<lparr> am_rand := rand, am_autn := autn, am_hxres_star := nextgcore_kdf_hxres_star sha256 rand xres_star,
        am_abba := [0, 0], am_abba_len := 2 \<rparr>"

lemma crypto_lengths_simps:
  assumes "crypto_lengths hmac sha256"
  shows "length (nextgcore_kdf_common hmac key fc ps) = 32" "length (sha256 msg) = 32"
    "length (nextgcore_kdf_xres_star hmac ck ik snn rand res) = 16" "length (nextgcore_kdf_hxres_star sha256 rand x) = 16"
  using assms by (simp_all add: crypto_lengths_def nextgcore_kdf_common_def nextgcore_kdf_xres_star_def
      nextgcore_kdf_hxres_star_def)

lemma generate_lengths:
  assumes "length opc = 16" "length k = 16" "length rand = 16" "length sqn = 6" "length amf = 2"
    and "milenage_generate enc opc amf k sqn rand = Ok (autn, ik, ck, ak, res)"
  shows "length autn = 16"
  using assms by (auto simp: milenage_generate_eq)

lemma generate_auth_data_fresh:
  assumes "subscriber k opc amf sqn" "length rand = 16"
    and prepared: "case resync of None \<Rightarrow> sqn' = sqn
      | Some info \<Rightarrow> \<forall>ue. uu_k ue = k \<longrightarrow> uu_opc ue = opc \<longrightarrow> uu_rand ue = uu_rand udm_ue \<longrightarrow>
                       udm_resync enc info ue = Ok (ue\<lparr> uu_sqn := sqn' \<rparr>)"
    and gen: "milenage_generate enc opc amf k sqn' rand = Ok (autn, ik, ck, ak, res)" and len: "length autn = 16"
  shows "udm_generate_auth_data enc hmac snn supi (subscription k opc amf sqn) (Some udm_ue) resync rand (PatchStatus 204) =
    (Some (challenged_udm udm_ue snn supi k opc amf sqn' rand), Some (bytes_to_hex (advance_sqn_ind sqn')),
     Ok (HeAka (bytes_to_hex rand) (bytes_to_hex autn) (bytes_to_hex (nextgcore_kdf_xres_star hmac ck ik snn rand res))
       (bytes_to_hex (nextgcore_kdf_common hmac (ck @ ik) 0x6A [kdf_param snn, kdf_param (take 6 autn)]))))"
  using assms load_keys_subscription [OF assms(1)]
  by (cases resync)
    (simp_all add: udm_generate_auth_data_def udm_auth_vector_def subscription_def challenged_udm_def subscriber_def
      separation_bit nextgcore_kdf_kausf_def)

lemma challenge_result:
  assumes "subscriber k opc amf sqn" "length rand = 16" "crypto_lengths hmac sha256" "hex_crate hexenc hexdec"
    and prepared: "case resync of None \<Rightarrow> sqn' = sqn
      | Some info \<Rightarrow> \<forall>ue. uu_k ue = k \<longrightarrow> uu_opc ue = opc \<longrightarrow> uu_rand ue = uu_rand udm_ue \<longrightarrow>
                       udm_resync enc info ue = Ok (ue\<lparr> uu_sqn := sqn' \<rparr>)"
    and gen: "milenage_generate enc opc amf k sqn' rand = Ok (autn, ik, ck, ak, res)" and len: "length autn = 16"
  shows "aka_challenge enc hmac sha256 hexdec snn supi (subscription k opc amf sqn) udm_ue resync rand ausf_ue amf_ue =
    Some (challenged_udm udm_ue snn supi k opc amf sqn' rand, bytes_to_hex (advance_sqn_ind sqn'),
      challenged_ausf hmac sha256 ausf_ue snn supi rand autn ik ck res,
      challenged_amf sha256 amf_ue rand autn (nextgcore_kdf_xres_star hmac ck ik snn rand res), AuthenticationRequest)"
  using generate_auth_data_fresh [OF assms(1,2,5-7)] crypto_lengths_simps [OF assms(3)] assms(2,4) len
  by (simp add: aka_challenge_def ausf_authenticate_def ausf_parse_5g_aka_def validate_av_type_def av_hex_def
      calculate_hxres_star_def challenged_ausf_def start_authentication_def ausf_auth_response_def hex_to_16bytes_def
      hex_crate_def challenged_amf_def)

lemma length_kseaf: "crypto_lengths hmac sha256 \<Longrightarrow> length (nextgcore_kdf_kseaf hmac snn kausf) = 32"
  by (simp add: nextgcore_kdf_kseaf_def nextgcore_kdf_common_def crypto_lengths_def)

text \<open>The AUSF's confirmation as the AMF sees it.\<close>

lemma aka_confirm_eq:
  assumes "crypto_lengths hmac sha256" "hex_crate hexenc hexdec" "au_snn a = Some snn" "au_supi a = Some supi"
    and "length rs = 16"
  shows "aka_confirm hmac hexenc hexdec a rs =
    (if rs = au_xres_star a
     then Some (True, nextgcore_kdf_kseaf hmac snn (au_kausf a),
                if take 5 (au_suci a) = ascii ''suci-'' then Some supi else None)
     else Some (False, replicate 32 0, None))"
proof -
  have "bytes_to_hex rs \<noteq> []" using assms(5) by (cases rs) simp_all
  moreover have "hexdec [] = Some []" using assms(2) by (metis hex_crate_def bytes_to_hex_simps(1))
  ultimately show ?thesis
    using assms by (simp add: aka_confirm_def handle_5g_aka_confirmation_def compare_res_star_eq calculate_kseaf_def
        ausf_confirm_response_def hex_crate_def length_kseaf [OF assms(1)])
qed

lemma find_response [simp]: "length rs = 16 \<Longrightarrow> find_parameter 0x2D 16 (0x2D # 16 # rs @ rest) = Some rs"
  by simp

lemma find_parameter_length: "find_parameter iei n bs = Some x \<Longrightarrow> length x = n"
  by (induction iei n bs rule: find_parameter.induct) (auto split: if_splits)

lemma response_accepted:
  assumes "find_parameter 0x2D 16 (drop 3 nas) = Some rs"
    and "take 16 (drop 16 (sha256 (am_rand ue @ rs))) = take 16 (am_hxres_star ue)"
    and "confirm rs = Some (True, kseaf, Some supi)"
    and "take (am_abba_len ue) (am_abba ue) = abba"
    and "select_integrity_algorithm (wire_caps_to_mask (am_ue_ia ue)) (algorithm_order_to_mask int_order 0x0E) = Some alg"
  shows "\<exists>ue'. handle_authentication_response sha256 hmac confirm int_order enc_order nas ue = (ue', SecurityModeCommand) \<and>
    am_supi ue' = Some supi \<and> am_kamf ue' = nextgcore_kdf_kamf hmac supi abba kseaf \<and> am_selected_int ue' = alg \<and>
    am_knas_int ue' = nextgcore_kdf_nas_5gs hmac 2 alg (nextgcore_kdf_kamf hmac supi abba kseaf) \<and>
    am_knas_enc ue' = nextgcore_kdf_nas_5gs hmac 1 (am_selected_enc ue') (nextgcore_kdf_kamf hmac supi abba kseaf)"
  using assms by (simp add: handle_authentication_response_def Let_def)

lemma response_smc:
  assumes "handle_authentication_response sha256 hmac confirm int_order enc_order nas ue = (ue', SecurityModeCommand)"
    and "find_parameter 0x2D 16 (drop 3 nas) = Some rs"
  obtains kseaf conf_supi alg where "confirm rs = Some (True, kseaf, conf_supi)"
    and "take 16 (drop 16 (sha256 (am_rand ue @ rs))) = take 16 (am_hxres_star ue)"
    and "select_integrity_algorithm (wire_caps_to_mask (am_ue_ia ue)) (algorithm_order_to_mask int_order 0x0E) = Some alg"
    and "am_selected_int ue' = alg"
    and "\<exists>id'. am_supi ue' = Some id' \<and> am_kamf ue' = nextgcore_kdf_kamf hmac id' (take (am_abba_len ue) (am_abba ue)) kseaf"
  using assms
  by (auto simp: handle_authentication_response_def Let_def split: if_splits option.splits)

section \<open>Properties\<close>

text \<open>
  C3: 5G-AKA succeeds with agreement. A subscriber whose record has the separation bit, registering with a concealed
  identity, is challenged; a UE with the same K and OPc and a sequence number below the record's accepts the challenge,
  and its response makes the AMF, after the check against HXRES* and the AUSF's confirmation, go on to the Security Mode
  Command, with K_AMF, the key for integrity and the key for ciphering that the UE has as well. The UDR then holds the
  next sequence number.
\<close>

theorem aka_registration:
  assumes "subscriber k opc amf sqn" "length rand = 16" "crypto_lengths hmac sha256" "hex_crate hexenc hexdec"
    and "length sqn_ms = 6" "be_nat sqn_ms < be_nat sqn" "take 5 (au_suci ausf_ue) = ascii ''suci-''"
    and "select_integrity_algorithm (wire_caps_to_mask (am_ue_ia amf_ue)) (algorithm_order_to_mask int_order 0x0E) = Some alg"
  shows "\<exists>udm_ue' ausf_ue' amf_ue' amf_ue'' res_star kamf.
    aka_challenge enc hmac sha256 hexdec snn supi (subscription k opc amf sqn) udm_ue None rand ausf_ue amf_ue =
      Some (udm_ue', bytes_to_hex (advance_sqn_ind sqn), ausf_ue', amf_ue', AuthenticationRequest) \<and>
    ue_authenticate enc hmac snn supi opc k sqn_ms (am_rand amf_ue') (am_autn amf_ue') = UeKeys res_star kamf \<and>
    handle_authentication_response sha256 hmac (aka_confirm hmac hexenc hexdec ausf_ue') int_order enc_order
      ([0x7E, 0, 0x57, 0x2D, 16] @ res_star) amf_ue' = (amf_ue'', SecurityModeCommand) \<and>
    am_supi amf_ue'' = Some supi \<and> am_kamf amf_ue'' = kamf \<and> am_selected_int amf_ue'' = alg \<and>
    am_knas_int amf_ue'' = nextgcore_kdf_nas_5gs hmac 2 alg kamf \<and>
    am_knas_enc amf_ue'' = nextgcore_kdf_nas_5gs hmac 1 (am_selected_enc amf_ue'') kamf"
proof -
  from assms(1,2) have sizes: "length opc = 16" "length k = 16" "length rand = 16" "length sqn = 6" "length amf = 2"
    by (simp_all add: subscriber_def)
  obtain autn ik ck ak res where gen: "milenage_generate enc opc amf k sqn rand = Ok (autn, ik, ck, ak, res)"
    using sizes by (simp add: milenage_generate_eq)
  have autn: "length autn = 16" by (rule generate_lengths [OF sizes gen])
  let ?xres = "nextgcore_kdf_xres_star hmac ck ik snn rand res"
  let ?ausf = "challenged_ausf hmac sha256 ausf_ue snn supi rand autn ik ck res"
  let ?amf = "challenged_amf sha256 amf_ue rand autn ?xres"
  note len = crypto_lengths_simps [OF assms(3)]
  have challenge: "aka_challenge enc hmac sha256 hexdec snn supi (subscription k opc amf sqn) udm_ue None rand ausf_ue amf_ue =
      Some (challenged_udm udm_ue snn supi k opc amf sqn rand, bytes_to_hex (advance_sqn_ind sqn), ?ausf, ?amf,
        AuthenticationRequest)"
    by (rule challenge_result [OF assms(1-4) _ gen autn]) simp
  have ue: "ue_authenticate enc hmac snn supi opc k sqn_ms (am_rand ?amf) (am_autn ?amf) =
      UeKeys ?xres (nextgcore_kdf_kamf hmac supi [0, 0] (nextgcore_kdf_kseaf hmac snn (au_kausf ?ausf)))"
    using check_generated [OF sizes assms(5) gen] assms(6) autn
    by (simp add: ue_authenticate_def challenged_amf_def challenged_ausf_def nextgcore_kdf_kausf_def)
  have confirm: "aka_confirm hmac hexenc hexdec ?ausf ?xres =
      Some (True, nextgcore_kdf_kseaf hmac snn (au_kausf ?ausf), Some supi)"
    using aka_confirm_eq [OF assms(3,4), of ?ausf snn supi ?xres] assms(7) len(3)
    by (simp add: challenged_ausf_def)
  have "drop 3 ([0x7E, 0, 0x57, 0x2D, 16] @ ?xres) = 0x2D # 16 # ?xres @ []" by simp
  then have response: "find_parameter 0x2D 16 (drop 3 ([0x7E, 0, 0x57, 0x2D, 16] @ ?xres)) = Some ?xres"
    using find_response [OF len(3)] by metis
  have hres: "take 16 (drop 16 (sha256 (am_rand ?amf @ ?xres))) = take 16 (am_hxres_star ?amf)"
    by (simp add: challenged_amf_def nextgcore_kdf_hxres_star_def)
  have fields: "am_ue_ia ?amf = am_ue_ia amf_ue" "take (am_abba_len ?amf) (am_abba ?amf) = [0, 0]"
    by (simp_all add: challenged_amf_def)
  let ?kamf = "nextgcore_kdf_kamf hmac supi [0, 0] (nextgcore_kdf_kseaf hmac snn (au_kausf ?ausf))"
  obtain amf'' where fin: "handle_authentication_response sha256 hmac (aka_confirm hmac hexenc hexdec ?ausf) int_order
      enc_order ([0x7E, 0, 0x57, 0x2D, 16] @ ?xres) ?amf = (amf'', SecurityModeCommand)"
    and keys: "am_supi amf'' = Some supi" "am_kamf amf'' = ?kamf" "am_selected_int amf'' = alg"
      "am_knas_int amf'' = nextgcore_kdf_nas_5gs hmac 2 alg ?kamf"
      "am_knas_enc amf'' = nextgcore_kdf_nas_5gs hmac 1 (am_selected_enc amf'') ?kamf"
    using response_accepted [where confirm = "aka_confirm hmac hexenc hexdec ?ausf" and ?sha256.0 = sha256 and hmac = hmac
        and enc_order = enc_order and int_order = int_order and alg = alg, OF response hres confirm fields(2)] assms(8)
    unfolding fields(1) by blast
  show ?thesis
    using challenge ue fin keys by blast
qed

text \<open>
  C4: The AMF goes on to the Security Mode Command only for the expected response: then the UE's message carries the XRES*
  of the vector that the AUSF holds, HXRES* was made from it, K_AMF comes from that vector's K_AUSF, and the integrity
  algorithm is one that the UE advertised.
\<close>

theorem aka_authentic:
  assumes "crypto_lengths hmac sha256" "hex_crate hexenc hexdec" "au_snn a = Some snn" "au_supi a = Some supi"
    and "handle_authentication_response sha256 hmac (aka_confirm hmac hexenc hexdec a) int_order enc_order nas ue =
      (ue', SecurityModeCommand)"
  shows "find_parameter 0x2D 16 (drop 3 nas) = Some (au_xres_star a) \<and>
    take 16 (nextgcore_kdf_hxres_star sha256 (am_rand ue) (au_xres_star a)) = take 16 (am_hxres_star ue) \<and>
    (\<exists>id'. am_supi ue' = Some id' \<and>
       am_kamf ue' = nextgcore_kdf_kamf hmac id' (take (am_abba_len ue) (am_abba ue)) (nextgcore_kdf_kseaf hmac snn (au_kausf a))) \<and>
    bit (am_ue_ia ue) (7 - unat (am_selected_int ue'))"
proof -
  obtain rs where rs: "find_parameter 0x2D 16 (drop 3 nas) = Some rs"
    using assms(5) by (cases "find_parameter 0x2D 16 (drop 3 nas)") (simp_all add: handle_authentication_response_def)
  note confirm = aka_confirm_eq [OF assms(1-4) find_parameter_length [OF rs]]
  have adv: "bit (am_ue_ia ue) (7 - unat alg)"
    if "select_integrity_algorithm (wire_caps_to_mask (am_ue_ia ue)) m = Some alg" for m alg
  proof -
    from that have "bit (wire_caps_to_mask (am_ue_ia ue)) (unat alg)"
      unfolding select_integrity_find find_Some_iff by (auto simp: bit_and_iff)
    then show ?thesis by (simp add: bit_wire_caps)
  qed
  obtain kseaf conf_supi alg where smc: "aka_confirm hmac hexenc hexdec a rs = Some (True, kseaf, conf_supi)"
      "take 16 (drop 16 (sha256 (am_rand ue @ rs))) = take 16 (am_hxres_star ue)"
      "select_integrity_algorithm (wire_caps_to_mask (am_ue_ia ue)) (algorithm_order_to_mask int_order 0xE) = Some alg"
      "am_selected_int ue' = alg"
    and keys: "\<exists>id'. am_supi ue' = Some id' \<and> am_kamf ue' = nextgcore_kdf_kamf hmac id' (take (am_abba_len ue) (am_abba ue)) kseaf"
    by (rule response_smc [OF assms(5) rs])
  have "rs = au_xres_star a" and kseaf: "kseaf = nextgcore_kdf_kseaf hmac snn (au_kausf a)"
    using smc(1) unfolding confirm by (auto split: if_splits)
  with rs smc(2) keys adv [OF smc(3)] smc(4) show ?thesis
    by (simp add: nextgcore_kdf_hxres_star_def)
qed

lemma resync_accepted:
  assumes "length k = 16" "length opc = 16" "length rand = 16" "length sqn_ms = 6"
    and "uu_k ue = k" "uu_opc ue = opc" "uu_rand ue = rand"
  shows "udm_resync enc \<lparr> ri_rand = Some (bytes_to_hex rand),
      ri_auts = Some (bytes_to_hex (xor_bytes sqn_ms (take 6 (f_out enc opc k rand 96 8)) @
                                    drop 8 (f1_out enc opc k rand sqn_ms [0, 0]))) \<rparr> ue =
    Ok (ue\<lparr> uu_sqn := resync_sqn sqn_ms \<rparr>)"
proof -
  have "bytes_to_hex rand \<noteq> []" using assms(3) by (cases rand) simp_all
  moreover have "bytes_to_hex (xor_bytes sqn_ms z @ y) \<noteq> []" if "length z = 6" for y z
    using assms(4) that by (metis length_bytes_to_hex length_append length_xor_bytes add_is_0 list.size(3) min.idem
        mult_is_0 zero_neq_numeral)
  moreover have "xor_bytes (take 6 (f_out enc opc k rand 96 8)) (xor_bytes sqn_ms (take 6 (f_out enc opc k rand 96 8))) = sqn_ms"
    by (rule nth_equalityI) (use assms(4) in \<open>simp_all add: xor_bytes_nth ac_simps\<close>)
  ultimately show ?thesis
    using assms by (simp add: udm_resync_def auc_sqn_eq)
qed

text \<open>
  C5: Resynchronisation works. When the sequence number of the challenge is not above the UE's, the UE answers with a
  synchronisation failure; the AMF asks again with the token and the challenge, the UDM recovers the UE's number from it and
  makes a vector above it, and the UE accepts the second challenge, unless its number is the last one.
\<close>

theorem aka_resynchronisation:
  assumes "subscriber k opc amf sqn" "subscriber k opc amf sqn_udr" "length rand = 16" "length rand' = 16"
    and "crypto_lengths hmac sha256" "hex_crate hexenc hexdec"
    and "length sqn_ms = 6" "be_nat sqn \<le> be_nat sqn_ms" "be_nat sqn_ms + 1 < 2 ^ 48" "am_auth_failure_count amf_ue = 0"
  shows "\<exists>udm1 ausf1 amf1 auts amf2 udm2 ausf2 amf3 res_star kamf.
    aka_challenge enc hmac sha256 hexdec snn supi (subscription k opc amf sqn) udm_ue None rand ausf_ue amf_ue =
      Some (udm1, bytes_to_hex (advance_sqn_ind sqn), ausf1, amf1, AuthenticationRequest) \<and>
    ue_authenticate enc hmac snn supi opc k sqn_ms (am_rand amf1) (am_autn amf1) = UeSynchFailure auts \<and>
    handle_authentication_failure ([0x7E, 0, 0x59, 21, 0x30, 14] @ auts) amf1 = (amf2, ReAuthenticate (Some (rand, auts))) \<and>
    aka_challenge enc hmac sha256 hexdec snn supi (subscription k opc amf sqn_udr) udm1
        (Some \<lparr> ri_rand = Some (hexenc rand), ri_auts = Some (hexenc auts) \<rparr>) rand' ausf1 amf2 =
      Some (udm2, bytes_to_hex (advance_sqn_ind (resync_sqn sqn_ms)), ausf2, amf3, AuthenticationRequest) \<and>
    ue_authenticate enc hmac snn supi opc k sqn_ms (am_rand amf3) (am_autn amf3) = UeKeys res_star kamf"
proof -
  from assms(1-3) have sizes: "length opc = 16" "length k = 16" "length rand = 16" "length sqn = 6" "length amf = 2"
    by (simp_all add: subscriber_def)
  have next_size: "length (resync_sqn sqn_ms) = 6" by simp
  obtain autn ik ck ak res where gen: "milenage_generate enc opc amf k sqn rand = Ok (autn, ik, ck, ak, res)"
    using sizes by (simp add: milenage_generate_eq)
  obtain autn' ik' ck' ak' res' where gen': "milenage_generate enc opc amf k (resync_sqn sqn_ms) rand' =
      Ok (autn', ik', ck', ak', res')"
    using sizes assms(4) by (simp add: milenage_generate_eq)
  note sizes' = sizes(1,2) assms(4) next_size sizes(5)
  have autn: "length autn = 16" "length autn' = 16"
    by (rule generate_lengths [OF sizes gen], rule generate_lengths [OF sizes' gen'])
  define auts where "auts = xor_bytes sqn_ms (take 6 (f_out enc opc k rand 96 8)) @ drop 8 (f1_out enc opc k rand sqn_ms [0, 0])"
  have auts: "length auts = 14" using assms(7) by (simp add: auts_def)
  let ?udm1 = "challenged_udm udm_ue snn supi k opc amf sqn rand"
  let ?ausf1 = "challenged_ausf hmac sha256 ausf_ue snn supi rand autn ik ck res"
  let ?amf1 = "challenged_amf sha256 amf_ue rand autn (nextgcore_kdf_xres_star hmac ck ik snn rand res)"
  let ?amf2 = "?amf1\<lparr> am_auth_failure_count := 1 \<rparr>"
  let ?amf3 = "challenged_amf sha256 ?amf2 rand' autn' (nextgcore_kdf_xres_star hmac ck' ik' snn rand' res')"
  have first: "aka_challenge enc hmac sha256 hexdec snn supi (subscription k opc amf sqn) udm_ue None rand ausf_ue amf_ue =
      Some (?udm1, bytes_to_hex (advance_sqn_ind sqn), ?ausf1, ?amf1, AuthenticationRequest)"
    by (rule challenge_result [OF assms(1,3,5,6) _ gen autn(1)]) simp
  have failure: "ue_authenticate enc hmac snn supi opc k sqn_ms (am_rand ?amf1) (am_autn ?amf1) = UeSynchFailure auts"
    using check_generated [OF sizes assms(7) gen] assms(8)
    by (simp add: ue_authenticate_def challenged_amf_def auts_def)
  have again: "handle_authentication_failure ([0x7E, 0, 0x59, 21, 0x30, 14] @ auts) ?amf1 =
      (?amf2, ReAuthenticate (Some (rand, auts)))"
    using assms(10) auts by (simp add: handle_authentication_failure_def challenged_amf_def Let_def)
  have hex: "hexenc bs = bytes_to_hex bs" for bs using assms(6) by (simp add: hex_crate_def)
  have resync: "udm_resync enc \<lparr> ri_rand = Some (hexenc rand), ri_auts = Some (hexenc auts) \<rparr> ue = Ok (ue\<lparr> uu_sqn := resync_sqn sqn_ms \<rparr>)"
    if "uu_k ue = k" "uu_opc ue = opc" "uu_rand ue = uu_rand ?udm1" for ue
    using resync_accepted [OF sizes(2,1,3) assms(7) that(1,2), of enc] that(3)
    by (simp add: hex auts_def challenged_udm_def)
  have second: "aka_challenge enc hmac sha256 hexdec snn supi (subscription k opc amf sqn_udr) ?udm1
      (Some \<lparr> ri_rand = Some (hexenc rand), ri_auts = Some (hexenc auts) \<rparr>) rand' ?ausf1 ?amf2 =
    Some (challenged_udm ?udm1 snn supi k opc amf (resync_sqn sqn_ms) rand', bytes_to_hex (advance_sqn_ind (resync_sqn sqn_ms)),
      challenged_ausf hmac sha256 ?ausf1 snn supi rand' autn' ik' ck' res', ?amf3, AuthenticationRequest)"
    by (rule challenge_result [OF assms(2,4,5,6) _ gen' autn(2)]) (simp add: resync)
  have "be_nat sqn_ms < be_nat (resync_sqn sqn_ms)" using assms(9) by (simp add: be_nat_resync [OF assms(7)])
  then have accepted: "ue_authenticate enc hmac snn supi opc k sqn_ms (am_rand ?amf3) (am_autn ?amf3) =
      UeKeys (nextgcore_kdf_xres_star hmac ck' ik' snn rand' res')
        (nextgcore_kdf_kamf hmac supi [0, 0] (nextgcore_kdf_kseaf hmac snn
           (nextgcore_kdf_common hmac (ck' @ ik') 0x6A [kdf_param snn, kdf_param (take 6 autn')])))"
    using check_generated [OF sizes' assms(7) gen'] autn(2)
    by (simp add: ue_authenticate_def challenged_amf_def nextgcore_kdf_kausf_def)
  from first failure again second accepted show ?thesis by blast
qed

section \<open>Concrete runs\<close>

text \<open>Simple functions in the place of the cryptographic ones, and fresh contexts.\<close>

definition demo_hmac :: mac_fun where
  "demo_hmac key msg = take 32 (key @ msg @ replicate 32 0)"

definition demo_sha256 :: hash_fun where
  "demo_sha256 msg = take 32 (msg @ replicate 32 0)"

definition demo_hexdec :: "bytes \<Rightarrow> bytes option" where
  "demo_hexdec s = (case hex_to_bytes s of Ok bs \<Rightarrow> Some bs | Err () \<Rightarrow> None | Panic \<Rightarrow> None)"

definition demo_udm :: UdmUe where
  "demo_udm = \<lparr> uu_k = [], uu_opc = [], uu_amf = [], uu_sqn = [], uu_rand = [], uu_supi = None, uu_snn = None \<rparr>"

definition demo_ausf :: AusfUe where
  "demo_ausf = \<lparr> au_suci = ascii ''suci-0-001-01-0-0-0-1'', au_supi = None, au_snn = None, au_auth_result = AuthenticationOngoing,
     au_rand = [], au_xres_star = [], au_hxres_star = [], au_kausf = [], au_kseaf = [], au_autn = [] \<rparr>"

definition demo_amf :: AmfUe where
  "demo_amf = \<lparr> am_suci = ascii ''suci-0-001-01-0-0-0-1'', am_supi = None, am_rand = [], am_autn = [], am_hxres_star = [],
     am_abba = [], am_abba_len = 0, am_kamf = [], am_ue_ea = 0xF0, am_ue_ia = 0x70, am_selected_int = 0, am_selected_enc = 0,
     am_knas_int = [], am_knas_enc = [], am_auth_failure_count = 0 \<rparr>"

lemma demo_assumptions [simp]:
  "crypto_lengths demo_hmac demo_sha256" "hex_crate bytes_to_hex demo_hexdec"
  "subscriber (replicate 16 1) (replicate 16 7) [0x80, 0] [0, 0, 0, 0, 0, b]"
  by (auto simp: crypto_lengths_def demo_hmac_def demo_sha256_def hex_crate_def demo_hexdec_def subscriber_def
      bit_numeral_rec min_def)

lemma demo_algorithm:
  "select_integrity_algorithm (wire_caps_to_mask (am_ue_ia demo_amf)) (algorithm_order_to_mask [] 0x0E) = Some 2"
  by (simp add: select_integrity_find bit_and_iff bit_wire_caps algorithm_order_to_mask_def demo_amf_def bit_numeral_rec)

lemma demo_suci: "take 5 (au_suci demo_ausf) = ascii ''suci-''"
  by (simp add: demo_ausf_def ascii_def)

lemma aka_registration_witness:
  "\<exists>udm_ue' ausf_ue' amf_ue' amf_ue'' res_star.
     aka_challenge demo_enc demo_hmac demo_sha256 demo_hexdec [65] [66]
       (subscription (replicate 16 1) (replicate 16 7) [0x80, 0] [0, 0, 0, 0, 0, 64]) demo_udm None (replicate 16 9)
       demo_ausf demo_amf = Some (udm_ue', bytes_to_hex (advance_sqn_ind [0, 0, 0, 0, 0, 64]), ausf_ue', amf_ue', AuthenticationRequest) \<and>
     handle_authentication_response demo_sha256 demo_hmac (aka_confirm demo_hmac bytes_to_hex demo_hexdec ausf_ue') [] []
       ([0x7E, 0, 0x57, 0x2D, 16] @ res_star) amf_ue' = (amf_ue'', SecurityModeCommand) \<and>
     am_supi amf_ue'' = Some [66]"
  using aka_registration [of "replicate 16 1" "replicate 16 7" "[0x80, 0]" "[0, 0, 0, 0, 0, 64]" "replicate 16 9"
      demo_hmac demo_sha256 bytes_to_hex demo_hexdec "[0, 0, 0, 0, 0, 63]" demo_ausf demo_amf "[]" 2 demo_enc "[65]" "[66]"
      demo_udm "[]"] demo_algorithm demo_suci
  by simp blast

lemma aka_resynchronisation_witness:
  "\<exists>udm1 ausf1 amf1 auts amf2.
     aka_challenge demo_enc demo_hmac demo_sha256 demo_hexdec [65] [66]
       (subscription (replicate 16 1) (replicate 16 7) [0x80, 0] [0, 0, 0, 0, 0, 64]) demo_udm None (replicate 16 9)
       demo_ausf demo_amf = Some (udm1, bytes_to_hex (advance_sqn_ind [0, 0, 0, 0, 0, 64]), ausf1, amf1, AuthenticationRequest) \<and>
     handle_authentication_failure ([0x7E, 0, 0x59, 21, 0x30, 14] @ auts) amf1 =
       (amf2, ReAuthenticate (Some (replicate 16 9, auts)))"
  using aka_resynchronisation [of "replicate 16 1" "replicate 16 7" "[0x80, 0]" "[0, 0, 0, 0, 0, 64]" "[0, 0, 0, 0, 0, 96]"
      "replicate 16 9" "replicate 16 3" demo_hmac demo_sha256 bytes_to_hex demo_hexdec "[0, 0, 0, 0, 0, 100]" demo_amf
      demo_enc "[65]" "[66]" demo_udm demo_ausf]
  by (simp add: demo_amf_def) blast

lemma aka_authentic_witness:
  "\<exists>a ue ue'. handle_authentication_response demo_sha256 demo_hmac (aka_confirm demo_hmac bytes_to_hex demo_hexdec a) [] []
      ([0x7E, 0, 0x57, 0x2D, 16] @ replicate 16 5) ue = (ue', SecurityModeCommand) \<and> au_xres_star a = replicate 16 5"
proof -
  let ?a = "demo_ausf\<lparr> au_snn := Some [65], au_supi := Some [66], au_xres_star := replicate 16 5 \<rparr>"
  let ?rs = "replicate 16 5 :: bytes"
  let ?ue = "demo_amf\<lparr> am_hxres_star := nextgcore_kdf_hxres_star demo_sha256 [] ?rs \<rparr>"
  let ?nas = "[0x7E, 0, 0x57, 0x2D, 16] @ ?rs"
  have rs: "find_parameter 0x2D 16 (drop 3 ?nas) = Some ?rs" by simp
  have h: "take 16 (drop 16 (demo_sha256 (am_rand ?ue @ ?rs))) = take 16 (am_hxres_star ?ue)"
    by (simp add: nextgcore_kdf_hxres_star_def demo_amf_def)
  have c: "aka_confirm demo_hmac bytes_to_hex demo_hexdec ?a ?rs =
      Some (True, nextgcore_kdf_kseaf demo_hmac [65] (au_kausf ?a), Some [66])"
    using aka_confirm_eq [of demo_hmac demo_sha256 bytes_to_hex demo_hexdec ?a "[65]" "[66]" ?rs] demo_suci by simp
  have alg: "select_integrity_algorithm (wire_caps_to_mask (am_ue_ia ?ue)) (algorithm_order_to_mask [] 0x0E) = Some 2"
    using demo_algorithm by simp
  obtain ue' where run: "handle_authentication_response demo_sha256 demo_hmac
      (aka_confirm demo_hmac bytes_to_hex demo_hexdec ?a) [] [] ?nas ?ue = (ue', SecurityModeCommand)"
    using response_accepted [where confirm = "aka_confirm demo_hmac bytes_to_hex demo_hexdec ?a" and ?sha256.0 = demo_sha256
        and hmac = demo_hmac and enc_order = "[]", OF rs h c refl alg] by blast
  with aka_authentic [OF demo_assumptions(1,2) _ _ run, of "[65]" "[66]"]
  have "find_parameter 0x2D 16 (drop 3 ?nas) = Some (au_xres_star ?a)" by simp
  with run show ?thesis by (intro exI [of _ ?a] exI [of _ ?ue] exI [of _ ue']) simp
qed

end
