(* ===== verification/Spec2Isabelle.thy ===== *)
theory Spec2Isabelle
  imports Gtp1_Header Pfcp_Header Teid_Pool Gtp2_Xact Nas_Security Aper_Roundtrip Nsacf Timer_Mgr Pool
    Upf_Usage Upf_Path Upf_Pfcp Smf_Session Aka
begin

text \<open>
  NextGCore, a 5G and EPC core network in Rust. This development models the protocol and security
  machinery its network functions share and proves it correct. The program consists of libraries
  (\<^verbatim>\<open>src/src/libs/nextgcore-*\<close>), which hold the codecs, ciphers and protocol layers, and of one binary per
  network function (\<^verbatim>\<open>src/src/bins/nextgcore-*\<close>), which serve HTTP, SCTP and UDP interfaces with them. A UE's
  signalling reaches the AMF as NGAP (aligned PER) with a NAS message inside; the NAS message is
  unprotected by the NAS security layer, which relies on the three 3GPP algorithm sets, with keys that 5G-AKA
  establishes between the UE and the AMF through AUSF and UDM; the EPC interworking
  functions talk GTPv2-C with its transaction layer and TEID pool, the user plane GTPv1-U, and the control
  plane drives the user plane through PFCP: the UPF receives PFCP messages from the SMF, turns them into session
  events, and the events change the rules by which its data plane forwards packets. The NSACF admits UEs and PDU
  sessions to network slices.

  \<^bold>\<open>Theories.\<close>
  \<^item> \<open>Prelude\<close>: machine integers at their Rust widths, octet buffers, results with panics, big-endian
    readers and writers, and the interfaces \<open>octet_enum\<close> (message-type enums) and \<open>byte_codec\<close> (header codecs).
  \<^item> \<open>Gtp_Error\<close>, \<open>Gtp1_Header\<close>, \<open>Gtp2_Header\<close>, \<open>Pfcp_Header\<close>: the headers of \<^verbatim>\<open>nextgcore-gtp\<close>
    (\<^verbatim>\<open>v1/header.rs\<close>, \<^verbatim>\<open>v2/header.rs\<close>) and \<^verbatim>\<open>nextgcore-pfcp\<close> (\<^verbatim>\<open>header.rs\<close>). The enums implement \<open>octet_enum\<close>
    and the headers \<open>byte_codec\<close>: decoding inverts encoding, decoding arbitrary octets never panics and
    returns well-formed headers only.
  \<^item> \<open>Id_Allocator\<close>: the interface \<open>round_robin\<close> of identifier allocators and its uniqueness lemma.
    \<open>Teid_Pool\<close> (\<^verbatim>\<open>v2/teid_pool.rs\<close>) implements it for one thread; a step relation with one atomic access
    per step gives the interleavings of many, what still holds for them and what does not.
  \<^item> \<open>Gtp2_Xact\<close> (\<^verbatim>\<open>v2/xact.rs\<close>): sequence numbers (another \<open>round_robin\<close>), request matching, T3/N3
    retransmission up to exhaustion, the response cache.
  \<^item> \<open>Stream_Cipher\<close>: the interface \<open>xor_cipher\<close> of the confidentiality algorithms, implemented by
    \<open>Snow3g\<close> (\<^verbatim>\<open>snow3g.rs\<close>), \<open>Zuc\<close> (\<^verbatim>\<open>zuc.rs\<close>) and the CTR mode of \<open>Aes_Modes\<close> (\<^verbatim>\<open>aes.rs\<close>, \<^verbatim>\<open>aes_cmac.rs\<close>);
    \<open>Zuc\<close> also relates the shift register to the field it computes in and the EIA3 tag to the standard,
    and \<open>Aes_Modes\<close> has the CBC round trip and the counter.
  \<^item> \<open>Milenage\<close> (\<^verbatim>\<open>nextgcore-crypt/src/milenage.rs\<close>): f1 to f5*, which compute the algorithm of TS 35.206, and the two sides of
    the authentication. \<open>Kdf\<close> (\<^verbatim>\<open>kdf.rs\<close>): the derivations of the 5G and EPS key hierarchies, whose inputs are all different.
    \<open>Aka\<close> (\<^verbatim>\<open>udmd/src/app.rs\<close>, \<^verbatim>\<open>ausfd/src/app.rs\<close>, \<^verbatim>\<open>amfd/src/ngap_path.rs\<close> of the binaries): 5G-AKA from the authentication
    vector to the NAS keys, with agreement, authentication, resynchronisation and the choice of algorithms.
  \<^item> \<open>Secure_Channel\<close>: the interface of a counted channel over a transport that loses frames;
    \<open>Nas_Security\<close> (\<^verbatim>\<open>nextgcore-nas/src/common/security.rs\<close>) implements it on top of the three ciphers, with
    COUNT estimation, integrity and replay checks: delivery, replay protection, and what may change the
    context.
  \<^item> \<open>Aper\<close> and \<open>Aper_Roundtrip\<close> (\<^verbatim>\<open>nextgcore-asn1c/src/per.rs\<close>): the aligned PER coder, the interface
    \<open>aper_codec\<close> of a coded type, and its implementations for integers, enumerations, choices and strings.
  \<^item> \<open>Handle_Table\<close>: the interface of a table that hands out handles and takes them back, implemented by the timer manager
    and the object pools of the core library. \<open>Timer_Mgr\<close> (\<^verbatim>\<open>nextgcore-core/src/timer.rs\<close>) refines a map from timer ids to
    deadlines, \<open>Pool\<close> (\<^verbatim>\<open>pool.rs\<close>) a queue of free handles and a map of items.
  \<^item> \<open>Nsacf\<close> (\<^verbatim>\<open>nextgcore-nsacfd/src/context.rs\<close>): quotas, admission, release and moves as a step relation; the
    counting invariant, the ceilings, and that a release undoes an admission.
  \<^item> \<open>Gtp1_Ext\<close> (\<^verbatim>\<open>nextgcore-gtp/src/v1/types.rs\<close>): extension headers and the PDU Session Container, with its round
    trip. \<open>Ipfw\<close> (\<^verbatim>\<open>nextgcore-ipfw/src\<close>): addresses, ports, rules and packet filter components.
    \<open>Ipfw_Text\<close> (\<^verbatim>\<open>rule.rs\<close>): flow descriptions, their compiler and printer, the round trip, and the texts on which the
    compiler panics.
  \<^item> \<open>Upf_Gtpu\<close> (\<^verbatim>\<open>nextgcore-upfd/src/gtp_path.rs\<close>, \<^verbatim>\<open>data_plane.rs\<close>): the builders and parsers of GTP-U frames, which
    agree with each other, and DSCP marking with its checksum.
  \<^item> \<open>Upf_Session\<close> and \<open>Upf_Data_Plane\<close> (\<^verbatim>\<open>data_plane.rs\<close>): PDRs, FARs, QERs with token buckets, URRs and BARs of a
    session, PDR matching; the session manager, whose shared sessions are references into a heap with three indices;
    the path table; the uplink and downlink handlers, whose effects (TUN writes, datagrams, socket options) are a list;
    flushing, end markers, the session changes that PFCP asks for, usage collection.
  \<^item> \<open>Upf_N4\<close> (\<^verbatim>\<open>n4_build.rs\<close>): the PFCP elements the UPF builds and parses, what its own and the library's parsers
    read back. \<open>Upf_Events\<close> (\<^verbatim>\<open>main.rs\<close>, \<^verbatim>\<open>pfcp_path.rs\<close>): the session events and their effect on the data plane.
  \<^item> \<open>Upf_Index\<close>: the interface \<open>session_index\<close> of one index of the session manager, implemented by its three maps; the
    session manager refines a finite map; the step relation \<open>plane_step\<close> of the data plane (packets, events, reports,
    path rounds in any order) and the invariants of its reachable states: exact indices, sorted rules.
  \<^item> \<open>Upf_Forwarding\<close>: what the uplink and the downlink handlers send, to whom, and how they count it.
    \<open>Upf_Usage\<close>: usage collection returns and reports every reached threshold. \<open>Upf_Path\<close>: path failure detection.
  \<^item> \<open>Upf_Pfcp\<close> (\<^verbatim>\<open>pfcp_path.rs\<close>): the PFCP server with its association, session procedures and report retransmission;
    what it announces to the SMF is what the data plane installs, who may end an association, and that
    retransmission ends.
  \<^item> \<open>Smf_N4\<close> (\<^verbatim>\<open>nextgcore-smfd/src/n4_build.rs\<close>): the messages the SMF builds for the UPF, and what the UPF's
    parsers of \<open>Upf_N4\<close> read of them. \<open>Pfcp_Node\<close> (\<^verbatim>\<open>nextgcore-pfcp/src/ie.rs\<close>, \<^verbatim>\<open>types.rs\<close>, \<^verbatim>\<open>message.rs\<close>): element
    framing and the node-level messages of the PFCP library, and the interface \<open>body_codec\<close> of a message body.
  \<^item> \<open>Smf_Client\<close> (\<^verbatim>\<open>nextgcore-smfd/src/pfcp_path.rs\<close>, \<^verbatim>\<open>timer.rs\<close>): the PFCP client of the SMF with its request
    transactions, associations, heartbeats, choice of a UPF and allocation of SEIDs.
  \<^item> \<open>Smf_Session\<close> (\<^verbatim>\<open>nextgcore-smfd/src/main.rs\<close>): the N4 procedures, and what they do end to end: the message the SMF
    builds is handled by the UPF's server, which changes the data plane, and the response is read by the SMF
    (establishment, activation, handover, release).

  \<^bold>\<open>How Rust is read.\<close> Integers are words of their width, and arithmetic wraps around as in the release profile
  of \<^verbatim>\<open>Cargo.toml\<close>, which does not turn overflow checks on; \<^verbatim>\<open>usize\<close> is a natural number except where it is
  converted or may wrap. A \<^verbatim>\<open>Result\<close> is an \<open>outcome\<close>, whose third case is a panic (an index out of range, a
  read past the end of a buffer). A method with \<^verbatim>\<open>&mut self\<close> returns the new state beside its result, also on
  the error paths. \<^verbatim>\<open>Bytes\<close> and \<^verbatim>\<open>BytesMut\<close> are octet lists, fixed-size arrays are lists with their length as a
  hypothesis, hash maps are association lists, instants are numbers of clock ticks. The AES block cipher and
  CMAC, HMAC-SHA-256, SHA-256 and the hex codec of the crates \<^verbatim>\<open>aes\<close>, \<^verbatim>\<open>cmac\<close>, \<^verbatim>\<open>hmac\<close>, \<^verbatim>\<open>sha2\<close> and \<^verbatim>\<open>hex\<close> are parameters of the definitions; the theorems that need a law about
  them (decryption inverts encryption, for CBC; lengths, and the documented results of the hex codec, for 5G-AKA) have it as a hypothesis. The token buckets compute in \<^verbatim>\<open>f64\<close>, whose
  operations are a parameter (\<open>f64_ops\<close>) without any law. What the operating system answers (the clock, whether a write
  or a send succeeds) is the parameter \<open>os_answers\<close>. The steps of the data plane assume that the SMF establishes a session with
  keys (SEID, TEID, UE address) that no live session has; \<open>Upf_Pfcp\<close> allocates SEIDs and TEIDs from counters.

  A lock that a thread asks for while it holds it is a \<open>Panic\<close>, as the thread does not go on. Handlers run one at a
  time: the locks that the code takes for a whole lookup or update are steps, not interleavings.

  \<^bold>\<open>Bounds.\<close> All loops are total functions with a termination proof, so there is no fuel. The request loop of the SMF
  ends by its own bound, the first transmission and three more; what the network does with each is its parameter. Bit lengths of messages
  are 32-bit numbers in the code; the NAS theorems therefore speak of messages below \<open>2 ^ 28\<close> octets, far
  above any NAS message. A NAS session has at most \<open>2 ^ 32 - 1\<close> messages per direction, the number of COUNTs.

  \<^bold>\<open>Not modelled yet.\<close> Information elements and message bodies of GTPv2-C and of NAS, the session messages of the
  PFCP library; the unaligned PER variant; EAP-AKA'; TLV
  elements and packet buffers of the core library; the state machines of AMF and SMF, the session reports the SMF
  receives, and the SGW-U: these carry logic of their own. Out
  of scope: sockets, HTTP, JSON, databases, configuration, logging and metrics, which are I/O over third-party crates,
  and the message types generated over the PER coder.
\<close>

end
